(* ===== verification/Prelude.thy ===== *)
theory Prelude
  imports Complex_Main "HOL-Library.List_Lexorder" "HOL-Library.Char_ord"
begin

text \<open>
  Shared vocabulary of the development: the error values of the store, the strings of Go
  (byte strings) with the functions of package \<open>strings\<close> the program calls, SQL's
  \<open>COALESCE\<close>, and the generic lemmas on row lists that the table operations rest on.
  Strings are compared byte by byte (\<open>List_Lexorder\<close> over \<open>Char_ord\<close>), which is
  both Go's \<open><\<close> on strings and SQLite's BINARY collation.
\<close>

named_theorems table_simps \<open>unfolding rules for operations on tables\<close>
named_theorems status_simps \<open>rules for run statuses\<close>

subsection \<open>Errors and results\<close>

text \<open>
  The sentinel errors of package \<open>store\<close> and, as \<open>ErrDB\<close>, every other error: a
  driver failure (busy database, expired context) or a wrapped message.
\<close>

datatype store_error =
    ErrNotFound | ErrInvalidTransition | ErrNameConflict | ErrIDConflict
  | ErrQueueInUse | ErrLastQueue | ErrDB string

type_synonym 'a res = "store_error + 'a"

text \<open>
  The outcome the SQL driver chose for one statement or transaction: \<open>None\<close> when it ran,
  \<open>Some msg\<close> when it failed. A failed statement and a rolled back transaction leave the
  database as it was, so one fault value per transaction is enough.
\<close>

type_synonym fault = "string option"

subsection \<open>Options: SQL's COALESCE\<close>

definition coalesce :: "'a option \<Rightarrow> 'a option \<Rightarrow> 'a option" where
  "coalesce a b = (case a of None \<Rightarrow> b | Some x \<Rightarrow> Some x)"

lemma coalesce_simps [simp]:
  "coalesce None b = b"
  "coalesce (Some x) b = Some x"
  "coalesce a None = a"
  by (auto simp: coalesce_def split: option.splits)

definition nullString :: "string \<Rightarrow> string option" where
  "nullString s = (if s = [] then None else Some s)"

subsection \<open>Strings\<close>

text \<open>ASCII white space as \<open>strings.TrimSpace\<close> and \<open>bytes.TrimSpace\<close> remove it.\<close>

definition is_space :: "char \<Rightarrow> bool" where
  "is_space c \<longleftrightarrow> c \<in> {CHR 0x09, CHR 0x0A, CHR 0x0B, CHR 0x0C, CHR 0x0D, CHR '' ''}"

definition TrimSpace :: "string \<Rightarrow> string" where
  "TrimSpace s = rev (dropWhile is_space (rev (dropWhile is_space s)))"

text \<open>ASCII lower casing, byte by byte.\<close>

definition lower_char :: "char \<Rightarrow> char" where
  "lower_char c =
     (if of_char c \<ge> (65::nat) \<and> of_char c \<le> (90::nat) then char_of (of_char c + (32::nat)) else c)"

definition ToLower :: "string \<Rightarrow> string" where
  "ToLower s = map lower_char s"

text \<open>\<open>strings.EqualFold\<close> on ASCII strings.\<close>

definition EqualFold :: "string \<Rightarrow> string \<Rightarrow> bool" where
  "EqualFold a b \<longleftrightarrow> ToLower a = ToLower b"

text \<open>The verb \<open>%q\<close> (\<open>strconv.Quote\<close>): quotes, backslashes and control characters are escaped;
  the bytes of printable UTF-8 text stay as they are.\<close>

definition hex_digit :: "nat \<Rightarrow> char" where
  "hex_digit n = (if n < 10 then char_of (48 + n) else char_of (87 + n))"

definition quote_char :: "char \<Rightarrow> string" where
  "quote_char c =
     (let b = CHR 0x5C; n = (of_char c :: nat)
      in if c = CHR 0x22 \<or> c = b then [b, c]
         else if n = 7 then [b, CHR ''a''] else if n = 8 then [b, CHR ''b''] else if n = 9 then [b, CHR ''t'']
         else if n = 10 then [b, CHR ''n''] else if n = 11 then [b, CHR ''v''] else if n = 12 then [b, CHR ''f'']
         else if n = 13 then [b, CHR ''r'']
         else if n < 32 \<or> n = 127 then [b, CHR ''x'', hex_digit (n div 16), hex_digit (n mod 16)]
         else [c])"

definition quoted :: "string \<Rightarrow> string" where
  "quoted s = [CHR 0x22] @ concat (map quote_char s) @ [CHR 0x22]"

lemma TrimSpace_Nil [simp]: "TrimSpace [] = []"
  by (simp add: TrimSpace_def)

lemma dropWhile_idem_hd: "dropWhile P xs = xs \<longleftrightarrow> xs = [] \<or> \<not> P (hd xs)"
  by (cases xs) (auto, metis impossible_Cons length_dropWhile_le)

lemma TrimSpace_ends:
  assumes "TrimSpace s \<noteq> []"
  shows "\<not> is_space (hd (TrimSpace s)) \<and> \<not> is_space (last (TrimSpace s))"
proof -
  let ?t = "dropWhile is_space s"
  let ?u = "dropWhile is_space (rev ?t)"
  have ne: "?u \<noteq> []" using assms by (simp add: TrimSpace_def)
  then have last_ok: "\<not> is_space (hd ?u)" by (rule hd_dropWhile)
  obtain ys where ys: "rev ?t = ys @ ?u"
    by (metis takeWhile_dropWhile_id)
  then have t: "?t = rev ?u @ rev ys" by (metis rev_append rev_rev_ident)
  then have "?t \<noteq> []" using ne by (metis Nil_is_append_conv Nil_is_rev_conv)
  then have "\<not> is_space (hd ?t)" by (rule hd_dropWhile)
  moreover have "hd ?t = hd (rev ?u)" using ne t by (metis Nil_is_rev_conv hd_append2)
  ultimately show ?thesis using last_ok ne by (simp add: TrimSpace_def last_rev)
qed

lemma TrimSpace_idem [simp]: "TrimSpace (TrimSpace s) = TrimSpace s"
proof (cases "TrimSpace s = []")
  case False
  from TrimSpace_ends [OF this] False show ?thesis
    by (simp add: TrimSpace_def [of "TrimSpace s"] dropWhile_idem_hd [THEN iffD2] hd_rev)
qed simp

subsection \<open>Row lists\<close>

text \<open>
  A table is the list of its rows in insertion order. \<open>SELECT ... WHERE id=?\<close> is
  \<open>find\<close>, \<open>UPDATE ... WHERE\<close> is \<open>update_where\<close>, \<open>DELETE ... WHERE\<close> is
  \<open>delete_where\<close>.
\<close>

definition update_where :: "('r \<Rightarrow> bool) \<Rightarrow> ('r \<Rightarrow> 'r) \<Rightarrow> 'r list \<Rightarrow> 'r list" where
  "update_where P f rs = map (\<lambda>r. if P r then f r else r) rs"

definition delete_where :: "('r \<Rightarrow> bool) \<Rightarrow> 'r list \<Rightarrow> 'r list" where
  "delete_where P rs = filter (\<lambda>r. \<not> P r) rs"

definition affected :: "('r \<Rightarrow> bool) \<Rightarrow> 'r list \<Rightarrow> nat" where
  "affected P rs = length (filter P rs)"

lemma affected_0 [simp]: "affected P rs = 0 \<longleftrightarrow> (\<forall>r\<in>set rs. \<not> P r)"
  by (auto simp: affected_def filter_empty_conv)

lemma affected_pos [simp]: "0 < affected P rs \<longleftrightarrow> (\<exists>r\<in>set rs. P r)"
  using affected_0 [of P rs] by (auto simp del: affected_0)

lemma set_update_where: "set (update_where P f rs) = f ` {r \<in> set rs. P r} \<union> {r \<in> set rs. \<not> P r}"
  by (auto simp: update_where_def)

lemma map_key_update_where:
  assumes "\<And>r. key (f r) = key r"
  shows "map key (update_where P f rs) = map key rs"
  using assms by (auto simp: update_where_def)

lemma update_where_id: "(\<forall>r\<in>set rs. \<not> P r) \<Longrightarrow> update_where P f rs = rs"
  by (induction rs) (auto simp: update_where_def)

lemma find_SomeD: "find P xs = Some x \<Longrightarrow> x \<in> set xs \<and> P x"
  by (induction xs) (auto split: if_splits)

lemma find_None: "find P xs = None \<longleftrightarrow> (\<forall>x\<in>set xs. \<not> P x)"
  by (induction xs) auto

lemma find_key_distinct:
  assumes "distinct (map key rs)" "r \<in> set rs" "key r = k"
  shows "find (\<lambda>x. key x = k) rs = Some r"
  using assms by (induction rs) (auto simp: rev_image_eqI)

lemma find_key_iff:
  assumes "distinct (map key rs)"
  shows "find (\<lambda>x. key x = k) rs = Some r \<longleftrightarrow> r \<in> set rs \<and> key r = k"
proof
  assume "find (\<lambda>x. key x = k) rs = Some r"
  from find_SomeD [OF this] show "r \<in> set rs \<and> key r = k" .
next
  assume "r \<in> set rs \<and> key r = k"
  then show "find (\<lambda>x. key x = k) rs = Some r" by (intro find_key_distinct [OF assms]) auto
qed

lemma find_update_where:
  assumes key: "\<And>r. key (f r) = key r"
  shows "find (\<lambda>x. key x = k) (update_where P f rs) =
         map_option (\<lambda>r. if P r then f r else r) (find (\<lambda>x. key x = k) rs)"
  by (induction rs) (auto simp: update_where_def key)

lemma find_append:
  "find P (xs @ ys) = (case find P xs of None \<Rightarrow> find P ys | Some x \<Rightarrow> Some x)"
  by (induction xs) auto

text \<open>Tables whose ids grow along the row list (\<open>AUTOINCREMENT\<close> without explicit ids).\<close>

definition ids_below :: "('r \<Rightarrow> int) \<Rightarrow> int \<Rightarrow> 'r list \<Rightarrow> bool" where
  "ids_below key n rs \<longleftrightarrow> sorted_wrt (<) (map key rs) \<and> (\<forall>r\<in>set rs. 0 < key r \<and> key r \<le> n)"

lemma ids_below_Nil [simp]: "ids_below key n []"
  by (simp add: ids_below_def)

lemma ids_below_distinct: "ids_below key n rs \<Longrightarrow> distinct (map key rs)"
  by (simp add: ids_below_def strict_sorted_iff)

lemma ids_below_append_new:
  "ids_below key n rs \<Longrightarrow> key r = n + 1 \<Longrightarrow> 0 \<le> n \<Longrightarrow> ids_below key (n + 1) (rs @ [r])"
  by (auto simp: ids_below_def sorted_wrt_append)

lemma ids_below_update_where:
  assumes "\<And>r. key (f r) = key r"
  shows "ids_below key n (update_where P f rs) = ids_below key n rs"
proof -
  have keys: "map key (update_where P f rs) = map key rs"
    using assms by (rule map_key_update_where)
  have bounds: "(\<forall>r\<in>set xs. 0 < key r \<and> key r \<le> n) \<longleftrightarrow> (\<forall>k\<in>set (map key xs). 0 < k \<and> k \<le> n)" for xs
    by simp
  show ?thesis unfolding ids_below_def bounds keys ..
qed

lemma ids_below_filter: "ids_below key n rs \<Longrightarrow> ids_below key n (filter P rs)"
  by (auto simp: ids_below_def sorted_wrt_filter sorted_wrt_map)

end
