(* ===== verification/Json.thy ===== *)
theory Json
  imports Prelude
begin

text \<open>
  JSON documents as the program sees them through \<open>encoding/json\<close>: a value tree, and
  \<open>json.RawMessage\<close> as either no bytes, bytes that do not parse, or a parsed document
  (its insignificant white space dropped).
  Objects keep their members in order, because a repeated key is decoded by its last
  occurrence; numbers keep the exact value of the literal.
\<close>

datatype json =
    JNull | JBool bool | JNum rat | JStr string | JArr "json list" | JObj "(string \<times> json) list"

datatype raw = RawEmpty | RawBad string | RawDoc json

text \<open>\<open>json.Unmarshal(raw, &m)\<close> into a map: the last occurrence of a key wins, \<open>null\<close> gives
  the nil map, any other document or broken text is an error.\<close>

definition obj_map :: "(string \<times> json) list \<Rightarrow> string \<rightharpoonup> json" where
  "obj_map kvs = map_of (rev kvs)"

fun unmarshal_map :: "raw \<Rightarrow> (string \<rightharpoonup> json) option" where
  "unmarshal_map (RawDoc (JObj kvs)) = Some (obj_map kvs)"
| "unmarshal_map (RawDoc JNull) = Some Map.empty"
| "unmarshal_map _ = None"

fun unmarshal_list :: "json \<Rightarrow> json list option" where
  "unmarshal_list (JArr xs) = Some xs"
| "unmarshal_list JNull = Some []"
| "unmarshal_list _ = None"

lemma obj_map_Nil [simp]: "obj_map [] = Map.empty"
  by (simp add: obj_map_def)

lemma obj_map_snoc [simp]: "obj_map (kvs @ [(k, v)]) = (obj_map kvs)(k \<mapsto> v)"
  by (simp add: obj_map_def)

subsection \<open>Decoding a document into a struct\<close>

text \<open>
  \<open>json.Unmarshal\<close> assigns a struct field for every member whose key matches the field's
  name up to (ASCII) case, in document order. \<open>null\<close> leaves a plain field alone and clears a
  pointer field; a value of the wrong type is an error wherever it occurs.
\<close>

definition field_vals :: "string \<Rightarrow> (string \<times> json) list \<Rightarrow> json list" where
  "field_vals name kvs = map snd (filter (\<lambda>(k, v). EqualFold k name) kvs)"

definition dec_scalar :: "(json \<Rightarrow> 'a option) \<Rightarrow> 'a \<Rightarrow> string \<Rightarrow> (string \<times> json) list \<Rightarrow> 'a option" where
  "dec_scalar f dflt name kvs =
     foldl (\<lambda>acc v. case acc of None \<Rightarrow> None | Some x \<Rightarrow> if v = JNull then Some x else f v)
       (Some dflt) (field_vals name kvs)"

definition dec_ptr :: "(json \<Rightarrow> 'a option) \<Rightarrow> string \<Rightarrow> (string \<times> json) list \<Rightarrow> 'a option option" where
  "dec_ptr f name kvs =
     foldl (\<lambda>acc v. case acc of None \<Rightarrow> None | Some x \<Rightarrow> if v = JNull then Some None else map_option Some (f v))
       (Some None) (field_vals name kvs)"

definition dec_raw :: "string \<Rightarrow> (string \<times> json) list \<Rightarrow> raw" where
  "dec_raw name kvs = (case field_vals name kvs of [] \<Rightarrow> RawEmpty | vs \<Rightarrow> RawDoc (last vs))"

fun as_str :: "json \<Rightarrow> string option" where
  "as_str (JStr s) = Some s"
| "as_str _ = None"

fun as_bool :: "json \<Rightarrow> bool option" where
  "as_bool (JBool b) = Some b"
| "as_bool _ = None"

fun as_num :: "json \<Rightarrow> rat option" where
  "as_num (JNum x) = Some x"
| "as_num _ = None"

text \<open>An integer field takes a number without fractional part that fits \<open>int64\<close>. (The decoder also
  refuses a whole number spelt with a fraction or an exponent, such as \<open>1.0\<close>; \<open>JNum\<close> does not keep
  the spelling, and no encoder of the program produces it.)\<close>

fun as_int :: "json \<Rightarrow> int option" where
  "as_int (JNum x) = (if of_int \<lfloor>x\<rfloor> = x \<and> - (2^63) \<le> \<lfloor>x\<rfloor> \<and> \<lfloor>x\<rfloor> < 2^63 then Some \<lfloor>x\<rfloor> else None)"
| "as_int _ = None"

text \<open>The members of the document a struct is decoded from: \<open>null\<close> decodes to the zero value.\<close>

fun members :: "raw \<Rightarrow> (string \<times> json) list option" where
  "members (RawDoc (JObj kvs)) = Some kvs"
| "members (RawDoc JNull) = Some []"
| "members _ = None"

end
