(* ===== verification/Database.thy ===== *)
theory Database
  imports Json
begin

text \<open>
  The SQLite database of package \<open>store\<close>: one record per table row (the Go structs the
  scan functions fill), a table as its row list with its \<open>AUTOINCREMENT\<close> sequence, and the
  database as the record of its tables (\<open>internal/store/migrations/*.sql\<close>). The status,
  trigger and action columns are datatypes with the values their CHECK constraints admit.
  Timestamps are the fixed-width UTC texts the schema stores. Row ids are \<open>int\<close>: SQLite
  refuses an insert past the largest rowid rather than wrapping around.
\<close>

type_synonym float64 = rat

subsection \<open>Enumerated columns\<close>

datatype run_status = Queued | Running | Done | Failed | Canceled | Skipped

datatype trigger = Cron | Manual | Reexec | Api

datatype result_status = ROk | RFailed | RDegraded

datatype action = ACreate | AUpdate | ADelete | ARevert | ARestore

subsection \<open>Rows\<close>

record queue =
  q_id :: int
  q_name :: string
  q_created_at :: string

text \<open>The columns of \<open>targets\<close>; \<open>target\<close> adds the queue name the join resolves.\<close>

record target_row =
  t_id :: int
  t_name :: string
  t_engine :: string
  t_enabled :: bool
  t_queue_id :: int
  t_options :: raw
  t_thresholds :: raw
  t_rotation_index :: int
  t_created_at :: string
  t_updated_at :: string

record target = target_row +
  t_queue_name :: string

record revision =
  rev_id :: int
  rev_target_id :: int
  rev_version :: int
  rev_action :: action
  rev_snapshot :: raw
  rev_created_at :: string

record schedule_row =
  s_id :: int
  s_name :: string
  s_cron :: string
  s_enabled :: bool
  s_timezone :: string
  s_created_at :: string
  s_updated_at :: string

record schedule = schedule_row +
  s_target_ids :: "int list"
  s_last_run :: "(run_status \<times> string) option"

record schedule_target =
  st_schedule_id :: int
  st_target_id :: int
  st_position :: int

record run =
  run_id :: int
  run_schedule_id :: "int option"
  run_trigger :: trigger
  run_state :: run_status
  run_started_at :: "string option"
  run_finished_at :: "string option"
  run_error :: "string option"

record result =
  res_id :: int
  res_run_id :: "int option"
  res_target_id :: "int option"
  res_target_name :: string
  res_engine :: string
  res_options_snapshot :: raw
  res_status :: result_status
  res_error :: string
  res_started_at :: string
  res_duration_ms :: int
  res_download_bps :: float64
  res_upload_bps :: float64
  res_ping_ms :: float64
  res_jitter_ms :: float64
  res_packet_loss_pct :: float64
  res_bytes_down :: int
  res_bytes_up :: int
  res_server_id :: string
  res_server_name :: string
  res_server_host :: string
  res_isp :: string
  res_external_ip :: string
  res_result_url :: string
  res_raw :: raw

record tag =
  tag_id :: int
  tag_name :: string

record notify_state =
  ns_last_fired_at :: string
  ns_firing :: bool

text \<open>The columns of \<open>sessions\<close>: the group names are a JSON text, both times are texts.\<close>

record session_row =
  sr_id :: string
  sr_subject :: string
  sr_email :: string
  sr_name :: string
  sr_username :: string
  sr_groups :: raw
  sr_is_admin :: bool
  sr_created_at :: string
  sr_expires_at :: string

text \<open>The columns of \<open>api_tokens\<close>; \<open>tok_hash\<close> is \<open>UNIQUE\<close>.\<close>

record api_token_row =
  tok_id :: int
  tok_name :: string
  tok_hash :: string
  tok_prefix :: string
  tok_created_at :: string
  tok_last_used_at :: "string option"

record iperf3_server =
  ip_id :: int
  ip_host :: string
  ip_port :: int
  ip_port_end :: int
  ip_options :: string
  ip_supports_reverse :: bool
  ip_supports_udp :: bool
  ip_supports_ipv6 :: bool
  ip_gbs :: string
  ip_continent :: string
  ip_country :: string
  ip_site :: string
  ip_provider :: string

subsection \<open>The database\<close>

record 'r tbl =
  rows :: "'r list"
  seq :: int

record db =
  queues_t :: "queue tbl"
  targets_t :: "target_row tbl"
  revisions_t :: "revision tbl"
  schedules_t :: "schedule_row tbl"
  schedule_targets_t :: "schedule_target list"
  runs_t :: "run tbl"
  results_t :: "result tbl"
  tags_t :: "tag tbl"
  result_tags_t :: "(int \<times> int) list"
  notification_state_t :: "(int \<times> string) \<rightharpoonup> notify_state"
  sessions_t :: "session_row list"
  api_tokens_t :: "api_token_row tbl"
  settings_t :: "string \<rightharpoonup> raw"
  iperf3_servers_t :: "iperf3_server tbl"
  iperf3_meta_t :: "string \<rightharpoonup> string"

text \<open>
  \<open>INSERT\<close> without an explicit id: \<open>AUTOINCREMENT\<close> takes one more than the largest id
  the table ever held, so an id is never reused.
\<close>

definition insert_row :: "(int \<Rightarrow> 'r) \<Rightarrow> 'r tbl \<Rightarrow> 'r tbl" where
  "insert_row mk t = t\<lparr>rows := rows t @ [mk (seq t + 1)], seq := seq t + 1\<rparr>"

definition map_rows :: "('r list \<Rightarrow> 'r list) \<Rightarrow> 'r tbl \<Rightarrow> 'r tbl" where
  "map_rows f t = t\<lparr>rows := f (rows t)\<rparr>"

definition tbl_ok :: "('r \<Rightarrow> int) \<Rightarrow> 'r tbl \<Rightarrow> bool" where
  "tbl_ok key t \<longleftrightarrow> 0 \<le> seq t \<and> ids_below key (seq t) (rows t)"

text \<open>
  Deleting result rows: \<open>result_tags.result_id\<close> is \<open>ON DELETE CASCADE\<close>.
\<close>

definition delete_results :: "(result \<Rightarrow> bool) \<Rightarrow> db \<Rightarrow> db" where
  "delete_results P d =
     (let gone = res_id ` set (filter P (rows (results_t d)))
      in d\<lparr>results_t := map_rows (delete_where P) (results_t d),
           result_tags_t := filter (\<lambda>(r, t). r \<notin> gone) (result_tags_t d)\<rparr>)"

lemma rows_insert_row [simp]: "rows (insert_row mk t) = rows t @ [mk (seq t + 1)]"
  by (simp add: insert_row_def)

lemma seq_insert_row [simp]: "seq (insert_row mk t) = seq t + 1"
  by (simp add: insert_row_def)

lemma rows_map_rows [simp]: "rows (map_rows f t) = f (rows t)"
  by (simp add: map_rows_def)

lemma seq_map_rows [simp]: "seq (map_rows f t) = seq t"
  by (simp add: map_rows_def)

lemma tbl_ok_insert_row:
  assumes "tbl_ok key t" "key (mk (seq t + 1)) = seq t + 1"
  shows "tbl_ok key (insert_row mk t)"
  using assms by (auto simp: tbl_ok_def intro: ids_below_append_new)

lemma tbl_ok_update:
  assumes "\<And>r. key (f r) = key r"
  shows "tbl_ok key (map_rows (update_where P f) t) = tbl_ok key t"
  using assms by (simp add: tbl_ok_def ids_below_update_where)

lemma tbl_ok_filter: "tbl_ok key t \<Longrightarrow> tbl_ok key (map_rows (filter P) t)"
  by (auto simp: tbl_ok_def intro: ids_below_filter)

lemma tbl_ok_distinct: "tbl_ok key t \<Longrightarrow> distinct (map key (rows t))"
  by (auto simp: tbl_ok_def dest: ids_below_distinct)

lemma tbl_ok_bump: "tbl_ok key t \<Longrightarrow> tbl_ok key (t\<lparr>seq := seq t + 1\<rparr>)"
  by (auto simp: tbl_ok_def ids_below_def)

lemma tbl_ok_fresh: "tbl_ok key t \<Longrightarrow> r \<in> set (rows t) \<Longrightarrow> key r < seq t + 1"
  by (auto simp: tbl_ok_def ids_below_def)

subsection \<open>The database before its first row\<close>

definition empty_tbl :: "'r tbl" where
  "empty_tbl = \<lparr>rows = [], seq = 0\<rparr>"

definition empty_db :: db where
  "empty_db = \<lparr>queues_t = empty_tbl, targets_t = empty_tbl, revisions_t = empty_tbl,
     schedules_t = empty_tbl, schedule_targets_t = [], runs_t = empty_tbl, results_t = empty_tbl,
     tags_t = empty_tbl, result_tags_t = [], notification_state_t = Map.empty, sessions_t = [],
     api_tokens_t = empty_tbl, settings_t = Map.empty, iperf3_servers_t = empty_tbl,
     iperf3_meta_t = Map.empty\<rparr>"

end
