(* ===== verification/Go_Time.thy ===== *)
theory Go_Time
  imports Prelude
begin

text \<open>
  The part of Go's package \<open>time\<close> the program uses. An instant (\<open>time.Time\<close>) is the number of
  nanoseconds since the zero time, 1 January of year 1, 00:00 UTC; a \<open>Duration\<close> is a 64-bit number of
  nanoseconds and \<open>Sub\<close> saturates at its bounds. The civil date of a day number follows the proleptic
  Gregorian calendar. \<open>Format_frac\<close> and \<open>Parse_frac\<close> are \<open>Format\<close> and \<open>Parse\<close> for the layouts
  \<open>2006-01-02T15:04:05.000Z\<close> (3 digits, every timestamp of the schema) and the one with 9 digits (the
  sessions table), on UTC times. The lemmas show that parsing undoes formatting up to the printed
  precision, and that the texts are ordered like the instants: SQL compares them as text.
  A time zone (IANA data, outside the program) is the function giving its offset in seconds at an
  instant.
\<close>

type_synonym time = int
type_synonym duration = int
type_synonym location = "time \<Rightarrow> int"

subsection \<open>Durations\<close>

definition ns_per_sec :: int where "ns_per_sec = 1000000000"
definition Second :: duration where "Second = 1000000000"
definition Minute :: duration where "Minute = 60 * Second"
definition Hour :: duration where "Hour = 60 * Minute"
definition ns_per_day :: int where "ns_per_day = 86400000000000"

lemmas duration_defs = ns_per_sec_def Second_def Minute_def Hour_def ns_per_day_def

definition maxDuration :: duration where "maxDuration = 9223372036854775807"
definition minDuration :: duration where "minDuration = - 9223372036854775808"

text \<open>Two's complement wrap-around of a 64-bit result.\<close>

definition wrap64 :: "int \<Rightarrow> int" where
  "wrap64 x = (x + 9223372036854775808) mod 18446744073709551616 - 9223372036854775808"

definition time_Sub :: "time \<Rightarrow> time \<Rightarrow> duration" where
  "time_Sub a b = (if a - b > maxDuration then maxDuration else if a - b < minDuration then minDuration else a - b)"

definition IsZero :: "time \<Rightarrow> bool" where
  "IsZero t \<longleftrightarrow> t = 0"

text \<open>1 January 1970.\<close>

definition unix_epoch :: time where
  "unix_epoch = 719162 * ns_per_day"

definition UnixMilli :: "time \<Rightarrow> int" where
  "UnixMilli t = (t - unix_epoch) div 1000000"

lemma wrap64_id: "minDuration \<le> x \<Longrightarrow> x \<le> maxDuration \<Longrightarrow> wrap64 x = x"
  by (simp add: wrap64_def minDuration_def maxDuration_def)

lemma wrap64_range: "minDuration \<le> wrap64 x \<and> wrap64 x \<le> maxDuration"
  by (auto simp: wrap64_def minDuration_def maxDuration_def)

subsection \<open>The calendar\<close>

definition isLeap :: "int \<Rightarrow> bool" where
  "isLeap y \<longleftrightarrow> y mod 4 = 0 \<and> (y mod 100 \<noteq> 0 \<or> y mod 400 = 0)"

text \<open>Days before 1 January of year \<open>y\<close>.\<close>

definition days_before_year :: "int \<Rightarrow> int" where
  "days_before_year y = 365 * (y - 1) + (y - 1) div 4 - (y - 1) div 100 + (y - 1) div 400"

definition month_days :: "int \<Rightarrow> int list" where
  "month_days y = [31, if isLeap y then 29 else 28, 31, 30, 31, 30, 31, 31, 30, 31, 30, 31]"

lemma div_pred:
  assumes "0 < n"
  shows "(y - 1 :: int) div n = y div n - (if y mod n = 0 then 1 else 0)"
proof -
  have y: "y = n * (y div n) + y mod n" by simp
  have b: "0 \<le> y mod n" "y mod n < n" using assms by simp_all
  show ?thesis
  proof (cases "y mod n = 0")
    case True
    have "y - 1 = n * (y div n - 1) + (n - 1)" using y True by (simp add: algebra_simps)
    from int_div_pos_eq [OF this] True assms show ?thesis by simp
  next
    case False
    have "y - 1 = n * (y div n) + (y mod n - 1)" using y by simp
    from int_div_pos_eq [OF this] False b show ?thesis by simp
  qed
qed

lemma days_before_year_Suc:
  "days_before_year (y + 1) = days_before_year y + (if isLeap y then 366 else 365)"
proof -
  have "y mod 4 = 0" if "y mod 100 = 0" using that dvd_trans [of 4 100 y] by (simp add: mod_eq_0_iff_dvd)
  moreover have "y mod 100 = 0" if "y mod 400 = 0" using that dvd_trans [of 100 400 y] by (simp add: mod_eq_0_iff_dvd)
  ultimately show ?thesis by (simp add: days_before_year_def isLeap_def div_pred)
qed

lemma sum_month_days: "sum_list (month_days y) = (if isLeap y then 366 else 365)"
  by (simp add: month_days_def)

lemma length_month_days [simp]: "length (month_days y) = 12"
  by (simp add: month_days_def)

function find_year :: "int \<Rightarrow> int \<Rightarrow> int" where
  "find_year y d = (if days_before_year (y + 1) \<le> d then find_year (y + 1) d else y)"
  by auto
termination
  by (relation "measure (\<lambda>(y, d). nat (d + 1 - days_before_year (y + 1)))")
     (use days_before_year_Suc [of "y + 1" for y] in \<open>auto simp: add.assoc\<close>)

declare find_year.simps [simp del]

definition year_of :: "int \<Rightarrow> int" where
  "year_of d = find_year (d div 366 + 1) d"

fun split_month :: "int list \<Rightarrow> int \<Rightarrow> int \<Rightarrow> int \<times> int" where
  "split_month [] m d = (m, d)"
| "split_month (l # ls) m d = (if d < l then (m, d) else split_month ls (m + 1) (d - l))"

text \<open>Year, month and day of the month of a day number.\<close>

definition civil :: "int \<Rightarrow> int \<times> int \<times> int" where
  "civil d =
     (let y = year_of d; (m, r) = split_month (month_days y) 1 (d - days_before_year y) in (y, m, r + 1))"

definition day_number :: "int \<Rightarrow> int \<Rightarrow> int \<Rightarrow> int" where
  "day_number y m day = days_before_year y + sum_list (take (nat (m - 1)) (month_days y)) + (day - 1)"

lemma find_year_bounds:
  "days_before_year y \<le> d \<Longrightarrow> days_before_year (find_year y d) \<le> d \<and> d < days_before_year (find_year y d + 1) \<and> y \<le> find_year y d"
proof (induction y d rule: find_year.induct)
  case (1 y d)
  show ?case
  proof (cases "days_before_year (y + 1) \<le> d")
    case True
    with 1 show ?thesis by (subst (1 2 3) find_year.simps) simp
  next
    case False
    with 1 show ?thesis by (subst (1 2 3) find_year.simps) simp
  qed
qed

lemma year_of_bounds:
  assumes "0 \<le> d"
  shows "days_before_year (year_of d) \<le> d" "d < days_before_year (year_of d + 1)" "1 \<le> year_of d"
proof -
  have "days_before_year (d div 366 + 1) \<le> d"
  proof -
    let ?q = "d div 366"
    have "0 \<le> ?q" "366 * ?q \<le> d" using assms by auto
    moreover have "?q div 4 \<le> ?q" using calculation(1) zdiv_mono2 [of ?q 1 4] by simp
    moreover have "?q div 400 \<le> ?q div 100" using calculation(1) by (intro zdiv_mono2) auto
    ultimately show ?thesis by (simp add: days_before_year_def)
  qed
  moreover have "0 \<le> d div 366" using assms by simp
  ultimately show "days_before_year (year_of d) \<le> d" "d < days_before_year (year_of d + 1)" "1 \<le> year_of d"
    using find_year_bounds [of "d div 366 + 1" d] unfolding year_of_def by linarith+
qed

lemma split_month_spec:
  assumes "0 \<le> d" "d < sum_list ls" "split_month ls m d = (m', r)"
  shows "m \<le> m'" "m' < m + int (length ls)" "0 \<le> r" "r < ls ! nat (m' - m)"
    "d = sum_list (take (nat (m' - m)) ls) + r"
proof -
  have "m \<le> m' \<and> m' < m + int (length ls) \<and> 0 \<le> r \<and> r < ls ! nat (m' - m) \<and> d = sum_list (take (nat (m' - m)) ls) + r"
    using assms
  proof (induction ls arbitrary: m d)
    case (Cons l ls)
    show ?case
    proof (cases "d < l")
      case True
      with Cons.prems show ?thesis by auto
    next
      case False
      with Cons.prems Cons.IH [of "d - l" "m + 1"] have IH: "m + 1 \<le> m'" "m' < m + 1 + int (length ls)" "0 \<le> r"
        "r < ls ! nat (m' - (m + 1))" "d - l = sum_list (take (nat (m' - (m + 1))) ls) + r" by auto
      have "nat (m' - m) = Suc (nat (m' - (m + 1)))" using IH(1) by linarith
      with IH show ?thesis by simp
    qed
  qed simp
  then show "m \<le> m'" "m' < m + int (length ls)" "0 \<le> r" "r < ls ! nat (m' - m)"
    "d = sum_list (take (nat (m' - m)) ls) + r" by auto
qed

lemma civil_spec:
  assumes "0 \<le> d" "civil d = (y, m, day)"
  shows "1 \<le> y" "1 \<le> m" "m \<le> 12" "1 \<le> day" "day \<le> month_days y ! nat (m - 1)" "day_number y m day = d"
proof -
  from assms(2) obtain r where y: "y = year_of d"
    and s: "split_month (month_days y) 1 (d - days_before_year y) = (m, r)" and day: "day = r + 1"
    by (auto simp: civil_def Let_def split: prod.splits)
  note b = year_of_bounds [OF assms(1), folded y]
  have "0 \<le> d - days_before_year y" "d - days_before_year y < sum_list (month_days y)"
    using b by (simp_all add: sum_month_days days_before_year_Suc)
  from split_month_spec [OF this s] b(3) day
  show "1 \<le> y" "1 \<le> m" "m \<le> 12" "1 \<le> day" "day \<le> month_days y ! nat (m - 1)" "day_number y m day = d"
    by (simp_all add: day_number_def)
qed


subsection \<open>Digits\<close>

definition digit_char :: "int \<Rightarrow> char" where
  "digit_char n = char_of (nat (48 + n))"

definition is_digit :: "char \<Rightarrow> bool" where
  "is_digit c \<longleftrightarrow> 48 \<le> (of_char c :: nat) \<and> (of_char c :: nat) \<le> 57"

definition digit_val :: "char \<Rightarrow> int" where
  "digit_val c = int (of_char c) - 48"

text \<open>Exactly \<open>w\<close> digits.\<close>

fun pad :: "nat \<Rightarrow> int \<Rightarrow> string" where
  "pad 0 n = []"
| "pad (Suc w) n = pad w (n div 10) @ [digit_char (n mod 10)]"

text \<open>\<open>strconv.Itoa\<close>.\<close>

fun nat_digits :: "nat \<Rightarrow> string" where
  "nat_digits n = (if n < 10 then [digit_char (int n)] else nat_digits (n div 10) @ [digit_char (int (n mod 10))])"

declare nat_digits.simps [simp del]

definition Itoa :: "int \<Rightarrow> string" where
  "Itoa n = (if n < 0 then CHR ''-'' # nat_digits (nat (- n)) else nat_digits (nat n))"

text \<open>The year of a layout has at least four digits.\<close>

definition year_text :: "int \<Rightarrow> string" where
  "year_text y = (if y < 10000 then pad 4 y else Itoa y)"

definition digits_val :: "string \<Rightarrow> int" where
  "digits_val s = foldl (\<lambda>n c. 10 * n + digit_val c) 0 s"

lemma digit_char_simps [simp]:
  assumes "0 \<le> n" "n < 10"
  shows "of_char (digit_char n) = nat (48 + n)" "is_digit (digit_char n)" "digit_val (digit_char n) = n"
proof -
  have "nat (48 + n) < 256" using assms by linarith
  then show 1: "of_char (digit_char n) = nat (48 + n)" by (simp add: digit_char_def)
  show "is_digit (digit_char n)" using assms by (simp add: is_digit_def 1) linarith
  show "digit_val (digit_char n) = n" using assms by (simp add: digit_val_def 1)
qed

lemma length_pad [simp]: "length (pad w n) = w"
  by (induction w n rule: pad.induct) auto

lemma pad_digits: "list_all is_digit (pad w n)"
  by (induction w n rule: pad.induct) auto

lemma digits_val_pad: "0 \<le> n \<Longrightarrow> n < 10 ^ w \<Longrightarrow> digits_val (pad w n) = n"
proof (induction w n rule: pad.induct)
  case (2 w n)
  from 2 have "n div 10 < 10 ^ w" by (simp add: div_less_iff_less_mult [of 10] algebra_simps) 
  with 2 show ?case by (simp add: digits_val_def)
qed (simp add: digits_val_def)

lemma less_list_append:
  "length xs = length ys \<Longrightarrow> (xs @ us < ys @ vs) \<longleftrightarrow> (xs < ys \<or> xs = ys \<and> us < (vs :: 'a :: order list))"
  by (induction xs ys rule: list_induct2) auto

lemma digit_char_less: "0 \<le> a \<Longrightarrow> a < 10 \<Longrightarrow> 0 \<le> b \<Longrightarrow> b < 10 \<Longrightarrow> digit_char a < digit_char b \<longleftrightarrow> a < b"
  by (auto simp: less_char_def)

lemma pad_inject: "0 \<le> a \<Longrightarrow> a < 10 ^ w \<Longrightarrow> 0 \<le> b \<Longrightarrow> b < 10 ^ w \<Longrightarrow> pad w a = pad w b \<longleftrightarrow> a = b"
  by (metis digits_val_pad)

lemma pad_less: "0 \<le> a \<Longrightarrow> a < 10 ^ w \<Longrightarrow> 0 \<le> b \<Longrightarrow> b < 10 ^ w \<Longrightarrow> pad w a < pad w b \<longleftrightarrow> a < b"
proof (induction w arbitrary: a b)
  case (Suc w)
  have r: "0 \<le> a div 10" "a div 10 < 10 ^ w" "0 \<le> b div 10" "b div 10 < 10 ^ w"
    using Suc.prems by (simp_all add: div_less_iff_less_mult algebra_simps)
  have "(q < p \<or> q = p \<and> x < y) \<longleftrightarrow> 10 * q + x < 10 * p + y" if "0 \<le> x" "x < 10" "0 \<le> y" "y < 10" for p q x y :: int
    using that by presburger
  from this [of "a mod 10" "b mod 10" "a div 10" "b div 10"]
  have "a div 10 < b div 10 \<or> a div 10 = b div 10 \<and> a mod 10 < b mod 10 \<longleftrightarrow> a < b" by simp
  with Suc.IH [OF r] pad_inject [OF r] show ?case
    by (simp add: less_list_append digit_char_less)
qed simp


subsection \<open>Formatting\<close>

definition date_text :: "time \<Rightarrow> string" where
  "date_text t = (let (y, m, day) = civil (t div ns_per_day)
     in year_text y @ [CHR ''-''] @ pad 2 m @ [CHR ''-''] @ pad 2 day)"

definition sec_of_day :: "time \<Rightarrow> int" where
  "sec_of_day t = t mod ns_per_day div ns_per_sec"

definition clock_text :: "time \<Rightarrow> string" where
  "clock_text t = (let s = sec_of_day t
     in pad 2 (s div 3600) @ [CHR '':''] @ pad 2 (s div 60 mod 60) @ [CHR '':''] @ pad 2 (s mod 60))"

text \<open>The last digit of an \<open>nd\<close>-digit fraction, in nanoseconds.\<close>

definition frac_unit :: "nat \<Rightarrow> int" where
  "frac_unit nd = 10 ^ (9 - nd)"

definition Format_frac :: "nat \<Rightarrow> time \<Rightarrow> string" where
  "Format_frac nd t = date_text t @ [CHR ''T''] @ clock_text t @ [CHR ''.''] @
     pad nd (t mod ns_per_sec div frac_unit nd) @ [CHR ''Z'']"

definition Format_RFC3339 :: "time \<Rightarrow> string" where
  "Format_RFC3339 t = date_text t @ [CHR ''T''] @ clock_text t @ [CHR ''Z'']"

subsection \<open>Parsing\<close>

definition lit :: "char \<Rightarrow> string \<Rightarrow> string option" where
  "lit c s = (case s of x # xs \<Rightarrow> if x = c then Some xs else None | [] \<Rightarrow> None)"

fun getnum :: "bool \<Rightarrow> string \<Rightarrow> (int \<times> string) option" where
  "getnum fixed (a # b # s) =
     (if \<not> is_digit a then None
      else if is_digit b then Some (10 * digit_val a + digit_val b, s)
      else if fixed then None else Some (digit_val a, b # s))"
| "getnum fixed [a] = (if is_digit a \<and> \<not> fixed then Some (digit_val a, []) else None)"
| "getnum fixed [] = None"

definition get_year :: "string \<Rightarrow> (int \<times> string) option" where
  "get_year s = (if 4 \<le> length s \<and> list_all is_digit (take 4 s) then Some (digits_val (take 4 s), drop 4 s) else None)"

text \<open>\<open>time.atoi\<close>: an optional sign and digits.\<close>

definition time_atoi :: "string \<Rightarrow> int option" where
  "time_atoi s =
     (let neg = (s \<noteq> [] \<and> hd s = CHR ''-'');
          ds = (if s \<noteq> [] \<and> (hd s = CHR ''-'' \<or> hd s = CHR ''+'') then tl s else s)
      in if list_all is_digit ds then Some (if neg then - digits_val ds else digits_val ds) else None)"

definition get_frac :: "nat \<Rightarrow> string \<Rightarrow> (int \<times> string) option" where
  "get_frac nd s =
     (if length s < Suc nd \<or> (hd s \<noteq> CHR ''.'' \<and> hd s \<noteq> CHR '','') then None
      else case time_atoi (take nd (tl s)) of
             None \<Rightarrow> None
           | Some n \<Rightarrow> if n < 0 then None else Some (n * frac_unit nd, drop nd (tl s)))"

definition get_date :: "string \<Rightarrow> ((int \<times> int \<times> int) \<times> string) option" where
  "get_date s0 =
     Option.bind (get_year s0) (\<lambda>(y, s1).
     Option.bind (lit CHR ''-'' s1) (\<lambda>s2.
     Option.bind (getnum True s2) (\<lambda>(m, s3).
     Option.bind (lit CHR ''-'' s3) (\<lambda>s4.
     Option.bind (getnum True s4) (\<lambda>(d, s5).
       if m < 1 \<or> 12 < m then None else Some ((y, m, d), s5))))))"

definition get_clock :: "string \<Rightarrow> (int \<times> string) option" where
  "get_clock s0 =
     Option.bind (getnum False s0) (\<lambda>(h, s1).
     Option.bind (lit CHR '':'' s1) (\<lambda>s2.
     Option.bind (getnum True s2) (\<lambda>(mi, s3).
     Option.bind (lit CHR '':'' s3) (\<lambda>s4.
     Option.bind (getnum True s4) (\<lambda>(sec, s5).
       if 24 \<le> h \<or> 60 \<le> mi \<or> 60 \<le> sec then None else Some (3600 * h + 60 * mi + sec, s5))))))"

definition Parse_frac :: "nat \<Rightarrow> string \<Rightarrow> time option" where
  "Parse_frac nd s0 =
     Option.bind (get_date s0) (\<lambda>((y, m, d), s1).
     Option.bind (lit CHR ''T'' s1) (\<lambda>s2.
     Option.bind (get_clock s2) (\<lambda>(sec, s3).
     Option.bind (get_frac nd s3) (\<lambda>(ns, s4).
     Option.bind (lit CHR ''Z'' s4) (\<lambda>s5.
       if s5 \<noteq> [] \<or> d < 1 \<or> month_days y ! nat (m - 1) < d then None
       else Some (day_number y m d * ns_per_day + sec * ns_per_sec + ns))))))"

text \<open>Layout \<open>15:04\<close>: the minute of the day.\<close>

definition Parse_HHMM :: "string \<Rightarrow> int option" where
  "Parse_HHMM s0 =
     Option.bind (getnum False s0) (\<lambda>(h, s1).
     Option.bind (lit CHR '':'' s1) (\<lambda>s2.
     Option.bind (getnum True s2) (\<lambda>(mi, s3).
       if 24 \<le> h \<or> 60 \<le> mi \<or> s3 \<noteq> [] then None else Some (60 * h + mi))))"

subsection \<open>Parsing undoes formatting\<close>

text \<open>The instants whose year has four digits.\<close>

definition year4 :: "time \<Rightarrow> bool" where
  "year4 t \<longleftrightarrow> 0 \<le> t \<and> t < days_before_year 10000 * ns_per_day"

lemma lit_Cons [simp]: "lit c (x # xs) = (if x = c then Some xs else None)"
  by (simp add: lit_def)

lemma getnum_pad [simp]: "0 \<le> n \<Longrightarrow> n < 100 \<Longrightarrow> getnum fixed (pad 2 n @ s) = Some (n, s)"
proof -
  assume n: "0 \<le> n" "n < 100"
  then have "0 \<le> n div 10" "n div 10 < 10" by auto
  with n show ?thesis by (simp add: numeral_2_eq_2)
qed

lemma get_year_pad [simp]: "0 \<le> y \<Longrightarrow> y < 10000 \<Longrightarrow> get_year (pad 4 y @ s) = Some (y, s)"
  using pad_digits [of 4 y] digits_val_pad [of y 4] by (simp add: get_year_def)

lemma digit_not_sign: "is_digit c \<Longrightarrow> c \<noteq> CHR ''-'' \<and> c \<noteq> CHR ''+''"
  by (auto simp: is_digit_def)

lemma get_frac_pad [simp]:
  assumes "0 \<le> n" "n < 10 ^ nd" "0 < nd"
  shows "get_frac nd (CHR ''.'' # pad nd n @ s) = Some (n * frac_unit nd, s)"
proof -
  have "pad nd n \<noteq> []" using assms(3) by (metis length_pad list.size(3) not_less_zero)
  then have "is_digit (hd (pad nd n))" using pad_digits [of nd n] by (cases "pad nd n") auto
  with digit_not_sign assms pad_digits [of nd n] digits_val_pad [of n nd] show ?thesis
    by (auto simp: get_frac_def time_atoi_def Let_def)
qed

lemma days_before_year_mono: "y \<le> z \<Longrightarrow> days_before_year y \<le> days_before_year z"
proof (induction z rule: int_ge_induct)
  case (step i)
  then show ?case by (simp add: days_before_year_Suc)
qed simp

lemma year4_civil:
  assumes "year4 t" "civil (t div ns_per_day) = (y, m, day)"
  shows "1 \<le> y" "y < 10000" "1 \<le> m" "m \<le> 12" "1 \<le> day" "day \<le> 31" "day \<le> month_days y ! nat (m - 1)"
    "day_number y m day = t div ns_per_day"
proof -
  have d: "0 \<le> t div ns_per_day" "t div ns_per_day < days_before_year 10000"
    using assms(1) by (auto simp: year4_def duration_defs)
  note c = civil_spec [OF d(1) assms(2)]
  show "1 \<le> y" "1 \<le> m" "m \<le> 12" "1 \<le> day" "day \<le> month_days y ! nat (m - 1)"
    "day_number y m day = t div ns_per_day" using c by simp_all
  have "nat (m - 1) < 12" using c(2,3) by linarith
  then have "month_days y ! nat (m - 1) \<in> set (month_days y)" by (intro nth_mem) simp
  then show "day \<le> 31" using c(5) by (auto simp: month_days_def split: if_splits)
  have "y = year_of (t div ns_per_day)" using assms(2) by (auto simp: civil_def Let_def split: prod.splits)
  then show "y < 10000" using year_of_bounds(1) [OF d(1)] d(2) days_before_year_mono [of 10000 y] by force
qed

lemma sec_of_day_range: "0 \<le> sec_of_day t" "sec_of_day t < 86400"
  by (simp_all add: sec_of_day_def duration_defs)

lemma day_split: "t mod ns_per_day = sec_of_day t * ns_per_sec + t mod ns_per_sec"
proof -
  have "t mod ns_per_day mod ns_per_sec = t mod ns_per_sec" by (rule mod_mod_cancel) (simp add: duration_defs)
  then show ?thesis using div_mult_mod_eq [of "t mod ns_per_day" ns_per_sec] by (simp add: sec_of_day_def)
qed

lemma hms_sum: "3600 * (s div 3600) + 60 * (s div 60 mod 60) + s mod 60 = (s :: int)"
proof -
  have "s div 60 div 60 = s div 3600" by (simp flip: zdiv_zmult2_eq)
  moreover have "s div 60 = 60 * (s div 60 div 60) + s div 60 mod 60" by simp
  moreover have "s = 60 * (s div 60) + s mod 60" by simp
  ultimately show ?thesis by linarith
qed

lemma get_clock_pads:
  assumes "0 \<le> h" "h < 24" "0 \<le> mi" "mi < 60" "0 \<le> sec" "sec < 60"
  shows "get_clock (pad 2 h @ CHR '':'' # pad 2 mi @ CHR '':'' # pad 2 sec @ s) = Some (3600 * h + 60 * mi + sec, s)"
  using assms by (simp add: get_clock_def)

lemma get_clock_text [simp]: "get_clock (clock_text t @ s) = Some (sec_of_day t, s)"
proof -
  let ?s = "sec_of_day t"
  have r: "0 \<le> ?s div 3600" "?s div 3600 < 24" using sec_of_day_range [of t] by auto
  have m: "0 \<le> ?s div 60 mod 60" "?s div 60 mod 60 < 60" "0 \<le> ?s mod 60" "?s mod 60 < 60" by simp_all
  from get_clock_pads [OF r m, of s] show ?thesis
    by (simp add: clock_text_def Let_def hms_sum)
qed

lemma get_date_text [simp]:
  assumes "year4 t" "civil (t div ns_per_day) = (y, m, day)"
  shows "get_date (date_text t @ s) = Some ((y, m, day), s)"
  using year4_civil [OF assms] assms(2) by (simp add: get_date_def date_text_def year_text_def)

lemma frac_unit_pos: "0 < frac_unit nd"
  by (simp add: frac_unit_def)

lemma frac_unit_split:
  assumes "nd \<le> 9"
  shows "0 \<le> t mod ns_per_sec div frac_unit nd" "t mod ns_per_sec div frac_unit nd < 10 ^ nd"
    "t div ns_per_day * ns_per_day + sec_of_day t * ns_per_sec + t mod ns_per_sec div frac_unit nd * frac_unit nd =
     t - t mod frac_unit nd"
proof -
  let ?f = "t mod ns_per_sec div frac_unit nd"
  have u: "0 < frac_unit nd" "ns_per_sec = 10 ^ nd * frac_unit nd"
    using assms by (simp_all add: frac_unit_def ns_per_sec_def flip: power_add)

  show "0 \<le> ?f" "?f < 10 ^ nd"
  proof -
    have p: "0 \<le> t mod ns_per_sec" "t mod ns_per_sec < 10 ^ nd * frac_unit nd"
      unfolding u(2) [symmetric] by (simp_all add: ns_per_sec_def)
    show "0 \<le> ?f" using p(1) u(1) by (simp add: pos_imp_zdiv_nonneg_iff)
    have "?f * frac_unit nd \<le> t mod ns_per_sec"
      using u(1) minus_mod_eq_div_mult [of "t mod ns_per_sec" "frac_unit nd"] pos_mod_sign [OF u(1)] by (metis diff_ge_0_iff_ge diff_diff_eq2 add_diff_cancel_left')
    with p(2) have "?f * frac_unit nd < 10 ^ nd * frac_unit nd" by linarith
    then show "?f < 10 ^ nd" using u(1) by (simp add: mult_less_cancel_right)
  qed
  have ns: "?f * frac_unit nd = t mod ns_per_sec - t mod frac_unit nd"
    using mod_mod_cancel [of "frac_unit nd" ns_per_sec t] u(2)
    by (metis dvd_triv_right minus_mod_eq_div_mult)
  have "t = t div ns_per_day * ns_per_day + t mod ns_per_day" by simp
  moreover have "t mod ns_per_day = sec_of_day t * ns_per_sec + t mod ns_per_sec"
    by (rule day_split)
  ultimately show "t div ns_per_day * ns_per_day + sec_of_day t * ns_per_sec + ?f * frac_unit nd = t - t mod frac_unit nd"
    using ns by linarith
qed

lemma Parse_Format:
  assumes "year4 t" "0 < nd" "nd \<le> 9"
  shows "Parse_frac nd (Format_frac nd t) = Some (t - t mod frac_unit nd)"
proof -
  obtain y m day where c: "civil (t div ns_per_day) = (y, m, day)" by (cases "civil (t div ns_per_day)") auto
  note b = year4_civil [OF assms(1) c] and f = frac_unit_split [OF assms(3), of t]
  from b f assms(1,2) c show ?thesis by (simp add: Parse_frac_def Format_frac_def)
qed


subsection \<open>Texts are ordered like instants\<close>

lemma sum_take_mono:
  assumes "\<forall>x\<in>set xs. (0 :: int) \<le> x" "i \<le> j"
  shows "sum_list (take i xs) \<le> sum_list (take j xs)"
proof -
  have "take j xs = take i xs @ take (j - i) (drop i xs)" using assms(2) by (metis le_add_diff_inverse take_add)
  moreover have "0 \<le> sum_list (take (j - i) (drop i xs))"
    using assms(1) by (intro sum_list_nonneg) (meson in_set_dropD in_set_takeD)
  ultimately show ?thesis by simp
qed

lemma civil_less:
  assumes "0 \<le> d" "d < e" "civil d = (y, m, a)" "civil e = (z, n, b)"
  shows "y < z \<or> y = z \<and> (m < n \<or> m = n \<and> a < b)"
proof -
  have e: "0 \<le> e" using assms by simp
  note cd = civil_spec [OF assms(1,3)] and ce = civil_spec [OF e assms(4)]
  have yz: "y = year_of d" "z = year_of e" using assms(3,4) by (auto simp: civil_def Let_def split: prod.splits)
  have "y \<le> z"
  proof (rule ccontr)
    assume "\<not> y \<le> z"
    then have "days_before_year (z + 1) \<le> days_before_year y" by (intro days_before_year_mono) simp
    then show False using year_of_bounds(1) [OF assms(1)] year_of_bounds(2) [OF e] yz assms(2) by simp
  qed
  moreover have "m < n \<or> m = n \<and> a < b" if "y = z"
  proof -
    have "m \<le> n"
    proof (rule ccontr)
      assume "\<not> m \<le> n"
      then have "nat (n - 1) < nat (m - 1)" "nat (n - 1) < length (month_days z)" using ce cd by auto
      then have "sum_list (take (Suc (nat (n - 1))) (month_days z)) \<le> sum_list (take (nat (m - 1)) (month_days z))"
        by (intro sum_take_mono) (auto simp: month_days_def)
      moreover have "sum_list (take (Suc (nat (n - 1))) (month_days z)) =
          sum_list (take (nat (n - 1)) (month_days z)) + month_days z ! nat (n - 1)"
        using \<open>nat (n - 1) < length (month_days z)\<close> by (simp add: take_Suc_conv_app_nth)
      ultimately have "e < d" using cd(4,6) ce(5,6) that by (simp add: day_number_def)
      then show False using assms(2) by simp
    qed
    moreover have "a < b" if "m = n" using that cd(6) ce(6) \<open>y = z\<close> assms(2) by (simp add: day_number_def)
    ultimately show ?thesis by linarith
  qed
  ultimately show ?thesis by linarith
qed

lemma lex_split:
  assumes "0 < (n :: int)" "a < b"
  shows "a div n < b div n \<or> a div n = b div n \<and> a mod n < b mod n"
proof -
  have "a div n \<le> b div n" using assms by (intro zdiv_mono1) auto
  moreover have "a mod n < b mod n" if "a div n = b div n"
    using div_mult_mod_eq [of a n] div_mult_mod_eq [of b n] that assms(2) by (metis add_less_cancel_left)
  ultimately show ?thesis by linarith
qed

lemma date_text_less:
  assumes "year4 s" "year4 t" "s div ns_per_day < t div ns_per_day"
  shows "date_text s < date_text t"
proof -
  obtain y m a where c: "civil (s div ns_per_day) = (y, m, a)" by (cases "civil (s div ns_per_day)") auto
  obtain z n b where d: "civil (t div ns_per_day) = (z, n, b)" by (cases "civil (t div ns_per_day)") auto
  note cs = year4_civil [OF assms(1) c] and ct = year4_civil [OF assms(2) d]
  have "0 \<le> s div ns_per_day" using assms(1) by (simp add: year4_def duration_defs pos_imp_zdiv_nonneg_iff)
  from civil_less [OF this assms(3) c d] cs ct c d show ?thesis
    by (auto simp: date_text_def year_text_def less_list_append pad_less pad_inject)
qed

lemma length_date_text: "year4 t \<Longrightarrow> length (date_text t) = 10"
  using year4_civil [of t] by (cases "civil (t div ns_per_day)") (simp add: date_text_def year_text_def)

lemma length_clock_text: "length (clock_text t) = 8"
  by (simp add: clock_text_def Let_def)

lemma clock_text_less:
  assumes "sec_of_day s < sec_of_day t"
  shows "clock_text s < clock_text t"
proof -

  have h: "0 \<le> sec_of_day u div 3600" "sec_of_day u div 3600 < 100" "0 \<le> sec_of_day u div 60 mod 60"
    "sec_of_day u div 60 mod 60 < 100" "0 \<le> sec_of_day u mod 60" "sec_of_day u mod 60 < 100" for u
  proof -
    show "sec_of_day u div 3600 < 100" "0 \<le> sec_of_day u div 3600" using sec_of_day_range [of u] by simp_all
    have "sec_of_day u div 60 mod 60 < 60" "sec_of_day u mod 60 < 60" by simp_all
    then show "sec_of_day u div 60 mod 60 < 100" "sec_of_day u mod 60 < 100" by linarith+
  qed simp_all
  have sq: "sec_of_day u div 60 div 60 = sec_of_day u div 3600" for u by (simp flip: zdiv_zmult2_eq)
  have "sec_of_day s div 60 < sec_of_day t div 60 \<or> sec_of_day s div 60 = sec_of_day t div 60 \<and> sec_of_day s mod 60 < sec_of_day t mod 60"
    by (rule lex_split [OF _ assms]) simp
  moreover have "sec_of_day s div 3600 < sec_of_day t div 3600 \<or>
      sec_of_day s div 3600 = sec_of_day t div 3600 \<and> sec_of_day s div 60 mod 60 < sec_of_day t div 60 mod 60"
    if "sec_of_day s div 60 < sec_of_day t div 60"
    using lex_split [OF _ that, of 60] unfolding sq by simp
  moreover have "sec_of_day s div 3600 = sec_of_day t div 3600" if "sec_of_day s div 60 = sec_of_day t div 60"
    using that by (simp flip: sq)
  ultimately have "sec_of_day s div 3600 < sec_of_day t div 3600 \<or> sec_of_day s div 3600 = sec_of_day t div 3600 \<and>
    (sec_of_day s div 60 mod 60 < sec_of_day t div 60 mod 60 \<or> sec_of_day s div 60 mod 60 = sec_of_day t div 60 mod 60 \<and>
     sec_of_day s mod 60 < sec_of_day t mod 60)"
    by metis
  with h show ?thesis
    by (auto simp: clock_text_def Let_def less_list_append pad_less pad_inject)
qed

lemma date_text_cong: "s div ns_per_day = t div ns_per_day \<Longrightarrow> date_text s = date_text t"
  by (simp add: date_text_def)

lemma clock_text_cong: "sec_of_day s = sec_of_day t \<Longrightarrow> clock_text s = clock_text t"
  by (simp add: clock_text_def)

lemma Format_frac_strict:
  assumes "year4 s" "year4 t" "nd \<le> 9" "s div frac_unit nd < t div frac_unit nd"
  shows "Format_frac nd s < Format_frac nd t"
proof -
  let ?f = "\<lambda>t. t mod ns_per_sec div frac_unit nd"
  note fs = frac_unit_split [OF assms(3), of s] and ft = frac_unit_split [OF assms(3), of t]
  note u = frac_unit_pos [of nd]
  have lt: "s < t" using assms(4) zdiv_mono1 [OF _ u, of t s] by linarith
  have day: "s div ns_per_day < t div ns_per_day \<or> s div ns_per_day = t div ns_per_day \<and> s mod ns_per_day < t mod ns_per_day"
    by (rule lex_split [OF _ lt]) (simp add: duration_defs)
  have sec: "sec_of_day s \<le> sec_of_day t" if "s mod ns_per_day < t mod ns_per_day"
    unfolding sec_of_day_def using that by (intro zdiv_mono1) (auto simp: duration_defs)
  have frac: "?f s < ?f t" if "s div ns_per_day = t div ns_per_day" "sec_of_day s = sec_of_day t"
  proof -
    have "s - s mod frac_unit nd < t - t mod frac_unit nd"
      using assms(4) u by (simp add: minus_mod_eq_div_mult)
    then have "?f s * frac_unit nd < ?f t * frac_unit nd" using fs(3) ft(3) unfolding that by linarith
    then show ?thesis using u by (simp add: mult_less_cancel_right)
  qed
  have cl: "clock_text s < clock_text t \<or> clock_text s = clock_text t \<and> ?f s < ?f t"
    if "s div ns_per_day = t div ns_per_day" "s mod ns_per_day < t mod ns_per_day"
  proof (cases "sec_of_day s = sec_of_day t")
    case True
    with frac [OF that(1)] clock_text_cong show ?thesis by blast
  next
    case False
    with sec [OF that(2)] have "sec_of_day s < sec_of_day t" by simp
    then show ?thesis using clock_text_less by blast
  qed
  have len: "length (date_text s) = length (date_text t)" "length (clock_text s) = length (clock_text t)"
    using assms(1,2) by (simp_all add: length_date_text length_clock_text)
  show ?thesis
    using day date_text_less [OF assms(1,2)] date_text_cong [of s t] cl fs(1,2) ft(1,2) len
    by (auto simp: Format_frac_def less_list_append pad_less pad_inject)
qed

lemma Format_frac_cong:
  assumes "nd \<le> 9" "s div frac_unit nd = t div frac_unit nd"
  shows "Format_frac nd s = Format_frac nd t"
proof -
  have dv: "frac_unit nd dvd ns_per_sec" "frac_unit nd dvd ns_per_day" "0 < frac_unit nd"
  proof -
    have "(10 :: int) ^ (9 - nd) dvd 10 ^ 9" by (rule le_imp_power_dvd) simp
    then show "frac_unit nd dvd ns_per_sec" by (simp add: frac_unit_def ns_per_sec_def)
    then show "frac_unit nd dvd ns_per_day" by (rule dvd_trans) (simp add: duration_defs)
    show "0 < frac_unit nd" by (simp add: frac_unit_def)
  qed
  have div: "u div n = u div frac_unit nd div (n div frac_unit nd)" if "frac_unit nd dvd n" "0 < n" for u n
  proof -
    from that(1) obtain k where k: "n = frac_unit nd * k" by (rule dvdE)
    then show ?thesis using dv(3) that(2) by (simp add: zdiv_zmult2_eq zero_less_mult_iff)
  qed
  have "s div ns_per_day = t div ns_per_day" using div [OF dv(2)] assms(2) by (simp add: duration_defs)
  moreover have sec: "s div ns_per_sec = t div ns_per_sec" using div [OF dv(1)] assms(2) by (simp add: duration_defs)
  moreover have "u mod ns_per_sec div frac_unit nd = u div frac_unit nd - u div ns_per_sec * (ns_per_sec div frac_unit nd)" for u
  proof -
    from dv(1) obtain k where k: "ns_per_sec = frac_unit nd * k" by (rule dvdE)
    have "u mod ns_per_sec = u + frac_unit nd * (- (u div ns_per_sec * k))"
    proof -
      have "u div ns_per_sec * ns_per_sec = frac_unit nd * (u div ns_per_sec * k)"
        by (subst (2) k) (simp add: mult.assoc mult.left_commute)
      with div_mult_mod_eq [of u ns_per_sec] show ?thesis by linarith
    qed
    moreover have "(u + frac_unit nd * (- (u div ns_per_sec * k))) div frac_unit nd = - (u div ns_per_sec * k) + u div frac_unit nd"
      using dv(3) by (intro div_mult_self2) simp
    moreover have "ns_per_sec div frac_unit nd = k" by (subst k) (use dv(3) in simp)
    ultimately show ?thesis by simp
  qed
  moreover have "sec_of_day u = u div ns_per_sec mod 86400" for u
  proof -
    have "u mod (ns_per_sec * 86400) = ns_per_sec * (u div ns_per_sec mod 86400) + u mod ns_per_sec"
      by (rule zmod_zmult2_eq) simp
    then have "ns_per_sec * sec_of_day u = ns_per_sec * (u div ns_per_sec mod 86400)"
      using day_split [of u] by (simp add: duration_defs)
    then show ?thesis by (simp add: duration_defs)
  qed
  ultimately show ?thesis using assms(2) date_text_cong [of s t] clock_text_cong [of s t] by (simp add: Format_frac_def)
qed

lemma Format_frac_less_iff:
  assumes "year4 s" "year4 t" "nd \<le> 9"
  shows "Format_frac nd s < Format_frac nd t \<longleftrightarrow> s div frac_unit nd < t div frac_unit nd"
proof (cases "s div frac_unit nd" "t div frac_unit nd" rule: linorder_cases)
  case less
  from Format_frac_strict [OF assms less] less show ?thesis by simp
next
  case equal
  from Format_frac_cong [OF assms(3) this] equal show ?thesis by simp
next
  case greater
  from Format_frac_strict [OF assms(2,1,3) this] greater show ?thesis by (simp add: less_not_sym)
qed

end
