(* ===== verification/Notify_Eval.thy ===== *)
theory Notify_Eval
  imports Database Go_Time
begin

text \<open>
  Threshold evaluation and message rendering: \<open>internal/notify/evaluate.go\<close>, \<open>message.go\<close>, and
  the \<open>Thresholds\<close> type of \<open>internal/settings/settings.go\<close>. \<open>float64\<close> values are exact rationals. A
  \<open>*float64\<close> or \<open>*bool\<close> field is an option.
\<close>

subsection \<open>Thresholds\<close>

record thresholds =
  th_download :: "float64 option"
  th_upload :: "float64 option"
  th_ping :: "float64 option"
  th_jitter :: "float64 option"
  th_loss :: "float64 option"
  th_on_failure :: "bool option"
  th_always :: "bool option"
  th_sla_download :: "float64 option"
  th_sla_upload :: "float64 option"
  th_sla_tolerance :: "float64 option"

definition no_thresholds :: thresholds where
  "no_thresholds = \<lparr>th_download = None, th_upload = None, th_ping = None, th_jitter = None, th_loss = None,
     th_on_failure = None, th_always = None, th_sla_download = None, th_sla_upload = None, th_sla_tolerance = None\<rparr>"

text \<open>\<open>json.Unmarshal\<close> into a \<open>Thresholds\<close>.\<close>

definition decode_thresholds :: "(string \<times> json) list \<Rightarrow> thresholds option" where
  "decode_thresholds kvs =
     Option.bind (dec_ptr as_num ''download_mbps_min'' kvs) (\<lambda>a.
     Option.bind (dec_ptr as_num ''upload_mbps_min'' kvs) (\<lambda>b.
     Option.bind (dec_ptr as_num ''ping_ms_max'' kvs) (\<lambda>c.
     Option.bind (dec_ptr as_num ''jitter_ms_max'' kvs) (\<lambda>d.
     Option.bind (dec_ptr as_num ''loss_pct_max'' kvs) (\<lambda>e.
     Option.bind (dec_ptr as_bool ''notify_on_failure'' kvs) (\<lambda>f.
     Option.bind (dec_ptr as_bool ''notify_always'' kvs) (\<lambda>g.
     Option.bind (dec_ptr as_num ''sla_download_mbps'' kvs) (\<lambda>h.
     Option.bind (dec_ptr as_num ''sla_upload_mbps'' kvs) (\<lambda>i.
     Option.bind (dec_ptr as_num ''sla_tolerance_pct'' kvs) (\<lambda>j.
       Some \<lparr>th_download = a, th_upload = b, th_ping = c, th_jitter = d, th_loss = e, th_on_failure = f,
             th_always = g, th_sla_download = h, th_sla_upload = i, th_sla_tolerance = j\<rparr>))))))))))"

text \<open>The set of keys whose (last) value is \<open>null\<close>. Bytes that are only white space decode as empty.\<close>

definition ParseThresholds :: "raw \<Rightarrow> (thresholds \<times> string set) option" where
  "ParseThresholds raw =
     (case raw of
        RawEmpty \<Rightarrow> Some (no_thresholds, {})
      | RawDoc JNull \<Rightarrow> Some (no_thresholds, {})
      | RawDoc (JObj kvs) \<Rightarrow>
          (case decode_thresholds kvs of
             None \<Rightarrow> None
           | Some t \<Rightarrow> Some (t, {k \<in> fst ` set kvs. obj_map kvs k = Some JNull}))
      | _ \<Rightarrow> None)"

text \<open>One entry of \<open>nullableFields\<close>: clear the field when its name is in the set.\<close>

definition nullable :: "string set \<Rightarrow> string \<Rightarrow> 'a option \<Rightarrow> 'a option" where
  "nullable nulled name v = (if name \<in> nulled then None else v)"

definition Merge :: "thresholds \<Rightarrow> thresholds \<Rightarrow> string set \<Rightarrow> thresholds" where
  "Merge base override nulled =
     (let merged = base\<lparr>th_download := coalesce (th_download override) (th_download base),
            th_upload := coalesce (th_upload override) (th_upload base),
            th_ping := coalesce (th_ping override) (th_ping base),
            th_jitter := coalesce (th_jitter override) (th_jitter base),
            th_loss := coalesce (th_loss override) (th_loss base),
            th_on_failure := coalesce (th_on_failure override) (th_on_failure base),
            th_always := coalesce (th_always override) (th_always base)\<rparr>
      in merged\<lparr>th_download := nullable nulled ''download_mbps_min'' (th_download merged),
           th_upload := nullable nulled ''upload_mbps_min'' (th_upload merged),
           th_ping := nullable nulled ''ping_ms_max'' (th_ping merged),
           th_jitter := nullable nulled ''jitter_ms_max'' (th_jitter merged),
           th_loss := nullable nulled ''loss_pct_max'' (th_loss merged),
           th_on_failure := nullable nulled ''notify_on_failure'' (th_on_failure merged),
           th_always := nullable nulled ''notify_always'' (th_always merged)\<rparr>)"

subsection \<open>Evaluation\<close>

datatype metric = MetricDownload | MetricUpload | MetricPing | MetricJitter | MetricLoss | MetricFailure

fun metric_name :: "metric \<Rightarrow> string" where
  "metric_name MetricDownload = ''download''"
| "metric_name MetricUpload = ''upload''"
| "metric_name MetricPing = ''ping''"
| "metric_name MetricJitter = ''jitter''"
| "metric_name MetricLoss = ''loss''"
| "metric_name MetricFailure = ''failure''"

record eval =
  e_metric :: metric
  e_breached :: bool
  e_value :: float64
  e_limit :: float64
  e_unit :: string

definition failure_eval :: "bool \<Rightarrow> eval" where
  "failure_eval b = \<lparr>e_metric = MetricFailure, e_breached = b, e_value = 0, e_limit = 0, e_unit = ''''\<rparr>"

definition below_eval :: "metric \<Rightarrow> float64 \<Rightarrow> float64 \<Rightarrow> eval" where
  "below_eval m v mx = \<lparr>e_metric = m, e_breached = v < mx, e_value = v, e_limit = mx, e_unit = ''Mbps''\<rparr>"

definition above_eval :: "metric \<Rightarrow> float64 \<Rightarrow> float64 \<Rightarrow> string \<Rightarrow> eval" where
  "above_eval m v mx u = \<lparr>e_metric = m, e_breached = v > mx, e_value = v, e_limit = mx, e_unit = u\<rparr>"

definition Evaluate :: "result \<Rightarrow> thresholds \<Rightarrow> eval list" where
  "Evaluate res t =
     (if res_status res \<noteq> ROk
      then (if th_on_failure t = Some True then [failure_eval True] else [])
      else
        let iperfDir = (res_engine res = ''iperf3'')
        in (case th_download t of
              None \<Rightarrow> []
            | Some mx \<Rightarrow> if iperfDir \<and> res_download_bps res = 0 then []
                          else [below_eval MetricDownload (res_download_bps res / 1000000) mx]) @
           (case th_upload t of
              None \<Rightarrow> []
            | Some mx \<Rightarrow> if iperfDir \<and> res_upload_bps res = 0 then []
                          else [below_eval MetricUpload (res_upload_bps res / 1000000) mx]) @
           (case th_ping t of None \<Rightarrow> [] | Some mx \<Rightarrow> [above_eval MetricPing (res_ping_ms res) mx ''ms'']) @
           (case th_jitter t of None \<Rightarrow> [] | Some mx \<Rightarrow> [above_eval MetricJitter (res_jitter_ms res) mx ''ms'']) @
           (case th_loss t of None \<Rightarrow> [] | Some mx \<Rightarrow> [above_eval MetricLoss (res_packet_loss_pct res) mx ''%'']) @
           (if th_on_failure t = Some True then [failure_eval False] else []))"

subsection \<open>Messages\<close>

record message =
  msg_kind :: string
  msg_title :: string
  msg_body :: string
  msg_target :: string
  msg_target_id :: int
  msg_metric :: "metric option"
  msg_value :: float64
  msg_limit :: float64
  msg_unit :: string
  msg_result_id :: int
  msg_at :: time

definition isMinStyle :: "metric \<Rightarrow> bool" where
  "isMinStyle m \<longleftrightarrow> m = MetricDownload \<or> m = MetricUpload"

text \<open>\<open>strconv.FormatFloat(v, 'f', 1, 64)\<close>: one decimal, ties to even.\<close>

definition round_even :: "rat \<Rightarrow> int" where
  "round_even x =
     (let f = \<lfloor>x\<rfloor>; r = x - of_int f
      in if r < 1 / 2 \<or> (r = 1 / 2 \<and> even f) then f else f + 1)"

definition fmtNum :: "float64 \<Rightarrow> string" where
  "fmtNum v =
     (let n = round_even (\<bar>v\<bar> * 10)
      in (if v < 0 then ''-'' else '''') @ Itoa (n div 10) @ ''.'' @ Itoa (n mod 10))"

definition BuildMessage :: "string \<Rightarrow> string \<Rightarrow> int \<Rightarrow> int \<Rightarrow> eval \<Rightarrow> time \<Rightarrow> string \<Rightarrow> message" where
  "BuildMessage kind tgt targetID resultID e now errText =
     (let name = metric_name (e_metric e);
          m = \<lparr>msg_kind = kind, msg_title = '''', msg_body = '''', msg_target = tgt, msg_target_id = targetID,
               msg_metric = Some (e_metric e), msg_value = e_value e, msg_limit = e_limit e, msg_unit = e_unit e,
               msg_result_id = resultID, msg_at = now\<rparr>
      in if e_metric e = MetricFailure then
           if kind = ''recovery''
           then m\<lparr>msg_title := tgt @ '': '' @ name @ '' recovered'', msg_body := ''the test completed successfully''\<rparr>
           else m\<lparr>msg_title := tgt @ '': test failed'',
                  msg_body := (if errText = [] then ''the test did not complete'' else errText)\<rparr>
         else if kind = ''recovery''
         then m\<lparr>msg_title := tgt @ '': '' @ name @ '' recovered'', msg_body := fmtNum (e_value e) @ '' '' @ e_unit e\<rparr>
         else let dir = (if isMinStyle (e_metric e) then ''below'' else ''above'')
              in m\<lparr>msg_title := tgt @ '': '' @ name @ '' '' @ dir @ '' '' @ fmtNum (e_limit e) @ '' '' @ e_unit e,
                   msg_body := fmtNum (e_value e) @ '' '' @ e_unit e @ '' (limit '' @ fmtNum (e_limit e) @ '' '' @ e_unit e @ '')''\<rparr>)"

fun join :: "string \<Rightarrow> string list \<Rightarrow> string" where
  "join sep [] = []"
| "join sep [x] = x"
| "join sep (x # y # xs) = x @ sep @ join sep (y # xs)"

definition BuildResultMessage :: "string \<Rightarrow> int \<Rightarrow> int \<Rightarrow> result \<Rightarrow> time \<Rightarrow> message" where
  "BuildResultMessage tgt targetID resultID res now =
     (let m = \<lparr>msg_kind = ''result'', msg_title = '''', msg_body = '''', msg_target = tgt, msg_target_id = targetID,
               msg_metric = None, msg_value = 0, msg_limit = 0, msg_unit = '''', msg_result_id = resultID, msg_at = now\<rparr>
      in if res_status res \<noteq> ROk
         then m\<lparr>msg_metric := Some MetricFailure, msg_title := tgt @ '': test failed'',
                msg_body := (if res_error res = [] then ''the test did not complete'' else res_error res)\<rparr>
         else m\<lparr>msg_title := tgt @ '': test complete'',
                msg_body := join ([CHR '' '', CHR 0xC2, CHR 0xB7, CHR '' ''])
                  ([[CHR 0xE2, CHR 0x86, CHR 0x93, CHR '' ''] @ fmtNum (res_download_bps res / 1000000) @ '' Mbps'',
                    [CHR 0xE2, CHR 0x86, CHR 0x91, CHR '' ''] @ fmtNum (res_upload_bps res / 1000000) @ '' Mbps''] @
                   (if res_ping_ms res \<noteq> 0 then [''ping '' @ fmtNum (res_ping_ms res) @ '' ms''] else []) @
                   (if res_jitter_ms res \<noteq> 0 then [''jitter '' @ fmtNum (res_jitter_ms res) @ '' ms''] else []) @
                   [''loss '' @ fmtNum (res_packet_loss_pct res) @ ''%''])\<rparr>)"

end
