(* ===== verification/Settings_Values.thy ===== *)
theory Settings_Values
  imports Notify_Eval
begin

text \<open>
  The values of the settings table (\<open>internal/settings/settings.go\<close>): the Go types a setting can have,
  their encoding by \<open>json.Marshal\<close> and their decoding by \<open>json.Unmarshal\<close>. A nil slice or map is \<open>None\<close>.
  A \<open>map[string]string\<close> is the list of its entries in key order, the order in which \<open>json.Marshal\<close>
  writes them.
\<close>

subsection \<open>Decoding of maps and slices\<close>

definition canon :: "(string \<times> string) list \<Rightarrow> (string \<times> string) list" where
  "canon kvs = map (\<lambda>k. (k, the (map_of (rev kvs) k))) (sort (remdups (map fst kvs)))"

text \<open>An element or member \<open>null\<close> gives the zero value.\<close>

fun elem_str :: "json \<Rightarrow> string option" where
  "elem_str JNull = Some []"
| "elem_str (JStr s) = Some s"
| "elem_str _ = None"

fun traverse :: "('a \<Rightarrow> 'b option) \<Rightarrow> 'a list \<Rightarrow> 'b list option" where
  "traverse f [] = Some []"
| "traverse f (x # xs) = (case f x of None \<Rightarrow> None | Some y \<Rightarrow> map_option (\<lambda>ys. y # ys) (traverse f xs))"

definition str_members :: "(string \<times> json) list \<Rightarrow> (string \<times> string) list option" where
  "str_members kvs = traverse (\<lambda>(k, v). map_option (Pair k) (elem_str v)) kvs"

text \<open>A repeated map member is merged into the map decoded so far, a repeated slice member replaces the
  slice, \<open>null\<close> gives nil.\<close>

definition dec_map :: "string \<Rightarrow> (string \<times> json) list \<Rightarrow> (string \<times> string) list option" where
  "dec_map name kvs =
     foldl (\<lambda>acc v. case acc of
         None \<Rightarrow> None
       | Some m \<Rightarrow> (case v of
           JNull \<Rightarrow> Some []
         | JObj ms \<Rightarrow> map_option (\<lambda>xs. canon (m @ xs)) (str_members ms)
         | _ \<Rightarrow> None))
       (Some []) (field_vals name kvs)"

definition dec_strs :: "string \<Rightarrow> (string \<times> json) list \<Rightarrow> string list option" where
  "dec_strs name kvs =
     foldl (\<lambda>acc v. case acc of
         None \<Rightarrow> None
       | Some _ \<Rightarrow> (case v of JNull \<Rightarrow> Some [] | JArr xs \<Rightarrow> traverse elem_str xs | _ \<Rightarrow> None))
       (Some []) (field_vals name kvs)"

subsection \<open>Channels and thresholds\<close>

record channel =
  ch_id :: string
  ch_type :: string
  ch_name :: string
  ch_enabled :: bool
  ch_url :: string
  ch_token :: string
  ch_headers :: "(string \<times> string) list"
  ch_priority :: string
  ch_tags :: "string list"
  ch_urls :: "string list"

definition no_channel :: channel where
  "no_channel = \<lparr>ch_id = [], ch_type = [], ch_name = [], ch_enabled = False, ch_url = [], ch_token = [],
     ch_headers = [], ch_priority = [], ch_tags = [], ch_urls = []\<rparr>"

definition decode_channel :: "(string \<times> json) list \<Rightarrow> channel option" where
  "decode_channel kvs =
     Option.bind (dec_scalar as_str [] ''id'' kvs) (\<lambda>a.
     Option.bind (dec_scalar as_str [] ''type'' kvs) (\<lambda>b.
     Option.bind (dec_scalar as_str [] ''name'' kvs) (\<lambda>c.
     Option.bind (dec_scalar as_bool False ''enabled'' kvs) (\<lambda>d.
     Option.bind (dec_scalar as_str [] ''url'' kvs) (\<lambda>e.
     Option.bind (dec_scalar as_str [] ''token'' kvs) (\<lambda>f.
     Option.bind (dec_map ''headers'' kvs) (\<lambda>g.
     Option.bind (dec_scalar as_str [] ''priority'' kvs) (\<lambda>h.
     Option.bind (dec_strs ''tags'' kvs) (\<lambda>i.
     Option.bind (dec_strs ''urls'' kvs) (\<lambda>j.
       Some \<lparr>ch_id = a, ch_type = b, ch_name = c, ch_enabled = d, ch_url = e, ch_token = f,
             ch_headers = g, ch_priority = h, ch_tags = i, ch_urls = j\<rparr>))))))))))"

fun elem_channel :: "json \<Rightarrow> channel option" where
  "elem_channel JNull = Some no_channel"
| "elem_channel (JObj kvs) = decode_channel kvs"
| "elem_channel _ = None"

text \<open>\<open>json.Marshal\<close>: the members in the order of the struct's fields; \<open>omitempty\<close> leaves out a nil
  pointer, an empty string, an empty map and an empty slice.\<close>

definition omitempty :: "string \<Rightarrow> ('a \<Rightarrow> json) \<Rightarrow> 'a option \<Rightarrow> (string \<times> json) list" where
  "omitempty name f v = (case v of None \<Rightarrow> [] | Some x \<Rightarrow> [(name, f x)])"

definition nonempty :: "'a list \<Rightarrow> 'a list option" where
  "nonempty xs = (if xs = [] then None else Some xs)"

definition encode_map :: "(string \<times> string) list \<Rightarrow> json" where
  "encode_map m = JObj (map (\<lambda>(k, v). (k, JStr v)) m)"

definition encode_channel :: "channel \<Rightarrow> json" where
  "encode_channel c = JObj (
     [(''id'', JStr (ch_id c)), (''type'', JStr (ch_type c)), (''name'', JStr (ch_name c)),
      (''enabled'', JBool (ch_enabled c)), (''url'', JStr (ch_url c))] @
     omitempty ''token'' JStr (nonempty (ch_token c)) @
     omitempty ''headers'' encode_map (nonempty (ch_headers c)) @
     omitempty ''priority'' JStr (nonempty (ch_priority c)) @
     omitempty ''tags'' (\<lambda>ts. JArr (map JStr ts)) (nonempty (ch_tags c)) @
     omitempty ''urls'' (\<lambda>ts. JArr (map JStr ts)) (nonempty (ch_urls c)))"

definition encode_thresholds :: "thresholds \<Rightarrow> json" where
  "encode_thresholds t = JObj (
     omitempty ''download_mbps_min'' JNum (th_download t) @
     omitempty ''upload_mbps_min'' JNum (th_upload t) @
     omitempty ''ping_ms_max'' JNum (th_ping t) @
     omitempty ''jitter_ms_max'' JNum (th_jitter t) @
     omitempty ''loss_pct_max'' JNum (th_loss t) @
     omitempty ''notify_on_failure'' JBool (th_on_failure t) @
     omitempty ''notify_always'' JBool (th_always t) @
     omitempty ''sla_download_mbps'' JNum (th_sla_download t) @
     omitempty ''sla_upload_mbps'' JNum (th_sla_upload t) @
     omitempty ''sla_tolerance_pct'' JNum (th_sla_tolerance t))"

subsection \<open>Types and values of settings\<close>

datatype setting_type =
    TString | TInt | TBool | TFloatPtr | TRawMessage | TStringMap | TChannels | TThresholds | TStrings

datatype setting_value =
    VString string | VInt int | VBool bool | VFloatPtr "float64 option" | VRaw json
  | VStringMap "(string \<times> string) list option" | VChannels "channel list option"
  | VThresholds thresholds | VStrings "string list option"

fun type_of :: "setting_value \<Rightarrow> setting_type" where
  "type_of (VString _) = TString"
| "type_of (VInt _) = TInt"
| "type_of (VBool _) = TBool"
| "type_of (VFloatPtr _) = TFloatPtr"
| "type_of (VRaw _) = TRawMessage"
| "type_of (VStringMap _) = TStringMap"
| "type_of (VChannels _) = TChannels"
| "type_of (VThresholds _) = TThresholds"
| "type_of (VStrings _) = TStrings"

text \<open>The invariants of the representation: \<open>int\<close> has 64 bits, a map's entries are in key order.\<close>

definition int64 :: "int \<Rightarrow> bool" where
  "int64 i \<longleftrightarrow> - (2^63) \<le> i \<and> i < 2^63"

definition map_ok :: "(string \<times> string) list \<Rightarrow> bool" where
  "map_ok m \<longleftrightarrow> sorted_wrt (<) (map fst m)"

fun value_ok :: "setting_value \<Rightarrow> bool" where
  "value_ok (VInt i) = int64 i"
| "value_ok (VStringMap (Some m)) = map_ok m"
| "value_ok (VChannels (Some cs)) = list_all (\<lambda>c. map_ok (ch_headers c)) cs"
| "value_ok _ = True"

definition null_or :: "('a \<Rightarrow> json) \<Rightarrow> 'a option \<Rightarrow> json" where
  "null_or f v = (case v of None \<Rightarrow> JNull | Some x \<Rightarrow> f x)"

fun Marshal :: "setting_value \<Rightarrow> json" where
  "Marshal (VString s) = JStr s"
| "Marshal (VInt i) = JNum (of_int i)"
| "Marshal (VBool b) = JBool b"
| "Marshal (VFloatPtr x) = null_or JNum x"
| "Marshal (VRaw j) = j"
| "Marshal (VStringMap m) = null_or encode_map m"
| "Marshal (VChannels cs) = null_or (\<lambda>xs. JArr (map encode_channel xs)) cs"
| "Marshal (VThresholds t) = encode_thresholds t"
| "Marshal (VStrings ss) = null_or (\<lambda>xs. JArr (map JStr xs)) ss"

text \<open>Decoding into a variable that holds the zero value of its type.\<close>

definition or_zero :: "(json \<Rightarrow> 'a option) \<Rightarrow> 'a \<Rightarrow> json \<Rightarrow> 'a option" where
  "or_zero f z j = (if j = JNull then Some z else f j)"

fun unm_map :: "json \<Rightarrow> (string \<times> string) list option option" where
  "unm_map JNull = Some None"
| "unm_map (JObj kvs) = map_option (\<lambda>m. Some (canon m)) (str_members kvs)"
| "unm_map _ = None"

fun unm_list :: "(json \<Rightarrow> 'a option) \<Rightarrow> json \<Rightarrow> 'a list option option" where
  "unm_list f JNull = Some None"
| "unm_list f (JArr xs) = map_option Some (traverse f xs)"
| "unm_list f _ = None"

fun unm_thresholds :: "json \<Rightarrow> thresholds option" where
  "unm_thresholds JNull = Some no_thresholds"
| "unm_thresholds (JObj kvs) = decode_thresholds kvs"
| "unm_thresholds _ = None"

definition unm_float :: "json \<Rightarrow> float64 option option" where
  "unm_float j = (if j = JNull then Some None else map_option Some (as_num j))"

fun Unmarshal :: "setting_type \<Rightarrow> json \<Rightarrow> setting_value option" where
  "Unmarshal TString j = map_option VString (or_zero as_str [] j)"
| "Unmarshal TInt j = map_option VInt (or_zero as_int 0 j)"
| "Unmarshal TBool j = map_option VBool (or_zero as_bool False j)"
| "Unmarshal TFloatPtr j = map_option VFloatPtr (unm_float j)"
| "Unmarshal TRawMessage j = Some (VRaw j)"
| "Unmarshal TStringMap j = map_option VStringMap (unm_map j)"
| "Unmarshal TChannels j = map_option VChannels (unm_list elem_channel j)"
| "Unmarshal TThresholds j = map_option VThresholds (unm_thresholds j)"
| "Unmarshal TStrings j = map_option VStrings (unm_list elem_str j)"


subsection \<open>Decoding what was encoded\<close>

lemma traverse_map:
  assumes "\<forall>x\<in>set xs. f (g x) = Some x"
  shows "traverse f (map g xs) = Some xs"
  using assms by (induction xs) auto

lemma traverse_elem_str [simp]: "traverse elem_str (map JStr xs) = Some xs"
  by (rule traverse_map) simp

lemma str_members_encode [simp]: "str_members (map (\<lambda>(k, v). (k, JStr v)) m) = Some m"
  unfolding str_members_def by (rule traverse_map) auto

lemma map_of_rev: "distinct (map fst m) \<Longrightarrow> map_of (rev m) = map_of m"
  by (rule map_of_inject_set [THEN iffD2]) (simp_all flip: rev_map)

lemma canon_id:
  assumes "map_ok m"
  shows "canon m = m"
proof -
  have d: "distinct (map fst m)" and s: "sorted (map fst m)"
    using assms by (simp_all add: map_ok_def strict_sorted_iff)
  have "sort (remdups (map fst m)) = map fst m"
    using d s by (simp add: distinct_remdups_id sorted_sort_id)
  moreover have "map_of (rev m) k = map_of m k" for k
    using map_of_rev [OF d] by simp
  ultimately show ?thesis using d by (auto simp: canon_def intro!: map_idI)
qed

lemma map_ok_canon [simp]: "map_ok (canon m)"
proof -
  have "map fst (canon m) = sort (remdups (map fst m))" by (simp add: canon_def o_def)
  then show ?thesis by (simp add: map_ok_def strict_sorted_iff)
qed

lemma field_vals_simps:
  "field_vals n [] = []"
  "field_vals n ((k, v) # kvs) = (if EqualFold k n then v # field_vals n kvs else field_vals n kvs)"
  "field_vals n (xs @ ys) = field_vals n xs @ field_vals n ys"
  by (simp_all add: field_vals_def)

lemma field_vals_omitempty:
  "field_vals n (omitempty k f v) = (if EqualFold k n then (case v of None \<Rightarrow> [] | Some x \<Rightarrow> [f x]) else [])"
  by (cases v) (simp_all add: omitempty_def field_vals_simps)

lemmas fold_name = EqualFold_def ToLower_def lower_char_def

lemma dec_ptr_vals:
  "field_vals n kvs = (case x of None \<Rightarrow> [] | Some y \<Rightarrow> [f y]) \<Longrightarrow> (\<And>y. f y \<noteq> JNull \<and> g (f y) = Some y) \<Longrightarrow>
   dec_ptr g n kvs = Some x"
  by (cases x) (simp_all add: dec_ptr_def)

lemma dec_scalar_vals:
  "field_vals n kvs = [f y] \<Longrightarrow> f y \<noteq> JNull \<and> g (f y) = Some y \<Longrightarrow> dec_scalar g z n kvs = Some y"
  by (simp add: dec_scalar_def)

lemma dec_str_nonempty:
  "field_vals n kvs = (case nonempty s of None \<Rightarrow> [] | Some x \<Rightarrow> [JStr x]) \<Longrightarrow> dec_scalar as_str [] n kvs = Some s"
  by (simp add: dec_scalar_def nonempty_def split: if_splits)

lemma dec_strs_nonempty:
  "field_vals n kvs = (case nonempty ts of None \<Rightarrow> [] | Some x \<Rightarrow> [JArr (map JStr x)]) \<Longrightarrow>
   dec_strs n kvs = Some ts"
  by (simp add: dec_strs_def nonempty_def split: if_splits)

lemma dec_map_nonempty:
  "field_vals n kvs = (case nonempty m of None \<Rightarrow> [] | Some x \<Rightarrow> [encode_map x]) \<Longrightarrow> map_ok m \<Longrightarrow>
   dec_map n kvs = Some m"
  by (simp add: dec_map_def nonempty_def encode_map_def canon_id split: if_splits)

lemma unm_encode_thresholds: "unm_thresholds (encode_thresholds t) = Some t"
proof -
  let ?k = "omitempty ''download_mbps_min'' JNum (th_download t) @
     omitempty ''upload_mbps_min'' JNum (th_upload t) @
     omitempty ''ping_ms_max'' JNum (th_ping t) @
     omitempty ''jitter_ms_max'' JNum (th_jitter t) @
     omitempty ''loss_pct_max'' JNum (th_loss t) @
     omitempty ''notify_on_failure'' JBool (th_on_failure t) @
     omitempty ''notify_always'' JBool (th_always t) @
     omitempty ''sla_download_mbps'' JNum (th_sla_download t) @
     omitempty ''sla_upload_mbps'' JNum (th_sla_upload t) @
     omitempty ''sla_tolerance_pct'' JNum (th_sla_tolerance t)"
  have "dec_ptr as_num ''download_mbps_min'' ?k = Some (th_download t)"
    "dec_ptr as_num ''upload_mbps_min'' ?k = Some (th_upload t)"
    "dec_ptr as_num ''ping_ms_max'' ?k = Some (th_ping t)"
    "dec_ptr as_num ''jitter_ms_max'' ?k = Some (th_jitter t)"
    "dec_ptr as_num ''loss_pct_max'' ?k = Some (th_loss t)"
    "dec_ptr as_bool ''notify_on_failure'' ?k = Some (th_on_failure t)"
    "dec_ptr as_bool ''notify_always'' ?k = Some (th_always t)"
    "dec_ptr as_num ''sla_download_mbps'' ?k = Some (th_sla_download t)"
    "dec_ptr as_num ''sla_upload_mbps'' ?k = Some (th_sla_upload t)"
    "dec_ptr as_num ''sla_tolerance_pct'' ?k = Some (th_sla_tolerance t)"
    by (rule dec_ptr_vals, simp add: field_vals_simps field_vals_omitempty fold_name, simp)+
  then show ?thesis by (simp add: encode_thresholds_def decode_thresholds_def)
qed

lemma elem_encode_channel:
  assumes "map_ok (ch_headers c)"
  shows "elem_channel (encode_channel c) = Some c"
proof -
  let ?k = "[(''id'', JStr (ch_id c)), (''type'', JStr (ch_type c)), (''name'', JStr (ch_name c)),
      (''enabled'', JBool (ch_enabled c)), (''url'', JStr (ch_url c))] @
     omitempty ''token'' JStr (nonempty (ch_token c)) @
     omitempty ''headers'' encode_map (nonempty (ch_headers c)) @
     omitempty ''priority'' JStr (nonempty (ch_priority c)) @
     omitempty ''tags'' (\<lambda>ts. JArr (map JStr ts)) (nonempty (ch_tags c)) @
     omitempty ''urls'' (\<lambda>ts. JArr (map JStr ts)) (nonempty (ch_urls c))"
  have "dec_scalar as_str [] ''id'' ?k = Some (ch_id c)"
    "dec_scalar as_str [] ''type'' ?k = Some (ch_type c)"
    "dec_scalar as_str [] ''name'' ?k = Some (ch_name c)"
    "dec_scalar as_bool False ''enabled'' ?k = Some (ch_enabled c)"
    "dec_scalar as_str [] ''url'' ?k = Some (ch_url c)"
    by (rule dec_scalar_vals, simp add: field_vals_simps field_vals_omitempty fold_name, simp)+
  moreover have "dec_scalar as_str [] ''token'' ?k = Some (ch_token c)"
    "dec_scalar as_str [] ''priority'' ?k = Some (ch_priority c)"
    by (rule dec_str_nonempty, simp add: field_vals_simps field_vals_omitempty fold_name)+
  moreover have "dec_strs ''tags'' ?k = Some (ch_tags c)" "dec_strs ''urls'' ?k = Some (ch_urls c)"
    by (rule dec_strs_nonempty, simp add: field_vals_simps field_vals_omitempty fold_name)+
  moreover have "dec_map ''headers'' ?k = Some (ch_headers c)"
    by (rule dec_map_nonempty, simp add: field_vals_simps field_vals_omitempty fold_name, rule assms)
  ultimately show ?thesis by (simp add: encode_channel_def decode_channel_def)
qed

lemma unm_list_null_or:
  assumes "\<forall>xs. v = Some xs \<longrightarrow> (\<forall>x\<in>set xs. f (g x) = Some x)"
  shows "unm_list f (null_or (\<lambda>xs. JArr (map g xs)) v) = Some v"
  using assms by (cases v) (simp_all add: null_or_def traverse_map)

lemma Unmarshal_Marshal:
  assumes "value_ok v"
  shows "Unmarshal (type_of v) (Marshal v) = Some v"
proof (cases v)
  case (VInt i)
  then show ?thesis using assms by (simp add: or_zero_def int64_def)
next
  case (VFloatPtr x)
  then show ?thesis by (cases x) (simp_all add: null_or_def unm_float_def)
next
  case (VStringMap m)
  then show ?thesis using assms by (cases m) (simp_all add: null_or_def encode_map_def canon_id)
next
  case (VChannels cs)
  then have "\<forall>xs. cs = Some xs \<longrightarrow> (\<forall>x\<in>set xs. elem_channel (encode_channel x) = Some x)"
    using assms by (auto simp: list_all_iff elem_encode_channel)
  from unm_list_null_or [OF this] show ?thesis by (simp add: VChannels)
next
  case (VStrings ss)
  then show ?thesis by (simp add: unm_list_null_or)
next
  case (VThresholds t)
  then show ?thesis by (simp add: unm_encode_thresholds)
qed (simp_all add: or_zero_def)


text \<open>What a decoder returns is a well-formed value of its type.\<close>

lemma foldl_None: "(\<And>v. F None v = None) \<Longrightarrow> foldl F None vs = None"
  by (induction vs) simp_all

lemma dec_map_ok: "dec_map n kvs = Some m \<Longrightarrow> map_ok m"
proof -
  let ?F = "\<lambda>acc v. case acc of None \<Rightarrow> None | Some m \<Rightarrow> (case v of JNull \<Rightarrow> Some []
         | JObj ms \<Rightarrow> map_option (\<lambda>xs. canon (m @ xs)) (str_members ms) | _ \<Rightarrow> None)"
  have "foldl ?F (Some m0) vs = Some m \<Longrightarrow> map_ok m0 \<Longrightarrow> map_ok m" for vs m0 m
  proof (induction vs arbitrary: m0)
    case (Cons v vs)
    from Cons.prems(1) obtain m1 where m1: "?F (Some m0) v = Some m1" "foldl ?F (Some m1) vs = Some m"
      by (cases "?F (Some m0) v") (auto simp: foldl_None)
    from m1(1) have "map_ok m1" by (auto simp: map_ok_def split: json.splits)
         (use map_ok_canon in \<open>auto simp: map_ok_def\<close>)
    with m1(2) show ?case by (rule Cons.IH)
  qed simp
  from this [of "[]"] show "dec_map n kvs = Some m \<Longrightarrow> map_ok m"
    by (simp add: dec_map_def map_ok_def)
qed

lemma elem_channel_ok: "elem_channel j = Some c \<Longrightarrow> map_ok (ch_headers c)"
proof (induction j rule: elem_channel.induct)
  case 1
  then have "ch_headers c = []" by (auto simp: no_channel_def)
  then show ?case by (simp add: map_ok_def)
next
  case (2 kvs)
  then show ?case by (auto simp: decode_channel_def bind_eq_Some_conv dest: dec_map_ok)
qed simp_all

lemma traverse_all:
  "traverse f xs = Some ys \<Longrightarrow> (\<And>x y. f x = Some y \<Longrightarrow> P y) \<Longrightarrow> list_all P ys"
  by (induction xs arbitrary: ys) (auto split: option.splits)

lemma Unmarshal_ok: "Unmarshal ty j = Some v \<Longrightarrow> type_of v = ty \<and> value_ok v"
proof (cases ty)
  case TInt
  then show "Unmarshal ty j = Some v \<Longrightarrow> type_of v = ty \<and> value_ok v"
    by (cases j) (auto simp: or_zero_def int64_def split: if_splits)
next
  case TStringMap
  then show "Unmarshal ty j = Some v \<Longrightarrow> type_of v = ty \<and> value_ok v"
    by (cases j rule: unm_map.cases) auto
next
  case TChannels
  then show "Unmarshal ty j = Some v \<Longrightarrow> type_of v = ty \<and> value_ok v"
    by (cases j) (auto dest: traverse_all [where P = "\<lambda>c. map_ok (ch_headers c)"] elem_channel_ok)
next
  case TStrings
  then show "Unmarshal ty j = Some v \<Longrightarrow> type_of v = ty \<and> value_ok v" by auto
qed (auto simp: value_ok.simps)

end
