(* ===== verification/Settings.thy ===== *)
theory Settings
  imports Settings_Values
begin

text \<open>
  The settings store: \<open>internal/settings/settings.go\<close>. The settings table is the map \<open>settings_t\<close> of the
  database (its \<open>updated_at\<close> column is never read). The five sections are decoded key by key; the
  transaction object keeps its view of the table and the keys it changed; a subscriber is modelled at the
  granularity of its mutex and channel operations, because the writer that marks keys, the pump goroutine
  and the reader of the channel run concurrently.
\<close>

subsection \<open>Sections\<close>

record general =
  g_base_url :: string
  g_timezone :: string
  g_units :: string
  g_log_level :: string
  g_retention_days_results :: int
  g_retention_days_runs :: int
  g_retention_prune_interval_minutes :: int
  g_sla_download_mbps :: "float64 option"
  g_sla_upload_mbps :: "float64 option"
  g_sla_tolerance_pct :: "float64 option"

record engines =
  en_speedtest_bin :: string
  en_iperf3_bin :: string
  en_ookla_accept_license :: bool
  en_ookla_accept_gdpr :: bool
  en_server_list_ttl_seconds :: int
  en_default_ookla_options :: json
  en_default_cloudflare_options :: json
  en_default_iperf3_options :: json
  en_iperf3_list_url :: string

record integrations =
  ig_vm_enabled :: bool
  ig_vm_url :: string
  ig_vm_auth_header :: string
  ig_vm_auth_type :: string
  ig_vm_auth_username :: string
  ig_vm_auth_password :: string
  ig_vm_auth_token :: string
  ig_vm_auth_header_name :: string
  ig_vm_auth_header_value :: string
  ig_vm_extra_labels :: "(string \<times> string) list"
  ig_vl_enabled :: bool
  ig_vl_url :: string
  ig_vl_auth_header :: string
  ig_vl_auth_type :: string
  ig_vl_auth_username :: string
  ig_vl_auth_password :: string
  ig_vl_auth_token :: string
  ig_vl_auth_header_name :: string
  ig_vl_auth_header_value :: string
  ig_vl_stream_fields :: "(string \<times> string) list"
  ig_metrics_enabled :: bool

record notifications =
  n_enabled :: bool
  n_channels :: "channel list"
  n_defaults :: thresholds
  n_cooldown_minutes :: int
  n_quiet_start :: string
  n_quiet_end :: string
  n_recovery :: bool

record auth =
  a_mode :: string
  a_user_header :: string
  a_groups_header :: string
  a_groups_separator :: string
  a_trusted_proxies :: "string list"
  a_admin_group :: string
  a_allow_tokens :: bool
  a_oidc_issuer :: string
  a_oidc_client_id :: string
  a_oidc_client_secret :: string
  a_oidc_redirect_base_url :: string
  a_oidc_scopes :: "string list"
  a_oidc_groups_claim :: string
  a_oidc_allowed_groups :: "string list"
  a_oidc_allowed_emails :: "string list"
  a_oidc_display_claim :: string
  a_session_ttl_hours :: int

text \<open>\<open>defaults\<close>: every settable key with its default, which also fixes the key's type.\<close>

definition defaults :: "(string \<times> setting_value) list" where
  "defaults = [
    (''general.base_url'', VString ''''),
    (''general.timezone'', VString ''UTC''),
    (''general.units'', VString ''Mbps''),
    (''general.log_level'', VString ''info''),
    (''general.retention_days_results'', VInt 90),
    (''general.retention_days_runs'', VInt 90),
    (''general.retention_prune_interval_minutes'', VInt 60),
    (''general.sla_download_mbps'', VFloatPtr None),
    (''general.sla_upload_mbps'', VFloatPtr None),
    (''general.sla_tolerance_pct'', VFloatPtr None),
    (''engines.speedtest_bin'', VString ''speedtest''),
    (''engines.iperf3_bin'', VString ''iperf3''),
    (''engines.ookla_accept_license'', VBool True),
    (''engines.ookla_accept_gdpr'', VBool True),
    (''engines.server_list_ttl_seconds'', VInt 86400),
    (''engines.default_ookla_options'', VRaw (JObj [])),
    (''engines.default_cloudflare_options'', VRaw (JObj [])),
    (''engines.default_iperf3_options'', VRaw (JObj [])),
    (''engines.iperf3_list_url'', VString ''https://export.iperf3serverlist.net/listed_iperf3_servers.json''),
    (''integrations.vm_enabled'', VBool False),
    (''integrations.vm_url'', VString ''''),
    (''integrations.vm_auth_header'', VString ''''),
    (''integrations.vm_auth_type'', VString ''none''),
    (''integrations.vm_auth_username'', VString ''''),
    (''integrations.vm_auth_password'', VString ''''),
    (''integrations.vm_auth_token'', VString ''''),
    (''integrations.vm_auth_header_name'', VString ''''),
    (''integrations.vm_auth_header_value'', VString ''''),
    (''integrations.vm_extra_labels'', VStringMap (Some [])),
    (''integrations.vl_enabled'', VBool False),
    (''integrations.vl_url'', VString ''''),
    (''integrations.vl_auth_header'', VString ''''),
    (''integrations.vl_auth_type'', VString ''none''),
    (''integrations.vl_auth_username'', VString ''''),
    (''integrations.vl_auth_password'', VString ''''),
    (''integrations.vl_auth_token'', VString ''''),
    (''integrations.vl_auth_header_name'', VString ''''),
    (''integrations.vl_auth_header_value'', VString ''''),
    (''integrations.vl_stream_fields'', VStringMap (Some [])),
    (''integrations.metrics_enabled'', VBool False),
    (''notifications.enabled'', VBool False),
    (''notifications.channels'', VChannels (Some [])),
    (''notifications.default_thresholds'', VThresholds no_thresholds),
    (''notifications.cooldown_minutes'', VInt 60),
    (''notifications.quiet_hours_start'', VString ''''),
    (''notifications.quiet_hours_end'', VString ''''),
    (''notifications.notify_recovery'', VBool True),
    (''auth.mode'', VString ''open''),
    (''auth.user_header'', VString ''Remote-User''),
    (''auth.groups_header'', VString ''Remote-Groups''),
    (''auth.groups_separator'', VString '',''),
    (''auth.trusted_proxies'', VStrings (Some [])),
    (''auth.admin_group'', VString ''''),
    (''auth.allow_tokens'', VBool False),
    (''auth.oidc_issuer'', VString ''''),
    (''auth.oidc_client_id'', VString ''''),
    (''auth.oidc_client_secret'', VString ''''),
    (''auth.oidc_redirect_base_url'', VString ''''),
    (''auth.oidc_scopes'', VStrings (Some [])),
    (''auth.oidc_groups_claim'', VString ''groups''),
    (''auth.oidc_allowed_groups'', VStrings (Some [])),
    (''auth.oidc_allowed_emails'', VStrings (Some [])),
    (''auth.oidc_display_claim'', VString ''name''),
    (''auth.session_ttl_hours'', VInt 24)]"

definition default_value :: "string \<Rightarrow> setting_value" where
  "default_value key = (case map_of defaults key of None \<Rightarrow> VRaw JNull | Some v \<Rightarrow> v)"

definition default_raw :: "string \<Rightarrow> raw" where
  "default_raw key = RawDoc (Marshal (default_value key))"

text \<open>\<open>New\<close>: \<open>ON CONFLICT(key) DO NOTHING\<close> keeps every stored value. Each insert is a transaction of its own:
  the seeds before the first failing one stay.\<close>

definition seed :: "string \<Rightarrow> db \<Rightarrow> db" where
  "seed key d = (case settings_t d key of
     Some _ \<Rightarrow> d
   | None \<Rightarrow> d\<lparr>settings_t := (settings_t d)(key \<mapsto> default_raw key)\<rparr>)"

fun seed_all :: "(string \<Rightarrow> fault) \<Rightarrow> string list \<Rightarrow> db \<Rightarrow> db \<times> unit res" where
  "seed_all flt [] d = (d, Inr ())"
| "seed_all flt (k # ks) d =
     (case flt k of Some e \<Rightarrow> (d, Inl (ErrDB e)) | None \<Rightarrow> seed_all flt ks (seed k d))"

definition Get :: "fault \<Rightarrow> db \<Rightarrow> string \<Rightarrow> raw option res" where
  "Get flt d key = (case flt of Some e \<Rightarrow> Inl (ErrDB e) | None \<Rightarrow> Inr (settings_t d key))"

definition rbind :: "'a res \<Rightarrow> ('a \<Rightarrow> 'b res) \<Rightarrow> 'b res" where
  "rbind r f = (case r of Inl e \<Rightarrow> Inl e | Inr x \<Rightarrow> f x)"

definition dec_string :: "json \<Rightarrow> string option" where
  "dec_string = or_zero as_str []"

definition dec_int :: "json \<Rightarrow> int option" where
  "dec_int = or_zero as_int 0"

definition dec_bool :: "json \<Rightarrow> bool option" where
  "dec_bool = or_zero as_bool False"

text \<open>One turn of the loop over a section's keys.\<close>

definition read_key :: "(string \<Rightarrow> fault) \<Rightarrow> db \<Rightarrow> string \<Rightarrow> (json \<Rightarrow> 'a option) \<Rightarrow> 'a res" where
  "read_key flt d key f =
     rbind (Get (flt key) d key) (\<lambda>v.
       case (case v of Some r \<Rightarrow> r | None \<Rightarrow> default_raw key) of
         RawDoc j \<Rightarrow> (case f j of Some x \<Rightarrow> Inr x | None \<Rightarrow> Inl (ErrDB (''decode '' @ key)))
       | _ \<Rightarrow> Inl (ErrDB (''decode '' @ key)))"

definition nil_empty :: "'a list option \<Rightarrow> 'a list" where
  "nil_empty v = (case v of None \<Rightarrow> [] | Some xs \<Rightarrow> xs)"

definition General :: "(string \<Rightarrow> fault) \<Rightarrow> db \<Rightarrow> general res" where
  "General flt d =
     rbind (read_key flt d ''general.base_url'' dec_string) (\<lambda>x0.
     rbind (read_key flt d ''general.timezone'' dec_string) (\<lambda>x1.
     rbind (read_key flt d ''general.units'' dec_string) (\<lambda>x2.
     rbind (read_key flt d ''general.log_level'' dec_string) (\<lambda>x3.
     rbind (read_key flt d ''general.retention_days_results'' dec_int) (\<lambda>x4.
     rbind (read_key flt d ''general.retention_days_runs'' dec_int) (\<lambda>x5.
     rbind (read_key flt d ''general.retention_prune_interval_minutes'' dec_int) (\<lambda>x6.
     rbind (read_key flt d ''general.sla_download_mbps'' unm_float) (\<lambda>x7.
     rbind (read_key flt d ''general.sla_upload_mbps'' unm_float) (\<lambda>x8.
     rbind (read_key flt d ''general.sla_tolerance_pct'' unm_float) (\<lambda>x9.
       Inr \<lparr>g_base_url = x0, g_timezone = x1, g_units = x2, g_log_level = x3, g_retention_days_results = x4,
            g_retention_days_runs = x5, g_retention_prune_interval_minutes = x6, g_sla_download_mbps = x7,
            g_sla_upload_mbps = x8, g_sla_tolerance_pct = x9\<rparr>))))))))))"

definition Engines :: "(string \<Rightarrow> fault) \<Rightarrow> db \<Rightarrow> engines res" where
  "Engines flt d =
     rbind (read_key flt d ''engines.speedtest_bin'' dec_string) (\<lambda>x0.
     rbind (read_key flt d ''engines.iperf3_bin'' dec_string) (\<lambda>x1.
     rbind (read_key flt d ''engines.ookla_accept_license'' dec_bool) (\<lambda>x2.
     rbind (read_key flt d ''engines.ookla_accept_gdpr'' dec_bool) (\<lambda>x3.
     rbind (read_key flt d ''engines.server_list_ttl_seconds'' dec_int) (\<lambda>x4.
     rbind (read_key flt d ''engines.default_ookla_options'' Some) (\<lambda>x5.
     rbind (read_key flt d ''engines.default_cloudflare_options'' Some) (\<lambda>x6.
     rbind (read_key flt d ''engines.default_iperf3_options'' Some) (\<lambda>x7.
     rbind (read_key flt d ''engines.iperf3_list_url'' dec_string) (\<lambda>x8.
       Inr \<lparr>en_speedtest_bin = x0, en_iperf3_bin = x1, en_ookla_accept_license = x2,
            en_ookla_accept_gdpr = x3, en_server_list_ttl_seconds = x4, en_default_ookla_options = x5,
            en_default_cloudflare_options = x6, en_default_iperf3_options = x7, en_iperf3_list_url = x8\<rparr>)))))))))"

definition Integrations :: "(string \<Rightarrow> fault) \<Rightarrow> db \<Rightarrow> integrations res" where
  "Integrations flt d =
     rbind (read_key flt d ''integrations.vm_enabled'' dec_bool) (\<lambda>x0.
     rbind (read_key flt d ''integrations.vm_url'' dec_string) (\<lambda>x1.
     rbind (read_key flt d ''integrations.vm_auth_header'' dec_string) (\<lambda>x2.
     rbind (read_key flt d ''integrations.vm_auth_type'' dec_string) (\<lambda>x3.
     rbind (read_key flt d ''integrations.vm_auth_username'' dec_string) (\<lambda>x4.
     rbind (read_key flt d ''integrations.vm_auth_password'' dec_string) (\<lambda>x5.
     rbind (read_key flt d ''integrations.vm_auth_token'' dec_string) (\<lambda>x6.
     rbind (read_key flt d ''integrations.vm_auth_header_name'' dec_string) (\<lambda>x7.
     rbind (read_key flt d ''integrations.vm_auth_header_value'' dec_string) (\<lambda>x8.
     rbind (read_key flt d ''integrations.vm_extra_labels'' unm_map) (\<lambda>x9.
     rbind (read_key flt d ''integrations.vl_enabled'' dec_bool) (\<lambda>x10.
     rbind (read_key flt d ''integrations.vl_url'' dec_string) (\<lambda>x11.
     rbind (read_key flt d ''integrations.vl_auth_header'' dec_string) (\<lambda>x12.
     rbind (read_key flt d ''integrations.vl_auth_type'' dec_string) (\<lambda>x13.
     rbind (read_key flt d ''integrations.vl_auth_username'' dec_string) (\<lambda>x14.
     rbind (read_key flt d ''integrations.vl_auth_password'' dec_string) (\<lambda>x15.
     rbind (read_key flt d ''integrations.vl_auth_token'' dec_string) (\<lambda>x16.
     rbind (read_key flt d ''integrations.vl_auth_header_name'' dec_string) (\<lambda>x17.
     rbind (read_key flt d ''integrations.vl_auth_header_value'' dec_string) (\<lambda>x18.
     rbind (read_key flt d ''integrations.vl_stream_fields'' unm_map) (\<lambda>x19.
     rbind (read_key flt d ''integrations.metrics_enabled'' dec_bool) (\<lambda>x20.
       Inr \<lparr>ig_vm_enabled = x0, ig_vm_url = x1, ig_vm_auth_header = x2, ig_vm_auth_type = x3,
            ig_vm_auth_username = x4, ig_vm_auth_password = x5, ig_vm_auth_token = x6,
            ig_vm_auth_header_name = x7, ig_vm_auth_header_value = x8, ig_vm_extra_labels = nil_empty x9,
            ig_vl_enabled = x10, ig_vl_url = x11, ig_vl_auth_header = x12, ig_vl_auth_type = x13,
            ig_vl_auth_username = x14, ig_vl_auth_password = x15, ig_vl_auth_token = x16,
            ig_vl_auth_header_name = x17, ig_vl_auth_header_value = x18, ig_vl_stream_fields = nil_empty x19,
            ig_metrics_enabled = x20\<rparr>)))))))))))))))))))))"

definition Notifications :: "(string \<Rightarrow> fault) \<Rightarrow> db \<Rightarrow> notifications res" where
  "Notifications flt d =
     rbind (read_key flt d ''notifications.enabled'' dec_bool) (\<lambda>x0.
     rbind (read_key flt d ''notifications.channels'' (unm_list elem_channel)) (\<lambda>x1.
     rbind (read_key flt d ''notifications.default_thresholds'' unm_thresholds) (\<lambda>x2.
     rbind (read_key flt d ''notifications.cooldown_minutes'' dec_int) (\<lambda>x3.
     rbind (read_key flt d ''notifications.quiet_hours_start'' dec_string) (\<lambda>x4.
     rbind (read_key flt d ''notifications.quiet_hours_end'' dec_string) (\<lambda>x5.
     rbind (read_key flt d ''notifications.notify_recovery'' dec_bool) (\<lambda>x6.
       Inr \<lparr>n_enabled = x0, n_channels = nil_empty x1, n_defaults = x2, n_cooldown_minutes = max 1 x3,
            n_quiet_start = x4, n_quiet_end = x5, n_recovery = x6\<rparr>)))))))"

definition Auth :: "(string \<Rightarrow> fault) \<Rightarrow> db \<Rightarrow> auth res" where
  "Auth flt d =
     rbind (read_key flt d ''auth.mode'' dec_string) (\<lambda>x0.
     rbind (read_key flt d ''auth.user_header'' dec_string) (\<lambda>x1.
     rbind (read_key flt d ''auth.groups_header'' dec_string) (\<lambda>x2.
     rbind (read_key flt d ''auth.groups_separator'' dec_string) (\<lambda>x3.
     rbind (read_key flt d ''auth.trusted_proxies'' (unm_list elem_str)) (\<lambda>x4.
     rbind (read_key flt d ''auth.admin_group'' dec_string) (\<lambda>x5.
     rbind (read_key flt d ''auth.allow_tokens'' dec_bool) (\<lambda>x6.
     rbind (read_key flt d ''auth.oidc_issuer'' dec_string) (\<lambda>x7.
     rbind (read_key flt d ''auth.oidc_client_id'' dec_string) (\<lambda>x8.
     rbind (read_key flt d ''auth.oidc_client_secret'' dec_string) (\<lambda>x9.
     rbind (read_key flt d ''auth.oidc_redirect_base_url'' dec_string) (\<lambda>x10.
     rbind (read_key flt d ''auth.oidc_scopes'' (unm_list elem_str)) (\<lambda>x11.
     rbind (read_key flt d ''auth.oidc_groups_claim'' dec_string) (\<lambda>x12.
     rbind (read_key flt d ''auth.oidc_allowed_groups'' (unm_list elem_str)) (\<lambda>x13.
     rbind (read_key flt d ''auth.oidc_allowed_emails'' (unm_list elem_str)) (\<lambda>x14.
     rbind (read_key flt d ''auth.oidc_display_claim'' dec_string) (\<lambda>x15.
     rbind (read_key flt d ''auth.session_ttl_hours'' dec_int) (\<lambda>x16.
       Inr \<lparr>a_mode = x0, a_user_header = x1, a_groups_header = x2,
            a_groups_separator = if x3 = [] then '','' else x3, a_trusted_proxies = nil_empty x4,
            a_admin_group = x5, a_allow_tokens = x6, a_oidc_issuer = x7, a_oidc_client_id = x8,
            a_oidc_client_secret = x9, a_oidc_redirect_base_url = x10, a_oidc_scopes = nil_empty x11,
            a_oidc_groups_claim = x12, a_oidc_allowed_groups = nil_empty x13,
            a_oidc_allowed_emails = nil_empty x14, a_oidc_display_claim = x15, a_session_ttl_hours = x16\<rparr>)))))))))))))))))"

subsection \<open>Subscribers\<close>

text \<open>
  The pump goroutine is at the select over \<open>done\<close> and \<open>wake\<close>, at the lock before it takes the dirty keys,
  sending the keys it took, or gone. \<open>sub_marking\<close>: a writer is between the two halves of \<open>mark\<close>. The
  one-slot channel \<open>wake\<close> is whether it holds its token; \<open>out\<close> has room for 16 keys.
\<close>

datatype pump_pc = PSelect | PLock | PSend "string list" | PExit

record subscriber =
  sub_dirty :: "string set"
  sub_wake :: bool
  sub_done :: bool
  sub_out :: "string list"
  sub_closed :: bool
  sub_pc :: pump_pc
  sub_marking :: bool

definition new_subscriber :: subscriber where
  "new_subscriber = \<lparr>sub_dirty = {}, sub_wake = False, sub_done = False, sub_out = [], sub_closed = False,
     sub_pc = PSelect, sub_marking = False\<rparr>"

definition mark_dirty :: "string \<Rightarrow> subscriber \<Rightarrow> subscriber" where
  "mark_dirty key s = s\<lparr>sub_dirty := insert key (sub_dirty s), sub_marking := True\<rparr>"

definition mark_wake :: "subscriber \<Rightarrow> subscriber" where
  "mark_wake s = s\<lparr>sub_wake := True, sub_marking := False\<rparr>"

definition mark :: "string \<Rightarrow> subscriber \<Rightarrow> subscriber" where
  "mark key s = mark_wake (mark_dirty key s)"

text \<open>One step of \<open>pump\<close>; \<open>stop\<close> says that the select takes its \<open>done\<close> case. \<open>None\<close>: blocked or gone.\<close>

definition pump :: "bool \<Rightarrow> subscriber \<Rightarrow> subscriber option" where
  "pump stop s =
     (case sub_pc s of
        PSelect \<Rightarrow>
          if stop then (if sub_done s then Some (s\<lparr>sub_pc := PExit, sub_closed := True\<rparr>) else None)
          else if sub_wake s then Some (s\<lparr>sub_wake := False, sub_pc := PLock\<rparr>) else None
      | PLock \<Rightarrow> Some (s\<lparr>sub_pc := PSend (sorted_list_of_set (sub_dirty s)), sub_dirty := {}\<rparr>)
      | PSend [] \<Rightarrow> Some (s\<lparr>sub_pc := PSelect\<rparr>)
      | PSend (k # ks) \<Rightarrow>
          if stop then (if sub_done s then Some (s\<lparr>sub_pc := PExit, sub_closed := True\<rparr>) else None)
          else if length (sub_out s) < 16 then Some (s\<lparr>sub_out := sub_out s @ [k], sub_pc := PSend ks\<rparr>) else None
      | PExit \<Rightarrow> None)"

text \<open>A receive from the channel \<open>Subscribe\<close> returned.\<close>

definition sub_recv :: "subscriber \<Rightarrow> (string \<times> subscriber) option" where
  "sub_recv s = (case sub_out s of [] \<Rightarrow> None | k # ks \<Rightarrow> Some (k, s\<lparr>sub_out := ks\<rparr>))"

subsection \<open>The store and its transactions\<close>

record settings_store =
  ss_subs :: "nat \<rightharpoonup> subscriber"
  ss_next :: nat
  ss_locked :: "string set"

definition settings_New :: "(string \<Rightarrow> fault) \<Rightarrow> string list \<Rightarrow> db \<Rightarrow> db \<times> settings_store res" where
  "settings_New flt order d =
     (case seed_all flt order d of
        (d', Inl e) \<Rightarrow> (d', Inl e)
      | (d', Inr _) \<Rightarrow> (d', Inr \<lparr>ss_subs = Map.empty, ss_next = 0, ss_locked = {}\<rparr>))"

definition Subscribe :: "settings_store \<Rightarrow> settings_store \<times> nat" where
  "Subscribe st = (st\<lparr>ss_subs := (ss_subs st)(ss_next st \<mapsto> new_subscriber), ss_next := Suc (ss_next st)\<rparr>, ss_next st)"

text \<open>The cancel function; the subscriber it closes is returned because its pump still has to exit.\<close>

definition sub_cancel :: "nat \<Rightarrow> settings_store \<Rightarrow> settings_store \<times> subscriber option" where
  "sub_cancel i st =
     (case ss_subs st i of
        None \<Rightarrow> (st, None)
      | Some s \<Rightarrow> (st\<lparr>ss_subs := (ss_subs st)(i := None)\<rparr>, Some (s\<lparr>sub_done := True\<rparr>)))"

definition settings_notify :: "string \<Rightarrow> settings_store \<Rightarrow> settings_store" where
  "settings_notify key st = st\<lparr>ss_subs := (\<lambda>i. map_option (mark key) (ss_subs st i))\<rparr>"

record tx =
  tx_view :: "string \<rightharpoonup> raw"
  tx_changed :: "string list"
  tx_done :: bool

definition Begin :: "fault \<Rightarrow> db \<Rightarrow> tx res" where
  "Begin flt d = (case flt of
     Some e \<Rightarrow> Inl (ErrDB e)
   | None \<Rightarrow> Inr \<lparr>tx_view = settings_t d, tx_changed = [], tx_done = False\<rparr>)"

text \<open>A failed read of the old value is ignored and counts as no old value (\<open>rflt\<close>); \<open>wflt\<close> is the upsert.\<close>

definition Tx_Set :: "fault \<Rightarrow> fault \<Rightarrow> tx \<Rightarrow> string \<Rightarrow> setting_value \<Rightarrow> tx \<times> unit res" where
  "Tx_Set rflt wflt t key v =
     (if tx_done t then (t, Inl (ErrDB ''settings tx already finished''))
      else
        let encoded = RawDoc (Marshal v);
            old = (if rflt = None then (case tx_view t key of None \<Rightarrow> RawEmpty | Some r \<Rightarrow> r) else RawEmpty)
        in case wflt of
             Some e \<Rightarrow> (t, Inl (ErrDB e))
           | None \<Rightarrow>
               (t\<lparr>tx_view := (tx_view t)(key \<mapsto> encoded),
                  tx_changed := (if old \<noteq> encoded then tx_changed t @ [key] else tx_changed t)\<rparr>,
                Inr ()))"

definition Tx_Commit :: "fault \<Rightarrow> tx \<Rightarrow> db \<times> settings_store \<Rightarrow> tx \<times> (db \<times> settings_store) \<times> unit res" where
  "Tx_Commit flt t w =
     (if tx_done t then (t, w, Inl (ErrDB ''settings tx already finished''))
      else case flt of
             Some e \<Rightarrow> (t\<lparr>tx_done := True\<rparr>, w, Inl (ErrDB e))
           | None \<Rightarrow>
               (t\<lparr>tx_done := True\<rparr>,
                ((fst w)\<lparr>settings_t := tx_view t\<rparr>, fold settings_notify (tx_changed t) (snd w)),
                Inr ()))"

definition Tx_Rollback :: "tx \<Rightarrow> tx" where
  "Tx_Rollback t = (if tx_done t then t else t\<lparr>tx_done := True\<rparr>)"

text \<open>What the driver answers to the four statements of \<open>Set\<close>.\<close>

record set_faults =
  sf_begin :: fault
  sf_read :: fault
  sf_write :: fault
  sf_commit :: fault

definition Settings_Set :: "set_faults \<Rightarrow> string \<Rightarrow> setting_value \<Rightarrow> db \<times> settings_store \<Rightarrow> (db \<times> settings_store) \<times> unit res" where
  "Settings_Set f key v w =
     (case Begin (sf_begin f) (fst w) of
        Inl e \<Rightarrow> (w, Inl e)
      | Inr t \<Rightarrow>
          (case Tx_Set (sf_read f) (sf_write f) t key v of
             (t', Inl e) \<Rightarrow> (w, Inl e)
           | (t', Inr _) \<Rightarrow> (case Tx_Commit (sf_commit f) t' w of (t'', w', r) \<Rightarrow> (w', r))))"

end
