(* ===== verification/Session_Store.thy ===== *)
theory Session_Store
  imports Settings
begin

text \<open>
  Login sessions and API tokens: \<open>internal/store/sessions.go\<close> and \<open>tokens.go\<close>. Session times are stored as
  texts with nine fractional digits, so that SQLite's text comparison orders them; a token is stored by
  the hash of its plaintext.
\<close>

subsection \<open>Sessions\<close>

record session =
  sess_id :: string
  sess_subject :: string
  sess_email :: string
  sess_name :: string
  sess_username :: string
  sess_groups :: "string list"
  sess_is_admin :: bool
  sess_created :: time
  sess_expires :: time

definition scanSession :: "session_row \<Rightarrow> session res" where
  "scanSession r =
     (case (case sr_groups r of RawDoc j \<Rightarrow> unm_list elem_str j | _ \<Rightarrow> None) of
        None \<Rightarrow> Inl (ErrDB ''decode groups'')
      | Some gs \<Rightarrow>
          (case Parse_frac 9 (sr_created_at r) of
             None \<Rightarrow> Inl (ErrDB ''parse created_at'')
           | Some ct \<Rightarrow>
               (case Parse_frac 9 (sr_expires_at r) of
                  None \<Rightarrow> Inl (ErrDB ''parse expires_at'')
                | Some et \<Rightarrow>
                    Inr \<lparr>sess_id = sr_id r, sess_subject = sr_subject r, sess_email = sr_email r, sess_name = sr_name r,
                         sess_username = sr_username r, sess_groups = nil_empty gs, sess_is_admin = sr_is_admin r,
                         sess_created = ct, sess_expires = et\<rparr>)))"

text \<open>The row an insert writes; nil groups are stored as the empty list.\<close>

definition session_columns :: "session \<Rightarrow> session_row" where
  "session_columns s = \<lparr>sr_id = sess_id s, sr_subject = sess_subject s, sr_email = sess_email s, sr_name = sess_name s,
     sr_username = sess_username s, sr_groups = RawDoc (JArr (map JStr (sess_groups s))), sr_is_admin = sess_is_admin s,
     sr_created_at = Format_frac 9 (sess_created s), sr_expires_at = Format_frac 9 (sess_expires s)\<rparr>"

definition CreateSession :: "fault \<Rightarrow> db \<Rightarrow> session \<Rightarrow> db \<times> unit res" where
  "CreateSession flt d s =
     (case flt of
        Some e \<Rightarrow> (d, Inl (ErrDB e))
      | None \<Rightarrow>
          if \<exists>r\<in>set (sessions_t d). sr_id r = sess_id s then (d, Inl (ErrDB ''UNIQUE constraint failed: sessions.id''))
          else (d\<lparr>sessions_t := sessions_t d @ [session_columns s]\<rparr>, Inr ()))"

definition LookupSession :: "fault \<Rightarrow> db \<Rightarrow> string \<Rightarrow> time \<Rightarrow> session option res" where
  "LookupSession flt d i now =
     (case flt of
        Some e \<Rightarrow> Inl (ErrDB e)
      | None \<Rightarrow>
          (case find (\<lambda>r. sr_id r = i) (sessions_t d) of
             None \<Rightarrow> Inr None
           | Some r \<Rightarrow>
               (case scanSession r of
                  Inl e \<Rightarrow> Inl e
                | Inr s \<Rightarrow> if \<not> now < sess_expires s then Inr None else Inr (Some s))))"

definition DeleteSession :: "fault \<Rightarrow> db \<Rightarrow> string \<Rightarrow> db \<times> unit res" where
  "DeleteSession flt d i =
     (case flt of
        Some e \<Rightarrow> (d, Inl (ErrDB e))
      | None \<Rightarrow> (d\<lparr>sessions_t := delete_where (\<lambda>r. sr_id r = i) (sessions_t d)\<rparr>, Inr ()))"

definition DeleteAllSessions :: "fault \<Rightarrow> db \<Rightarrow> db \<times> nat res" where
  "DeleteAllSessions flt d =
     (case flt of
        Some e \<Rightarrow> (d, Inl (ErrDB e))
      | None \<Rightarrow> (d\<lparr>sessions_t := []\<rparr>, Inr (length (sessions_t d))))"

definition DeleteExpiredSessions :: "fault \<Rightarrow> db \<Rightarrow> time \<Rightarrow> db \<times> nat res" where
  "DeleteExpiredSessions flt d now =
     (case flt of
        Some e \<Rightarrow> (d, Inl (ErrDB e))
      | None \<Rightarrow>
          let gone = (\<lambda>r. sr_expires_at r \<le> Format_frac 9 now)
          in (d\<lparr>sessions_t := delete_where gone (sessions_t d)\<rparr>, Inr (affected gone (sessions_t d))))"

subsection \<open>API tokens\<close>

text \<open>What the API serves of a token: never its hash.\<close>

record api_token =
  at_id :: int
  at_name :: string
  at_prefix :: string
  at_created_at :: string
  at_last_used_at :: string

definition scanAPIToken :: "api_token_row \<Rightarrow> api_token" where
  "scanAPIToken r = \<lparr>at_id = tok_id r, at_name = tok_name r, at_prefix = tok_prefix r, at_created_at = tok_created_at r,
     at_last_used_at = (case tok_last_used_at r of None \<Rightarrow> [] | Some t \<Rightarrow> t)\<rparr>"

text \<open>\<open>now\<close> is SQLite's \<open>strftime\<close> text of the current time.\<close>

definition CreateAPIToken :: "fault \<Rightarrow> db \<Rightarrow> string \<Rightarrow> string \<Rightarrow> string \<Rightarrow> string \<Rightarrow> db \<times> api_token res" where
  "CreateAPIToken flt d now name hash prefix =
     (case flt of
        Some e \<Rightarrow> (d, Inl (ErrDB e))
      | None \<Rightarrow>
          if \<exists>r\<in>set (rows (api_tokens_t d)). tok_hash r = hash
          then (d, Inl (ErrDB ''UNIQUE constraint failed: api_tokens.hash''))
          else let mk = (\<lambda>i. \<lparr>tok_id = i, tok_name = name, tok_hash = hash, tok_prefix = prefix, tok_created_at = now,
                             tok_last_used_at = None\<rparr>)
               in (d\<lparr>api_tokens_t := insert_row mk (api_tokens_t d)\<rparr>,
                   Inr (scanAPIToken (mk (seq (api_tokens_t d) + 1)))))"

definition ListAPITokens :: "fault \<Rightarrow> db \<Rightarrow> api_token list res" where
  "ListAPITokens flt d =
     (case flt of
        Some e \<Rightarrow> Inl (ErrDB e)
      | None \<Rightarrow> Inr (map scanAPIToken (rev (sort_key tok_created_at (sort_key tok_id (rows (api_tokens_t d)))))))"

definition DeleteAPIToken :: "fault \<Rightarrow> db \<Rightarrow> int \<Rightarrow> db \<times> unit res" where
  "DeleteAPIToken flt d i =
     (case flt of
        Some e \<Rightarrow> (d, Inl (ErrDB e))
      | None \<Rightarrow>
          if affected (\<lambda>r. tok_id r = i) (rows (api_tokens_t d)) = 0 then (d, Inl ErrNotFound)
          else (d\<lparr>api_tokens_t := map_rows (delete_where (\<lambda>r. tok_id r = i)) (api_tokens_t d)\<rparr>, Inr ()))"

definition APITokenByHash :: "fault \<Rightarrow> db \<Rightarrow> string \<Rightarrow> api_token option res" where
  "APITokenByHash flt d hash =
     (case flt of
        Some e \<Rightarrow> Inl (ErrDB e)
      | None \<Rightarrow> Inr (map_option scanAPIToken (find (\<lambda>r. tok_hash r = hash) (rows (api_tokens_t d)))))"

definition TouchAPIToken :: "fault \<Rightarrow> db \<Rightarrow> string \<Rightarrow> int \<Rightarrow> db \<times> unit res" where
  "TouchAPIToken flt d now i =
     (case flt of
        Some e \<Rightarrow> (d, Inl (ErrDB e))
      | None \<Rightarrow>
          if affected (\<lambda>r. tok_id r = i) (rows (api_tokens_t d)) = 0 then (d, Inl ErrNotFound)
          else (d\<lparr>api_tokens_t := map_rows (update_where (\<lambda>r. tok_id r = i) (\<lambda>r. r\<lparr>tok_last_used_at := Some now\<rparr>))
                   (api_tokens_t d)\<rparr>, Inr ()))"

definition CountAPITokens :: "fault \<Rightarrow> db \<Rightarrow> nat res" where
  "CountAPITokens flt d = (case flt of Some e \<Rightarrow> Inl (ErrDB e) | None \<Rightarrow> Inr (length (rows (api_tokens_t d))))"

subsection \<open>Stored sessions\<close>

text \<open>
  The invariant of the table: ids are unique and every row was written from a session with four-digit years.
\<close>

definition session_times_ok :: "session \<Rightarrow> bool" where
  "session_times_ok s \<longleftrightarrow> year4 (sess_created s) \<and> year4 (sess_expires s)"

definition sessions_ok :: "db \<Rightarrow> bool" where
  "sessions_ok d \<longleftrightarrow> distinct (map sr_id (sessions_t d)) \<and>
     (\<forall>r\<in>set (sessions_t d). \<exists>s. session_times_ok s \<and> r = session_columns s)"

lemma scan_session_columns:
  assumes "session_times_ok s"
  shows "scanSession (session_columns s) = Inr s"
  using assms by (simp add: scanSession_def session_columns_def session_times_ok_def Parse_Format nil_empty_def frac_unit_def)

lemma sessions_ok_find:
  assumes "sessions_ok d" "find (\<lambda>r. sr_id r = i) (sessions_t d) = Some r"
  obtains s where "session_times_ok s" "r = session_columns s" "scanSession r = Inr s"
  using assms scan_session_columns find_SomeD [OF assms(2)] by (auto simp: sessions_ok_def)

lemma expired_iff:
  assumes "session_times_ok s" "year4 now"
  shows "sr_expires_at (session_columns s) \<le> Format_frac 9 now \<longleftrightarrow> sess_expires s \<le> now"
proof -
  have "Format_frac 9 now < Format_frac 9 (sess_expires s) \<longleftrightarrow> now < sess_expires s"
    using Format_frac_less_iff [of now "sess_expires s" 9] assms by (simp add: session_times_ok_def frac_unit_def)
  then show ?thesis by (simp add: session_columns_def linorder_not_less [symmetric])
qed

lemma find_delete_where:
  assumes "distinct (map key rs)"
  shows "find (\<lambda>r. key r = i) (delete_where P rs) =
    (case find (\<lambda>r. key r = i) rs of None \<Rightarrow> None | Some r \<Rightarrow> if P r then None else Some r)"
  using assms
proof (induction rs)
  case (Cons a rs)
  have "key x \<noteq> key a" if "x \<in> set rs" for x using Cons.prems that by (auto simp: rev_image_eqI)
  then have "find (\<lambda>r. key r = key a) rs = None" by (simp add: find_None)
  then show ?case using Cons by (auto simp: delete_where_def)
qed (simp add: delete_where_def)

lemma sessions_ok_delete: "sessions_ok d \<Longrightarrow> sessions_ok (d\<lparr>sessions_t := delete_where P (sessions_t d)\<rparr>)"
  by (auto simp: sessions_ok_def delete_where_def distinct_map_filter)

lemma sessions_ok_create:
  assumes "sessions_ok d" "session_times_ok s"
  shows "sessions_ok (fst (CreateSession flt d s))"
  using assms by (auto simp: CreateSession_def sessions_ok_def session_columns_def split: option.split)

text \<open>Removing what has expired is invisible to every later lookup.\<close>

lemma lookup_after_expiry:
  assumes "sessions_ok d" "year4 p" "p \<le> now"
  shows "LookupSession flt (fst (DeleteExpiredSessions flt' d p)) i now = LookupSession flt d i now"
proof (cases flt')
  case None
  let ?gone = "\<lambda>r. sr_expires_at r \<le> Format_frac 9 p"
  have find: "find (\<lambda>r. sr_id r = i) (delete_where ?gone (sessions_t d)) =
      (case find (\<lambda>r. sr_id r = i) (sessions_t d) of None \<Rightarrow> None | Some r \<Rightarrow> if ?gone r then None else Some r)"
    using assms(1) by (intro find_delete_where) (simp add: sessions_ok_def)
  show ?thesis
  proof (cases "find (\<lambda>r. sr_id r = i) (sessions_t d)")
    case (Some r)
    from sessions_ok_find [OF assms(1) Some] obtain s where
      s: "session_times_ok s" "r = session_columns s" "scanSession r = Inr s" by blast
    have "?gone r \<longleftrightarrow> sess_expires s \<le> p" using expired_iff [OF s(1) assms(2)] s(2) by simp
    then show ?thesis using assms(3) find Some s(3)
      by (auto simp: LookupSession_def DeleteExpiredSessions_def None Let_def split: option.split)
  qed (simp add: LookupSession_def DeleteExpiredSessions_def None Let_def find split: option.split)
qed (simp add: DeleteExpiredSessions_def)

end
