(* ===== verification/Encodings.thy ===== *)
theory Encodings
  imports Go_Time
begin

text \<open>
  The parts of Go's standard library the login code rests on: \<open>base64.RawURLEncoding\<close>, \<open>strings.Split\<close>,
  \<open>strings.Join\<close>, \<open>strings.HasPrefix\<close> and \<open>strconv.ParseInt\<close>, with the round trips the callers need.
\<close>

subsection \<open>Base 64, URL alphabet, no padding\<close>

definition b64_alphabet :: string where
  "b64_alphabet = ''ABCDEFGHIJKLMNOPQRSTUVWXYZabcdefghijklmnopqrstuvwxyz0123456789-_''"

definition b64_char :: "nat \<Rightarrow> char" where
  "b64_char i = b64_alphabet ! i"

fun index_of :: "'a \<Rightarrow> 'a list \<Rightarrow> nat option" where
  "index_of x [] = None"
| "index_of x (y # ys) = (if x = y then Some 0 else map_option Suc (index_of x ys))"

definition b64_val :: "char \<Rightarrow> nat option" where
  "b64_val c = index_of c b64_alphabet"

definition byte :: "char \<Rightarrow> nat" where
  "byte c = of_char c"

fun b64_encode :: "string \<Rightarrow> string" where
  "b64_encode [] = []"
| "b64_encode [a] = [b64_char (byte a div 4), b64_char (byte a mod 4 * 16)]"
| "b64_encode [a, b] =
     [b64_char (byte a div 4), b64_char (byte a mod 4 * 16 + byte b div 16), b64_char (byte b mod 16 * 4)]"
| "b64_encode (a # b # c # bs) =
     [b64_char (byte a div 4), b64_char (byte a mod 4 * 16 + byte b div 16),
      b64_char (byte b mod 16 * 4 + byte c div 64), b64_char (byte c mod 64)] @ b64_encode bs"

text \<open>The decoder on the values of the characters; it is not strict about unused trailing bits.\<close>

fun b64_bytes :: "nat list \<Rightarrow> string option" where
  "b64_bytes [] = Some []"
| "b64_bytes [p] = None"
| "b64_bytes [p, q] = Some [char_of (p * 4 + q div 16)]"
| "b64_bytes [p, q, r] = Some [char_of (p * 4 + q div 16), char_of (q mod 16 * 16 + r div 4)]"
| "b64_bytes (p # q # r # s # vs) =
     map_option (\<lambda>bs. [char_of (p * 4 + q div 16), char_of (q mod 16 * 16 + r div 4), char_of (r mod 4 * 64 + s)] @ bs)
       (b64_bytes vs)"

fun opt_all :: "'a option list \<Rightarrow> 'a list option" where
  "opt_all [] = Some []"
| "opt_all (None # xs) = None"
| "opt_all (Some x # xs) = map_option ((#) x) (opt_all xs)"

text \<open>Line breaks are skipped anywhere; any other character outside the alphabet is an error.\<close>

definition b64_decode :: "string \<Rightarrow> string option" where
  "b64_decode s = Option.bind (opt_all (map b64_val (filter (\<lambda>c. c \<noteq> CHR 0x0A \<and> c \<noteq> CHR 0x0D) s))) b64_bytes"

lemma byte_less [simp]: "byte c < 256"
  by (simp add: byte_def)

lemma char_of_byte [simp]: "char_of (byte c) = c"
  by (simp add: byte_def)

lemma b64_table: "list_all (\<lambda>i. b64_val (b64_char i) = Some i \<and> b64_char i \<noteq> CHR 0x0A \<and> b64_char i \<noteq> CHR 0x0D \<and>
    b64_char i \<noteq> CHR ''.'' \<and> b64_char i \<noteq> CHR 0x00) [0..<64]"
  by code_simp

lemma b64_char_simps [simp]:
  assumes "i < 64"
  shows "b64_val (b64_char i) = Some i" "b64_char i \<noteq> CHR 0x0A" "b64_char i \<noteq> CHR 0x0D" "b64_char i \<noteq> CHR ''.''"
    "b64_char i \<noteq> CHR 0x00"
  using b64_table assms by (simp_all add: list_all_iff)

lemma b64_bounds [simp]:
  "byte a div 4 < 64" "byte a mod 4 * 16 < 64" "byte a mod 4 * 16 + byte b div 16 < 64" "byte b mod 16 * 4 < 64"
  "byte b mod 16 * 4 + byte c div 64 < 64" "byte c mod 64 < 64" "byte b div 16 < 16" "byte c div 64 < 4"
proof -
  have d: "byte x div 4 < 64" "byte x div 16 < 16" "byte x div 64 < 4" "byte x mod 4 < 4" "byte x mod 16 < 16" for x
    by (simp_all add: less_mult_imp_div_less)
  show "byte a div 4 < 64" "byte a mod 4 * 16 < 64" "byte b mod 16 * 4 < 64" "byte c mod 64 < 64"
    "byte b div 16 < 16" "byte c div 64 < 4"
    using d(1,4) [of a] d(2,5) [of b] d(3) [of c] by simp_all
  show "byte a mod 4 * 16 + byte b div 16 < 64" using d(4) [of a] d(2) [of b] by linarith
  show "byte b mod 16 * 4 + byte c div 64 < 64" using d(5) [of b] d(3) [of c] by linarith
qed

lemma sextet_split:
  fixes x y :: nat
  shows "y < 16 \<Longrightarrow> (x * 16 + y) div 16 = x" "y < 16 \<Longrightarrow> (x * 16 + y) mod 16 = y"
    "y < 4 \<Longrightarrow> (x * 4 + y) div 4 = x" "y < 4 \<Longrightarrow> (x * 4 + y) mod 4 = y"
  by simp_all

lemma b64_join:
  "char_of (byte a div 4 * 4 + byte a mod 4) = a"
  "char_of (byte b div 16 * 16 + byte b mod 16) = b"
  "char_of (byte c div 64 * 64 + byte c mod 64) = c"
  by (simp_all only: div_mult_mod_eq char_of_byte)

lemma b64_decode_encode [simp]: "b64_decode (b64_encode s) = Some s"
proof -
  have "Option.bind (opt_all (map b64_val (filter (\<lambda>c. c \<noteq> CHR 0x0A \<and> c \<noteq> CHR 0x0D) (b64_encode s)))) b64_bytes = Some s"
  proof (induction s rule: b64_encode.induct)
    case (2 a)
    then show ?case by (simp add: b64_join)
  next
    case (3 a b)
    then show ?case by (simp add: b64_join sextet_split)
  next
    case (4 a b c bs)
    then obtain vs where "opt_all (map b64_val (filter (\<lambda>c. c \<noteq> CHR 0x0A \<and> c \<noteq> CHR 0x0D) (b64_encode bs))) = Some vs"
      "b64_bytes vs = Some bs" by (auto simp: bind_eq_Some_conv)
    then show ?case by (simp add: b64_join sextet_split)
  qed simp
  then show ?thesis by (simp add: b64_decode_def)
qed

lemma not_dot: "i < 64 \<Longrightarrow> CHR ''.'' \<noteq> b64_char i" "i < 64 \<Longrightarrow> CHR 0x00 \<noteq> b64_char i"
  using b64_char_simps(4,5) [of i] by metis+

lemma b64_encode_no_dot: "CHR ''.'' \<notin> set (b64_encode s)"
  by (induction s rule: b64_encode.induct) (simp_all add: not_dot)

lemma b64_encode_no_nul: "CHR 0x00 \<notin> set (b64_encode s)"
  by (induction s rule: b64_encode.induct) (simp_all add: not_dot)

lemma b64_encode_Nil [simp]: "b64_encode s = [] \<longleftrightarrow> s = []"
  by (cases s rule: b64_encode.cases) simp_all

subsection \<open>Splitting\<close>

definition HasPrefix :: "string \<Rightarrow> string \<Rightarrow> bool" where
  "HasPrefix s p \<longleftrightarrow> take (length p) s = p"

definition TrimPrefix :: "string \<Rightarrow> string \<Rightarrow> string" where
  "TrimPrefix s p = (if HasPrefix s p then drop (length p) s else s)"

text \<open>\<open>strings.Split(s, sep)\<close> for a separator that is not empty; \<open>acc\<close> is the current piece, reversed.\<close>

function split_acc :: "string \<Rightarrow> string \<Rightarrow> string \<Rightarrow> string list" where
  "split_acc sep acc [] = [rev acc]"
| "split_acc sep acc (c # cs) =
     (if sep \<noteq> [] \<and> HasPrefix (c # cs) sep then rev acc # split_acc sep [] (drop (length sep) (c # cs))
      else split_acc sep (c # acc) cs)"
  by pat_completeness auto
termination by (relation "measure (\<lambda>(sep, acc, s). length s)") auto

definition Split :: "string \<Rightarrow> string \<Rightarrow> string list" where
  "Split s sep = split_acc sep [] s"

text \<open>\<open>strings.Join\<close>.\<close>

fun Join :: "string list \<Rightarrow> string \<Rightarrow> string" where
  "Join [] sep = []"
| "Join [s] sep = s"
| "Join (s # t # ss) sep = s @ sep @ Join (t # ss) sep"

lemma split_acc_piece: "x \<notin> set p \<Longrightarrow> split_acc [x] acc (p @ s) = split_acc [x] (rev p @ acc) s"
  by (induction p arbitrary: acc) (auto simp: HasPrefix_def)

lemma Split_Join:
  assumes "ss \<noteq> []" "\<forall>s\<in>set ss. x \<notin> set s"
  shows "Split (Join ss [x]) [x] = ss"
  unfolding Split_def using assms
proof (induction ss rule: induct_list012)
  case (2 s)
  then show ?case using split_acc_piece [of x s "[]" "[]"] by simp
next
  case (3 s t ss)
  then have "split_acc [x] [] (Join (s # t # ss) [x]) = split_acc [x] (rev s) (x # Join (t # ss) [x])"
    using split_acc_piece [of x s "[]"] by simp
  then show ?case using 3 by (simp add: HasPrefix_def)
qed simp

subsection \<open>Decimal numbers\<close>

text \<open>\<open>strconv.ParseInt(s, 10, 64)\<close>.\<close>

definition ParseInt64 :: "string \<Rightarrow> int option" where
  "ParseInt64 s =
     (case s of
        [] \<Rightarrow> None
      | c # cs \<Rightarrow>
          let neg = (c = CHR ''-''); ds = (if c = CHR ''-'' \<or> c = CHR ''+'' then cs else s);
              n = (if neg then - digits_val ds else digits_val ds)
          in if ds = [] \<or> \<not> list_all is_digit ds \<or> n < - (2^63) \<or> 2^63 \<le> n then None else Some n)"

lemma digits_val_snoc: "digits_val (s @ [c]) = 10 * digits_val s + digit_val c"
  by (simp add: digits_val_def)

lemma nat_digits_props: "list_all is_digit (nat_digits n) \<and> nat_digits n \<noteq> [] \<and> digits_val (nat_digits n) = int n"
proof (induction n rule: nat_digits.induct)
  case (1 n)
  show ?case
  proof (cases "n < 10")
    case True
    then show ?thesis by (subst (1 2 3) nat_digits.simps) (simp add: digits_val_def)
  next
    case False
    then have "list_all is_digit (nat_digits (n div 10))" "digits_val (nat_digits (n div 10)) = int (n div 10)" using 1 by auto
    moreover have "nat_digits n = nat_digits (n div 10) @ [digit_char (int (n mod 10))]"
      using False by (subst nat_digits.simps) simp
    moreover have "10 * int (n div 10) + int (n mod 10) = int n"
      by (metis mult_div_mod_eq of_nat_add of_nat_mult of_nat_numeral)
    ultimately show ?thesis by (simp add: digits_val_snoc)
  qed
qed

lemma ParseInt64_Itoa:
  assumes "0 \<le> n" "n < 2^63"
  shows "ParseInt64 (Itoa n) = Some n"
proof -
  have p: "list_all is_digit (nat_digits (nat n))" "nat_digits (nat n) \<noteq> []" "digits_val (nat_digits (nat n)) = n"
    using nat_digits_props [of "nat n"] assms by auto
  then obtain c cs where c: "nat_digits (nat n) = c # cs" by (cases "nat_digits (nat n)") auto
  then have "c \<noteq> CHR ''-'' \<and> c \<noteq> CHR ''+''" using p(1) digit_not_sign by simp
  then show ?thesis using p c assms by (simp add: Itoa_def ParseInt64_def Let_def)
qed

lemma Itoa_no_nul: "0 \<le> n \<Longrightarrow> CHR 0x00 \<notin> set (Itoa n)"
proof
  assume "0 \<le> n" "CHR 0x00 \<in> set (Itoa n)"
  then have "is_digit (CHR 0x00)" using nat_digits_props [of "nat n"] by (auto simp: Itoa_def list_all_iff)
  then show False by (simp add: is_digit_def)
qed

end
