(* ===== verification/Bounded_Buffer.thy ===== *)
theory Bounded_Buffer
  imports Prelude "HOL-Library.Sublist"
begin

text \<open>
  Buffered Go channels that never block the sender. The program has two policies for a full
  buffer: refuse the new element (the event hub, the log shipper, the token touches) and make room
  by discarding the oldest one (the notifier, the metrics writer). Both count what they lose.
  \<open>lossy_buffer\<close> is what the two have in common; \<open>drop_newest\<close> and \<open>drop_oldest\<close> are the
  policies, each of which implies the common contract. The lemmas on sequences of operations
  are proved once, from the contract.
\<close>

datatype 'e buf_op = Put 'e | Take

fun puts :: "'e buf_op list \<Rightarrow> 'e list" where
  "puts [] = []"
| "puts (Put e # ops) = e # puts ops"
| "puts (Take # ops) = puts ops"

text \<open>The operations in sequence: the elements received, and the final state.\<close>

fun buf_run ::
  "('e \<Rightarrow> 's \<Rightarrow> 's) \<Rightarrow> ('s \<Rightarrow> 'e option \<times> 's) \<Rightarrow> 'e buf_op list \<Rightarrow> 's \<Rightarrow> 'e list \<times> 's" where
  "buf_run put get [] s = ([], s)"
| "buf_run put get (Put e # ops) s = buf_run put get ops (put e s)"
| "buf_run put get (Take # ops) s =
     (case get s of
        (None, s') \<Rightarrow> buf_run put get ops s'
      | (Some e, s') \<Rightarrow> (let (got, t) = buf_run put get ops s' in (e # got, t)))"

lemma puts_append [simp]: "puts (xs @ ys) = puts xs @ puts ys"
  by (induction xs rule: puts.induct) auto

lemma subseq_trans_append: "subseq xs (ys @ zs) \<Longrightarrow> subseq ys us \<Longrightarrow> subseq xs (us @ zs)"
  by (meson list_emb_append_mono subseq_order.dual_order.trans subseq_order.order_refl)

lemma subseq_tl_snoc: "subseq (tl xs @ [e]) (xs @ [e])"
  by (cases xs) (auto simp: list_emb_append_mono)

locale lossy_buffer =
  fixes put :: "'e \<Rightarrow> 's \<Rightarrow> 's"
    and get :: "'s \<Rightarrow> 'e option \<times> 's"
    and items :: "'s \<Rightarrow> 'e list"
    and lost :: "'s \<Rightarrow> nat"
    and cap :: "'s \<Rightarrow> nat"
    and invar :: "'s \<Rightarrow> bool"
  assumes bound: "invar s \<Longrightarrow> length (items s) \<le> cap s"
    and put_invar: "invar s \<Longrightarrow> invar (put e s)"
    and put_cap: "invar s \<Longrightarrow> cap (put e s) = cap s"
    and put_order: "invar s \<Longrightarrow> subseq (items (put e s)) (items s @ [e])"
    and put_count: "invar s \<Longrightarrow> length (items (put e s)) + lost (put e s) = Suc (length (items s) + lost s)"
    and put_room: "invar s \<Longrightarrow> length (items s) < cap s \<Longrightarrow> items (put e s) = items s @ [e]"
    and get_empty: "invar s \<Longrightarrow> items s = [] \<Longrightarrow> fst (get s) = None \<and> items (snd (get s)) = [] \<and> lost (snd (get s)) = lost s"
    and get_head: "invar s \<Longrightarrow> items s = x # xs \<Longrightarrow>
      fst (get s) = Some x \<and> items (snd (get s)) = xs \<and> lost (snd (get s)) = lost s"
    and get_cap: "invar s \<Longrightarrow> cap (snd (get s)) = cap s"
    and get_invar: "invar s \<Longrightarrow> invar (snd (get s))"
begin

lemma run_invar: "invar s \<Longrightarrow> invar (snd (buf_run put get ops s)) \<and> cap (snd (buf_run put get ops s)) = cap s"
proof (induction ops arbitrary: s rule: puts.induct)
  case (3 ops)
  obtain o1 s' where g: "get s = (o1, s')" by (cases "get s")
  have "invar s'" "cap s' = cap s" using get_invar [OF 3(2)] get_cap [OF 3(2)] g by auto
  with 3(1) [of s'] g show ?case by (auto split: option.splits prod.splits)
qed (auto simp: put_invar put_cap)

lemma run_order: "invar s \<Longrightarrow>
  subseq (fst (buf_run put get ops s) @ items (snd (buf_run put get ops s))) (items s @ puts ops)"
proof (induction ops arbitrary: s rule: puts.induct)
  case (2 e ops)
  from 2(1) [OF put_invar [OF 2(2)]] put_order [OF 2(2)]
  have "subseq (fst (buf_run put get ops (put e s)) @ items (snd (buf_run put get ops (put e s)))) ((items s @ [e]) @ puts ops)"
    by (rule subseq_trans_append)
  then show ?case by simp
next
  case (3 ops)
  obtain o1 s' where g: "get s = (o1, s')" by (cases "get s")
  note IH = 3(1) [OF get_invar [OF 3(2), unfolded g, simplified]]
  show ?case
  proof (cases "items s")
    case Nil
    with get_empty [OF 3(2)] g IH show ?thesis by (auto split: prod.splits)
  next
    case (Cons x xs)
    with get_head [OF 3(2)] g IH show ?thesis by (auto split: prod.splits)
  qed
qed simp

lemma run_count: "invar s \<Longrightarrow>
  length (fst (buf_run put get ops s)) + length (items (snd (buf_run put get ops s))) + lost (snd (buf_run put get ops s)) =
  length (items s) + lost s + length (puts ops)"
proof (induction ops arbitrary: s rule: puts.induct)
  case (2 e ops)
  from 2(1) [OF put_invar [OF 2(2)]] put_count [OF 2(2), of e] show ?case by simp
next
  case (3 ops)
  obtain o1 s' where g: "get s = (o1, s')" by (cases "get s")
  note IH = 3(1) [OF get_invar [OF 3(2), unfolded g, simplified]]
  show ?case
  proof (cases "items s")
    case Nil
    with get_empty [OF 3(2)] g IH show ?thesis by (auto split: prod.splits)
  next
    case (Cons x xs)
    with get_head [OF 3(2)] g IH show ?thesis by (auto split: prod.splits)
  qed
qed simp

text \<open>Nothing is lost exactly when everything put in came out or is still there, in order.\<close>

lemma run_lossless:
  assumes "invar s" "lost (snd (buf_run put get ops s)) = lost s"
  shows "fst (buf_run put get ops s) @ items (snd (buf_run put get ops s)) = items s @ puts ops"
  using run_order [OF assms(1), of ops] run_count [OF assms(1), of ops] assms(2)
  by (intro subseq_same_length) auto

end

locale drop_newest =
  fixes put :: "'e \<Rightarrow> 's \<Rightarrow> 's"
    and get :: "'s \<Rightarrow> 'e option \<times> 's"
    and items :: "'s \<Rightarrow> 'e list"
    and lost :: "'s \<Rightarrow> nat"
    and cap :: "'s \<Rightarrow> nat"
    and invar :: "'s \<Rightarrow> bool"
  assumes newest_bound: "invar s \<Longrightarrow> length (items s) \<le> cap s"
    and put_eq: "invar s \<Longrightarrow> items (put e s) = (if length (items s) < cap s then items s @ [e] else items s) \<and>
      lost (put e s) = (if length (items s) < cap s then lost s else Suc (lost s)) \<and>
      cap (put e s) = cap s \<and> invar (put e s)"
    and get_eq: "invar s \<Longrightarrow> fst (get s) = (case items s of [] \<Rightarrow> None | x # xs \<Rightarrow> Some x) \<and>
      items (snd (get s)) = tl (items s) \<and> lost (snd (get s)) = lost s \<and>
      cap (snd (get s)) = cap s \<and> invar (snd (get s))"
begin

lemma fill: "invar s \<Longrightarrow> items (fold put es s) = items s @ take (cap s - length (items s)) es"
proof (induction es arbitrary: s)
  case (Cons e es)
  from put_eq [OF Cons.prems] newest_bound [OF Cons.prems] Cons.IH [of "put e s"] show ?case
    by (auto simp: take_Cons')
qed simp

end

sublocale drop_newest \<subseteq> lossy_buffer
proof unfold_locales
  fix s x xs assume i: "invar s" and n: "items s = x # xs"
  from get_eq [OF i] n show "fst (get s) = Some x \<and> items (snd (get s)) = xs \<and> lost (snd (get s)) = lost s" by simp
qed (auto simp: newest_bound put_eq get_eq split: if_splits)

locale drop_oldest =
  fixes put :: "'e \<Rightarrow> 's \<Rightarrow> 's"
    and get :: "'s \<Rightarrow> 'e option \<times> 's"
    and items :: "'s \<Rightarrow> 'e list"
    and lost :: "'s \<Rightarrow> nat"
    and cap :: "'s \<Rightarrow> nat"
    and invar :: "'s \<Rightarrow> bool"
  assumes oldest_bound: "invar s \<Longrightarrow> length (items s) \<le> cap s \<and> 0 < cap s"
    and put_eq: "invar s \<Longrightarrow> items (put e s) = (if length (items s) < cap s then items s else tl (items s)) @ [e] \<and>
      lost (put e s) = (if length (items s) < cap s then lost s else Suc (lost s)) \<and>
      cap (put e s) = cap s \<and> invar (put e s)"
    and get_eq: "invar s \<Longrightarrow> fst (get s) = (case items s of [] \<Rightarrow> None | x # xs \<Rightarrow> Some x) \<and>
      items (snd (get s)) = tl (items s) \<and> lost (snd (get s)) = lost s \<and>
      cap (snd (get s)) = cap s \<and> invar (snd (get s))"
begin

lemma fill: "invar s \<Longrightarrow>
  items (fold put es s) = drop (length (items s) + length es - cap s) (items s @ es)"
proof (induction es arbitrary: s)
  case Nil
  with oldest_bound [OF Nil] show ?case by simp
next
  case (Cons e es)
  from put_eq [OF Cons.prems] have i: "invar (put e s)" "cap (put e s) = cap s" by auto
  show ?case
  proof (cases "length (items s) < cap s")
    case True
    with Cons.IH [OF i(1)] put_eq [OF Cons.prems, of e] show ?thesis by simp
  next
    case False
    with oldest_bound [OF Cons.prems] obtain x xs where xs: "items s = x # xs" "Suc (length xs) = cap s"
      by (cases "items s") auto
    with Cons.IH [OF i(1)] put_eq [OF Cons.prems, of e] False show ?thesis by (simp add: Suc_diff_le)
  qed
qed

end

sublocale drop_oldest \<subseteq> lossy_buffer
proof unfold_locales
  fix s x xs assume i: "invar s" and n: "items s = x # xs"
  from get_eq [OF i] n show "fst (get s) = Some x \<and> items (snd (get s)) = xs \<and> lost (snd (get s)) = lost s" by simp
next
  fix s e assume i: "invar s"
  from put_eq [OF i] show "subseq (items (put e s)) (items s @ [e])"
    by (auto simp: subseq_tl_snoc)
  from put_eq [OF i] oldest_bound [OF i]
  show "length (items (put e s)) + lost (put e s) = Suc (length (items s) + lost s)" by (cases "items s") auto
qed (auto simp: oldest_bound put_eq get_eq split: if_splits)

end
