(* ===== verification/Auth_Middleware.thy ===== *)
theory Auth_Middleware
  imports Session_Store Encodings Bounded_Buffer
begin

text \<open>
  The authentication middleware: \<open>internal/auth/auth.go\<close>, and the adapters of
  \<open>cmd/speedtest-tracker/main.go\<close> that give it the store's tokens and sessions. SHA-256 and the parsing of
  addresses and CIDR prefixes are the record \<open>auth_lib\<close>; a parsed prefix is its \<open>Contains\<close>. A header name
  is looked up up to case. The worker that stamps tokens takes from a bounded channel.
\<close>

subsection \<open>Requests, identities, configuration\<close>

record auth_lib =
  al_sha256 :: "string \<Rightarrow> string"
  al_prefix :: "string \<Rightarrow> (string \<Rightarrow> bool) option"
  al_addrport :: "string \<Rightarrow> string option"

record request =
  rq_headers :: "(string \<times> string) list"
  rq_cookies :: "string \<rightharpoonup> string"
  rq_remote :: string
  rq_host :: string
  rq_tls :: bool
  rq_method :: string
  rq_path :: string
  rq_query :: "string \<rightharpoonup> string"

definition Header_Get :: "request \<Rightarrow> string \<Rightarrow> string" where
  "Header_Get r name = (case find (\<lambda>(k, v). EqualFold k name) (rq_headers r) of None \<Rightarrow> [] | Some (k, v) \<Rightarrow> v)"

definition Query_Get :: "request \<Rightarrow> string \<Rightarrow> string" where
  "Query_Get r name = (case rq_query r name of None \<Rightarrow> [] | Some v \<Rightarrow> v)"

definition Cookie :: "request \<Rightarrow> string \<Rightarrow> string" where
  "Cookie r name = (case rq_cookies r name of None \<Rightarrow> [] | Some v \<Rightarrow> v)"

record session_info =
  si_subject :: string
  si_email :: string
  si_name :: string
  si_username :: string
  si_groups :: "string list"
  si_is_admin :: bool

record identity =
  id_mode :: string
  id_user :: string
  id_email :: string
  id_name :: string
  id_username :: string
  id_groups :: "string list"
  id_is_admin :: bool
  id_token_id :: int
  id_source :: string

definition no_identity :: identity where
  "no_identity = \<lparr>id_mode = [], id_user = [], id_email = [], id_name = [], id_username = [], id_groups = [],
     id_is_admin = False, id_token_id = 0, id_source = []\<rparr>"

datatype auth_error = ErrUnauthorized | ErrLookup store_error

record auth_config =
  ac_mode :: string
  ac_user_header :: string
  ac_groups_header :: string
  ac_groups_sep :: string
  ac_admin_group :: string
  ac_trusted :: "(string \<Rightarrow> bool) list"
  ac_allow_tokens :: bool

definition touchQueueCap :: nat where
  "touchQueueCap = 64"

text \<open>\<open>mw_lost\<close> counts the touches a full queue dropped (the source logs each one).\<close>

record middleware =
  mw_cfg :: auth_config
  mw_sessions :: bool
  mw_touched :: "int \<rightharpoonup> time"
  mw_touch_ch :: "int list"
  mw_lost :: nat
  mw_closed :: bool
  mw_warned :: bool

definition zero_config :: auth_config where
  "zero_config = \<lparr>ac_mode = [], ac_user_header = [], ac_groups_header = [], ac_groups_sep = [], ac_admin_group = [],
     ac_trusted = [], ac_allow_tokens = False\<rparr>"

definition Auth_New :: middleware where
  "Auth_New = \<lparr>mw_cfg = zero_config, mw_sessions = False, mw_touched = Map.empty, mw_touch_ch = [], mw_lost = 0,
     mw_closed = False, mw_warned = False\<rparr>"

definition SetSessions :: "bool \<Rightarrow> middleware \<Rightarrow> middleware" where
  "SetSessions installed m = m\<lparr>mw_sessions := installed\<rparr>"

text \<open>Every CIDR has to parse before the configuration is swapped in.\<close>

fun parse_proxies :: "auth_lib \<Rightarrow> string list \<Rightarrow> string + (string \<Rightarrow> bool) list" where
  "parse_proxies lib [] = Inr []"
| "parse_proxies lib (raw # rest) =
     (case al_prefix lib raw of
        None \<Rightarrow> Inl (''auth: invalid trusted proxy CIDR '' @ quoted raw)
      | Some p \<Rightarrow> (case parse_proxies lib rest of Inl e \<Rightarrow> Inl e | Inr ps \<Rightarrow> Inr (p # ps)))"

definition Configure :: "auth_lib \<Rightarrow> auth \<Rightarrow> middleware \<Rightarrow> middleware \<times> string option" where
  "Configure lib cfg m =
     (case parse_proxies lib (a_trusted_proxies cfg) of
        Inl e \<Rightarrow> (m, Some e)
      | Inr trusted \<Rightarrow>
          (m\<lparr>mw_cfg := \<lparr>ac_mode = a_mode cfg, ac_user_header = a_user_header cfg, ac_groups_header = a_groups_header cfg,
               ac_groups_sep = a_groups_separator cfg, ac_admin_group = a_admin_group cfg, ac_trusted = trusted,
               ac_allow_tokens = a_allow_tokens cfg\<rparr>\<rparr>, None))"

subsection \<open>Credentials\<close>

definition HashToken :: "auth_lib \<Rightarrow> string \<Rightarrow> string" where
  "HashToken lib plain = al_sha256 lib plain"

definition HashSession :: "auth_lib \<Rightarrow> string \<Rightarrow> string" where
  "HashSession lib plain = HashToken lib plain"

text \<open>\<open>crypto/rand\<close> gives 32 bytes or fails.\<close>

definition GenerateSessionID :: "string option \<Rightarrow> string option" where
  "GenerateSessionID rand = map_option b64_encode rand"

definition GenerateToken :: "auth_lib \<Rightarrow> string option \<Rightarrow> (string \<times> string \<times> string) option" where
  "GenerateToken lib rand =
     map_option (\<lambda>buf. let plaintext = ''stt_'' @ b64_encode buf in (plaintext, HashToken lib plaintext, take 12 plaintext)) rand"

definition bearerToken :: "request \<Rightarrow> string option" where
  "bearerToken r =
     (let h = Header_Get r ''Authorization''
      in if h = [] then None
         else if length h \<le> 7 \<or> \<not> EqualFold (take 7 h) ''bearer '' then None
         else Some (drop 7 h))"

definition credentialToken :: "request \<Rightarrow> string option" where
  "credentialToken r =
     (case bearerToken r of
        Some t \<Rightarrow> Some t
      | None \<Rightarrow>
          if rq_path r = ''/api/v1/events'' \<and> Query_Get r ''token'' \<noteq> [] then Some (Query_Get r ''token'') else None)"

subsection \<open>Touching tokens\<close>

definition enqueue_touch :: "int \<Rightarrow> middleware \<Rightarrow> middleware" where
  "enqueue_touch i m =
     (if length (mw_touch_ch m) < touchQueueCap then m\<lparr>mw_touch_ch := mw_touch_ch m @ [i]\<rparr>
      else m\<lparr>mw_lost := Suc (mw_lost m)\<rparr>)"

definition maybeTouch :: "time \<Rightarrow> int \<Rightarrow> middleware \<Rightarrow> middleware" where
  "maybeTouch now i m =
     (let due = (case mw_touched m i of None \<Rightarrow> True | Some last' \<Rightarrow> Minute \<le> time_Sub now last')
      in if due then enqueue_touch i (m\<lparr>mw_touched := (mw_touched m)(i \<mapsto> now)\<rparr>) else m)"

text \<open>One turn of \<open>touchWorker\<close>: take an id, then \<open>doTouch\<close>; its error is only logged.\<close>

definition take_touch :: "middleware \<Rightarrow> int option \<times> middleware" where
  "take_touch m = (case mw_touch_ch m of [] \<Rightarrow> (None, m) | i # is \<Rightarrow> (Some i, m\<lparr>mw_touch_ch := is\<rparr>))"

definition touchWorker_turn :: "fault \<Rightarrow> string \<Rightarrow> middleware \<times> db \<Rightarrow> middleware \<times> db" where
  "touchWorker_turn flt now s =
     (if mw_closed (fst s) then s
      else case take_touch (fst s) of
             (None, m) \<Rightarrow> (m, snd s)
           | (Some i, m) \<Rightarrow> (m, fst (TouchAPIToken flt (snd s) now i)))"

definition Auth_Close :: "middleware \<Rightarrow> middleware" where
  "Auth_Close m = m\<lparr>mw_closed := True\<rparr>"

subsection \<open>Identification\<close>

definition split_groups :: "auth_config \<Rightarrow> string \<Rightarrow> string list" where
  "split_groups cfg raw =
     filter (\<lambda>g. g \<noteq> []) (map TrimSpace (Split raw (if ac_groups_sep cfg = [] then '','' else ac_groups_sep cfg)))"

definition identifyForward :: "auth_lib \<Rightarrow> auth_config \<Rightarrow> request \<Rightarrow> auth_error + identity" where
  "identifyForward lib cfg r =
     (if ac_trusted cfg = [] then Inl ErrUnauthorized
      else case al_addrport lib (rq_remote r) of
             None \<Rightarrow> Inl ErrUnauthorized
           | Some addr \<Rightarrow>
               if \<not> (\<exists>p\<in>set (ac_trusted cfg). p addr) then Inl ErrUnauthorized
               else let user = Header_Get r (ac_user_header cfg)
                    in if user = [] then Inl ErrUnauthorized
                       else let raw = (if ac_groups_header cfg = [] then [] else Header_Get r (ac_groups_header cfg));
                                groups = (if raw = [] then [] else split_groups cfg raw)
                            in Inr (no_identity\<lparr>id_mode := ''forward_auth'', id_user := user, id_groups := groups,
                                      id_is_admin := ac_admin_group cfg = [] \<or> ac_admin_group cfg \<in> set groups,
                                      id_source := ''forward''\<rparr>))"

text \<open>The lookups are the interfaces \<open>TokenLookup\<close> and \<open>SessionLookup\<close>.\<close>

type_synonym token_lookup = "string \<Rightarrow> int option res"
type_synonym session_lookup = "string \<Rightarrow> time \<Rightarrow> session_info option res"

definition identifyToken ::
  "auth_lib \<Rightarrow> token_lookup \<Rightarrow> time \<Rightarrow> string \<Rightarrow> string \<Rightarrow> middleware \<Rightarrow> middleware \<times> (auth_error + identity)" where
  "identifyToken lib toks now mode plain m =
     (case toks (HashToken lib plain) of
        Inl e \<Rightarrow> (m, Inl (ErrLookup e))
      | Inr None \<Rightarrow> (m, Inl ErrUnauthorized)
      | Inr (Some i) \<Rightarrow>
          (maybeTouch now i m,
           Inr (no_identity\<lparr>id_mode := mode, id_user := ''token:'' @ take 12 plain, id_is_admin := True,
                  id_token_id := i, id_source := ''token''\<rparr>)))"

definition identifySession ::
  "auth_lib \<Rightarrow> session_lookup \<Rightarrow> time \<Rightarrow> string \<Rightarrow> middleware \<Rightarrow> auth_error + identity" where
  "identifySession lib sess now plain m =
     (if \<not> mw_sessions m then Inl ErrUnauthorized
      else case sess (HashSession lib plain) now of
             Inl e \<Rightarrow> Inl (ErrLookup e)
           | Inr None \<Rightarrow> Inl ErrUnauthorized
           | Inr (Some info) \<Rightarrow>
               Inr \<lparr>id_mode = ''oidc'', id_user = (if si_email info = [] then si_subject info else si_email info),
                    id_email = si_email info, id_name = si_name info, id_username = si_username info,
                    id_groups = si_groups info, id_is_admin = si_is_admin info, id_token_id = 0, id_source = ''oidc''\<rparr>)"

definition SessionCookie :: string where
  "SessionCookie = ''st_session''"

definition Identify ::
  "auth_lib \<Rightarrow> token_lookup \<Rightarrow> session_lookup \<Rightarrow> time \<Rightarrow> request \<Rightarrow> middleware \<Rightarrow> middleware \<times> (auth_error + identity)" where
  "Identify lib toks sess now r m =
     (let cfg = mw_cfg m in
      if ac_mode cfg = ''open''
      then (m, Inr (no_identity\<lparr>id_mode := ''open'', id_is_admin := True, id_source := ''open''\<rparr>))
      else if ac_mode cfg = ''forward_auth'' then
        (case (if ac_allow_tokens cfg then bearerToken r else None) of
           Some plain \<Rightarrow> identifyToken lib toks now (ac_mode cfg) plain m
         | None \<Rightarrow> (m, identifyForward lib cfg r))
      else if ac_mode cfg = ''token'' then
        (case credentialToken r of
           None \<Rightarrow> (m, Inl ErrUnauthorized)
         | Some plain \<Rightarrow> identifyToken lib toks now (ac_mode cfg) plain m)
      else if ac_mode cfg = ''oidc'' then
        (case (if Cookie r SessionCookie \<noteq> [] then identifySession lib sess now (Cookie r SessionCookie) m
               else Inl ErrUnauthorized) of
           Inr ident \<Rightarrow> (m, Inr ident)
         | Inl (ErrLookup e) \<Rightarrow> (m, Inl (ErrLookup e))
         | Inl ErrUnauthorized \<Rightarrow>
             (case (if ac_allow_tokens cfg then bearerToken r else None) of
                Some plain \<Rightarrow> identifyToken lib toks now (ac_mode cfg) plain m
              | None \<Rightarrow> (m, Inl ErrUnauthorized)))
      else
        (let m1 = m\<lparr>mw_warned := True\<rparr>
         in case credentialToken r of
              None \<Rightarrow> (m1, Inl ErrUnauthorized)
            | Some plain \<Rightarrow> identifyToken lib toks now (ac_mode cfg) plain m1))"

text \<open>What the wrapped handler does: refuse, report that authentication is unavailable, or serve the next
  handler with the identity in the request's context.\<close>

datatype auth_outcome = Refused401 | Unavailable503 | Served identity

definition Handler ::
  "auth_lib \<Rightarrow> token_lookup \<Rightarrow> session_lookup \<Rightarrow> time \<Rightarrow> request \<Rightarrow> middleware \<Rightarrow> middleware \<times> auth_outcome" where
  "Handler lib toks sess now r m =
     (case Identify lib toks sess now r m of
        (m', Inl ErrUnauthorized) \<Rightarrow> (m', Refused401)
      | (m', Inl (ErrLookup e)) \<Rightarrow> (m', Unavailable503)
      | (m', Inr ident) \<Rightarrow> (m', Served ident))"

subsection \<open>The adapters to the store\<close>

definition storeTokens_LookupToken :: "fault \<Rightarrow> db \<Rightarrow> token_lookup" where
  "storeTokens_LookupToken flt d hash =
     (case APITokenByHash flt d hash of Inl e \<Rightarrow> Inl e | Inr t \<Rightarrow> Inr (map_option at_id t))"

definition storeSessions_LookupSession :: "fault \<Rightarrow> db \<Rightarrow> session_lookup" where
  "storeSessions_LookupSession flt d hashedID now =
     (case LookupSession flt d hashedID now of
        Inl e \<Rightarrow> Inl e
      | Inr None \<Rightarrow> Inr None
      | Inr (Some s) \<Rightarrow>
          Inr (Some \<lparr>si_subject = sess_subject s, si_email = sess_email s, si_name = sess_name s,
                     si_username = sess_username s, si_groups = sess_groups s, si_is_admin = sess_is_admin s\<rparr>))"


subsection \<open>The touch queue\<close>

interpretation touch_buf: drop_newest enqueue_touch take_touch mw_touch_ch mw_lost "\<lambda>m. touchQueueCap"
  "\<lambda>m. length (mw_touch_ch m) \<le> touchQueueCap"
  by unfold_locales (auto simp: enqueue_touch_def take_touch_def split: list.splits)

lemma maybeTouch_sel [simp]:
  "mw_cfg (maybeTouch now i m) = mw_cfg m" "mw_sessions (maybeTouch now i m) = mw_sessions m"
  by (simp_all add: maybeTouch_def enqueue_touch_def Let_def)

lemma maybeTouch_queue:
  "length (mw_touch_ch m) \<le> touchQueueCap \<Longrightarrow> length (mw_touch_ch (maybeTouch now i m)) \<le> touchQueueCap"
  by (auto simp: maybeTouch_def enqueue_touch_def Let_def)

end
