(* ===== verification/Settings_Env.thy ===== *)
theory Settings_Env
  imports Settings Encodings
begin

text \<open>
  Settings from the environment and the credentials of outgoing requests: \<open>internal/settings/env.go\<close> and
  \<open>export_auth.go\<close>. Go's map of the environment is the map \<open>env_map\<close> with the order in which one
  iteration over it yields the names; the text of a variable reaches the decoder through \<open>parse\<close>, the
  JSON reader (any function from texts to documents in what follows).
\<close>

subsection \<open>Environment variables\<close>

definition envSections :: "string list" where
  "envSections = [''general'', ''engines'', ''auth'', ''integrations'', ''notifications'']"

definition section_key :: "string \<Rightarrow> string \<Rightarrow> string option" where
  "section_key rest sec =
     (if \<not> HasPrefix rest (sec @ ''_'') then None
      else let key = sec @ ''.'' @ TrimPrefix rest (sec @ ''_'')
           in if map_of defaults key = None then None else Some key)"

definition EnvKeyToSetting :: "string \<Rightarrow> string option" where
  "EnvKeyToSetting env =
     (if \<not> HasPrefix env ''ST_'' then None
      else let rest = ToLower (TrimPrefix env ''ST_'')
           in if rest = [] then None
              else (case List.map_filter (section_key rest) envSections of [] \<Rightarrow> None | k # _ \<Rightarrow> Some k))"

text \<open>\<open>strings.Cut(kv, "=")\<close>.\<close>

definition Cut_eq :: "string \<Rightarrow> (string \<times> string) option" where
  "Cut_eq kv = (if CHR ''='' \<in> set kv
     then Some (takeWhile (\<lambda>c. c \<noteq> CHR ''='') kv, tl (dropWhile (\<lambda>c. c \<noteq> CHR ''='') kv)) else None)"

definition env_map :: "string list \<Rightarrow> string \<rightharpoonup> string" where
  "env_map environ = map_of (rev (List.map_filter Cut_eq environ))"

definition ParseBool :: "string \<Rightarrow> bool option" where
  "ParseBool s =
     (if s \<in> {''1'', ''t'', ''T'', ''TRUE'', ''true'', ''True''} then Some True
      else if s \<in> {''0'', ''f'', ''F'', ''FALSE'', ''false'', ''False''} then Some False
      else None)"

definition lock_env :: "(string \<rightharpoonup> string) \<Rightarrow> bool" where
  "lock_env raw = (case raw ''ST_LOCK_ENV'' of None \<Rightarrow> False | Some v \<Rightarrow> ParseBool v = Some True)"

text \<open>The typed value of a variable: its text as a JSON document, or else as a JSON string.\<close>

definition env_value :: "(string \<Rightarrow> raw) \<Rightarrow> string \<Rightarrow> string \<Rightarrow> setting_value option" where
  "env_value parse key value =
     (let ty = type_of (default_value key)
      in case (case parse value of RawDoc j \<Rightarrow> Unmarshal ty j | _ \<Rightarrow> None) of
           Some v \<Rightarrow> Some v
         | None \<Rightarrow> Unmarshal ty (JStr value))"

record env_faults =
  ef_get :: "string \<Rightarrow> fault"
  ef_set :: "string \<Rightarrow> set_faults"

definition env_entries :: "string list \<Rightarrow> (string \<times> string) list" where
  "env_entries order =
     sort_key snd (List.map_filter (\<lambda>e. map_option (Pair e) (EnvKeyToSetting e)) order)"

text \<open>Whether an unlocked variable leaves the stored value alone.\<close>

definition operator_value :: "raw option \<Rightarrow> string \<Rightarrow> bool" where
  "operator_value stored key = (case stored of None \<Rightarrow> False | Some r \<Rightarrow> r \<noteq> default_raw key)"

text \<open>The loop of \<open>SeedFromEnv\<close> over its entries; \<open>locked\<close> is collected in order.\<close>

fun seed_env ::
  "(string \<Rightarrow> raw) \<Rightarrow> env_faults \<Rightarrow> bool \<Rightarrow> (string \<rightharpoonup> string) \<Rightarrow> (string \<times> string) list \<Rightarrow>
   db \<times> settings_store \<Rightarrow> string list \<Rightarrow> (db \<times> settings_store) \<times> string list res" where
  "seed_env parse f lockEnv raw [] w locked = (w, Inr locked)"
| "seed_env parse f lockEnv raw ((env, key) # es) w locked =
     (case env_value parse key (case raw env of None \<Rightarrow> [] | Some v \<Rightarrow> v) of
        None \<Rightarrow> (w, Inl (ErrDB env))
      | Some decoded \<Rightarrow>
          (case (if \<not> lockEnv \<and> key \<noteq> ''auth.mode''
                 then rbind (Get (ef_get f env) (fst w) key) (\<lambda>stored. Inr (operator_value stored key))
                 else Inr False) of
             Inl e \<Rightarrow> (w, Inl e)
           | Inr True \<Rightarrow> seed_env parse f lockEnv raw es w locked
           | Inr False \<Rightarrow>
               (case Settings_Set (ef_set f env) key decoded w of
                  (w', Inl e) \<Rightarrow> (w', Inl e)
                | (w', Inr _) \<Rightarrow>
                    seed_env parse f lockEnv raw es w' (if lockEnv then locked @ [key] else locked))))"

definition SeedFromEnv ::
  "(string \<Rightarrow> raw) \<Rightarrow> env_faults \<Rightarrow> string list \<Rightarrow> string list \<Rightarrow> db \<times> settings_store \<Rightarrow>
   (db \<times> settings_store) \<times> string list res" where
  "SeedFromEnv parse f order environ w =
     (let raw = env_map environ
      in case seed_env parse f (lock_env raw) raw (env_entries order) w [] of
           (w', Inl e) \<Rightarrow> (w', Inl e)
         | (w', Inr locked) \<Rightarrow>
             ((fst w', (snd w')\<lparr>ss_locked := ss_locked (snd w') \<union> set locked\<rparr>), Inr (sort locked)))"

definition LockedKeys :: "settings_store \<Rightarrow> string list" where
  "LockedKeys st = sorted_list_of_set (ss_locked st)"

definition IsLocked :: "settings_store \<Rightarrow> string \<Rightarrow> bool" where
  "IsLocked st key \<longleftrightarrow> key \<in> ss_locked st"

subsection \<open>Credentials of outgoing requests\<close>

record export_auth =
  ea_type :: string
  ea_username :: string
  ea_password :: string
  ea_token :: string
  ea_header_name :: string
  ea_header_value :: string

text \<open>What \<open>Apply\<close> sets on the request.\<close>

datatype auth_header = NoAuthHeader | BasicAuth string string | SetHeader string string

definition Apply :: "export_auth \<Rightarrow> auth_header" where
  "Apply a =
     (if ea_type a = ''basic'' then
        (if ea_username a \<noteq> [] \<or> ea_password a \<noteq> [] then BasicAuth (ea_username a) (ea_password a) else NoAuthHeader)
      else if ea_type a = ''bearer'' then
        (if ea_token a \<noteq> [] then SetHeader ''Authorization'' (''Bearer '' @ ea_token a) else NoAuthHeader)
      else if ea_type a = ''custom'' then
        (if ea_header_name a \<noteq> [] then SetHeader (ea_header_name a) (ea_header_value a) else NoAuthHeader)
      else NoAuthHeader)"

definition Empty :: "export_auth \<Rightarrow> bool" where
  "Empty a =
     (if ea_type a = ''basic'' \<or> ea_type a = ''bearer'' then False
      else if ea_type a = ''custom'' then ea_header_name a = []
      else True)"

definition ValidExportAuthType :: "string \<Rightarrow> bool" where
  "ValidExportAuthType s \<longleftrightarrow> s \<in> {''none'', ''basic'', ''bearer'', ''custom''}"

definition legacy_auth :: "string \<Rightarrow> export_auth" where
  "legacy_auth h = \<lparr>ea_type = ''custom'', ea_username = [], ea_password = [], ea_token = [],
     ea_header_name = ''Authorization'', ea_header_value = h\<rparr>"

definition VMAuth :: "integrations \<Rightarrow> export_auth" where
  "VMAuth i =
     (if (ig_vm_auth_type i = [] \<or> ig_vm_auth_type i = ''none'') \<and> ig_vm_auth_header i \<noteq> []
      then legacy_auth (ig_vm_auth_header i)
      else \<lparr>ea_type = ig_vm_auth_type i, ea_username = ig_vm_auth_username i, ea_password = ig_vm_auth_password i,
            ea_token = ig_vm_auth_token i, ea_header_name = ig_vm_auth_header_name i,
            ea_header_value = ig_vm_auth_header_value i\<rparr>)"

definition VLAuth :: "integrations \<Rightarrow> export_auth" where
  "VLAuth i =
     (if (ig_vl_auth_type i = [] \<or> ig_vl_auth_type i = ''none'') \<and> ig_vl_auth_header i \<noteq> []
      then legacy_auth (ig_vl_auth_header i)
      else \<lparr>ea_type = ig_vl_auth_type i, ea_username = ig_vl_auth_username i, ea_password = ig_vl_auth_password i,
            ea_token = ig_vl_auth_token i, ea_header_name = ig_vl_auth_header_name i,
            ea_header_value = ig_vl_auth_header_value i\<rparr>)"


text \<open>\<open>Empty\<close> does not see that blank basic or bearer credentials set no header.\<close>

lemma Empty_misses_blank_credentials:
  "Apply \<lparr>ea_type = ''basic'', ea_username = [], ea_password = [], ea_token = [], ea_header_name = [], ea_header_value = []\<rparr> = NoAuthHeader \<and>
   \<not> Empty \<lparr>ea_type = ''basic'', ea_username = [], ea_password = [], ea_token = [], ea_header_name = [], ea_header_value = []\<rparr>"
  by (simp add: Apply_def Empty_def)

end
