(* ===== verification/Settings_Body.thy ===== *)
theory Settings_Body
  imports Auth_Middleware Settings_Env
begin

text \<open>
  The document of \<open>GET\<close> and \<open>PUT /api/v1/settings\<close> (\<open>internal/api/settings.go\<close>): the partial bodies, the
  masking of secrets, the writes a body causes, the keys it names, and its validation. A pointer field is an
  option, a \<open>map[string]string\<close> the list of its entries in key order; of several invalid map keys
  the first in that order is reported. \<open>net/url\<close>, \<open>time.LoadLocation\<close>, the Apprise library and OpenID discovery
  are the record \<open>api_lib\<close>: each gives the text of its error, if any.
\<close>

datatype api_error =
    BadRequest string | Forbidden string | NotFound string | Conflict string | Internal string | Unavailable string

record api_lib =
  ap_url :: "string \<Rightarrow> string + (string \<times> string)"
  ap_location :: "string \<Rightarrow> string option"
  ap_apprise_add :: "string \<Rightarrow> string option"
  ap_discover :: "string \<Rightarrow> string option"
  ap_auth :: auth_lib

definition MaskedSecret :: string where
  "MaskedSecret = ''***''"

subsection \<open>Bodies\<close>

record general_body =
  gb_base_url :: "string option"
  gb_timezone :: "string option"
  gb_units :: "string option"
  gb_log_level :: "string option"
  gb_retention_days_results :: "int option"
  gb_retention_days_runs :: "int option"
  gb_retention_prune_interval_minutes :: "int option"
  gb_sla_download_mbps :: "float64 option"
  gb_sla_upload_mbps :: "float64 option"
  gb_sla_tolerance_pct :: "float64 option"

record engines_body =
  eb_speedtest_bin :: "string option"
  eb_iperf3_bin :: "string option"
  eb_ookla_accept_license :: "bool option"
  eb_ookla_accept_gdpr :: "bool option"
  eb_server_list_ttl_seconds :: "int option"
  eb_default_ookla_options :: "json option"
  eb_default_cloudflare_options :: "json option"
  eb_default_iperf3_options :: "json option"
  eb_iperf3_list_url :: "string option"

record integrations_body =
  ib_vm_enabled :: "bool option"
  ib_vm_url :: "string option"
  ib_vm_auth_header :: "string option"
  ib_vm_auth_type :: "string option"
  ib_vm_auth_username :: "string option"
  ib_vm_auth_password :: "string option"
  ib_vm_auth_token :: "string option"
  ib_vm_auth_header_name :: "string option"
  ib_vm_auth_header_value :: "string option"
  ib_vm_extra_labels :: "((string \<times> string) list) option"
  ib_vl_enabled :: "bool option"
  ib_vl_url :: "string option"
  ib_vl_auth_header :: "string option"
  ib_vl_auth_type :: "string option"
  ib_vl_auth_username :: "string option"
  ib_vl_auth_password :: "string option"
  ib_vl_auth_token :: "string option"
  ib_vl_auth_header_name :: "string option"
  ib_vl_auth_header_value :: "string option"
  ib_vl_stream_fields :: "((string \<times> string) list) option"
  ib_metrics_enabled :: "bool option"

record notifications_body =
  nb_enabled :: "bool option"
  nb_channels :: "(channel list) option"
  nb_default_thresholds :: "thresholds option"
  nb_cooldown_minutes :: "int option"
  nb_quiet_hours_start :: "string option"
  nb_quiet_hours_end :: "string option"
  nb_notify_recovery :: "bool option"

record auth_body =
  ab_mode :: "string option"
  ab_user_header :: "string option"
  ab_groups_header :: "string option"
  ab_groups_separator :: "string option"
  ab_trusted_proxies :: "(string list) option"
  ab_admin_group :: "string option"
  ab_allow_tokens :: "bool option"
  ab_oidc_issuer :: "string option"
  ab_oidc_client_id :: "string option"
  ab_oidc_client_secret :: "string option"
  ab_oidc_redirect_base_url :: "string option"
  ab_oidc_scopes :: "(string list) option"
  ab_oidc_groups_claim :: "string option"
  ab_oidc_allowed_groups :: "(string list) option"
  ab_oidc_allowed_emails :: "(string list) option"
  ab_oidc_display_claim :: "string option"
  ab_session_ttl_hours :: "int option"
record settings_body =
  sb_general :: "general_body option"
  sb_engines :: "engines_body option"
  sb_integrations :: "integrations_body option"
  sb_notifications :: "notifications_body option"
  sb_auth :: "auth_body option"

subsection \<open>Strings\<close>

text \<open>\<open>strings.Contains\<close>, \<open>strings.ContainsAny\<close> and \<open>strings.ReplaceAll\<close> (for a text that is not empty).\<close>

fun Contains :: "string \<Rightarrow> string \<Rightarrow> bool" where
  "Contains [] sub = (sub = [])"
| "Contains (c # cs) sub = (HasPrefix (c # cs) sub \<or> Contains cs sub)"

definition ContainsAny :: "string \<Rightarrow> string \<Rightarrow> bool" where
  "ContainsAny s chars = list_ex (\<lambda>c. c \<in> set chars) s"

definition ReplaceAll :: "string \<Rightarrow> string \<Rightarrow> string \<Rightarrow> string" where
  "ReplaceAll s old new = Join (Split s old) new"

text \<open>A sequence of checks: the first error counts.\<close>

fun firstErr :: "string option list \<Rightarrow> string option" where
  "firstErr [] = None"
| "firstErr (None # es) = firstErr es"
| "firstErr (Some e # es) = Some e"

definition check :: "bool \<Rightarrow> string \<Rightarrow> string option" where
  "check bad msg = (if bad then Some msg else None)"

definition on_ptr :: "('a \<Rightarrow> string option) \<Rightarrow> 'a option \<Rightarrow> string option" where
  "on_ptr f v = Option.bind v f"

definition wrapErr :: "string \<Rightarrow> string option \<Rightarrow> string option" where
  "wrapErr pre e = map_option (\<lambda>m. pre @ m) e"

definition or_current :: "'a option \<Rightarrow> 'a \<Rightarrow> 'a" where
  "or_current v cur = (case v of None \<Rightarrow> cur | Some x \<Rightarrow> x)"

subsection \<open>Masking\<close>

definition mask_secret :: "string \<Rightarrow> string" where
  "mask_secret s = (if s \<noteq> [] then MaskedSecret else s)"

definition RedactURL :: "api_lib \<Rightarrow> string \<Rightarrow> string" where
  "RedactURL lib raw =
     (case ap_url lib raw of
        Inl _ \<Rightarrow> ''***''
      | Inr (scheme, host) \<Rightarrow> if host = [] then ''***'' else scheme @ ''://'' @ host @ ''/***'')"

definition mask_channel :: "api_lib \<Rightarrow> channel \<Rightarrow> channel" where
  "mask_channel lib c = c\<lparr>
     ch_token := mask_secret (ch_token c),
     ch_headers := map (\<lambda>(k, v). (k, mask_secret v)) (ch_headers c),
     ch_urls := map (\<lambda>u. if u \<noteq> [] then RedactURL lib u else u) (ch_urls c)\<rparr>"

definition maskChannelTokens :: "api_lib \<Rightarrow> notifications \<Rightarrow> notifications" where
  "maskChannelTokens lib n = n\<lparr>n_channels := map (mask_channel lib) (n_channels n)\<rparr>"

definition maskSecrets :: "integrations \<Rightarrow> integrations" where
  "maskSecrets i = i\<lparr>
     ig_vm_auth_header := mask_secret (ig_vm_auth_header i),
     ig_vm_auth_password := mask_secret (ig_vm_auth_password i),
     ig_vm_auth_token := mask_secret (ig_vm_auth_token i),
     ig_vm_auth_header_value := mask_secret (ig_vm_auth_header_value i),
     ig_vl_auth_header := mask_secret (ig_vl_auth_header i),
     ig_vl_auth_password := mask_secret (ig_vl_auth_password i),
     ig_vl_auth_token := mask_secret (ig_vl_auth_token i),
     ig_vl_auth_header_value := mask_secret (ig_vl_auth_header_value i)\<rparr>"

definition maskAuthSecrets :: "auth \<Rightarrow> auth" where
  "maskAuthSecrets a = a\<lparr>a_oidc_client_secret := mask_secret (a_oidc_client_secret a)\<rparr>"

subsection \<open>Writes\<close>

text \<open>One of the closures the handler runs: the key and value it sets, or nothing.\<close>

type_synonym setting_write = "(string \<times> setting_value) option"

definition setPtr :: "string \<Rightarrow> ('a \<Rightarrow> setting_value) \<Rightarrow> 'a option \<Rightarrow> setting_write" where
  "setPtr key enc v = map_option (\<lambda>x. (key, enc x)) v"

definition setSecret :: "string \<Rightarrow> string option \<Rightarrow> setting_write" where
  "setSecret key v =
     (case v of None \<Rightarrow> None | Some s \<Rightarrow> if s = MaskedSecret then None else Some (key, VString s))"

text \<open>Writing an auth type clears the header of the older scheme.\<close>

definition clear_legacy :: "string \<Rightarrow> string option \<Rightarrow> setting_write" where
  "clear_legacy key auth_type = map_option (\<lambda>_. (key, VString '''')) auth_type"

definition general_writes :: "general_body \<Rightarrow> setting_write list" where
  "general_writes g = [
     setPtr ''general.base_url'' VString (gb_base_url g),
     setPtr ''general.timezone'' VString (gb_timezone g),
     setPtr ''general.units'' VString (gb_units g),
     setPtr ''general.log_level'' VString (gb_log_level g),
     setPtr ''general.retention_days_results'' VInt (gb_retention_days_results g),
     setPtr ''general.retention_days_runs'' VInt (gb_retention_days_runs g),
     setPtr ''general.retention_prune_interval_minutes'' VInt (gb_retention_prune_interval_minutes g),
     setPtr ''general.sla_download_mbps'' (\<lambda>x. VFloatPtr (Some x)) (gb_sla_download_mbps g),
     setPtr ''general.sla_upload_mbps'' (\<lambda>x. VFloatPtr (Some x)) (gb_sla_upload_mbps g),
     Some (''general.sla_tolerance_pct'', VFloatPtr (gb_sla_tolerance_pct g))]"

definition engines_writes :: "engines_body \<Rightarrow> setting_write list" where
  "engines_writes e = [
     setPtr ''engines.speedtest_bin'' VString (eb_speedtest_bin e),
     setPtr ''engines.iperf3_bin'' VString (eb_iperf3_bin e),
     setPtr ''engines.ookla_accept_license'' VBool (eb_ookla_accept_license e),
     setPtr ''engines.ookla_accept_gdpr'' VBool (eb_ookla_accept_gdpr e),
     setPtr ''engines.server_list_ttl_seconds'' VInt (eb_server_list_ttl_seconds e),
     setPtr ''engines.default_ookla_options'' VRaw (eb_default_ookla_options e),
     setPtr ''engines.default_cloudflare_options'' VRaw (eb_default_cloudflare_options e),
     setPtr ''engines.default_iperf3_options'' VRaw (eb_default_iperf3_options e),
     setPtr ''engines.iperf3_list_url'' VString (eb_iperf3_list_url e)]"

definition integrations_writes :: "integrations_body \<Rightarrow> setting_write list" where
  "integrations_writes i = [
     setPtr ''integrations.vm_enabled'' VBool (ib_vm_enabled i),
     setPtr ''integrations.vm_url'' VString (ib_vm_url i),
     setSecret ''integrations.vm_auth_header'' (ib_vm_auth_header i),
     setPtr ''integrations.vm_auth_type'' VString (ib_vm_auth_type i),
     clear_legacy ''integrations.vm_auth_header'' (ib_vm_auth_type i),
     setPtr ''integrations.vm_auth_username'' VString (ib_vm_auth_username i),
     setSecret ''integrations.vm_auth_password'' (ib_vm_auth_password i),
     setSecret ''integrations.vm_auth_token'' (ib_vm_auth_token i),
     setPtr ''integrations.vm_auth_header_name'' VString (ib_vm_auth_header_name i),
     setSecret ''integrations.vm_auth_header_value'' (ib_vm_auth_header_value i),
     setPtr ''integrations.vm_extra_labels'' (\<lambda>m. VStringMap (Some m)) (ib_vm_extra_labels i),
     setPtr ''integrations.vl_enabled'' VBool (ib_vl_enabled i),
     setPtr ''integrations.vl_url'' VString (ib_vl_url i),
     setSecret ''integrations.vl_auth_header'' (ib_vl_auth_header i),
     setPtr ''integrations.vl_auth_type'' VString (ib_vl_auth_type i),
     clear_legacy ''integrations.vl_auth_header'' (ib_vl_auth_type i),
     setPtr ''integrations.vl_auth_username'' VString (ib_vl_auth_username i),
     setSecret ''integrations.vl_auth_password'' (ib_vl_auth_password i),
     setSecret ''integrations.vl_auth_token'' (ib_vl_auth_token i),
     setPtr ''integrations.vl_auth_header_name'' VString (ib_vl_auth_header_name i),
     setSecret ''integrations.vl_auth_header_value'' (ib_vl_auth_header_value i),
     setPtr ''integrations.vl_stream_fields'' (\<lambda>m. VStringMap (Some m)) (ib_vl_stream_fields i),
     setPtr ''integrations.metrics_enabled'' VBool (ib_metrics_enabled i)]"

definition notifications_writes :: "channel list option \<Rightarrow> notifications_body \<Rightarrow> setting_write list" where
  "notifications_writes merged n = [
     setPtr ''notifications.enabled'' VBool (nb_enabled n),
     setPtr ''notifications.channels'' (\<lambda>cs. VChannels (Some cs)) merged,
     setPtr ''notifications.default_thresholds'' VThresholds (nb_default_thresholds n),
     setPtr ''notifications.cooldown_minutes'' VInt (nb_cooldown_minutes n),
     setPtr ''notifications.quiet_hours_start'' VString (nb_quiet_hours_start n),
     setPtr ''notifications.quiet_hours_end'' VString (nb_quiet_hours_end n),
     setPtr ''notifications.notify_recovery'' VBool (nb_notify_recovery n)]"

definition auth_writes :: "auth_body \<Rightarrow> setting_write list" where
  "auth_writes a = [
     setPtr ''auth.mode'' VString (ab_mode a),
     setPtr ''auth.user_header'' VString (ab_user_header a),
     setPtr ''auth.groups_header'' VString (ab_groups_header a),
     setPtr ''auth.groups_separator'' VString (ab_groups_separator a),
     setPtr ''auth.trusted_proxies'' (\<lambda>ss. VStrings (Some ss)) (ab_trusted_proxies a),
     setPtr ''auth.admin_group'' VString (ab_admin_group a),
     setPtr ''auth.allow_tokens'' VBool (ab_allow_tokens a),
     setPtr ''auth.oidc_issuer'' VString (ab_oidc_issuer a),
     setPtr ''auth.oidc_client_id'' VString (ab_oidc_client_id a),
     setSecret ''auth.oidc_client_secret'' (ab_oidc_client_secret a),
     setPtr ''auth.oidc_redirect_base_url'' VString (ab_oidc_redirect_base_url a),
     setPtr ''auth.oidc_scopes'' (\<lambda>ss. VStrings (Some ss)) (ab_oidc_scopes a),
     setPtr ''auth.oidc_groups_claim'' VString (ab_oidc_groups_claim a),
     setPtr ''auth.oidc_allowed_groups'' (\<lambda>ss. VStrings (Some ss)) (ab_oidc_allowed_groups a),
     setPtr ''auth.oidc_allowed_emails'' (\<lambda>ss. VStrings (Some ss)) (ab_oidc_allowed_emails a),
     setPtr ''auth.oidc_display_claim'' VString (ab_oidc_display_claim a),
     setPtr ''auth.session_ttl_hours'' VInt (ab_session_ttl_hours a)]"
subsection \<open>Named keys\<close>

definition given :: "'a option \<Rightarrow> string \<Rightarrow> string list" where
  "given v key = (case v of None \<Rightarrow> [] | Some _ \<Rightarrow> [key])"

definition general_keys :: "general_body \<Rightarrow> string list" where
  "general_keys g = concat [
     given (gb_base_url g) ''general.base_url'',
     given (gb_timezone g) ''general.timezone'',
     given (gb_units g) ''general.units'',
     given (gb_log_level g) ''general.log_level'',
     given (gb_retention_days_results g) ''general.retention_days_results'',
     given (gb_retention_days_runs g) ''general.retention_days_runs'',
     given (gb_retention_prune_interval_minutes g) ''general.retention_prune_interval_minutes'',
     given (gb_sla_download_mbps g) ''general.sla_download_mbps'',
     given (gb_sla_upload_mbps g) ''general.sla_upload_mbps'',
     [''general.sla_tolerance_pct'']]"

definition engines_keys :: "engines_body \<Rightarrow> string list" where
  "engines_keys e = concat [
     given (eb_speedtest_bin e) ''engines.speedtest_bin'',
     given (eb_iperf3_bin e) ''engines.iperf3_bin'',
     given (eb_ookla_accept_license e) ''engines.ookla_accept_license'',
     given (eb_ookla_accept_gdpr e) ''engines.ookla_accept_gdpr'',
     given (eb_server_list_ttl_seconds e) ''engines.server_list_ttl_seconds'',
     given (eb_default_ookla_options e) ''engines.default_ookla_options'',
     given (eb_default_cloudflare_options e) ''engines.default_cloudflare_options'',
     given (eb_default_iperf3_options e) ''engines.default_iperf3_options'',
     given (eb_iperf3_list_url e) ''engines.iperf3_list_url'']"

definition integrations_keys :: "integrations_body \<Rightarrow> string list" where
  "integrations_keys i = concat [
     given (ib_vm_enabled i) ''integrations.vm_enabled'',
     given (ib_vm_url i) ''integrations.vm_url'',
     given (ib_vm_auth_header i) ''integrations.vm_auth_header'',
     given (ib_vm_auth_type i) ''integrations.vm_auth_type'',
     given (ib_vm_auth_username i) ''integrations.vm_auth_username'',
     given (ib_vm_auth_password i) ''integrations.vm_auth_password'',
     given (ib_vm_auth_token i) ''integrations.vm_auth_token'',
     given (ib_vm_auth_header_name i) ''integrations.vm_auth_header_name'',
     given (ib_vm_auth_header_value i) ''integrations.vm_auth_header_value'',
     given (ib_vm_extra_labels i) ''integrations.vm_extra_labels'',
     given (ib_vl_enabled i) ''integrations.vl_enabled'',
     given (ib_vl_url i) ''integrations.vl_url'',
     given (ib_vl_auth_header i) ''integrations.vl_auth_header'',
     given (ib_vl_auth_type i) ''integrations.vl_auth_type'',
     given (ib_vl_auth_username i) ''integrations.vl_auth_username'',
     given (ib_vl_auth_password i) ''integrations.vl_auth_password'',
     given (ib_vl_auth_token i) ''integrations.vl_auth_token'',
     given (ib_vl_auth_header_name i) ''integrations.vl_auth_header_name'',
     given (ib_vl_auth_header_value i) ''integrations.vl_auth_header_value'',
     given (ib_vl_stream_fields i) ''integrations.vl_stream_fields'',
     given (ib_metrics_enabled i) ''integrations.metrics_enabled'']"

definition notifications_keys :: "notifications_body \<Rightarrow> string list" where
  "notifications_keys n = concat [
     given (nb_enabled n) ''notifications.enabled'',
     given (nb_channels n) ''notifications.channels'',
     given (nb_default_thresholds n) ''notifications.default_thresholds'',
     given (nb_cooldown_minutes n) ''notifications.cooldown_minutes'',
     given (nb_quiet_hours_start n) ''notifications.quiet_hours_start'',
     given (nb_quiet_hours_end n) ''notifications.quiet_hours_end'',
     given (nb_notify_recovery n) ''notifications.notify_recovery'']"

definition auth_keys :: "auth_body \<Rightarrow> string list" where
  "auth_keys a = concat [
     given (ab_mode a) ''auth.mode'',
     given (ab_user_header a) ''auth.user_header'',
     given (ab_groups_header a) ''auth.groups_header'',
     given (ab_groups_separator a) ''auth.groups_separator'',
     given (ab_trusted_proxies a) ''auth.trusted_proxies'',
     given (ab_admin_group a) ''auth.admin_group'',
     given (ab_allow_tokens a) ''auth.allow_tokens'',
     given (ab_oidc_issuer a) ''auth.oidc_issuer'',
     given (ab_oidc_client_id a) ''auth.oidc_client_id'',
     given (ab_oidc_client_secret a) ''auth.oidc_client_secret'',
     given (ab_oidc_redirect_base_url a) ''auth.oidc_redirect_base_url'',
     given (ab_oidc_scopes a) ''auth.oidc_scopes'',
     given (ab_oidc_groups_claim a) ''auth.oidc_groups_claim'',
     given (ab_oidc_allowed_groups a) ''auth.oidc_allowed_groups'',
     given (ab_oidc_allowed_emails a) ''auth.oidc_allowed_emails'',
     given (ab_oidc_display_claim a) ''auth.oidc_display_claim'',
     given (ab_session_ttl_hours a) ''auth.session_ttl_hours'']"
definition section_of :: "('b \<Rightarrow> 'c list) \<Rightarrow> 'b option \<Rightarrow> 'c list" where
  "section_of f b = (case b of None \<Rightarrow> [] | Some x \<Rightarrow> f x)"

definition setKeys :: "settings_body \<Rightarrow> string list" where
  "setKeys body =
     section_of general_keys (sb_general body) @ section_of engines_keys (sb_engines body) @
     section_of integrations_keys (sb_integrations body) @ section_of notifications_keys (sb_notifications body) @
     section_of auth_keys (sb_auth body)"

definition lockedKeysIn :: "settings_store \<Rightarrow> settings_body \<Rightarrow> string list" where
  "lockedKeysIn st body = filter (IsLocked st) (setKeys body)"

definition mergeAuth :: "auth \<Rightarrow> auth_body option \<Rightarrow> auth" where
  "mergeAuth current body =
     (case body of
        None \<Rightarrow> current
      | Some b \<Rightarrow> current\<lparr>
          a_mode := or_current (ab_mode b) (a_mode current),
          a_user_header := or_current (ab_user_header b) (a_user_header current),
          a_groups_header := or_current (ab_groups_header b) (a_groups_header current),
          a_groups_separator := or_current (ab_groups_separator b) (a_groups_separator current),
          a_trusted_proxies := or_current (ab_trusted_proxies b) (a_trusted_proxies current),
          a_admin_group := or_current (ab_admin_group b) (a_admin_group current),
          a_allow_tokens := or_current (ab_allow_tokens b) (a_allow_tokens current),
          a_oidc_issuer := or_current (ab_oidc_issuer b) (a_oidc_issuer current),
          a_oidc_client_id := or_current (ab_oidc_client_id b) (a_oidc_client_id current),
          a_oidc_client_secret := (if ab_oidc_client_secret b = Some MaskedSecret then a_oidc_client_secret current
            else or_current (ab_oidc_client_secret b) (a_oidc_client_secret current)),
          a_oidc_redirect_base_url := or_current (ab_oidc_redirect_base_url b) (a_oidc_redirect_base_url current),
          a_oidc_scopes := or_current (ab_oidc_scopes b) (a_oidc_scopes current),
          a_oidc_groups_claim := or_current (ab_oidc_groups_claim b) (a_oidc_groups_claim current),
          a_oidc_allowed_groups := or_current (ab_oidc_allowed_groups b) (a_oidc_allowed_groups current),
          a_oidc_allowed_emails := or_current (ab_oidc_allowed_emails b) (a_oidc_allowed_emails current),
          a_oidc_display_claim := or_current (ab_oidc_display_claim b) (a_oidc_display_claim current),
          a_session_ttl_hours := or_current (ab_session_ttl_hours b) (a_session_ttl_hours current)\<rparr>)"

subsection \<open>Merging masked channels\<close>

definition channelHasMaskedSecret :: "channel \<Rightarrow> bool" where
  "channelHasMaskedSecret c \<longleftrightarrow> ch_token c = MaskedSecret \<or> list_ex (\<lambda>(k, v). v = MaskedSecret) (ch_headers c)"

text \<open>The inner loop of \<open>mergeAppriseURLs\<close>: the first stored URL left that redacts to \<open>u\<close>, and what remains.\<close>

fun take_stored :: "api_lib \<Rightarrow> string \<Rightarrow> string list \<Rightarrow> (string \<times> string list) option" where
  "take_stored lib u [] = None"
| "take_stored lib u (s # ss) =
     (if s \<noteq> [] \<and> u = RedactURL lib s then Some (s, [] # ss)
      else map_option (\<lambda>(x, rest). (x, s # rest)) (take_stored lib u ss))"

fun merge_urls :: "api_lib \<Rightarrow> string list \<Rightarrow> string list \<Rightarrow> string + string list" where
  "merge_urls lib [] remaining = Inr []"
| "merge_urls lib (u # us) remaining =
     (case take_stored lib u remaining of
        Some (s, remaining') \<Rightarrow> (case merge_urls lib us remaining' of Inl e \<Rightarrow> Inl e | Inr out \<Rightarrow> Inr (s # out))
      | None \<Rightarrow>
          if Contains u MaskedSecret then Inl ''re-enter the Apprise URL''
          else (case merge_urls lib us remaining of Inl e \<Rightarrow> Inl e | Inr out \<Rightarrow> Inr (u # out)))"

definition mergeAppriseURLs :: "api_lib \<Rightarrow> string list \<Rightarrow> string list \<Rightarrow> string + string list" where
  "mergeAppriseURLs lib submitted stored = merge_urls lib submitted stored"

definition header_or_stored :: "channel \<Rightarrow> string \<times> string \<Rightarrow> string \<times> string" where
  "header_or_stored old kv =
     (fst kv, if snd kv = MaskedSecret then (case map_of (ch_headers old) (fst kv) of None \<Rightarrow> [] | Some v \<Rightarrow> v) else snd kv)"

definition merge_channel :: "api_lib \<Rightarrow> (string \<rightharpoonup> channel) \<Rightarrow> channel \<Rightarrow> string + channel" where
  "merge_channel lib stored c =
     (let old = stored (ch_id c) in
      case (if \<not> channelHasMaskedSecret c then Inr c
            else case old of
              None \<Rightarrow> Inl (''channel '' @ ch_id c @ '': type or url changed; re-enter the token'')
            | Some o1 \<Rightarrow>
                if ch_type o1 \<noteq> ch_type c \<or> ch_url o1 \<noteq> ch_url c
                then Inl (''channel '' @ ch_id c @ '': type or url changed; re-enter the token'')
                else Inr (c\<lparr>ch_token := (if ch_token c = MaskedSecret then ch_token o1 else ch_token c),
                             ch_headers := map (header_or_stored o1) (ch_headers c)\<rparr>)) of
        Inl e \<Rightarrow> Inl e
      | Inr c1 \<Rightarrow>
          if ch_urls c1 = [] then Inr c1
          else case mergeAppriseURLs lib (ch_urls c1) (case old of None \<Rightarrow> [] | Some o1 \<Rightarrow> ch_urls o1) of
                 Inl e \<Rightarrow> Inl (''channel '' @ ch_id c @ '': '' @ e)
               | Inr us \<Rightarrow> Inr (c1\<lparr>ch_urls := us\<rparr>))"

fun merge_channels :: "api_lib \<Rightarrow> (string \<rightharpoonup> channel) \<Rightarrow> channel list \<Rightarrow> string + channel list" where
  "merge_channels lib stored [] = Inr []"
| "merge_channels lib stored (c # cs) =
     (case merge_channel lib stored c of
        Inl e \<Rightarrow> Inl e
      | Inr c' \<Rightarrow> (case merge_channels lib stored cs of Inl e \<Rightarrow> Inl e | Inr out \<Rightarrow> Inr (c' # out)))"

definition mergeChannelSecrets :: "api_lib \<Rightarrow> channel list \<Rightarrow> channel list \<Rightarrow> string + channel list" where
  "mergeChannelSecrets lib incoming current =
     merge_channels lib (map_of (rev (map (\<lambda>c. (ch_id c, c)) current))) incoming"

subsection \<open>Validation\<close>

definition isHTTPTChar :: "char \<Rightarrow> bool" where
  "isHTTPTChar c \<longleftrightarrow>
     (CHR ''a'' \<le> c \<and> c \<le> CHR ''z'') \<or> (CHR ''A'' \<le> c \<and> c \<le> CHR ''Z'') \<or> (CHR ''0'' \<le> c \<and> c \<le> CHR ''9'') \<or>
     c \<in> set ''!#$%&*+-.^_|~'' \<or> c = CHR 0x27 \<or> c = CHR 0x60"

definition isValidHTTPHeaderName :: "string \<Rightarrow> bool" where
  "isValidHTTPHeaderName s \<longleftrightarrow> s \<noteq> [] \<and> list_all isHTTPTChar s"

definition http_url :: "string \<times> string \<Rightarrow> bool" where
  "http_url u \<longleftrightarrow> (fst u = ''http'' \<or> fst u = ''https'') \<and> snd u \<noteq> []"

definition url_err :: "api_lib \<Rightarrow> string \<Rightarrow> string option" where
  "url_err lib raw =
     (case ap_url lib raw of
        Inl e \<Rightarrow> Some (''invalid URL: '' @ e)
      | Inr u \<Rightarrow> check (\<not> http_url u) ''must be an absolute http(s) URL'')"

definition validateAbsoluteHTTPURL :: "api_lib \<Rightarrow> string \<Rightarrow> string option" where
  "validateAbsoluteHTTPURL lib raw = (if raw = [] then Some ''required'' else url_err lib raw)"

definition validateEndpointURL :: "api_lib \<Rightarrow> string \<Rightarrow> bool \<Rightarrow> string option" where
  "validateEndpointURL lib raw enabled =
     (if raw = [] then check enabled ''required when enabled'' else url_err lib raw)"

definition validateAuthBody :: "api_lib \<Rightarrow> auth_body option \<Rightarrow> auth \<Rightarrow> string option" where
  "validateAuthBody lib body current =
     (case body of
        None \<Rightarrow> None
      | Some a \<Rightarrow>
          let resulting = mergeAuth current body in
          firstErr [
            on_ptr (\<lambda>m. check (m \<notin> {''open'', ''forward_auth'', ''token'', ''oidc''})
              ''mode must be one of open, forward_auth, token, oidc'') (ab_mode a),
            on_ptr (\<lambda>h. check (\<not> isValidHTTPHeaderName h) ''user_header is not a valid HTTP header name'') (ab_user_header a),
            on_ptr (\<lambda>h. check (\<not> isValidHTTPHeaderName h) ''groups_header is not a valid HTTP header name'') (ab_groups_header a),
            on_ptr (\<lambda>s. check (s = [] \<or> 4 < length s) ''groups_separator must be 1-4 bytes'') (ab_groups_separator a),
            on_ptr (\<lambda>ps. firstErr (map (\<lambda>raw. check (al_prefix (ap_auth lib) raw = None)
              (''trusted_proxies: invalid CIDR '' @ quoted raw)) ps)) (ab_trusted_proxies a),
            on_ptr (\<lambda>h. check (h < 1 \<or> 8760 < h) ''session_ttl_hours must be between 1 and 8760'') (ab_session_ttl_hours a),
            on_ptr (\<lambda>u. if u = [] then None else wrapErr ''oidc_redirect_base_url: '' (validateAbsoluteHTTPURL lib u))
              (ab_oidc_redirect_base_url a),
            on_ptr (\<lambda>c. check (c \<notin> {''name'', ''preferred_username'', ''email''})
              ''oidc_display_claim: must be one of name, preferred_username, email'') (ab_oidc_display_claim a),
            (if a_mode resulting = ''oidc'' then firstErr [
               wrapErr ''oidc_issuer: '' (validateAbsoluteHTTPURL lib (a_oidc_issuer resulting)),
               check (a_oidc_client_id resulting = []) ''oidc_client_id is required when mode is oidc'',
               check (a_oidc_groups_claim resulting = []) ''oidc_groups_claim is required when mode is oidc'']
             else None)])"

definition validateEngineBin :: "string \<Rightarrow> string \<Rightarrow> string option" where
  "validateEngineBin field v = firstErr [
     check (v = [] \<or> TrimSpace v \<noteq> v \<or> ContainsAny v [CHR '' '', CHR 0x09, CHR 0x0D, CHR 0x0A, CHR 0x00])
       (field @ '' must be an executable name or absolute path without spaces or arguments''),
     check (ContainsAny v [CHR ''/'', CHR 0x5C] \<and> \<not> HasPrefix v ''/'')
       (field @ '' must be a bare executable name or an absolute path'')]"

definition minServerListTTLSeconds :: int where
  "minServerListTTLSeconds = 60"

definition validateEngines :: "api_lib \<Rightarrow> engines_body \<Rightarrow> string option" where
  "validateEngines lib e = firstErr [
     on_ptr (validateEngineBin ''speedtest_bin'') (eb_speedtest_bin e),
     on_ptr (validateEngineBin ''iperf3_bin'') (eb_iperf3_bin e),
     on_ptr (\<lambda>t. check (t < minServerListTTLSeconds)
       (''server_list_ttl_seconds must be at least '' @ Itoa minServerListTTLSeconds)) (eb_server_list_ttl_seconds e),
     on_ptr (\<lambda>u. check (u \<noteq> [] \<and> (case ap_url lib u of Inl _ \<Rightarrow> True | Inr p \<Rightarrow> \<not> http_url p))
       ''iperf3_list_url must be an http(s) URL'') (eb_iperf3_list_url e)]"

definition validateExportAuthType :: "string option \<Rightarrow> string \<Rightarrow> string \<Rightarrow> string option" where
  "validateExportAuthType bodyType effectiveType effectiveHeaderName = firstErr [
     on_ptr (\<lambda>t. check (\<not> ValidExportAuthType t) ''auth_type must be one of none, basic, bearer, custom'') bodyType,
     (if effectiveType = ''custom'' then firstErr [
        check (effectiveHeaderName = []) ''auth_header_name is required when auth_type is custom'',
        check (\<not> isValidHTTPHeaderName effectiveHeaderName) ''auth_header_name is not a valid HTTP header name'']
      else None)]"

text \<open>The regular expression \<open>^[a-zA-Z_][a-zA-Z0-9_]*$\<close>.\<close>

definition ident_start :: "char \<Rightarrow> bool" where
  "ident_start c \<longleftrightarrow> (CHR ''a'' \<le> c \<and> c \<le> CHR ''z'') \<or> (CHR ''A'' \<le> c \<and> c \<le> CHR ''Z'') \<or> c = CHR ''_''"

definition settingsKeyPattern :: "string \<Rightarrow> bool" where
  "settingsKeyPattern s = (case s of [] \<Rightarrow> False | c # cs \<Rightarrow> ident_start c \<and> list_all (\<lambda>c. ident_start c \<or> is_digit c) cs)"

definition vmReservedLabels :: "string list" where
  "vmReservedLabels = [''target'', ''target_id'', ''engine'', ''server_id'', ''server_name'', ''isp'', ''schedule'']"

definition vlReservedFields :: "string list" where
  "vlReservedFields = [''app'', ''level'', ''_msg'', ''_time'']"

definition validateKeys :: "(string \<times> string) list \<Rightarrow> string list \<Rightarrow> string option" where
  "validateKeys m reserved = firstErr (map (\<lambda>(k, v). firstErr [
     check (\<not> settingsKeyPattern k) (''invalid key '' @ quoted k @ '': must match ^[a-zA-Z_][a-zA-Z0-9_]*$''),
     check (k \<in> set reserved) (''key '' @ quoted k @ '' is reserved'')]) m)"

definition validateThresholds :: "thresholds \<Rightarrow> string option" where
  "validateThresholds t = firstErr (map (\<lambda>(name, v, mx). on_ptr (\<lambda>x. firstErr [
       check (x < 0) (name @ '' must be >= 0''),
       on_ptr (\<lambda>b. check (of_int b < x) (name @ '' must be <= '' @ Itoa b)) mx]) v)
     [(''download_mbps_min'', th_download t, None),
      (''upload_mbps_min'', th_upload t, None),
      (''ping_ms_max'', th_ping t, None),
      (''jitter_ms_max'', th_jitter t, None),
      (''loss_pct_max'', th_loss t, Some 100),
      (''sla_download_mbps'', th_sla_download t, None),
      (''sla_upload_mbps'', th_sla_upload t, None),
      (''sla_tolerance_pct'', th_sla_tolerance t, Some 99)])"

subsection \<open>Channels\<close>

definition channelLabel :: "channel \<Rightarrow> string" where
  "channelLabel c = (if ch_name c \<noteq> [] then quoted (ch_name c) else if ch_id c \<noteq> [] then ch_id c else ''(new)'')"

definition redactAppriseErr :: "api_lib \<Rightarrow> string \<Rightarrow> string list \<Rightarrow> string" where
  "redactAppriseErr lib msg urls = fold (\<lambda>u m. if u = [] then m else ReplaceAll m u (RedactURL lib u)) urls msg"

definition textproto_space :: "char \<Rightarrow> bool" where
  "textproto_space c \<longleftrightarrow> c \<in> {CHR '' '', CHR 0x09, CHR 0x0A, CHR 0x0D}"

definition textproto_TrimString :: "string \<Rightarrow> string" where
  "textproto_TrimString s = rev (dropWhile textproto_space (rev (dropWhile textproto_space s)))"

text \<open>\<open>http.CanonicalHeaderKey\<close> never maps a name to the empty string.\<close>

definition isValidHTTPToken :: "string \<Rightarrow> bool" where
  "isValidHTTPToken s \<longleftrightarrow> s \<noteq> [] \<and> textproto_TrimString s = s \<and>
     \<not> ContainsAny s [CHR '' '', CHR 0x09, CHR 0x0D, CHR 0x0A, CHR '':'']"

definition ValidateChannel :: "api_lib \<Rightarrow> channel \<Rightarrow> string option" where
  "ValidateChannel lib c =
     (let pre = ''channel '' @ channelLabel c @ '': '' in
      wrapErr pre (firstErr ([
        check (ch_id c = []) ''id must be set'',
        check (ch_type c \<notin> {''webhook'', ''apprise''}) ''type must be one of webhook, apprise'',
        (if ch_type c = ''apprise'' then firstErr (
           check (ch_urls c = []) ''apprise urls must be set'' #
           map (\<lambda>(i, u). map_option (\<lambda>e. ''apprise url #'' @ Itoa (int i + 1) @ '': '' @ redactAppriseErr lib e (ch_urls c))
             (ap_apprise_add lib u)) (enumerate 0 (ch_urls c)))
         else check (case ap_url lib (ch_url c) of Inl _ \<Rightarrow> True | Inr p \<Rightarrow> \<not> http_url p)
                ''url must be an absolute http(s) URL'')] @
        map (\<lambda>(k, v). check (\<not> isValidHTTPToken k) (''header '' @ quoted k @ '' is not a valid HTTP header name''))
          (ch_headers c))))"

text \<open>The loop over the channels; \<open>seen\<close> holds the ids so far.\<close>

fun validate_channels :: "api_lib \<Rightarrow> string set \<Rightarrow> channel list \<Rightarrow> string option" where
  "validate_channels lib seen [] = None"
| "validate_channels lib seen (c # cs) =
     (case ValidateChannel lib c of
        Some e \<Rightarrow> Some e
      | None \<Rightarrow> if ch_id c \<in> seen then Some (''duplicate channel id '' @ ch_id c)
                else validate_channels lib (insert (ch_id c) seen) cs)"

subsection \<open>The whole document\<close>

definition validate_general :: "api_lib \<Rightarrow> general_body \<Rightarrow> string option" where
  "validate_general lib g = firstErr [
     on_ptr (\<lambda>l. check (l \<notin> {''debug'', ''info'', ''warn'', ''error''}) ''log_level must be one of debug, info, warn, error'') (gb_log_level g),
     on_ptr (\<lambda>u. check (u \<notin> {''Mbps'', ''MB/s''}) ''units must be one of Mbps, MB/s'') (gb_units g),
     on_ptr (\<lambda>tz. map_option (\<lambda>e. ''invalid timezone '' @ quoted tz @ '': '' @ e) (ap_location lib tz)) (gb_timezone g),
     on_ptr (\<lambda>n. check (n < 1) ''retention_days_results must be at least 1'') (gb_retention_days_results g),
     on_ptr (\<lambda>n. check (n < 1) ''retention_days_runs must be at least 1'') (gb_retention_days_runs g),
     on_ptr (\<lambda>n. check (n < 1) ''retention_prune_interval_minutes must be at least 1'') (gb_retention_prune_interval_minutes g),
     on_ptr (\<lambda>x. check (x < 0) ''sla_download_mbps must be >= 0'') (gb_sla_download_mbps g),
     on_ptr (\<lambda>x. check (x < 0) ''sla_upload_mbps must be >= 0'') (gb_sla_upload_mbps g),
     on_ptr (\<lambda>x. check (x < 0 \<or> 99 < x) ''sla_tolerance_pct must be between 0 and 99'') (gb_sla_tolerance_pct g)]"

definition validate_integrations :: "api_lib \<Rightarrow> integrations_body \<Rightarrow> integrations \<Rightarrow> string option" where
  "validate_integrations lib i current = firstErr [
     wrapErr ''vm_url: '' (validateEndpointURL lib (or_current (ib_vm_url i) (ig_vm_url current))
       (or_current (ib_vm_enabled i) (ig_vm_enabled current))),
     wrapErr ''vl_url: '' (validateEndpointURL lib (or_current (ib_vl_url i) (ig_vl_url current))
       (or_current (ib_vl_enabled i) (ig_vl_enabled current))),
     on_ptr (\<lambda>m. wrapErr ''vm_extra_labels: '' (validateKeys m vmReservedLabels)) (ib_vm_extra_labels i),
     on_ptr (\<lambda>m. wrapErr ''vl_stream_fields: '' (validateKeys m vlReservedFields)) (ib_vl_stream_fields i),
     wrapErr ''vm_auth: '' (validateExportAuthType (ib_vm_auth_type i)
       (or_current (ib_vm_auth_type i) (ig_vm_auth_type current))
       (or_current (ib_vm_auth_header_name i) (ig_vm_auth_header_name current))),
     wrapErr ''vl_auth: '' (validateExportAuthType (ib_vl_auth_type i)
       (or_current (ib_vl_auth_type i) (ig_vl_auth_type current))
       (or_current (ib_vl_auth_header_name i) (ig_vl_auth_header_name current)))]"

text \<open>The channels are the merged ones.\<close>

definition validate_notifications :: "api_lib \<Rightarrow> notifications_body \<Rightarrow> channel list option \<Rightarrow> string option" where
  "validate_notifications lib n channels = firstErr [
     on_ptr (validate_channels lib {}) channels,
     on_ptr (\<lambda>m. check (m < 1) ''cooldown_minutes must be at least 1'') (nb_cooldown_minutes n),
     check ((nb_quiet_hours_start n \<noteq> None) \<noteq> (nb_quiet_hours_end n \<noteq> None))
       ''quiet_hours_start and quiet_hours_end must be set together'',
     (case (nb_quiet_hours_start n, nb_quiet_hours_end n) of
        (Some start, Some end') \<Rightarrow>
          if start \<noteq> [] \<and> end' \<noteq> [] then firstErr [
            check (Parse_HHMM start = None) ''quiet_hours_start must be HH:MM'',
            check (Parse_HHMM end' = None) ''quiet_hours_end must be HH:MM'']
          else None
      | _ \<Rightarrow> None),
     on_ptr (\<lambda>t. wrapErr ''default_thresholds: '' (validateThresholds t)) (nb_default_thresholds n)]"

definition validateSettings :: "api_lib \<Rightarrow> settings_body \<Rightarrow> channel list option \<Rightarrow> integrations \<Rightarrow> string option" where
  "validateSettings lib body channels current = firstErr [
     on_ptr (validateEngines lib) (sb_engines body),
     on_ptr (validate_general lib) (sb_general body),
     on_ptr (\<lambda>i. validate_integrations lib i current) (sb_integrations body),
     on_ptr (\<lambda>n. validate_notifications lib n channels) (sb_notifications body)]"

end
