(* ===== verification/Queue_Store.thy ===== *)
theory Queue_Store
  imports Database
begin

text \<open>
  Run queues: \<open>internal/store/queues.go\<close>. A queue is a named lane; its name is UNIQUE, one
  queue always remains, and a queue that a target references cannot be deleted. The lowest
  id is the default queue.
\<close>

subsection \<open>Operations\<close>

definition ListQueues :: "fault \<Rightarrow> db \<Rightarrow> queue list res" where
  "ListQueues flt d =
     (case flt of Some e \<Rightarrow> Inl (ErrDB e) | None \<Rightarrow> Inr (sort_key q_id (rows (queues_t d))))"

definition GetQueue :: "fault \<Rightarrow> db \<Rightarrow> int \<Rightarrow> queue res" where
  "GetQueue flt d i =
     (case flt of
        Some e \<Rightarrow> Inl (ErrDB e)
      | None \<Rightarrow> (case find (\<lambda>q. q_id q = i) (rows (queues_t d)) of
                   None \<Rightarrow> Inl ErrNotFound | Some q \<Rightarrow> Inr q))"

definition GetQueueByName :: "fault \<Rightarrow> db \<Rightarrow> string \<Rightarrow> queue res" where
  "GetQueueByName flt d n =
     (case flt of
        Some e \<Rightarrow> Inl (ErrDB e)
      | None \<Rightarrow> (case find (\<lambda>q. q_name q = n) (rows (queues_t d)) of
                   None \<Rightarrow> Inl ErrNotFound | Some q \<Rightarrow> Inr q))"

definition DefaultQueueID :: "fault \<Rightarrow> db \<Rightarrow> int res" where
  "DefaultQueueID flt d =
     (case flt of
        Some e \<Rightarrow> Inl (ErrDB e)
      | None \<Rightarrow> (case sort_key q_id (rows (queues_t d)) of
                   [] \<Rightarrow> Inl (ErrDB ''default queue: sql: no rows in result set'')
                 | q # _ \<Rightarrow> Inr (q_id q)))"

definition CreateQueue :: "fault \<Rightarrow> string \<Rightarrow> db \<Rightarrow> string \<Rightarrow> db \<times> queue res" where
  "CreateQueue flt now d name =
     (case flt of
        Some e \<Rightarrow> (d, Inl (ErrDB e))
      | None \<Rightarrow>
          if \<exists>q\<in>set (rows (queues_t d)). q_name q = name then (d, Inl ErrNameConflict)
          else let d' = d\<lparr>queues_t := insert_row (\<lambda>i. \<lparr>q_id = i, q_name = name, q_created_at = now\<rparr>) (queues_t d)\<rparr>
               in (d', GetQueue None d' (seq (queues_t d) + 1)))"

definition RenameQueue :: "fault \<Rightarrow> db \<Rightarrow> int \<Rightarrow> string \<Rightarrow> db \<times> queue res" where
  "RenameQueue flt d i name =
     (case flt of
        Some e \<Rightarrow> (d, Inl (ErrDB e))
      | None \<Rightarrow>
          let P = (\<lambda>q. q_id q = i) in
          if (\<exists>q\<in>set (rows (queues_t d)). P q) \<and> (\<exists>q\<in>set (rows (queues_t d)). \<not> P q \<and> q_name q = name)
          then (d, Inl ErrNameConflict)
          else if affected P (rows (queues_t d)) = 0 then (d, Inl ErrNotFound)
          else let d' = d\<lparr>queues_t := map_rows (update_where P (\<lambda>q. q\<lparr>q_name := name\<rparr>)) (queues_t d)\<rparr>
               in (d', GetQueue None d' i))"

definition DeleteQueue :: "fault \<Rightarrow> db \<Rightarrow> int \<Rightarrow> db \<times> unit res" where
  "DeleteQueue flt d i =
     (case flt of
        Some e \<Rightarrow> (d, Inl (ErrDB e))
      | None \<Rightarrow>
          if \<not> (\<exists>q\<in>set (rows (queues_t d)). q_id q = i) then (d, Inl ErrNotFound)
          else if length (rows (queues_t d)) \<le> 1 then (d, Inl ErrLastQueue)
          else if affected (\<lambda>t. t_queue_id t = i) (rows (targets_t d)) > 0 then (d, Inl ErrQueueInUse)
          else (d\<lparr>queues_t := map_rows (delete_where (\<lambda>q. q_id q = i)) (queues_t d)\<rparr>, Inr ()))"

subsection \<open>Resolving the queue of a stored snapshot\<close>

record queue_lookup =
  ql_by_id :: "int \<rightharpoonup> queue"
  ql_by_name :: "string \<rightharpoonup> queue"
  ql_default_id :: int

definition loadQueueLookup :: "fault \<Rightarrow> db \<Rightarrow> queue_lookup res" where
  "loadQueueLookup flt d =
     (case ListQueues flt d of
        Inl e \<Rightarrow> Inl e
      | Inr [] \<Rightarrow> Inl (ErrDB ''load queues: no queues exist'')
      | Inr (q # qs) \<Rightarrow>
          Inr \<lparr>ql_by_id = map_of (rev (map (\<lambda>q. (q_id q, q)) (q # qs))),
               ql_by_name = map_of (rev (map (\<lambda>q. (q_name q, q)) (q # qs))),
               ql_default_id = q_id q\<rparr>)"

definition resolve :: "queue_lookup \<Rightarrow> raw \<Rightarrow> int" where
  "resolve l raw =
     (case members raw of
        None \<Rightarrow> ql_default_id l
      | Some kvs \<Rightarrow>
          (case (dec_scalar as_int 0 ''queue_id'' kvs, dec_scalar as_str '''' ''lane'' kvs) of
             (Some qid, Some lane) \<Rightarrow>
               if qid \<noteq> 0 \<and> ql_by_id l qid \<noteq> None then qid
               else if lane \<noteq> '''' then (case ql_by_name l lane of Some q \<Rightarrow> q_id q | None \<Rightarrow> ql_default_id l)
               else ql_default_id l
           | _ \<Rightarrow> ql_default_id l))"

definition ResolveSnapshotQueueID :: "fault \<Rightarrow> db \<Rightarrow> raw \<Rightarrow> int res" where
  "ResolveSnapshotQueueID flt d raw =
     (case loadQueueLookup flt d of Inl e \<Rightarrow> Inl e | Inr l \<Rightarrow> Inr (resolve l raw))"

subsection \<open>The queue invariant\<close>

text \<open>
  Ids are unique and below the sequence, names are unique (the UNIQUE constraint), at least
  one queue exists, and every target's queue exists. No FOREIGN KEY guards the last part.
\<close>

definition queues_ok :: "db \<Rightarrow> bool" where
  "queues_ok d \<longleftrightarrow>
     tbl_ok q_id (queues_t d) \<and> distinct (map q_name (rows (queues_t d))) \<and> rows (queues_t d) \<noteq> [] \<and>
     (\<forall>t\<in>set (rows (targets_t d)). \<exists>q\<in>set (rows (queues_t d)). q_id q = t_queue_id t)"

lemma queues_ok_frame:
  "queues_t d' = queues_t d \<Longrightarrow> set (rows (targets_t d')) \<subseteq> set (rows (targets_t d)) \<Longrightarrow>
   queues_ok d \<Longrightarrow> queues_ok d'"
  by (auto simp: queues_ok_def)

lemma queues_ok_CreateQueue:
  assumes "queues_ok d"
  shows "queues_ok (fst (CreateQueue flt now d name))"
  using assms
  by (auto simp: CreateQueue_def queues_ok_def Let_def tbl_ok_insert_row split: option.splits)

lemma distinct_names_rename:
  assumes "distinct (map q_name qs)" "\<not> (\<exists>q\<in>set qs. q_id q \<noteq> i \<and> q_name q = name)"
    "distinct (map q_id qs)"
  shows "distinct (map q_name (update_where (\<lambda>q. q_id q = i) (\<lambda>q. q\<lparr>q_name := name\<rparr>) qs))"
  using assms
  by (induction qs) (auto simp: update_where_def image_iff)

lemma queues_ok_RenameQueue:
  assumes "queues_ok d"
  shows "queues_ok (fst (RenameQueue flt d i name))"
proof (cases "fst (RenameQueue flt d i name) = d")
  case False
  let ?P = "\<lambda>q. q_id q = i"
  let ?f = "\<lambda>q. q\<lparr>q_name := name\<rparr>"
  let ?d = "d\<lparr>queues_t := map_rows (update_where ?P ?f) (queues_t d)\<rparr>"
  from False have d': "fst (RenameQueue flt d i name) = ?d"
    and uniq: "\<not> (\<exists>q\<in>set (rows (queues_t d)). \<not> ?P q \<and> q_name q = name)"
    by (auto simp: RenameQueue_def Let_def split: option.splits if_splits)
  have tbl: "tbl_ok q_id (queues_t ?d)"
    using assms by (simp add: queues_ok_def tbl_ok_update)
  have names: "distinct (map q_name (rows (queues_t ?d)))"
    using assms uniq by (simp add: queues_ok_def distinct_names_rename tbl_ok_distinct)
  have ids: "q_id ` set (rows (queues_t ?d)) = q_id ` set (rows (queues_t d))"
    using map_key_update_where [of q_id ?f ?P "rows (queues_t d)"]
    by (simp flip: set_map)
  have refs: "\<forall>t\<in>set (rows (targets_t ?d)). \<exists>q\<in>set (rows (queues_t ?d)). q_id q = t_queue_id t"
  proof
    fix t assume "t \<in> set (rows (targets_t ?d))"
    with assms have "t_queue_id t \<in> q_id ` set (rows (queues_t d))"
      by (force simp: queues_ok_def)
    then have "t_queue_id t \<in> q_id ` set (rows (queues_t ?d))" unfolding ids .
    then show "\<exists>q\<in>set (rows (queues_t ?d)). q_id q = t_queue_id t"
      by (elim imageE) (rule bexI, simp_all)
  qed
  show ?thesis unfolding d' queues_ok_def
    using tbl names refs assms by (simp add: queues_ok_def update_where_def)
qed (use assms in simp)

lemma queues_ok_DeleteQueue:
  assumes "queues_ok d"
  shows "queues_ok (fst (DeleteQueue flt d i))"
proof (cases "fst (DeleteQueue flt d i) = d")
  case False
  then have d': "fst (DeleteQueue flt d i) = d\<lparr>queues_t := map_rows (delete_where (\<lambda>q. q_id q = i)) (queues_t d)\<rparr>"
    and two: "length (rows (queues_t d)) > 1" and unused: "\<forall>t\<in>set (rows (targets_t d)). t_queue_id t \<noteq> i"
    by (auto simp: DeleteQueue_def split: option.splits if_splits)
  have dist: "distinct (map q_id (rows (queues_t d)))"
    using assms by (simp add: queues_ok_def tbl_ok_distinct)
  obtain q where q: "q \<in> set (rows (queues_t d))" "q_id q \<noteq> i"
  proof (cases "rows (queues_t d)")
    case (Cons a as)
    with two obtain b bs where "as = b # bs" by (cases as) auto
    with Cons dist that show ?thesis by fastforce
  qed (use two in simp)
  have tbl: "tbl_ok q_id (map_rows (delete_where (\<lambda>q. q_id q = i)) (queues_t d))"
    using tbl_ok_filter [of q_id "queues_t d" "\<lambda>q. q_id q \<noteq> i"] assms
    by (simp add: queues_ok_def delete_where_def [abs_def])
  have refs: "\<exists>q\<in>set (rows (queues_t d)). q_id q \<noteq> i \<and> q_id q = t_queue_id t"
    if "t \<in> set (rows (targets_t d))" for t
    using assms unused that unfolding queues_ok_def by metis
  show ?thesis unfolding d' queues_ok_def
    using assms q tbl refs
    by (auto simp: queues_ok_def delete_where_def distinct_map_filter filter_empty_conv)
qed (use assms in simp)

end
