(* ===== verification/Target_Store.thy ===== *)
theory Target_Store
  imports Queue_Store
begin

text \<open>
  Targets and their change history: \<open>internal/store/targets.go\<close> and
  \<open>target_revisions.go\<close>. Every write of a target also writes a revision in the same
  transaction; a read joins the queue table, so a target whose queue is missing is invisible.
\<close>

subsection \<open>Reading rows and snapshots\<close>

fun rawOrEmpty :: "raw \<Rightarrow> raw" where
  "rawOrEmpty RawEmpty = RawDoc (JObj [])"
| "rawOrEmpty r = r"

text \<open>One row of \<open>targets t JOIN queues q ON q.id = t.queue_id\<close>, as \<open>scanTarget\<close> reads it.\<close>

definition scanTarget :: "db \<Rightarrow> target_row \<Rightarrow> target option" where
  "scanTarget d r =
     (case find (\<lambda>q. q_id q = t_queue_id r) (rows (queues_t d)) of
        None \<Rightarrow> None
      | Some q \<Rightarrow> Some \<lparr>t_id = t_id r, t_name = t_name r, t_engine = t_engine r, t_enabled = t_enabled r,
                       t_queue_id = t_queue_id r, t_options = t_options r, t_thresholds = t_thresholds r,
                       t_rotation_index = t_rotation_index r, t_created_at = t_created_at r,
                       t_updated_at = t_updated_at r, t_queue_name = q_name q\<rparr>)"

definition select_target :: "db \<Rightarrow> int \<Rightarrow> target option" where
  "select_target d i =
     (case find (\<lambda>r. t_id r = i) (rows (targets_t d)) of None \<Rightarrow> None | Some r \<Rightarrow> scanTarget d r)"

text \<open>\<open>json.Marshal\<close> of a target: it fails when a raw document is not valid JSON.\<close>

definition marshalTarget :: "target \<Rightarrow> json option" where
  "marshalTarget t =
     (case (t_options t, t_thresholds t) of
        (RawDoc opts, RawDoc thr) \<Rightarrow>
          Some (JObj [(''id'', JNum (of_int (t_id t))), (''name'', JStr (t_name t)),
                      (''engine'', JStr (t_engine t)), (''enabled'', JBool (t_enabled t)),
                      (''queue_id'', JNum (of_int (t_queue_id t))), (''queue_name'', JStr (t_queue_name t)),
                      (''options'', opts), (''thresholds'', thr),
                      (''rotation_index'', JNum (of_int (t_rotation_index t))),
                      (''created_at'', JStr (t_created_at t)), (''updated_at'', JStr (t_updated_at t))])
      | _ \<Rightarrow> None)"

definition unmarshalTarget :: "raw \<Rightarrow> target option" where
  "unmarshalTarget raw =
     (case members raw of None \<Rightarrow> None | Some kvs \<Rightarrow>
        (case (dec_scalar as_int 0 ''id'' kvs, dec_scalar as_str '''' ''name'' kvs,
               dec_scalar as_str '''' ''engine'' kvs, dec_scalar as_bool False ''enabled'' kvs,
               dec_scalar as_int 0 ''queue_id'' kvs, dec_scalar as_str '''' ''queue_name'' kvs,
               dec_scalar as_int 0 ''rotation_index'' kvs, dec_scalar as_str '''' ''created_at'' kvs,
               dec_scalar as_str '''' ''updated_at'' kvs) of
           (Some i, Some n, Some e, Some en, Some q, Some qn, Some ri, Some ca, Some ua) \<Rightarrow>
             Some \<lparr>t_id = i, t_name = n, t_engine = e, t_enabled = en, t_queue_id = q,
                   t_options = dec_raw ''options'' kvs, t_thresholds = dec_raw ''thresholds'' kvs,
                   t_rotation_index = ri, t_created_at = ca, t_updated_at = ua, t_queue_name = qn\<rparr>
         | _ \<Rightarrow> None))"

subsection \<open>Revisions\<close>

definition maxTargetRevisions :: int where
  "maxTargetRevisions = 50"

definition max_version :: "db \<Rightarrow> int \<Rightarrow> int" where
  "max_version d i = fold max (map rev_version (filter (\<lambda>v. rev_target_id v = i) (rows (revisions_t d)))) 0"

definition insertRevision :: "string \<Rightarrow> db \<Rightarrow> int \<Rightarrow> action \<Rightarrow> target \<Rightarrow> db option" where
  "insertRevision now d i act snap =
     (case marshalTarget snap of
        None \<Rightarrow> None
      | Some body \<Rightarrow>
          let newVersion = max_version d i + 1;
              t1 = insert_row (\<lambda>k. \<lparr>rev_id = k, rev_target_id = i, rev_version = newVersion, rev_action = act,
                                     rev_snapshot = RawDoc body, rev_created_at = now\<rparr>) (revisions_t d)
          in Some (d\<lparr>revisions_t := map_rows (delete_where
                     (\<lambda>v. rev_target_id v = i \<and> rev_version v \<le> newVersion - maxTargetRevisions)) t1\<rparr>))"

definition ListTargetRevisions :: "fault \<Rightarrow> db \<Rightarrow> int \<Rightarrow> revision list res" where
  "ListTargetRevisions flt d i =
     (case flt of
        Some e \<Rightarrow> Inl (ErrDB e)
      | None \<Rightarrow> Inr (rev (sort_key rev_version (filter (\<lambda>v. rev_target_id v = i) (rows (revisions_t d))))))"

definition GetTargetRevision :: "fault \<Rightarrow> db \<Rightarrow> int \<Rightarrow> int \<Rightarrow> revision res" where
  "GetTargetRevision flt d i v =
     (case flt of
        Some e \<Rightarrow> Inl (ErrDB e)
      | None \<Rightarrow> (case find (\<lambda>r. rev_target_id r = i \<and> rev_version r = v) (rows (revisions_t d)) of
                   None \<Rightarrow> Inl ErrNotFound | Some r \<Rightarrow> Inr r))"

subsection \<open>Targets\<close>

definition CreateTarget :: "fault \<Rightarrow> string \<Rightarrow> db \<Rightarrow> target \<Rightarrow> db \<times> int res" where
  "CreateTarget flt now d t =
     (case flt of
        Some e \<Rightarrow> (d, Inl (ErrDB e))
      | None \<Rightarrow>
          let i = seq (targets_t d) + 1;
              d1 = d\<lparr>targets_t := insert_row
                     (\<lambda>k. \<lparr>t_id = k, t_name = t_name t, t_engine = t_engine t, t_enabled = t_enabled t,
                           t_queue_id = t_queue_id t, t_options = rawOrEmpty (t_options t),
                           t_thresholds = rawOrEmpty (t_thresholds t), t_rotation_index = 0,
                           t_created_at = now, t_updated_at = now\<rparr>) (targets_t d)\<rparr>
          in (case select_target d1 i of
                None \<Rightarrow> (d, Inl (ErrDB ''read created target''))
              | Some created \<Rightarrow>
                  (case insertRevision now d1 i ACreate created of
                     None \<Rightarrow> (d, Inl (ErrDB ''insert create revision''))
                   | Some d2 \<Rightarrow> (d2, Inr i))))"

definition GetTarget :: "fault \<Rightarrow> db \<Rightarrow> int \<Rightarrow> target res" where
  "GetTarget flt d i =
     (case flt of
        Some e \<Rightarrow> Inl (ErrDB e)
      | None \<Rightarrow> (case select_target d i of None \<Rightarrow> Inl ErrNotFound | Some t \<Rightarrow> Inr t))"

text \<open>\<open>ORDER BY t.name, t.id\<close>.\<close>

definition ListTargets :: "fault \<Rightarrow> db \<Rightarrow> target list res" where
  "ListTargets flt d =
     (case flt of
        Some e \<Rightarrow> Inl (ErrDB e)
      | None \<Rightarrow> Inr (sort_key t_name (sort_key t_id (List.map_filter (scanTarget d) (rows (targets_t d))))))"

definition ListTargetsByIDs :: "fault \<Rightarrow> db \<Rightarrow> int list \<Rightarrow> target list res" where
  "ListTargetsByIDs flt d ids =
     (if ids = [] then Inr []
      else case flt of
             Some e \<Rightarrow> Inl (ErrDB e)
           | None \<Rightarrow> Inr (List.map_filter (select_target d) ids))"

text \<open>The \<open>SET\<close> clause of an update.\<close>

definition set_target :: "string \<Rightarrow> target \<Rightarrow> target_row \<Rightarrow> target_row" where
  "set_target now t r =
     r\<lparr>t_name := t_name t, t_engine := t_engine t, t_enabled := t_enabled t, t_queue_id := t_queue_id t,
       t_options := rawOrEmpty (t_options t), t_thresholds := rawOrEmpty (t_thresholds t),
       t_updated_at := now\<rparr>"

definition updateTargetWithAction :: "fault \<Rightarrow> string \<Rightarrow> db \<Rightarrow> target \<Rightarrow> action \<Rightarrow> db \<times> unit res" where
  "updateTargetWithAction flt now d t act =
     (case flt of
        Some e \<Rightarrow> (d, Inl (ErrDB e))
      | None \<Rightarrow>
          let P = (\<lambda>r. t_id r = t_id t);
              d1 = d\<lparr>targets_t := map_rows (update_where P (set_target now t)) (targets_t d)\<rparr>
          in if affected P (rows (targets_t d)) = 0 then (d, Inl ErrNotFound)
             else (case select_target d1 (t_id t) of
                     None \<Rightarrow> (d, Inl (ErrDB ''read updated target''))
                   | Some updated \<Rightarrow>
                       (case insertRevision now d1 (t_id t) act updated of
                          None \<Rightarrow> (d, Inl (ErrDB ''insert revision''))
                        | Some d2 \<Rightarrow> (d2, Inr ()))))"

definition UpdateTarget :: "fault \<Rightarrow> string \<Rightarrow> db \<Rightarrow> target \<Rightarrow> db \<times> unit res" where
  "UpdateTarget flt now d t = updateTargetWithAction flt now d t AUpdate"

definition RevertTarget :: "fault \<Rightarrow> string \<Rightarrow> db \<Rightarrow> target \<Rightarrow> db \<times> unit res" where
  "RevertTarget flt now d t = updateTargetWithAction flt now d t ARevert"

text \<open>
  \<open>DELETE FROM targets\<close> with the foreign keys that reference it: schedule entries and
  notification states cascade, results keep their row and lose the reference.
\<close>

definition delete_target_row :: "db \<Rightarrow> int \<Rightarrow> db" where
  "delete_target_row d i =
     d\<lparr>targets_t := map_rows (delete_where (\<lambda>r. t_id r = i)) (targets_t d),
       schedule_targets_t := delete_where (\<lambda>x. st_target_id x = i) (schedule_targets_t d),
       results_t := map_rows (update_where (\<lambda>x. res_target_id x = Some i) (\<lambda>x. x\<lparr>res_target_id := None\<rparr>)) (results_t d),
       notification_state_t := (\<lambda>(t, m). if t = i then None else notification_state_t d (t, m))\<rparr>"

definition DeleteTarget :: "fault \<Rightarrow> string \<Rightarrow> db \<Rightarrow> int \<Rightarrow> db \<times> unit res" where
  "DeleteTarget flt now d i =
     (case flt of
        Some e \<Rightarrow> (d, Inl (ErrDB e))
      | None \<Rightarrow>
          (case select_target d i of
             None \<Rightarrow> (d, Inl ErrNotFound)
           | Some before \<Rightarrow>
               let d1 = delete_target_row d i in
               if affected (\<lambda>r. t_id r = i) (rows (targets_t d)) = 0 then (d, Inl ErrNotFound)
               else (case insertRevision now d1 i ADelete before of
                       None \<Rightarrow> (d, Inl (ErrDB ''insert delete revision''))
                     | Some d2 \<Rightarrow> (d2, Inr ()))))"

definition sql_mod :: "int \<Rightarrow> int \<Rightarrow> int" where
  "sql_mod a n = sgn a * (\<bar>a\<bar> mod \<bar>n\<bar>)"

definition NextRotationIndex :: "fault \<Rightarrow> db \<Rightarrow> int \<Rightarrow> int \<Rightarrow> db \<times> int res" where
  "NextRotationIndex flt d i n =
     (if n \<le> 0 then (d, Inl (ErrDB ''next rotation index: n must be positive''))
      else case flt of
             Some e \<Rightarrow> (d, Inl (ErrDB e))
           | None \<Rightarrow>
               (case find (\<lambda>r. t_id r = i) (rows (targets_t d)) of
                  None \<Rightarrow> (d, Inl ErrNotFound)
                | Some r \<Rightarrow>
                    (d\<lparr>targets_t := map_rows (update_where (\<lambda>r. t_id r = i)
                         (\<lambda>r. r\<lparr>t_rotation_index := t_rotation_index r + 1\<rparr>)) (targets_t d)\<rparr>,
                     Inr (sql_mod (t_rotation_index r) n))))"

subsection \<open>Deleted targets and restoring them\<close>

text \<open>The newest revision of a target, when it is a deletion and no live row exists.\<close>

definition latest_delete :: "db \<Rightarrow> int \<Rightarrow> revision option" where
  "latest_delete d i =
     (if \<exists>r\<in>set (rows (targets_t d)). t_id r = i then None
      else find (\<lambda>v. rev_target_id v = i \<and> rev_version v = max_version d i \<and> rev_action v = ADelete)
             (rows (revisions_t d)))"

definition LatestDeletedSnapshot :: "fault \<Rightarrow> db \<Rightarrow> int \<Rightarrow> target res" where
  "LatestDeletedSnapshot flt d i =
     (case flt of
        Some e \<Rightarrow> Inl (ErrDB e)
      | None \<Rightarrow>
          (case latest_delete d i of
             None \<Rightarrow> Inl ErrNotFound
           | Some v \<Rightarrow>
               (case unmarshalTarget (rev_snapshot v) of
                  None \<Rightarrow> Inl (ErrDB ''unmarshal deleted target snapshot'')
                | Some t \<Rightarrow>
                    (case ResolveSnapshotQueueID None d (rev_snapshot v) of
                       Inl e \<Rightarrow> Inl e
                     | Inr qid \<Rightarrow> Inr (t\<lparr>t_queue_id := qid\<rparr>)))))"

record deleted_target =
  dt_id :: int
  dt_name :: string
  dt_engine :: string
  dt_queue_name :: string
  dt_deleted_at :: string
  dt_version :: int

text \<open>The loop of \<open>ListDeletedTargets\<close>; it ends at the first snapshot that does not decode.\<close>

fun deleted_loop :: "queue_lookup \<Rightarrow> revision list \<Rightarrow> deleted_target list res" where
  "deleted_loop l [] = Inr []"
| "deleted_loop l (v # vs) =
     (case unmarshalTarget (rev_snapshot v) of
        None \<Rightarrow> Inl (ErrDB ''unmarshal deleted target snapshot'')
      | Some t \<Rightarrow>
          (case deleted_loop l vs of
             Inl e \<Rightarrow> Inl e
           | Inr out \<Rightarrow>
               Inr (\<lparr>dt_id = rev_target_id v, dt_name = t_name t, dt_engine = t_engine t,
                     dt_queue_name = (case ql_by_id l (resolve l (rev_snapshot v)) of None \<Rightarrow> '''' | Some q \<Rightarrow> q_name q),
                     dt_deleted_at = rev_created_at v, dt_version = rev_version v\<rparr> # out)))"

text \<open>\<open>ORDER BY created_at DESC\<close>; rows with the same text stay in table order.\<close>

definition deleted_revisions :: "db \<Rightarrow> revision list" where
  "deleted_revisions d =
     rev (sort_key rev_created_at (rev (filter (\<lambda>v. rev_version v = max_version d (rev_target_id v) \<and> rev_action v = ADelete \<and>
        \<not> (\<exists>r\<in>set (rows (targets_t d)). t_id r = rev_target_id v)) (rows (revisions_t d)))))"

text \<open>\<open>flt\<close> and \<open>flt2\<close> are the outcomes of the two queries, in order.\<close>

definition ListDeletedTargets :: "fault \<Rightarrow> fault \<Rightarrow> db \<Rightarrow> deleted_target list res" where
  "ListDeletedTargets flt flt2 d =
     (case loadQueueLookup flt d of
        Inl e \<Rightarrow> Inl (ErrDB ''list deleted targets'')
      | Inr l \<Rightarrow> (case flt2 of Some e \<Rightarrow> Inl (ErrDB e) | None \<Rightarrow> deleted_loop l (deleted_revisions d)))"

definition RestoreTarget :: "fault \<Rightarrow> string \<Rightarrow> db \<Rightarrow> target \<Rightarrow> db \<times> target res" where
  "RestoreTarget flt now d t =
     (case flt of
        Some e \<Rightarrow> (d, Inl (ErrDB e))
      | None \<Rightarrow>
          if \<exists>r\<in>set (rows (targets_t d)). t_id r = t_id t then (d, Inl ErrIDConflict)
          else
            let row = \<lparr>t_id = t_id t, t_name = t_name t, t_engine = t_engine t, t_enabled = t_enabled t,
                       t_queue_id = t_queue_id t, t_options = rawOrEmpty (t_options t),
                       t_thresholds = rawOrEmpty (t_thresholds t), t_rotation_index = 0,
                       t_created_at = t_created_at t, t_updated_at = now\<rparr>;
                d1 = d\<lparr>targets_t := \<lparr>rows = rows (targets_t d) @ [row],
                                     seq = max (seq (targets_t d)) (t_id t)\<rparr>\<rparr>
            in (case select_target d1 (t_id t) of
                  None \<Rightarrow> (d, Inl (ErrDB ''read restored target''))
                | Some restored \<Rightarrow>
                    (case insertRevision now d1 (t_id t) ARestore restored of
                       None \<Rightarrow> (d, Inl (ErrDB ''insert restore revision''))
                     | Some d2 \<Rightarrow> (d2, Inr restored))))"

subsection \<open>Revision history\<close>

definition versions :: "db \<Rightarrow> int \<Rightarrow> int list" where
  "versions d i = map rev_version (filter (\<lambda>v. rev_target_id v = i) (rows (revisions_t d)))"

text \<open>The versions kept for a target are a block of at most 50 consecutive numbers.\<close>

definition history_ok :: "db \<Rightarrow> bool" where
  "history_ok d \<longleftrightarrow>
     (\<forall>i. \<exists>a b. versions d i = [a + 1..b] \<and> 0 \<le> a \<and> a \<le> b \<and> b - a \<le> maxTargetRevisions)"

lemma filter_upto: "filter (\<lambda>v. \<not> v \<le> c) [a..b] = [max a (c + 1)..(b::int)]"
proof (induction a b rule: upto.induct)
  case (1 i j)
  show ?case
  proof (cases "i \<le> j")
    case True
    with 1 have "filter (\<lambda>v. \<not> v \<le> c) [i..j] =
        (if i \<le> c then [max (i + 1) (c + 1)..j] else i # [max (i + 1) (c + 1)..j])"
      by (simp add: upto_rec1 [OF True])
    moreover have "\<not> i \<le> c \<Longrightarrow> max i (c + 1) = i" by simp
    moreover have "i \<le> c \<Longrightarrow> max (i + 1) (c + 1) = max i (c + 1)" by simp
    moreover have "\<not> i \<le> c \<Longrightarrow> i # [max (i + 1) (c + 1)..j] = [i..j]"
      by (simp add: upto_rec1 [OF True])
    ultimately show ?thesis by (cases "i \<le> c") simp_all
  qed simp
qed

lemma fold_max_upto: "0 \<le> a \<Longrightarrow> a < b \<Longrightarrow> fold max [a + 1..b] 0 = (b::int)"
proof -
  assume ab: "0 \<le> a" "a < b"
  have up: "[a + 1..b] = [a + 1..b - 1] @ [b]" using ab by (simp add: upto_rec2)
  have le: "fold max xs m \<le> n" if "m \<le> n" "\<forall>x\<in>set xs. x \<le> n" for xs and m n :: int
    using that by (induction xs arbitrary: m) auto
  have "fold max [a + 1..b - 1] 0 \<le> b" using ab by (intro le) auto
  then show ?thesis unfolding up by simp
qed

lemma max_version_versions: "max_version d i = fold max (versions d i) 0"
  by (simp add: max_version_def versions_def)

lemma versions_insertRevision:
  assumes "insertRevision now d i act snap = Some d'"
  shows "versions d' j =
    (if j = i then filter (\<lambda>v. \<not> v \<le> max_version d i + 1 - maxTargetRevisions) (versions d i @ [max_version d i + 1])
     else versions d j)"
proof (cases "marshalTarget snap")
  case (Some body)
  let ?n = "max_version d i + 1"
  let ?new = "\<lambda>k. \<lparr>rev_id = k, rev_target_id = i, rev_version = ?n, rev_action = act,
                   rev_snapshot = RawDoc body, rev_created_at = now\<rparr>"
  from assms Some have d': "d' = d\<lparr>revisions_t := map_rows (delete_where
      (\<lambda>v. rev_target_id v = i \<and> rev_version v \<le> ?n - maxTargetRevisions)) (insert_row ?new (revisions_t d))\<rparr>"
    by (simp add: insertRevision_def Let_def)
  have eq: "map rev_version (filter (\<lambda>v. rev_target_id v = j)
      (filter (\<lambda>v. \<not> (rev_target_id v = i \<and> rev_version v \<le> m)) rs)) =
    (if j = i then filter (\<lambda>v. \<not> v \<le> m) (map rev_version (filter (\<lambda>v. rev_target_id v = i) rs))
     else map rev_version (filter (\<lambda>v. rev_target_id v = j) rs))" for m and rs :: "revision list"
    by (induction rs) auto
  have rows: "rows (revisions_t d') = filter (\<lambda>v. \<not> (rev_target_id v = i \<and> rev_version v \<le> ?n - maxTargetRevisions))
      (rows (revisions_t d) @ [?new (seq (revisions_t d) + 1)])"
    by (simp add: d' delete_where_def)
  show ?thesis unfolding versions_def rows eq by simp
qed (use assms in \<open>simp add: insertRevision_def\<close>)

lemma history_block:
  assumes "0 \<le> a" "a \<le> b" "b - a \<le> k" "0 < (k::int)" "m = (if a = b then 0 else b)"
  shows "\<exists>a' b'. filter (\<lambda>v. \<not> v \<le> m + 1 - k) ([a + 1..b] @ [m + 1]) = [a' + 1..b'] \<and>
     0 \<le> a' \<and> a' \<le> b' \<and> b' - a' \<le> k \<and> b' = m + 1 \<and> a' < b'"
proof (cases "a = b")
  case True
  with assms show ?thesis by (intro exI [of _ 0] exI [of _ 1]) auto
next
  case False
  with assms have "[a + 1..b] @ [m + 1] = [a + 1..b + 1]" by (simp add: upto_rec2)
  then have "filter (\<lambda>v. \<not> v \<le> m + 1 - k) ([a + 1..b] @ [m + 1]) = [max (a + 1) (b + 1 - k + 1)..b + 1]"
    using False assms(5) by (simp only: filter_upto if_False)
  then show ?thesis using False assms
    by (intro exI [of _ "max a (b + 1 - k)"] exI [of _ "b + 1"]) (auto simp: max_def)
qed

lemma insertRevision_block:
  assumes "history_ok d" "insertRevision now d i act snap = Some d'"
  obtains a b where "versions d' i = [a + 1..b]" "0 \<le> a" "a < b" "b - a \<le> maxTargetRevisions"
    "b = max_version d i + 1"
proof -
  obtain a b where ab: "versions d i = [a + 1..b]" "0 \<le> a" "a \<le> b" "b - a \<le> maxTargetRevisions"
    using assms(1) unfolding history_ok_def by blast
  have m: "max_version d i = (if a = b then 0 else b)"
    using ab fold_max_upto [of a b] by (auto simp: max_version_versions)
  show ?thesis
    using history_block [OF ab(2-4) _ m] versions_insertRevision [OF assms(2), of i] ab(1) that
    by (auto simp: maxTargetRevisions_def)
qed

lemma history_ok_insert:
  assumes "history_ok d" "insertRevision now d i act snap = Some d'"
  shows "history_ok d'"
  unfolding history_ok_def
proof
  fix j show "\<exists>a b. versions d' j = [a + 1..b] \<and> 0 \<le> a \<and> a \<le> b \<and> b - a \<le> maxTargetRevisions"
  proof (cases "j = i")
    case True
    from insertRevision_block [OF assms] True show ?thesis by (metis less_imp_le)
  next
    case False
    with versions_insertRevision [OF assms(2), of j] assms(1) show ?thesis unfolding history_ok_def by simp
  qed
qed

text \<open>Every revision write keeps the change history of every target a block of at most 50
  consecutive versions whose newest is one more than the newest before; the histories of
  other targets are untouched.\<close>

theorem revision_history_bounded:
  assumes "history_ok d" and "insertRevision now d i act snap = Some d'"
  shows "history_ok d' \<and> length (versions d' i) \<le> 50 \<and> versions d' i \<noteq> [] \<and>
         last (versions d' i) = max_version d i + 1 \<and> (\<forall>j. j \<noteq> i \<longrightarrow> versions d' j = versions d j)"
proof -
  obtain a b where n: "versions d' i = [a + 1..b]" "0 \<le> a" "a < b" "b - a \<le> maxTargetRevisions"
    "b = max_version d i + 1"
    by (rule insertRevision_block [OF assms])
  have "versions d' i \<noteq> []" "last (versions d' i) = max_version d i + 1"
    using n upto_rec2 [of "a + 1" b] by auto
  with n history_ok_insert [OF assms] versions_insertRevision [OF assms(2)] show ?thesis
    by (simp add: maxTargetRevisions_def)
qed

definition demo_target :: target where
  "demo_target = \<lparr>t_id = 1, t_name = ''home'', t_engine = ''iperf3'', t_enabled = True, t_queue_id = 1,
     t_options = RawDoc (JObj [(''host'', JStr ''a'')]), t_thresholds = RawDoc (JObj []),
     t_rotation_index = 0, t_created_at = ''t0'', t_updated_at = ''t0'', t_queue_name = ''wan''\<rparr>"

definition seeded_db :: db where
  "seeded_db = empty_db\<lparr>queues_t := \<lparr>rows = [\<lparr>q_id = 1, q_name = ''wan'', q_created_at = ''t0''\<rparr>,
     \<lparr>q_id = 2, q_name = ''lan'', q_created_at = ''t0''\<rparr>], seq = 2\<rparr>\<rparr>"

lemma history_ok_seeded: "history_ok seeded_db"
  by (auto simp: history_ok_def versions_def seeded_db_def empty_db_def empty_tbl_def maxTargetRevisions_def
      intro!: exI [of _ "0::int"])

theorem revision_history_bounded_witness:
  "\<exists>d'. insertRevision ''t'' seeded_db 1 ACreate demo_target = Some d' \<and> history_ok d' \<and>
     last (versions d' 1) = 1"
proof -
  obtain d' where d': "insertRevision ''t'' seeded_db 1 ACreate demo_target = Some d'"
    by (simp add: insertRevision_def marshalTarget_def demo_target_def Let_def)
  have "max_version seeded_db 1 = 0"
    by (simp add: max_version_def seeded_db_def empty_db_def empty_tbl_def)
  with d' revision_history_bounded [OF history_ok_seeded d'] show ?thesis by auto
qed

subsection \<open>Snapshots round trip\<close>

lemma ToLower_fields:
  "ToLower ''id'' = ''id''" "ToLower ''name'' = ''name''" "ToLower ''engine'' = ''engine''"
  "ToLower ''enabled'' = ''enabled''" "ToLower ''queue_id'' = ''queue_id''"
  "ToLower ''queue_name'' = ''queue_name''" "ToLower ''options'' = ''options''"
  "ToLower ''thresholds'' = ''thresholds''" "ToLower ''rotation_index'' = ''rotation_index''"
  "ToLower ''created_at'' = ''created_at''" "ToLower ''updated_at'' = ''updated_at''"
  "ToLower ''lane'' = ''lane''"
  by code_simp+

definition int64_range :: "int \<Rightarrow> bool" where
  "int64_range i \<longleftrightarrow> - (2^63) \<le> i \<and> i < 2^63"

definition target_in_range :: "target \<Rightarrow> bool" where
  "target_in_range t \<longleftrightarrow> int64_range (t_id t) \<and> int64_range (t_queue_id t) \<and> int64_range (t_rotation_index t)"

lemma unmarshal_marshalTarget:
  assumes "marshalTarget t = Some j" "target_in_range t"
  shows "unmarshalTarget (RawDoc j) = Some t"
proof -
  obtain opts thr where raw: "t_options t = RawDoc opts" "t_thresholds t = RawDoc thr"
    using assms(1) by (auto simp: marshalTarget_def split: raw.splits)
  show ?thesis
    using assms raw
    by (auto simp: marshalTarget_def unmarshalTarget_def dec_scalar_def dec_raw_def field_vals_def
        EqualFold_def ToLower_fields target_in_range_def int64_range_def)
qed

lemma resolve_marshalTarget:
  assumes "marshalTarget t = Some j" "target_in_range t" "t_queue_id t \<noteq> 0"
    "ql_by_id l (t_queue_id t) \<noteq> None"
  shows "resolve l (RawDoc j) = t_queue_id t"
proof -
  obtain opts thr where raw: "t_options t = RawDoc opts" "t_thresholds t = RawDoc thr"
    using assms(1) by (auto simp: marshalTarget_def split: raw.splits)
  show ?thesis
    using assms raw
    by (auto simp: marshalTarget_def resolve_def dec_scalar_def field_vals_def
        EqualFold_def ToLower_fields target_in_range_def int64_range_def)
qed

lemma fold_max_ge: "m \<le> fold max xs m \<and> (\<forall>x\<in>set xs. x \<le> fold max xs (m::int))"
  by (induction xs arbitrary: m) (auto, (meson le_max_iff_disj max.bounded_iff order.trans)+)

lemma fold_max_le: "m \<le> n \<Longrightarrow> \<forall>x\<in>set xs. x \<le> n \<Longrightarrow> fold max xs m \<le> (n::int)"
  by (induction xs arbitrary: m) auto

lemma version_le_max: "v \<in> set (rows (revisions_t d)) \<Longrightarrow> rev_target_id v = i \<Longrightarrow> rev_version v \<le> max_version d i"
  using fold_max_ge [of 0 "map rev_version (filter (\<lambda>v. rev_target_id v = i) (rows (revisions_t d)))"]
  by (auto simp: max_version_def)

lemma max_version_nonneg: "0 \<le> max_version d i"
  using fold_max_ge by (auto simp: max_version_def)

lemma insertRevision_newest:
  assumes "insertRevision now d i act snap = Some d'" "marshalTarget snap = Some body"
  shows "max_version d' i = max_version d i + 1"
    and "find (\<lambda>v. rev_target_id v = i \<and> rev_version v = max_version d i + 1 \<and> P v) (rows (revisions_t d')) =
      (let v = \<lparr>rev_id = seq (revisions_t d) + 1, rev_target_id = i, rev_version = max_version d i + 1,
                rev_action = act, rev_snapshot = RawDoc body, rev_created_at = now\<rparr>
       in if P v then Some v else None)"
proof -
  let ?n = "max_version d i + 1"
  let ?new = "\<lparr>rev_id = seq (revisions_t d) + 1, rev_target_id = i, rev_version = ?n,
                rev_action = act, rev_snapshot = RawDoc body, rev_created_at = now\<rparr>"
  let ?Q = "\<lambda>v. \<not> (rev_target_id v = i \<and> rev_version v \<le> ?n - maxTargetRevisions)"
  have rows: "rows (revisions_t d') = filter ?Q (rows (revisions_t d)) @ [?new]"
    using assms by (auto simp: insertRevision_def Let_def delete_where_def maxTargetRevisions_def)
  have old: "rev_version v < ?n" if "v \<in> set (filter ?Q (rows (revisions_t d)))" "rev_target_id v = i" for v
    using that version_le_max [of v d i] by auto
  have "fold max (versions d' i) 0 = ?n"
  proof (rule antisym)
    show "fold max (versions d' i) 0 \<le> ?n"
      using old max_version_nonneg [of d i] by (intro fold_max_le) (auto simp: versions_def rows less_imp_le)
    show "?n \<le> fold max (versions d' i) 0"
      using fold_max_ge [of 0 "versions d' i"] by (simp add: versions_def rows)
  qed
  then show "max_version d' i = ?n" by (simp add: max_version_versions)
  have "find (\<lambda>v. rev_target_id v = i \<and> rev_version v = ?n \<and> P v) (filter ?Q (rows (revisions_t d))) = None"
    unfolding find_None
  proof (intro ballI notI, elim conjE)
    fix v assume "v \<in> set (filter ?Q (rows (revisions_t d)))" "rev_target_id v = i" "rev_version v = ?n"
    with old [of v] show False by linarith
  qed
  then show "find (\<lambda>v. rev_target_id v = i \<and> rev_version v = ?n \<and> P v) (rows (revisions_t d')) =
      (let v = ?new in if P v then Some v else None)"
    unfolding rows find_append by simp
qed

lemma insertRevision_frame:
  assumes "insertRevision now d i act snap = Some d'"
  shows "targets_t d' = targets_t d" "queues_t d' = queues_t d" "runs_t d' = runs_t d"
    "schedules_t d' = schedules_t d" "schedule_targets_t d' = schedule_targets_t d" "results_t d' = results_t d"
  using assms by (auto simp: insertRevision_def Let_def split: option.splits)

subsection \<open>Target rows\<close>

definition targets_ok :: "db \<Rightarrow> bool" where
  "targets_ok d \<longleftrightarrow> distinct (map t_id (rows (targets_t d))) \<and>
     (\<forall>r\<in>set (rows (targets_t d)). t_id r \<le> seq (targets_t d))"

lemma scanTarget_sel:
  assumes "scanTarget d r = Some t"
  shows "t_id t = t_id r" "t_name t = t_name r" "t_engine t = t_engine r" "t_enabled t = t_enabled r"
    "t_queue_id t = t_queue_id r" "t_options t = t_options r" "t_thresholds t = t_thresholds r"
    "t_rotation_index t = t_rotation_index r" "t_created_at t = t_created_at r"
    "t_updated_at t = t_updated_at r" "\<exists>q\<in>set (rows (queues_t d)). q_id q = t_queue_id r"
  using assms by (auto simp: scanTarget_def split: option.splits dest!: find_SomeD)

lemma select_target_Some:
  assumes "select_target d i = Some t"
  shows "\<exists>r\<in>set (rows (targets_t d)). t_id r = i \<and> scanTarget d r = Some t"
  using assms by (auto simp: select_target_def split: option.splits dest!: find_SomeD)

lemma scanTarget_queues: "queues_t d' = queues_t d \<Longrightarrow> scanTarget d' r = scanTarget d r"
  by (simp add: scanTarget_def)

lemma queues_ok_targets:
  assumes "queues_ok d" "queues_t d' = queues_t d"
    and "\<And>t. t \<in> set (rows (targets_t d')) \<Longrightarrow>
      t_queue_id t \<in> t_queue_id ` set (rows (targets_t d)) \<or> (\<exists>q\<in>set (rows (queues_t d)). q_id q = t_queue_id t)"
  shows "queues_ok d'"
proof -
  have "\<exists>q\<in>set (rows (queues_t d)). q_id q = t_queue_id t" if "t \<in> set (rows (targets_t d'))" for t
    using assms(3) [OF that] assms(1) unfolding queues_ok_def by (metis imageE)
  with assms(1,2) show ?thesis by (simp add: queues_ok_def)
qed

lemma queues_ok_CreateTarget:
  assumes "queues_ok d" "targets_ok d"
  shows "queues_ok (fst (CreateTarget flt now d t))"
proof (cases "fst (CreateTarget flt now d t) = d")
  case False
  define row where "row = (\<lambda>k. \<lparr>t_id = k, t_name = t_name t, t_engine = t_engine t, t_enabled = t_enabled t,
     t_queue_id = t_queue_id t, t_options = rawOrEmpty (t_options t), t_thresholds = rawOrEmpty (t_thresholds t),
     t_rotation_index = 0, t_created_at = now, t_updated_at = now\<rparr>)"
  define d1 where "d1 = d\<lparr>targets_t := insert_row row (targets_t d)\<rparr>"
  let ?i = "seq (targets_t d) + 1"
  from False obtain c d2 where sel: "select_target d1 ?i = Some c"
    and ins: "insertRevision now d1 ?i ACreate c = Some d2" and d2: "fst (CreateTarget flt now d t) = d2"
    by (auto simp: CreateTarget_def Let_def d1_def row_def split: option.splits)
  have q: "\<exists>q\<in>set (rows (queues_t d)). q_id q = t_queue_id t"
  proof -
    from select_target_Some [OF sel] obtain r where r: "r \<in> set (rows (targets_t d1))" "t_id r = ?i"
      "scanTarget d1 r = Some c" by blast
    have "r = row ?i" using r(1,2) assms(2) by (fastforce simp: d1_def targets_ok_def)
    with scanTarget_sel(11) [OF r(3)] show ?thesis by (simp add: row_def d1_def)
  qed
  show ?thesis unfolding d2
    by (rule queues_ok_targets [OF assms(1)])
       (use insertRevision_frame [OF ins] q in \<open>auto simp: d1_def row_def\<close>)
qed (use assms in simp)

lemma queues_ok_updateTarget:
  assumes "queues_ok d"
  shows "queues_ok (fst (updateTargetWithAction flt now d t act))"
proof (cases "fst (updateTargetWithAction flt now d t act) = d")
  case False
  define d1 where "d1 = d\<lparr>targets_t := map_rows (update_where (\<lambda>r. t_id r = t_id t) (set_target now t)) (targets_t d)\<rparr>"
  from False obtain u d2 where sel: "select_target d1 (t_id t) = Some u"
    and ins: "insertRevision now d1 (t_id t) act u = Some d2"
    and d2: "fst (updateTargetWithAction flt now d t act) = d2"
    by (auto simp: updateTargetWithAction_def Let_def d1_def split: option.splits if_splits)
  from select_target_Some [OF sel] obtain r where r: "r \<in> set (rows (targets_t d1))" "t_id r = t_id t"
    "scanTarget d1 r = Some u" by blast
  have "t_queue_id r = t_queue_id t"
    using r(1,2) by (auto simp: d1_def set_update_where set_target_def)
  with scanTarget_sel(11) [OF r(3)] have q: "\<exists>q\<in>set (rows (queues_t d)). q_id q = t_queue_id t"
    by (simp add: d1_def)
  show ?thesis unfolding d2
    by (rule queues_ok_targets [OF assms(1)])
       (use insertRevision_frame [OF ins] q in \<open>auto simp: d1_def set_update_where set_target_def\<close>)
qed (use assms in simp)

lemma queues_ok_DeleteTarget:
  assumes "queues_ok d"
  shows "queues_ok (fst (DeleteTarget flt now d i))"
proof (cases "fst (DeleteTarget flt now d i) = d")
  case False
  then obtain b d2 where ins: "insertRevision now (delete_target_row d i) i ADelete b = Some d2"
    and d2: "fst (DeleteTarget flt now d i) = d2"
    by (auto simp: DeleteTarget_def Let_def split: option.splits if_splits)
  show ?thesis unfolding d2
    by (rule queues_ok_targets [OF assms(1)])
       (use insertRevision_frame [OF ins] in \<open>auto simp: delete_target_row_def delete_where_def\<close>)
qed (use assms in simp)

lemma queues_ok_RestoreTarget:
  assumes "queues_ok d"
  shows "queues_ok (fst (RestoreTarget flt now d t))"
proof (cases "fst (RestoreTarget flt now d t) = d")
  case False
  define row where "row = \<lparr>t_id = t_id t, t_name = t_name t, t_engine = t_engine t, t_enabled = t_enabled t,
     t_queue_id = t_queue_id t, t_options = rawOrEmpty (t_options t), t_thresholds = rawOrEmpty (t_thresholds t),
     t_rotation_index = 0, t_created_at = t_created_at t, t_updated_at = now\<rparr>"
  define d1 where "d1 = d\<lparr>targets_t := \<lparr>rows = rows (targets_t d) @ [row], seq = max (seq (targets_t d)) (t_id t)\<rparr>\<rparr>"
  from False obtain c d2 where sel: "select_target d1 (t_id t) = Some c"
    and new: "\<forall>r\<in>set (rows (targets_t d)). t_id r \<noteq> t_id t"
    and ins: "insertRevision now d1 (t_id t) ARestore c = Some d2" and d2: "fst (RestoreTarget flt now d t) = d2"
    by (auto simp: RestoreTarget_def Let_def d1_def row_def split: option.splits if_splits)
  from select_target_Some [OF sel] obtain r where r: "r \<in> set (rows (targets_t d1))" "t_id r = t_id t"
    "scanTarget d1 r = Some c" by blast
  have "r = row" using r(1,2) new by (auto simp: d1_def)
  with scanTarget_sel(11) [OF r(3)] have q: "\<exists>q\<in>set (rows (queues_t d)). q_id q = t_queue_id t"
    by (simp add: row_def d1_def)
  show ?thesis unfolding d2
    by (rule queues_ok_targets [OF assms(1)])
       (use insertRevision_frame [OF ins] q in \<open>auto simp: d1_def row_def\<close>)
qed (use assms in simp)

end
