(* ===== verification/Drop_Oldest.thy ===== *)
theory Drop_Oldest
  imports Bounded_Buffer
begin

text \<open>
  The hand-over queue of the notifier and of the metrics writer (\<open>OnResult\<close> of
  \<open>internal/notify/notifier.go\<close> and \<open>internal/vmpush/writer.go\<close>): a buffered channel whose sender, when it is
  full, discards the oldest element and tries again, in three separate channel operations. \<open>offer\<close> is the three in
  a row; \<open>dq_step\<close> interleaves the operations of several senders with the receiving worker.
\<close>

subsection \<open>One sender\<close>

record 'e dq =
  dq_items :: "'e list"
  dq_cap :: nat
  dq_dropped :: nat

text \<open>\<open>QueueCap\<close> and \<open>RingSize\<close> default when not positive.\<close>

definition dq_new :: "nat \<Rightarrow> int \<Rightarrow> 'e dq" where
  "dq_new dflt cap = \<lparr>dq_items = [], dq_cap = (if cap \<le> 0 then dflt else nat cap), dq_dropped = 0\<rparr>"

text \<open>The three selects: a send that may find the channel full (\<open>False\<close>), a receive that discards, and
  the second send, which counts the element itself as lost when it fails.\<close>

definition sel_send :: "'e \<Rightarrow> 'e dq \<Rightarrow> 'e dq \<times> bool" where
  "sel_send e q = (if length (dq_items q) < dq_cap q then (q\<lparr>dq_items := dq_items q @ [e]\<rparr>, True) else (q, False))"

definition sel_discard :: "'e dq \<Rightarrow> 'e dq" where
  "sel_discard q = (case dq_items q of [] \<Rightarrow> q | x # xs \<Rightarrow> q\<lparr>dq_items := xs, dq_dropped := Suc (dq_dropped q)\<rparr>)"

definition sel_retry :: "'e \<Rightarrow> 'e dq \<Rightarrow> 'e dq" where
  "sel_retry e q = (case sel_send e q of (q', True) \<Rightarrow> q' | (q', False) \<Rightarrow> q'\<lparr>dq_dropped := Suc (dq_dropped q')\<rparr>)"

definition offer :: "'e \<Rightarrow> 'e dq \<Rightarrow> 'e dq" where
  "offer e q = (case sel_send e q of (q', True) \<Rightarrow> q' | (q', False) \<Rightarrow> sel_retry e (sel_discard q'))"

definition take_one :: "'e dq \<Rightarrow> 'e option \<times> 'e dq" where
  "take_one q = (case dq_items q of [] \<Rightarrow> (None, q) | x # xs \<Rightarrow> (Some x, q\<lparr>dq_items := xs\<rparr>))"

definition dq_ok :: "'e dq \<Rightarrow> bool" where
  "dq_ok q \<longleftrightarrow> 0 < dq_cap q \<and> length (dq_items q) \<le> dq_cap q"

lemma dq_new_sel [simp]: "dq_items (dq_new dflt cap) = []" "dq_dropped (dq_new dflt cap) = 0"
  by (simp_all add: dq_new_def)

lemma dq_new_cap: "dq_cap (dq_new dflt cap) = (if cap \<le> 0 then dflt else nat cap)"
  by (simp add: dq_new_def)

lemma dq_new_ok: "0 < dflt \<Longrightarrow> dq_ok (dq_new dflt cap)"
  by (simp add: dq_ok_def dq_new_def)

interpretation dq: drop_oldest offer take_one dq_items dq_dropped dq_cap dq_ok
proof unfold_locales
  fix q :: "'e dq" and e assume ok: "dq_ok q"
  then show "length (dq_items q) \<le> dq_cap q \<and> 0 < dq_cap q" by (simp add: dq_ok_def)
  show "dq_items (offer e q) = (if length (dq_items q) < dq_cap q then dq_items q else tl (dq_items q)) @ [e] \<and>
      dq_dropped (offer e q) = (if length (dq_items q) < dq_cap q then dq_dropped q else Suc (dq_dropped q)) \<and>
      dq_cap (offer e q) = dq_cap q \<and> dq_ok (offer e q)"
    using ok by (auto simp: offer_def sel_send_def sel_retry_def sel_discard_def dq_ok_def split: list.splits)
  show "fst (take_one q) = (case dq_items q of [] \<Rightarrow> None | x # xs \<Rightarrow> Some x) \<and>
      dq_items (snd (take_one q)) = tl (dq_items q) \<and> dq_dropped (snd (take_one q)) = dq_dropped q \<and>
      dq_cap (snd (take_one q)) = dq_cap q \<and> dq_ok (snd (take_one q))"
    using ok by (auto simp: take_one_def dq_ok_def split: list.splits)
qed

subsection \<open>Several senders and the worker\<close>

datatype 'e sender = Idle | Discarding 'e | Retrying 'e

datatype 'e dq_op = Send nat 'e | Advance nat | Receive

record 'e dq_sys =
  ds_q :: "'e dq"
  ds_pc :: "nat \<Rightarrow> 'e sender"
  ds_offered :: "'e list"
  ds_received :: "'e list"

fun dq_step :: "'e dq_op \<Rightarrow> 'e dq_sys \<Rightarrow> 'e dq_sys" where
  "dq_step (Send p e) s =
     (case ds_pc s p of
        Idle \<Rightarrow>
          (case sel_send e (ds_q s) of
             (q, sent) \<Rightarrow> s\<lparr>ds_q := q, ds_offered := ds_offered s @ [e],
                            ds_pc := (if sent then ds_pc s else (ds_pc s)(p := Discarding e))\<rparr>)
      | _ \<Rightarrow> s)"
| "dq_step (Advance p) s =
     (case ds_pc s p of
        Idle \<Rightarrow> s
      | Discarding e \<Rightarrow> s\<lparr>ds_q := sel_discard (ds_q s), ds_pc := (ds_pc s)(p := Retrying e)\<rparr>
      | Retrying e \<Rightarrow> s\<lparr>ds_q := sel_retry e (ds_q s), ds_pc := (ds_pc s)(p := Idle)\<rparr>)"
| "dq_step Receive s =
     (case take_one (ds_q s) of
        (None, q) \<Rightarrow> s
      | (Some e, q) \<Rightarrow> s\<lparr>ds_q := q, ds_received := ds_received s @ [e]\<rparr>)"

definition dq_start :: "'e dq \<Rightarrow> 'e dq_sys" where
  "dq_start q = \<lparr>ds_q = q, ds_pc = (\<lambda>p. Idle), ds_offered = [], ds_received = []\<rparr>"

definition busy :: "'e dq_sys \<Rightarrow> nat set" where
  "busy s = {p. ds_pc s p \<noteq> Idle}"

definition accounted :: "'e dq_sys \<Rightarrow> bool" where
  "accounted s \<longleftrightarrow> finite (busy s) \<and> length (dq_items (ds_q s)) \<le> dq_cap (ds_q s) \<and>
     length (ds_offered s) = length (ds_received s) + length (dq_items (ds_q s)) + dq_dropped (ds_q s) + card (busy s)"

lemma busy_Idle: "ds_pc s p = Idle \<Longrightarrow> p \<notin> busy s"
  by (simp add: busy_def)

lemma busy_upd:
  "busy (s\<lparr>ds_pc := (ds_pc s)(p := x)\<rparr>) = (if x = Idle then busy s - {p} else insert p (busy s))"
  by (auto simp: busy_def)

lemma accounted_step: "accounted s \<Longrightarrow> accounted (dq_step x s)"
proof (cases x)
  case (Send p e)
  assume a: "accounted s"
  show ?thesis
  proof (cases "ds_pc s p = Idle")
    case True
    then have "p \<notin> busy s" by (simp add: busy_def)
    show ?thesis
    proof (cases "length (dq_items (ds_q s)) < dq_cap (ds_q s)")
      case room: True
      have "busy (dq_step x s) = busy s" using Send True room by (simp add: busy_def sel_send_def)
      with a Send True room show ?thesis by (simp add: accounted_def sel_send_def)
    next
      case full: False
      have "busy (dq_step x s) = insert p (busy s)" using Send True full by (auto simp: busy_def sel_send_def)
      with a Send True full \<open>p \<notin> busy s\<close> show ?thesis by (simp add: accounted_def sel_send_def)
    qed
  next
    case False
    with a Send show ?thesis by (cases "ds_pc s p") auto
  qed
next
  case (Advance p)
  assume a: "accounted s"
  show ?thesis
  proof (cases "ds_pc s p")
    case Idle
    with a Advance show ?thesis by simp
  next
    case (Discarding e)
    then have "busy (s\<lparr>ds_q := q, ds_pc := (ds_pc s)(p := Retrying e)\<rparr>) = busy s" for q by (auto simp: busy_def)
    with a Advance Discarding show ?thesis by (auto simp: accounted_def sel_discard_def split: list.splits)
  next
    case (Retrying e)
    then have "p \<in> busy s" and b: "busy (s\<lparr>ds_q := q, ds_pc := (ds_pc s)(p := Idle)\<rparr>) = busy s - {p}" for q
      by (auto simp: busy_def)
    then have "finite (busy s) \<Longrightarrow> card (busy s) = Suc (card (busy s - {p}))" by (metis card.remove)
    with a Advance Retrying b show ?thesis by (auto simp: accounted_def sel_retry_def sel_send_def)
  qed
next
  case Receive
  assume a: "accounted s"
  have "busy (s\<lparr>ds_q := q, ds_received := r\<rparr>) = busy s" for q r by (simp add: busy_def)
  with a Receive show ?thesis by (auto simp: accounted_def take_one_def split: list.splits)
qed

lemma accounted_run: "accounted s \<Longrightarrow> accounted (fold dq_step ops s)"
  by (induction ops arbitrary: s) (auto simp: accounted_step)

subsection \<open>Properties\<close>

text \<open>However the senders' channel operations and the worker interleave, no result disappears silently: each one
  offered has been received, is queued, is counted as dropped, or is still in its sender's hands; and the queue
  never exceeds its capacity.\<close>

theorem every_result_is_accounted_for:
  "let s = fold dq_step ops (dq_start (dq_new dflt cap)) in
   length (ds_offered s) = length (ds_received s) + length (dq_items (ds_q s)) + dq_dropped (ds_q s) + card (busy s) \<and>
   length (dq_items (ds_q s)) \<le> dq_cap (ds_q s)"
proof -
  have "accounted (dq_start (dq_new dflt cap))" by (simp add: accounted_def dq_start_def dq_new_def busy_def)
  from accounted_run [OF this, of ops] show ?thesis by (simp add: accounted_def Let_def)
qed

text \<open>A sender that meets a stalled worker replaces old results by new ones: after any number of offers to an empty
  queue it holds the newest \<open>cap\<close> of them in order, and between receives nothing is reordered or duplicated: what was
  received followed by what is queued is a subsequence of what was offered, and the complete list when nothing was dropped.\<close>

theorem queue_keeps_the_newest:
  assumes "0 < dflt"
  shows "dq_items (fold offer es (dq_new dflt cap)) = drop (length es - (if cap \<le> 0 then dflt else nat cap)) es \<and>
    subseq (fst (buf_run offer take_one ops (dq_new dflt cap)) @ dq_items (snd (buf_run offer take_one ops (dq_new dflt cap)))) (puts ops) \<and>
    (dq_dropped (snd (buf_run offer take_one ops (dq_new dflt cap))) = 0 \<longrightarrow>
       fst (buf_run offer take_one ops (dq_new dflt cap)) @ dq_items (snd (buf_run offer take_one ops (dq_new dflt cap))) = puts ops)"
proof -
  note ok = dq_new_ok [OF assms, of cap]
  show ?thesis
    using dq.fill [OF ok, of es] dq.run_order [OF ok, of ops] dq.run_lossless [OF ok, of ops] by (simp add: dq_new_cap)
qed

theorem queue_keeps_the_newest_witness:
  "dq_items (fold offer [1, 2, 3, 4, 5 :: nat] (dq_new 256 3)) = [3, 4, 5]"
  using queue_keeps_the_newest [of 256 "[1, 2, 3, 4, 5 :: nat]" 3 "[]"] by (simp add: dq_new_def)

end
