(* ===== verification/Notifier.thy ===== *)
theory Notifier
  imports Settings Target_Store Drop_Oldest
begin

text \<open>
  The notifier: \<open>internal/notify/notifier.go\<close>, \<open>channels.go\<close> (delivery) and
  \<open>internal/store/notifications.go\<close>. HTTP and the apprise library are the record \<open>net\<close>. The worker's
  part, \<open>process\<close>, is one definition per function of the source; \<open>nf_log\<close> records the messages handed
  to \<open>deliver\<close>, oldest first. The queue in front of the worker is modelled at the granularity of its
  channel operations, because several queue workers call \<open>OnResult\<close> at once.
\<close>

subsection \<open>Stored alert state\<close>

definition GetNotifyState :: "fault \<Rightarrow> db \<Rightarrow> int \<Rightarrow> string \<Rightarrow> notify_state option res" where
  "GetNotifyState flt d tid m =
     (case flt of Some e \<Rightarrow> Inl (ErrDB e) | None \<Rightarrow> Inr (notification_state_t d (tid, m)))"

text \<open>The upsert; \<open>target_id\<close> is a foreign key.\<close>

definition SetNotifyState :: "fault \<Rightarrow> db \<Rightarrow> int \<Rightarrow> string \<Rightarrow> notify_state \<Rightarrow> db \<times> unit res" where
  "SetNotifyState flt d tid m st =
     (case flt of
        Some e \<Rightarrow> (d, Inl (ErrDB e))
      | None \<Rightarrow>
          if \<not> (\<exists>t\<in>set (rows (targets_t d)). t_id t = tid) then (d, Inl (ErrDB ''FOREIGN KEY constraint failed''))
          else (d\<lparr>notification_state_t := (notification_state_t d)((tid, m) \<mapsto> st)\<rparr>, Inr ()))"

definition ClearNotifyState :: "fault \<Rightarrow> db \<Rightarrow> int \<Rightarrow> string \<Rightarrow> db \<times> unit res" where
  "ClearNotifyState flt d tid m =
     (case flt of
        Some e \<Rightarrow> (d, Inl (ErrDB e))
      | None \<Rightarrow> (d\<lparr>notification_state_t := (notification_state_t d)((tid, m) := None)\<rparr>, Inr ()))"

subsection \<open>Channels\<close>

datatype notify_type = NotifySuccess | NotifyInfo | NotifyFailure | NotifyWarning

definition mapNotifyType :: "message \<Rightarrow> notify_type" where
  "mapNotifyType m =
     (if msg_kind m = ''recovery'' then NotifySuccess
      else if msg_kind m = ''result'' \<and> msg_metric m \<noteq> Some MetricFailure then NotifyInfo
      else if msg_metric m = Some MetricFailure then NotifyFailure
      else NotifyWarning)"

text \<open>The outside: \<open>client.Do\<close> on a webhook URL with the headers set and a message body gives a transport
  error or a status; \<open>apprise.Send\<close> gives an error or nothing.\<close>

record net =
  net_post :: "string \<Rightarrow> (string \<times> string) list \<Rightarrow> message \<Rightarrow> string + int"
  net_apprise :: "string list \<Rightarrow> string \<Rightarrow> string \<Rightarrow> notify_type \<Rightarrow> string option"

definition webhook_headers :: "channel \<Rightarrow> (string \<times> string) list" where
  "webhook_headers ch = (''Content-Type'', ''application/json'') #
     filter (\<lambda>(k, v). \<not> EqualFold k ''Content-Type'') (ch_headers ch)"

text \<open>\<open>True\<close> when the delivery succeeded.\<close>

definition Deliver :: "net \<Rightarrow> channel \<Rightarrow> message \<Rightarrow> bool" where
  "Deliver n ch m =
     (if ch_type ch = ''apprise''
      then net_apprise n (ch_urls ch) (msg_body m) (msg_title m) (mapNotifyType m) = None
      else if ch_type ch = ''webhook''
      then (case net_post n (ch_url ch) (webhook_headers ch) m of
              Inl e \<Rightarrow> False
            | Inr status \<Rightarrow> 200 \<le> status \<and> status < 300)
      else False)"

subsection \<open>The worker\<close>

record notifier =
  nf_db :: db
  nf_sent :: nat
  nf_failed :: nat
  nf_suppressed :: nat
  nf_log :: "message list"

text \<open>What the store answers during one \<open>process\<close> call, per metric name.\<close>

record notify_env =
  ne_target :: fault
  ne_get :: "string \<Rightarrow> fault"
  ne_set :: "string \<Rightarrow> fault"
  ne_clear :: "string \<Rightarrow> fault"

definition deliver_one :: "net \<Rightarrow> message \<Rightarrow> channel \<Rightarrow> notifier \<Rightarrow> notifier" where
  "deliver_one n m ch s =
     (if \<not> ch_enabled ch then s
      else if Deliver n ch m then s\<lparr>nf_sent := Suc (nf_sent s)\<rparr> else s\<lparr>nf_failed := Suc (nf_failed s)\<rparr>)"

definition deliver :: "net \<Rightarrow> notifications \<Rightarrow> message \<Rightarrow> notifier \<Rightarrow> notifier" where
  "deliver n conf m s = fold (deliver_one n m) (n_channels conf) (s\<lparr>nf_log := nf_log s @ [m]\<rparr>)"

definition cooldownElapsed :: "string \<Rightarrow> time \<Rightarrow> duration \<Rightarrow> bool" where
  "cooldownElapsed lastFiredAt now cooldown =
     (case Parse_frac 3 lastFiredAt of None \<Rightarrow> True | Some last' \<Rightarrow> cooldown \<le> time_Sub now last')"

definition notify_fire ::
  "net \<Rightarrow> notify_env \<Rightarrow> notifications \<Rightarrow> int \<Rightarrow> string \<Rightarrow> time \<Rightarrow> bool \<Rightarrow> message \<Rightarrow> bool \<Rightarrow> notifier \<Rightarrow> notifier" where
  "notify_fire n env conf tid m now quiet msg alreadyFiring s =
     (if quiet then
        let s1 = s\<lparr>nf_suppressed := Suc (nf_suppressed s)\<rparr>
        in if alreadyFiring then s1
           else s1\<lparr>nf_db := fst (SetNotifyState (ne_set env m) (nf_db s1) tid m \<lparr>ns_last_fired_at = '''', ns_firing = True\<rparr>)\<rparr>
      else case SetNotifyState (ne_set env m) (nf_db s) tid m \<lparr>ns_last_fired_at = Format_frac 3 now, ns_firing = True\<rparr> of
             (d, Inl e) \<Rightarrow> s\<lparr>nf_db := d\<rparr>
           | (d, Inr _) \<Rightarrow> deliver n conf msg (s\<lparr>nf_db := d\<rparr>))"

definition notify_recover ::
  "net \<Rightarrow> notify_env \<Rightarrow> notifications \<Rightarrow> int \<Rightarrow> string \<Rightarrow> bool \<Rightarrow> message \<Rightarrow> bool \<Rightarrow> notifier \<Rightarrow> notifier" where
  "notify_recover n env conf tid m quiet msg send s =
     (case ClearNotifyState (ne_clear env m) (nf_db s) tid m of
        (d, Inl e) \<Rightarrow> s\<lparr>nf_db := d\<rparr>
      | (d, Inr _) \<Rightarrow>
          let s1 = s\<lparr>nf_db := d\<rparr>
          in if \<not> send then s1
             else if quiet then s1\<lparr>nf_suppressed := Suc (nf_suppressed s1)\<rparr>
             else deliver n conf msg s1)"

definition handleEval ::
  "net \<Rightarrow> notify_env \<Rightarrow> notifications \<Rightarrow> target \<Rightarrow> result \<Rightarrow> time \<Rightarrow> bool \<Rightarrow> duration \<Rightarrow> eval \<Rightarrow> notifier \<Rightarrow> notifier" where
  "handleEval n env conf tgt res now quiet cooldown e s =
     (let m = metric_name (e_metric e)
      in case GetNotifyState (ne_get env m) (nf_db s) (t_id tgt) m of
           Inl err \<Rightarrow> s
         | Inr row \<Rightarrow>
             if e_breached e then
               if row = None \<or> cooldownElapsed (ns_last_fired_at (the row)) now cooldown
               then notify_fire n env conf (t_id tgt) m now quiet
                      (BuildMessage ''alert'' (t_name tgt) (t_id tgt) (res_id res) e now (res_error res)) (row \<noteq> None) s
               else s
             else (case row of
                     None \<Rightarrow> s
                   | Some st \<Rightarrow>
                       if \<not> ns_firing st then s
                       else notify_recover n env conf (t_id tgt) m quiet
                              (BuildMessage ''recovery'' (t_name tgt) (t_id tgt) (res_id res) e now '''')
                              (n_recovery conf \<and> ns_last_fired_at st \<noteq> '''') s))"

definition allMetrics :: "metric list" where
  "allMetrics = [MetricDownload, MetricUpload, MetricPing, MetricJitter, MetricLoss, MetricFailure]"

definition clear_stale_one :: "notify_env \<Rightarrow> int \<Rightarrow> eval list \<Rightarrow> metric \<Rightarrow> notifier \<Rightarrow> notifier" where
  "clear_stale_one env tid evals mt s =
     (let m = metric_name mt
      in if mt \<in> e_metric ` set evals then s
         else case GetNotifyState (ne_get env m) (nf_db s) tid m of
                Inl e \<Rightarrow> s
              | Inr None \<Rightarrow> s
              | Inr (Some st) \<Rightarrow> s\<lparr>nf_db := fst (ClearNotifyState (ne_clear env m) (nf_db s) tid m)\<rparr>)"

definition clearStaleState :: "notify_env \<Rightarrow> int \<Rightarrow> eval list \<Rightarrow> notifier \<Rightarrow> notifier" where
  "clearStaleState env tid evals s = fold (clear_stale_one env tid evals) allMetrics s"

definition failureAlertCovers :: "result \<Rightarrow> eval list \<Rightarrow> bool" where
  "failureAlertCovers res evals \<longleftrightarrow>
     res_status res \<noteq> ROk \<and> (\<exists>e\<in>set evals. e_metric e = MetricFailure \<and> e_breached e)"

definition quietNow :: "time \<Rightarrow> string \<Rightarrow> string \<Rightarrow> location \<Rightarrow> bool" where
  "quietNow now start end' loc =
     (if start = [] \<or> end' = [] \<or> start = end' then False
      else case (Parse_HHMM start, Parse_HHMM end') of
             (Some smins, Some emins) \<Rightarrow>
               let mins = sec_of_day (now + loc now * ns_per_sec) div 60
               in if smins > emins then mins \<ge> smins \<or> mins < emins else mins \<ge> smins \<and> mins < emins
           | _ \<Rightarrow> False)"

definition process ::
  "net \<Rightarrow> notify_env \<Rightarrow> notifications \<Rightarrow> location \<Rightarrow> time \<Rightarrow> result \<Rightarrow> notifier \<Rightarrow> notifier" where
  "process n env conf loc now res s =
     (case res_target_id res of
        None \<Rightarrow> s
      | Some tid \<Rightarrow>
          if \<not> n_enabled conf then s
          else case GetTarget (ne_target env) (nf_db s) tid of
                 Inl e \<Rightarrow> s
               | Inr tgt \<Rightarrow>
                   (case ParseThresholds (t_thresholds tgt) of
                      None \<Rightarrow> s
                    | Some (perTarget, nulled) \<Rightarrow>
                        let th = Merge (n_defaults conf) perTarget nulled;
                            evals = Evaluate res th;
                            quiet = quietNow now (n_quiet_start conf) (n_quiet_end conf) loc;
                            cooldown = wrap64 (n_cooldown_minutes conf * Minute);
                            s1 = fold (handleEval n env conf tgt res now quiet cooldown) evals s;
                            s2 = (if res_status res = ROk then clearStaleState env (t_id tgt) evals s1 else s1)
                        in if th_always th = Some True \<and> \<not> failureAlertCovers res evals
                           then if quiet then s2\<lparr>nf_suppressed := Suc (nf_suppressed s2)\<rparr>
                                else deliver n conf (BuildResultMessage (t_name tgt) (t_id tgt) (res_id res) res now) s2
                           else s2))"


subsection \<open>The process around the worker\<close>

text \<open>The settings snapshot, the queue and the worker goroutine's life cycle. \<open>OnResult\<close> is \<open>offer\<close> on
  the queue (its interleavings are those of \<open>dq_step\<close>).\<close>

record notifier_proc =
  np_conf :: notifications
  np_loc :: location
  np_queue :: "result dq"
  np_state :: notifier
  np_started :: bool
  np_stop :: bool
  np_done :: bool

definition Notifier_New :: "int \<Rightarrow> notifications \<Rightarrow> db \<Rightarrow> notifier_proc" where
  "Notifier_New cap zero d = \<lparr>np_conf = zero, np_loc = (\<lambda>t. 0), np_queue = dq_new 256 cap,
     np_state = \<lparr>nf_db = d, nf_sent = 0, nf_failed = 0, nf_suppressed = 0, nf_log = []\<rparr>,
     np_started = False, np_stop = False, np_done = False\<rparr>"

definition Notifier_Configure :: "notifications \<Rightarrow> location option \<Rightarrow> notifier_proc \<Rightarrow> notifier_proc" where
  "Notifier_Configure conf loc p =
     p\<lparr>np_conf := conf, np_loc := (case loc of None \<Rightarrow> (\<lambda>t. 0) | Some l \<Rightarrow> l)\<rparr>"

definition Notifier_snapshot :: "notifier_proc \<Rightarrow> notifications \<times> location" where
  "Notifier_snapshot p = (np_conf p, np_loc p)"

definition Notifier_Start :: "notifier_proc \<Rightarrow> notifier_proc" where
  "Notifier_Start p = p\<lparr>np_started := True\<rparr>"

definition Notifier_OnResult :: "result \<Rightarrow> notifier_proc \<Rightarrow> notifier_proc" where
  "Notifier_OnResult res p = p\<lparr>np_queue := offer res (np_queue p)\<rparr>"

text \<open>One turn of the worker's loop: the next queued result is processed under the current snapshot; with nothing
  queued the goroutine waits, or ends when it was told to stop.\<close>

definition worker_turn :: "net \<Rightarrow> notify_env \<Rightarrow> time \<Rightarrow> notifier_proc \<Rightarrow> notifier_proc" where
  "worker_turn n env now p =
     (if \<not> np_started p \<or> np_done p then p
      else case take_one (np_queue p) of
             (Some res, q) \<Rightarrow>
               (case Notifier_snapshot p of
                  (conf, loc) \<Rightarrow> p\<lparr>np_queue := q, np_state := process n env conf loc now res (np_state p)\<rparr>)
           | (None, q) \<Rightarrow> if np_stop p then p\<lparr>np_done := True\<rparr> else p)"

definition Notifier_Close :: "notifier_proc \<Rightarrow> notifier_proc" where
  "Notifier_Close p = p\<lparr>np_stop := True\<rparr>"

text \<open>Sent, failed, dropped, suppressed and queued.\<close>

definition Notifier_Stats :: "notifier_proc \<Rightarrow> nat \<times> nat \<times> nat \<times> nat \<times> nat" where
  "Notifier_Stats p = (nf_sent (np_state p), nf_failed (np_state p), dq_dropped (np_queue p),
     nf_suppressed (np_state p), length (dq_items (np_queue p)))"

end
