(* ===== verification/Oidc.thy ===== *)
theory Oidc
  imports Auth_Middleware
begin

text \<open>
  OpenID Connect login: \<open>internal/oidcauth/state.go\<close>, \<open>oidcauth.go\<close> and the handlers of
  \<open>internal/api/oidc.go\<close>. The OAuth and OpenID libraries, HMAC and URL parsing are the record \<open>oidc_lib\<close>;
  what they return is arbitrary. A handler's answer is the response it writes: where it redirects, and the
  cookies it sets. Log lines are left out.
\<close>

record parsed_url =
  pu_scheme :: string
  pu_host :: string
  pu_path :: string

text \<open>\<open>ol_id_token\<close>: the token exchange up to the verified ID token, its subject and claims;
  \<open>ol_userinfo\<close>: the userinfo request for the same code.\<close>

record oidc_lib =
  ol_hmac :: "string \<Rightarrow> string \<Rightarrow> string"
  ol_url :: "string \<Rightarrow> parsed_url option"
  ol_auth_url :: "string \<Rightarrow> string \<Rightarrow> string \<Rightarrow> string"
  ol_id_token :: "string \<Rightarrow> string \<Rightarrow> string \<Rightarrow> string + (string \<times> (string \<rightharpoonup> json))"
  ol_userinfo_endpoint :: string
  ol_userinfo :: "string \<Rightarrow> string + (string \<rightharpoonup> json)"

subsection \<open>The state cookie\<close>

definition stateTTL :: duration where
  "stateTTL = 5 * Minute"

text \<open>\<open>Unix\<close> and \<open>time.Unix\<close>.\<close>

definition Unix :: "time \<Rightarrow> int" where
  "Unix t = (t - unix_epoch) div ns_per_sec"

definition time_Unix :: "int \<Rightarrow> time" where
  "time_Unix s = unix_epoch + s * ns_per_sec"

definition sign :: "oidc_lib \<Rightarrow> string \<Rightarrow> string \<Rightarrow> string" where
  "sign lib key payload = ol_hmac lib key payload"

definition state_payload :: "string \<Rightarrow> string \<Rightarrow> string \<Rightarrow> int \<Rightarrow> string" where
  "state_payload state verifier returnTo expiry = Join [state, verifier, returnTo, Itoa expiry] [CHR 0x00]"

definition Encode :: "oidc_lib \<Rightarrow> string \<Rightarrow> time \<Rightarrow> string \<Rightarrow> string \<Rightarrow> string \<Rightarrow> string" where
  "Encode lib key now state verifier returnTo =
     (let payload = state_payload state verifier returnTo (Unix (now + stateTTL))
      in b64_encode payload @ ''.'' @ b64_encode (sign lib key payload))"

definition Decode :: "oidc_lib \<Rightarrow> string \<Rightarrow> string \<Rightarrow> time \<Rightarrow> (string \<times> string \<times> string) option" where
  "Decode lib key s now =
     (if CHR ''.'' \<notin> set s then None
      else
        case (b64_decode (takeWhile (\<lambda>c. c \<noteq> CHR ''.'') s), b64_decode (tl (dropWhile (\<lambda>c. c \<noteq> CHR ''.'') s))) of
          (Some payload, Some sg) \<Rightarrow>
            if sg \<noteq> sign lib key payload then None
            else (case Split payload [CHR 0x00] of
                    [f0, f1, f2, f3] \<Rightarrow>
                      (case ParseInt64 f3 of
                         None \<Rightarrow> None
                       | Some expiry \<Rightarrow> if \<not> now < time_Unix expiry then None else Some (f0, f1, f2))
                  | _ \<Rightarrow> None)
        | _ \<Rightarrow> None)"

subsection \<open>Claims\<close>

record oidc_config =
  oc_issuer :: string
  oc_client_id :: string
  oc_client_secret :: string
  oc_redirect_base :: string
  oc_scopes :: "string list"
  oc_groups_claim :: string
  oc_admin_group :: string
  oc_allowed_groups :: "string list"
  oc_allowed_emails :: "string list"
  oc_session_ttl :: duration

definition oidcConfigFromAuth :: "auth \<Rightarrow> oidc_config" where
  "oidcConfigFromAuth a = \<lparr>oc_issuer = a_oidc_issuer a, oc_client_id = a_oidc_client_id a,
     oc_client_secret = a_oidc_client_secret a, oc_redirect_base = a_oidc_redirect_base_url a,
     oc_scopes = a_oidc_scopes a, oc_groups_claim = a_oidc_groups_claim a, oc_admin_group = a_admin_group a,
     oc_allowed_groups = a_oidc_allowed_groups a, oc_allowed_emails = a_oidc_allowed_emails a,
     oc_session_ttl = wrap64 (a_session_ttl_hours a * Hour)\<rparr>"

record claims =
  cl_subject :: string
  cl_email :: string
  cl_name :: string
  cl_username :: string
  cl_groups :: "string list"
  cl_email_unverified :: bool
  cl_userinfo_err :: "string option"

text \<open>The closure \<open>add\<close> of \<open>dedupScopes\<close>, folded over the scopes.\<close>

definition dedupScopes :: "string list \<Rightarrow> string list" where
  "dedupScopes extra =
     fold (\<lambda>s out. if s = [] \<or> s \<in> set out then out else out @ [s]) ([''openid'', ''profile'', ''email''] @ extra) []"

definition fill_field :: "(string \<rightharpoonup> json) \<Rightarrow> string \<Rightarrow> string \<Rightarrow> string" where
  "fill_field raw key dst = (if dst \<noteq> [] then dst else case raw key of Some (JStr v) \<Rightarrow> v | _ \<Rightarrow> dst)"

definition fill :: "(string \<rightharpoonup> json) \<Rightarrow> claims \<Rightarrow> claims" where
  "fill raw c = c\<lparr>cl_email := fill_field raw ''email'' (cl_email c), cl_name := fill_field raw ''name'' (cl_name c),
     cl_username := fill_field raw ''preferred_username'' (cl_username c)\<rparr>"

text \<open>\<open>strings.FieldsFunc\<close> on commas and blanks.\<close>

fun fields_acc :: "string \<Rightarrow> string \<Rightarrow> string list" where
  "fields_acc acc [] = (if acc = [] then [] else [rev acc])"
| "fields_acc acc (c # cs) =
     (if c = CHR '','' \<or> c = CHR '' '' then (if acc = [] then fields_acc [] cs else rev acc # fields_acc [] cs)
      else fields_acc (c # acc) cs)"

fun json_strings :: "json list \<Rightarrow> string list" where
  "json_strings [] = []"
| "json_strings (JStr s # js) = s # json_strings js"
| "json_strings (_ # js) = json_strings js"

definition extractGroups :: "(string \<rightharpoonup> json) \<Rightarrow> string \<Rightarrow> string list" where
  "extractGroups raw claim =
     (if claim = [] then []
      else case raw claim of
             Some (JArr items) \<Rightarrow> json_strings items
           | Some (JStr t) \<Rightarrow> filter (\<lambda>p. p \<noteq> []) (map TrimSpace (fields_acc [] t))
           | _ \<Rightarrow> [])"

definition unverified :: "(string \<rightharpoonup> json) \<Rightarrow> bool" where
  "unverified raw \<longleftrightarrow> raw ''email_verified'' = Some (JBool False)"

definition Exchange :: "oidc_lib \<Rightarrow> oidc_config \<Rightarrow> string \<Rightarrow> string \<Rightarrow> string \<Rightarrow> string + claims" where
  "Exchange lib cfg code verifier redirectURI =
     (case ol_id_token lib code verifier redirectURI of
        Inl e \<Rightarrow> Inl e
      | Inr (subject, raw) \<Rightarrow>
          let c0 = fill raw \<lparr>cl_subject = subject, cl_email = [], cl_name = [], cl_username = [], cl_groups = [],
                     cl_email_unverified = False, cl_userinfo_err = None\<rparr>;
              c1 = (if unverified raw then c0\<lparr>cl_email_unverified := True\<rparr> else c0)
          in if oc_groups_claim cfg \<noteq> [] \<and> raw (oc_groups_claim cfg) = None \<and> ol_userinfo_endpoint lib \<noteq> []
             then (case ol_userinfo lib code of
                     Inl e \<Rightarrow> Inr (c1\<lparr>cl_userinfo_err := Some e, cl_groups := extractGroups raw (oc_groups_claim cfg)\<rparr>)
                   | Inr info \<Rightarrow>
                       if (case info ''sub'' of Some (JStr v) \<Rightarrow> v | _ \<Rightarrow> []) \<noteq> subject then Inl ''oidcauth: userinfo: sub''
                       else let c2 = fill info c1; c3 = (if unverified info then c2\<lparr>cl_email_unverified := True\<rparr> else c2)
                            in Inr (c3\<lparr>cl_groups := extractGroups info (oc_groups_claim cfg)\<rparr>))
             else Inr (c1\<lparr>cl_groups := extractGroups raw (oc_groups_claim cfg)\<rparr>))"

definition containsFold :: "string list \<Rightarrow> string \<Rightarrow> bool" where
  "containsFold xs target \<longleftrightarrow> (\<exists>s\<in>set xs. EqualFold s target)"

definition intersects :: "string list \<Rightarrow> string list \<Rightarrow> bool" where
  "intersects a b \<longleftrightarrow> (\<exists>x\<in>set a. containsFold b x)"

text \<open>\<open>None\<close> is \<open>ErrForbidden\<close>.\<close>

definition Authorize :: "oidc_config \<Rightarrow> claims \<Rightarrow> bool option" where
  "Authorize c cl =
     (if oc_allowed_groups c \<noteq> [] \<and> \<not> intersects (cl_groups cl) (oc_allowed_groups c) then None
      else if oc_allowed_emails c \<noteq> [] \<and> (cl_email_unverified cl \<or> \<not> containsFold (oc_allowed_emails c) (cl_email cl)) then None
      else Some (oc_admin_group c = [] \<or> containsFold (cl_groups cl) (oc_admin_group c)))"

subsection \<open>The handlers\<close>

record set_cookie =
  sc_name :: string
  sc_value :: string
  sc_secure :: bool
  sc_max_age :: int

datatype answer = Redirect string | InternalError | NoContent

type_synonym response = "answer \<times> set_cookie list"

definition oidcStateCookie :: string where
  "oidcStateCookie = ''st_oidc_state''"

definition isHTTPS :: "request \<Rightarrow> bool" where
  "isHTTPS r \<longleftrightarrow> rq_tls r \<or> EqualFold (Header_Get r ''X-Forwarded-Proto'') ''https''"

text \<open>\<open>strings.TrimRight(s, "/")\<close>.\<close>

definition trim_slashes :: "string \<Rightarrow> string" where
  "trim_slashes s = rev (dropWhile (\<lambda>c. c = CHR ''/'') (rev s))"

definition externalBaseURL :: "request \<Rightarrow> string \<Rightarrow> string" where
  "externalBaseURL r configured =
     (if configured \<noteq> [] then trim_slashes configured
      else (if isHTTPS r then ''https'' else ''http'') @ ''://'' @
           (if Header_Get r ''X-Forwarded-Host'' = [] then rq_host r else Header_Get r ''X-Forwarded-Host''))"

definition sanitizeReturnTo :: "oidc_lib \<Rightarrow> string \<Rightarrow> string" where
  "sanitizeReturnTo lib returnTo =
     (case ol_url lib returnTo of
        None \<Rightarrow> ''/''
      | Some u \<Rightarrow>
          if pu_scheme u \<noteq> [] \<or> pu_host u \<noteq> [] then ''/''
          else if \<not> HasPrefix (pu_path u) ''/'' then ''/''
          else if HasPrefix (pu_path u) ''//'' \<or> HasPrefix (pu_path u) [CHR ''/'', CHR 0x5C] then ''/''
          else returnTo)"

definition clearCookie :: "request \<Rightarrow> string \<Rightarrow> set_cookie" where
  "clearCookie r name = \<lparr>sc_name = name, sc_value = [], sc_secure = isHTTPS r, sc_max_age = -1\<rparr>"

definition not_configured :: response where
  "not_configured = (Redirect ''/login?error=oidc_not_configured'', [])"

definition login_error :: "string \<Rightarrow> set_cookie list \<Rightarrow> response" where
  "login_error code cookies = (Redirect (''/login?error='' @ code), cookies)"

text \<open>The dependencies of the handlers: the provider and the codec's key when they are there.\<close>

record oidc_deps =
  od_provider :: "oidc_config option"
  od_key :: "string option"
  od_sessions :: bool

text \<open>\<open>rand\<close> is the fresh state token and \<open>verifier\<close> the PKCE verifier; a failing random source panics there.\<close>

definition oidcStart :: "oidc_lib \<Rightarrow> oidc_deps \<Rightarrow> time \<Rightarrow> string \<Rightarrow> string \<Rightarrow> request \<Rightarrow> response" where
  "oidcStart lib deps now rand verifier r =
     (case (od_provider deps, od_key deps) of
        (Some cfg, Some key) \<Rightarrow>
          let returnTo = sanitizeReturnTo lib (Query_Get r ''return_to'');
              state = b64_encode rand;
              redirectURI = externalBaseURL r (oc_redirect_base cfg) @ ''/auth/oidc/callback''
          in (Redirect (ol_auth_url lib state verifier redirectURI),
              [\<lparr>sc_name = oidcStateCookie, sc_value = Encode lib key now state verifier returnTo,
                 sc_secure = isHTTPS r, sc_max_age = 300\<rparr>])
      | _ \<Rightarrow> not_configured)"

definition session_ttl :: "oidc_config \<Rightarrow> duration" where
  "session_ttl cfg = (if oc_session_ttl cfg \<le> 0 then 24 * Hour else oc_session_ttl cfg)"

definition login_session :: "auth_lib \<Rightarrow> oidc_config \<Rightarrow> claims \<Rightarrow> bool \<Rightarrow> string \<Rightarrow> time \<Rightarrow> session" where
  "login_session al cfg cl isAdmin plain now =
     \<lparr>sess_id = HashSession al plain, sess_subject = cl_subject cl, sess_email = cl_email cl, sess_name = cl_name cl,
      sess_username = cl_username cl, sess_groups = cl_groups cl, sess_is_admin = isAdmin,
      sess_created = now, sess_expires = now + session_ttl cfg\<rparr>"

definition oidcCallback ::
  "auth_lib \<Rightarrow> oidc_lib \<Rightarrow> oidc_deps \<Rightarrow> time \<Rightarrow> string option \<Rightarrow> fault \<Rightarrow> request \<Rightarrow> db \<Rightarrow> db \<times> response" where
  "oidcCallback al lib deps now rand flt r d =
     (case (od_provider deps, od_key deps) of
        (Some cfg, Some key) \<Rightarrow>
          let redirectURI = externalBaseURL r (oc_redirect_base cfg) @ ''/auth/oidc/callback'';
              clr = [clearCookie r oidcStateCookie]
          in if Query_Get r ''error'' \<noteq> [] then (d, login_error ''provider_error'' [])
             else if Cookie r oidcStateCookie = [] then (d, login_error ''state'' [])
             else (case Decode lib key (Cookie r oidcStateCookie) now of
               None \<Rightarrow> (d, login_error ''state'' clr)
             | Some (wantState, verifier, returnTo) \<Rightarrow>
                 if Query_Get r ''state'' \<noteq> wantState then (d, login_error ''state'' clr)
                 else if Query_Get r ''code'' = [] then (d, login_error ''state'' clr)
                 else (case Exchange lib cfg (Query_Get r ''code'') verifier redirectURI of
                   Inl e \<Rightarrow> (d, login_error ''exchange_failed'' clr)
                 | Inr cl \<Rightarrow>
                     (case Authorize cfg cl of
                        None \<Rightarrow> (d, login_error ''forbidden'' clr)
                      | Some isAdmin \<Rightarrow>
                          if \<not> od_sessions deps then (d, fst not_configured, clr)
                          else (case GenerateSessionID rand of
                            None \<Rightarrow> (d, login_error ''session_failed'' clr)
                          | Some plain \<Rightarrow>
                              (case CreateSession flt d (login_session al cfg cl isAdmin plain now) of
                                 (d', Inl e) \<Rightarrow> (d', InternalError, clr)
                               | (d', Inr _) \<Rightarrow>
                                   (d', Redirect returnTo,
                                    clr @ [\<lparr>sc_name = SessionCookie, sc_value = plain, sc_secure = isHTTPS r,
                                       sc_max_age = session_ttl cfg div Second\<rparr>]))))))
      | _ \<Rightarrow> (d, not_configured))"

text \<open>An error of the delete is ignored.\<close>

definition oidcLogout :: "auth_lib \<Rightarrow> oidc_deps \<Rightarrow> fault \<Rightarrow> request \<Rightarrow> db \<Rightarrow> db \<times> response" where
  "oidcLogout al deps flt r d =
     ((if Cookie r SessionCookie \<noteq> [] \<and> od_sessions deps
       then fst (DeleteSession flt d (HashSession al (Cookie r SessionCookie))) else d),
      (if rq_method r = ''GET'' then Redirect ''/login'' else NoContent, [clearCookie r SessionCookie]))"

end
