(* ===== verification/Settings_Api.thy ===== *)
theory Settings_Api
  imports Settings_Body Notifier Oidc
begin

text \<open>
  The handlers of \<open>/api/v1/settings\<close>, \<open>/settings/test\<close> and \<open>/settings/tokens\<close>, and \<open>/me\<close>
  (\<open>internal/api/settings.go\<close>, \<open>tokens.go\<close>, \<open>me.go\<close>). A handler takes the identity the authentication middleware
  left in the request's context, what the driver answers to its statements, and the database with the
  settings store; it returns the new state and an answer.
\<close>

subsection \<open>Who asks\<close>

definition requestIsAdmin :: "identity \<Rightarrow> bool" where
  "requestIsAdmin ident \<longleftrightarrow> id_mode ident = [] \<or> id_is_admin ident"

definition requestAuthIsToken :: "identity \<Rightarrow> bool" where
  "requestAuthIsToken ident \<longleftrightarrow> id_source ident = ''token''"

definition bearerTokenFromRequest :: "request \<Rightarrow> string option" where
  "bearerTokenFromRequest r =
     (let h = Header_Get r ''Authorization''
      in if length h \<le> 7 \<or> \<not> EqualFold (take 7 h) ''Bearer '' then None else Some (drop 7 h))"

subsection \<open>Reading\<close>

record settings_response =
  sr_auth :: auth
  sr_engines :: engines
  sr_general :: general
  sr_integrations :: integrations
  sr_locked :: "string list"
  sr_notifications :: notifications

text \<open>What the driver answers to the reads of the five sections.\<close>

record section_faults =
  cf_general :: "string \<Rightarrow> fault"
  cf_engines :: "string \<Rightarrow> fault"
  cf_integrations :: "string \<Rightarrow> fault"
  cf_notifications :: "string \<Rightarrow> fault"
  cf_auth :: "string \<Rightarrow> fault"

definition internal_of :: "string \<Rightarrow> 'a res \<Rightarrow> api_error + 'a" where
  "internal_of msg r = (case r of Inl _ \<Rightarrow> Inl (Internal msg) | Inr x \<Rightarrow> Inr x)"

definition abind :: "'e + 'a \<Rightarrow> ('a \<Rightarrow> 'e + 'b) \<Rightarrow> 'e + 'b" where
  "abind r f = (case r of Inl e \<Rightarrow> Inl e | Inr x \<Rightarrow> f x)"

definition getSettings :: "api_lib \<Rightarrow> section_faults \<Rightarrow> db \<times> settings_store \<Rightarrow> api_error + settings_response" where
  "getSettings lib f w =
     abind (internal_of ''load general settings'' (General (cf_general f) (fst w))) (\<lambda>g.
     abind (internal_of ''load engines settings'' (Engines (cf_engines f) (fst w))) (\<lambda>e.
     abind (internal_of ''load integrations settings'' (Integrations (cf_integrations f) (fst w))) (\<lambda>i.
     abind (internal_of ''load notifications settings'' (Notifications (cf_notifications f) (fst w))) (\<lambda>n.
     abind (internal_of ''load auth settings'' (Auth (cf_auth f) (fst w))) (\<lambda>a.
       Inr \<lparr>sr_auth = maskAuthSecrets a, sr_engines = e, sr_general = g, sr_integrations = maskSecrets i,
            sr_locked = LockedKeys (snd w), sr_notifications = maskChannelTokens lib n\<rparr>)))))"

subsection \<open>The lockout guard\<close>

definition forward_lockout :: "auth_lib \<Rightarrow> request \<Rightarrow> auth \<Rightarrow> auth \<Rightarrow> string option" where
  "forward_lockout lib r current resulting =
     (if a_trusted_proxies resulting = [] then Some ''trusted_proxies must not be empty''
      else if a_mode resulting = a_mode current \<and> a_trusted_proxies resulting = a_trusted_proxies current \<and>
              a_user_header resulting = a_user_header current then None
      else case al_addrport lib (rq_remote r) of
             None \<Rightarrow> Some ''cannot verify this request satisfies trusted_proxies''
           | Some addr \<Rightarrow>
               if \<not> list_ex (\<lambda>raw. case al_prefix lib raw of None \<Rightarrow> False | Some p \<Rightarrow> p addr) (a_trusted_proxies resulting)
               then Some ''this request does not originate from a trusted proxy in trusted_proxies''
               else let header = (if a_user_header resulting = [] then ''Remote-User'' else a_user_header resulting)
                    in check (Header_Get r header = [])
                         (''this request does not carry the '' @ header @ '' header from a trusted proxy''))"

definition token_lockout :: "auth_lib \<Rightarrow> fault \<Rightarrow> fault \<Rightarrow> db \<Rightarrow> request \<Rightarrow> auth \<Rightarrow> auth \<Rightarrow> string option" where
  "token_lockout lib cflt tflt d r current resulting =
     (case CountAPITokens cflt d of
        Inl _ \<Rightarrow> Some ''count api tokens''
      | Inr n \<Rightarrow>
          if n = 0 then Some ''create an API token before switching to token mode''
          else if a_mode resulting = a_mode current then None
          else case bearerTokenFromRequest r of
                 None \<Rightarrow> Some ''include a valid bearer token on this request to switch to token mode''
               | Some plain \<Rightarrow>
                   (case APITokenByHash tflt d (HashToken lib plain) of
                      Inl _ \<Rightarrow> Some ''verify bearer token''
                    | Inr None \<Rightarrow> Some ''include a valid bearer token on this request to switch to token mode''
                    | Inr (Some _) \<Rightarrow> None))"

definition oidc_lockout :: "api_lib \<Rightarrow> identity \<Rightarrow> auth \<Rightarrow> auth \<Rightarrow> string option" where
  "oidc_lockout lib ident current resulting =
     (if a_oidc_issuer resulting = [] \<or> a_oidc_client_id resulting = [] \<or> a_oidc_client_secret resulting = []
      then Some ''oidc_issuer, oidc_client_id and oidc_client_secret must all be set''
      else if a_mode resulting = a_mode current then None
      else firstErr [
        check (\<not> requestIsAdmin ident) ''admin access required to switch to oidc mode'',
        check (requestAuthIsToken ident) ''switching to oidc mode requires a forward-auth or open-mode session'',
        map_option (\<lambda>e. ''discover oidc issuer '' @ quoted (a_oidc_issuer resulting) @ '': '' @ e)
          (ap_discover lib (a_oidc_issuer resulting))])"

definition checkAuthLockout ::
  "api_lib \<Rightarrow> fault \<Rightarrow> fault \<Rightarrow> db \<Rightarrow> identity \<Rightarrow> request \<Rightarrow> auth \<Rightarrow> auth \<Rightarrow> string option" where
  "checkAuthLockout lib cflt tflt d ident r current resulting =
     (if a_mode resulting = ''open'' then None
      else if a_mode resulting = ''forward_auth'' then forward_lockout (ap_auth lib) r current resulting
      else if a_mode resulting = ''token'' then token_lockout (ap_auth lib) cflt tflt d r current resulting
      else if a_mode resulting = ''oidc'' then oidc_lockout lib ident current resulting
      else None)"

subsection \<open>Writing\<close>

text \<open>What the driver answers to the statements of a \<open>PUT\<close>: \<open>pf_set i j\<close> is the read of the old value and the upsert
  of the \<open>j\<close>-th write of the \<open>i\<close>-th section.\<close>

record put_faults =
  pf_sections :: section_faults
  pf_count :: fault
  pf_token :: fault
  pf_begin :: fault
  pf_set :: "nat \<Rightarrow> nat \<Rightarrow> fault \<times> fault"
  pf_commit :: fault

fun run_writes :: "(nat \<Rightarrow> fault \<times> fault) \<Rightarrow> nat \<Rightarrow> setting_write list \<Rightarrow> tx \<Rightarrow> tx \<times> unit res" where
  "run_writes f j [] t = (t, Inr ())"
| "run_writes f j (None # ws) t = run_writes f (Suc j) ws t"
| "run_writes f j (Some (key, v) # ws) t =
     (case Tx_Set (fst (f j)) (snd (f j)) t key v of
        (t', Inl e) \<Rightarrow> (t', Inl e)
      | (t', Inr _) \<Rightarrow> run_writes f (Suc j) ws t')"

text \<open>The sections in the order of the handler, with the message of a failed write.\<close>

definition body_writes :: "channel list option \<Rightarrow> settings_body \<Rightarrow> (string \<times> setting_write list) list" where
  "body_writes merged body = [
     (''write general settings'', section_of general_writes (sb_general body)),
     (''write engines settings'', section_of engines_writes (sb_engines body)),
     (''write integrations settings'', section_of integrations_writes (sb_integrations body)),
     (''write notifications settings'', section_of (notifications_writes merged) (sb_notifications body)),
     (''write auth settings'', section_of auth_writes (sb_auth body))]"

fun run_sections ::
  "(nat \<Rightarrow> nat \<Rightarrow> fault \<times> fault) \<Rightarrow> nat \<Rightarrow> (string \<times> setting_write list) list \<Rightarrow> tx \<Rightarrow> tx \<times> string option" where
  "run_sections f i [] t = (t, None)"
| "run_sections f i ((msg, ws) # rest) t =
     (case run_writes (f i) 0 ws t of
        (t', Inl _) \<Rightarrow> (t', Some msg)
      | (t', Inr _) \<Rightarrow> run_sections f (Suc i) rest t')"

text \<open>What a token may not change: the binaries and the server list's URL.\<close>

definition repoints_engines :: "engines_body \<Rightarrow> engines \<Rightarrow> bool" where
  "repoints_engines e cur \<longleftrightarrow>
     or_current (eb_speedtest_bin e) (en_speedtest_bin cur) \<noteq> en_speedtest_bin cur \<or>
     or_current (eb_iperf3_bin e) (en_iperf3_bin cur) \<noteq> en_iperf3_bin cur \<or>
     or_current (eb_iperf3_list_url e) (en_iperf3_list_url cur) \<noteq> en_iperf3_list_url cur"

definition engines_guard :: "section_faults \<Rightarrow> identity \<Rightarrow> db \<Rightarrow> settings_body \<Rightarrow> api_error + unit" where
  "engines_guard f ident d body =
     (case sb_engines body of
        Some e \<Rightarrow>
          if requestAuthIsToken ident
          then abind (internal_of ''load engines settings'' (Engines (cf_engines f) d)) (\<lambda>cur.
                 if repoints_engines e cur
                 then Inl (Forbidden ''engine binary paths and iperf3_list_url require a forward-auth or open-mode session'')
                 else Inr ())
          else Inr ()
      | None \<Rightarrow> Inr ())"

definition body_channels :: "settings_body \<Rightarrow> channel list option" where
  "body_channels body = Option.bind (sb_notifications body) nb_channels"

definition bad :: "string option \<Rightarrow> api_error + unit" where
  "bad e = (case e of None \<Rightarrow> Inr () | Some m \<Rightarrow> Inl (BadRequest m))"

text \<open>Everything before the transaction: the merged channels, or the refusal.\<close>

definition check_put ::
  "api_lib \<Rightarrow> put_faults \<Rightarrow> identity \<Rightarrow> request \<Rightarrow> settings_body \<Rightarrow> db \<times> settings_store \<Rightarrow> api_error + channel list option" where
  "check_put lib f ident r body w =
     (let locked = lockedKeysIn (snd w) body; d = fst w; sf = pf_sections f in
      if locked \<noteq> [] then Inl (BadRequest (Join locked '', '' @ '' set by the environment and cannot be changed here''))
      else if sb_auth body \<noteq> None \<and> \<not> requestIsAdmin ident
      then Inl (Forbidden ''admin access required to change auth settings'')
      else if sb_auth body \<noteq> None \<and> requestAuthIsToken ident
      then Inl (Forbidden ''auth settings require a forward-auth or open-mode session'')
      else
        abind (engines_guard sf ident d body) (\<lambda>_.
        abind (internal_of ''load integrations settings'' (Integrations (cf_integrations sf) d)) (\<lambda>current.
        abind (internal_of ''load notifications settings'' (Notifications (cf_notifications sf) d)) (\<lambda>currentNotify.
        abind (case body_channels body of
                 None \<Rightarrow> Inr None
               | Some cs \<Rightarrow> (case mergeChannelSecrets lib cs (n_channels currentNotify) of
                               Inl e \<Rightarrow> Inl (BadRequest e) | Inr merged \<Rightarrow> Inr (Some merged))) (\<lambda>merged.
        abind (if sb_auth body = None then Inr None
               else case internal_of ''load auth settings'' (Auth (cf_auth sf) d) of Inl e \<Rightarrow> Inl e | Inr a \<Rightarrow> Inr (Some a)) (\<lambda>currentAuth.
        abind (bad (validateSettings lib body merged current)) (\<lambda>_.
        abind (case currentAuth of None \<Rightarrow> Inr () | Some a \<Rightarrow> bad (validateAuthBody lib (sb_auth body) a)) (\<lambda>_.
        abind (case currentAuth of
                 None \<Rightarrow> Inr ()
               | Some a \<Rightarrow> bad (checkAuthLockout lib (pf_count f) (pf_token f) d ident r a (mergeAuth a (sb_auth body)))) (\<lambda>_.
          Inr merged)))))))))"

definition applySettings ::
  "api_lib \<Rightarrow> put_faults \<Rightarrow> identity \<Rightarrow> request \<Rightarrow> settings_body \<Rightarrow> db \<times> settings_store \<Rightarrow>
   (db \<times> settings_store) \<times> api_error option" where
  "applySettings lib f ident r body w =
     (case check_put lib f ident r body w of
        Inl e \<Rightarrow> (w, Some e)
      | Inr merged \<Rightarrow>
          (case Begin (pf_begin f) (fst w) of
             Inl _ \<Rightarrow> (w, Some (Internal ''begin settings transaction''))
           | Inr t \<Rightarrow>
               (case run_sections (pf_set f) 0 (body_writes merged body) t of
                  (t', Some msg) \<Rightarrow> (w, Some (Internal msg))
                | (t', None) \<Rightarrow>
                    (case Tx_Commit (pf_commit f) t' w of
                       (t'', w', Inl _) \<Rightarrow> (w', Some (Internal ''commit settings''))
                     | (t'', w', Inr _) \<Rightarrow> (w', None)))))"

definition putSettings ::
  "api_lib \<Rightarrow> put_faults \<Rightarrow> section_faults \<Rightarrow> identity \<Rightarrow> request \<Rightarrow> settings_body \<Rightarrow> db \<times> settings_store \<Rightarrow>
   (db \<times> settings_store) \<times> (api_error + settings_response)" where
  "putSettings lib f gf ident r body w =
     (case applySettings lib f ident r body w of
        (w', Some e) \<Rightarrow> (w', Inl e)
      | (w', None) \<Rightarrow> (w', getSettings lib gf w'))"

subsection \<open>Connection tests\<close>

record test_auth_body =
  tb_type :: "string option"
  tb_username :: "string option"
  tb_password :: "string option"
  tb_token :: "string option"
  tb_header_name :: "string option"
  tb_header_value :: "string option"

definition no_export_auth :: export_auth where
  "no_export_auth = \<lparr>ea_type = [], ea_username = [], ea_password = [], ea_token = [], ea_header_name = [], ea_header_value = []\<rparr>"

definition sameOrigin :: "api_lib \<Rightarrow> string \<Rightarrow> string \<Rightarrow> bool" where
  "sameOrigin lib a b =
     (case ap_url lib a of
        Inl _ \<Rightarrow> False
      | Inr ua \<Rightarrow> (case ap_url lib b of Inl _ \<Rightarrow> False | Inr ub \<Rightarrow> fst ua = fst ub \<and> snd ua = snd ub))"

definition resolveMaybeMaskedSecret :: "string option \<Rightarrow> string \<Rightarrow> bool \<Rightarrow> string" where
  "resolveMaybeMaskedSecret v storedValue same =
     (case v of
        None \<Rightarrow> []
      | Some s \<Rightarrow> if s = MaskedSecret then (if same then storedValue else []) else s)"

definition resolveTestAuth ::
  "api_lib \<Rightarrow> string \<Rightarrow> string \<Rightarrow> export_auth \<Rightarrow> string option \<Rightarrow> test_auth_body option \<Rightarrow> export_auth" where
  "resolveTestAuth lib rawURL storedURL stored legacyHeader auth1 =
     (let same = sameOrigin lib rawURL storedURL in
      case auth1 of
        Some a \<Rightarrow>
          \<lparr>ea_type = or_current (tb_type a) [], ea_username = or_current (tb_username a) [],
           ea_password = resolveMaybeMaskedSecret (tb_password a) (ea_password stored) same,
           ea_token = resolveMaybeMaskedSecret (tb_token a) (ea_token stored) same,
           ea_header_name = or_current (tb_header_name a) [],
           ea_header_value = resolveMaybeMaskedSecret (tb_header_value a) (ea_header_value stored) same\<rparr>
      | None \<Rightarrow>
          (case legacyHeader of
             Some h \<Rightarrow> if h \<noteq> MaskedSecret then legacy_auth h else if same then stored else no_export_auth
           | None \<Rightarrow> if same then stored else no_export_auth))"

record test_request =
  tr_auth :: "test_auth_body option"
  tr_auth_header :: "string option"
  tr_client_id :: "string option"
  tr_client_secret :: "string option"
  tr_issuer :: "string option"
  tr_url :: "string option"

datatype connection_test = ConnFail string | ConnOK "int option" int

text \<open>The outside: a \<open>GET\<close> of a URL with the given credentials gives an error or a status with the latency in
  milliseconds; discovery gives an error or the latency.\<close>

record probe =
  pr_get :: "string \<Rightarrow> auth_header \<Rightarrow> string + (int \<times> int)"
  pr_discover :: "string \<Rightarrow> string + int"

definition unknown_field :: "(bool \<times> string) list \<Rightarrow> api_error + unit" where
  "unknown_field fs = bad (firstErr (map (\<lambda>(given1, name).
     check given1 (''malformed JSON body: json: unknown field '' @ [CHR 0x22] @ name @ [CHR 0x22])) fs))"

definition testOIDC :: "api_lib \<Rightarrow> probe \<Rightarrow> (string \<Rightarrow> fault) \<Rightarrow> db \<Rightarrow> test_request \<Rightarrow> api_error + connection_test" where
  "testOIDC lib p flt d body =
     abind (internal_of ''load auth settings'' (Auth flt d)) (\<lambda>cur.
       let issuer = or_current (tr_issuer body) (a_oidc_issuer cur) in
       abind (bad (wrapErr ''issuer: '' (validateAbsoluteHTTPURL lib issuer))) (\<lambda>_.
         case pr_discover p issuer of Inl e \<Rightarrow> Inr (ConnFail e) | Inr ms \<Rightarrow> Inr (ConnOK None ms)))"

text \<open>The request a test sends: its URL and credentials.\<close>

definition test_probe :: "api_lib \<Rightarrow> string \<Rightarrow> integrations \<Rightarrow> test_request \<Rightarrow> string \<times> export_auth" where
  "test_probe lib target cur body =
     (let (storedURL, storedAuth) = (if target = ''vl'' then (ig_vl_url cur, VLAuth cur) else (ig_vm_url cur, VMAuth cur));
          rawURL = or_current (tr_url body) storedURL
      in (rawURL, resolveTestAuth lib rawURL storedURL storedAuth (tr_auth_header body) (tr_auth body)))"

definition testIntegration ::
  "api_lib \<Rightarrow> probe \<Rightarrow> section_faults \<Rightarrow> db \<Rightarrow> string \<Rightarrow> test_request \<Rightarrow> api_error + connection_test" where
  "testIntegration lib p f d target body =
     (if target = ''oidc'' then
        abind (unknown_field [(tr_url body \<noteq> None, ''url''), (tr_auth_header body \<noteq> None, ''auth_header''), (tr_auth body \<noteq> None, ''auth'')])
          (\<lambda>_. testOIDC lib p (cf_auth f) d body)
      else if target \<noteq> ''vm'' \<and> target \<noteq> ''vl'' then Inl (NotFound (''unknown test target '' @ target))
      else
        abind (unknown_field [(tr_issuer body \<noteq> None, ''issuer''), (tr_client_id body \<noteq> None, ''client_id''), (tr_client_secret body \<noteq> None, ''client_secret'')]) (\<lambda>_.
        abind (internal_of ''load integrations'' (Integrations (cf_integrations f) d)) (\<lambda>cur.
          let (rawURL, creds) = test_probe lib target cur body in
          abind (bad (validateEndpointURL lib rawURL True)) (\<lambda>_.
            case pr_get p (trim_slashes rawURL @ ''/health'') (Apply creds) of
              Inl e \<Rightarrow> Inr (ConnFail e)
            | Inr (status, ms) \<Rightarrow>
                if 400 \<le> status then Inr (ConnFail (''GET /health returned '' @ Itoa status))
                else Inr (ConnOK (Some status) ms)))))"

text \<open>\<open>TestChannel\<close>; the text of a delivery error is left out.\<close>

definition TestChannel :: "api_lib \<Rightarrow> net \<Rightarrow> time \<Rightarrow> channel \<Rightarrow> string option" where
  "TestChannel lib n now c =
     (case ValidateChannel lib c of
        Some e \<Rightarrow> Some e
      | None \<Rightarrow>
          check (\<not> Deliver n c \<lparr>msg_kind = ''alert'', msg_title = ''speedtest-tracker test notification'',
            msg_body = ''this is a test notification from speedtest-tracker'', msg_target = [], msg_target_id = 0,
            msg_metric = None, msg_value = 0, msg_limit = 0, msg_unit = [], msg_result_id = 0, msg_at = now\<rparr>) ''deliver'')"

definition testNotifyChannel ::
  "api_lib \<Rightarrow> net option \<Rightarrow> time \<Rightarrow> int \<Rightarrow> (string \<Rightarrow> fault) \<Rightarrow> db \<Rightarrow> string \<Rightarrow> api_error + connection_test" where
  "testNotifyChannel lib notifier1 now ms flt d channelID =
     (case notifier1 of
        None \<Rightarrow> Inl (Unavailable ''notifications are not wired'')
      | Some n \<Rightarrow>
          abind (internal_of ''load notifications'' (Notifications flt d)) (\<lambda>conf.
            case find (\<lambda>c. ch_id c = channelID) (n_channels conf) of
              None \<Rightarrow> Inl (NotFound (''unknown channel '' @ channelID))
            | Some c \<Rightarrow>
                (case TestChannel lib n now c of Some e \<Rightarrow> Inr (ConnFail e) | None \<Rightarrow> Inr (ConnOK None ms))))"

subsection \<open>Tokens\<close>

definition storeErr :: "string \<Rightarrow> store_error \<Rightarrow> api_error" where
  "storeErr what e = (if e = ErrNotFound then NotFound (what @ '' not found'') else Internal (what @ '' lookup failed''))"

definition listTokens :: "fault \<Rightarrow> identity \<Rightarrow> db \<Rightarrow> api_error + api_token list" where
  "listTokens flt ident d =
     (if \<not> requestIsAdmin ident then Inl (Forbidden ''admin access required'')
      else internal_of ''list api tokens'' (ListAPITokens flt d))"

definition maxTokenNameLen :: nat where
  "maxTokenNameLen = 100"

text \<open>The created row and the plaintext, which only this answer carries.\<close>

definition createToken ::
  "auth_lib \<Rightarrow> fault \<Rightarrow> string \<Rightarrow> string option \<Rightarrow> identity \<Rightarrow> string \<Rightarrow> db \<Rightarrow> db \<times> (api_error + api_token \<times> string)" where
  "createToken lib flt now rand ident name0 d =
     (if \<not> requestIsAdmin ident then (d, Inl (Forbidden ''admin access required''))
      else if requestAuthIsToken ident
      then (d, Inl (Forbidden ''creating tokens requires a forward-auth or open-mode session''))
      else let name = TrimSpace name0 in
        if name = [] then (d, Inl (BadRequest ''name is required''))
        else if maxTokenNameLen < length name then (d, Inl (BadRequest ''name must be at most 100 characters''))
        else case GenerateToken lib rand of
               None \<Rightarrow> (d, Inl (Internal ''generate api token''))
             | Some (plain, hash, pre) \<Rightarrow>
                 (case CreateAPIToken flt d now name hash pre of
                    (d', Inl _) \<Rightarrow> (d', Inl (Internal ''create api token''))
                  | (d', Inr created) \<Rightarrow> (d', Inr (created, plain))))"

definition deleteToken ::
  "(string \<Rightarrow> fault) \<Rightarrow> fault \<Rightarrow> fault \<Rightarrow> identity \<Rightarrow> int \<Rightarrow> db \<Rightarrow> db \<times> (api_error + unit)" where
  "deleteToken aflt cflt dflt ident i d =
     (if \<not> requestIsAdmin ident then (d, Inl (Forbidden ''admin access required''))
      else if i \<le> 0 then (d, Inl (BadRequest ''id must be a positive integer''))
      else case Auth aflt d of
             Inl _ \<Rightarrow> (d, Inl (Internal ''load auth settings''))
           | Inr a \<Rightarrow>
               (case (if a_mode a = ''token'' \<or> (a_mode a = ''forward_auth'' \<and> a_allow_tokens a)
                      then abind (internal_of ''count api tokens'' (CountAPITokens cflt d)) (\<lambda>n.
                             if n \<le> 1 then Inl (BadRequest ''cannot revoke the last API token while auth mode is token'') else Inr ())
                      else Inr ()) of
                  Inl e \<Rightarrow> (d, Inl e)
                | Inr _ \<Rightarrow>
                    (case DeleteAPIToken dflt d i of
                       (d', Inl e) \<Rightarrow> (d', Inl (storeErr ''api token'' e))
                     | (d', Inr _) \<Rightarrow> (d', Inr ()))))"

subsection \<open>Who am I\<close>

record me_response =
  me_mode :: string
  me_user :: string
  me_email :: string
  me_name :: string
  me_username :: string
  me_display_name :: string
  me_groups :: "string list"
  me_is_admin :: bool

text \<open>\<open>settings1\<close>: the settings store is wired, with what the driver answers.\<close>

definition display_claim :: "(string \<Rightarrow> fault) option \<Rightarrow> db \<Rightarrow> string" where
  "display_claim settings1 d =
     (case settings1 of
        None \<Rightarrow> ''name''
      | Some flt \<Rightarrow>
          (case Auth flt d of Inl _ \<Rightarrow> ''name'' | Inr a \<Rightarrow> if a_oidc_display_claim a \<noteq> [] then a_oidc_display_claim a else ''name''))"

definition displayName :: "(string \<Rightarrow> fault) option \<Rightarrow> db \<Rightarrow> identity \<Rightarrow> string \<Rightarrow> string" where
  "displayName settings1 d ident mode =
     (if mode \<noteq> ''oidc'' then id_user ident
      else
        let claim = display_claim settings1 d;
            preferred = (if claim = ''preferred_username'' then id_username ident
                         else if claim = ''email'' then id_email ident else id_name ident)
        in if preferred \<noteq> [] then preferred
           else if id_name ident \<noteq> [] then id_name ident
           else if id_username ident \<noteq> [] then id_username ident
           else if id_email ident \<noteq> [] then id_email ident
           else id_user ident)"

definition me :: "(string \<Rightarrow> fault) option \<Rightarrow> db \<Rightarrow> identity \<Rightarrow> me_response" where
  "me settings1 d ident =
     (let (mode, isAdmin) = (if id_mode ident = [] then (''open'', True) else (id_mode ident, id_is_admin ident))
      in \<lparr>me_mode = mode, me_user = id_user ident, me_email = id_email ident, me_name = id_name ident,
          me_username = id_username ident, me_display_name = displayName settings1 d ident mode,
          me_groups = id_groups ident, me_is_admin = isAdmin\<rparr>)"

end
