(* ===== verification/Settings_Props.thy ===== *)
theory Settings_Props
  imports Settings_Env
begin

text \<open>
  The settings table keeps the type of every key: seeding, single writes, transactions and the environment
  store only documents the section accessors can decode, and an accessor returns what was stored.
\<close>

subsection \<open>Typed tables\<close>

definition view_typed :: "(string \<rightharpoonup> raw) \<Rightarrow> bool" where
  "view_typed m \<longleftrightarrow> list_all (\<lambda>(k, dv).
     case m k of None \<Rightarrow> True | Some (RawDoc j) \<Rightarrow> Unmarshal (type_of dv) j \<noteq> None | Some _ \<Rightarrow> False) defaults"

definition setting_has_type :: "string \<Rightarrow> setting_value \<Rightarrow> bool" where
  "setting_has_type k v \<longleftrightarrow> value_ok v \<and>
     (case map_of defaults k of None \<Rightarrow> True | Some dv \<Rightarrow> type_of v = type_of dv)"

lemma distinct_defaults: "distinct (map fst defaults)"
  by code_simp

lemma defaults_ok: "list_all (\<lambda>(k, v). value_ok v) defaults"
  by (simp add: defaults_def map_ok_def int64_def)

lemma default_value_in:
  assumes "(k, dv) \<in> set defaults"
  shows "default_value k = dv" "map_of defaults k = Some dv" "value_ok dv"
proof -
  show "map_of defaults k = Some dv" using distinct_defaults assms by (simp add: map_of_is_SomeI)
  then show "default_value k = dv" by (simp add: default_value_def)
  show "value_ok dv" using defaults_ok assms by (auto simp: list_all_iff)
qed

lemma view_typedD:
  assumes "view_typed m" "map_of defaults k = Some dv" "m k = Some r"
  shows "\<exists>j v. r = RawDoc j \<and> Unmarshal (type_of dv) j = Some v"
  using assms map_of_SomeD [OF assms(2)] by (fastforce simp: view_typed_def list_all_iff split: raw.splits)

lemma view_typedI:
  assumes "\<forall>k dv r. map_of defaults k = Some dv \<longrightarrow> m k = Some r \<longrightarrow>
      (\<exists>j v. r = RawDoc j \<and> Unmarshal (type_of dv) j = Some v)"
  shows "view_typed m"
  unfolding view_typed_def list_all_iff
proof (clarify)
  fix k dv assume "(k, dv) \<in> set defaults"
  from default_value_in(2) [OF this] assms
  show "case m k of None \<Rightarrow> True | Some (RawDoc j) \<Rightarrow> Unmarshal (type_of dv) j \<noteq> None | Some _ \<Rightarrow> False"
    by (fastforce split: option.split raw.split)
qed

lemma view_typed_upd:
  assumes "view_typed m" "setting_has_type k v"
  shows "view_typed (m(k \<mapsto> RawDoc (Marshal v)))"
proof (rule view_typedI, intro allI impI)
  fix k' dv r
  assume k': "map_of defaults k' = Some dv" and r: "(m(k \<mapsto> RawDoc (Marshal v))) k' = Some r"
  show "\<exists>j v. r = RawDoc j \<and> Unmarshal (type_of dv) j = Some v"
  proof (cases "k' = k")
    case True
    then have "type_of v = type_of dv" "value_ok v" using assms(2) k' by (auto simp: setting_has_type_def)
    then show ?thesis using True r Unmarshal_Marshal [of v] by auto
  next
    case False
    then show ?thesis using view_typedD [OF assms(1) k'] r by simp
  qed
qed

lemma default_has_type: "map_of defaults k = Some dv \<Longrightarrow> setting_has_type k (default_value k)"
  using default_value_in [of k dv] by (auto simp: setting_has_type_def dest: map_of_SomeD)

subsection \<open>Writers keep the table typed\<close>

lemma seed_typed:
  assumes "view_typed (settings_t d)"
  shows "view_typed (settings_t (seed k d))"
proof (cases "settings_t d k")
  case None
  have "setting_has_type k (default_value k)"
    by (cases "map_of defaults k") (simp add: setting_has_type_def default_value_def, rule default_has_type)
  from view_typed_upd [OF assms this] show ?thesis by (simp add: seed_def None default_raw_def)
qed (use assms in \<open>simp add: seed_def\<close>)

lemma seed_all_typed: "view_typed (settings_t d) \<Longrightarrow> view_typed (settings_t (fst (seed_all flt ks d)))"
  by (induction flt ks d rule: seed_all.induct) (auto simp: seed_typed split: option.split)

lemma settings_New_typed:
  assumes "view_typed (settings_t d)"
  shows "view_typed (settings_t (fst (settings_New flt order d)))"
  using seed_all_typed [OF assms, of flt order]
  by (auto simp: settings_New_def split: prod.splits sum.splits)

lemma Tx_Set_typed:
  assumes "view_typed (tx_view t)" "setting_has_type k v"
  shows "view_typed (tx_view (fst (Tx_Set rflt wflt t k v)))"
  using assms view_typed_upd [OF assms] by (auto simp: Tx_Set_def Let_def split: option.split)

lemma Tx_Commit_typed:
  assumes "view_typed (tx_view t)" "view_typed (settings_t (fst w))"
  shows "view_typed (settings_t (fst (fst (snd (Tx_Commit flt t w)))))"
  using assms by (auto simp: Tx_Commit_def split: option.split)

lemma fold_settings_notify_locked [simp]: "ss_locked (fold settings_notify ks st) = ss_locked st"
  by (induction ks arbitrary: st) (simp_all add: settings_notify_def)

lemma Settings_Set_cases:
  assumes "Settings_Set f k v w = (w', r)"
  obtains (failed) e where "r = Inl e" "w' = w"
  | (stored) "r = Inr ()" "fst w' = (fst w)\<lparr>settings_t := (settings_t (fst w))(k \<mapsto> RawDoc (Marshal v))\<rparr>"
      "ss_locked (snd w') = ss_locked (snd w)"
proof (cases "sf_begin f = None \<and> sf_write f = None \<and> sf_commit f = None")
  case True
  then have "r = Inr ()" "fst w' = (fst w)\<lparr>settings_t := (settings_t (fst w))(k \<mapsto> RawDoc (Marshal v))\<rparr>"
    "ss_locked (snd w') = ss_locked (snd w)"
    using assms by (auto simp: Settings_Set_def Begin_def Tx_Set_def Tx_Commit_def Let_def)
  then show thesis by (rule stored)
next
  case False
  then show thesis using assms failed
    by (cases "sf_begin f"; cases "sf_write f"; cases "sf_commit f")
       (auto simp: Settings_Set_def Begin_def Tx_Set_def Tx_Commit_def Let_def)
qed

lemma Settings_Set_succeeds:
  "sf_begin f = None \<Longrightarrow> sf_write f = None \<Longrightarrow> sf_commit f = None \<Longrightarrow> \<exists>w'. Settings_Set f k v w = (w', Inr ())"
  by (auto simp: Settings_Set_def Begin_def Tx_Set_def Tx_Commit_def Let_def)

lemma Settings_Set_typed:
  assumes "Settings_Set f k v w = (w', r)" "view_typed (settings_t (fst w))" "setting_has_type k v"
  shows "view_typed (settings_t (fst w'))"
  using assms(1)
proof (cases rule: Settings_Set_cases)
  case stored
  then show ?thesis using view_typed_upd [OF assms(2,3)] by simp
qed (use assms in simp)

text \<open>The ways one turn of the environment loop can go.\<close>

definition env_text :: "(string \<rightharpoonup> string) \<Rightarrow> string \<Rightarrow> string" where
  "env_text raw env = (case raw env of None \<Rightarrow> [] | Some v \<Rightarrow> v)"

definition env_keeps :: "bool \<Rightarrow> raw option \<Rightarrow> string \<Rightarrow> bool" where
  "env_keeps lockEnv stored key \<longleftrightarrow> \<not> lockEnv \<and> key \<noteq> ''auth.mode'' \<and> operator_value stored key"

lemma seed_env_cases:
  obtains (failed) e where "seed_env parse f lockEnv raw ((env, key) # es) w locked = (w, Inl e)"
  | (skip) v where "env_value parse key (env_text raw env) = Some v" "env_keeps lockEnv (settings_t (fst w) key) key"
      "seed_env parse f lockEnv raw ((env, key) # es) w locked = seed_env parse f lockEnv raw es w locked"
  | (set_failed) v w' e where "env_value parse key (env_text raw env) = Some v"
      "Settings_Set (ef_set f env) key v w = (w', Inl e)"
      "seed_env parse f lockEnv raw ((env, key) # es) w locked = (w', Inl e)"
  | (set_ok) v w' where "env_value parse key (env_text raw env) = Some v"
      "Settings_Set (ef_set f env) key v w = (w', Inr ())"
      "\<not> env_keeps lockEnv (settings_t (fst w) key) key"
      "seed_env parse f lockEnv raw ((env, key) # es) w locked =
       seed_env parse f lockEnv raw es w' (if lockEnv then locked @ [key] else locked)"
proof -
  let ?go = "seed_env parse f lockEnv raw ((env, key) # es) w locked"
  show thesis
  proof (cases "env_value parse key (env_text raw env)")
    case None
    then have "?go = (w, Inl (ErrDB env))" by (simp add: env_text_def)
    then show thesis by (rule failed)
  next
    case (Some v)
    then have v: "env_value parse key (case raw env of None \<Rightarrow> [] | Some v \<Rightarrow> v) = Some v" by (simp add: env_text_def)
    obtain w' r where s: "Settings_Set (ef_set f env) key v w = (w', r)" by fastforce
    show thesis
    proof (cases "\<not> lockEnv \<and> key \<noteq> ''auth.mode'' \<and> ef_get f env \<noteq> None")
      case True
      then have "\<exists>e. ?go = (w, Inl e)" using v by (auto simp: rbind_def Get_def)
      then show thesis using failed by blast
    next
      case False
      then have g: "(if \<not> lockEnv \<and> key \<noteq> ''auth.mode''
          then rbind (Get (ef_get f env) (fst w) key) (\<lambda>stored. Inr (operator_value stored key))
          else Inr False) = (Inr (env_keeps lockEnv (settings_t (fst w) key) key) :: bool res)"
        by (auto simp: rbind_def Get_def env_keeps_def)
      have go: "?go = (if env_keeps lockEnv (settings_t (fst w) key) key then seed_env parse f lockEnv raw es w locked
          else case r of Inl e \<Rightarrow> (w', Inl e)
               | Inr _ \<Rightarrow> seed_env parse f lockEnv raw es w' (if lockEnv then locked @ [key] else locked))"
        by (simp only: seed_env.simps v option.case g s) (simp split: sum.split)
      show thesis
        using go Some s skip set_failed set_ok
        by (cases r) (auto split: if_splits)
    qed
  qed
qed

lemma env_value_typed:
  assumes "env_value parse k s = Some v" "map_of defaults k = Some dv"
  shows "setting_has_type k v"
proof -
  have "\<exists>j. Unmarshal (type_of (default_value k)) j = Some v"
    using assms(1) by (auto simp: env_value_def Let_def split: raw.splits option.splits)
  moreover have "default_value k = dv" using assms(2) by (simp add: default_value_def)
  ultimately show ?thesis using assms(2) by (auto simp: setting_has_type_def dest: Unmarshal_ok)
qed

lemma seed_env_typed:
  assumes "view_typed (settings_t (fst w))" "\<forall>(e, k)\<in>set es. map_of defaults k \<noteq> None"
  shows "view_typed (settings_t (fst (fst (seed_env parse f lockEnv raw es w locked))))"
  using assms
proof (induction es arbitrary: w locked)
  case (Cons e es)
  obtain env key where e: "e = (env, key)" by fastforce
  obtain dv where dv: "map_of defaults key = Some dv" and es: "\<forall>(e, k)\<in>set es. map_of defaults k \<noteq> None"
    using Cons.prems by (auto simp: e)
  show ?case unfolding e
  proof (cases rule: seed_env_cases [of parse f lockEnv raw env key es w locked])
    case (failed err)
    then show "view_typed (settings_t (fst (fst (seed_env parse f lockEnv raw ((env, key) # es) w locked))))"
      by (simp only: failed fst_conv) (rule Cons.prems)
  next
    case (skip v)
    show "view_typed (settings_t (fst (fst (seed_env parse f lockEnv raw ((env, key) # es) w locked))))"
      unfolding skip(3) using Cons.prems(1) es by (rule Cons.IH)
  next
    case (set_failed v w' err)
    show "view_typed (settings_t (fst (fst (seed_env parse f lockEnv raw ((env, key) # es) w locked))))"
      unfolding set_failed(3) fst_conv
      by (rule Settings_Set_typed [OF set_failed(2) Cons.prems(1) env_value_typed [OF set_failed(1) dv]])
  next
    case (set_ok v w')
    have "view_typed (settings_t (fst w'))"
      by (rule Settings_Set_typed [OF set_ok(2) Cons.prems(1) env_value_typed [OF set_ok(1) dv]])
    then show "view_typed (settings_t (fst (fst (seed_env parse f lockEnv raw ((env, key) # es) w locked))))"
      unfolding set_ok(4) using es by (rule Cons.IH)
  qed
qed simp

lemma section_key_default: "section_key rest sec = Some k \<Longrightarrow> map_of defaults k \<noteq> None"
  by (auto simp: section_key_def Let_def split: if_splits)

lemma EnvKeyToSetting_default: "EnvKeyToSetting e = Some k \<Longrightarrow> map_of defaults k \<noteq> None"
proof -
  assume "EnvKeyToSetting e = Some k"
  then have "k \<in> set (List.map_filter (section_key (ToLower (TrimPrefix e ''ST_''))) envSections)"
    by (auto simp: EnvKeyToSetting_def Let_def split: if_splits list.splits)
  then show ?thesis by (auto simp: List.map_filter_def dest: section_key_default)
qed

lemma env_entries_default: "(e, k) \<in> set (env_entries order) \<Longrightarrow> map_of defaults k \<noteq> None \<and> EnvKeyToSetting e = Some k"
  by (auto simp: env_entries_def List.map_filter_def dest: EnvKeyToSetting_default)

lemma SeedFromEnv_typed:
  assumes "view_typed (settings_t (fst w))"
  shows "view_typed (settings_t (fst (fst (SeedFromEnv parse f order environ w))))"
proof -
  have "view_typed (settings_t (fst (fst (seed_env parse f l raw (env_entries order) w []))))" for l raw
    using assms by (intro seed_env_typed) (auto dest!: env_entries_default)
  then show ?thesis by (simp add: SeedFromEnv_def Let_def split: prod.split sum.split) (metis fst_conv)
qed


subsection \<open>Readers succeed on a typed table\<close>

lemma read_key_typed:
  assumes "view_typed (settings_t d)" "flt k = None" "map_of defaults k = Some dv"
    "\<forall>j v. Unmarshal (type_of dv) j = Some v \<longrightarrow> (\<exists>x. f j = Some x)"
  shows "\<exists>x. read_key flt d k f = Inr x"
proof (cases "settings_t d k")
  case None
  have "Unmarshal (type_of dv) (Marshal dv) = Some dv"
    using default_value_in(3) [OF map_of_SomeD [OF assms(3)]] by (rule Unmarshal_Marshal)
  then obtain x where "f (Marshal dv) = Some x" using assms(4) by blast
  then show ?thesis
    by (simp add: read_key_def Get_def rbind_def assms(2) None default_raw_def default_value_def assms(3))
next
  case (Some r)
  from view_typedD [OF assms(1,3) Some] obtain j v where "r = RawDoc j" "Unmarshal (type_of dv) j = Some v" by blast
  moreover from this obtain x where "f j = Some x" using assms(4) by blast
  ultimately show ?thesis by (simp add: read_key_def Get_def rbind_def assms(2) Some)
qed

lemma read_key_kinds:
  assumes "view_typed (settings_t d)" "flt k = None"
  shows "map_option type_of (map_of defaults k) = Some TString \<Longrightarrow> \<exists>x. read_key flt d k dec_string = Inr x"
    and "map_option type_of (map_of defaults k) = Some TInt \<Longrightarrow> \<exists>x. read_key flt d k dec_int = Inr x"
    and "map_option type_of (map_of defaults k) = Some TBool \<Longrightarrow> \<exists>x. read_key flt d k dec_bool = Inr x"
    and "map_option type_of (map_of defaults k) = Some TFloatPtr \<Longrightarrow> \<exists>x. read_key flt d k unm_float = Inr x"
    and "map_option type_of (map_of defaults k) = Some TRawMessage \<Longrightarrow> \<exists>x. read_key flt d k Some = Inr x"
    and "map_option type_of (map_of defaults k) = Some TStringMap \<Longrightarrow> \<exists>x. read_key flt d k unm_map = Inr x"
    and "map_option type_of (map_of defaults k) = Some TChannels \<Longrightarrow> \<exists>x. read_key flt d k (unm_list elem_channel) = Inr x"
    and "map_option type_of (map_of defaults k) = Some TThresholds \<Longrightarrow> \<exists>x. read_key flt d k unm_thresholds = Inr x"
    and "map_option type_of (map_of defaults k) = Some TStrings \<Longrightarrow> \<exists>x. read_key flt d k (unm_list elem_str) = Inr x"
  by (cases "map_of defaults k"; auto intro!: read_key_typed [where flt = flt and k = k, OF assms] simp: dec_string_def dec_int_def dec_bool_def)+

text \<open>The type of every key.\<close>

lemma default_types:
  "map (\<lambda>(k, v). (k, type_of v)) defaults = [
    (''general.base_url'', TString), (''general.timezone'', TString), (''general.units'', TString),
    (''general.log_level'', TString), (''general.retention_days_results'', TInt),
    (''general.retention_days_runs'', TInt), (''general.retention_prune_interval_minutes'', TInt),
    (''general.sla_download_mbps'', TFloatPtr), (''general.sla_upload_mbps'', TFloatPtr),
    (''general.sla_tolerance_pct'', TFloatPtr), (''engines.speedtest_bin'', TString),
    (''engines.iperf3_bin'', TString), (''engines.ookla_accept_license'', TBool),
    (''engines.ookla_accept_gdpr'', TBool), (''engines.server_list_ttl_seconds'', TInt),
    (''engines.default_ookla_options'', TRawMessage),
    (''engines.default_cloudflare_options'', TRawMessage),
    (''engines.default_iperf3_options'', TRawMessage), (''engines.iperf3_list_url'', TString),
    (''integrations.vm_enabled'', TBool), (''integrations.vm_url'', TString),
    (''integrations.vm_auth_header'', TString), (''integrations.vm_auth_type'', TString),
    (''integrations.vm_auth_username'', TString), (''integrations.vm_auth_password'', TString),
    (''integrations.vm_auth_token'', TString), (''integrations.vm_auth_header_name'', TString),
    (''integrations.vm_auth_header_value'', TString), (''integrations.vm_extra_labels'', TStringMap),
    (''integrations.vl_enabled'', TBool), (''integrations.vl_url'', TString),
    (''integrations.vl_auth_header'', TString), (''integrations.vl_auth_type'', TString),
    (''integrations.vl_auth_username'', TString), (''integrations.vl_auth_password'', TString),
    (''integrations.vl_auth_token'', TString), (''integrations.vl_auth_header_name'', TString),
    (''integrations.vl_auth_header_value'', TString), (''integrations.vl_stream_fields'', TStringMap),
    (''integrations.metrics_enabled'', TBool), (''notifications.enabled'', TBool),
    (''notifications.channels'', TChannels), (''notifications.default_thresholds'', TThresholds),
    (''notifications.cooldown_minutes'', TInt), (''notifications.quiet_hours_start'', TString),
    (''notifications.quiet_hours_end'', TString), (''notifications.notify_recovery'', TBool),
    (''auth.mode'', TString), (''auth.user_header'', TString), (''auth.groups_header'', TString),
    (''auth.groups_separator'', TString), (''auth.trusted_proxies'', TStrings),
    (''auth.admin_group'', TString), (''auth.allow_tokens'', TBool), (''auth.oidc_issuer'', TString),
    (''auth.oidc_client_id'', TString), (''auth.oidc_client_secret'', TString),
    (''auth.oidc_redirect_base_url'', TString), (''auth.oidc_scopes'', TStrings),
    (''auth.oidc_groups_claim'', TString), (''auth.oidc_allowed_groups'', TStrings),
    (''auth.oidc_allowed_emails'', TStrings), (''auth.oidc_display_claim'', TString),
    (''auth.session_ttl_hours'', TInt)]"
  by (simp add: defaults_def)

lemma default_kinds:
  "list_all (\<lambda>(k, ty). map_option type_of (map_of defaults k) = Some ty) (map (\<lambda>(k, v). (k, type_of v)) defaults)"
  by (auto simp: list_all_iff default_value_in(2))

lemmas default_kind = default_kinds [unfolded default_types list.pred_inject prod.case simp_thms]

lemma rbind_ok: "\<exists>x. r = Inr x \<Longrightarrow> (\<And>x. \<exists>y. f x = Inr y) \<Longrightarrow> \<exists>y. rbind r f = Inr y"
  by (auto simp: rbind_def)


lemma sections_typed:
  assumes "view_typed (settings_t d)" "\<forall>k. flt k = None"
  shows "\<exists>g. General flt d = Inr g" "\<exists>e. Engines flt d = Inr e" "\<exists>i. Integrations flt d = Inr i"
    "\<exists>n. Notifications flt d = Inr n" "\<exists>a. Auth flt d = Inr a"
proof -
  have flt: "flt k = None" for k using assms(2) by simp
  note kinds = read_key_kinds [OF assms(1) flt]
  show "\<exists>g. General flt d = Inr g" unfolding General_def
    by (intro rbind_ok kinds) (simp_all add: default_kind)
  show "\<exists>e. Engines flt d = Inr e" unfolding Engines_def
    by (intro rbind_ok kinds) (simp_all add: default_kind)
  show "\<exists>i. Integrations flt d = Inr i" unfolding Integrations_def
    by (intro rbind_ok kinds) (simp_all add: default_kind)
  show "\<exists>n. Notifications flt d = Inr n" unfolding Notifications_def
    by (intro rbind_ok kinds) (simp_all add: default_kind)
  show "\<exists>a. Auth flt d = Inr a" unfolding Auth_def
    by (intro rbind_ok kinds) (simp_all add: default_kind)
qed

subsection \<open>Reachable tables\<close>

text \<open>
  The states of the settings store over any number of process starts: from an empty table, through \<open>New\<close>
  (complete or failing half way), writes of a value of the key's type, transactions of such writes, and
  the environment.
\<close>

inductive tx_run :: "tx \<Rightarrow> tx \<Rightarrow> bool" where
  nil: "tx_run t t"
| set: "tx_run t u \<Longrightarrow> setting_has_type k v \<Longrightarrow> tx_run t (fst (Tx_Set rflt wflt u k v))"

inductive settings_reach :: "db \<times> settings_store \<Rightarrow> bool" where
  fresh: "settings_t d = Map.empty \<Longrightarrow> settings_reach (d, st)"
| new: "settings_reach (d, st) \<Longrightarrow> settings_reach (fst (settings_New flt order d), st')"
| set: "settings_reach w \<Longrightarrow> setting_has_type k v \<Longrightarrow> settings_reach (fst (Settings_Set f k v w))"
| tx: "settings_reach w \<Longrightarrow> Begin flt (fst w) = Inr t \<Longrightarrow> tx_run t u \<Longrightarrow>
     settings_reach (fst (snd (Tx_Commit flt' u w)))"
| env: "settings_reach w \<Longrightarrow> settings_reach (fst (SeedFromEnv parse f order environ w))"

lemma tx_run_typed: "tx_run t u \<Longrightarrow> view_typed (tx_view t) \<Longrightarrow> view_typed (tx_view u)"
  by (induction rule: tx_run.induct) (auto intro: Tx_Set_typed)

lemma settings_reach_typed: "settings_reach w \<Longrightarrow> view_typed (settings_t (fst w))"
proof (induction rule: settings_reach.induct)
  case (fresh d st)
  then show ?case by (auto simp: view_typed_def list_all_iff)
next
  case (new d st flt order st')
  then show ?case using settings_New_typed by simp
next
  case (set w k v f)
  then show ?case using Settings_Set_typed [of f k v w] by (metis surjective_pairing)
next
  case (tx w flt t u flt')
  then have "view_typed (tx_view t)" by (auto simp: Begin_def split: option.splits)
  then show ?case using tx.IH tx_run_typed [OF tx.hyps(3)] by (intro Tx_Commit_typed)
next
  case (env w parse f order environ)
  then show ?case by (intro SeedFromEnv_typed)
qed

text \<open>C15: in every state the settings store can reach over any number of starts, seedings, writes,
  transactions and environment overrides, all five sections decode: no stored document ever has the wrong
  type for its key, so an accessor fails only when the database does.\<close>

theorem sections_always_decode:
  assumes "settings_reach w" "\<forall>k. flt k = None"
  shows "(\<exists>g. General flt (fst w) = Inr g) \<and> (\<exists>e. Engines flt (fst w) = Inr e) \<and>
    (\<exists>i. Integrations flt (fst w) = Inr i) \<and>
    (\<exists>n. Notifications flt (fst w) = Inr n \<and> 1 \<le> n_cooldown_minutes n) \<and>
    (\<exists>a. Auth flt (fst w) = Inr a \<and> a_groups_separator a \<noteq> [])"
proof -
  have t: "view_typed (settings_t (fst w))" using assms(1) by (rule settings_reach_typed)
  have n: "1 \<le> n_cooldown_minutes n" if "Notifications flt (fst w) = Inr n" for n
    using that by (auto simp: Notifications_def rbind_def split: sum.splits)
  have a: "a_groups_separator a \<noteq> []" if "Auth flt (fst w) = Inr a" for a
    using that by (auto simp: Auth_def rbind_def split: sum.splits if_splits)
  show ?thesis using sections_typed [OF t assms(2)] n a by blast
qed

theorem sections_always_decode_witness:
  "settings_reach (fst (SeedFromEnv (\<lambda>s. RawBad s) \<lparr>ef_get = \<lambda>e. None, ef_set = \<lambda>e. \<lparr>sf_begin = None, sf_read = None,
      sf_write = None, sf_commit = None\<rparr>\<rparr> [''ST_AUTH_MODE''] [''ST_AUTH_MODE=token'']
      (empty_db, \<lparr>ss_subs = Map.empty, ss_next = 0, ss_locked = {}\<rparr>))) \<and>
   (\<exists>n. Notifications (\<lambda>k. None) (fst (fst (SeedFromEnv (\<lambda>s. RawBad s) \<lparr>ef_get = \<lambda>e. None, ef_set = \<lambda>e. \<lparr>sf_begin = None, sf_read = None,
      sf_write = None, sf_commit = None\<rparr>\<rparr> [''ST_AUTH_MODE''] [''ST_AUTH_MODE=token'']
      (empty_db, \<lparr>ss_subs = Map.empty, ss_next = 0, ss_locked = {}\<rparr>)))) = Inr n \<and> 1 \<le> n_cooldown_minutes n)"
proof -
  have "settings_reach (empty_db, \<lparr>ss_subs = Map.empty, ss_next = 0, ss_locked = {}\<rparr>)"
    by (rule settings_reach.fresh) (simp add: empty_db_def)
  then have r: "settings_reach (fst (SeedFromEnv (\<lambda>s. RawBad s) \<lparr>ef_get = \<lambda>e. None, ef_set = \<lambda>e. \<lparr>sf_begin = None, sf_read = None,
      sf_write = None, sf_commit = None\<rparr>\<rparr> [''ST_AUTH_MODE''] [''ST_AUTH_MODE=token'']
      (empty_db, \<lparr>ss_subs = Map.empty, ss_next = 0, ss_locked = {}\<rparr>)))"
    by (rule settings_reach.env)
  show ?thesis using r sections_always_decode [OF r, of "\<lambda>k. None"] by simp
qed


subsection \<open>What the environment overrides\<close>

definition env_final :: "(string \<Rightarrow> raw) \<Rightarrow> bool \<Rightarrow> (string \<rightharpoonup> string) \<Rightarrow> (string \<times> string) list \<Rightarrow> (string \<rightharpoonup> raw) \<Rightarrow> string \<rightharpoonup> raw" where
  "env_final parse lockEnv raw es m k =
     (case find (\<lambda>(e, k'). k' = k) es of
        None \<Rightarrow> m k
      | Some (e, _) \<Rightarrow>
          if lockEnv \<or> k = ''auth.mode'' \<or> \<not> operator_value (m k) k
          then map_option (\<lambda>v. RawDoc (Marshal v)) (env_value parse k (env_text raw e)) else m k)"

lemma env_final_absent: "k \<notin> snd ` set es \<Longrightarrow> env_final parse l raw es m k = m k"
proof -
  assume "k \<notin> snd ` set es"
  then have "find (\<lambda>(e, k'). k' = k) es = None" by (force simp: find_None)
  then show ?thesis by (simp add: env_final_def)
qed

lemma env_final_cong: "m x = m' x \<Longrightarrow> env_final parse l raw es m x = env_final parse l raw es m' x"
  by (simp only: env_final_def)

lemma env_final_Cons:
  "env_final parse l raw ((e, k) # es) m =
   (env_final parse l raw es m)(k := if env_keeps l (m k) k then m k
      else map_option (\<lambda>v. RawDoc (Marshal v)) (env_value parse k (env_text raw e)))"
  by (auto simp: env_final_def env_keeps_def)

lemma env_final_upd: "k \<notin> snd ` set es \<Longrightarrow> env_final parse l raw es (m(k \<mapsto> r)) = (env_final parse l raw es m)(k \<mapsto> r)"
proof
  fix x assume "k \<notin> snd ` set es"
  then show "env_final parse l raw es (m(k \<mapsto> r)) x = ((env_final parse l raw es m)(k \<mapsto> r)) x"
    using env_final_cong [of "m(k \<mapsto> r)" x m] by (cases "x = k") (simp_all add: env_final_absent)
qed

lemma seed_env_final:
  assumes "seed_env parse f l raw es w lk = (w', Inr lk')" "distinct (map snd es)"
  shows "settings_t (fst w') = env_final parse l raw es (settings_t (fst w)) \<and>
    lk' = lk @ (if l then map snd es else []) \<and> ss_locked (snd w') = ss_locked (snd w)"
  using assms
proof (induction es arbitrary: w lk)
  case Nil
  then show ?case by (auto simp: env_final_def)
next
  case (Cons x es)
  obtain env key where x: "x = (env, key)" by fastforce
  have key: "key \<notin> snd ` set es" and d: "distinct (map snd es)" using Cons.prems(2) by (auto simp: x)
  let ?m = "settings_t (fst w)"
  show ?case
  proof (cases rule: seed_env_cases [of parse f l raw env key es w lk])
    case (failed e)
    then show ?thesis using Cons.prems(1) by (simp only: x) simp
  next
    case (set_failed v w1 e)
    then show ?thesis using Cons.prems(1) by (simp only: x) simp
  next
    case (skip v)
    have "seed_env parse f l raw es w lk = (w', Inr lk')" using Cons.prems(1) skip(3) by (simp only: x)
    from Cons.IH [OF this d] skip(2) key show ?thesis
      by (auto simp: x env_final_Cons env_final_absent env_keeps_def intro!: ext)
  next
    case (set_ok v w1)
    have s: "seed_env parse f l raw es w1 (if l then lk @ [key] else lk) = (w', Inr lk')"
      using Cons.prems(1) set_ok(4) by (simp only: x)
    have m: "settings_t (fst w1) = ?m(key \<mapsto> RawDoc (Marshal v))"
      using set_ok(2) by (cases rule: Settings_Set_cases) auto
    have "ss_locked (snd w1) = ss_locked (snd w)" using set_ok(2) by (cases rule: Settings_Set_cases) auto
    moreover have "env_final parse l raw es (settings_t (fst w1)) =
        (env_final parse l raw es ?m)(key \<mapsto> RawDoc (Marshal v))"
      unfolding m by (rule env_final_upd [OF key])
    ultimately show ?thesis using Cons.IH [OF s d] set_ok(1,3) by (simp add: x env_final_Cons)
  qed
qed

text \<open>When seeding from the environment succeeds, each key ends with exactly one of three values: the
  stored one when no variable names it; the variable's when the environment is authoritative
  (\<open>ST_LOCK_ENV\<close>), when the key is \<open>auth.mode\<close> (the way back in after a lockout) or when the stored value
  is still the default; and the operator's own value otherwise. The keys reported as locked are exactly
  the keys named by a variable when \<open>ST_LOCK_ENV\<close> is set, and none otherwise.\<close>

theorem environment_overrides:
  assumes "SeedFromEnv parse f order environ w = (w', Inr locked)" "distinct (map snd (env_entries order))"
  shows "settings_t (fst w') k =
      (case find (\<lambda>(e, k'). k' = k) (env_entries order) of
         None \<Rightarrow> settings_t (fst w) k
       | Some (e, _) \<Rightarrow>
           if lock_env (env_map environ) \<or> k = ''auth.mode'' \<or> \<not> operator_value (settings_t (fst w) k) k
           then map_option (\<lambda>v. RawDoc (Marshal v)) (env_value parse k (env_text (env_map environ) e))
           else settings_t (fst w) k) \<and>
    set locked = (if lock_env (env_map environ) then snd ` set (env_entries order) else {}) \<and>
    (IsLocked (snd w') k \<longleftrightarrow> IsLocked (snd w) k \<or> k \<in> set locked)"
proof -
  let ?raw = "env_map environ"
  obtain w1 r where s: "seed_env parse f (lock_env ?raw) ?raw (env_entries order) w [] = (w1, r)" by fastforce
  obtain lk where r: "r = Inr lk" "locked = sort lk" "fst w' = fst w1"
      "ss_locked (snd w') = ss_locked (snd w1) \<union> set lk"
    using assms(1) s by (cases r) (auto simp: SeedFromEnv_def Let_def)
  from seed_env_final [OF s [unfolded r(1)] assms(2)] show ?thesis
    by (auto simp: r(2-4) IsLocked_def env_final_def)
qed

definition env_no_faults :: env_faults where
  "env_no_faults = \<lparr>ef_get = \<lambda>e. None,
     ef_set = \<lambda>e. \<lparr>sf_begin = None, sf_read = None, sf_write = None, sf_commit = None\<rparr>\<rparr>"

definition locked_out :: "db \<times> settings_store" where
  "locked_out = (empty_db\<lparr>settings_t := [''auth.mode'' \<mapsto> RawDoc (JStr ''oidc'')]\<rparr>,
     \<lparr>ss_subs = Map.empty, ss_next = 0, ss_locked = {}\<rparr>)"

lemma lockout_entries: "env_entries [''PATH'', ''ST_AUTH_MODE''] = [(''ST_AUTH_MODE'', ''auth.mode'')]"
  by code_simp

lemma lockout_result:
  "\<exists>w'. SeedFromEnv RawBad env_no_faults [''PATH'', ''ST_AUTH_MODE''] [''PATH=/bin'', ''ST_AUTH_MODE=open''] locked_out = (w', Inr [])"
proof -
  have "env_map [''PATH=/bin'', ''ST_AUTH_MODE=open''] = [''PATH'' \<mapsto> ''/bin'', ''ST_AUTH_MODE'' \<mapsto> ''open'']"
    by (auto simp: env_map_def Cut_eq_def List.map_filter_def)
  moreover have "default_value ''auth.mode'' = VString ''open''" by code_simp
  moreover obtain w' where "Settings_Set (ef_set env_no_faults ''ST_AUTH_MODE'') ''auth.mode'' (VString ''open'') locked_out = (w', Inr ())"
    using Settings_Set_succeeds [of "ef_set env_no_faults ''ST_AUTH_MODE''" "''auth.mode''" "VString ''open''" locked_out]
    by (simp add: env_no_faults_def) blast
  ultimately show ?thesis
    by (simp add: SeedFromEnv_def lockout_entries lock_env_def env_value_def or_zero_def)
qed

theorem environment_overrides_witness:
  "\<exists>w'. SeedFromEnv RawBad env_no_faults [''PATH'', ''ST_AUTH_MODE''] [''PATH=/bin'', ''ST_AUTH_MODE=open''] locked_out = (w', Inr []) \<and>
     settings_t (fst w') ''auth.mode'' = Some (RawDoc (JStr ''open''))"
proof -
  obtain w' where w': "SeedFromEnv RawBad env_no_faults [''PATH'', ''ST_AUTH_MODE''] [''PATH=/bin'', ''ST_AUTH_MODE=open''] locked_out = (w', Inr [])"
    using lockout_result by blast
  have e: "env_text (env_map [''PATH=/bin'', ''ST_AUTH_MODE=open'']) ''ST_AUTH_MODE'' = ''open''"
    by (simp add: env_text_def env_map_def Cut_eq_def List.map_filter_def)
  have t: "default_value ''auth.mode'' = VString ''open''" by code_simp
  have "settings_t (fst w') ''auth.mode'' = Some (RawDoc (JStr ''open''))"
    using environment_overrides [OF w', of "''auth.mode''"]
    by (simp add: lockout_entries e t env_value_def or_zero_def)
  with w' show ?thesis by blast
qed

end
