(* ===== verification/Auth_Props.thy ===== *)
theory Auth_Props
  imports Auth_Middleware
begin

text \<open>
  What the middleware guarantees: a request that reaches a handler carried a credential the store or a trusted
  proxy vouches for, and revoking a token ends exactly that token's access.
\<close>

subsection \<open>Outcomes of the parts\<close>

lemma identifyToken_served:
  assumes "identifyToken lib toks now mode plain m = (m', Inr ident)"
  shows "\<exists>i. toks (HashToken lib plain) = Inr (Some i) \<and> id_source ident = ''token'' \<and> id_token_id ident = i \<and>
    id_mode ident = mode \<and> id_is_admin ident \<and> m' = maybeTouch now i m"
  using assms by (auto simp: identifyToken_def split: sum.splits option.splits)

lemma identifyForward_served:
  assumes "identifyForward lib cfg r = Inr ident"
  shows "\<exists>addr. al_addrport lib (rq_remote r) = Some addr \<and> (\<exists>p\<in>set (ac_trusted cfg). p addr) \<and>
    id_source ident = ''forward'' \<and> id_mode ident = ''forward_auth'' \<and> id_user ident = Header_Get r (ac_user_header cfg) \<and>
    id_user ident \<noteq> [] \<and> (id_is_admin ident \<longleftrightarrow> ac_admin_group cfg = [] \<or> ac_admin_group cfg \<in> set (id_groups ident))"
  using assms by (auto simp: identifyForward_def Let_def split: if_splits option.splits)

lemma identifySession_served:
  assumes "identifySession lib sess now plain m = Inr ident"
  shows "\<exists>info. sess (HashSession lib plain) now = Inr (Some info) \<and> id_source ident = ''oidc'' \<and>
    id_mode ident = ''oidc'' \<and> id_is_admin ident = si_is_admin info \<and> id_email ident = si_email info"
  using assms by (auto simp: identifySession_def split: if_splits sum.splits option.splits)

lemma storeTokens_found:
  assumes "storeTokens_LookupToken flt d h = Inr (Some i)"
  shows "\<exists>row\<in>set (rows (api_tokens_t d)). tok_hash row = h \<and> tok_id row = i"
proof -
  obtain row where "find (\<lambda>r. tok_hash r = h) (rows (api_tokens_t d)) = Some row" "tok_id row = i"
    using assms by (auto simp: storeTokens_LookupToken_def APITokenByHash_def scanAPIToken_def split: option.splits)
  then show ?thesis using find_SomeD [of "\<lambda>r. tok_hash r = h"] by blast
qed

lemma storeSessions_found:
  assumes "storeSessions_LookupSession flt d h now = Inr (Some info)"
  shows "\<exists>row\<in>set (sessions_t d). \<exists>s. sr_id row = h \<and> scanSession row = Inr s \<and> now < sess_expires s \<and>
    si_is_admin info = sess_is_admin s \<and> si_email info = sess_email s"
  using assms by (auto simp: storeSessions_LookupSession_def LookupSession_def
      split: option.splits sum.splits if_splits dest: find_SomeD)

text \<open>The three sources of an identity other than open mode.\<close>

definition by_forward :: "auth_lib \<Rightarrow> auth_config \<Rightarrow> request \<Rightarrow> identity \<Rightarrow> bool" where
  "by_forward lib cfg r ident \<longleftrightarrow> id_source ident = ''forward'' \<and> ac_mode cfg = ''forward_auth'' \<and>
     (\<exists>addr. al_addrport lib (rq_remote r) = Some addr \<and> (\<exists>p\<in>set (ac_trusted cfg). p addr)) \<and>
     id_user ident = Header_Get r (ac_user_header cfg) \<and> id_user ident \<noteq> [] \<and>
     (id_is_admin ident \<longleftrightarrow> ac_admin_group cfg = [] \<or> ac_admin_group cfg \<in> set (id_groups ident))"

definition by_token :: "auth_lib \<Rightarrow> auth_config \<Rightarrow> token_lookup \<Rightarrow> request \<Rightarrow> identity \<Rightarrow> bool" where
  "by_token lib cfg toks r ident \<longleftrightarrow> id_source ident = ''token'' \<and> ac_mode cfg \<noteq> ''open'' \<and>
     (\<exists>plain. toks (HashToken lib plain) = Inr (Some (id_token_id ident)) \<and>
        (bearerToken r = Some plain \<or> ac_mode cfg \<notin> {''forward_auth'', ''oidc''} \<and> credentialToken r = Some plain)) \<and>
     (ac_mode cfg \<in> {''forward_auth'', ''oidc''} \<longrightarrow> ac_allow_tokens cfg)"

definition by_session :: "auth_lib \<Rightarrow> auth_config \<Rightarrow> session_lookup \<Rightarrow> time \<Rightarrow> request \<Rightarrow> identity \<Rightarrow> bool" where
  "by_session lib cfg sess now r ident \<longleftrightarrow> id_source ident = ''oidc'' \<and> ac_mode cfg = ''oidc'' \<and>
     (\<exists>info. sess (HashSession lib (Cookie r SessionCookie)) now = Inr (Some info) \<and>
        id_is_admin ident = si_is_admin info \<and> id_email ident = si_email info)"

lemma Handler_served:
  assumes "Handler lib toks sess now r m = (m', Served ident)"
  shows "ac_mode (mw_cfg m) = ''open'' \<and> id_source ident = ''open'' \<or> by_forward lib (mw_cfg m) r ident \<or>
    by_token lib (mw_cfg m) toks r ident \<or> by_session lib (mw_cfg m) sess now r ident"
proof -
  let ?cfg = "mw_cfg m"
  have id: "Identify lib toks sess now r m = (m', Inr ident)"
    using assms by (auto simp: Handler_def split: prod.splits sum.splits auth_error.splits)
  consider (unprotected) "ac_mode ?cfg = ''open''" | (forward) "ac_mode ?cfg = ''forward_auth''" | (token) "ac_mode ?cfg = ''token''"
    | (oidc) "ac_mode ?cfg = ''oidc''" | (other) "ac_mode ?cfg \<notin> {''open'', ''forward_auth'', ''token'', ''oidc''}" by blast
  then show ?thesis
  proof cases
    case unprotected
    then show ?thesis using id by (auto simp: Identify_def Let_def)
  next
    case forward
    show ?thesis
    proof (cases "if ac_allow_tokens ?cfg then bearerToken r else None")
      case None
      then have "identifyForward lib ?cfg r = Inr ident" using id forward by (auto simp: Identify_def Let_def)
      from identifyForward_served [OF this] show ?thesis using forward by (auto simp: by_forward_def)
    next
      case (Some plain)
      then have "identifyToken lib toks now (ac_mode ?cfg) plain m = (m', Inr ident)" using id forward by (simp add: Identify_def Let_def)
      from identifyToken_served [OF this] Some forward show ?thesis by (auto simp: by_token_def split: if_splits)
    qed
  next
    case token
    then obtain plain where "credentialToken r = Some plain" "identifyToken lib toks now (ac_mode ?cfg) plain m = (m', Inr ident)"
      using id by (auto simp: Identify_def Let_def split: option.splits)
    with identifyToken_served [OF this(2)] token show ?thesis by (auto simp: by_token_def)
  next
    case oidc
    show ?thesis
    proof (cases "if Cookie r SessionCookie \<noteq> [] then identifySession lib sess now (Cookie r SessionCookie) m else Inl ErrUnauthorized")
      case (Inr x)
      then have "x = ident" using id oidc by (simp add: Identify_def Let_def)
      then have "identifySession lib sess now (Cookie r SessionCookie) m = Inr ident" using Inr by (simp split: if_splits)
      from identifySession_served [OF this] show ?thesis using oidc by (auto simp: by_session_def)
    next
      case (Inl e)
      then have "e = ErrUnauthorized" using id oidc by (cases e) (simp_all add: Identify_def Let_def)
      then obtain plain where "ac_allow_tokens ?cfg" "bearerToken r = Some plain"
          "identifyToken lib toks now (ac_mode ?cfg) plain m = (m', Inr ident)"
        using id oidc Inl by (auto simp: Identify_def Let_def split: option.splits if_splits)
      with identifyToken_served [OF this(3)] oidc show ?thesis by (auto simp: by_token_def)
    qed
  next
    case other
    then obtain plain where "credentialToken r = Some plain"
        "identifyToken lib toks now (ac_mode ?cfg) plain (m\<lparr>mw_warned := True\<rparr>) = (m', Inr ident)"
      using id by (auto simp: Identify_def Let_def split: option.splits)
    with identifyToken_served [OF this(2)] other show ?thesis by (auto simp: by_token_def)
  qed
qed


text \<open>C24: whatever the configuration, a request that reaches a protected handler was identified in one of four
  ways: the mode is open; the mode is forward auth, the peer's address lies in a trusted prefix and the
  proxy named a user; the request carries the plaintext of an API token whose hash is stored, sent as a
  bearer token (or, outside forward auth and OIDC, as the events stream's query parameter), and the mode
  admits tokens; or the mode is OIDC and the cookie hashes to a stored session that has not expired, whose
  admin flag and address become the caller's.\<close>

theorem served_requests_have_credentials:
  assumes "Handler lib (storeTokens_LookupToken tf d) (storeSessions_LookupSession sf d) now r m = (m', Served ident)"
  shows "ac_mode (mw_cfg m) = ''open'' \<or>
    (ac_mode (mw_cfg m) = ''forward_auth'' \<and>
     (\<exists>addr. al_addrport lib (rq_remote r) = Some addr \<and> (\<exists>p\<in>set (ac_trusted (mw_cfg m)). p addr)) \<and>
     id_user ident = Header_Get r (ac_user_header (mw_cfg m)) \<and> id_user ident \<noteq> [] \<and>
     (id_is_admin ident \<longleftrightarrow> ac_admin_group (mw_cfg m) = [] \<or> ac_admin_group (mw_cfg m) \<in> set (id_groups ident))) \<or>
    (\<exists>plain. \<exists>row\<in>set (rows (api_tokens_t d)). tok_hash row = HashToken lib plain \<and> id_token_id ident = tok_id row \<and>
       (bearerToken r = Some plain \<or>
        ac_mode (mw_cfg m) \<notin> {''forward_auth'', ''oidc''} \<and> credentialToken r = Some plain) \<and>
       (ac_mode (mw_cfg m) \<notin> {''forward_auth'', ''oidc''} \<or> ac_allow_tokens (mw_cfg m))) \<or>
    (ac_mode (mw_cfg m) = ''oidc'' \<and>
     (\<exists>row\<in>set (sessions_t d). \<exists>s. sr_id row = HashSession lib (Cookie r SessionCookie) \<and> scanSession row = Inr s \<and>
        now < sess_expires s \<and> id_is_admin ident = sess_is_admin s \<and> id_email ident = sess_email s))"
  using Handler_served [OF assms]
proof (elim disjE)
  assume "by_token lib (mw_cfg m) (storeTokens_LookupToken tf d) r ident"
  then obtain plain where p: "storeTokens_LookupToken tf d (HashToken lib plain) = Inr (Some (id_token_id ident))"
    "bearerToken r = Some plain \<or> ac_mode (mw_cfg m) \<notin> {''forward_auth'', ''oidc''} \<and> credentialToken r = Some plain"
    "ac_mode (mw_cfg m) \<notin> {''forward_auth'', ''oidc''} \<or> ac_allow_tokens (mw_cfg m)"
    unfolding by_token_def by blast
  from storeTokens_found [OF p(1)] obtain row where
    "row \<in> set (rows (api_tokens_t d))" "tok_hash row = HashToken lib plain" "tok_id row = id_token_id ident" by blast
  with p(2,3) show ?thesis
    by (intro disjI2 [OF disjI2 [OF disjI1]] exI [of _ plain] bexI [of _ row] conjI) simp_all
next
  assume "by_session lib (mw_cfg m) (storeSessions_LookupSession sf d) now r ident"
  then obtain info where "ac_mode (mw_cfg m) = ''oidc''" "id_is_admin ident = si_is_admin info" "id_email ident = si_email info"
    "storeSessions_LookupSession sf d (HashSession lib (Cookie r SessionCookie)) now = Inr (Some info)"
    by (auto simp: by_session_def)
  with storeSessions_found [OF this(4)] show ?thesis by auto
qed (auto simp: by_forward_def)

subsection \<open>Revocation\<close>

text \<open>
  What the middleware relies on of the token store: a revoked token is not found again, and the others are found
  as before.
\<close>

locale token_directory =
  fixes lookup :: "'d \<Rightarrow> token_lookup" and revoke :: "'d \<Rightarrow> int \<Rightarrow> 'd" and invar :: "'d \<Rightarrow> bool"
  assumes revoked: "invar d \<Longrightarrow> lookup (revoke d i) h \<noteq> Inr (Some i)"
    and others: "invar d \<Longrightarrow> lookup d h = Inr (Some j) \<Longrightarrow> j \<noteq> i \<Longrightarrow> lookup (revoke d i) h = Inr (Some j)"
begin

lemma revoked_not_served:
  assumes "invar d" "Handler lib (lookup (revoke d i)) sess now r m = (m', Served ident)" "id_source ident = ''token''"
  shows "id_token_id ident \<noteq> i"
proof -
  have "by_token lib (mw_cfg m) (lookup (revoke d i)) r ident"
    using Handler_served [OF assms(2)] assms(3) by (auto simp: by_forward_def by_session_def)
  then show ?thesis using revoked [OF assms(1)] by (auto simp: by_token_def)
qed

lemma identifyToken_kept:
  assumes "invar d" "identifyToken lib (lookup d) now mode plain m = (m', Inr ident)" "id_token_id ident \<noteq> i"
  shows "identifyToken lib (lookup (revoke d i)) now mode plain m = (m', Inr ident)"
proof -
  from identifyToken_served [OF assms(2)] obtain j where j: "lookup d (HashToken lib plain) = Inr (Some j)" "j \<noteq> i"
    using assms(3) by auto
  from others [OF assms(1) this] show ?thesis using assms(2) j by (simp add: identifyToken_def)
qed

lemma others_served:
  assumes "invar d" "Handler lib (lookup d) sess now r m = (m', Served ident)" "id_source ident = ''token'' \<longrightarrow> id_token_id ident \<noteq> i"
  shows "Handler lib (lookup (revoke d i)) sess now r m = (m', Served ident)"
proof -
  have id: "Identify lib (lookup d) sess now r m = (m', Inr ident)"
    using assms(2) by (auto simp: Handler_def split: prod.splits sum.splits auth_error.splits)
  have tok: "identifyToken lib (lookup (revoke d i)) now mode plain m0 = (m', Inr ident)"
    if "identifyToken lib (lookup d) now mode plain m0 = (m', Inr ident)" for mode plain m0
    using identifyToken_kept [OF assms(1) that] identifyToken_served [OF that] assms(3) by auto
  have "Identify lib (lookup (revoke d i)) sess now r m = (m', Inr ident)"
    using id tok unfolding Identify_def Let_def
    by (auto split: if_splits option.splits sum.splits auth_error.splits)
  then show ?thesis by (simp add: Handler_def)
qed

end

definition tokens_ok :: "db \<Rightarrow> bool" where
  "tokens_ok d \<longleftrightarrow> tbl_ok tok_id (api_tokens_t d) \<and> distinct (map tok_hash (rows (api_tokens_t d)))"

lemma tokens_ok_create:
  assumes "tokens_ok d"
  shows "tokens_ok (fst (CreateAPIToken flt d now name hash pre))"
  using assms by (auto simp: CreateAPIToken_def tokens_ok_def Let_def intro: tbl_ok_insert_row split: option.split)

lemma storeTokens_eq:
  "storeTokens_LookupToken None d h = Inr (map_option tok_id (find (\<lambda>r. tok_hash r = h) (rows (api_tokens_t d))))"
  by (simp add: storeTokens_LookupToken_def APITokenByHash_def scanAPIToken_def option.map_comp o_def)

lemma rows_DeleteAPIToken:
  "rows (api_tokens_t (fst (DeleteAPIToken None d i))) = delete_where (\<lambda>r. tok_id r = i) (rows (api_tokens_t d))"
  by (auto simp: DeleteAPIToken_def delete_where_def filter_id_conv)

interpretation store_tokens: token_directory "storeTokens_LookupToken None" "\<lambda>d i. fst (DeleteAPIToken None d i)" tokens_ok
proof
  fix d i h assume "tokens_ok d"
  then have find: "find (\<lambda>r. tok_hash r = h) (rows (api_tokens_t (fst (DeleteAPIToken None d i)))) =
      (case find (\<lambda>r. tok_hash r = h) (rows (api_tokens_t d)) of None \<Rightarrow> None | Some r \<Rightarrow> if tok_id r = i then None else Some r)"
    unfolding rows_DeleteAPIToken by (intro find_delete_where) (simp add: tokens_ok_def)
  then show "storeTokens_LookupToken None (fst (DeleteAPIToken None d i)) h \<noteq> Inr (Some i)"
    by (auto simp: storeTokens_eq split: option.splits)
  show "storeTokens_LookupToken None (fst (DeleteAPIToken None d i)) h = Inr (Some j)"
    if "storeTokens_LookupToken None d h = Inr (Some j)" "j \<noteq> i" for j
    using that find by (auto simp: storeTokens_eq)
qed

text \<open>Deleting an API token ends the access it gave and nothing else: afterwards no request is served
  under that token's id, and every request that was served through a session, a proxy, another token or in
  open mode is served exactly as before.\<close>

theorem revocation_is_exact:
  assumes "tokens_ok d" "DeleteAPIToken None d i = (d', Inr ())"
  shows "(Handler lib (storeTokens_LookupToken None d') sess now r m = (m', Served ident) \<longrightarrow>
      id_source ident = ''token'' \<longrightarrow> id_token_id ident \<noteq> i) \<and>
    (Handler lib (storeTokens_LookupToken None d) sess now r m = (m', Served ident) \<longrightarrow>
      (id_source ident = ''token'' \<longrightarrow> id_token_id ident \<noteq> i) \<longrightarrow>
      Handler lib (storeTokens_LookupToken None d') sess now r m = (m', Served ident))"
proof -
  have d': "d' = fst (DeleteAPIToken None d i)" using assms(2) by simp
  show ?thesis unfolding d'
    using store_tokens.revoked_not_served [OF assms(1)] store_tokens.others_served [OF assms(1)] by blast
qed


subsection \<open>An example\<close>

text \<open>A library whose digest marks the plaintext, a store with two tokens, and a request with a bearer token.\<close>

definition demo_lib :: auth_lib where
  "demo_lib = \<lparr>al_sha256 = (\<lambda>s. ''#'' @ s), al_prefix = (\<lambda>s. None), al_addrport = (\<lambda>s. None)\<rparr>"

definition demo_token :: "int \<Rightarrow> string \<Rightarrow> api_token_row" where
  "demo_token i plain = \<lparr>tok_id = i, tok_name = ''ci'', tok_hash = ''#'' @ plain, tok_prefix = take 12 plain,
     tok_created_at = ''2026-01-01T00:00:00.000Z'', tok_last_used_at = None\<rparr>"

definition token_db :: db where
  "token_db = empty_db\<lparr>api_tokens_t := \<lparr>rows = [demo_token 1 ''stt_a'', demo_token 2 ''stt_b''], seq = 2\<rparr>\<rparr>"

definition token_mw :: middleware where
  "token_mw = Auth_New\<lparr>mw_cfg := zero_config\<lparr>ac_mode := ''token''\<rparr>\<rparr>"

definition token_request :: "string \<Rightarrow> request" where
  "token_request plain = \<lparr>rq_headers = [(''authorization'', ''Bearer '' @ plain)], rq_cookies = Map.empty, rq_remote = [],
     rq_host = ''home'', rq_tls = False, rq_method = ''GET'', rq_path = ''/api/v1/runs'', rq_query = Map.empty\<rparr>"

lemma token_db_ok: "tokens_ok token_db"
  by (simp add: tokens_ok_def token_db_def tbl_ok_def ids_below_def demo_token_def)

lemma bearer_token_request: "bearerToken (token_request ''stt_b'') = Some ''stt_b''"
  by code_simp

lemma token_request_served:
  "\<exists>m' ident. Handler demo_lib (storeTokens_LookupToken None token_db) (\<lambda>h t. Inr None) 0 (token_request ''stt_b'') token_mw =
    (m', Served ident) \<and> id_token_id ident = 2 \<and> id_source ident = ''token''"
proof -
  have "storeTokens_LookupToken None token_db (HashToken demo_lib ''stt_b'') = Inr (Some 2)"
    by (simp add: storeTokens_eq HashToken_def demo_lib_def token_db_def demo_token_def)
  then show ?thesis
    by (simp add: Handler_def Identify_def identifyToken_def credentialToken_def bearer_token_request token_mw_def)
qed


theorem served_requests_have_credentials_witness:
  "\<exists>m' ident row. Handler demo_lib (storeTokens_LookupToken None token_db) (storeSessions_LookupSession None token_db) 0
     (token_request ''stt_b'') token_mw = (m', Served ident) \<and>
     row \<in> set (rows (api_tokens_t token_db)) \<and> tok_hash row = ''#stt_b'' \<and> id_token_id ident = tok_id row"
proof -
  have tok: "storeTokens_LookupToken None token_db (HashToken demo_lib ''stt_b'') = Inr (Some 2)"
    by (simp add: storeTokens_eq HashToken_def demo_lib_def token_db_def demo_token_def)
  then obtain m' ident where h: "Handler demo_lib (storeTokens_LookupToken None token_db) (storeSessions_LookupSession None token_db) 0
     (token_request ''stt_b'') token_mw = (m', Served ident)"
    by (simp add: Handler_def Identify_def identifyToken_def credentialToken_def bearer_token_request token_mw_def)
  have mode: "ac_mode (mw_cfg token_mw) = ''token''" by (simp add: token_mw_def)
  have cred: "credentialToken (token_request ''stt_b'') = Some ''stt_b''"
    by (simp add: credentialToken_def bearer_token_request)
  from served_requests_have_credentials [OF h] mode cred bearer_token_request
  have "\<exists>row\<in>set (rows (api_tokens_t token_db)). tok_hash row = HashToken demo_lib ''stt_b'' \<and> id_token_id ident = tok_id row"
    by auto
  then show ?thesis using h by (auto simp: HashToken_def demo_lib_def)
qed

theorem revocation_is_exact_witness:
  "\<exists>d' m' ident. DeleteAPIToken None token_db 1 = (d', Inr ()) \<and>
     Handler demo_lib (storeTokens_LookupToken None d') (\<lambda>h t. Inr None) 0 (token_request ''stt_b'') token_mw = (m', Served ident) \<and>
     id_token_id ident = 2"
proof -
  obtain d' where d': "DeleteAPIToken None token_db 1 = (d', Inr ())"
    by (simp add: DeleteAPIToken_def token_db_def demo_token_def affected_def)
  obtain m' ident where h: "Handler demo_lib (storeTokens_LookupToken None token_db) (\<lambda>h t. Inr None) 0 (token_request ''stt_b'') token_mw =
      (m', Served ident)" "id_token_id ident = 2" using token_request_served by blast
  then have "id_source ident = ''token'' \<longrightarrow> id_token_id ident \<noteq> 1" by simp
  with revocation_is_exact [OF token_db_ok d'] h show ?thesis using d' by blast
qed

text \<open>A middleware that was never configured is not closed: its empty mode is handled like token mode.\<close>

lemma unconfigured_accepts_tokens:
  "\<exists>m' ident. Handler demo_lib (storeTokens_LookupToken None token_db) (\<lambda>h t. Inr None) 0 (token_request ''stt_b'') Auth_New =
     (m', Served ident)"
proof -
  have "storeTokens_LookupToken None token_db (HashToken demo_lib ''stt_b'') = Inr (Some 2)"
    by (simp add: storeTokens_eq HashToken_def demo_lib_def token_db_def demo_token_def)
  then show ?thesis
    by (simp add: Handler_def Identify_def identifyToken_def credentialToken_def bearer_token_request Auth_New_def zero_config_def)
qed

end
