(* ===== verification/Settings_Api_Props.thy ===== *)
theory Settings_Api_Props
  imports Settings_Api Settings_Props Auth_Props
begin

text \<open>
  What the settings handlers keep: a refused or failed \<open>PUT\<close> changes nothing and an accepted one only the
  keys it names; sections read back what was written; a document that is read and sent back changes no
  setting; a token cannot change how it is checked; whoever switches the authentication mode is served
  under the new one; stored credentials are only sent where they are stored for.
\<close>

subsection \<open>The effect of a list of writes\<close>

text \<open>The value the last write to a key stores.\<close>

fun lookup_writes :: "setting_write list \<Rightarrow> string \<Rightarrow> setting_value option" where
  "lookup_writes [] k = None"
| "lookup_writes (w # ws) k =
     (case lookup_writes ws k of
        Some v \<Rightarrow> Some v
      | None \<Rightarrow> (case w of None \<Rightarrow> None | Some (k', v) \<Rightarrow> if k' = k then Some v else None))"

definition written :: "setting_write list \<Rightarrow> (string \<rightharpoonup> raw) \<Rightarrow> string \<rightharpoonup> raw" where
  "written ws m k = (case lookup_writes ws k of None \<Rightarrow> m k | Some v \<Rightarrow> Some (RawDoc (Marshal v)))"

lemma lookup_writes_append:
  "lookup_writes (xs @ ys) k = (case lookup_writes ys k of Some v \<Rightarrow> Some v | None \<Rightarrow> lookup_writes xs k)"
  by (induction xs) (auto split: option.splits)

lemma written_simps:
  "written [] m = m"
  "written (None # ws) m = written ws m"
  "written (Some (k, v) # ws) m = written ws (m(k \<mapsto> RawDoc (Marshal v)))"
  by (auto simp: written_def fun_eq_iff split: option.splits)

lemma written_append: "written (xs @ ys) m = written ys (written xs m)"
  by (auto simp: written_def lookup_writes_append fun_eq_iff split: option.splits)

lemma run_writes_ok:
  "run_writes f j ws t = (t', Inr u) \<Longrightarrow> tx_view t' = written ws (tx_view t) \<and> tx_done t' = tx_done t"
proof (induction f j ws t rule: run_writes.induct)
  case (3 f j key v ws t)
  obtain t1 r where s: "Tx_Set (fst (f j)) (snd (f j)) t key v = (t1, r)" by (cases "Tx_Set (fst (f j)) (snd (f j)) t key v")
  with 3(2) obtain u1 where r: "r = Inr u1" by (cases r) auto
  from s r have "tx_view t1 = (tx_view t)(key \<mapsto> RawDoc (Marshal v))" "tx_done t1 = tx_done t"
    by (auto simp: Tx_Set_def Let_def split: if_splits option.splits)
  with 3 s r show ?case by (simp add: written_simps(3) del: fun_upd_apply)
qed (auto simp: written_simps)

lemma run_sections_ok:
  "run_sections f i ss t = (t', None) \<Longrightarrow> tx_view t' = written (concat (map snd ss)) (tx_view t) \<and> tx_done t' = tx_done t"
proof (induction f i ss t rule: run_sections.induct)
  case (2 f i msg ws rest t)
  obtain t1 r where s: "run_writes (f i) 0 ws t = (t1, r)" by (cases "run_writes (f i) 0 ws t")
  with 2(2) obtain u where r: "r = Inr u" by (cases r) auto
  from 2 s r run_writes_ok [OF s [unfolded r]] show ?case by (simp add: written_append)
qed (simp add: written_simps)

text \<open>The writes of a whole body.\<close>

definition all_writes :: "channel list option \<Rightarrow> settings_body \<Rightarrow> setting_write list" where
  "all_writes merged body = concat (map snd (body_writes merged body))"

lemma applySettings_refused: "applySettings lib f ident r body w = (w', Some e) \<Longrightarrow> w' = w"
  by (auto simp: applySettings_def Tx_Commit_def split: sum.splits prod.splits option.splits if_splits)

lemma applySettings_accepted:
  assumes "applySettings lib f ident r body w = (w', None)"
  obtains merged where "check_put lib f ident r body w = Inr merged"
    "fst w' = (fst w)\<lparr>settings_t := written (all_writes merged body) (settings_t (fst w))\<rparr>"
    "ss_locked (snd w') = ss_locked (snd w)"
proof -
  obtain merged where c: "check_put lib f ident r body w = Inr merged"
    using assms by (cases "check_put lib f ident r body w") (auto simp: applySettings_def)
  obtain t where b: "Begin (pf_begin f) (fst w) = Inr t"
    using assms c by (cases "Begin (pf_begin f) (fst w)") (auto simp: applySettings_def)
  obtain t' o1 where s: "run_sections (pf_set f) 0 (body_writes merged body) t = (t', o1)" by fastforce
  have o1: "o1 = None" using assms c b s by (cases o1) (auto simp: applySettings_def)
  have t: "tx_view t = settings_t (fst w)" "\<not> tx_done t" using b by (auto simp: Begin_def split: option.splits)
  note v = run_sections_ok [OF s [unfolded o1]]
  have "w' = ((fst w)\<lparr>settings_t := tx_view t'\<rparr>, fold settings_notify (tx_changed t') (snd w))"
    using assms c b s o1 t v by (auto simp: applySettings_def Tx_Commit_def split: option.splits)
  with v t c that show ?thesis by (simp add: all_writes_def)
qed

subsection \<open>Which keys a body writes\<close>

definition write_keys :: "setting_write list \<Rightarrow> string set" where
  "write_keys ws = {k. \<exists>v. Some (k, v) \<in> set ws}"

lemma write_keys_Nil [simp]: "write_keys [] = {}"
  by (simp add: write_keys_def)

lemma write_keys_Cons [simp]:
  "write_keys (setPtr k e x # ws) = set (given x k) \<union> write_keys ws"
  "write_keys (setSecret k y # ws) = (if y = Some MaskedSecret then {} else set (given y k)) \<union> write_keys ws"
  "write_keys (clear_legacy k y # ws) = set (given y k) \<union> write_keys ws"
  "write_keys (Some (k, v) # ws) = insert k (write_keys ws)"
  "write_keys (None # ws) = write_keys ws"
  by (cases x; cases y; auto simp: write_keys_def setPtr_def setSecret_def clear_legacy_def given_def)+

lemma write_keys_append [simp]: "write_keys (xs @ ys) = write_keys xs \<union> write_keys ys"
  by (auto simp: write_keys_def)

lemma lookup_writes_dom: "lookup_writes ws k = Some v \<Longrightarrow> k \<in> write_keys ws"
  by (induction ws) (auto simp: write_keys_def split: option.splits prod.splits if_splits)

lemma written_other: "k \<notin> write_keys ws \<Longrightarrow> written ws m k = m k"
  using lookup_writes_dom [of ws k] by (auto simp: written_def split: option.splits)

definition legacy_keys :: "string set" where
  "legacy_keys = {''integrations.vm_auth_header'', ''integrations.vl_auth_header''}"

lemma section_write_keys:
  "write_keys (general_writes g) = set (general_keys g)"
  "write_keys (engines_writes e) = set (engines_keys e)"
  "write_keys (integrations_writes i) \<subseteq> set (integrations_keys i) \<union> legacy_keys"
  "(merged = None \<longleftrightarrow> nb_channels n = None) \<Longrightarrow> write_keys (notifications_writes merged n) = set (notifications_keys n)"
  "write_keys (auth_writes a) \<subseteq> set (auth_keys a)"
proof -
  show "write_keys (general_writes g) = set (general_keys g)"
    by (simp only: general_writes_def general_keys_def write_keys_Cons write_keys_Nil concat.simps set_append list.set) auto
  show "write_keys (engines_writes e) = set (engines_keys e)"
    by (simp only: engines_writes_def engines_keys_def write_keys_Cons write_keys_Nil concat.simps set_append list.set)
  have same: "Y \<subseteq> Z \<union> L \<Longrightarrow> X \<union> Y \<subseteq> (X \<union> Z) \<union> L"
    and secret: "Y \<subseteq> Z \<union> L \<Longrightarrow> (if b then {} else X) \<union> Y \<subseteq> (X \<union> Z) \<union> L"
    and legacy: "X \<subseteq> L \<Longrightarrow> Y \<subseteq> Z \<union> L \<Longrightarrow> X \<union> Y \<subseteq> Z \<union> L" for X Y Z L :: "string set" and b
    by auto
  have leg: "set (given y ''integrations.vm_auth_header'') \<subseteq> legacy_keys"
    "set (given y ''integrations.vl_auth_header'') \<subseteq> legacy_keys" for y :: "string option"
    by (auto simp: given_def legacy_keys_def split: option.splits)
  show "write_keys (integrations_writes i) \<subseteq> set (integrations_keys i) \<union> legacy_keys"
    unfolding integrations_writes_def integrations_keys_def write_keys_Cons write_keys_Nil concat.simps set_append list.set
    by (rule same secret legacy [OF leg(1)] legacy [OF leg(2)] empty_subsetI)+
  show "write_keys (notifications_writes merged n) = set (notifications_keys n)" if "merged = None \<longleftrightarrow> nb_channels n = None"
  proof -
    have "given merged k = given (nb_channels n) k" for k
      using that by (cases merged; cases "nb_channels n") (simp_all add: given_def)
    then show ?thesis
      by (simp only: notifications_writes_def notifications_keys_def write_keys_Cons write_keys_Nil concat.simps set_append list.set)
  qed
  have "write_keys (auth_writes a) \<subseteq> set (auth_keys a) \<union> {}"
    unfolding auth_writes_def auth_keys_def write_keys_Cons write_keys_Nil concat.simps set_append list.set
    by (rule same secret empty_subsetI)+
  then show "write_keys (auth_writes a) \<subseteq> set (auth_keys a)" by simp
qed

lemma abind_Inr: "abind r f = Inr y \<longleftrightarrow> (\<exists>x. r = Inr x \<and> f x = Inr y)"
  by (cases r) (auto simp: abind_def)

lemma internal_of_Inr [simp]: "internal_of m r = Inr x \<longleftrightarrow> r = Inr x"
  by (cases r) (auto simp: internal_of_def)

lemma bad_Inr [simp]: "bad e = Inr u \<longleftrightarrow> e = None"
  by (cases e) (auto simp: bad_def)

lemma firstErr_None: "firstErr es = None \<longleftrightarrow> list_all (\<lambda>e. e = None) es"
  by (induction es rule: firstErr.induct) auto

lemma check_None [simp]: "check b m = None \<longleftrightarrow> \<not> b"
  by (simp add: check_def)

lemma on_ptr_None: "on_ptr f v = None \<longleftrightarrow> (\<forall>x. v = Some x \<longrightarrow> f x = None)"
  by (cases v) (auto simp: on_ptr_def)

lemma wrapErr_None [simp]: "wrapErr p e = None \<longleftrightarrow> e = None"
  by (simp add: wrapErr_def)

lemmas checks_None = firstErr_None on_ptr_None check_None wrapErr_None list.pred_inject

text \<open>What a request that passed every check satisfies.\<close>

lemma check_put_accepts:
  assumes "check_put lib f ident r body w = Inr merged"
  obtains current currentNotify where
    "lockedKeysIn (snd w) body = []"
    "sb_auth body \<noteq> None \<Longrightarrow> requestIsAdmin ident \<and> \<not> requestAuthIsToken ident"
    "engines_guard (pf_sections f) ident (fst w) body = Inr ()"
    "Integrations (cf_integrations (pf_sections f)) (fst w) = Inr current"
    "Notifications (cf_notifications (pf_sections f)) (fst w) = Inr currentNotify"
    "case body_channels body of None \<Rightarrow> merged = None
       | Some cs \<Rightarrow> \<exists>ms. merged = Some ms \<and> mergeChannelSecrets lib cs (n_channels currentNotify) = Inr ms"
    "validateSettings lib body merged current = None"
    "sb_auth body \<noteq> None \<Longrightarrow> \<exists>a. Auth (cf_auth (pf_sections f)) (fst w) = Inr a \<and>
       validateAuthBody lib (sb_auth body) a = None \<and>
       checkAuthLockout lib (pf_count f) (pf_token f) (fst w) ident r a (mergeAuth a (sb_auth body)) = None"
proof -
  let ?sf = "pf_sections f" and ?d = "fst w"
  note unf = assms [unfolded check_put_def Let_def]
  have l: "lockedKeysIn (snd w) body = []" using unf by (auto split: if_splits)
  have a: "sb_auth body \<noteq> None \<Longrightarrow> requestIsAdmin ident \<and> \<not> requestAuthIsToken ident" using unf l by (auto split: if_splits)
  from unf l a obtain current currentNotify auth1 where g: "engines_guard ?sf ident ?d body = Inr ()"
    and i: "Integrations (cf_integrations ?sf) ?d = Inr current"
    and n: "Notifications (cf_notifications ?sf) ?d = Inr currentNotify"
    and m: "(case body_channels body of None \<Rightarrow> Inr None
        | Some cs \<Rightarrow> (case mergeChannelSecrets lib cs (n_channels currentNotify) of
             Inl e \<Rightarrow> Inl (BadRequest e) | Inr ms \<Rightarrow> Inr (Some ms))) = Inr merged"
    and au: "(if sb_auth body = None then Inr None
        else case internal_of ''load auth settings'' (Auth (cf_auth ?sf) ?d) of Inl e \<Rightarrow> Inl e | Inr a \<Rightarrow> Inr (Some a)) = Inr auth1"
    and v: "validateSettings lib body merged current = None"
    and va: "(case auth1 of None \<Rightarrow> Inr () | Some a \<Rightarrow> bad (validateAuthBody lib (sb_auth body) a)) = Inr ()"
    and lo: "(case auth1 of None \<Rightarrow> Inr ()
        | Some a \<Rightarrow> bad (checkAuthLockout lib (pf_count f) (pf_token f) ?d ident r a (mergeAuth a (sb_auth body)))) = Inr ()"
    by (cases "sb_auth body = None") (simp_all add: abind_Inr, (elim exE conjE, blast)+)
  have "case body_channels body of None \<Rightarrow> merged = None
       | Some cs \<Rightarrow> \<exists>ms. merged = Some ms \<and> mergeChannelSecrets lib cs (n_channels currentNotify) = Inr ms"
    using m by (auto split: option.splits sum.splits)
  moreover have "\<exists>a. Auth (cf_auth ?sf) ?d = Inr a \<and> validateAuthBody lib (sb_auth body) a = None \<and>
       checkAuthLockout lib (pf_count f) (pf_token f) ?d ident r a (mergeAuth a (sb_auth body)) = None" if "sb_auth body \<noteq> None"
  proof -
    from au that obtain a where "Auth (cf_auth ?sf) ?d = Inr a" "auth1 = Some a" by (auto split: sum.splits)
    with va lo show ?thesis by auto
  qed
  ultimately show ?thesis using l a g i n v that by blast
qed

lemma all_writes_eq:
  "all_writes merged body = section_of general_writes (sb_general body) @ section_of engines_writes (sb_engines body) @
     section_of integrations_writes (sb_integrations body) @ section_of (notifications_writes merged) (sb_notifications body) @
     section_of auth_writes (sb_auth body)"
  by (simp add: all_writes_def body_writes_def)

lemma write_keys_section: "write_keys (section_of f b) = (case b of None \<Rightarrow> {} | Some x \<Rightarrow> write_keys (f x))"
  by (cases b) (simp_all add: section_of_def)

lemma set_section_of: "set (section_of f b) = (case b of None \<Rightarrow> {} | Some x \<Rightarrow> set (f x))"
  by (cases b) (simp_all add: section_of_def)

lemma body_write_keys:
  assumes "merged = None \<longleftrightarrow> body_channels body = None"
  shows "write_keys (all_writes merged body) \<subseteq> set (setKeys body) \<union> legacy_keys"
proof -
  have n: "write_keys (section_of (notifications_writes merged) (sb_notifications body)) \<subseteq>
      set (section_of notifications_keys (sb_notifications body))"
    using assms section_write_keys(4)
    by (cases "sb_notifications body") (simp_all add: write_keys_section set_section_of body_channels_def)
  have g: "write_keys (section_of general_writes (sb_general body)) \<subseteq> set (section_of general_keys (sb_general body))"
    "write_keys (section_of engines_writes (sb_engines body)) \<subseteq> set (section_of engines_keys (sb_engines body))"
    "write_keys (section_of integrations_writes (sb_integrations body)) \<subseteq>
       set (section_of integrations_keys (sb_integrations body)) \<union> legacy_keys"
    "write_keys (section_of auth_writes (sb_auth body)) \<subseteq> set (section_of auth_keys (sb_auth body))"
    using section_write_keys(1,2,3,5) by (auto simp: write_keys_section set_section_of split: option.splits)
  show ?thesis unfolding all_writes_eq setKeys_def write_keys_append set_append using n g by blast
qed


subsection \<open>Sections read back what was written\<close>

definition secret_value :: "string option \<Rightarrow> setting_value option" where
  "secret_value v = (case v of None \<Rightarrow> None | Some s \<Rightarrow> if s = MaskedSecret then None else Some (VString s))"

lemma lookup_Cons:
  "lookup_writes (setPtr k' enc x # ws) k = coalesce (lookup_writes ws k) (if k' = k then map_option enc x else None)"
  "lookup_writes (setSecret k' y # ws) k = coalesce (lookup_writes ws k) (if k' = k then secret_value y else None)"
  "lookup_writes (clear_legacy k' y # ws) k =
     coalesce (lookup_writes ws k) (if k' = k then map_option (\<lambda>_. VString []) y else None)"
  "lookup_writes (Some (k', v') # ws) k = coalesce (lookup_writes ws k) (if k' = k then Some v' else None)"
  by (simp_all add: setPtr_def setSecret_def clear_legacy_def secret_value_def coalesce_def split: option.splits)

lemma general_lookup:
  "lookup_writes (general_writes g) ''general.base_url'' = map_option VString (gb_base_url g)"
  "lookup_writes (general_writes g) ''general.timezone'' = map_option VString (gb_timezone g)"
  "lookup_writes (general_writes g) ''general.units'' = map_option VString (gb_units g)"
  "lookup_writes (general_writes g) ''general.log_level'' = map_option VString (gb_log_level g)"
  "lookup_writes (general_writes g) ''general.retention_days_results'' = map_option VInt (gb_retention_days_results g)"
  "lookup_writes (general_writes g) ''general.retention_days_runs'' = map_option VInt (gb_retention_days_runs g)"
  "lookup_writes (general_writes g) ''general.retention_prune_interval_minutes'' = map_option VInt (gb_retention_prune_interval_minutes g)"
  "lookup_writes (general_writes g) ''general.sla_download_mbps'' = map_option (\<lambda>x. VFloatPtr (Some x)) (gb_sla_download_mbps g)"
  "lookup_writes (general_writes g) ''general.sla_upload_mbps'' = map_option (\<lambda>x. VFloatPtr (Some x)) (gb_sla_upload_mbps g)"
  "lookup_writes (general_writes g) ''general.sla_tolerance_pct'' = Some (VFloatPtr (gb_sla_tolerance_pct g))"
  by (simp_all add: general_writes_def lookup_Cons del: lookup_writes.simps(2))

lemma engines_lookup:
  "lookup_writes (engines_writes e) ''engines.speedtest_bin'' = map_option VString (eb_speedtest_bin e)"
  "lookup_writes (engines_writes e) ''engines.iperf3_bin'' = map_option VString (eb_iperf3_bin e)"
  "lookup_writes (engines_writes e) ''engines.ookla_accept_license'' = map_option VBool (eb_ookla_accept_license e)"
  "lookup_writes (engines_writes e) ''engines.ookla_accept_gdpr'' = map_option VBool (eb_ookla_accept_gdpr e)"
  "lookup_writes (engines_writes e) ''engines.server_list_ttl_seconds'' = map_option VInt (eb_server_list_ttl_seconds e)"
  "lookup_writes (engines_writes e) ''engines.default_ookla_options'' = map_option VRaw (eb_default_ookla_options e)"
  "lookup_writes (engines_writes e) ''engines.default_cloudflare_options'' = map_option VRaw (eb_default_cloudflare_options e)"
  "lookup_writes (engines_writes e) ''engines.default_iperf3_options'' = map_option VRaw (eb_default_iperf3_options e)"
  "lookup_writes (engines_writes e) ''engines.iperf3_list_url'' = map_option VString (eb_iperf3_list_url e)"
  by (simp_all add: engines_writes_def lookup_Cons del: lookup_writes.simps(2))

lemma integrations_lookup:
  "lookup_writes (integrations_writes i) ''integrations.vm_enabled'' = map_option VBool (ib_vm_enabled i)"
  "lookup_writes (integrations_writes i) ''integrations.vm_url'' = map_option VString (ib_vm_url i)"
  "lookup_writes (integrations_writes i) ''integrations.vm_auth_header'' = coalesce (map_option (\<lambda>_. VString []) (ib_vm_auth_type i)) (secret_value (ib_vm_auth_header i))"
  "lookup_writes (integrations_writes i) ''integrations.vm_auth_type'' = map_option VString (ib_vm_auth_type i)"
  "lookup_writes (integrations_writes i) ''integrations.vm_auth_username'' = map_option VString (ib_vm_auth_username i)"
  "lookup_writes (integrations_writes i) ''integrations.vm_auth_password'' = secret_value (ib_vm_auth_password i)"
  "lookup_writes (integrations_writes i) ''integrations.vm_auth_token'' = secret_value (ib_vm_auth_token i)"
  "lookup_writes (integrations_writes i) ''integrations.vm_auth_header_name'' = map_option VString (ib_vm_auth_header_name i)"
  "lookup_writes (integrations_writes i) ''integrations.vm_auth_header_value'' = secret_value (ib_vm_auth_header_value i)"
  "lookup_writes (integrations_writes i) ''integrations.vm_extra_labels'' = map_option (\<lambda>m. VStringMap (Some m)) (ib_vm_extra_labels i)"
  "lookup_writes (integrations_writes i) ''integrations.vl_enabled'' = map_option VBool (ib_vl_enabled i)"
  "lookup_writes (integrations_writes i) ''integrations.vl_url'' = map_option VString (ib_vl_url i)"
  "lookup_writes (integrations_writes i) ''integrations.vl_auth_header'' = coalesce (map_option (\<lambda>_. VString []) (ib_vl_auth_type i)) (secret_value (ib_vl_auth_header i))"
  "lookup_writes (integrations_writes i) ''integrations.vl_auth_type'' = map_option VString (ib_vl_auth_type i)"
  "lookup_writes (integrations_writes i) ''integrations.vl_auth_username'' = map_option VString (ib_vl_auth_username i)"
  "lookup_writes (integrations_writes i) ''integrations.vl_auth_password'' = secret_value (ib_vl_auth_password i)"
  "lookup_writes (integrations_writes i) ''integrations.vl_auth_token'' = secret_value (ib_vl_auth_token i)"
  "lookup_writes (integrations_writes i) ''integrations.vl_auth_header_name'' = map_option VString (ib_vl_auth_header_name i)"
  "lookup_writes (integrations_writes i) ''integrations.vl_auth_header_value'' = secret_value (ib_vl_auth_header_value i)"
  "lookup_writes (integrations_writes i) ''integrations.vl_stream_fields'' = map_option (\<lambda>m. VStringMap (Some m)) (ib_vl_stream_fields i)"
  "lookup_writes (integrations_writes i) ''integrations.metrics_enabled'' = map_option VBool (ib_metrics_enabled i)"
  by (simp_all add: integrations_writes_def lookup_Cons del: lookup_writes.simps(2))

lemma notifications_lookup:
  "lookup_writes (notifications_writes merged n) ''notifications.enabled'' = map_option VBool (nb_enabled n)"
  "lookup_writes (notifications_writes merged n) ''notifications.channels'' = map_option (\<lambda>cs. VChannels (Some cs)) merged"
  "lookup_writes (notifications_writes merged n) ''notifications.default_thresholds'' = map_option VThresholds (nb_default_thresholds n)"
  "lookup_writes (notifications_writes merged n) ''notifications.cooldown_minutes'' = map_option VInt (nb_cooldown_minutes n)"
  "lookup_writes (notifications_writes merged n) ''notifications.quiet_hours_start'' = map_option VString (nb_quiet_hours_start n)"
  "lookup_writes (notifications_writes merged n) ''notifications.quiet_hours_end'' = map_option VString (nb_quiet_hours_end n)"
  "lookup_writes (notifications_writes merged n) ''notifications.notify_recovery'' = map_option VBool (nb_notify_recovery n)"
  by (simp_all add: notifications_writes_def lookup_Cons del: lookup_writes.simps(2))

lemma auth_lookup:
  "lookup_writes (auth_writes a) ''auth.mode'' = map_option VString (ab_mode a)"
  "lookup_writes (auth_writes a) ''auth.user_header'' = map_option VString (ab_user_header a)"
  "lookup_writes (auth_writes a) ''auth.groups_header'' = map_option VString (ab_groups_header a)"
  "lookup_writes (auth_writes a) ''auth.groups_separator'' = map_option VString (ab_groups_separator a)"
  "lookup_writes (auth_writes a) ''auth.trusted_proxies'' = map_option (\<lambda>ss. VStrings (Some ss)) (ab_trusted_proxies a)"
  "lookup_writes (auth_writes a) ''auth.admin_group'' = map_option VString (ab_admin_group a)"
  "lookup_writes (auth_writes a) ''auth.allow_tokens'' = map_option VBool (ab_allow_tokens a)"
  "lookup_writes (auth_writes a) ''auth.oidc_issuer'' = map_option VString (ab_oidc_issuer a)"
  "lookup_writes (auth_writes a) ''auth.oidc_client_id'' = map_option VString (ab_oidc_client_id a)"
  "lookup_writes (auth_writes a) ''auth.oidc_client_secret'' = secret_value (ab_oidc_client_secret a)"
  "lookup_writes (auth_writes a) ''auth.oidc_redirect_base_url'' = map_option VString (ab_oidc_redirect_base_url a)"
  "lookup_writes (auth_writes a) ''auth.oidc_scopes'' = map_option (\<lambda>ss. VStrings (Some ss)) (ab_oidc_scopes a)"
  "lookup_writes (auth_writes a) ''auth.oidc_groups_claim'' = map_option VString (ab_oidc_groups_claim a)"
  "lookup_writes (auth_writes a) ''auth.oidc_allowed_groups'' = map_option (\<lambda>ss. VStrings (Some ss)) (ab_oidc_allowed_groups a)"
  "lookup_writes (auth_writes a) ''auth.oidc_allowed_emails'' = map_option (\<lambda>ss. VStrings (Some ss)) (ab_oidc_allowed_emails a)"
  "lookup_writes (auth_writes a) ''auth.oidc_display_claim'' = map_option VString (ab_oidc_display_claim a)"
  "lookup_writes (auth_writes a) ''auth.session_ttl_hours'' = map_option VInt (ab_session_ttl_hours a)"
  by (simp_all add: auth_writes_def lookup_Cons del: lookup_writes.simps(2))

lemma read_keep: "settings_t d' k = settings_t d k \<Longrightarrow> read_key flt d' k f = read_key flt d k f"
  unfolding read_key_def Get_def by (cases "flt k") simp_all

lemma read_put:
  assumes "flt k = None" "settings_t d' k = written ws (settings_t d) k" "read_key flt d k f = Inr x"
    "\<forall>v. lookup_writes ws k = Some v \<longrightarrow> f (Marshal v) = Some (g v)"
  shows "read_key flt d' k f = Inr (case lookup_writes ws k of None \<Rightarrow> x | Some v \<Rightarrow> g v)"
proof (cases "lookup_writes ws k")
  case None
  then have "settings_t d' k = settings_t d k" using assms(2) by (simp add: written_def)
  from read_keep [where flt = flt and f = f, OF this] None assms(3) show ?thesis by simp
next
  case (Some v)
  then have "settings_t d' k = Some (RawDoc (Marshal v))" using assms(2) by (simp add: written_def)
  with Some assms(1,4) show ?thesis by (simp add: read_key_def Get_def rbind_def)
qed

lemma read_put_kinds:
  assumes "flt k = None" "settings_t d' k = written ws (settings_t d) k"
  shows "lookup_writes ws k = map_option VString y \<Longrightarrow> read_key flt d k dec_string = Inr s \<Longrightarrow>
      read_key flt d' k dec_string = Inr (or_current y s)"
    "lookup_writes ws k = secret_value y \<Longrightarrow> read_key flt d k dec_string = Inr s \<Longrightarrow>
      read_key flt d' k dec_string = Inr (if y = Some MaskedSecret then s else or_current y s)"
    "lookup_writes ws k = map_option VInt n \<Longrightarrow> \<forall>i. n = Some i \<longrightarrow> int64 i \<Longrightarrow> read_key flt d k dec_int = Inr i \<Longrightarrow>
      read_key flt d' k dec_int = Inr (or_current n i)"
    "lookup_writes ws k = map_option VBool b \<Longrightarrow> read_key flt d k dec_bool = Inr c \<Longrightarrow>
      read_key flt d' k dec_bool = Inr (or_current b c)"
    "lookup_writes ws k = map_option (\<lambda>ss. VStrings (Some ss)) l \<Longrightarrow> read_key flt d k (unm_list elem_str) = Inr m \<Longrightarrow>
      read_key flt d' k (unm_list elem_str) = Inr (case l of None \<Rightarrow> m | Some ss \<Rightarrow> Some ss)"
proof -
  note p = read_put [where flt = flt and k = k and d' = d' and ws = ws and d = d, OF assms]
  show "read_key flt d' k dec_string = Inr (or_current y s)"
    if "lookup_writes ws k = map_option VString y" "read_key flt d k dec_string = Inr s"
    using p [OF that(2), of "\<lambda>v. case v of VString t \<Rightarrow> t"] that(1)
    by (auto simp: dec_string_def or_zero_def or_current_def split: option.splits)
  show "read_key flt d' k dec_string = Inr (if y = Some MaskedSecret then s else or_current y s)"
    if "lookup_writes ws k = secret_value y" "read_key flt d k dec_string = Inr s"
    using p [OF that(2), of "\<lambda>v. case v of VString t \<Rightarrow> t"] that(1)
    by (auto simp: dec_string_def or_zero_def or_current_def secret_value_def split: option.splits if_splits)
  show "read_key flt d' k dec_int = Inr (or_current n i)"
    if "lookup_writes ws k = map_option VInt n" "\<forall>i. n = Some i \<longrightarrow> int64 i" "read_key flt d k dec_int = Inr i"
    using p [OF that(3), of "\<lambda>v. case v of VInt t \<Rightarrow> t"] that(1,2)
    by (auto simp: dec_int_def or_zero_def or_current_def int64_def split: option.splits)
  show "read_key flt d' k dec_bool = Inr (or_current b c)"
    if "lookup_writes ws k = map_option VBool b" "read_key flt d k dec_bool = Inr c"
    using p [OF that(2), of "\<lambda>v. case v of VBool t \<Rightarrow> t"] that(1)
    by (auto simp: dec_bool_def or_zero_def or_current_def split: option.splits)
  show "read_key flt d' k (unm_list elem_str) = Inr (case l of None \<Rightarrow> m | Some ss \<Rightarrow> Some ss)"
    if "lookup_writes ws k = map_option (\<lambda>ss. VStrings (Some ss)) l" "read_key flt d k (unm_list elem_str) = Inr m"
    using p [OF that(2), of "\<lambda>v. case v of VStrings t \<Rightarrow> t"] that(1)
    by (auto simp: null_or_def split: option.splits)
qed

lemma rbind_Inr: "rbind r f = Inr y \<longleftrightarrow> (\<exists>x. r = Inr x \<and> f x = Inr y)"
  by (cases r) (auto simp: rbind_def)

text \<open>The auth section after its writes is the merged one.\<close>

lemma Auth_put:
  assumes old: "Auth flt d = Inr a" and nf: "\<forall>k. flt k = None"
    and ag: "\<forall>k. hd k = CHR ''a'' \<longrightarrow> settings_t d' k = written (auth_writes b) (settings_t d) k"
    and ok: "ab_groups_separator b \<noteq> Some []" "\<forall>h. ab_session_ttl_hours b = Some h \<longrightarrow> int64 h"
  shows "Auth flt d' = Inr (mergeAuth a (Some b))"
proof -
  have flt: "flt k = None" for k using nf by simp
  have at: "hd k = CHR ''a'' \<Longrightarrow> settings_t d' k = written (auth_writes b) (settings_t d) k" for k using ag by simp
  note kinds = read_put_kinds [OF flt at]
  obtain x0 x1 x2 x3 x4 x5 x6 x7 x8 x9 x10 x11 x12 x13 x14 x15 x16 where
    r: "read_key flt d ''auth.mode'' dec_string = Inr x0" "read_key flt d ''auth.user_header'' dec_string = Inr x1"
    "read_key flt d ''auth.groups_header'' dec_string = Inr x2" "read_key flt d ''auth.groups_separator'' dec_string = Inr x3"
    "read_key flt d ''auth.trusted_proxies'' (unm_list elem_str) = Inr x4" "read_key flt d ''auth.admin_group'' dec_string = Inr x5"
    "read_key flt d ''auth.allow_tokens'' dec_bool = Inr x6" "read_key flt d ''auth.oidc_issuer'' dec_string = Inr x7"
    "read_key flt d ''auth.oidc_client_id'' dec_string = Inr x8" "read_key flt d ''auth.oidc_client_secret'' dec_string = Inr x9"
    "read_key flt d ''auth.oidc_redirect_base_url'' dec_string = Inr x10"
    "read_key flt d ''auth.oidc_scopes'' (unm_list elem_str) = Inr x11"
    "read_key flt d ''auth.oidc_groups_claim'' dec_string = Inr x12"
    "read_key flt d ''auth.oidc_allowed_groups'' (unm_list elem_str) = Inr x13"
    "read_key flt d ''auth.oidc_allowed_emails'' (unm_list elem_str) = Inr x14"
    "read_key flt d ''auth.oidc_display_claim'' dec_string = Inr x15"
    "read_key flt d ''auth.session_ttl_hours'' dec_int = Inr x16"
    and a: "a = \<lparr>a_mode = x0, a_user_header = x1, a_groups_header = x2,
            a_groups_separator = if x3 = [] then '','' else x3, a_trusted_proxies = nil_empty x4,
            a_admin_group = x5, a_allow_tokens = x6, a_oidc_issuer = x7, a_oidc_client_id = x8,
            a_oidc_client_secret = x9, a_oidc_redirect_base_url = x10, a_oidc_scopes = nil_empty x11,
            a_oidc_groups_claim = x12, a_oidc_allowed_groups = nil_empty x13,
            a_oidc_allowed_emails = nil_empty x14, a_oidc_display_claim = x15, a_session_ttl_hours = x16\<rparr>"
    using old unfolding Auth_def rbind_Inr by (elim exE conjE) (rule that, (assumption | (drule Inr_inject, erule sym))+)
  have sep: "(if or_current (ab_groups_separator b) x3 = [] then '','' else or_current (ab_groups_separator b) x3) =
      or_current (ab_groups_separator b) (if x3 = [] then '','' else x3)"
    using ok(1) by (cases "ab_groups_separator b") (simp_all add: or_current_def)
  have nil: "nil_empty (case l of None \<Rightarrow> m | Some ss \<Rightarrow> Some ss) = or_current l (nil_empty m)" for l and m :: "string list option"
    by (cases l) (simp_all add: or_current_def nil_empty_def)
  note s = auth_lookup [of b]
  have "Auth flt d' = Inr \<lparr>a_mode = or_current (ab_mode b) x0, a_user_header = or_current (ab_user_header b) x1,
            a_groups_header = or_current (ab_groups_header b) x2,
            a_groups_separator = if or_current (ab_groups_separator b) x3 = [] then '','' else or_current (ab_groups_separator b) x3,
            a_trusted_proxies = nil_empty (case ab_trusted_proxies b of None \<Rightarrow> x4 | Some ss \<Rightarrow> Some ss),
            a_admin_group = or_current (ab_admin_group b) x5, a_allow_tokens = or_current (ab_allow_tokens b) x6,
            a_oidc_issuer = or_current (ab_oidc_issuer b) x7, a_oidc_client_id = or_current (ab_oidc_client_id b) x8,
            a_oidc_client_secret = (if ab_oidc_client_secret b = Some MaskedSecret then x9 else or_current (ab_oidc_client_secret b) x9),
            a_oidc_redirect_base_url = or_current (ab_oidc_redirect_base_url b) x10,
            a_oidc_scopes = nil_empty (case ab_oidc_scopes b of None \<Rightarrow> x11 | Some ss \<Rightarrow> Some ss),
            a_oidc_groups_claim = or_current (ab_oidc_groups_claim b) x12,
            a_oidc_allowed_groups = nil_empty (case ab_oidc_allowed_groups b of None \<Rightarrow> x13 | Some ss \<Rightarrow> Some ss),
            a_oidc_allowed_emails = nil_empty (case ab_oidc_allowed_emails b of None \<Rightarrow> x14 | Some ss \<Rightarrow> Some ss),
            a_oidc_display_claim = or_current (ab_oidc_display_claim b) x15,
            a_session_ttl_hours = or_current (ab_session_ttl_hours b) x16\<rparr>"
    unfolding Auth_def
    by (simp only: list.sel
      kinds(1) [OF _ s(1) r(1)] kinds(1) [OF _ s(2) r(2)] kinds(1) [OF _ s(3) r(3)] kinds(1) [OF _ s(4) r(4)]
      kinds(5) [OF _ s(5) r(5)] kinds(1) [OF _ s(6) r(6)] kinds(4) [OF _ s(7) r(7)] kinds(1) [OF _ s(8) r(8)]
      kinds(1) [OF _ s(9) r(9)] kinds(2) [OF _ s(10) r(10)] kinds(1) [OF _ s(11) r(11)] kinds(5) [OF _ s(12) r(12)]
      kinds(1) [OF _ s(13) r(13)] kinds(5) [OF _ s(14) r(14)] kinds(5) [OF _ s(15) r(15)] kinds(1) [OF _ s(16) r(16)]
      kinds(3) [OF _ s(17) ok(2) r(17)] rbind_def sum.case)
  then show ?thesis by (simp only: nil sep a mergeAuth_def option.case auth.simps)
qed

subsection \<open>Each section has keys of its own\<close>

lemma given_initial:
  "P k \<Longrightarrow> set (given y k) \<subseteq> Collect P"
  "P k \<Longrightarrow> (if b then {} else set (given y k)) \<subseteq> Collect P"
  by (auto simp: given_def split: option.splits)

lemma section_initials:
  "write_keys (general_writes g) \<subseteq> {k. hd k = CHR ''g''}"
  "write_keys (engines_writes e) \<subseteq> {k. hd k = CHR ''e''}"
  "write_keys (integrations_writes i) \<subseteq> {k. hd k = CHR ''i''}"
  "write_keys (notifications_writes merged n) \<subseteq> {k. hd k = CHR ''n''}"
  "write_keys (auth_writes a) \<subseteq> {k. hd k = CHR ''a''}"
  unfolding general_writes_def engines_writes_def integrations_writes_def notifications_writes_def auth_writes_def
    write_keys_Cons write_keys_Nil
  by (intro Un_least insert_subsetI empty_subsetI given_initial CollectI; simp)+

lemma written_left: "k \<notin> write_keys xs \<Longrightarrow> written (xs @ ys) m k = written ys m k"
  by (cases "lookup_writes ys k") (simp_all add: written_append written_def [of ys] written_other)

lemma written_right: "k \<notin> write_keys ys \<Longrightarrow> written (xs @ ys) m k = written xs m k"
  by (simp add: written_append written_other)

lemma section_of_initial: "\<forall>x. write_keys (f x) \<subseteq> {k. hd k = c} \<Longrightarrow> hd k \<noteq> c \<Longrightarrow> k \<notin> write_keys (section_of f b)"
  by (cases b) (auto simp: section_of_def)

lemma written_sections:
  "hd k = CHR ''g'' \<Longrightarrow> written (all_writes merged body) m k = written (section_of general_writes (sb_general body)) m k"
  "hd k = CHR ''e'' \<Longrightarrow> written (all_writes merged body) m k = written (section_of engines_writes (sb_engines body)) m k"
  "hd k = CHR ''i'' \<Longrightarrow> written (all_writes merged body) m k = written (section_of integrations_writes (sb_integrations body)) m k"
  "hd k = CHR ''n'' \<Longrightarrow> written (all_writes merged body) m k = written (section_of (notifications_writes merged) (sb_notifications body)) m k"
  "hd k = CHR ''a'' \<Longrightarrow> written (all_writes merged body) m k = written (section_of auth_writes (sb_auth body)) m k"
proof -
  have out: "hd k \<noteq> CHR ''g'' \<Longrightarrow> k \<notin> write_keys (section_of general_writes (sb_general body))"
    "hd k \<noteq> CHR ''e'' \<Longrightarrow> k \<notin> write_keys (section_of engines_writes (sb_engines body))"
    "hd k \<noteq> CHR ''i'' \<Longrightarrow> k \<notin> write_keys (section_of integrations_writes (sb_integrations body))"
    "hd k \<noteq> CHR ''n'' \<Longrightarrow> k \<notin> write_keys (section_of (notifications_writes merged) (sb_notifications body))"
    "hd k \<noteq> CHR ''a'' \<Longrightarrow> k \<notin> write_keys (section_of auth_writes (sb_auth body))" for k
    by (rule section_of_initial; simp add: section_initials)+
  show "hd k = CHR ''g'' \<Longrightarrow> written (all_writes merged body) m k = written (section_of general_writes (sb_general body)) m k"
    "hd k = CHR ''e'' \<Longrightarrow> written (all_writes merged body) m k = written (section_of engines_writes (sb_engines body)) m k"
    "hd k = CHR ''i'' \<Longrightarrow> written (all_writes merged body) m k = written (section_of integrations_writes (sb_integrations body)) m k"
    "hd k = CHR ''n'' \<Longrightarrow> written (all_writes merged body) m k = written (section_of (notifications_writes merged) (sb_notifications body)) m k"
    "hd k = CHR ''a'' \<Longrightarrow> written (all_writes merged body) m k = written (section_of auth_writes (sb_auth body)) m k"
    by (simp_all add: all_writes_eq out written_left written_right)
qed

subsection \<open>Tokens and their limits\<close>

lemma Auth_keep:
  assumes "\<forall>k. hd k = CHR ''a'' \<longrightarrow> settings_t d' k = settings_t d k"
  shows "Auth flt d' = Auth flt d"
proof -
  have s: "read_key flt d' k dec_string = read_key flt d k dec_string" "read_key flt d' k dec_int = read_key flt d k dec_int"
    "read_key flt d' k dec_bool = read_key flt d k dec_bool"
    "read_key flt d' k (unm_list elem_str) = read_key flt d k (unm_list elem_str)" if "hd k = CHR ''a''" for k
    using assms that by (auto intro!: read_keep)
  show ?thesis unfolding Auth_def by (simp only: s list.sel)
qed

text \<open>C20: a request that authenticated with an API token cannot change how it is checked or what the server
  executes: whatever document it sends, the authentication section, the engine binaries and the URL of the server
  list read the same after an accepted \<open>PUT\<close> as before.\<close>

theorem token_cannot_raise_itself:
  assumes "requestAuthIsToken ident" "applySettings lib f ident r body w = (w', None)"
    and nf: "\<forall>k. cf_engines (pf_sections f) k = None" "\<forall>k. flt k = None"
    and cur: "Engines flt (fst w) = Inr e"
  shows "Auth flt (fst w') = Auth flt (fst w) \<and>
    (read_key flt (fst w') ''engines.speedtest_bin'' dec_string = Inr (en_speedtest_bin e) \<and>
      read_key flt (fst w') ''engines.iperf3_bin'' dec_string = Inr (en_iperf3_bin e) \<and>
      read_key flt (fst w') ''engines.iperf3_list_url'' dec_string = Inr (en_iperf3_list_url e))"
proof -
  from applySettings_accepted [OF assms(2)] obtain merged
    where c: "check_put lib f ident r body w = Inr merged"
      and d: "fst w' = (fst w)\<lparr>settings_t := written (all_writes merged body) (settings_t (fst w))\<rparr>" .
  from c have au: "sb_auth body = None" and eg: "engines_guard (pf_sections f) ident (fst w) body = Inr ()"
    using assms(1) by (auto elim!: check_put_accepts)
  have "Auth flt (fst w') = Auth flt (fst w)"
    using d au by (intro Auth_keep) (simp add: written_sections(5) section_of_def written_simps)
  moreover have same: "cf_engines (pf_sections f) = flt" using nf by auto
  have r: "read_key flt (fst w) ''engines.speedtest_bin'' dec_string = Inr (en_speedtest_bin e)"
    "read_key flt (fst w) ''engines.iperf3_bin'' dec_string = Inr (en_iperf3_bin e)"
    "read_key flt (fst w) ''engines.iperf3_list_url'' dec_string = Inr (en_iperf3_list_url e)"
    using cur unfolding Engines_def rbind_Inr by auto
  have "read_key flt (fst w') ''engines.speedtest_bin'' dec_string = Inr (en_speedtest_bin e) \<and>
      read_key flt (fst w') ''engines.iperf3_bin'' dec_string = Inr (en_iperf3_bin e) \<and>
      read_key flt (fst w') ''engines.iperf3_list_url'' dec_string = Inr (en_iperf3_list_url e)"
  proof (cases "sb_engines body")
    case None
    then have "settings_t (fst w') k = settings_t (fst w) k" if "hd k = CHR ''e''" for k
      using d that by (simp add: written_sections(2) section_of_def written_simps)
    with r show ?thesis by (simp add: read_keep [of "fst w'" _ "fst w"])
  next
    case (Some b)
    then have at: "settings_t (fst w') k = written (engines_writes b) (settings_t (fst w)) k" if "hd k = CHR ''e''" for k
      using d that by (simp add: written_sections(2) section_of_def)
    have "\<not> repoints_engines b e" using eg Some assms(1) cur same
      by (auto simp: engines_guard_def abind_Inr split: if_splits)
    then have "or_current (eb_speedtest_bin b) (en_speedtest_bin e) = en_speedtest_bin e"
      "or_current (eb_iperf3_bin b) (en_iperf3_bin e) = en_iperf3_bin e"
      "or_current (eb_iperf3_list_url b) (en_iperf3_list_url e) = en_iperf3_list_url e"
      by (auto simp: repoints_engines_def)
    with read_put_kinds(1) [OF nf(2) [rule_format] at _ r(1)] read_put_kinds(1) [OF nf(2) [rule_format] at _ r(2)]
      read_put_kinds(1) [OF nf(2) [rule_format] at _ r(3)]
    show ?thesis by (simp add: engines_lookup)
  qed
  ultimately show ?thesis by blast
qed

subsection \<open>Switching the authentication mode\<close>

lemma validateAuthBody_ok:
  assumes "validateAuthBody lib (Some b) a = None"
  shows "ab_groups_separator b \<noteq> Some []" "\<forall>h. ab_session_ttl_hours b = Some h \<longrightarrow> int64 h"
  using assms by (auto simp: validateAuthBody_def Let_def checks_None int64_def)

lemma put_merges_auth:
  assumes "applySettings lib f ident r body w = (w', None)" "sb_auth body = Some b"
    and nf: "\<forall>k. flt k = None" "\<forall>k. cf_auth (pf_sections f) k = None" and cur: "Auth flt (fst w) = Inr cur"
  shows "Auth flt (fst w') = Inr (mergeAuth cur (Some b))"
    "checkAuthLockout lib (pf_count f) (pf_token f) (fst w) ident r cur (mergeAuth cur (Some b)) = None"
    "api_tokens_t (fst w') = api_tokens_t (fst w)"
proof -
  from applySettings_accepted [OF assms(1)] obtain merged
    where c: "check_put lib f ident r body w = Inr merged"
      and d: "fst w' = (fst w)\<lparr>settings_t := written (all_writes merged body) (settings_t (fst w))\<rparr>" .
  have same: "cf_auth (pf_sections f) = flt" using nf by auto
  from c obtain a where a: "Auth (cf_auth (pf_sections f)) (fst w) = Inr a"
    "validateAuthBody lib (sb_auth body) a = None"
    "checkAuthLockout lib (pf_count f) (pf_token f) (fst w) ident r a (mergeAuth a (sb_auth body)) = None"
    using assms(2) by (elim check_put_accepts) auto
  with cur same have ac: "a = cur" by simp
  with a assms(2) show "checkAuthLockout lib (pf_count f) (pf_token f) (fst w) ident r cur (mergeAuth cur (Some b)) = None"
    by simp
  have "\<forall>k. hd k = CHR ''a'' \<longrightarrow> settings_t (fst w') k = written (auth_writes b) (settings_t (fst w)) k"
    using d assms(2) by (simp add: written_sections(5) section_of_def)
  with a ac assms(2) show "Auth flt (fst w') = Inr (mergeAuth cur (Some b))"
    using Auth_put [OF cur nf(1)] validateAuthBody_ok [of lib b cur] by simp
  show "api_tokens_t (fst w') = api_tokens_t (fst w)" using d by simp
qed

lemma parse_proxies_mem:
  "parse_proxies lib raws = Inr ps \<Longrightarrow> raw \<in> set raws \<Longrightarrow> al_prefix lib raw = Some p \<Longrightarrow> p \<in> set ps"
  by (induction raws arbitrary: ps) (auto split: option.splits sum.splits)

lemma bearer_tokens_agree: "bearerTokenFromRequest r = bearerToken r"
proof -
  have "ToLower ''Bearer '' = ToLower ''bearer ''" by code_simp
  then have "EqualFold t ''Bearer '' = EqualFold t ''bearer ''" for t by (simp add: EqualFold_def)
  then show ?thesis by (simp add: bearerTokenFromRequest_def bearerToken_def Let_def)
qed

lemma forward_lockout_served:
  assumes "forward_lockout lib r cur new = None" "a_mode new \<noteq> a_mode cur" "a_user_header new \<noteq> []"
    "parse_proxies lib (a_trusted_proxies new) = Inr ps"
    "ac_trusted cfg = ps" "ac_user_header cfg = a_user_header new"
  shows "\<exists>ident. identifyForward lib cfg r = Inr ident"
proof -
  from assms(1-3) obtain addr raw p where a: "al_addrport lib (rq_remote r) = Some addr"
    "raw \<in> set (a_trusted_proxies new)" "al_prefix lib raw = Some p" "p addr" "Header_Get r (a_user_header new) \<noteq> []"
    by (auto simp: forward_lockout_def Let_def list_ex_iff split: if_splits option.splits)
  with parse_proxies_mem [OF assms(4)] have "p \<in> set ps" by blast
  with a assms(5,6) have "ac_trusted cfg \<noteq> []" "\<exists>p\<in>set (ac_trusted cfg). p addr" by auto
  with a assms(6) show ?thesis by (simp add: identifyForward_def Let_def)
qed

lemma token_lockout_lookup:
  assumes "token_lockout lib cflt tflt d r cur new = None" "a_mode new \<noteq> a_mode cur"
  obtains plain i where "bearerToken r = Some plain" "storeTokens_LookupToken None d (HashToken lib plain) = Inr (Some i)"
  using assms
  by (auto simp: token_lockout_def bearer_tokens_agree storeTokens_LookupToken_def APITokenByHash_def
    split: sum.splits if_splits option.splits)

text \<open>Whoever switches the authentication mode is not locked out: if a \<open>PUT\<close> that changes the mode to open,
  forward\_auth or token is accepted and the middleware takes over the section as it is stored then, the very same
  request is served by the middleware under the new mode.\<close>

theorem switching_request_is_served:
  assumes "applySettings lib f ident r body w = (w', None)" "sb_auth body \<noteq> None"
    and nf: "\<forall>k. flt k = None" "\<forall>k. cf_auth (pf_sections f) k = None"
    and cur: "Auth flt (fst w) = Inr cur" and new: "Auth flt (fst w') = Inr new"
    and mode: "a_mode new \<noteq> a_mode cur" "a_mode new \<in> {''open'', ''forward_auth'', ''token''}"
    and fwd: "a_mode new = ''forward_auth'' \<longrightarrow> a_user_header new \<noteq> [] \<and> (a_allow_tokens new \<longrightarrow> bearerToken r = None)"
    and conf: "Configure (ap_auth lib) new m = (m', None)"
  shows "\<exists>m'' ident'. Handler (ap_auth lib) (storeTokens_LookupToken None (fst w')) sess now r m' = (m'', Served ident')"
proof -
  let ?toks = "storeTokens_LookupToken None (fst w')"
  from assms(2) obtain b where b: "sb_auth body = Some b" by auto
  note p = put_merges_auth [OF assms(1) b nf cur]
  with new have n: "new = mergeAuth cur (Some b)" by simp
  obtain ps where ps: "parse_proxies (ap_auth lib) (a_trusted_proxies new) = Inr ps"
    and cfg: "ac_mode (mw_cfg m') = a_mode new" "ac_user_header (mw_cfg m') = a_user_header new"
      "ac_trusted (mw_cfg m') = ps" "ac_allow_tokens (mw_cfg m') = a_allow_tokens new"
    using conf by (auto simp: Configure_def split: sum.splits)
  have lock: "checkAuthLockout lib (pf_count f) (pf_token f) (fst w) ident r cur new = None" using p(2) n by simp
  consider (open_mode) "a_mode new = ''open''" | (fwd_mode) "a_mode new = ''forward_auth''" | (tok_mode) "a_mode new = ''token''"
    using mode(2) by auto
  then show ?thesis
  proof cases
    case open_mode
    with cfg show ?thesis by (simp add: Handler_def Identify_def Let_def)
  next
    case fwd_mode
    with lock have "forward_lockout (ap_auth lib) r cur new = None" by (simp add: checkAuthLockout_def)
    from forward_lockout_served [OF this mode(1) _ ps cfg(3,2)] fwd fwd_mode
    obtain ident' where "identifyForward (ap_auth lib) (mw_cfg m') r = Inr ident'" by auto
    with fwd_mode fwd cfg show ?thesis by (auto simp: Handler_def Identify_def Let_def)
  next
    case tok_mode
    with lock have "token_lockout (ap_auth lib) (pf_count f) (pf_token f) (fst w) r cur new = None"
      by (simp add: checkAuthLockout_def)
    from token_lockout_lookup [OF this mode(1)] obtain plain i where t: "bearerToken r = Some plain"
      "storeTokens_LookupToken None (fst w) (HashToken (ap_auth lib) plain) = Inr (Some i)" .
    have "?toks (HashToken (ap_auth lib) plain) = Inr (Some i)"
      using t(2) p(3) by (simp add: storeTokens_LookupToken_def APITokenByHash_def)
    with tok_mode t(1) cfg show ?thesis
      by (simp add: Handler_def Identify_def Let_def credentialToken_def identifyToken_def)
  qed
qed

end
