(* ===== verification/Settings_Echo.thy ===== *)
theory Settings_Echo
  imports Settings_Api_Props
begin

text \<open>
  A settings form reads the whole document, lets the user edit it and sends all of it back, secrets masked.
  \<open>echo\<close> is that document unchanged. Sending it back keeps every setting, except that the older authorization
  headers are cleared because the document names the auth types.
\<close>

subsection \<open>The unchanged document\<close>

definition echo_general :: "general \<Rightarrow> general_body" where
  "echo_general g = \<lparr>
     gb_base_url = Some (g_base_url g),
     gb_timezone = Some (g_timezone g),
     gb_units = Some (g_units g),
     gb_log_level = Some (g_log_level g),
     gb_retention_days_results = Some (g_retention_days_results g),
     gb_retention_days_runs = Some (g_retention_days_runs g),
     gb_retention_prune_interval_minutes = Some (g_retention_prune_interval_minutes g),
     gb_sla_download_mbps = g_sla_download_mbps g,
     gb_sla_upload_mbps = g_sla_upload_mbps g,
     gb_sla_tolerance_pct = g_sla_tolerance_pct g\<rparr>"

definition echo_engines :: "engines \<Rightarrow> engines_body" where
  "echo_engines e = \<lparr>
     eb_speedtest_bin = Some (en_speedtest_bin e),
     eb_iperf3_bin = Some (en_iperf3_bin e),
     eb_ookla_accept_license = Some (en_ookla_accept_license e),
     eb_ookla_accept_gdpr = Some (en_ookla_accept_gdpr e),
     eb_server_list_ttl_seconds = Some (en_server_list_ttl_seconds e),
     eb_default_ookla_options = Some (en_default_ookla_options e),
     eb_default_cloudflare_options = Some (en_default_cloudflare_options e),
     eb_default_iperf3_options = Some (en_default_iperf3_options e),
     eb_iperf3_list_url = Some (en_iperf3_list_url e)\<rparr>"

definition echo_integrations :: "integrations \<Rightarrow> integrations_body" where
  "echo_integrations i = \<lparr>
     ib_vm_enabled = Some (ig_vm_enabled i),
     ib_vm_url = Some (ig_vm_url i),
     ib_vm_auth_header = Some (ig_vm_auth_header i),
     ib_vm_auth_type = Some (ig_vm_auth_type i),
     ib_vm_auth_username = Some (ig_vm_auth_username i),
     ib_vm_auth_password = Some (ig_vm_auth_password i),
     ib_vm_auth_token = Some (ig_vm_auth_token i),
     ib_vm_auth_header_name = Some (ig_vm_auth_header_name i),
     ib_vm_auth_header_value = Some (ig_vm_auth_header_value i),
     ib_vm_extra_labels = Some (ig_vm_extra_labels i),
     ib_vl_enabled = Some (ig_vl_enabled i),
     ib_vl_url = Some (ig_vl_url i),
     ib_vl_auth_header = Some (ig_vl_auth_header i),
     ib_vl_auth_type = Some (ig_vl_auth_type i),
     ib_vl_auth_username = Some (ig_vl_auth_username i),
     ib_vl_auth_password = Some (ig_vl_auth_password i),
     ib_vl_auth_token = Some (ig_vl_auth_token i),
     ib_vl_auth_header_name = Some (ig_vl_auth_header_name i),
     ib_vl_auth_header_value = Some (ig_vl_auth_header_value i),
     ib_vl_stream_fields = Some (ig_vl_stream_fields i),
     ib_metrics_enabled = Some (ig_metrics_enabled i)\<rparr>"

definition echo_notifications :: "notifications \<Rightarrow> notifications_body" where
  "echo_notifications n = \<lparr>
     nb_enabled = Some (n_enabled n),
     nb_channels = Some (n_channels n),
     nb_default_thresholds = Some (n_defaults n),
     nb_cooldown_minutes = Some (n_cooldown_minutes n),
     nb_quiet_hours_start = Some (n_quiet_start n),
     nb_quiet_hours_end = Some (n_quiet_end n),
     nb_notify_recovery = Some (n_recovery n)\<rparr>"

definition echo_auth :: "auth \<Rightarrow> auth_body" where
  "echo_auth a = \<lparr>
     ab_mode = Some (a_mode a),
     ab_user_header = Some (a_user_header a),
     ab_groups_header = Some (a_groups_header a),
     ab_groups_separator = Some (a_groups_separator a),
     ab_trusted_proxies = Some (a_trusted_proxies a),
     ab_admin_group = Some (a_admin_group a),
     ab_allow_tokens = Some (a_allow_tokens a),
     ab_oidc_issuer = Some (a_oidc_issuer a),
     ab_oidc_client_id = Some (a_oidc_client_id a),
     ab_oidc_client_secret = Some (a_oidc_client_secret a),
     ab_oidc_redirect_base_url = Some (a_oidc_redirect_base_url a),
     ab_oidc_scopes = Some (a_oidc_scopes a),
     ab_oidc_groups_claim = Some (a_oidc_groups_claim a),
     ab_oidc_allowed_groups = Some (a_oidc_allowed_groups a),
     ab_oidc_allowed_emails = Some (a_oidc_allowed_emails a),
     ab_oidc_display_claim = Some (a_oidc_display_claim a),
     ab_session_ttl_hours = Some (a_session_ttl_hours a)\<rparr>"


definition echo :: "settings_response \<Rightarrow> settings_body" where
  "echo s = \<lparr>sb_general = Some (echo_general (sr_general s)), sb_engines = Some (echo_engines (sr_engines s)),
     sb_integrations = Some (echo_integrations (sr_integrations s)),
     sb_notifications = Some (echo_notifications (sr_notifications s)), sb_auth = Some (echo_auth (sr_auth s))\<rparr>"

subsection \<open>Masked channels are recognised\<close>

lemma RedactURL_nonempty: "RedactURL lib u \<noteq> []"
  by (simp add: RedactURL_def split: sum.splits prod.splits)

lemma take_stored_blanks: "take_stored lib u (replicate n [] @ ss) = map_option (\<lambda>(x, rest). (x, replicate n [] @ rest)) (take_stored lib u ss)"
proof (induction n)
  case 0
  show ?case by (cases "take_stored lib u ss") auto
next
  case (Suc n)
  then show ?case by (cases "take_stored lib u ss") auto
qed

lemma take_stored_empty: "take_stored lib [] ss = None"
proof (induction ss)
  case (Cons s ss)
  have "[] \<noteq> RedactURL lib s" using RedactURL_nonempty [of lib s] by metis
  with Cons show ?case by simp
qed simp

lemma merge_urls_echo:
  "merge_urls lib (map (\<lambda>u. if u \<noteq> [] then RedactURL lib u else u) us) (replicate n [] @ us) = Inr us"
proof (induction us arbitrary: n)
  case (Cons s ss)
  have blanks: "replicate n [] @ [] # ss = replicate (Suc n) [] @ ss" by (simp add: replicate_app_Cons_same)
  have ih: "merge_urls lib (map (\<lambda>u. if u \<noteq> [] then RedactURL lib u else u) ss) (replicate n [] @ [] # ss) = Inr ss"
    unfolding blanks by (rule Cons)
  show ?case
  proof (cases "s = []")
    case True
    then show ?thesis using ih by (simp add: take_stored_empty MaskedSecret_def)
  next
    case False
    then show ?thesis using ih by (simp add: take_stored_blanks)
  qed
qed simp

lemma mask_secret_masked [simp]: "mask_secret s = MaskedSecret \<longleftrightarrow> s \<noteq> []"
  by (simp add: mask_secret_def MaskedSecret_def)

lemma mask_secret_Nil [simp]: "mask_secret [] = []"
  by (simp add: mask_secret_def)

lemma headers_echo:
  assumes "map_ok (ch_headers c)"
  shows "map (header_or_stored c) (map (\<lambda>(k, v). (k, mask_secret v)) (ch_headers c)) = ch_headers c"
proof -
  have "distinct (map fst (ch_headers c))" using assms by (simp add: map_ok_def strict_sorted_iff)
  then have "map_of (ch_headers c) k = Some v" if "(k, v) \<in> set (ch_headers c)" for k v
    using that by simp
  then show ?thesis by (auto simp: header_or_stored_def intro!: map_idI)
qed

lemma merge_channel_echo:
  assumes "stored (ch_id c) = Some c" "map_ok (ch_headers c)"
  shows "merge_channel lib stored (mask_channel lib c) = Inr c"
proof -
  let ?m = "mask_channel lib c"
  obtain us where us: "ch_urls ?m = us" "us = [] \<longleftrightarrow> ch_urls c = []" by (simp add: mask_channel_def)
  have urls: "mergeAppriseURLs lib us (ch_urls c) = Inr (ch_urls c)"
    using merge_urls_echo [of lib "ch_urls c" 0] us(1) by (simp add: mergeAppriseURLs_def mask_channel_def)
  show ?thesis
  proof (cases "channelHasMaskedSecret ?m")
    case True
    have c1: "?m\<lparr>ch_token := (if ch_token ?m = MaskedSecret then ch_token c else ch_token ?m),
          ch_headers := map (header_or_stored c) (ch_headers ?m)\<rparr> = c\<lparr>ch_urls := us\<rparr>"
      using headers_echo [OF assms(2)] us(1) by (cases "ch_token c = []") (simp_all add: mask_channel_def)
    have "ch_id ?m = ch_id c" "ch_type ?m = ch_type c" "ch_url ?m = ch_url c" by (simp_all add: mask_channel_def)
    with True assms(1) c1 urls us(2) show ?thesis
      by (cases "ch_urls c = []") (simp_all add: merge_channel_def Let_def)
  next
    case False
    then have "ch_token c = []" "\<forall>(k, v)\<in>set (ch_headers c). v = []"
      by (auto simp: channelHasMaskedSecret_def mask_channel_def list_ex_iff)
    then have "map (\<lambda>(k, v). (k, mask_secret v)) (ch_headers c) = ch_headers c" by (auto intro!: map_idI)
    with \<open>ch_token c = []\<close> us(1) have c1: "?m = c\<lparr>ch_urls := us\<rparr>" by (auto simp: mask_channel_def)
    with False assms(1) urls us(2) show ?thesis
      by (cases "ch_urls c = []") (simp_all add: merge_channel_def Let_def)
  qed
qed

lemma merge_channels_echo:
  assumes "\<forall>c\<in>set cs. stored (ch_id c) = Some c \<and> map_ok (ch_headers c)"
  shows "merge_channels lib stored (map (mask_channel lib) cs) = Inr cs"
  using assms by (induction cs) (simp_all add: merge_channel_echo)

lemma merge_channels_ids: "merge_channels lib stored cs = Inr ms \<Longrightarrow> map ch_id ms = map ch_id cs"
proof (induction cs arbitrary: ms)
  case (Cons c cs)
  then obtain c' ms' where c: "merge_channel lib stored c = Inr c'" "merge_channels lib stored cs = Inr ms'" "ms = c' # ms'"
    by (auto split: sum.splits)
  from c(1) have "ch_id c' = ch_id c" by (auto simp: merge_channel_def Let_def split: sum.splits option.splits if_splits)
  with Cons.IH [OF c(2)] c(3) show ?case by simp
qed simp

lemma validate_channels_distinct:
  "validate_channels lib seen cs = None \<Longrightarrow> distinct (map ch_id cs) \<and> set (map ch_id cs) \<inter> seen = {}"
  by (induction lib seen cs rule: validate_channels.induct) (auto split: option.splits if_splits)

lemma mergeChannelSecrets_echo:
  assumes "mergeChannelSecrets lib (map (mask_channel lib) cs) cs = Inr ms" "validate_channels lib {} ms = None"
    "\<forall>c\<in>set cs. map_ok (ch_headers c)"
  shows "ms = cs"
proof -
  have "map ch_id ms = map ch_id (map (mask_channel lib) cs)"
    using merge_channels_ids assms(1) by (simp add: mergeChannelSecrets_def)
  then have ids: "map ch_id ms = map ch_id cs" by (simp add: mask_channel_def o_def)
  have "distinct (map ch_id ms)" using validate_channels_distinct [OF assms(2)] by simp
  then have "distinct (map ch_id cs)" using ids by simp
  then have "map_of (rev (map (\<lambda>c. (ch_id c, c)) cs)) (ch_id c) = Some c" if "c \<in> set cs" for c
    using that by (subst map_of_rev) (auto simp: o_def intro!: map_of_is_SomeI)
  then have "merge_channels lib (map_of (rev (map (\<lambda>c. (ch_id c, c)) cs))) (map (mask_channel lib) cs) = Inr cs"
    using assms(3) by (intro merge_channels_echo) auto
  with assms(1) show ?thesis by (simp add: mergeChannelSecrets_def)
qed

subsection \<open>The sections after the document came back\<close>

lemma read_keyD:
  assumes "read_key flt d k f = Inr x"
  shows "\<exists>j. f j = Some x"
proof -
  from assms [unfolded read_key_def rbind_Inr] obtain v where
    v: "(case (case v of Some r \<Rightarrow> r | None \<Rightarrow> default_raw k) of
         RawDoc j \<Rightarrow> (case f j of Some x \<Rightarrow> Inr x | None \<Rightarrow> Inl (ErrDB (''decode '' @ k)))
       | _ \<Rightarrow> Inl (ErrDB (''decode '' @ k))) = Inr x" by blast
  show ?thesis
  proof (cases "case v of Some r \<Rightarrow> r | None \<Rightarrow> default_raw k")
    case (RawDoc j)
    with v show ?thesis by (cases "f j") auto
  qed (use v in auto)
qed

lemma read_ok:
  "read_key flt d k dec_int = Inr i \<Longrightarrow> int64 i"
  "read_key flt d k unm_map = Inr (Some m) \<Longrightarrow> map_ok m"
  "read_key flt d k (unm_list elem_channel) = Inr (Some cs) \<Longrightarrow> \<forall>c\<in>set cs. map_ok (ch_headers c)"
proof -
  show "int64 i" if r: "read_key flt d k dec_int = Inr i"
  proof -
    from read_keyD [OF r] obtain j where "dec_int j = Some i" by blast
    then show ?thesis by (cases j) (auto simp: dec_int_def or_zero_def int64_def split: if_splits)
  qed
  show "map_ok m" if r: "read_key flt d k unm_map = Inr (Some m)"
  proof -
    from read_keyD [OF r] obtain j where "unm_map j = Some (Some m)" by blast
    then show ?thesis by (cases j) auto
  qed
  show "\<forall>c\<in>set cs. map_ok (ch_headers c)" if r: "read_key flt d k (unm_list elem_channel) = Inr (Some cs)"
  proof -
    from read_keyD [OF r] obtain j where j: "unm_list elem_channel j = Some (Some cs)" by blast
    then obtain xs where "traverse elem_channel xs = Some cs" by (cases j) auto
    then show ?thesis by (induction xs arbitrary: cs) (auto split: option.splits dest: elem_channel_ok)
  qed
qed

text \<open>Reading back the remaining types.\<close>

lemma read_put_kinds':
  assumes "flt k = None" "settings_t d' k = written ws (settings_t d) k"
  shows "lookup_writes ws k = map_option (\<lambda>x. VFloatPtr (Some x)) x \<Longrightarrow> read_key flt d k unm_float = Inr x \<Longrightarrow>
      read_key flt d' k unm_float = Inr x"
    "lookup_writes ws k = Some (VFloatPtr y) \<Longrightarrow> read_key flt d k unm_float = Inr x \<Longrightarrow> read_key flt d' k unm_float = Inr y"
    "lookup_writes ws k = map_option VRaw (Some j) \<Longrightarrow> read_key flt d k Some = Inr i \<Longrightarrow> read_key flt d' k Some = Inr j"
    "lookup_writes ws k = map_option (\<lambda>m. VStringMap (Some m)) (Some m) \<Longrightarrow> map_ok m \<Longrightarrow> read_key flt d k unm_map = Inr l \<Longrightarrow>
      read_key flt d' k unm_map = Inr (Some m)"
    "lookup_writes ws k = map_option VThresholds (Some t) \<Longrightarrow> read_key flt d k unm_thresholds = Inr u \<Longrightarrow>
      read_key flt d' k unm_thresholds = Inr t"
    "lookup_writes ws k = map_option (\<lambda>cs. VChannels (Some cs)) (Some cs) \<Longrightarrow> \<forall>c\<in>set cs. map_ok (ch_headers c) \<Longrightarrow>
      read_key flt d k (unm_list elem_channel) = Inr ds \<Longrightarrow> read_key flt d' k (unm_list elem_channel) = Inr (Some cs)"
    "lookup_writes ws k = coalesce (map_option (\<lambda>_. VString []) (Some s)) q \<Longrightarrow> read_key flt d k dec_string = Inr r \<Longrightarrow>
      read_key flt d' k dec_string = Inr []"
proof -
  note p = read_put [where flt = flt and k = k and d' = d' and ws = ws and d = d, OF assms]
  show "read_key flt d' k unm_float = Inr x"
    if "lookup_writes ws k = map_option (\<lambda>x. VFloatPtr (Some x)) x" "read_key flt d k unm_float = Inr x"
    using p [OF that(2), of "\<lambda>v. case v of VFloatPtr t \<Rightarrow> t"] that(1)
    by (cases x) (auto simp: unm_float_def null_or_def)
  show "read_key flt d' k unm_float = Inr y"
    if "lookup_writes ws k = Some (VFloatPtr y)" "read_key flt d k unm_float = Inr x"
    using p [OF that(2), of "\<lambda>v. case v of VFloatPtr t \<Rightarrow> t"] that(1)
    by (cases y) (auto simp: unm_float_def null_or_def)
  show "read_key flt d' k Some = Inr j" if "lookup_writes ws k = map_option VRaw (Some j)" "read_key flt d k Some = Inr i"
    using p [OF that(2), of "\<lambda>v. case v of VRaw t \<Rightarrow> t"] that(1) by simp
  show "read_key flt d' k unm_map = Inr (Some m)"
    if "lookup_writes ws k = map_option (\<lambda>m. VStringMap (Some m)) (Some m)" "map_ok m" "read_key flt d k unm_map = Inr l"
    using p [OF that(3), of "\<lambda>v. case v of VStringMap t \<Rightarrow> t"] that(1,2)
    by (simp add: null_or_def encode_map_def canon_id)
  show "read_key flt d' k unm_thresholds = Inr t"
    if "lookup_writes ws k = map_option VThresholds (Some t)" "read_key flt d k unm_thresholds = Inr u"
    using p [OF that(2), of "\<lambda>v. case v of VThresholds t \<Rightarrow> t"] that(1) by (simp add: unm_encode_thresholds)
  show "read_key flt d' k (unm_list elem_channel) = Inr (Some cs)"
    if "lookup_writes ws k = map_option (\<lambda>cs. VChannels (Some cs)) (Some cs)" "\<forall>c\<in>set cs. map_ok (ch_headers c)"
      "read_key flt d k (unm_list elem_channel) = Inr ds"
    using p [OF that(3), of "\<lambda>v. case v of VChannels t \<Rightarrow> t"] that(1,2)
    by (simp add: null_or_def traverse_map elem_encode_channel)
  show "read_key flt d' k dec_string = Inr []"
    if "lookup_writes ws k = coalesce (map_option (\<lambda>_. VString []) (Some s)) q" "read_key flt d k dec_string = Inr r"
    using p [OF that(2), of "\<lambda>v. case v of VString t \<Rightarrow> t"] that(1) by (simp add: dec_string_def or_zero_def)
qed

lemma nil_empty_map_ok: "read_key flt d k unm_map = Inr m \<Longrightarrow> map_ok (nil_empty m)"
  by (cases m) (auto simp: nil_empty_def map_ok_def [of "[]"] dest: read_ok(2))

lemma nil_empty_channels_ok: "read_key flt d k (unm_list elem_channel) = Inr m \<Longrightarrow> \<forall>c\<in>set (nil_empty m). map_ok (ch_headers c)"
  by (cases m) (auto simp: nil_empty_def dest: read_ok(3))

lemma nil_empty_Some [simp]: "nil_empty (Some xs) = xs"
  by (simp add: nil_empty_def)

lemma General_echo:
  assumes old: "General flt d = Inr g" and nf: "\<forall>k. flt k = None"
    and ag: "\<forall>k. hd k = CHR ''g'' \<longrightarrow> settings_t d' k = written (general_writes (echo_general g)) (settings_t d) k"
  shows "General flt d' = Inr g"
proof -
  have flt: "flt k = None" for k using nf by simp
  have at: "hd k = CHR ''g'' \<Longrightarrow> settings_t d' k = written (general_writes (echo_general g)) (settings_t d) k" for k using ag by simp
  obtain x0 x1 x2 x3 x4 x5 x6 x7 x8 x9 where
    r: "read_key flt d ''general.base_url'' dec_string = Inr x0"
    "read_key flt d ''general.timezone'' dec_string = Inr x1"
    "read_key flt d ''general.units'' dec_string = Inr x2"
    "read_key flt d ''general.log_level'' dec_string = Inr x3"
    "read_key flt d ''general.retention_days_results'' dec_int = Inr x4"
    "read_key flt d ''general.retention_days_runs'' dec_int = Inr x5"
    "read_key flt d ''general.retention_prune_interval_minutes'' dec_int = Inr x6"
    "read_key flt d ''general.sla_download_mbps'' unm_float = Inr x7"
    "read_key flt d ''general.sla_upload_mbps'' unm_float = Inr x8"
    "read_key flt d ''general.sla_tolerance_pct'' unm_float = Inr x9"
    and g: "g = \<lparr>g_base_url = x0, g_timezone = x1, g_units = x2, g_log_level = x3,
       g_retention_days_results = x4, g_retention_days_runs = x5, g_retention_prune_interval_minutes = x6, g_sla_download_mbps = x7,
       g_sla_upload_mbps = x8, g_sla_tolerance_pct = x9\<rparr>"
    using old unfolding General_def rbind_Inr by (elim exE conjE) (rule that, (assumption | (drule Inr_inject, erule sym))+)
  note s = general_lookup [of "echo_general g"]
  note k = read_put_kinds [OF flt at] and k' = read_put_kinds' [OF flt at]
  have q0: "read_key flt d' ''general.base_url'' dec_string = Inr x0"
    using k(1) [OF _ s(1) r(1)] by (simp add: echo_general_def g or_current_def)
  have q1: "read_key flt d' ''general.timezone'' dec_string = Inr x1"
    using k(1) [OF _ s(2) r(2)] by (simp add: echo_general_def g or_current_def)
  have q2: "read_key flt d' ''general.units'' dec_string = Inr x2"
    using k(1) [OF _ s(3) r(3)] by (simp add: echo_general_def g or_current_def)
  have q3: "read_key flt d' ''general.log_level'' dec_string = Inr x3"
    using k(1) [OF _ s(4) r(4)] by (simp add: echo_general_def g or_current_def)
  have q4: "read_key flt d' ''general.retention_days_results'' dec_int = Inr x4"
    using k(3) [OF _ s(5) _ r(5)] read_ok(1) [OF r(5)] by (simp add: echo_general_def g or_current_def)
  have q5: "read_key flt d' ''general.retention_days_runs'' dec_int = Inr x5"
    using k(3) [OF _ s(6) _ r(6)] read_ok(1) [OF r(6)] by (simp add: echo_general_def g or_current_def)
  have q6: "read_key flt d' ''general.retention_prune_interval_minutes'' dec_int = Inr x6"
    using k(3) [OF _ s(7) _ r(7)] read_ok(1) [OF r(7)] by (simp add: echo_general_def g or_current_def)
  have q7: "read_key flt d' ''general.sla_download_mbps'' unm_float = Inr x7"
    by (rule k'(1) [OF _ _ r(8)]) (simp_all add: general_lookup echo_general_def g or_current_def)
  have q8: "read_key flt d' ''general.sla_upload_mbps'' unm_float = Inr x8"
    by (rule k'(1) [OF _ _ r(9)]) (simp_all add: general_lookup echo_general_def g or_current_def)
  have q9: "read_key flt d' ''general.sla_tolerance_pct'' unm_float = Inr x9"
    by (rule k'(2) [OF _ _ r(10)]) (simp_all add: general_lookup echo_general_def g or_current_def)
  show ?thesis by (simp add: General_def rbind_def g q0 q1 q2 q3 q4 q5 q6 q7 q8 q9)
qed

lemma Engines_echo:
  assumes old: "Engines flt d = Inr e" and nf: "\<forall>k. flt k = None"
    and ag: "\<forall>k. hd k = CHR ''e'' \<longrightarrow> settings_t d' k = written (engines_writes (echo_engines e)) (settings_t d) k"
  shows "Engines flt d' = Inr e"
proof -
  have flt: "flt k = None" for k using nf by simp
  have at: "hd k = CHR ''e'' \<Longrightarrow> settings_t d' k = written (engines_writes (echo_engines e)) (settings_t d) k" for k using ag by simp
  obtain x0 x1 x2 x3 x4 x5 x6 x7 x8 where
    r: "read_key flt d ''engines.speedtest_bin'' dec_string = Inr x0"
    "read_key flt d ''engines.iperf3_bin'' dec_string = Inr x1"
    "read_key flt d ''engines.ookla_accept_license'' dec_bool = Inr x2"
    "read_key flt d ''engines.ookla_accept_gdpr'' dec_bool = Inr x3"
    "read_key flt d ''engines.server_list_ttl_seconds'' dec_int = Inr x4"
    "read_key flt d ''engines.default_ookla_options'' Some = Inr x5"
    "read_key flt d ''engines.default_cloudflare_options'' Some = Inr x6"
    "read_key flt d ''engines.default_iperf3_options'' Some = Inr x7"
    "read_key flt d ''engines.iperf3_list_url'' dec_string = Inr x8"
    and e: "e = \<lparr>en_speedtest_bin = x0, en_iperf3_bin = x1, en_ookla_accept_license = x2, en_ookla_accept_gdpr = x3,
       en_server_list_ttl_seconds = x4, en_default_ookla_options = x5, en_default_cloudflare_options = x6, en_default_iperf3_options = x7,
       en_iperf3_list_url = x8\<rparr>"
    using old unfolding Engines_def rbind_Inr by (elim exE conjE) (rule that, (assumption | (drule Inr_inject, erule sym))+)
  note s = engines_lookup [of "echo_engines e"]
  note k = read_put_kinds [OF flt at] and k' = read_put_kinds' [OF flt at]
  have q0: "read_key flt d' ''engines.speedtest_bin'' dec_string = Inr x0"
    using k(1) [OF _ s(1) r(1)] by (simp add: echo_engines_def e or_current_def)
  have q1: "read_key flt d' ''engines.iperf3_bin'' dec_string = Inr x1"
    using k(1) [OF _ s(2) r(2)] by (simp add: echo_engines_def e or_current_def)
  have q2: "read_key flt d' ''engines.ookla_accept_license'' dec_bool = Inr x2"
    using k(4) [OF _ s(3) r(3)] by (simp add: echo_engines_def e or_current_def)
  have q3: "read_key flt d' ''engines.ookla_accept_gdpr'' dec_bool = Inr x3"
    using k(4) [OF _ s(4) r(4)] by (simp add: echo_engines_def e or_current_def)
  have q4: "read_key flt d' ''engines.server_list_ttl_seconds'' dec_int = Inr x4"
    using k(3) [OF _ s(5) _ r(5)] read_ok(1) [OF r(5)] by (simp add: echo_engines_def e or_current_def)
  have q5: "read_key flt d' ''engines.default_ookla_options'' Some = Inr x5"
    by (rule k'(3) [OF _ _ r(6)]) (simp_all add: engines_lookup echo_engines_def e or_current_def)
  have q6: "read_key flt d' ''engines.default_cloudflare_options'' Some = Inr x6"
    by (rule k'(3) [OF _ _ r(7)]) (simp_all add: engines_lookup echo_engines_def e or_current_def)
  have q7: "read_key flt d' ''engines.default_iperf3_options'' Some = Inr x7"
    by (rule k'(3) [OF _ _ r(8)]) (simp_all add: engines_lookup echo_engines_def e or_current_def)
  have q8: "read_key flt d' ''engines.iperf3_list_url'' dec_string = Inr x8"
    using k(1) [OF _ s(9) r(9)] by (simp add: echo_engines_def e or_current_def)
  show ?thesis by (simp add: Engines_def rbind_def e q0 q1 q2 q3 q4 q5 q6 q7 q8)
qed

lemma Integrations_echo:
  assumes old: "Integrations flt d = Inr i" and nf: "\<forall>k. flt k = None"
    and ag: "\<forall>k. hd k = CHR ''i'' \<longrightarrow> settings_t d' k = written (integrations_writes (echo_integrations (maskSecrets i))) (settings_t d) k"
  shows "Integrations flt d' = Inr (i\<lparr>ig_vm_auth_header := [], ig_vl_auth_header := []\<rparr>)"
proof -
  have flt: "flt k = None" for k using nf by simp
  have at: "hd k = CHR ''i'' \<Longrightarrow> settings_t d' k = written (integrations_writes (echo_integrations (maskSecrets i))) (settings_t d) k" for k using ag by simp
  obtain x0 x1 x2 x3 x4 x5 x6 x7 x8 x9 x10 x11 x12 x13 x14 x15 x16 x17 x18 x19 x20 where
    r: "read_key flt d ''integrations.vm_enabled'' dec_bool = Inr x0"
    "read_key flt d ''integrations.vm_url'' dec_string = Inr x1"
    "read_key flt d ''integrations.vm_auth_header'' dec_string = Inr x2"
    "read_key flt d ''integrations.vm_auth_type'' dec_string = Inr x3"
    "read_key flt d ''integrations.vm_auth_username'' dec_string = Inr x4"
    "read_key flt d ''integrations.vm_auth_password'' dec_string = Inr x5"
    "read_key flt d ''integrations.vm_auth_token'' dec_string = Inr x6"
    "read_key flt d ''integrations.vm_auth_header_name'' dec_string = Inr x7"
    "read_key flt d ''integrations.vm_auth_header_value'' dec_string = Inr x8"
    "read_key flt d ''integrations.vm_extra_labels'' unm_map = Inr x9"
    "read_key flt d ''integrations.vl_enabled'' dec_bool = Inr x10"
    "read_key flt d ''integrations.vl_url'' dec_string = Inr x11"
    "read_key flt d ''integrations.vl_auth_header'' dec_string = Inr x12"
    "read_key flt d ''integrations.vl_auth_type'' dec_string = Inr x13"
    "read_key flt d ''integrations.vl_auth_username'' dec_string = Inr x14"
    "read_key flt d ''integrations.vl_auth_password'' dec_string = Inr x15"
    "read_key flt d ''integrations.vl_auth_token'' dec_string = Inr x16"
    "read_key flt d ''integrations.vl_auth_header_name'' dec_string = Inr x17"
    "read_key flt d ''integrations.vl_auth_header_value'' dec_string = Inr x18"
    "read_key flt d ''integrations.vl_stream_fields'' unm_map = Inr x19"
    "read_key flt d ''integrations.metrics_enabled'' dec_bool = Inr x20"
    and i: "i = \<lparr>ig_vm_enabled = x0, ig_vm_url = x1, ig_vm_auth_header = x2, ig_vm_auth_type = x3,
       ig_vm_auth_username = x4, ig_vm_auth_password = x5, ig_vm_auth_token = x6, ig_vm_auth_header_name = x7,
       ig_vm_auth_header_value = x8, ig_vm_extra_labels = nil_empty x9, ig_vl_enabled = x10, ig_vl_url = x11,
       ig_vl_auth_header = x12, ig_vl_auth_type = x13, ig_vl_auth_username = x14, ig_vl_auth_password = x15,
       ig_vl_auth_token = x16, ig_vl_auth_header_name = x17, ig_vl_auth_header_value = x18, ig_vl_stream_fields = nil_empty x19,
       ig_metrics_enabled = x20\<rparr>"
    using old unfolding Integrations_def rbind_Inr by (elim exE conjE) (rule that, (assumption | (drule Inr_inject, erule sym))+)
  note s = integrations_lookup [of "echo_integrations (maskSecrets i)"]
  note k = read_put_kinds [OF flt at] and k' = read_put_kinds' [OF flt at]
  have q0: "read_key flt d' ''integrations.vm_enabled'' dec_bool = Inr x0"
    using k(4) [OF _ s(1) r(1)] by (simp add: echo_integrations_def i or_current_def maskSecrets_def)
  have q1: "read_key flt d' ''integrations.vm_url'' dec_string = Inr x1"
    using k(1) [OF _ s(2) r(2)] by (simp add: echo_integrations_def i or_current_def maskSecrets_def)
  have q2: "read_key flt d' ''integrations.vm_auth_header'' dec_string = Inr []"
    by (rule k'(7) [OF _ _ r(3)]) (simp_all add: integrations_lookup echo_integrations_def i or_current_def maskSecrets_def)
  have q3: "read_key flt d' ''integrations.vm_auth_type'' dec_string = Inr x3"
    using k(1) [OF _ s(4) r(4)] by (simp add: echo_integrations_def i or_current_def maskSecrets_def)
  have q4: "read_key flt d' ''integrations.vm_auth_username'' dec_string = Inr x4"
    using k(1) [OF _ s(5) r(5)] by (simp add: echo_integrations_def i or_current_def maskSecrets_def)
  have q5: "read_key flt d' ''integrations.vm_auth_password'' dec_string = Inr x5"
    using k(2) [OF _ s(6) r(6)] by (cases "x5 = []") (simp_all add: echo_integrations_def i or_current_def maskSecrets_def)
  have q6: "read_key flt d' ''integrations.vm_auth_token'' dec_string = Inr x6"
    using k(2) [OF _ s(7) r(7)] by (cases "x6 = []") (simp_all add: echo_integrations_def i or_current_def maskSecrets_def)
  have q7: "read_key flt d' ''integrations.vm_auth_header_name'' dec_string = Inr x7"
    using k(1) [OF _ s(8) r(8)] by (simp add: echo_integrations_def i or_current_def maskSecrets_def)
  have q8: "read_key flt d' ''integrations.vm_auth_header_value'' dec_string = Inr x8"
    using k(2) [OF _ s(9) r(9)] by (cases "x8 = []") (simp_all add: echo_integrations_def i or_current_def maskSecrets_def)
  have q9: "read_key flt d' ''integrations.vm_extra_labels'' unm_map = Inr (Some (nil_empty x9))"
    by (rule k'(4) [OF _ _ _ r(10)]) (use r(10) in \<open>simp_all add: integrations_lookup echo_integrations_def i or_current_def maskSecrets_def nil_empty_map_ok\<close>)
  have q10: "read_key flt d' ''integrations.vl_enabled'' dec_bool = Inr x10"
    using k(4) [OF _ s(11) r(11)] by (simp add: echo_integrations_def i or_current_def maskSecrets_def)
  have q11: "read_key flt d' ''integrations.vl_url'' dec_string = Inr x11"
    using k(1) [OF _ s(12) r(12)] by (simp add: echo_integrations_def i or_current_def maskSecrets_def)
  have q12: "read_key flt d' ''integrations.vl_auth_header'' dec_string = Inr []"
    by (rule k'(7) [OF _ _ r(13)]) (simp_all add: integrations_lookup echo_integrations_def i or_current_def maskSecrets_def)
  have q13: "read_key flt d' ''integrations.vl_auth_type'' dec_string = Inr x13"
    using k(1) [OF _ s(14) r(14)] by (simp add: echo_integrations_def i or_current_def maskSecrets_def)
  have q14: "read_key flt d' ''integrations.vl_auth_username'' dec_string = Inr x14"
    using k(1) [OF _ s(15) r(15)] by (simp add: echo_integrations_def i or_current_def maskSecrets_def)
  have q15: "read_key flt d' ''integrations.vl_auth_password'' dec_string = Inr x15"
    using k(2) [OF _ s(16) r(16)] by (cases "x15 = []") (simp_all add: echo_integrations_def i or_current_def maskSecrets_def)
  have q16: "read_key flt d' ''integrations.vl_auth_token'' dec_string = Inr x16"
    using k(2) [OF _ s(17) r(17)] by (cases "x16 = []") (simp_all add: echo_integrations_def i or_current_def maskSecrets_def)
  have q17: "read_key flt d' ''integrations.vl_auth_header_name'' dec_string = Inr x17"
    using k(1) [OF _ s(18) r(18)] by (simp add: echo_integrations_def i or_current_def maskSecrets_def)
  have q18: "read_key flt d' ''integrations.vl_auth_header_value'' dec_string = Inr x18"
    using k(2) [OF _ s(19) r(19)] by (cases "x18 = []") (simp_all add: echo_integrations_def i or_current_def maskSecrets_def)
  have q19: "read_key flt d' ''integrations.vl_stream_fields'' unm_map = Inr (Some (nil_empty x19))"
    by (rule k'(4) [OF _ _ _ r(20)]) (use r(20) in \<open>simp_all add: integrations_lookup echo_integrations_def i or_current_def maskSecrets_def nil_empty_map_ok\<close>)
  have q20: "read_key flt d' ''integrations.metrics_enabled'' dec_bool = Inr x20"
    using k(4) [OF _ s(21) r(21)] by (simp add: echo_integrations_def i or_current_def maskSecrets_def)
  show ?thesis by (simp add: Integrations_def rbind_def i q0 q1 q2 q3 q4 q5 q6 q7 q8 q9 q10 q11 q12 q13 q14 q15 q16 q17 q18 q19 q20)
qed

lemma Notifications_echo:
  assumes old: "Notifications flt d = Inr n" and nf: "\<forall>k. flt k = None"
    and ag: "\<forall>k. hd k = CHR ''n'' \<longrightarrow> settings_t d' k = written (notifications_writes (Some (n_channels n)) (echo_notifications (maskChannelTokens lib n))) (settings_t d) k"
  shows "Notifications flt d' = Inr n"
proof -
  have flt: "flt k = None" for k using nf by simp
  have at: "hd k = CHR ''n'' \<Longrightarrow> settings_t d' k = written (notifications_writes (Some (n_channels n)) (echo_notifications (maskChannelTokens lib n))) (settings_t d) k" for k using ag by simp
  obtain x0 x1 x2 x3 x4 x5 x6 where
    r: "read_key flt d ''notifications.enabled'' dec_bool = Inr x0"
    "read_key flt d ''notifications.channels'' (unm_list elem_channel) = Inr x1"
    "read_key flt d ''notifications.default_thresholds'' unm_thresholds = Inr x2"
    "read_key flt d ''notifications.cooldown_minutes'' dec_int = Inr x3"
    "read_key flt d ''notifications.quiet_hours_start'' dec_string = Inr x4"
    "read_key flt d ''notifications.quiet_hours_end'' dec_string = Inr x5"
    "read_key flt d ''notifications.notify_recovery'' dec_bool = Inr x6"
    and n: "n = \<lparr>n_enabled = x0, n_channels = nil_empty x1, n_defaults = x2, n_cooldown_minutes = max 1 x3,
       n_quiet_start = x4, n_quiet_end = x5, n_recovery = x6\<rparr>"
    using old unfolding Notifications_def rbind_Inr by (elim exE conjE) (rule that, (assumption | (drule Inr_inject, erule sym))+)
  note s = notifications_lookup [of "Some (n_channels n)" "echo_notifications (maskChannelTokens lib n)"]
  note k = read_put_kinds [OF flt at] and k' = read_put_kinds' [OF flt at]
  have q0: "read_key flt d' ''notifications.enabled'' dec_bool = Inr x0"
    using k(4) [OF _ s(1) r(1)] by (simp add: echo_notifications_def n or_current_def maskChannelTokens_def)
  have q1: "read_key flt d' ''notifications.channels'' (unm_list elem_channel) = Inr (Some (nil_empty x1))"
    by (rule k'(6) [OF _ _ _ r(2)]) (use r(2) in \<open>simp_all add: notifications_lookup echo_notifications_def n or_current_def maskChannelTokens_def nil_empty_channels_ok\<close>)
  have q2: "read_key flt d' ''notifications.default_thresholds'' unm_thresholds = Inr x2"
    by (rule k'(5) [OF _ _ r(3)]) (simp_all add: notifications_lookup echo_notifications_def n or_current_def maskChannelTokens_def)
  have q3: "read_key flt d' ''notifications.cooldown_minutes'' dec_int = Inr (max 1 x3)"
    using k(3) [OF _ s(4) _ r(4)] read_ok(1) [OF r(4)] by (simp add: echo_notifications_def n or_current_def maskChannelTokens_def int64_def max_def)
  have q4: "read_key flt d' ''notifications.quiet_hours_start'' dec_string = Inr x4"
    using k(1) [OF _ s(5) r(5)] by (simp add: echo_notifications_def n or_current_def maskChannelTokens_def)
  have q5: "read_key flt d' ''notifications.quiet_hours_end'' dec_string = Inr x5"
    using k(1) [OF _ s(6) r(6)] by (simp add: echo_notifications_def n or_current_def maskChannelTokens_def)
  have q6: "read_key flt d' ''notifications.notify_recovery'' dec_bool = Inr x6"
    using k(4) [OF _ s(7) r(7)] by (simp add: echo_notifications_def n or_current_def maskChannelTokens_def)
  show ?thesis by (simp add: Notifications_def rbind_def n q0 q1 q2 q3 q4 q5 q6)
qed

lemma mergeAuth_echo: "a_groups_separator a \<noteq> [] \<Longrightarrow> mergeAuth a (Some (echo_auth (maskAuthSecrets a))) = a"
  by (cases "a_oidc_client_secret a = []") (simp_all add: mergeAuth_def echo_auth_def maskAuthSecrets_def or_current_def)

definition no_section_faults :: section_faults where
  "no_section_faults = \<lparr>cf_general = \<lambda>k. None, cf_engines = \<lambda>k. None, cf_integrations = \<lambda>k. None,
     cf_notifications = \<lambda>k. None, cf_auth = \<lambda>k. None\<rparr>"

lemma no_section_faults_sel [simp]:
  "cf_general no_section_faults = (\<lambda>k. None)" "cf_engines no_section_faults = (\<lambda>k. None)"
  "cf_integrations no_section_faults = (\<lambda>k. None)" "cf_notifications no_section_faults = (\<lambda>k. None)"
  "cf_auth no_section_faults = (\<lambda>k. None)"
  by (simp_all add: no_section_faults_def)

lemma Auth_separator: "Auth flt d = Inr a \<Longrightarrow> a_groups_separator a \<noteq> []"
  unfolding Auth_def rbind_Inr by (auto split: if_splits)

lemma Notifications_headers:
  assumes "Notifications flt d = Inr n"
  shows "\<forall>c\<in>set (n_channels n). map_ok (ch_headers c)"
  using assms unfolding Notifications_def rbind_Inr by (auto dest: nil_empty_channels_ok)

text \<open>C19: the settings form is safe to submit unchanged: if the document \<open>GET\<close> returns, with every secret masked and
  every Apprise URL redacted, is sent back and accepted, all five sections read afterwards as before, secrets,
  channel tokens, header values and URLs included; only the two older authorization headers are cleared, which is what
  writing the auth types means.\<close>

theorem settings_echo_roundtrip:
  assumes "getSettings lib no_section_faults w = Inr s" "pf_sections f = no_section_faults"
    and put: "applySettings lib f ident r (echo s) w = (w', None)"
    and i: "Integrations (\<lambda>k. None) (fst w) = Inr i"
  shows "General (\<lambda>k. None) (fst w') = General (\<lambda>k. None) (fst w) \<and>
    Engines (\<lambda>k. None) (fst w') = Engines (\<lambda>k. None) (fst w) \<and>
    Integrations (\<lambda>k. None) (fst w') = Inr (i\<lparr>ig_vm_auth_header := [], ig_vl_auth_header := []\<rparr>) \<and>
    Notifications (\<lambda>k. None) (fst w') = Notifications (\<lambda>k. None) (fst w) \<and>
    Auth (\<lambda>k. None) (fst w') = Auth (\<lambda>k. None) (fst w)"
proof -
  let ?F = "\<lambda>k. None :: fault" and ?d = "fst w" and ?d' = "fst w'"
  from assms(1) i obtain g e n a where old: "General ?F ?d = Inr g" "Engines ?F ?d = Inr e" "Notifications ?F ?d = Inr n"
    "Auth ?F ?d = Inr a" and s: "s = \<lparr>sr_auth = maskAuthSecrets a, sr_engines = e, sr_general = g,
      sr_integrations = maskSecrets i, sr_locked = LockedKeys (snd w), sr_notifications = maskChannelTokens lib n\<rparr>"
    by (auto simp: getSettings_def abind_Inr)
  from applySettings_accepted [OF put] obtain merged
    where c: "check_put lib f ident r (echo s) w = Inr merged"
      and d: "?d' = ?d\<lparr>settings_t := written (all_writes merged (echo s)) (settings_t ?d)\<rparr>" .
  have ch: "body_channels (echo s) = Some (map (mask_channel lib) (n_channels n))"
    by (simp add: body_channels_def echo_def s echo_notifications_def maskChannelTokens_def)
  from c obtain ms current where m: "merged = Some ms" "mergeChannelSecrets lib (map (mask_channel lib) (n_channels n)) (n_channels n) = Inr ms"
    "validateSettings lib (echo s) merged current = None"
    using old(3) ch assms(2) by (elim check_put_accepts) auto
  have "validate_channels lib {} ms = None"
    using m(1,3) by (simp add: validateSettings_def validate_notifications_def checks_None echo_def)
  with m(2) Notifications_headers [OF old(3)] have ms: "ms = n_channels n" by (intro mergeChannelSecrets_echo)
  have w: "\<forall>k. hd k = CHR ''g'' \<longrightarrow> settings_t ?d' k = written (general_writes (echo_general g)) (settings_t ?d) k"
    "\<forall>k. hd k = CHR ''e'' \<longrightarrow> settings_t ?d' k = written (engines_writes (echo_engines e)) (settings_t ?d) k"
    "\<forall>k. hd k = CHR ''i'' \<longrightarrow> settings_t ?d' k = written (integrations_writes (echo_integrations (maskSecrets i))) (settings_t ?d) k"
    "\<forall>k. hd k = CHR ''n'' \<longrightarrow> settings_t ?d' k =
       written (notifications_writes (Some (n_channels n)) (echo_notifications (maskChannelTokens lib n))) (settings_t ?d) k"
    using d m(1) ms by (simp_all add: written_sections(1-4) echo_def s section_of_def)
  have "sb_auth (echo s) = Some (echo_auth (maskAuthSecrets a))" by (simp add: echo_def s)
  from put_merges_auth(1) [OF put this _ _ old(4)] assms(2)
  have "Auth ?F ?d' = Inr a" using mergeAuth_echo [OF Auth_separator [OF old(4)]] by simp
  then show ?thesis
    using General_echo [OF old(1) _ w(1)] Engines_echo [OF old(2) _ w(2)] Integrations_echo [OF i _ w(3)]
      Notifications_echo [OF old(3) _ w(4)] old by simp
qed

subsection \<open>A settings table to try it on\<close>

lemma default_values_list: "map default_value (map fst defaults) = map snd defaults"
  using default_value_in(1) by (simp add: map_eq_conv)

lemmas default_values = default_values_list [unfolded defaults_def list.map fst_conv snd_conv list.inject]

definition demo_auth_lib :: auth_lib where
  "demo_auth_lib = \<lparr>al_sha256 = \<lambda>s. s, al_prefix = \<lambda>s. Some (\<lambda>a. a = s), al_addrport = \<lambda>s. Some s\<rparr>"

definition demo_api :: api_lib where
  "demo_api = \<lparr>ap_url = \<lambda>u. Inr (''https'', u), ap_location = \<lambda>tz. None, ap_apprise_add = \<lambda>u. None,
     ap_discover = \<lambda>u. None, ap_auth = demo_auth_lib\<rparr>"

definition demo_put :: put_faults where
  "demo_put = \<lparr>pf_sections = no_section_faults, pf_count = None, pf_token = None, pf_begin = None,
     pf_set = \<lambda>i j. (None, None), pf_commit = None\<rparr>"

lemma run_sections_succeed: "\<not> tx_done t \<Longrightarrow> \<exists>t'. run_sections (\<lambda>i j. (None, None)) i ss t = (t', None)"
proof -
  have w: "\<exists>t' u. run_writes f j ws t = (t', Inr u)" if "f = (\<lambda>j. (None, None))" "\<not> tx_done t" for f j ws t
    using that
  proof (induction f j ws t rule: run_writes.induct)
    case (3 f j key v ws t)
    then obtain t1 where "Tx_Set (fst (f j)) (snd (f j)) t key v = (t1, Inr ())" "\<not> tx_done t1"
      by (auto simp: Tx_Set_def Let_def)
    with 3 show ?case by auto
  qed auto
  show "\<not> tx_done t \<Longrightarrow> \<exists>t'. run_sections (\<lambda>i j. (None, None)) i ss t = (t', None)"
  proof (induction ss arbitrary: i t)
    case (Cons s ss)
    obtain msg ws where s: "s = (msg, ws)" by (cases s)
    from w [OF refl Cons.prems, of 0 ws] obtain t' u where t': "run_writes (\<lambda>j. (None, None)) 0 ws t = (t', Inr u)" by blast
    with run_writes_ok [OF t'] Cons show ?case by (simp add: s)
  qed simp
qed

lemma applySettings_succeeds:
  assumes "check_put lib demo_put ident r body w = Inr merged"
  shows "\<exists>w'. applySettings lib demo_put ident r body w = (w', None)"
proof -
  obtain t where t: "Begin None (fst w) = Inr t" "\<not> tx_done t" by (auto simp: Begin_def)
  from run_sections_succeed [OF t(2)] obtain t' where
    t': "run_sections (\<lambda>i j. (None, None)) 0 (body_writes merged body) t = (t', None)" by blast
  with run_sections_ok [OF t'] t assms show ?thesis
    by (simp add: applySettings_def demo_put_def Tx_Commit_def)
qed

lemmas read_default = read_key_def Get_def rbind_def default_raw_def default_values dec_string_def dec_int_def dec_bool_def
  or_zero_def unm_float_def null_or_def

lemma sections_unset:
  assumes "settings_t d = Map.empty"
  shows "General (\<lambda>k. None) d = Inr \<lparr>g_base_url = [], g_timezone = ''UTC'', g_units = ''Mbps'', g_log_level = ''info'',
      g_retention_days_results = 90, g_retention_days_runs = 90, g_retention_prune_interval_minutes = 60,
      g_sla_download_mbps = None, g_sla_upload_mbps = None, g_sla_tolerance_pct = None\<rparr>"
    "Engines (\<lambda>k. None) d = Inr \<lparr>en_speedtest_bin = ''speedtest'', en_iperf3_bin = ''iperf3'', en_ookla_accept_license = True,
      en_ookla_accept_gdpr = True, en_server_list_ttl_seconds = 86400, en_default_ookla_options = JObj [],
      en_default_cloudflare_options = JObj [], en_default_iperf3_options = JObj [],
      en_iperf3_list_url = ''https://export.iperf3serverlist.net/listed_iperf3_servers.json''\<rparr>"
    "Notifications (\<lambda>k. None) d = Inr \<lparr>n_enabled = False, n_channels = [], n_defaults = no_thresholds, n_cooldown_minutes = 60,
      n_quiet_start = [], n_quiet_end = [], n_recovery = True\<rparr>"
    "Auth (\<lambda>k. None) d = Inr \<lparr>a_mode = ''open'', a_user_header = ''Remote-User'', a_groups_header = ''Remote-Groups'',
      a_groups_separator = '','', a_trusted_proxies = [], a_admin_group = [], a_allow_tokens = False, a_oidc_issuer = [],
      a_oidc_client_id = [], a_oidc_client_secret = [], a_oidc_redirect_base_url = [], a_oidc_scopes = [],
      a_oidc_groups_claim = ''groups'', a_oidc_allowed_groups = [], a_oidc_allowed_emails = [], a_oidc_display_claim = ''name'',
      a_session_ttl_hours = 24\<rparr>"
  using assms
  by (simp_all add: General_def Engines_def Notifications_def Auth_def read_default unm_encode_thresholds nil_empty_def)

lemma Integrations_unset:
  assumes "settings_t d = Map.empty"
  shows "Integrations (\<lambda>k. None) d = Inr \<lparr>ig_vm_enabled = False, ig_vm_url = [], ig_vm_auth_header = [], ig_vm_auth_type = ''none'',
      ig_vm_auth_username = [], ig_vm_auth_password = [], ig_vm_auth_token = [], ig_vm_auth_header_name = [],
      ig_vm_auth_header_value = [], ig_vm_extra_labels = [], ig_vl_enabled = False, ig_vl_url = [], ig_vl_auth_header = [],
      ig_vl_auth_type = ''none'', ig_vl_auth_username = [], ig_vl_auth_password = [], ig_vl_auth_token = [],
      ig_vl_auth_header_name = [], ig_vl_auth_header_value = [], ig_vl_stream_fields = [], ig_metrics_enabled = False\<rparr>"
  using assms by (simp add: Integrations_def read_default nil_empty_def encode_map_def str_members_def canon_def)

definition no_general :: general_body where
  "no_general = \<lparr>gb_base_url = None, gb_timezone = None, gb_units = None, gb_log_level = None,
     gb_retention_days_results = None, gb_retention_days_runs = None, gb_retention_prune_interval_minutes = None, gb_sla_download_mbps = None,
     gb_sla_upload_mbps = None, gb_sla_tolerance_pct = None\<rparr>"

definition no_engines :: engines_body where
  "no_engines = \<lparr>eb_speedtest_bin = None, eb_iperf3_bin = None, eb_ookla_accept_license = None, eb_ookla_accept_gdpr = None,
     eb_server_list_ttl_seconds = None, eb_default_ookla_options = None, eb_default_cloudflare_options = None, eb_default_iperf3_options = None,
     eb_iperf3_list_url = None\<rparr>"

definition no_integrations :: integrations_body where
  "no_integrations = \<lparr>ib_vm_enabled = None, ib_vm_url = None, ib_vm_auth_header = None, ib_vm_auth_type = None,
     ib_vm_auth_username = None, ib_vm_auth_password = None, ib_vm_auth_token = None, ib_vm_auth_header_name = None,
     ib_vm_auth_header_value = None, ib_vm_extra_labels = None, ib_vl_enabled = None, ib_vl_url = None,
     ib_vl_auth_header = None, ib_vl_auth_type = None, ib_vl_auth_username = None, ib_vl_auth_password = None,
     ib_vl_auth_token = None, ib_vl_auth_header_name = None, ib_vl_auth_header_value = None, ib_vl_stream_fields = None,
     ib_metrics_enabled = None\<rparr>"

definition no_auth :: auth_body where
  "no_auth = \<lparr>ab_mode = None, ab_user_header = None, ab_groups_header = None, ab_groups_separator = None,
     ab_trusted_proxies = None, ab_admin_group = None, ab_allow_tokens = None, ab_oidc_issuer = None,
     ab_oidc_client_id = None, ab_oidc_client_secret = None, ab_oidc_redirect_base_url = None, ab_oidc_scopes = None,
     ab_oidc_groups_claim = None, ab_oidc_allowed_groups = None, ab_oidc_allowed_emails = None, ab_oidc_display_claim = None,
     ab_session_ttl_hours = None\<rparr>"


definition no_body :: settings_body where
  "no_body = \<lparr>sb_general = None, sb_engines = None, sb_integrations = None, sb_notifications = None, sb_auth = None\<rparr>"

definition store_with :: "string set \<Rightarrow> settings_store" where
  "store_with locked = \<lparr>ss_subs = Map.empty, ss_next = 0, ss_locked = locked\<rparr>"

definition admin_identity :: identity where
  "admin_identity = no_identity\<lparr>id_mode := ''open'', id_is_admin := True, id_source := ''open''\<rparr>"

definition token_identity :: identity where
  "token_identity = no_identity\<lparr>id_mode := ''token'', id_is_admin := True, id_source := ''token''\<rparr>"

definition demo_request :: request where
  "demo_request = \<lparr>rq_headers = [(''Authorization'', ''Bearer stt_demo'')], rq_cookies = Map.empty, rq_remote = ''10.0.0.1:80'',
     rq_host = ''h'', rq_tls = False, rq_method = ''PUT'', rq_path = ''/api/v1/settings'', rq_query = Map.empty\<rparr>"

lemmas demo_simps = check_put_def lockedKeysIn_def setKeys_def section_of_def set_section_of given_def requestIsAdmin_def
  requestAuthIsToken_def admin_identity_def token_identity_def no_identity_def engines_guard_def abind_def internal_of_def
  body_channels_def bad_def demo_put_def no_body_def store_with_def IsLocked_def Let_def
  validateSettings_def firstErr.simps on_ptr_def check_def wrapErr_def or_current_def

lemma empty_settings [simp]: "settings_t empty_db = Map.empty"
  by (simp add: empty_db_def)

text \<open>The units are changed while the environment holds the authentication mode.\<close>

definition units_body :: settings_body where
  "units_body = no_body\<lparr>sb_general := Some (no_general\<lparr>gb_units := Some ''MB/s''\<rparr>)\<rparr>"

lemma units_accepted: "check_put demo_api demo_put admin_identity demo_request units_body (empty_db, store_with {''auth.mode''}) = Inr None"
  by (simp add: demo_simps units_body_def no_general_def general_keys_def sections_unset Integrations_unset
    validate_general_def)


text \<open>A token sends back the engines it read.\<close>

definition engine_body :: settings_body where
  "engine_body = no_body\<lparr>sb_engines := Some (no_engines\<lparr>eb_speedtest_bin := Some ''speedtest'', eb_ookla_accept_gdpr := Some False\<rparr>)\<rparr>"

lemma engine_accepted: "check_put demo_api demo_put token_identity demo_request engine_body (empty_db, store_with {}) = Inr None"
  by (simp add: demo_simps engine_body_def no_engines_def engines_keys_def sections_unset Integrations_unset
    repoints_engines_def validateEngines_def validateEngineBin_def TrimSpace_def is_space_def ContainsAny_def)

theorem token_cannot_raise_itself_witness:
  "\<exists>w'. applySettings demo_api demo_put token_identity demo_request engine_body (empty_db, store_with {}) = (w', None) \<and>
     Auth (\<lambda>k. None) (fst w') = Auth (\<lambda>k. None) empty_db \<and>
     read_key (\<lambda>k. None) (fst w') ''engines.iperf3_bin'' dec_string = Inr ''iperf3''"
proof -
  from applySettings_succeeds [OF engine_accepted] obtain w' where
    w': "applySettings demo_api demo_put token_identity demo_request engine_body (empty_db, store_with {}) = (w', None)" by blast
  have t: "requestAuthIsToken token_identity" by (simp add: requestAuthIsToken_def token_identity_def no_identity_def)
  from token_cannot_raise_itself [OF t w' _ _ sections_unset(2) [of "fst (empty_db, store_with {})"]]
  show ?thesis using w' by (auto simp: demo_put_def)
qed

text \<open>From open mode to token mode, with the token in the request.\<close>

definition token_db :: db where
  "token_db = fst (CreateAPIToken None empty_db ''2024-01-01T00:00:00.000Z'' ''ci'' ''stt_demo'' ''stt_demo'')"

definition switch_body :: settings_body where
  "switch_body = no_body\<lparr>sb_auth := Some (no_auth\<lparr>ab_mode := Some ''token''\<rparr>)\<rparr>"

lemma switch_accepted: "check_put demo_api demo_put admin_identity demo_request switch_body (token_db, store_with {}) = Inr None"
proof -
  have d: "settings_t token_db = Map.empty" by (simp add: token_db_def CreateAPIToken_def Let_def empty_db_def insert_row_def)
  have b: "bearerTokenFromRequest demo_request = Some ''stt_demo''" by code_simp
  have l: "CountAPITokens None token_db = Inr 1" "\<exists>t. APITokenByHash None token_db ''stt_demo'' = Inr (Some t)"
    by (simp_all add: token_db_def CreateAPIToken_def Let_def empty_db_def empty_tbl_def insert_row_def CountAPITokens_def
      APITokenByHash_def)
  then obtain t where t: "APITokenByHash None token_db ''stt_demo'' = Inr (Some t)" by blast
  show ?thesis
    by (simp add: demo_simps switch_body_def no_auth_def auth_keys_def sections_unset [OF d] Integrations_unset [OF d]
      validateAuthBody_def mergeAuth_def checkAuthLockout_def token_lockout_def b l(1) t demo_api_def demo_auth_lib_def HashToken_def)
qed

lemma switch_result:
  assumes "applySettings demo_api demo_put admin_identity demo_request switch_body (token_db, store_with {}) = (w', None)"
  shows "\<exists>new. Auth (\<lambda>k. None) (fst w') = Inr new \<and> a_mode new = ''token'' \<and> a_trusted_proxies new = []"
proof -
  have d: "settings_t token_db = Map.empty" by (simp add: token_db_def CreateAPIToken_def Let_def empty_db_def insert_row_def)
  have b: "sb_auth switch_body = Some (no_auth\<lparr>ab_mode := Some ''token''\<rparr>)" by (simp add: switch_body_def)
  from put_merges_auth(1) [OF assms b, of "\<lambda>k. None"] sections_unset(4) [OF d]
  show ?thesis by (simp add: demo_put_def mergeAuth_def no_auth_def or_current_def)
qed

theorem switching_request_is_served_witness:
  "\<exists>w' new m' m'' ident'. applySettings demo_api demo_put admin_identity demo_request switch_body (token_db, store_with {}) = (w', None) \<and>
     Auth (\<lambda>k. None) (fst w') = Inr new \<and> a_mode new = ''token'' \<and> Configure demo_auth_lib new Auth_New = (m', None) \<and>
     Handler demo_auth_lib (storeTokens_LookupToken None (fst w')) (\<lambda>h t. Inr None) 0 demo_request m' = (m'', Served ident')"
proof -
  from applySettings_succeeds [OF switch_accepted] obtain w' where
    w': "applySettings demo_api demo_put admin_identity demo_request switch_body (token_db, store_with {}) = (w', None)" by blast
  from switch_result [OF w'] obtain new where
    new: "Auth (\<lambda>k. None) (fst w') = Inr new" "a_mode new = ''token''" "a_trusted_proxies new = []" by blast
  then obtain m' where m': "Configure demo_auth_lib new Auth_New = (m', None)" by (simp add: Configure_def)
  have d: "settings_t token_db = Map.empty" by (simp add: token_db_def CreateAPIToken_def Let_def empty_db_def insert_row_def)
  have "\<exists>m'' ident'. Handler (ap_auth demo_api) (storeTokens_LookupToken None (fst w')) (\<lambda>h t. Inr None) 0 demo_request m' = (m'', Served ident')"
    by (rule switching_request_is_served [OF w' _ _ _ _ new(1)])
      (use new m' sections_unset(4) [OF d] in \<open>auto simp: switch_body_def demo_put_def demo_api_def\<close>)
  with w' new m' show ?thesis by (auto simp: demo_api_def)
qed

text \<open>The default settings, read and sent back.\<close>

definition default_doc :: settings_response where
  "default_doc =
     \<lparr>sr_auth = maskAuthSecrets (projr (Auth (\<lambda>k. None) empty_db)), sr_engines = projr (Engines (\<lambda>k. None) empty_db),
      sr_general = projr (General (\<lambda>k. None) empty_db), sr_integrations = maskSecrets (projr (Integrations (\<lambda>k. None) empty_db)),
      sr_locked = LockedKeys (store_with {}), sr_notifications = maskChannelTokens demo_api (projr (Notifications (\<lambda>k. None) empty_db))\<rparr>"

lemma default_doc_read: "getSettings demo_api no_section_faults (empty_db, store_with {}) = Inr default_doc"
  by (simp add: getSettings_def abind_def internal_of_def sections_unset Integrations_unset default_doc_def)

lemma default_doc_valid:
  "validateEngines demo_api (echo_engines (sr_engines default_doc)) = None"
  "validate_general demo_api (echo_general (sr_general default_doc)) = None"
  "validate_integrations demo_api (echo_integrations (sr_integrations default_doc)) (projr (Integrations (\<lambda>k. None) empty_db)) = None"
  "validate_notifications demo_api (echo_notifications (sr_notifications default_doc)) (Some []) = None"
  "validateAuthBody demo_api (Some (echo_auth (sr_auth default_doc))) (projr (Auth (\<lambda>k. None) empty_db)) = None"
  unfolding default_doc_def settings_response.simps sections_unset [OF empty_settings] Integrations_unset [OF empty_settings] sum.sel
  by code_simp+

lemma default_doc_accepted: "check_put demo_api demo_put admin_identity demo_request (echo default_doc) (empty_db, store_with {}) = Inr (Some [])"
proof -
  note u = sections_unset [OF empty_settings] and iu = Integrations_unset [OF empty_settings]
  have ch: "body_channels (echo default_doc) = Some []"
    by (simp add: body_channels_def echo_def echo_notifications_def default_doc_def maskChannelTokens_def u)
  have l: "lockedKeysIn (store_with {}) (echo default_doc) = []" by (simp add: lockedKeysIn_def IsLocked_def store_with_def)
  have a: "a_mode (mergeAuth (projr (Auth (\<lambda>k. None) empty_db)) (sb_auth (echo default_doc))) = ''open''"
    by (simp add: echo_def echo_auth_def default_doc_def maskAuthSecrets_def mergeAuth_def or_current_def u)
  have v: "validateSettings demo_api (echo default_doc) (Some []) (projr (Integrations (\<lambda>k. None) empty_db)) = None"
    using default_doc_valid(1-4) by (simp add: validateSettings_def echo_def on_ptr_def)
  have va: "validateAuthBody demo_api (sb_auth (echo default_doc)) (projr (Auth (\<lambda>k. None) empty_db)) = None"
    using default_doc_valid(5) by (simp add: echo_def)
  have g: "engines_guard no_section_faults admin_identity empty_db (echo default_doc) = Inr ()"
    by (simp add: engines_guard_def requestAuthIsToken_def admin_identity_def no_identity_def split: option.split)
  have ad: "requestIsAdmin admin_identity" "\<not> requestAuthIsToken admin_identity"
    by (simp_all add: requestIsAdmin_def requestAuthIsToken_def admin_identity_def no_identity_def)
  have m: "mergeChannelSecrets demo_api [] (n_channels (projr (Notifications (\<lambda>k. None) empty_db))) = Inr []"
    by (simp add: mergeChannelSecrets_def)
  have r: "Integrations (\<lambda>k. None) empty_db = Inr (projr (Integrations (\<lambda>k. None) empty_db))"
    "Notifications (\<lambda>k. None) empty_db = Inr (projr (Notifications (\<lambda>k. None) empty_db))"
    "Auth (\<lambda>k. None) empty_db = Inr (projr (Auth (\<lambda>k. None) empty_db))" by (simp_all add: u iu)
  have lo: "checkAuthLockout demo_api None None empty_db admin_identity demo_request (projr (Auth (\<lambda>k. None) empty_db))
      (mergeAuth (projr (Auth (\<lambda>k. None) empty_db)) (sb_auth (echo default_doc))) = None"
    using a by (simp add: checkAuthLockout_def)
  have sb: "sb_auth (echo default_doc) \<noteq> None" by (simp add: echo_def)
  show ?thesis
    unfolding check_put_def Let_def fst_conv snd_conv demo_put_def put_faults.simps no_section_faults_sel
    by (subst r(1), subst r(2), subst r(3)) (simp add: l ad g ch m v va lo sb internal_of_def abind_def bad_def)
qed

theorem settings_echo_roundtrip_witness:
  "\<exists>w'. applySettings demo_api demo_put admin_identity demo_request (echo default_doc) (empty_db, store_with {}) = (w', None) \<and>
     Auth (\<lambda>k. None) (fst w') = Auth (\<lambda>k. None) empty_db \<and> General (\<lambda>k. None) (fst w') = General (\<lambda>k. None) empty_db"
proof -
  from applySettings_succeeds [OF default_doc_accepted] obtain w' where
    w': "applySettings demo_api demo_put admin_identity demo_request (echo default_doc) (empty_db, store_with {}) = (w', None)" by blast
  have i: "Integrations (\<lambda>k. None) (fst (empty_db, store_with {})) = Inr (projr (Integrations (\<lambda>k. None) empty_db))"
    by (simp add: Integrations_unset)
  from settings_echo_roundtrip [OF default_doc_read _ w' i] w' show ?thesis by (auto simp: demo_put_def)
qed

subsection \<open>A locked header that is cleared\<close>

text \<open>C23: the lock of the older authorization header does not hold against a written auth type: any accepted document
  that names \<open>vm_auth_type\<close> clears \<open>vm_auth_header\<close>, whether or not the environment has locked that key, since the check for
  locked keys does not see this write.\<close>

theorem auth_type_clears_header:
  assumes "applySettings lib f ident r body w = (w', None)" "sb_integrations body = Some i" "ib_vm_auth_type i \<noteq> None"
  shows "settings_t (fst w') ''integrations.vm_auth_header'' = Some (RawDoc (JStr []))"
proof -
  from applySettings_accepted [OF assms(1)] obtain merged
    where "fst w' = (fst w)\<lparr>settings_t := written (all_writes merged body) (settings_t (fst w))\<rparr>" .
  moreover have "hd ''integrations.vm_auth_header'' = CHR ''i''" by simp
  ultimately show ?thesis
    using assms(2,3) by (simp add: written_sections(3) section_of_def) (auto simp: written_def integrations_lookup)
qed

definition type_body :: settings_body where
  "type_body = no_body\<lparr>sb_integrations := Some (no_integrations\<lparr>ib_vm_auth_type := Some ''bearer''\<rparr>)\<rparr>"

lemma type_accepted:
  "check_put demo_api demo_put admin_identity demo_request type_body (empty_db, store_with {''integrations.vm_auth_header''}) = Inr None"
  by (simp add: demo_simps type_body_def no_integrations_def integrations_keys_def sections_unset Integrations_unset
    validate_integrations_def validateEndpointURL_def validateExportAuthType_def ValidExportAuthType_def)

theorem auth_type_clears_header_witness:
  "\<exists>w'. applySettings demo_api demo_put admin_identity demo_request type_body (empty_db, store_with {''integrations.vm_auth_header''}) = (w', None) \<and>
     IsLocked (store_with {''integrations.vm_auth_header''}) ''integrations.vm_auth_header'' \<and>
     settings_t (fst w') ''integrations.vm_auth_header'' = Some (RawDoc (JStr []))"
proof -
  from applySettings_succeeds [OF type_accepted] obtain w' where
    w': "applySettings demo_api demo_put admin_identity demo_request type_body (empty_db, store_with {''integrations.vm_auth_header''}) = (w', None)"
    by blast
  from auth_type_clears_header [OF w'] w' show ?thesis
    by (auto simp: type_body_def no_integrations_def IsLocked_def store_with_def)
qed

end
