(* ===== verification/Token_Props.thy ===== *)
theory Token_Props
  imports Settings_Echo
begin

text \<open>
  Where credentials can go and who can make them: connection tests, masked channels, and the token handlers.
\<close>

subsection \<open>Stored credentials\<close>

lemma merge_channel_keeps_secrets_home:
  assumes "merge_channel lib stored c = Inr c'" "stored (ch_id c) = Some old" "ch_type old \<noteq> ch_type c \<or> ch_url old \<noteq> ch_url c"
  shows "ch_token c' = ch_token c \<and> ch_headers c' = ch_headers c"
  using assms by (auto simp: merge_channel_def Let_def split: if_splits sum.splits)


definition vm_settings :: "string \<Rightarrow> integrations" where
  "vm_settings secret = (projr (Integrations (\<lambda>k. None) empty_db))\<lparr>ig_vm_url := ''https://vm'', ig_vm_auth_type := ''bearer'', ig_vm_auth_token := secret\<rparr>"

definition probe_elsewhere :: test_request where
  "probe_elsewhere = \<lparr>tr_auth = Some \<lparr>tb_type = Some ''bearer'', tb_username = None, tb_password = None,
     tb_token = Some MaskedSecret, tb_header_name = None, tb_header_value = None\<rparr>, tr_auth_header = None,
     tr_client_id = None, tr_client_secret = None, tr_issuer = None, tr_url = Some ''https://other''\<rparr>"

definition hook :: "string \<Rightarrow> string \<Rightarrow> channel" where
  "hook url token = no_channel\<lparr>ch_id := ''c1'', ch_type := ''webhook'', ch_url := url, ch_token := token\<rparr>"


subsection \<open>Sequences of token requests\<close>

datatype token_op =
    Issue identity fault string "string option" string
  | Revoke identity "string \<Rightarrow> fault" fault fault int

fun token_step :: "auth_lib \<Rightarrow> token_op \<Rightarrow> db \<Rightarrow> db" where
  "token_step lib (Issue ident flt now rand name) d = fst (createToken lib flt now rand ident name d)"
| "token_step lib (Revoke ident aflt cflt dflt i) d = fst (deleteToken aflt cflt dflt ident i d)"

fun op_identity :: "token_op \<Rightarrow> identity" where
  "op_identity (Issue ident flt now rand name) = ident"
| "op_identity (Revoke ident aflt cflt dflt i) = ident"

definition token_hashes :: "db \<Rightarrow> string set" where
  "token_hashes d = tok_hash ` set (rows (api_tokens_t d))"

text \<open>The modes in which a token is a way in.\<close>

definition tokens_needed :: "db \<Rightarrow> bool" where
  "tokens_needed d \<longleftrightarrow> (\<exists>a. Auth (\<lambda>k. None) d = Inr a \<and> (a_mode a = ''token'' \<or> a_mode a = ''forward_auth'' \<and> a_allow_tokens a))"

lemma createToken_frame:
  "settings_t (fst (createToken lib flt now rand ident name d)) = settings_t d"
  "set (rows (api_tokens_t d)) \<subseteq> set (rows (api_tokens_t (fst (createToken lib flt now rand ident name d))))"
  "requestAuthIsToken ident \<Longrightarrow> fst (createToken lib flt now rand ident name d) = d"
  by (auto simp: createToken_def CreateAPIToken_def Let_def insert_row_def split: option.splits prod.splits if_splits)

lemma createToken_ok: "tokens_ok d \<Longrightarrow> tokens_ok (fst (createToken lib flt now rand ident name d))"
  using tokens_ok_create [of d flt now "TrimSpace name"]
  by (auto simp: createToken_def Let_def split: option.splits prod.splits sum.splits if_splits) (metis fst_conv)+

text \<open>A revocation removes the rows with the id, or nothing; where tokens are needed it leaves one.\<close>

lemma deleteToken_cases:
  assumes "\<forall>k. aflt k = None"
  obtains "fst (deleteToken aflt cflt dflt ident i d) = d"
  | "fst (deleteToken aflt cflt dflt ident i d) = d\<lparr>api_tokens_t := map_rows (delete_where (\<lambda>r. tok_id r = i)) (api_tokens_t d)\<rparr>"
    "tokens_needed d \<Longrightarrow> 1 < length (rows (api_tokens_t d))"
proof -
  have f: "aflt = (\<lambda>k. None)" using assms by auto
  show ?thesis
  proof (cases "fst (deleteToken aflt cflt dflt ident i d) = d")
    case True
    then show ?thesis by (rule that(1))
  next
    case False
    then obtain a where a: "Auth (\<lambda>k. None) d = Inr a" using f by (cases "Auth aflt d") (auto simp: deleteToken_def split: if_splits)
    have ad: "requestIsAdmin ident" "\<not> i \<le> 0" using False by (auto simp: deleteToken_def split: if_splits)
    let ?G = "if a_mode a = ''token'' \<or> (a_mode a = ''forward_auth'' \<and> a_allow_tokens a)
       then abind (internal_of ''count api tokens'' (CountAPITokens cflt d)) (\<lambda>n.
          if n \<le> 1 then Inl (BadRequest ''cannot revoke the last API token while auth mode is token'') else Inr ())
       else Inr ()"
    have e: "deleteToken aflt cflt dflt ident i d =
        (case ?G of Inl e \<Rightarrow> (d, Inl e)
         | Inr _ \<Rightarrow> (case DeleteAPIToken dflt d i of (d', Inl e) \<Rightarrow> (d', Inl (storeErr ''api token'' e)) | (d', Inr _) \<Rightarrow> (d', Inr ())))"
      using a f ad by (simp add: deleteToken_def)
    then obtain u where g: "?G = Inr u" using False by (cases ?G) auto
    with e have dd: "fst (deleteToken aflt cflt dflt ident i d) = fst (DeleteAPIToken dflt d i)"
      by (simp split: prod.split sum.split)
    have n: "1 < length (rows (api_tokens_t d))" if "tokens_needed d"
    proof -
      from that a have "a_mode a = ''token'' \<or> (a_mode a = ''forward_auth'' \<and> a_allow_tokens a)" by (simp add: tokens_needed_def)
      from g [unfolded if_P [OF this] abind_Inr internal_of_Inr] obtain m where
        m: "CountAPITokens cflt d = Inr m" "(if m \<le> 1 then Inl (BadRequest ''cannot revoke the last API token while auth mode is token'') else Inr ()) = Inr u"
        by blast
      then have "\<not> m \<le> 1" by (metis Inl_Inr_False)
      with m(1) show ?thesis by (cases cflt) (simp_all add: CountAPITokens_def)
    qed
    have "fst (DeleteAPIToken dflt d i) = d\<lparr>api_tokens_t := map_rows (delete_where (\<lambda>r. tok_id r = i)) (api_tokens_t d)\<rparr>"
    proof -
      have ne: "fst (DeleteAPIToken dflt d i) \<noteq> d" using False dd by simp
      then have "dflt = None" by (cases dflt) (simp_all add: DeleteAPIToken_def)
      moreover have "affected (\<lambda>r. tok_id r = i) (rows (api_tokens_t d)) \<noteq> 0"
        using ne calculation by (intro notI) (simp add: DeleteAPIToken_def)
      ultimately show ?thesis unfolding DeleteAPIToken_def by auto
    qed
    with dd n show ?thesis by (intro that(2)) simp_all
  qed
qed

lemma one_row_left:
  assumes "tokens_ok d" "1 < length (rows (api_tokens_t d))"
  shows "delete_where (\<lambda>r. tok_id r = i) (rows (api_tokens_t d)) \<noteq> []"
proof
  assume "delete_where (\<lambda>r. tok_id r = i) (rows (api_tokens_t d)) = []"
  then have all: "\<forall>r\<in>set (rows (api_tokens_t d)). tok_id r = i" by (simp add: delete_where_def filter_empty_conv)
  obtain r1 r2 rs where r: "rows (api_tokens_t d) = r1 # r2 # rs"
    using assms(2) by (cases "rows (api_tokens_t d)"; cases "tl (rows (api_tokens_t d))") auto
  have "distinct (map tok_id (rows (api_tokens_t d)))" using assms(1) by (simp add: tokens_ok_def tbl_ok_distinct)
  with all r show False by simp
qed

definition quiet_op :: "token_op \<Rightarrow> bool" where
  "quiet_op x = (case x of Issue _ _ _ _ _ \<Rightarrow> True | Revoke _ aflt _ _ _ \<Rightarrow> \<forall>k. aflt k = None)"

lemma token_step_keeps:
  assumes "tokens_ok d" "quiet_op x"
  shows "tokens_ok (token_step lib x d) \<and> settings_t (token_step lib x d) = settings_t d \<and>
    (tokens_needed d \<and> rows (api_tokens_t d) \<noteq> [] \<longrightarrow> rows (api_tokens_t (token_step lib x d)) \<noteq> []) \<and>
    (requestAuthIsToken (op_identity x) \<longrightarrow> token_hashes (token_step lib x d) \<subseteq> token_hashes d)"
proof (cases x)
  case (Issue ident flt now rand name)
  let ?d = "fst (createToken lib flt now rand ident name d)"
  have "rows (api_tokens_t d) \<noteq> [] \<Longrightarrow> rows (api_tokens_t ?d) \<noteq> []"
    using createToken_frame(2) [of d lib flt now rand ident name] by (cases "rows (api_tokens_t d)") auto
  with Issue assms(1) createToken_ok createToken_frame(1,3) show ?thesis by auto
next
  case (Revoke ident aflt cflt dflt i)
  with assms(2) have q: "\<forall>k. aflt k = None" by (simp add: quiet_op_def)
  show ?thesis
  proof (rule deleteToken_cases [OF q, of cflt dflt ident i d])
    assume "fst (deleteToken aflt cflt dflt ident i d) = d"
    with Revoke assms(1) show ?thesis by simp
  next
    assume e: "fst (deleteToken aflt cflt dflt ident i d) = d\<lparr>api_tokens_t := map_rows (delete_where (\<lambda>r. tok_id r = i)) (api_tokens_t d)\<rparr>"
      and n: "tokens_needed d \<Longrightarrow> 1 < length (rows (api_tokens_t d))"
    have "delete_where P = filter (\<lambda>r. \<not> P r)" for P :: "api_token_row \<Rightarrow> bool" by (rule ext) (simp add: delete_where_def)
    then have "tokens_ok (token_step lib x d)"
      using assms(1) e Revoke by (simp add: tokens_ok_def tbl_ok_filter distinct_map_filter)
    with e n Revoke one_row_left [OF assms(1)] show ?thesis by (auto simp: token_hashes_def delete_where_def)
  qed
qed

text \<open>C21: over any sequence of token requests, by any identities, with any names and any faults except of the settings
  read: a database in a mode where tokens open the door and that has a token keeps one, so revoking cannot lock everyone
  out; and requests that authenticate with a token never add one, so a leaked token cannot outlive its revocation.\<close>

theorem tokens_neither_run_out_nor_breed:
  assumes "tokens_ok d" "\<forall>x\<in>set xs. quiet_op x" "tokens_needed d" "rows (api_tokens_t d) \<noteq> []"
  shows "rows (api_tokens_t (fold (token_step lib) xs d)) \<noteq> [] \<and>
    ((\<forall>x\<in>set xs. requestAuthIsToken (op_identity x)) \<longrightarrow> token_hashes (fold (token_step lib) xs d) \<subseteq> token_hashes d)"
  using assms
proof (induction xs arbitrary: d)
  case (Cons x xs)
  let ?d = "token_step lib x d"
  have k: "tokens_ok ?d" "settings_t ?d = settings_t d" "rows (api_tokens_t ?d) \<noteq> []"
    "requestAuthIsToken (op_identity x) \<longrightarrow> token_hashes ?d \<subseteq> token_hashes d"
    using token_step_keeps [OF Cons.prems(1), of x lib] Cons.prems by auto
  have "Auth (\<lambda>k. None) ?d = Auth (\<lambda>k. None) d" using k(2) by (intro Auth_keep) simp
  with Cons.prems(3) have "tokens_needed ?d" by (simp add: tokens_needed_def)
  with Cons.IH [of ?d] k Cons.prems show ?case by auto
qed simp

text \<open>Token mode with two tokens: one revocation goes through, the second is refused.\<close>

definition two_tokens :: db where
  "two_tokens = fst (CreateAPIToken None (token_db\<lparr>settings_t := [''auth.mode'' \<mapsto> RawDoc (JStr ''token'')]\<rparr>)
     ''2024-01-02T00:00:00.000Z'' ''b'' ''stt_b'' ''stt_b'')"

lemma two_tokens_ok: "tokens_ok two_tokens" "rows (api_tokens_t two_tokens) \<noteq> []"
  by (simp_all add: two_tokens_def token_db_def CreateAPIToken_def Let_def empty_db_def empty_tbl_def insert_row_def tokens_ok_def
    tbl_ok_def ids_below_def)

lemma two_tokens_needed: "tokens_needed two_tokens"
proof -
  have s: "settings_t two_tokens = [''auth.mode'' \<mapsto> RawDoc (JStr ''token'')]"
    by (simp add: two_tokens_def CreateAPIToken_def Let_def token_db_def empty_db_def empty_tbl_def insert_row_def)
  have "\<exists>a. Auth (\<lambda>k. None) two_tokens = Inr a \<and> a_mode a = ''token''"
    by (simp add: Auth_def read_default s nil_empty_def)
  then show ?thesis by (auto simp: tokens_needed_def)
qed

definition revoke :: "int \<Rightarrow> token_op" where
  "revoke i = Revoke token_identity (\<lambda>k. None) None None i"

theorem tokens_neither_run_out_nor_breed_witness:
  "rows (api_tokens_t (fold (token_step demo_auth_lib) [revoke 1, revoke 2, Issue token_identity None ''t'' (Some ''x'') ''more''] two_tokens)) \<noteq> [] \<and>
   token_hashes (fold (token_step demo_auth_lib) [revoke 1, revoke 2, Issue token_identity None ''t'' (Some ''x'') ''more''] two_tokens)
     \<subseteq> token_hashes two_tokens"
proof -
  let ?xs = "[revoke 1, revoke 2, Issue token_identity None ''t'' (Some ''x'') ''more'']"
  have "\<forall>x\<in>set ?xs. quiet_op x" "\<forall>x\<in>set ?xs. requestAuthIsToken (op_identity x)"
    by (simp_all add: revoke_def quiet_op_def requestAuthIsToken_def token_identity_def no_identity_def)
  with tokens_neither_run_out_nor_breed [OF two_tokens_ok(1) _ two_tokens_needed two_tokens_ok(2), of ?xs demo_auth_lib]
  show ?thesis by blast
qed

end
