(* ===== verification/Target_Props.thy ===== *)
theory Target_Props
  imports Target_Store
begin

text \<open>
  Properties of the target and queue tables that hold over whole histories: the invariant
  kept by every sequence of operations, the delete and restore round trip, and the round
  robin of the rotation cursor.
\<close>

subsection \<open>Sequences of operations\<close>

text \<open>The writes of \<open>queues.go\<close>, \<open>targets.go\<close> and \<open>target_revisions.go\<close>, with the clock text
  and the fault of each.\<close>

datatype tq_op =
    OCreateQueue string | ORenameQueue int string | ODeleteQueue int
  | OCreateTarget target | OUpdateTarget target | ORevertTarget target
  | ODeleteTarget int | ORestoreTarget target | ONextRotation int int

fun tq_apply :: "fault \<Rightarrow> string \<Rightarrow> tq_op \<Rightarrow> db \<Rightarrow> db" where
  "tq_apply flt now (OCreateQueue n) d = fst (CreateQueue flt now d n)"
| "tq_apply flt now (ORenameQueue i n) d = fst (RenameQueue flt d i n)"
| "tq_apply flt now (ODeleteQueue i) d = fst (DeleteQueue flt d i)"
| "tq_apply flt now (OCreateTarget t) d = fst (CreateTarget flt now d t)"
| "tq_apply flt now (OUpdateTarget t) d = fst (UpdateTarget flt now d t)"
| "tq_apply flt now (ORevertTarget t) d = fst (RevertTarget flt now d t)"
| "tq_apply flt now (ODeleteTarget i) d = fst (DeleteTarget flt now d i)"
| "tq_apply flt now (ORestoreTarget t) d = fst (RestoreTarget flt now d t)"
| "tq_apply flt now (ONextRotation i n) d = fst (NextRotationIndex flt d i n)"

definition tq_ok :: "db \<Rightarrow> bool" where
  "tq_ok d \<longleftrightarrow> queues_ok d \<and> targets_ok d \<and> history_ok d"

lemma history_ok_cong: "revisions_t d' = revisions_t d \<Longrightarrow> history_ok d' = history_ok d"
  by (simp add: history_ok_def versions_def)

lemma targets_ok_cong: "targets_t d' = targets_t d \<Longrightarrow> targets_ok d' = targets_ok d"
  by (simp add: targets_ok_def)

lemma targets_ok_update:
  assumes "targets_ok d" "\<And>r. t_id (f r) = t_id r"
  shows "targets_ok (d\<lparr>targets_t := map_rows (update_where P f) (targets_t d)\<rparr>)"
  using assms by (auto simp: targets_ok_def map_key_update_where set_update_where)

text \<open>What a transaction that writes a revision last does to the rest of the invariant.\<close>

lemma tq_ok_revision:
  assumes "insertRevision now d1 i act s = Some d2" "revisions_t d1 = revisions_t d"
    "history_ok d" "targets_ok d1" "queues_ok d2"
  shows "tq_ok d2"
  using assms insertRevision_frame [OF assms(1)] history_ok_cong [OF assms(2)]
    history_ok_insert [OF _ assms(1)] targets_ok_cong [of d2 d1]
  by (simp add: tq_ok_def)

lemma tq_ok_CreateTarget: "tq_ok d \<Longrightarrow> tq_ok (fst (CreateTarget flt now d t))"
proof (cases "fst (CreateTarget flt now d t) = d")
  case False
  assume ok: "tq_ok d"
  let ?row = "\<lambda>k. \<lparr>t_id = k, t_name = t_name t, t_engine = t_engine t, t_enabled = t_enabled t,
     t_queue_id = t_queue_id t, t_options = rawOrEmpty (t_options t), t_thresholds = rawOrEmpty (t_thresholds t),
     t_rotation_index = 0, t_created_at = now, t_updated_at = now\<rparr>"
  let ?d1 = "d\<lparr>targets_t := insert_row ?row (targets_t d)\<rparr>"
  from False obtain i c d2 where ins: "insertRevision now ?d1 i ACreate c = Some d2"
    and d2: "fst (CreateTarget flt now d t) = d2"
    by (auto simp: CreateTarget_def Let_def split: option.splits)
  have "targets_ok ?d1" using ok by (force simp: tq_ok_def targets_ok_def)
  moreover have "queues_ok d2" using queues_ok_CreateTarget ok d2 unfolding tq_ok_def by metis
  ultimately show ?thesis unfolding d2
    using tq_ok_revision [OF ins, of d] ok by (simp add: tq_ok_def)
qed simp

lemma tq_ok_updateTarget: "tq_ok d \<Longrightarrow> tq_ok (fst (updateTargetWithAction flt now d t act))"
proof (cases "fst (updateTargetWithAction flt now d t act) = d")
  case False
  assume ok: "tq_ok d"
  let ?d1 = "d\<lparr>targets_t := map_rows (update_where (\<lambda>r. t_id r = t_id t) (set_target now t)) (targets_t d)\<rparr>"
  from False obtain c d2 where ins: "insertRevision now ?d1 (t_id t) act c = Some d2"
    and d2: "fst (updateTargetWithAction flt now d t act) = d2"
    by (auto simp: updateTargetWithAction_def Let_def split: option.splits if_splits)
  have "targets_ok ?d1" using ok by (intro targets_ok_update) (auto simp: tq_ok_def set_target_def)
  moreover have "queues_ok d2" using queues_ok_updateTarget ok d2 unfolding tq_ok_def by metis
  ultimately show ?thesis unfolding d2
    using tq_ok_revision [OF ins, of d] ok by (simp add: tq_ok_def)
qed simp

lemma tq_ok_DeleteTarget: "tq_ok d \<Longrightarrow> tq_ok (fst (DeleteTarget flt now d i))"
proof (cases "fst (DeleteTarget flt now d i) = d")
  case False
  assume ok: "tq_ok d"
  from False obtain c d2 where ins: "insertRevision now (delete_target_row d i) i ADelete c = Some d2"
    and d2: "fst (DeleteTarget flt now d i) = d2"
    by (auto simp: DeleteTarget_def Let_def split: option.splits if_splits)
  have "targets_ok (delete_target_row d i)"
    using ok by (auto simp: tq_ok_def targets_ok_def delete_target_row_def delete_where_def distinct_map_filter)
  moreover have "queues_ok d2" using queues_ok_DeleteTarget ok d2 unfolding tq_ok_def by metis
  moreover have "revisions_t (delete_target_row d i) = revisions_t d" by (simp add: delete_target_row_def)
  ultimately show ?thesis unfolding d2
    using tq_ok_revision [OF ins, of d] ok by (simp add: tq_ok_def)
qed simp

lemma tq_ok_RestoreTarget: "tq_ok d \<Longrightarrow> tq_ok (fst (RestoreTarget flt now d t))"
proof (cases "fst (RestoreTarget flt now d t) = d")
  case False
  assume ok: "tq_ok d"
  let ?row = "\<lparr>t_id = t_id t, t_name = t_name t, t_engine = t_engine t, t_enabled = t_enabled t,
     t_queue_id = t_queue_id t, t_options = rawOrEmpty (t_options t), t_thresholds = rawOrEmpty (t_thresholds t),
     t_rotation_index = 0, t_created_at = t_created_at t, t_updated_at = now\<rparr>"
  let ?d1 = "d\<lparr>targets_t := \<lparr>rows = rows (targets_t d) @ [?row], seq = max (seq (targets_t d)) (t_id t)\<rparr>\<rparr>"
  from False obtain c d2 where ins: "insertRevision now ?d1 (t_id t) ARestore c = Some d2"
    and new: "\<forall>r\<in>set (rows (targets_t d)). t_id r \<noteq> t_id t" and d2: "fst (RestoreTarget flt now d t) = d2"
    by (auto simp: RestoreTarget_def Let_def split: option.splits if_splits)
  have "targets_ok ?d1" using ok new by (fastforce simp: tq_ok_def targets_ok_def)
  moreover have "queues_ok d2" using queues_ok_RestoreTarget ok d2 unfolding tq_ok_def by metis
  ultimately show ?thesis unfolding d2
    using tq_ok_revision [OF ins, of d] ok by (simp add: tq_ok_def)
qed simp

lemma queue_ops_frame:
  "targets_t (fst (CreateQueue flt now d n)) = targets_t d" "revisions_t (fst (CreateQueue flt now d n)) = revisions_t d"
  "targets_t (fst (RenameQueue flt d i n)) = targets_t d" "revisions_t (fst (RenameQueue flt d i n)) = revisions_t d"
  "targets_t (fst (DeleteQueue flt d i)) = targets_t d" "revisions_t (fst (DeleteQueue flt d i)) = revisions_t d"
  by (auto simp: CreateQueue_def RenameQueue_def DeleteQueue_def Let_def split: option.splits)

lemma tq_ok_frame:
  "tq_ok d \<Longrightarrow> targets_t d' = targets_t d \<Longrightarrow> revisions_t d' = revisions_t d \<Longrightarrow> queues_ok d' \<Longrightarrow> tq_ok d'"
  using history_ok_cong [of d' d] targets_ok_cong [of d' d] by (simp add: tq_ok_def)

lemma tq_ok_queue_ops:
  assumes "tq_ok d"
  shows "tq_ok (fst (CreateQueue flt now d n))" "tq_ok (fst (RenameQueue flt d i n))"
    "tq_ok (fst (DeleteQueue flt d i))"
proof -
  from assms have q: "queues_ok d" by (simp add: tq_ok_def)
  show "tq_ok (fst (CreateQueue flt now d n))"
    by (rule tq_ok_frame [OF assms queue_ops_frame(1,2) queues_ok_CreateQueue [OF q]])
  show "tq_ok (fst (RenameQueue flt d i n))"
    by (rule tq_ok_frame [OF assms queue_ops_frame(3,4) queues_ok_RenameQueue [OF q]])
  show "tq_ok (fst (DeleteQueue flt d i))"
    by (rule tq_ok_frame [OF assms queue_ops_frame(5,6) queues_ok_DeleteQueue [OF q]])
qed

lemma tq_ok_NextRotationIndex:
  assumes "tq_ok d"
  shows "tq_ok (fst (NextRotationIndex flt d i n))"
proof (cases "fst (NextRotationIndex flt d i n) = d")
  case False
  let ?d1 = "d\<lparr>targets_t := map_rows (update_where (\<lambda>r. t_id r = i)
                         (\<lambda>r. r\<lparr>t_rotation_index := t_rotation_index r + 1\<rparr>)) (targets_t d)\<rparr>"
  from False have d1: "fst (NextRotationIndex flt d i n) = ?d1"
    by (auto simp: NextRotationIndex_def split: option.splits if_splits)
  have "targets_ok ?d1" using assms by (intro targets_ok_update) (auto simp: tq_ok_def)
  moreover have "queues_ok ?d1"
  proof (rule queues_ok_targets [of d])
    show "queues_ok d" using assms by (simp add: tq_ok_def)
    fix t assume "t \<in> set (rows (targets_t ?d1))"
    then obtain r where "r \<in> set (rows (targets_t d))" "t_queue_id t = t_queue_id r"
      by (auto simp: set_update_where)
    then show "t_queue_id t \<in> t_queue_id ` set (rows (targets_t d)) \<or>
        (\<exists>q\<in>set (rows (queues_t d)). q_id q = t_queue_id t)" by blast
  qed simp
  moreover have "history_ok ?d1" using assms history_ok_cong [of ?d1 d] by (simp add: tq_ok_def)
  ultimately show ?thesis unfolding d1 by (simp add: tq_ok_def)
qed (use assms in simp)

lemma tq_apply_ok: "tq_ok d \<Longrightarrow> tq_ok (tq_apply flt now x d)"
  by (cases x) (simp_all add: tq_ok_queue_ops tq_ok_CreateTarget tq_ok_updateTarget tq_ok_DeleteTarget
      tq_ok_RestoreTarget tq_ok_NextRotationIndex UpdateTarget_def RevertTarget_def)

text \<open>From the seeded database on, every sequence of queue and target operations, whatever
  statements fail, keeps the tables consistent: every target's queue exists (although no
  foreign key enforces it) so no target is invisible to the joins, queue names stay unique,
  one queue always remains, target ids stay unique, and every change history is a block of at
  most 50 consecutive versions.\<close>

theorem target_tables_stay_consistent:
  assumes "tq_ok d"
  shows "tq_ok (fold (\<lambda>(flt, now, x) d. tq_apply flt now x d) ops d)"
  using assms by (induction ops arbitrary: d) (auto simp: tq_apply_ok)

lemma tq_ok_seeded: "tq_ok seeded_db"
  using history_ok_seeded
  by (simp add: tq_ok_def queues_ok_def targets_ok_def tbl_ok_def ids_below_def seeded_db_def
      empty_db_def empty_tbl_def)

theorem target_tables_stay_consistent_witness:
  "tq_ok seeded_db \<and>
   tq_ok (fold (\<lambda>(flt, now, x) d. tq_apply flt now x d)
     [(None, ''t1'', OCreateTarget demo_target), (None, ''t2'', ODeleteQueue 1),
      (Some ''busy'', ''t3'', ODeleteTarget 1), (None, ''t4'', ODeleteTarget 1), (None, ''t5'', ODeleteQueue 1)]
     seeded_db)"
  using tq_ok_seeded target_tables_stay_consistent [OF tq_ok_seeded] by blast

subsection \<open>Deleting and restoring\<close>

lemma queue_lookup_live:
  assumes "queues_ok d" "\<exists>q\<in>set (rows (queues_t d)). q_id q = i"
  shows "\<exists>l. loadQueueLookup None d = Inr l \<and> ql_by_id l i \<noteq> None"
proof -
  let ?qs = "sort_key q_id (rows (queues_t d))"
  obtain q qs where qs: "?qs = q # qs" using assms(1) by (cases ?qs) (auto simp: queues_ok_def dest: arg_cong [where f = length])
  have "i \<in> q_id ` set ?qs" using assms(2) by auto
  then have "i \<in> fst ` set (rev (map (\<lambda>q. (q_id q, q)) ?qs))" by force
  then have "map_of (rev (map (\<lambda>q. (q_id q, q)) ?qs)) i \<noteq> None" by (simp add: map_of_eq_None_iff)
  then show ?thesis using qs by (auto simp: loadQueueLookup_def ListQueues_def simp del: map_of_append)
qed

lemma DeleteTarget_snapshot:
  assumes ok: "tq_ok d" and before: "GetTarget None d i = Inr t"
    and del: "DeleteTarget None now d i = (d1, Inr ())" and rng: "target_in_range t" "t_queue_id t \<noteq> 0"
  shows "LatestDeletedSnapshot None d1 i = Inr t" "queues_t d1 = queues_t d"
    "\<forall>r\<in>set (rows (targets_t d1)). t_id r \<noteq> i"
proof -
  from before have sel: "select_target d i = Some t" by (auto simp: GetTarget_def split: option.splits)
  with del obtain ins: "insertRevision now (delete_target_row d i) i ADelete t = Some d1"
    by (auto simp: DeleteTarget_def Let_def split: option.splits if_splits)
  then obtain body where body: "marshalTarget t = Some body"
    by (auto simp: insertRevision_def split: option.splits)
  note frame = insertRevision_frame [OF ins]
  show q: "queues_t d1 = queues_t d" using frame by (simp add: delete_target_row_def)
  show gone: "\<forall>r\<in>set (rows (targets_t d1)). t_id r \<noteq> i"
    using frame by (auto simp: delete_target_row_def delete_where_def)
  have tid: "t_id t = i" and live: "\<exists>q\<in>set (rows (queues_t d1)). q_id q = t_queue_id t"
    using select_target_Some [OF sel] scanTarget_sel q by (metis, metis)
  have "queues_ok d1" using queues_ok_DeleteTarget [of d None now i] ok del by (simp add: tq_ok_def)
  from queue_lookup_live [OF this live] obtain l
    where l: "loadQueueLookup None d1 = Inr l" "ql_by_id l (t_queue_id t) \<noteq> None" by blast
  let ?v = "\<lparr>rev_id = seq (revisions_t d) + 1, rev_target_id = i, rev_version = max_version d i + 1,
                rev_action = ADelete, rev_snapshot = RawDoc body, rev_created_at = now\<rparr>"
  have mv: "max_version (delete_target_row d i) i = max_version d i"
    "seq (revisions_t (delete_target_row d i)) = seq (revisions_t d)"
    by (simp_all add: max_version_def delete_target_row_def)
  have "latest_delete d1 i = Some ?v"
    using insertRevision_newest [OF ins body, unfolded mv] gone by (simp add: latest_delete_def Let_def)
  moreover have "unmarshalTarget (RawDoc body) = Some t" by (rule unmarshal_marshalTarget [OF body rng(1)])
  moreover have "resolve l (RawDoc body) = t_queue_id t" by (rule resolve_marshalTarget [OF body rng l(2)])
  ultimately show "LatestDeletedSnapshot None d1 i = Inr t"
    using l(1) by (simp add: LatestDeletedSnapshot_def ResolveSnapshotQueueID_def)
qed

text \<open>C8: deleting a target and restoring it brings it back as it was. The deletion leaves a
  snapshot from which the full target is recovered, and restoring that snapshot yields a live
  target with the same id, name, engine, enabled flag, queue, options, thresholds and creation
  time; only the rotation cursor starts over and the update time is the restore's.\<close>

theorem delete_restore_roundtrip:
  assumes "tq_ok d" and "GetTarget None d i = Inr t"
    and "DeleteTarget None now d i = (d1, Inr ())"
    and "target_in_range t" and "t_queue_id t \<noteq> 0"
  shows "LatestDeletedSnapshot None d1 i = Inr t \<and>
    (\<exists>d2. RestoreTarget None now' d1 t = (d2, Inr (t\<lparr>t_rotation_index := 0, t_updated_at := now'\<rparr>)) \<and>
          GetTarget None d2 i = Inr (t\<lparr>t_rotation_index := 0, t_updated_at := now'\<rparr>))"
proof
  note snap = DeleteTarget_snapshot [OF assms]
  from snap(1) show "LatestDeletedSnapshot None d1 i = Inr t" .
  from assms(2) have sel: "select_target d i = Some t" by (auto simp: GetTarget_def split: option.splits)
  then obtain r where r: "t_id r = i" "scanTarget d r = Some t" using select_target_Some by blast
  from assms(3) sel have "marshalTarget t \<noteq> None"
    by (auto simp: DeleteTarget_def insertRevision_def Let_def split: option.splits if_splits)
  then obtain opts h where raw: "t_options t = RawDoc opts" "t_thresholds t = RawDoc h"
    by (auto simp: marshalTarget_def split: raw.splits)
  define row where "row = \<lparr>t_id = t_id t, t_name = t_name t, t_engine = t_engine t, t_enabled = t_enabled t,
     t_queue_id = t_queue_id t, t_options = rawOrEmpty (t_options t), t_thresholds = rawOrEmpty (t_thresholds t),
     t_rotation_index = 0, t_created_at = t_created_at t, t_updated_at = now'\<rparr>"
  define e1 where "e1 = d1\<lparr>targets_t := \<lparr>rows = rows (targets_t d1) @ [row], seq = max (seq (targets_t d1)) (t_id t)\<rparr>\<rparr>"
  let ?t' = "t\<lparr>t_rotation_index := 0, t_updated_at := now'\<rparr>"
  have tid: "t_id t = i" using scanTarget_sel(1) [OF r(2)] r(1) by simp
  obtain q where q: "find (\<lambda>q. q_id q = t_queue_id r) (rows (queues_t d)) = Some q" "t_queue_name t = q_name q"
    using r(2) by (auto simp: scanTarget_def split: option.splits)
  have "scanTarget e1 row = Some ?t'"
    using q scanTarget_sel(5) [OF r(2)] raw snap(2) by (simp add: scanTarget_def e1_def row_def)
  moreover have "find (\<lambda>r. t_id r = i) (rows (targets_t e1)) = Some row"
    using snap(3) tid by (auto simp: e1_def find_append row_def find_None [THEN iffD2])
  ultimately have sel1: "select_target e1 i = Some ?t'" by (simp add: select_target_def)
  obtain d2 where ins: "insertRevision now' e1 i ARestore ?t' = Some d2"
    using raw by (auto simp: insertRevision_def marshalTarget_def Let_def)
  have "RestoreTarget None now' d1 t = (d2, Inr ?t')"
    using snap(3) sel1 ins tid by (auto simp: RestoreTarget_def Let_def e1_def row_def)
  moreover have "GetTarget None d2 i = Inr ?t'"
    using sel1 insertRevision_frame(1,2) [OF ins]
    by (simp add: GetTarget_def select_target_def scanTarget_queues [of d2 e1] split: option.splits)
  ultimately show "\<exists>d2. RestoreTarget None now' d1 t = (d2, Inr ?t') \<and> GetTarget None d2 i = Inr ?t'"
    by blast
qed

definition demo_targets_db :: db where
  "demo_targets_db = fst (CreateTarget None ''t1'' seeded_db demo_target)"

theorem delete_restore_roundtrip_witness:
  "\<exists>d1 d2. DeleteTarget None ''t2'' demo_targets_db 1 = (d1, Inr ()) \<and>
     LatestDeletedSnapshot None d1 1 = Inr (demo_target\<lparr>t_created_at := ''t1'', t_updated_at := ''t1''\<rparr>) \<and>
     RestoreTarget None ''t3'' d1 (demo_target\<lparr>t_created_at := ''t1'', t_updated_at := ''t1''\<rparr>) =
       (d2, Inr (demo_target\<lparr>t_created_at := ''t1'', t_rotation_index := 0, t_updated_at := ''t3''\<rparr>))"
proof -
  let ?t = "demo_target\<lparr>t_created_at := ''t1'', t_updated_at := ''t1''\<rparr>"
  have ok: "tq_ok demo_targets_db"
    unfolding demo_targets_db_def by (rule tq_ok_CreateTarget [OF tq_ok_seeded])
  have get: "GetTarget None demo_targets_db 1 = Inr ?t"
    by (simp add: demo_targets_db_def CreateTarget_def GetTarget_def select_target_def scanTarget_def
        insertRevision_def marshalTarget_def demo_target_def seeded_db_def empty_db_def empty_tbl_def Let_def)
  obtain d1 where del: "DeleteTarget None ''t2'' demo_targets_db 1 = (d1, Inr ())"
    by (simp add: demo_targets_db_def CreateTarget_def DeleteTarget_def delete_target_row_def select_target_def
        scanTarget_def insertRevision_def marshalTarget_def demo_target_def seeded_db_def empty_db_def
        empty_tbl_def Let_def affected_def)
  have rng: "target_in_range ?t" "t_queue_id ?t \<noteq> 0"
    by (simp_all add: target_in_range_def int64_range_def demo_target_def)
  from delete_restore_roundtrip [OF ok get del rng, of "''t3''"] del show ?thesis
    by (auto simp: demo_target_def)
qed

subsection \<open>Rotation\<close>

text \<open>The indices that successive runs of one target are given, out of a list of \<open>n\<close> hosts.\<close>

fun rotation_indices :: "nat \<Rightarrow> db \<Rightarrow> int \<Rightarrow> int \<Rightarrow> int list" where
  "rotation_indices 0 d i n = []"
| "rotation_indices (Suc k) d i n =
     (case NextRotationIndex None d i n of
        (d', Inr x) \<Rightarrow> x # rotation_indices k d' i n
      | (d', Inl e) \<Rightarrow> [])"

lemma NextRotationIndex_step:
  assumes "find (\<lambda>r. t_id r = i) (rows (targets_t d)) = Some r" "0 < n" "0 \<le> t_rotation_index r"
  obtains d' r' where "NextRotationIndex None d i n = (d', Inr (t_rotation_index r mod n))"
    "find (\<lambda>r. t_id r = i) (rows (targets_t d')) = Some r'" "t_rotation_index r' = t_rotation_index r + 1"
proof -
  have "sql_mod (t_rotation_index r) n = t_rotation_index r mod n"
    using assms(2,3) by (cases "t_rotation_index r = 0") (auto simp: sql_mod_def sgn_if)
  then show ?thesis
    using assms find_SomeD [OF assms(1)]
    by (intro that [of "d\<lparr>targets_t := map_rows (update_where (\<lambda>r. t_id r = i)
          (\<lambda>r. r\<lparr>t_rotation_index := t_rotation_index r + 1\<rparr>)) (targets_t d)\<rparr>"
          "r\<lparr>t_rotation_index := t_rotation_index r + 1\<rparr>"])
      (auto simp: NextRotationIndex_def find_update_where)
qed

lemma rotation_indices_eq:
  assumes "find (\<lambda>r. t_id r = i) (rows (targets_t d)) = Some r" "0 < n" "0 \<le> t_rotation_index r"
  shows "rotation_indices k d i n = map (\<lambda>j. (t_rotation_index r + int j) mod n) [0..<k]"
  using assms
proof (induction k arbitrary: d r)
  case (Suc k)
  obtain d' r' where s: "NextRotationIndex None d i n = (d', Inr (t_rotation_index r mod n))"
    "find (\<lambda>r. t_id r = i) (rows (targets_t d')) = Some r'" "t_rotation_index r' = t_rotation_index r + 1"
    by (rule NextRotationIndex_step [OF Suc.prems])
  have "rotation_indices k d' i n = map (\<lambda>j. (t_rotation_index r' + int j) mod n) [0..<k]"
    using Suc.IH [OF s(2)] Suc.prems s(3) by simp
  moreover have "map (\<lambda>j. (t_rotation_index r + int j) mod n) [0..<Suc k] =
      (t_rotation_index r mod n) # map (\<lambda>j. (t_rotation_index r + 1 + int j) mod n) [0..<k]"
    by (simp add: upt_conv_Cons map_Suc_upt [symmetric] comp_def algebra_simps del: upt_Suc map_Suc_upt)
  ultimately show ?case using s by simp
qed simp

lemma consecutive_mod_distinct:
  assumes "0 < (n::int)"
  shows "distinct (map (\<lambda>j. (s + int j) mod n) [0..<nat n])"
proof -
  have "inj_on (\<lambda>j. (s + int j) mod n) {0..<nat n}"
  proof (rule inj_onI)
    fix a b assume ab: "a \<in> {0..<nat n}" "b \<in> {0..<nat n}" "(s + int a) mod n = (s + int b) mod n"
    then have "n dvd (s + int a) - (s + int b)" by (simp add: mod_eq_dvd_iff)
    then have "n dvd int a - int b" by simp
    moreover have "\<bar>int a - int b\<bar> < n" using ab(1,2) by auto
    ultimately have "int a - int b = 0" using dvd_imp_le_int [of "int a - int b" n] by (cases "int a = int b") auto
    then show "a = b" by simp
  qed
  then show ?thesis by (simp add: distinct_map)
qed

text \<open>A target with a list of \<open>n\<close> hosts goes through them in turn: the indices of successive
  runs are consecutive modulo \<open>n\<close>, so any \<open>n\<close> runs in a row use every host exactly once.\<close>

theorem rotation_is_round_robin:
  assumes "find (\<lambda>r. t_id r = i) (rows (targets_t d)) = Some r" and "0 < n" and "0 \<le> t_rotation_index r"
  shows "rotation_indices k d i n = map (\<lambda>j. (t_rotation_index r + int j) mod n) [0..<k] \<and>
         set (rotation_indices (nat n) d i n) = {0..<n} \<and> distinct (rotation_indices (nat n) d i n)"
proof -
  note eq = rotation_indices_eq [OF assms]
  have dist: "distinct (rotation_indices (nat n) d i n)"
    using consecutive_mod_distinct [OF assms(2)] by (simp add: eq)
  have "set (rotation_indices (nat n) d i n) \<subseteq> {0..<n}" using assms(2) by (auto simp: eq)
  moreover have "card (set (rotation_indices (nat n) d i n)) = card {0..<n}"
    using distinct_card [OF dist] by (simp add: eq)
  ultimately have "set (rotation_indices (nat n) d i n) = {0..<n}" by (simp add: card_subset_eq)
  with dist eq show ?thesis by simp
qed

theorem rotation_is_round_robin_witness:
  "rotation_indices 4 demo_targets_db 1 3 = [0, 1, 2, 0]"
proof -
  have "\<exists>r. find (\<lambda>r. t_id r = 1) (rows (targets_t demo_targets_db)) = Some r \<and> t_rotation_index r = 0"
    by (simp add: demo_targets_db_def CreateTarget_def select_target_def scanTarget_def
        insertRevision_def marshalTarget_def demo_target_def seeded_db_def empty_db_def empty_tbl_def Let_def)
  then obtain r where "find (\<lambda>r. t_id r = 1) (rows (targets_t demo_targets_db)) = Some r" "t_rotation_index r = 0"
    by blast
  with rotation_is_round_robin [of 1 demo_targets_db r 3 4] show ?thesis
    by (simp add: upt_rec)
qed

end
