(* ===== verification/Paging.thy ===== *)
theory Paging
  imports Prelude
begin

text \<open>
  Keyset pagination as the listings of package \<open>store\<close> do it: newest first, a page of at
  most \<open>limit\<close> rows, and the id of the last row as the cursor of the next page (0 when the
  listing is exhausted). The locale is the contract of one such listing; its theorem says
  that following the cursors visits every row exactly once, in order.
\<close>

definition below_cursor :: "('r \<Rightarrow> int) \<Rightarrow> int \<Rightarrow> 'r list \<Rightarrow> 'r list" where
  "below_cursor key c xs = filter (\<lambda>r. c > 0 \<longrightarrow> key r < c) xs"

text \<open>A client that follows the cursors, for at most \<open>n\<close> pages.\<close>

fun walk_pages :: "(int \<Rightarrow> 'r list \<times> int) \<Rightarrow> nat \<Rightarrow> int \<Rightarrow> 'r list" where
  "walk_pages pg 0 c = []"
| "walk_pages pg (Suc n) c =
     (let (out, nxt) = pg c in out @ (if nxt = 0 then [] else walk_pages pg n nxt))"

lemma filter_below_nth:
  assumes "sorted_wrt (\<lambda>a b. key b < key a) xs" "j < length xs"
  shows "filter (\<lambda>r. key r < (key (xs ! j) :: int)) xs = drop (Suc j) xs"
  using assms
proof (induction xs arbitrary: j)
  case (Cons x xs)
  show ?case
  proof (cases j)
    case 0
    with Cons.prems show ?thesis by (auto simp: filter_id_conv)
  next
    case (Suc i)
    with Cons.prems have "i < length xs" by simp
    with Cons.prems(1) have "key (xs ! i) < key x" by simp
    then have "\<not> key x < key (xs ! i)" by simp
    with Cons Suc show ?thesis by simp
  qed
qed simp

lemma below_cursor_next:
  assumes srt: "sorted_wrt (\<lambda>a b. key b < key a) xs"
    and n: "0 < n" "n < length (below_cursor key c xs)"
    and nxt: "nxt = key (last (take n (below_cursor key c xs)))" "0 < nxt"
  shows "below_cursor key nxt xs = drop n (below_cursor key c xs)"
proof -
  let ?ys = "below_cursor key c xs"
  have ys: "sorted_wrt (\<lambda>a b. key b < key a) ?ys"
    using srt by (simp add: below_cursor_def sorted_wrt_filter)
  have "last (take n ?ys) = ?ys ! (n - 1)"
    using n by (subst last_conv_nth) (auto simp: min_def)
  then have k: "nxt = key (?ys ! (n - 1))" using nxt by simp
  have "?ys ! (n - 1) \<in> set ?ys" using n by (intro nth_mem) simp
  then have "c > 0 \<longrightarrow> nxt < c" using k by (auto simp: below_cursor_def)
  then have "below_cursor key nxt xs = filter (\<lambda>r. key r < nxt) ?ys"
    using nxt(2) by (auto simp: below_cursor_def intro: filter_cong)
  also have "\<dots> = drop n ?ys"
    using filter_below_nth [OF ys, of "n - 1"] n k by simp
  finally show ?thesis .
qed

locale paged_listing =
  fixes page :: "'s \<Rightarrow> int \<Rightarrow> 'r list \<times> int"
    and listing :: "'s \<Rightarrow> 'r list"
    and key :: "'r \<Rightarrow> int"
    and limit :: "'s \<Rightarrow> nat"
    and invar :: "'s \<Rightarrow> bool"
  assumes limit_pos: "0 < limit s"
    and newest_first: "invar s \<Longrightarrow> sorted_wrt (\<lambda>a b. key b < key a) (listing s)"
    and key_pos: "invar s \<Longrightarrow> r \<in> set (listing s) \<Longrightarrow> 0 < key r"
    and page_eq: "invar s \<Longrightarrow> page s c =
      (let rest = below_cursor key c (listing s)
       in if limit s < length rest then (take (limit s) rest, key (last (take (limit s) rest)))
          else (rest, 0))"
begin

lemma page_bounded: "invar s \<Longrightarrow> length (fst (page s c)) \<le> limit s"
  by (simp add: page_eq Let_def)

lemma walk_rest:
  "invar s \<Longrightarrow> length (below_cursor key c (listing s)) < n \<Longrightarrow>
   walk_pages (page s) n c = below_cursor key c (listing s)"
proof (induction n arbitrary: c)
  case (Suc n)
  let ?rest = "below_cursor key c (listing s)"
  show ?case
  proof (cases "limit s < length ?rest")
    case False
    with Suc.prems show ?thesis by (simp add: page_eq Let_def)
  next
    case True
    let ?nxt = "key (last (take (limit s) ?rest))"
    have ne: "take (limit s) ?rest \<noteq> []" using True limit_pos [of s] by auto
    then have "last (take (limit s) ?rest) \<in> set ?rest"
      by (meson in_set_takeD last_in_set)
    then have pos: "0 < ?nxt" using key_pos [OF Suc.prems(1)] by (auto simp: below_cursor_def)
    have nxt: "below_cursor key ?nxt (listing s) = drop (limit s) ?rest"
      using newest_first [OF Suc.prems(1)] limit_pos True pos by (intro below_cursor_next) auto
    have "walk_pages (page s) n ?nxt = drop (limit s) ?rest"
      using Suc.IH [OF Suc.prems(1), of ?nxt] Suc.prems(2) limit_pos [of s] True
      unfolding nxt by simp
    moreover have "page s c = (take (limit s) ?rest, ?nxt)"
      using True Suc.prems(1) by (simp add: page_eq Let_def)
    ultimately show ?thesis using pos by simp
  qed
qed simp

lemma walk_complete:
  "invar s \<Longrightarrow> length (listing s) < n \<Longrightarrow> walk_pages (page s) n 0 = listing s"
  using walk_rest [of s 0 n] by (simp add: below_cursor_def)

end

end
