(* ===== verification/Run_Store.thy ===== *)
theory Run_Store
  imports Database Paging
begin

text \<open>
  The \<open>runs\<close> table: \<open>internal/store/runs.go\<close>, \<open>reap.go\<close> and \<open>InsertSkippedRun\<close> of
  \<open>schedules.go\<close>. \<open>now\<close> is the text the SQL clock expression produces and \<open>flt\<close> the
  fault the driver reports.
\<close>

subsection \<open>Operations\<close>

definition terminal :: "run_status \<Rightarrow> bool" where
  "terminal s \<longleftrightarrow> s \<in> {Done, Failed, Canceled, Skipped}"

definition run_active :: "run \<Rightarrow> bool" where
  "run_active r \<longleftrightarrow> run_state r \<in> {Queued, Running}"

definition schedule_exists :: "db \<Rightarrow> int option \<Rightarrow> bool" where
  "schedule_exists d sid \<longleftrightarrow>
     (case sid of None \<Rightarrow> True | Some s \<Rightarrow> \<exists>r\<in>set (rows (schedules_t d)). s_id r = s)"

definition CreateRun :: "fault \<Rightarrow> db \<Rightarrow> trigger \<Rightarrow> int option \<Rightarrow> db \<times> int res" where
  "CreateRun flt d trig sid =
     (case flt of
        Some e \<Rightarrow> (d, Inl (ErrDB e))
      | None \<Rightarrow>
          if \<not> schedule_exists d sid then (d, Inl (ErrDB ''FOREIGN KEY constraint failed''))
          else (d\<lparr>runs_t := insert_row
                  (\<lambda>i. \<lparr>run_id = i, run_schedule_id = sid, run_trigger = trig, run_state = Queued,
                        run_started_at = None, run_finished_at = None, run_error = None\<rparr>) (runs_t d)\<rparr>,
                Inr (seq (runs_t d) + 1)))"

definition InsertSkippedRun :: "fault \<Rightarrow> string \<Rightarrow> db \<Rightarrow> int \<Rightarrow> string \<Rightarrow> db \<times> int res" where
  "InsertSkippedRun flt now d sid reason =
     (case flt of
        Some e \<Rightarrow> (d, Inl (ErrDB e))
      | None \<Rightarrow>
          if \<not> schedule_exists d (Some sid) then (d, Inl (ErrDB ''FOREIGN KEY constraint failed''))
          else (d\<lparr>runs_t := insert_row
                  (\<lambda>i. \<lparr>run_id = i, run_schedule_id = Some sid, run_trigger = Cron, run_state = Skipped,
                        run_started_at = Some now, run_finished_at = Some now,
                        run_error = nullString reason\<rparr>) (runs_t d)\<rparr>,
                Inr (seq (runs_t d) + 1)))"

definition GetRun :: "fault \<Rightarrow> db \<Rightarrow> int \<Rightarrow> run res" where
  "GetRun flt d i =
     (case flt of
        Some e \<Rightarrow> Inl (ErrDB e)
      | None \<Rightarrow> (case find (\<lambda>r. run_id r = i) (rows (runs_t d)) of
                   None \<Rightarrow> Inl ErrNotFound | Some r \<Rightarrow> Inr r))"

text \<open>The \<open>SET\<close> clause of \<open>SetRunStatus\<close>.\<close>

definition set_status :: "string \<Rightarrow> run_status \<Rightarrow> string \<Rightarrow> run \<Rightarrow> run" where
  "set_status now status errMsg r =
     (let r1 = r\<lparr>run_state := status, run_error := coalesce (nullString errMsg) (run_error r)\<rparr>
      in if status = Running then r1\<lparr>run_started_at := coalesce (run_started_at r1) (Some now)\<rparr>
         else if terminal status then r1\<lparr>run_finished_at := Some now\<rparr>
         else r1)"

definition SetRunStatus ::
  "fault \<Rightarrow> string \<Rightarrow> db \<Rightarrow> int \<Rightarrow> run_status \<Rightarrow> string \<Rightarrow> db \<times> unit res" where
  "SetRunStatus flt now d i status errMsg =
     (case flt of
        Some e \<Rightarrow> (d, Inl (ErrDB e))
      | None \<Rightarrow>
          let P = (\<lambda>r. run_id r = i \<and> \<not> terminal (run_state r)) in
          if affected P (rows (runs_t d)) > 0
          then (d\<lparr>runs_t := map_rows (update_where P (set_status now status errMsg)) (runs_t d)\<rparr>, Inr ())
          else (case GetRun None d i of
                  Inl e \<Rightarrow> (d, Inl e)
                | Inr cur \<Rightarrow> if terminal (run_state cur) then (d, Inl ErrInvalidTransition)
                             else (d, Inl (ErrDB ''set run status: no rows updated''))))"

definition QueuedRunForSchedule :: "fault \<Rightarrow> db \<Rightarrow> int \<Rightarrow> int option res" where
  "QueuedRunForSchedule flt d sid =
     (case flt of
        Some e \<Rightarrow> Inl (ErrDB e)
      | None \<Rightarrow> Inr (map_option run_id
                  (find (\<lambda>r. run_schedule_id r = Some sid \<and> run_active r)
                     (rev (sort_key run_id (rows (runs_t d)))))))"

definition ReapOrphanedRuns :: "fault \<Rightarrow> string \<Rightarrow> db \<Rightarrow> db \<times> nat res" where
  "ReapOrphanedRuns flt now d =
     (case flt of
        Some e \<Rightarrow> (d, Inl (ErrDB e))
      | None \<Rightarrow>
          (d\<lparr>runs_t := map_rows (update_where run_active
               (\<lambda>r. r\<lparr>run_state := Failed, run_error := Some ''interrupted by restart'',
                      run_finished_at := Some now\<rparr>)) (runs_t d)\<rparr>,
           Inr (affected run_active (rows (runs_t d)))))"

definition clampLimit :: "int \<Rightarrow> int" where
  "clampLimit limit = (if limit \<le> 0 then 50 else if limit > 500 then 500 else limit)"

record run_filter =
  rf_schedule_id :: "int option"
  rf_limit :: int
  rf_cursor :: int

definition run_matches :: "run_filter \<Rightarrow> run \<Rightarrow> bool" where
  "run_matches f r \<longleftrightarrow>
     (rf_cursor f > 0 \<longrightarrow> run_id r < rf_cursor f) \<and>
     (case rf_schedule_id f of None \<Rightarrow> True | Some s \<Rightarrow> run_schedule_id r = Some s)"

definition ListRuns :: "fault \<Rightarrow> db \<Rightarrow> run_filter \<Rightarrow> (run list \<times> int) res" where
  "ListRuns flt d f =
     (case flt of
        Some e \<Rightarrow> Inl (ErrDB e)
      | None \<Rightarrow>
          let limit = nat (clampLimit (rf_limit f));
              out = take (limit + 1) (rev (sort_key run_id (filter (run_matches f) (rows (runs_t d)))))
          in if length out > limit
             then Inr (take limit out, run_id (last (take limit out)))
             else Inr (out, 0))"

definition has_results :: "db \<Rightarrow> run \<Rightarrow> bool" where
  "has_results d r \<longleftrightarrow> (\<exists>x\<in>set (rows (results_t d)). res_run_id x = Some (run_id r))"

definition prunable_run :: "db \<Rightarrow> string \<Rightarrow> run \<Rightarrow> bool" where
  "prunable_run d cutoff r \<longleftrightarrow>
     (case coalesce (run_finished_at r) (run_started_at r) of None \<Rightarrow> False | Some t \<Rightarrow> t < cutoff) \<and>
     terminal (run_state r) \<and> \<not> has_results d r"

definition PruneRunsBefore :: "fault \<Rightarrow> db \<Rightarrow> string \<Rightarrow> int \<Rightarrow> db \<times> nat res" where
  "PruneRunsBefore flt d cutoff batch =
     (case flt of
        Some e \<Rightarrow> (d, Inl (ErrDB e))
      | None \<Rightarrow>
          let b = (if batch \<le> 0 then 1000 else nat batch);
              ids = map run_id (take b (sort_key run_id
                      (filter (prunable_run d cutoff) (rows (runs_t d)))));
              hit = (\<lambda>r. run_id r \<in> set ids)
          in ((delete_results (\<lambda>x. \<exists>i\<in>set ids. res_run_id x = Some i) d)
                \<lparr>runs_t := map_rows (delete_where hit) (runs_t d)\<rparr>,
              Inr (affected hit (rows (runs_t d)))))"

subsection \<open>Statuses\<close>

lemma terminal_iff [status_simps]:
  "terminal Queued = False" "terminal Running = False" "terminal Done = True"
  "terminal Failed = True" "terminal Canceled = True" "terminal Skipped = True"
  by (simp_all add: terminal_def)

lemma run_active_iff: "run_active r \<longleftrightarrow> \<not> terminal (run_state r)"
  by (cases "run_state r") (simp_all add: run_active_def terminal_def)

lemma set_status_sel [simp]:
  "run_id (set_status now st m r) = run_id r"
  "run_schedule_id (set_status now st m r) = run_schedule_id r"
  "run_trigger (set_status now st m r) = run_trigger r"
  "run_state (set_status now st m r) = st"
  by (auto simp: set_status_def Let_def)

subsection \<open>The abstract view: status and schedule of every run\<close>

text \<open>
  What the runner and the scheduler rely on: a partial map from run ids to the run's status
  and schedule.
\<close>

type_synonym run_view = "int \<rightharpoonup> run_status \<times> int option"

definition run_view :: "db \<Rightarrow> run_view" where
  "run_view d i = map_option (\<lambda>r. (run_state r, run_schedule_id r))
                    (find (\<lambda>r. run_id r = i) (rows (runs_t d)))"

definition runs_ok :: "db \<Rightarrow> bool" where
  "runs_ok d \<longleftrightarrow> tbl_ok run_id (runs_t d)"

lemma runs_ok_distinct: "runs_ok d \<Longrightarrow> distinct (map run_id (rows (runs_t d)))"
  by (auto simp: runs_ok_def intro: tbl_ok_distinct)

lemma run_view_iff:
  assumes "runs_ok d"
  shows "run_view d i = Some (st, sid) \<longleftrightarrow>
     (\<exists>r\<in>set (rows (runs_t d)). run_id r = i \<and> run_state r = st \<and> run_schedule_id r = sid)"
proof -
  have "find (\<lambda>r. run_id r = i) (rows (runs_t d)) = Some r \<longleftrightarrow> r \<in> set (rows (runs_t d)) \<and> run_id r = i" for r
    by (rule find_key_iff [OF runs_ok_distinct [OF assms]])
  then show ?thesis by (auto simp: run_view_def)
qed

lemma run_view_None: "run_view d i = None \<longleftrightarrow> (\<forall>r\<in>set (rows (runs_t d)). run_id r \<noteq> i)"
  by (auto simp: run_view_def find_None)

lemma run_view_bound: "runs_ok d \<Longrightarrow> run_view d i \<noteq> None \<Longrightarrow> 0 < i \<and> i \<le> seq (runs_t d)"
  by (auto simp: run_view_None runs_ok_def tbl_ok_def ids_below_def)

lemma run_view_runs_t: "runs_t d' = runs_t d \<Longrightarrow> run_view d' = run_view d"
  by (rule ext) (simp add: run_view_def)

lemma runs_ok_runs_t: "runs_t d' = runs_t d \<Longrightarrow> runs_ok d' = runs_ok d"
  by (simp add: runs_ok_def)

text \<open>A fresh row at the end of the table.\<close>

lemma run_view_insert:
  assumes "runs_ok d" "run_id (mk (seq (runs_t d) + 1)) = seq (runs_t d) + 1"
  defines "r \<equiv> mk (seq (runs_t d) + 1)"
  shows "run_view (d\<lparr>runs_t := insert_row mk (runs_t d)\<rparr>) =
         (run_view d)(seq (runs_t d) + 1 \<mapsto> (run_state r, run_schedule_id r))"
    and "runs_ok (d\<lparr>runs_t := insert_row mk (runs_t d)\<rparr>)"
proof -
  have new: "find (\<lambda>x. run_id x = seq (runs_t d) + 1) (rows (runs_t d)) = None"
    using assms(1) tbl_ok_fresh [of run_id "runs_t d"] by (fastforce simp: find_None runs_ok_def)
  show "run_view (d\<lparr>runs_t := insert_row mk (runs_t d)\<rparr>) =
         (run_view d)(seq (runs_t d) + 1 \<mapsto> (run_state r, run_schedule_id r))"
    using new assms(2) by (auto simp: run_view_def find_append r_def split: option.splits)
  show "runs_ok (d\<lparr>runs_t := insert_row mk (runs_t d)\<rparr>)"
    using assms(1,2) by (simp add: runs_ok_def tbl_ok_insert_row)
qed

lemma CreateRun_ok:
  assumes "runs_ok d" "CreateRun flt d trig sid = (d', Inr i)"
  shows "i = seq (runs_t d) + 1" "run_view d i = None"
    "run_view d' = (run_view d)(i \<mapsto> (Queued, sid))" "runs_ok d'" "seq (runs_t d') = i"
proof -
  from assms(2) have flt: "flt = None" "schedule_exists d sid"
    and i: "i = seq (runs_t d) + 1"
    and d': "d' = d\<lparr>runs_t := insert_row
                  (\<lambda>i. \<lparr>run_id = i, run_schedule_id = sid, run_trigger = trig, run_state = Queued,
                        run_started_at = None, run_finished_at = None, run_error = None\<rparr>) (runs_t d)\<rparr>"
    by (auto simp: CreateRun_def split: option.splits if_splits)
  show "i = seq (runs_t d) + 1" by (fact i)
  show "run_view d i = None"
    using run_view_bound [OF assms(1), of i] i by (cases "run_view d i") auto
  show "run_view d' = (run_view d)(i \<mapsto> (Queued, sid))" "runs_ok d'"
    unfolding d' i using run_view_insert [OF assms(1)] by simp_all
  show "seq (runs_t d') = i" by (simp add: d' i)
qed

lemma CreateRun_err: "CreateRun flt d trig sid = (d', Inl e) \<Longrightarrow> d' = d"
  by (auto simp: CreateRun_def split: option.splits if_splits)

lemma InsertSkippedRun_ok:
  assumes "runs_ok d" "InsertSkippedRun flt now d sid reason = (d', Inr i)"
  shows "i = seq (runs_t d) + 1" "run_view d' = (run_view d)(i \<mapsto> (Skipped, Some sid))"
    "runs_ok d'" "seq (runs_t d') = i"
proof -
  from assms(2) have i: "i = seq (runs_t d) + 1"
    and d': "d' = d\<lparr>runs_t := insert_row
                  (\<lambda>i. \<lparr>run_id = i, run_schedule_id = Some sid, run_trigger = Cron, run_state = Skipped,
                        run_started_at = Some now, run_finished_at = Some now,
                        run_error = nullString reason\<rparr>) (runs_t d)\<rparr>"
    by (auto simp: InsertSkippedRun_def split: option.splits if_splits)
  show "i = seq (runs_t d) + 1" by (fact i)
  show "run_view d' = (run_view d)(i \<mapsto> (Skipped, Some sid))" "runs_ok d'"
    unfolding d' i using run_view_insert [OF assms(1)] by simp_all
  show "seq (runs_t d') = i" by (simp add: d' i)
qed

lemma InsertSkippedRun_err: "InsertSkippedRun flt now d sid reason = (d', Inl e) \<Longrightarrow> d' = d"
  by (auto simp: InsertSkippedRun_def split: option.splits if_splits)

subsection \<open>The contract of status writes\<close>

text \<open>
  The interface the runner programs against: a status write either faults and changes
  nothing, or meets a missing run, a terminal run, or an active run, and only in the last
  case changes the view, at that run alone.
\<close>

locale run_status_store =
  fixes view :: "'d \<Rightarrow> run_view"
    and invar :: "'d \<Rightarrow> bool"
    and set :: "fault \<Rightarrow> string \<Rightarrow> 'd \<Rightarrow> int \<Rightarrow> run_status \<Rightarrow> string \<Rightarrow> 'd \<times> unit res"
  assumes set_fault: "set (Some e) now d i st m = (d, Inl (ErrDB e))"
    and set_missing: "invar d \<Longrightarrow> view d i = None \<Longrightarrow> set None now d i st m = (d, Inl ErrNotFound)"
    and set_terminal: "invar d \<Longrightarrow> view d i = Some (s0, sid) \<Longrightarrow> terminal s0 \<Longrightarrow>
      set None now d i st m = (d, Inl ErrInvalidTransition)"
    and set_active: "invar d \<Longrightarrow> view d i = Some (s0, sid) \<Longrightarrow> \<not> terminal s0 \<Longrightarrow>
      \<exists>d'. set None now d i st m = (d', Inr ()) \<and> invar d' \<and> view d' = (view d)(i \<mapsto> (st, sid))"
begin

lemma set_cases:
  assumes "invar d" "set flt now d i st m = (d', r)"
  obtains (err) e where "r = Inl e" "d' = d"
  | (ok) s0 sid where "r = Inr ()" "flt = None" "view d i = Some (s0, sid)" "\<not> terminal s0"
      "invar d'" "view d' = (view d)(i \<mapsto> (st, sid))"
proof (cases flt)
  case (Some e)
  with assms(2) set_fault show ?thesis by (auto intro: err)
next
  case None
  show ?thesis
  proof (cases "view d i")
    case None
    from set_missing [OF assms(1) this] assms(2) \<open>flt = None\<close> show ?thesis by (auto intro: err)
  next
    case (Some v)
    obtain s0 sid where v: "view d i = Some (s0, sid)" using Some by (cases v) auto
    show ?thesis
    proof (cases "terminal s0")
      case True
      from set_terminal [OF assms(1) v True] assms(2) \<open>flt = None\<close> show ?thesis by (auto intro: err)
    next
      case False
      from set_active [OF assms(1) v False] assms(2) \<open>flt = None\<close> v False show ?thesis
        by (metis Pair_inject ok)
    qed
  qed
qed

lemma set_invar: "invar d \<Longrightarrow> invar (fst (set flt now d i st m))"
  by (metis prod.collapse set_cases)

lemma set_keeps_terminal:
  assumes "invar d" "view d j = Some (s, sid)" "terminal s"
  shows "view (fst (set flt now d i st m)) j = Some (s, sid)"
proof -
  obtain d' r where eq: "set flt now d i st m = (d', r)" by (cases "set flt now d i st m")
  from assms(1) eq show ?thesis
  proof (cases rule: set_cases)
    case (ok s0 sid')
    with assms have "j \<noteq> i" by auto
    with ok assms eq show ?thesis by simp
  qed (use assms eq in auto)
qed

lemma set_keeps_others:
  assumes "invar d" "j \<noteq> i"
  shows "view (fst (set flt now d i st m)) j = view d j"
proof -
  obtain d' r where eq: "set flt now d i st m = (d', r)" by (cases "set flt now d i st m")
  from assms(1) eq show ?thesis
    by (cases rule: set_cases) (use assms eq in auto)
qed

end

lemma SetRunStatus_update:
  fixes now m :: string and st :: run_status
  assumes ok: "runs_ok d" and v: "run_view d i = Some (s0, sid)" and act: "\<not> terminal s0"
  defines "d' \<equiv> d\<lparr>runs_t := map_rows (update_where (\<lambda>r. run_id r = i \<and> \<not> terminal (run_state r))
                 (set_status now st m)) (runs_t d)\<rparr>"
  shows "SetRunStatus None now d i st m = (d', Inr ())"
    and "runs_ok d'" and "run_view d' = (run_view d)(i \<mapsto> (st, sid))" and "seq (runs_t d') = seq (runs_t d)"
proof -
  from v run_view_iff [OF ok] obtain r where r: "r \<in> set (rows (runs_t d))" "run_id r = i"
    "run_state r = s0" "run_schedule_id r = sid" by auto
  with act show "SetRunStatus None now d i st m = (d', Inr ())"
    by (auto simp: SetRunStatus_def d'_def Let_def)
  show "runs_ok d'" using ok by (simp add: runs_ok_def d'_def tbl_ok_update)
  show "seq (runs_t d') = seq (runs_t d)" by (simp add: d'_def)
  have f: "find (\<lambda>x. run_id x = i) (rows (runs_t d)) = Some r"
    using find_key_distinct [OF runs_ok_distinct [OF ok] r(1,2)] .
  show "run_view d' = (run_view d)(i \<mapsto> (st, sid))"
  proof
    fix j
    show "run_view d' j = ((run_view d)(i \<mapsto> (st, sid))) j"
    proof (cases "j = i")
      case True
      then show ?thesis using f r act
        by (simp add: run_view_def d'_def find_update_where)
    next
      case False
      then show ?thesis
        by (cases "find (\<lambda>x. run_id x = j) (rows (runs_t d))")
           (auto simp: run_view_def d'_def find_update_where dest: find_SomeD)
    qed
  qed
qed

interpretation rs: run_status_store run_view runs_ok SetRunStatus
proof
  show "SetRunStatus (Some e) now d i st m = (d, Inl (ErrDB e))" for e now d i st m
    by (simp add: SetRunStatus_def)
  show "SetRunStatus None now d i st m = (d, Inl ErrNotFound)"
    if "runs_ok d" "run_view d i = None" for d now i st m
  proof -
    have "find (\<lambda>r. run_id r = i) (rows (runs_t d)) = None"
      using that(2) by (auto simp: run_view_def)
    then show ?thesis using that(2) by (auto simp: SetRunStatus_def GetRun_def Let_def run_view_None)
  qed
  show "SetRunStatus None now d i st m = (d, Inl ErrInvalidTransition)"
    if "runs_ok d" "run_view d i = Some (s0, sid)" "terminal s0" for d now i st m s0 sid
  proof -
    from that(2) run_view_iff [OF that(1)]
    obtain r where r: "r \<in> set (rows (runs_t d))" "run_id r = i" "run_state r = s0"
      by auto
    from that(1) have dist: "distinct (map run_id (rows (runs_t d)))" by (rule runs_ok_distinct)
    have f: "find (\<lambda>x. run_id x = i) (rows (runs_t d)) = Some r"
      using find_key_distinct [OF dist r(1,2)] .
    have uniq: "x = r" if "x \<in> set (rows (runs_t d))" "run_id x = i" for x
      using find_key_distinct [OF dist that] f by simp
    have "\<not> (\<exists>x\<in>set (rows (runs_t d)). run_id x = i \<and> \<not> terminal (run_state x))"
    proof
      assume "\<exists>x\<in>set (rows (runs_t d)). run_id x = i \<and> \<not> terminal (run_state x)"
      then obtain x where x: "x \<in> set (rows (runs_t d))" "run_id x = i" "\<not> terminal (run_state x)" by blast
      from uniq [OF x(1,2)] x(3) r(3) that(3) show False by simp
    qed
    then show ?thesis using f r(3) that(3)
      by (simp add: SetRunStatus_def GetRun_def Let_def del: bex_simps)
  qed
  show "\<exists>d'. SetRunStatus None now d i st m = (d', Inr ()) \<and> runs_ok d' \<and>
          run_view d' = (run_view d)(i \<mapsto> (st, sid))"
    if "runs_ok d" "run_view d i = Some (s0, sid)" "\<not> terminal s0" for d now i st m s0 sid
    using SetRunStatus_update(1-3) [OF that, of now st m] by (intro exI conjI)
qed

subsection \<open>Listing runs\<close>

definition runs_page :: "db \<times> run_filter \<Rightarrow> int \<Rightarrow> run list \<times> int" where
  "runs_page s c = (case ListRuns None (fst s) ((snd s)\<lparr>rf_cursor := c\<rparr>) of Inr p \<Rightarrow> p | Inl e \<Rightarrow> ([], 0))"

definition runs_listing :: "db \<times> run_filter \<Rightarrow> run list" where
  "runs_listing s = rev (filter (run_matches ((snd s)\<lparr>rf_cursor := 0\<rparr>)) (rows (runs_t (fst s))))"

lemma ids_sorted_wrt: "ids_below key n rs \<Longrightarrow> sorted_wrt (\<lambda>a b. key a < key b) rs"
  by (simp add: ids_below_def sorted_wrt_map)

lemma sort_key_ids:
  assumes "ids_below key n rs"
  shows "sort_key key (filter P rs) = filter P rs"
proof -
  from assms have "ids_below key n (filter P rs)" by (rule ids_below_filter)
  then have "sorted (map key (filter P rs))" by (simp add: ids_below_def strict_sorted_iff)
  then show ?thesis by (rule sort_key_id_if_sorted)
qed

lemma runs_ids_below: "runs_ok d \<Longrightarrow> ids_below run_id (seq (runs_t d)) (rows (runs_t d))"
  by (simp add: runs_ok_def tbl_ok_def)

lemma clampLimit_bounds: "1 \<le> clampLimit l \<and> clampLimit l \<le> 500"
  by (auto simp: clampLimit_def)

lemma filter_run_matches_cursor:
  "filter (run_matches (f\<lparr>rf_cursor := c\<rparr>)) rs =
   below_cursor run_id c (filter (run_matches (f\<lparr>rf_cursor := 0\<rparr>)) rs)"
  by (auto simp: below_cursor_def run_matches_def intro: filter_cong)

lemma below_cursor_rev: "below_cursor key c (rev xs) = rev (below_cursor key c xs)"
  by (simp add: below_cursor_def rev_filter)

interpretation runs_list: paged_listing runs_page runs_listing run_id
  "\<lambda>s. nat (clampLimit (rf_limit (snd s)))" "\<lambda>s. runs_ok (fst s)"
proof
  show "0 < nat (clampLimit (rf_limit (snd s)))" for s :: "db \<times> run_filter"
    using clampLimit_bounds [of "rf_limit (snd s)"] by simp
  show "sorted_wrt (\<lambda>a b. run_id b < run_id a) (runs_listing s)" if "runs_ok (fst s)" for s
    using ids_sorted_wrt [OF runs_ids_below [OF that]]
    by (simp add: runs_listing_def sorted_wrt_rev sorted_wrt_filter)
  show "0 < run_id r" if "runs_ok (fst s)" "r \<in> set (runs_listing s)" for s r
    using runs_ids_below [OF that(1)] that(2) by (auto simp: runs_listing_def ids_below_def)
  show "runs_page s c =
      (let rest = below_cursor run_id c (runs_listing s)
       in if nat (clampLimit (rf_limit (snd s))) < length rest
          then (take (nat (clampLimit (rf_limit (snd s)))) rest,
                run_id (last (take (nat (clampLimit (rf_limit (snd s)))) rest)))
          else (rest, 0))"
    if "runs_ok (fst s)" for s c
  proof -
    obtain d f where s: "s = (d, f)" by (cases s)
    have "sort_key run_id (filter (run_matches (f\<lparr>rf_cursor := c\<rparr>)) (rows (runs_t d)))
        = filter (run_matches (f\<lparr>rf_cursor := c\<rparr>)) (rows (runs_t d))"
      using sort_key_ids [OF runs_ids_below] that s by simp
    then have rest: "rev (sort_key run_id (filter (run_matches (f\<lparr>rf_cursor := c\<rparr>)) (rows (runs_t d))))
        = below_cursor run_id c (runs_listing s)"
      by (simp add: s runs_listing_def filter_run_matches_cursor [where f = f and c = c] below_cursor_rev)
    show ?thesis
      unfolding runs_page_def ListRuns_def s fst_conv snd_conv
      by (simp add: rest [unfolded s] Let_def min_def)
  qed
qed

subsection \<open>Properties of the runs table\<close>

lemma GetRun_SetRunStatus_terminal:
  assumes "GetRun None d i = Inr r" "terminal (run_state r)"
  shows "GetRun None (fst (SetRunStatus flt now d j st m)) i = Inr r"
  using assms
  by (auto simp: GetRun_def SetRunStatus_def Let_def find_update_where
      split: option.splits sum.splits)

text \<open>Once a run has a terminal status, no sequence of status writes, by whatever caller,
  to whatever run, with whatever faults, changes anything of its row: its status, timestamps
  and error message are final.\<close>

theorem terminal_run_is_final:
  assumes "GetRun None d i = Inr r" and "terminal (run_state r)"
  shows "GetRun None (fold (\<lambda>(flt, now, j, st, m) d. fst (SetRunStatus flt now d j st m)) ws d) i = Inr r"
  using assms
proof (induction ws arbitrary: d)
  case (Cons w ws)
  obtain flt now j st m where w: "w = (flt, now, j, st, m)" by (cases w)
  show ?case
    using Cons.IH [OF GetRun_SetRunStatus_terminal [OF Cons.prems] Cons.prems(2)] by (simp add: w)
qed simp

definition demo_run :: "int \<Rightarrow> int option \<Rightarrow> run_status \<Rightarrow> run" where
  "demo_run i sid st = \<lparr>run_id = i, run_schedule_id = sid, run_trigger = Cron, run_state = st,
     run_started_at = Some ''2026-01-01T00:00:00.000Z'', run_finished_at = None, run_error = None\<rparr>"

definition demo_runs_db :: db where
  "demo_runs_db = empty_db\<lparr>runs_t := \<lparr>rows = [demo_run 1 (Some 7) Done, demo_run 2 (Some 7) Running,
     demo_run 3 None Queued], seq = 3\<rparr>\<rparr>"

lemma demo_runs_ok: "runs_ok demo_runs_db"
  by (simp add: runs_ok_def tbl_ok_def ids_below_def demo_runs_db_def demo_run_def)

theorem terminal_run_is_final_witness:
  "GetRun None (fold (\<lambda>(flt, now, j, st, m) d. fst (SetRunStatus flt now d j st m))
     [(None, ''t'', 1, Running, ''''), (Some ''busy'', ''t'', 2, Done, ''x''), (None, ''t'', 1, Canceled, ''y'')]
     demo_runs_db) 1 = Inr (demo_run 1 (Some 7) Done)"
proof -
  have "GetRun None demo_runs_db 1 = Inr (demo_run 1 (Some 7) Done)"
    by (simp add: GetRun_def demo_runs_db_def demo_run_def)
  moreover have "terminal (run_state (demo_run 1 (Some 7) Done))"
    by (simp add: demo_run_def status_simps)
  ultimately show ?thesis by (rule terminal_run_is_final)
qed

text \<open>A status write has exactly three outcomes when the database answers. A missing run is
  \<open>ErrNotFound\<close> and a terminal one \<open>ErrInvalidTransition\<close>, both without any change;
  otherwise the write succeeds and changes that run's row alone. The defensive "no rows
  updated" error is never returned.\<close>

theorem SetRunStatus_outcomes:
  assumes "runs_ok d"
  shows "SetRunStatus None now d i st m =
     (case GetRun None d i of
        Inl e \<Rightarrow> (d, Inl ErrNotFound)
      | Inr r \<Rightarrow> if terminal (run_state r) then (d, Inl ErrInvalidTransition)
                 else (d\<lparr>runs_t := map_rows (update_where (\<lambda>x. run_id x = i) (set_status now st m)) (runs_t d)\<rparr>,
                       Inr ()))"
proof (cases "find (\<lambda>r. run_id r = i) (rows (runs_t d))")
  case None
  then have "run_view d i = None" by (simp add: run_view_def)
  from rs.set_missing [OF assms this] None show ?thesis by (simp add: GetRun_def)
next
  case (Some r)
  then have v: "run_view d i = Some (run_state r, run_schedule_id r)" by (simp add: run_view_def)
  show ?thesis
  proof (cases "terminal (run_state r)")
    case True
    from rs.set_terminal [OF assms v True] Some True show ?thesis by (simp add: GetRun_def)
  next
    case False
    have uniq: "x = r" if "x \<in> set (rows (runs_t d))" "run_id x = i" for x
      using find_key_distinct [OF runs_ok_distinct [OF assms] that] Some by simp
    have "update_where (\<lambda>r. run_id r = i \<and> \<not> terminal (run_state r)) f (rows (runs_t d)) =
          update_where (\<lambda>r. run_id r = i) f (rows (runs_t d))" for f :: "run \<Rightarrow> run"
      unfolding update_where_def using uniq False by (intro map_cong) auto
    then have "map_rows (update_where (\<lambda>r. run_id r = i \<and> \<not> terminal (run_state r)) f) (runs_t d) =
          map_rows (update_where (\<lambda>r. run_id r = i) f) (runs_t d)" for f :: "run \<Rightarrow> run"
      by (simp add: map_rows_def)
    with SetRunStatus_update(1) [OF assms v False] Some False show ?thesis
      by (simp add: GetRun_def)
  qed
qed

theorem SetRunStatus_outcomes_witness:
  "SetRunStatus None ''t'' demo_runs_db 1 Running '''' = (demo_runs_db, Inl ErrInvalidTransition) \<and>
   SetRunStatus None ''t'' demo_runs_db 9 Running '''' = (demo_runs_db, Inl ErrNotFound) \<and>
   snd (SetRunStatus None ''t'' demo_runs_db 3 Running '''') = Inr ()"
  unfolding SetRunStatus_outcomes [OF demo_runs_ok]
  by (simp add: GetRun_def demo_runs_db_def demo_run_def status_simps)

text \<open>The startup reaping resolves every run a dead process left behind. Afterwards every
  run has a terminal status, runs that were already terminal are untouched, and the count
  reported is the number of runs that were reaped.\<close>

theorem reap_resolves_all_runs:
  "(case ReapOrphanedRuns None now d of (d', r) \<Rightarrow>
      list_all (\<lambda>x. terminal (run_state x)) (rows (runs_t d')) \<and>
      filter (\<lambda>x. terminal (run_state x)) (rows (runs_t d)) =
        map snd (filter (\<lambda>(x, y). terminal (run_state x)) (zip (rows (runs_t d)) (rows (runs_t d')))) \<and>
      map run_id (rows (runs_t d')) = map run_id (rows (runs_t d)) \<and>
      r = Inr (length (filter run_active (rows (runs_t d)))))"
proof -
  define f where "f = (\<lambda>r::run. r\<lparr>run_state := Failed, run_error := Some ''interrupted by restart'',
                      run_finished_at := Some now\<rparr>)"
  have "filter (\<lambda>x. terminal (run_state x)) rs =
        map snd (filter (\<lambda>(x, y). terminal (run_state x)) (zip rs (update_where run_active f rs)))" for rs
    by (induction rs) (auto simp: update_where_def run_active_iff)
  moreover have "list_all (\<lambda>x. terminal (run_state x)) (update_where run_active f rs)" for rs
    by (induction rs) (auto simp: update_where_def run_active_iff f_def status_simps)
  moreover have "map run_id (update_where run_active f rs) = map run_id rs" for rs
    by (rule map_key_update_where) (simp add: f_def)
  ultimately show ?thesis by (simp add: ReapOrphanedRuns_def affected_def f_def [symmetric])
qed

text \<open>C7: paging through the run history with the returned cursors lists every run that matches
  the filter exactly once, newest first, whatever page size was asked for; each page holds at
  most 500 runs. A client that follows as many pages as there are runs, plus one, has seen all.\<close>

theorem runs_paging_complete:
  assumes "runs_ok d"
  shows "walk_pages (runs_page (d, f)) (length (rows (runs_t d)) + 1) 0 =
           rev (filter (run_matches (f\<lparr>rf_cursor := 0\<rparr>)) (rows (runs_t d))) \<and>
         length (fst (runs_page (d, f) c)) \<le> 500"
proof
  have "length (runs_listing (d, f)) < length (rows (runs_t d)) + 1"
    by (simp add: runs_listing_def le_imp_less_Suc)
  from runs_list.walk_complete [of "(d, f)", OF _ this] assms
  show "walk_pages (runs_page (d, f)) (length (rows (runs_t d)) + 1) 0 =
           rev (filter (run_matches (f\<lparr>rf_cursor := 0\<rparr>)) (rows (runs_t d)))"
    by (simp add: runs_listing_def)
  show "length (fst (runs_page (d, f) c)) \<le> 500"
    using runs_list.page_bounded [of "(d, f)" c] assms clampLimit_bounds [of "rf_limit f"] by auto
qed

theorem runs_paging_complete_witness:
  "runs_ok demo_runs_db \<and>
   walk_pages (runs_page (demo_runs_db, \<lparr>rf_schedule_id = None, rf_limit = 2, rf_cursor = 0\<rparr>)) 4 0 =
     [demo_run 3 None Queued, demo_run 2 (Some 7) Running, demo_run 1 (Some 7) Done]"
proof -
  have n: "length (rows (runs_t demo_runs_db)) + 1 = 4"
    and l: "rev (filter (run_matches \<lparr>rf_schedule_id = None, rf_limit = 2, rf_cursor = 0\<rparr>) (rows (runs_t demo_runs_db)))
      = [demo_run 3 None Queued, demo_run 2 (Some 7) Running, demo_run 1 (Some 7) Done]"
    by (simp_all add: demo_runs_db_def run_matches_def demo_run_def)
  show ?thesis
    using demo_runs_ok runs_paging_complete [OF demo_runs_ok,
        of "\<lparr>rf_schedule_id = None, rf_limit = 2, rf_cursor = 0\<rparr>" 0, unfolded n]
    by (simp only: l run_filter.simps simp_thms)
qed

subsection \<open>The newest active run of a schedule\<close>

lemma QueuedRunForSchedule_None:
  "QueuedRunForSchedule flt d sid = Inr None \<Longrightarrow> r \<in> set (rows (runs_t d)) \<Longrightarrow>
   run_schedule_id r = Some sid \<Longrightarrow> terminal (run_state r)"
  by (auto simp: QueuedRunForSchedule_def find_None run_active_iff split: option.splits)

lemma QueuedRunForSchedule_Some:
  "QueuedRunForSchedule flt d sid = Inr (Some i) \<Longrightarrow>
   \<exists>r\<in>set (rows (runs_t d)). run_id r = i \<and> run_schedule_id r = Some sid \<and> run_active r"
  by (auto simp: QueuedRunForSchedule_def split: option.splits dest!: find_SomeD)

end
