(* ===== verification/Result_Store.thy ===== *)
theory Result_Store
  imports Target_Store Run_Store
begin

text \<open>
  Results and their tags: \<open>internal/store/results.go\<close> and \<open>tags.go\<close>. The columns the Go
  code writes as NULL for an empty value (\<open>nullString\<close>) are read back as that empty value, so
  a row keeps the Go value. A listing leaves the raw engine output out and attaches the tag
  names with a second query.
\<close>

subsection \<open>Tags\<close>

definition ListTags :: "fault \<Rightarrow> db \<Rightarrow> tag list res" where
  "ListTags flt d =
     (case flt of Some e \<Rightarrow> Inl (ErrDB e) | None \<Rightarrow> Inr (sort_key tag_name (rows (tags_t d))))"

text \<open>The loop of \<open>normaliseTagNames\<close>: \<open>out\<close> holds the names seen so far.\<close>

fun normalise_loop :: "string list \<Rightarrow> string list \<Rightarrow> string list" where
  "normalise_loop out [] = out"
| "normalise_loop out (n # ns) =
     (let m = ToLower (TrimSpace n)
      in if m = [] \<or> m \<in> set out then normalise_loop out ns else normalise_loop (out @ [m]) ns)"

definition normaliseTagNames :: "string list \<Rightarrow> string list" where
  "normaliseTagNames names = sort (normalise_loop [] names)"

text \<open>One turn of the loop of \<open>SetResultTags\<close>: make sure the tag exists, then attach it. The insert that finds the name taken
  still uses up the id drawn for it.\<close>

definition ensure_tag :: "string \<Rightarrow> db \<Rightarrow> db" where
  "ensure_tag name d =
     d\<lparr>tags_t := (if \<exists>t\<in>set (rows (tags_t d)). tag_name t = name then (tags_t d)\<lparr>seq := seq (tags_t d) + 1\<rparr>
                  else insert_row (\<lambda>i. \<lparr>tag_id = i, tag_name = name\<rparr>) (tags_t d))\<rparr>"

definition attach_tag :: "int \<Rightarrow> string \<Rightarrow> db \<Rightarrow> db" where
  "attach_tag rid name d =
     (let d1 = ensure_tag name d
      in d1\<lparr>result_tags_t := result_tags_t d1 @
              map (\<lambda>t. (rid, tag_id t)) (filter (\<lambda>t. tag_name t = name) (rows (tags_t d1)))\<rparr>)"

definition SetResultTags :: "fault \<Rightarrow> db \<Rightarrow> int \<Rightarrow> string list \<Rightarrow> db \<times> string list res" where
  "SetResultTags flt d rid names =
     (let want = normaliseTagNames names in
      case flt of
        Some e \<Rightarrow> (d, Inl (ErrDB e))
      | None \<Rightarrow>
          if \<not> (\<exists>r\<in>set (rows (results_t d)). res_id r = rid) then (d, Inl ErrNotFound)
          else (fold (attach_tag rid) want
                  (d\<lparr>result_tags_t := filter (\<lambda>(r, t). r \<noteq> rid) (result_tags_t d)\<rparr>),
                Inr want))"

text \<open>The rows of the join of \<open>TagsForResults\<close>, in name order.\<close>

definition tag_rows :: "db \<Rightarrow> int list \<Rightarrow> (int \<times> string) list" where
  "tag_rows d ids =
     sort_key snd (concat (map (\<lambda>(r, t). if r \<in> set ids
        then map (\<lambda>x. (r, tag_name x)) (filter (\<lambda>x. tag_id x = t) (rows (tags_t d))) else [])
        (result_tags_t d)))"

definition TagsForResults :: "fault \<Rightarrow> db \<Rightarrow> int list \<Rightarrow> (int \<rightharpoonup> string list) res" where
  "TagsForResults flt d ids =
     (if ids = [] then Inr Map.empty
      else case flt of
             Some e \<Rightarrow> Inl (ErrDB e)
           | None \<Rightarrow> Inr (foldl (\<lambda>out (i, n). out(i \<mapsto> (case out i of None \<Rightarrow> [] | Some ns \<Rightarrow> ns) @ [n]))
                       Map.empty (tag_rows d ids)))"

definition RenameTag :: "fault \<Rightarrow> db \<Rightarrow> int \<Rightarrow> string \<Rightarrow> db \<times> tag res" where
  "RenameTag flt d i name =
     (case normaliseTagNames [name] of
        [] \<Rightarrow> (d, Inl (ErrDB ''tag name is empty''))
      | n # _ \<Rightarrow>
          (case flt of
             Some e \<Rightarrow> (d, Inl (ErrDB e))
           | None \<Rightarrow>
               if \<not> (\<exists>t\<in>set (rows (tags_t d)). tag_id t = i) then (d, Inl ErrNotFound)
               else if \<exists>t\<in>set (rows (tags_t d)). tag_id t \<noteq> i \<and> tag_name t = n then (d, Inl ErrNameConflict)
               else (d\<lparr>tags_t := map_rows (update_where (\<lambda>t. tag_id t = i) (\<lambda>t. t\<lparr>tag_name := n\<rparr>)) (tags_t d)\<rparr>,
                     Inr \<lparr>tag_id = i, tag_name = n\<rparr>)))"

definition DeleteTag :: "fault \<Rightarrow> db \<Rightarrow> int \<Rightarrow> db \<times> unit res" where
  "DeleteTag flt d i =
     (case flt of
        Some e \<Rightarrow> (d, Inl (ErrDB e))
      | None \<Rightarrow>
          if affected (\<lambda>t. tag_id t = i) (rows (tags_t d)) = 0 then (d, Inl ErrNotFound)
          else (d\<lparr>tags_t := map_rows (delete_where (\<lambda>t. tag_id t = i)) (tags_t d),
                  result_tags_t := filter (\<lambda>(r, t). t \<noteq> i) (result_tags_t d)\<rparr>, Inr ()))"

subsection \<open>Results\<close>

text \<open>What the API serves of a result: the row and the names of its tags.\<close>

record tagged_result = result + res_tags :: "string list"

definition with_tags :: "result \<Rightarrow> string list \<Rightarrow> tagged_result" where
  "with_tags r ts = result.extend r \<lparr>res_tags = ts\<rparr>"

text \<open>\<open>scanResultCols\<close>: the list columns leave the raw engine output out.\<close>

definition scanResultCols :: "bool \<Rightarrow> result \<Rightarrow> result" where
  "scanResultCols withRaw r = (if withRaw then r else r\<lparr>res_raw := RawEmpty\<rparr>)"

definition attachTags :: "fault \<Rightarrow> db \<Rightarrow> result list \<Rightarrow> tagged_result list res" where
  "attachTags flt d rs =
     (if rs = [] then Inr []
      else case TagsForResults flt d (map res_id rs) of
             Inl e \<Rightarrow> Inl e
           | Inr byID \<Rightarrow> Inr (map (\<lambda>r. with_tags r (case byID (res_id r) of None \<Rightarrow> [] | Some ts \<Rightarrow> ts)) rs))"

text \<open>The row an insert writes: options default to the empty document, and both references
  are foreign keys.\<close>

definition InsertResult :: "fault \<Rightarrow> db \<Rightarrow> result \<Rightarrow> db \<times> int res" where
  "InsertResult flt d r =
     (case flt of
        Some e \<Rightarrow> (d, Inl (ErrDB e))
      | None \<Rightarrow>
          if (case res_run_id r of None \<Rightarrow> False | Some i \<Rightarrow> \<not> (\<exists>x\<in>set (rows (runs_t d)). run_id x = i)) \<or>
             (case res_target_id r of None \<Rightarrow> False | Some i \<Rightarrow> \<not> (\<exists>x\<in>set (rows (targets_t d)). t_id x = i))
          then (d, Inl (ErrDB ''FOREIGN KEY constraint failed''))
          else (d\<lparr>results_t := insert_row
                  (\<lambda>i. r\<lparr>res_id := i, res_options_snapshot := rawOrEmpty (res_options_snapshot r)\<rparr>)
                  (results_t d)\<rparr>,
                Inr (seq (results_t d) + 1)))"

text \<open>The texts of the column \<open>status\<close>, which a filter compares.\<close>

fun status_text :: "result_status \<Rightarrow> string" where
  "status_text ROk = ''ok''"
| "status_text RFailed = ''failed''"
| "status_text RDegraded = ''degraded''"

record result_filter =
  f_target_id :: "int option"
  f_engine :: string
  f_status :: string
  f_from :: string
  f_to :: string
  f_tag :: string
  f_limit :: int
  f_cursor :: int

definition has_tag :: "db \<Rightarrow> string \<Rightarrow> result \<Rightarrow> bool" where
  "has_tag d name r \<longleftrightarrow>
     (\<exists>(x, t)\<in>set (result_tags_t d). x = res_id r \<and> (\<exists>g\<in>set (rows (tags_t d)). tag_id g = t \<and> tag_name g = name))"

text \<open>\<open>resultWhere\<close>: the conjunction of the clauses the filter sets.\<close>

definition resultWhere :: "db \<Rightarrow> result_filter \<Rightarrow> result \<Rightarrow> bool" where
  "resultWhere d f r \<longleftrightarrow>
     (case f_target_id f of None \<Rightarrow> True | Some i \<Rightarrow> res_target_id r = Some i) \<and>
     (f_engine f \<noteq> [] \<longrightarrow> res_engine r = f_engine f) \<and>
     (f_status f \<noteq> [] \<longrightarrow> status_text (res_status r) = f_status f) \<and>
     (f_from f \<noteq> [] \<longrightarrow> f_from f \<le> res_started_at r) \<and>
     (f_to f \<noteq> [] \<longrightarrow> res_started_at r \<le> f_to f) \<and>
     (let tg = ToLower (TrimSpace (f_tag f)) in tg \<noteq> [] \<longrightarrow> has_tag d tg r)"

definition ListResults :: "fault \<Rightarrow> fault \<Rightarrow> db \<Rightarrow> result_filter \<Rightarrow> (tagged_result list \<times> int) res" where
  "ListResults flt flt2 d f =
     (case flt of
        Some e \<Rightarrow> Inl (ErrDB e)
      | None \<Rightarrow>
          let limit = nat (clampLimit (f_limit f));
              sel = (\<lambda>r. resultWhere d f r \<and> (f_cursor f > 0 \<longrightarrow> res_id r < f_cursor f));
              out = map (scanResultCols False) (take (limit + 1) (rev (sort_key res_id (filter sel (rows (results_t d))))));
              page = (if length out > limit then (take limit out, res_id (last (take limit out))) else (out, 0))
          in case attachTags flt2 d (fst page) of Inl e \<Rightarrow> Inl e | Inr rs \<Rightarrow> Inr (rs, snd page))"

definition GetResult :: "fault \<Rightarrow> fault \<Rightarrow> db \<Rightarrow> int \<Rightarrow> tagged_result res" where
  "GetResult flt flt2 d i =
     (case flt of
        Some e \<Rightarrow> Inl (ErrDB e)
      | None \<Rightarrow>
          (case find (\<lambda>r. res_id r = i) (rows (results_t d)) of
             None \<Rightarrow> Inl ErrNotFound
           | Some r \<Rightarrow> (case attachTags flt2 d [scanResultCols True r] of Inl e \<Rightarrow> Inl e | Inr rs \<Rightarrow> Inr (hd rs))))"

definition DeleteResult :: "fault \<Rightarrow> db \<Rightarrow> int \<Rightarrow> db \<times> unit res" where
  "DeleteResult flt d i =
     (case flt of
        Some e \<Rightarrow> (d, Inl (ErrDB e))
      | None \<Rightarrow>
          if affected (\<lambda>r. res_id r = i) (rows (results_t d)) = 0 then (d, Inl ErrNotFound)
          else (delete_results (\<lambda>r. res_id r = i) d, Inr ()))"

text \<open>\<open>ORDER BY started_at DESC, id DESC LIMIT 1\<close>.\<close>

definition newest_for :: "db \<Rightarrow> int \<Rightarrow> result option" where
  "newest_for d tid =
     (case rev (sort_key (\<lambda>r. res_started_at r) (sort_key res_id
             (filter (\<lambda>r. res_target_id r = Some tid) (rows (results_t d))))) of
        [] \<Rightarrow> None | r # _ \<Rightarrow> Some r)"

definition LatestResultForTarget :: "fault \<Rightarrow> fault \<Rightarrow> db \<Rightarrow> int \<Rightarrow> tagged_result res" where
  "LatestResultForTarget flt flt2 d tid =
     (case flt of
        Some e \<Rightarrow> Inl (ErrDB e)
      | None \<Rightarrow>
          (case newest_for d tid of
             None \<Rightarrow> Inl ErrNotFound
           | Some r \<Rightarrow> (case attachTags flt2 d [scanResultCols True r] of Inl e \<Rightarrow> Inl e | Inr rs \<Rightarrow> Inr (hd rs))))"

definition LatestResults :: "fault \<Rightarrow> fault \<Rightarrow> db \<Rightarrow> tagged_result list res" where
  "LatestResults flt flt2 d =
     (case flt of
        Some e \<Rightarrow> Inl (ErrDB e)
      | None \<Rightarrow>
          attachTags flt2 d (map (scanResultCols False)
            (sort_key res_target_name (rev (sort_key res_id
              (filter (\<lambda>r. case res_target_id r of None \<Rightarrow> False
                            | Some t \<Rightarrow> map_option res_id (newest_for d t) = Some (res_id r))
                 (rows (results_t d))))))))"

text \<open>Among the rows older than the cutoff, at most \<open>batch\<close> of the oldest; rows with the same
  \<open>started_at\<close> are taken in table order.\<close>

definition PruneResultsBefore :: "fault \<Rightarrow> db \<Rightarrow> string \<Rightarrow> int \<Rightarrow> db \<times> nat res" where
  "PruneResultsBefore flt d cutoff batch =
     (case flt of
        Some e \<Rightarrow> (d, Inl (ErrDB e))
      | None \<Rightarrow>
          let b = (if batch \<le> 0 then 1000 else nat batch);
              ids = map res_id (take b (sort_key res_started_at
                      (filter (\<lambda>r. res_started_at r < cutoff) (rows (results_t d)))));
              hit = (\<lambda>r. res_id r \<in> set ids)
          in (delete_results hit d, Inr (affected hit (rows (results_t d)))))"

end
