(* ===== verification/Schedule_Store.thy ===== *)
theory Schedule_Store
  imports Result_Store
begin

text \<open>
  Cron schedules over ordered target lists: \<open>internal/store/schedules.go\<close>. The ordered
  list lives in \<open>schedule_targets\<close> and is rewritten with the schedule in one transaction.
\<close>

subsection \<open>Operations\<close>

definition tzOrUTC :: "string \<Rightarrow> string" where
  "tzOrUTC tz = (if TrimSpace tz = [] then ''UTC'' else tz)"

text \<open>\<open>None\<close> when a target id violates the foreign key; the transaction is then rolled back.\<close>

definition replaceScheduleTargets :: "db \<Rightarrow> int \<Rightarrow> int list \<Rightarrow> db option" where
  "replaceScheduleTargets d sid tids =
     (if \<exists>t\<in>set tids. \<not> (\<exists>r\<in>set (rows (targets_t d)). t_id r = t) then None
      else Some (d\<lparr>schedule_targets_t :=
             filter (\<lambda>x. st_schedule_id x \<noteq> sid) (schedule_targets_t d) @
             map (\<lambda>(pos, t). \<lparr>st_schedule_id = sid, st_target_id = t, st_position = int pos\<rparr>)
               (enumerate 0 tids)\<rparr>))"

definition CreateSchedule :: "fault \<Rightarrow> string \<Rightarrow> db \<Rightarrow> schedule \<Rightarrow> db \<times> int res" where
  "CreateSchedule flt now d sc =
     (case flt of
        Some e \<Rightarrow> (d, Inl (ErrDB e))
      | None \<Rightarrow>
          if \<exists>r\<in>set (rows (schedules_t d)). s_name r = s_name sc then (d, Inl ErrNameConflict)
          else let i = seq (schedules_t d) + 1;
                   d1 = d\<lparr>schedules_t := insert_row (\<lambda>i. \<lparr>s_id = i, s_name = s_name sc, s_cron = s_cron sc,
                            s_enabled = s_enabled sc, s_timezone = tzOrUTC (s_timezone sc),
                            s_created_at = now, s_updated_at = now\<rparr>) (schedules_t d)\<rparr>
               in case replaceScheduleTargets d1 i (s_target_ids sc) of
                    None \<Rightarrow> (d, Inl (ErrDB ''FOREIGN KEY constraint failed''))
                  | Some d2 \<Rightarrow> (d2, Inr i))"

definition UpdateSchedule :: "fault \<Rightarrow> string \<Rightarrow> db \<Rightarrow> schedule \<Rightarrow> db \<times> unit res" where
  "UpdateSchedule flt now d sc =
     (case flt of
        Some e \<Rightarrow> (d, Inl (ErrDB e))
      | None \<Rightarrow>
          if affected (\<lambda>r. s_id r = s_id sc) (rows (schedules_t d)) = 0 then (d, Inl ErrNotFound)
          else if \<exists>r\<in>set (rows (schedules_t d)). s_id r \<noteq> s_id sc \<and> s_name r = s_name sc
          then (d, Inl ErrNameConflict)
          else let d1 = d\<lparr>schedules_t := map_rows (update_where (\<lambda>r. s_id r = s_id sc)
                     (\<lambda>r. r\<lparr>s_name := s_name sc, s_cron := s_cron sc, s_enabled := s_enabled sc,
                            s_timezone := tzOrUTC (s_timezone sc), s_updated_at := now\<rparr>)) (schedules_t d)\<rparr>
               in case replaceScheduleTargets d1 (s_id sc) (s_target_ids sc) of
                    None \<Rightarrow> (d, Inl (ErrDB ''FOREIGN KEY constraint failed''))
                  | Some d2 \<Rightarrow> (d2, Inr ()))"

definition attachScheduleTargets :: "db \<Rightarrow> schedule_row \<Rightarrow> int list" where
  "attachScheduleTargets d s =
     map st_target_id (sort_key st_position
       (filter (\<lambda>x. st_schedule_id x = s_id s) (schedule_targets_t d)))"

text \<open>\<open>ROW_NUMBER() ... ORDER BY COALESCE(started_at,'') DESC, id DESC\<close>, first row.\<close>

definition started_text :: "run \<Rightarrow> string" where
  "started_text r = (case run_started_at r of None \<Rightarrow> '''' | Some t \<Rightarrow> t)"

definition attachLastRuns :: "db \<Rightarrow> schedule_row \<Rightarrow> (run_status \<times> string) option" where
  "attachLastRuns d s =
     (case rev (sort_key started_text (sort_key run_id
             (filter (\<lambda>r. run_schedule_id r = Some (s_id s)) (rows (runs_t d))))) of
        [] \<Rightarrow> None
      | r # _ \<Rightarrow> Some (run_state r, started_text r))"

definition scanSchedule :: "db \<Rightarrow> schedule_row \<Rightarrow> schedule" where
  "scanSchedule d s = schedule_row.extend s
     \<lparr>s_target_ids = attachScheduleTargets d s, s_last_run = attachLastRuns d s\<rparr>"

text \<open>\<open>flt\<close>, \<open>flt2\<close> and \<open>flt3\<close> are the outcomes of the three queries, in order.\<close>

definition GetSchedule :: "fault \<Rightarrow> fault \<Rightarrow> fault \<Rightarrow> db \<Rightarrow> int \<Rightarrow> schedule res" where
  "GetSchedule flt flt2 flt3 d i =
     (case flt of
        Some e \<Rightarrow> Inl (ErrDB e)
      | None \<Rightarrow>
          (case find (\<lambda>r. s_id r = i) (rows (schedules_t d)) of
             None \<Rightarrow> Inl ErrNotFound
           | Some s \<Rightarrow>
               (case (flt2, flt3) of
                  (Some e, _) \<Rightarrow> Inl (ErrDB e)
                | (None, Some e) \<Rightarrow> Inl (ErrDB e)
                | (None, None) \<Rightarrow> Inr (scanSchedule d s))))"

definition ListSchedules :: "fault \<Rightarrow> fault \<Rightarrow> fault \<Rightarrow> db \<Rightarrow> schedule list res" where
  "ListSchedules flt flt2 flt3 d =
     (case flt of
        Some e \<Rightarrow> Inl (ErrDB e)
      | None \<Rightarrow>
          let out = sort_key s_name (sort_key s_id (rows (schedules_t d)))
          in if out = [] then Inr []
             else case (flt2, flt3) of
                    (Some e, _) \<Rightarrow> Inl (ErrDB e)
                  | (None, Some e) \<Rightarrow> Inl (ErrDB e)
                  | (None, None) \<Rightarrow> Inr (map (scanSchedule d) out))"

text \<open>\<open>schedule_targets\<close> rows cascade away; \<open>runs.schedule_id\<close> is \<open>ON DELETE SET NULL\<close>.\<close>

definition DeleteSchedule :: "fault \<Rightarrow> db \<Rightarrow> int \<Rightarrow> db \<times> unit res" where
  "DeleteSchedule flt d i =
     (case flt of
        Some e \<Rightarrow> (d, Inl (ErrDB e))
      | None \<Rightarrow>
          if affected (\<lambda>r. s_id r = i) (rows (schedules_t d)) = 0 then (d, Inl ErrNotFound)
          else (d\<lparr>schedules_t := map_rows (delete_where (\<lambda>r. s_id r = i)) (schedules_t d),
                  schedule_targets_t := filter (\<lambda>x. st_schedule_id x \<noteq> i) (schedule_targets_t d),
                  runs_t := map_rows (update_where (\<lambda>r. run_schedule_id r = Some i)
                              (\<lambda>r. r\<lparr>run_schedule_id := None\<rparr>)) (runs_t d)\<rparr>, Inr ()))"

end
