(* ===== verification/Rotate.thy ===== *)
theory Rotate
  imports Json
begin

text \<open>
  Host rotation (\<open>internal/runner/rotate.go\<close>): an options document that lists several hosts
  is rewritten to name the single host of this run. The \<open>pick\<close> callback asks the store for the
  next index, so it threads a state.
\<close>

text \<open>\<open>json.Marshal\<close> of a \<open>map[string]json.RawMessage\<close>: the keys in sorted order.\<close>

definition marshal_map :: "string list \<Rightarrow> (string \<rightharpoonup> json) \<Rightarrow> json" where
  "marshal_map keys m = JObj (map (\<lambda>k. (k, the (m k))) (filter (\<lambda>k. m k \<noteq> None) (sort (remdups keys))))"

fun raw_keys :: "raw \<Rightarrow> string list" where
  "raw_keys (RawDoc (JObj kvs)) = map fst kvs"
| "raw_keys _ = []"

definition rotateField ::
  "raw \<Rightarrow> string \<Rightarrow> string \<Rightarrow> (int \<Rightarrow> 's \<Rightarrow> 's \<times> int) \<Rightarrow> 's \<Rightarrow> 's \<times> raw option" where
  "rotateField opts listKey singleKey pick s =
     (case unmarshal_map opts of
        None \<Rightarrow> (s, None)
      | Some m \<Rightarrow>
          (case m listKey of
             None \<Rightarrow> (s, None)
           | Some raw \<Rightarrow>
               (case unmarshal_list raw of
                  None \<Rightarrow> (s, None)
                | Some xs \<Rightarrow>
                    if length xs \<le> 1 then (s, None)
                    else let (s', idx) = pick (int (length xs)) s;
                             idx' = (if idx < 0 \<or> idx \<ge> int (length xs) then 0 else idx);
                             m' = (m(listKey := None))(singleKey \<mapsto> xs ! nat idx')
                         in (s', Some (RawDoc (marshal_map (singleKey # raw_keys opts) m'))))))"

definition rotate_opts :: "raw \<Rightarrow> string \<Rightarrow> (int \<Rightarrow> 's \<Rightarrow> 's \<times> int) \<Rightarrow> 's \<Rightarrow> 's \<times> raw option" where
  "rotate_opts opts engineName pick s =
     (if engineName = ''ookla'' then rotateField opts ''server_ids'' ''server_id'' pick s
      else if engineName = ''iperf3'' then rotateField opts ''hosts'' ''host'' pick s
      else (s, None))"

subsection \<open>What a rotated document contains\<close>

lemma obj_map_marshal:
  assumes "dom m \<subseteq> set keys"
  shows "unmarshal_map (RawDoc (marshal_map keys m)) = Some m"
proof -
  let ?ks = "filter (\<lambda>k. m k \<noteq> None) (sort (remdups keys))"

  have "map_of (rev (map (\<lambda>k. (k, the (m k))) ?ks)) k = m k" for k
  proof -
    have "map_of (rev (map (\<lambda>k. (k, the (m k))) ?ks)) k =
        (if k \<in> set ?ks then Some (the (m k)) else None)"
      by (simp only: rev_map map_of_map_restrict restrict_map_def comp_def set_rev)
    then show ?thesis using assms domIff [of k m] by (cases "m k") (auto split: if_splits)
  qed
  then show ?thesis by (auto simp: marshal_map_def obj_map_def)
qed

lemma unmarshal_dom_keys: "unmarshal_map opts = Some m \<Longrightarrow> dom m \<subseteq> set (raw_keys opts)"
  by (cases opts rule: raw_keys.cases) (auto simp: obj_map_def dest!: map_of_SomeD intro: rev_image_eqI)

text \<open>A rotated document is the original one without the list, with one of its entries under the
  single key; a document that is not rotated is left to the caller and asks for no index.\<close>

lemma rotateField_cases:
  assumes "rotateField opts lk sk pick s = (s', out)"
  obtains (same) "s' = s" "out = None"
  | (rotated) m xs i where "unmarshal_map opts = Some m" "m lk = Some (JArr xs)" "1 < length xs"
      "i < length xs" "s' = fst (pick (int (length xs)) s)"
      "0 \<le> snd (pick (int (length xs)) s) \<Longrightarrow> snd (pick (int (length xs)) s) < int (length xs) \<Longrightarrow>
       int i = snd (pick (int (length xs)) s)"
      "out = Some (RawDoc (marshal_map (sk # raw_keys opts) ((m(lk := None))(sk \<mapsto> xs ! i))))"
      "unmarshal_map (the out) = Some ((m(lk := None))(sk \<mapsto> xs ! i))"
proof (cases "unmarshal_map opts")
  case None
  with assms same show ?thesis by (simp add: rotateField_def)
next
  case (Some m)
  note m = this
  consider "m lk = None" | v where "m lk = Some v" "unmarshal_list v = None"
    | v xs where "m lk = Some v" "unmarshal_list v = Some xs" "length xs \<le> 1"
    | v xs where "m lk = Some v" "unmarshal_list v = Some xs" "1 < length xs"
    by (metis not_le option.exhaust)
  then show ?thesis
  proof cases
    case (4 v xs)
    let ?p = "pick (int (length xs)) s"
    define i where "i = nat (if snd ?p < 0 \<or> snd ?p \<ge> int (length xs) then 0 else snd ?p)"
    have v: "v = JArr xs" using 4(2,3) by (cases v) auto
    have i: "i < length xs" using 4(3) by (auto simp: i_def)
    let ?m' = "(m(lk := None))(sk \<mapsto> xs ! i)"
    have out: "s' = fst ?p" "out = Some (RawDoc (marshal_map (sk # raw_keys opts) ?m'))"
      using assms m 4 by (auto simp: rotateField_def Let_def i_def split: prod.splits)
    have "dom ?m' \<subseteq> set (sk # raw_keys opts)" using unmarshal_dom_keys [OF m] by auto
    then have "unmarshal_map (the out) = Some ?m'" using out(2) by (simp only: option.sel obj_map_marshal)
    then show ?thesis using rotated [OF m _ 4(3) i out(1) _ out(2)] 4(1) v by (auto simp: i_def)
  qed (use assms m same in \<open>auto simp: rotateField_def\<close>)
qed

lemma rotate_state:
  assumes "P s" "\<And>n. P (fst (pick n s))"
  shows "P (fst (rotate_opts opts eng pick s))"
proof -
  have "P (fst (rotateField opts lk sk pick s))" for lk sk
    using assms by (simp add: rotateField_def Let_def split: option.splits prod.splits) (metis fst_conv)
  with assms(1) show ?thesis by (simp add: rotate_opts_def)
qed

end
