(* ===== verification/Runner.thy ===== *)
theory Runner
  imports Schedule_Store Rotate
begin

text \<open>
  The test runner, \<open>internal/runner/runner.go\<close>: the state of a \<open>Runner\<close> and its operations.
  Every piece of code that the source runs under one acquisition of \<open>r.mu\<close>, and every single
  store call, is one definition here; \<open>Enqueue\<close>, \<open>Cancel\<close>, \<open>execute\<close> and \<open>Shutdown\<close>
  compose them in the order of the source. The interleavings of these pieces are the subject of
  \<open>Runner_Steps\<close>.
  A run's context is done once its \<open>CancelFunc\<close> was called; \<open>r_ctx_done\<close> records the
  runs for which that happened, because a worker keeps the context after the run has left
  \<open>r.runs\<close>. \<open>r_events\<close> and \<open>r_sunk\<close> are the hub publications and sink calls so far, oldest
  first, and \<open>r_db\<close> is the store.
\<close>

subsection \<open>Data\<close>

datatype phase = PhaseConnecting | PhasePing | PhaseDownload | PhaseUpload | PhaseDone | PhaseError

record progress =
  p_phase :: phase
  p_progress :: float64
  p_bps :: float64
  p_ping_ms :: float64
  p_jitter_ms :: float64
  p_loss_pct :: float64
  p_elapsed_ms :: int
  p_server_name :: string

record engine_result =
  er_download_bps :: float64
  er_upload_bps :: float64
  er_ping_ms :: float64
  er_jitter_ms :: float64
  er_packet_loss_pct :: float64
  er_bytes_down :: int
  er_bytes_up :: int
  er_server_id :: string
  er_server_name :: string
  er_server_host :: string
  er_isp :: string
  er_external_ip :: string
  er_result_url :: string
  er_raw :: raw

text \<open>One call of \<open>Engine.Run\<close>: a result, an error, or a panic of the engine.\<close>

datatype engine_outcome = EngOk engine_result | EngErr string | EngPanic string

text \<open>An engine as the runner sees it: for an options document, the progress updates it sends with
  the time of each, in milliseconds, and how the call ends.\<close>

type_synonym engine = "raw \<Rightarrow> (int \<times> progress) list \<times> engine_outcome"

record result_meta =
  m_run_id :: int
  m_trigger :: "trigger option"
  m_schedule_id :: "int option"
  m_schedule_name :: string
  m_queue_name :: string

record run_request =
  rq_trigger :: trigger
  rq_schedule_id :: "int option"
  rq_target_ids :: "int list"
  rq_snapshots :: "int \<rightharpoonup> raw"

record job =
  j_run_id :: int
  j_queue_id :: int
  j_queue_name :: string
  j_targets :: "target list"
  j_snapshots :: "int \<rightharpoonup> raw"

record run_state =
  rt_pending :: int
  rt_total :: nat
  rt_done :: nat
  rt_failed :: bool
  rt_canceled :: bool
  rt_started :: bool
  rt_trigger :: trigger
  rt_schedule_id :: "int option"
  rt_schedule_name :: string

datatype event =
    EvRun int run_status string nat nat
  | EvResult result
  | EvProgress int int string progress

record runner =
  r_cap :: nat
  r_queues :: "int \<rightharpoonup> job list"
  r_queue_names :: "int \<rightharpoonup> string"
  r_runs :: "int \<rightharpoonup> run_state"
  r_finalizing :: "int set"
  r_closing :: bool
  r_started :: bool
  r_ctx_done :: "int set"
  r_events :: "event list"
  r_sunk :: "(result \<times> result_meta) list"
  r_db :: db

datatype enqueue_error = ErrQueueFull | ErrNoTargets | ErrShuttingDown | ErrStore store_error

subsection \<open>Construction\<close>

definition New :: "int \<Rightarrow> db \<Rightarrow> runner" where
  "New cap d = \<lparr>r_cap = (if cap \<le> 0 then 32 else nat cap), r_queues = Map.empty,
     r_queue_names = Map.empty, r_runs = Map.empty, r_finalizing = {}, r_closing = False,
     r_started = False, r_ctx_done = {}, r_events = [], r_sunk = [], r_db = d\<rparr>"

definition Start :: "runner \<Rightarrow> runner" where
  "Start r = r\<lparr>r_started := True\<rparr>"

definition queueChan :: "int \<Rightarrow> string \<Rightarrow> runner \<Rightarrow> runner" where
  "queueChan q name r =
     (let r1 = r\<lparr>r_queue_names := (r_queue_names r)(q \<mapsto> name)\<rparr>
      in case r_queues r1 q of Some ch \<Rightarrow> r1 | None \<Rightarrow> r1\<lparr>r_queues := (r_queues r1)(q \<mapsto> [])\<rparr>)"

definition publishRun :: "int \<Rightarrow> run_status \<Rightarrow> string \<Rightarrow> nat \<Rightarrow> nat \<Rightarrow> runner \<Rightarrow> runner" where
  "publishRun i st msg tot n r = r\<lparr>r_events := r_events r @ [EvRun i st msg tot n]\<rparr>"

subsection \<open>Enqueue\<close>

definition filterRunnable :: "target list \<Rightarrow> trigger \<Rightarrow> target list" where
  "filterRunnable ts trig = (if trig = Manual then ts else filter (\<lambda>t. t_enabled t) ts)"

text \<open>The grouping loop of \<open>Enqueue\<close>: \<open>order\<close>, \<open>byQueue\<close> and \<open>queueNames\<close>.\<close>

record grouping =
  g_order :: "int list"
  g_by_queue :: "int \<rightharpoonup> target list"
  g_names :: "int \<rightharpoonup> string"

definition group_step :: "grouping \<Rightarrow> target \<Rightarrow> grouping" where
  "group_step g t =
     (let q = t_queue_id t in
      \<lparr>g_order = (if g_by_queue g q = None then g_order g @ [q] else g_order g),
       g_by_queue = (g_by_queue g)(q \<mapsto> (case g_by_queue g q of None \<Rightarrow> [] | Some ts \<Rightarrow> ts) @ [t]),
       g_names = (g_names g)(q \<mapsto> t_queue_name t)\<rparr>)"

definition group_targets :: "target list \<Rightarrow> grouping" where
  "group_targets ts = foldl group_step \<lparr>g_order = [], g_by_queue = Map.empty, g_names = Map.empty\<rparr> ts"

definition group_job :: "int \<Rightarrow> run_request \<Rightarrow> grouping \<Rightarrow> int \<Rightarrow> job" where
  "group_job i req g q = \<lparr>j_run_id = i, j_queue_id = q, j_queue_name = the (g_names g q),
     j_targets = the (g_by_queue g q), j_snapshots = rq_snapshots req\<rparr>"

definition beginFinalize :: "int \<Rightarrow> runner \<Rightarrow> runner" where
  "beginFinalize i r = r\<lparr>r_finalizing := insert i (r_finalizing r)\<rparr>"

definition endFinalize :: "int \<Rightarrow> runner \<Rightarrow> runner" where
  "endFinalize i r = r\<lparr>r_finalizing := r_finalizing r - {i}\<rparr>"

text \<open>The first part: the targets to run, or the error that ends the call.\<close>

definition enqueue_targets :: "fault \<Rightarrow> runner \<Rightarrow> run_request \<Rightarrow> enqueue_error + target list" where
  "enqueue_targets flt r req =
     (case ListTargetsByIDs flt (r_db r) (rq_target_ids req) of
        Inl e \<Rightarrow> Inl (ErrStore e)
      | Inr ts \<Rightarrow> (let ts' = filterRunnable ts (rq_trigger req)
                    in if ts' = [] then Inl ErrNoTargets else Inr ts'))"

text \<open>The dedupe query: \<open>Inr None\<close> when a new run has to be created.\<close>

definition enqueue_dedupe :: "fault \<Rightarrow> runner \<Rightarrow> run_request \<Rightarrow> int option res" where
  "enqueue_dedupe flt r req =
     (case rq_schedule_id req of None \<Rightarrow> Inr None | Some sid \<Rightarrow> QueuedRunForSchedule flt (r_db r) sid)"

definition enqueue_create :: "fault \<Rightarrow> runner \<Rightarrow> run_request \<Rightarrow> runner \<times> int res" where
  "enqueue_create flt r req =
     (let (d, res) = CreateRun flt (r_db r) (rq_trigger req) (rq_schedule_id req) in (r\<lparr>r_db := d\<rparr>, res))"

definition schedule_name :: "fault \<Rightarrow> runner \<Rightarrow> run_request \<Rightarrow> string" where
  "schedule_name flt r req =
     (case rq_schedule_id req of
        None \<Rightarrow> ''''
      | Some sid \<Rightarrow> (case GetSchedule flt flt flt (r_db r) sid of Inl e \<Rightarrow> '''' | Inr sc \<Rightarrow> s_name sc))"

text \<open>The sends: each job goes to its channel's buffer unless that is full; the first full
  channel ends the loop (\<open>True\<close>).\<close>

fun send_jobs :: "job list \<Rightarrow> runner \<Rightarrow> runner \<times> bool" where
  "send_jobs [] r = (r, False)"
| "send_jobs (j # js) r =
     (let ch = the (r_queues r (j_queue_id j))
      in if length ch < r_cap r
         then send_jobs js (r\<lparr>r_queues := (r_queues r)(j_queue_id j \<mapsto> ch @ [j])\<rparr>)
         else (r, True))"

datatype commit = Refused | Full | Committed

text \<open>The part of \<open>Enqueue\<close> under \<open>r.mu\<close>.\<close>

definition enqueue_commit :: "int \<Rightarrow> string \<Rightarrow> target list \<Rightarrow> run_request \<Rightarrow> runner \<Rightarrow> runner \<times> commit" where
  "enqueue_commit i sname ts req r =
     (if r_closing r \<or> \<not> r_started r then (r, Refused)
      else
        let g = group_targets ts;
            r1 = r\<lparr>r_runs := (r_runs r)(i \<mapsto> \<lparr>rt_pending = int (length (g_order g)), rt_total = length ts,
                   rt_done = 0, rt_failed = False, rt_canceled = False, rt_started = False,
                   rt_trigger = rq_trigger req, rt_schedule_id = rq_schedule_id req,
                   rt_schedule_name = sname\<rparr>)\<rparr>;
            r2 = fold (\<lambda>q. queueChan q (the (g_names g q))) (g_order g) r1;
            r3 = publishRun i Queued '''' (length ts) 0 r2;
            (r4, full) = send_jobs (map (group_job i req g) (g_order g)) r3
        in if full
           then (r4\<lparr>r_ctx_done := insert i (r_ctx_done r4), r_runs := (r_runs r4)(i := None)\<rparr>, Full)
           else (r4\<lparr>r_finalizing := r_finalizing r4 - {i}\<rparr>, Committed))"

text \<open>
  \<open>setRunStatus\<close>. \<open>hook\<close> is the test hook (\<open>None\<close> in production); \<open>flts\<close> are the
  outcomes of the store calls at the two attempts. \<open>err\<close> is the variable of the source: it is
  assigned by the hook only when there is one, and the store is called only when it is nil.
\<close>

definition status_attempt ::
  "(int \<Rightarrow> run_status \<Rightarrow> nat \<Rightarrow> store_error option) option \<Rightarrow> fault \<Rightarrow> string \<Rightarrow> int \<Rightarrow> run_status \<Rightarrow> string \<Rightarrow>
   nat \<Rightarrow> store_error option \<Rightarrow> db \<Rightarrow> db \<times> store_error option" where
  "status_attempt hook flt now i st msg attempt err d =
     (let err1 = (case hook of None \<Rightarrow> err | Some h \<Rightarrow> h i st attempt)
      in case err1 of
           Some e \<Rightarrow> (d, Some e)
         | None \<Rightarrow> (case SetRunStatus flt now d i st msg of
                      (d', Inl e) \<Rightarrow> (d', Some e)
                    | (d', Inr _) \<Rightarrow> (d', None)))"

definition setRunStatus ::
  "(int \<Rightarrow> run_status \<Rightarrow> nat \<Rightarrow> store_error option) option \<Rightarrow> fault \<times> fault \<Rightarrow> string \<Rightarrow>
   int \<Rightarrow> run_status \<Rightarrow> string \<Rightarrow> runner \<Rightarrow> runner \<times> store_error option" where
  "setRunStatus hook flts now i st msg r =
     (let (d1, err1) = status_attempt hook (fst flts) now i st msg 0 None (r_db r)
      in if err1 = None \<or> err1 = Some ErrInvalidTransition then (r\<lparr>r_db := d1\<rparr>, err1)
         else let (d2, err2) = status_attempt hook (snd flts) now i st msg 1 err1 d1
              in (r\<lparr>r_db := d2\<rparr>, err2))"

text \<open>The shared ending of most paths: write the status and publish it when the write held.\<close>

definition write_and_publish ::
  "fault \<times> fault \<Rightarrow> string \<Rightarrow> int \<Rightarrow> run_status \<Rightarrow> string \<Rightarrow> nat \<Rightarrow> nat \<Rightarrow> runner \<Rightarrow> runner" where
  "write_and_publish flts now i st msg tot n r =
     (case setRunStatus None flts now i st msg r of
        (r', None) \<Rightarrow> publishRun i st msg tot n r'
      | (r', Some e) \<Rightarrow> r')"

text \<open>What the store and the clock answer during one \<open>Enqueue\<close>.\<close>

record enqueue_env =
  ee_targets :: fault
  ee_dedupe :: fault
  ee_create :: fault
  ee_schedule :: fault
  ee_status :: "fault \<times> fault"
  ee_now :: string

definition Enqueue :: "enqueue_env \<Rightarrow> run_request \<Rightarrow> runner \<Rightarrow> runner \<times> (enqueue_error + int)" where
  "Enqueue ev req r =
     (case enqueue_targets (ee_targets ev) r req of
        Inl e \<Rightarrow> (r, Inl e)
      | Inr ts \<Rightarrow>
          (case enqueue_dedupe (ee_dedupe ev) r req of
             Inl e \<Rightarrow> (r, Inl (ErrStore e))
           | Inr (Some i) \<Rightarrow> (r, Inr i)
           | Inr None \<Rightarrow>
               (case enqueue_create (ee_create ev) r req of
                  (r1, Inl e) \<Rightarrow> (r1, Inl (ErrStore e))
                | (r1, Inr i) \<Rightarrow>
                    let r2 = beginFinalize i r1;
                        sname = schedule_name (ee_schedule ev) r2 req
                    in case enqueue_commit i sname ts req r2 of
                         (r3, Refused) \<Rightarrow>
                           (endFinalize i (write_and_publish (ee_status ev) (ee_now ev) i Canceled
                              ''shutting down'' (length ts) 0 r3), Inl ErrShuttingDown)
                       | (r3, Full) \<Rightarrow>
                           (endFinalize i (publishRun i Failed ''queue full'' (length ts) 0
                              (fst (setRunStatus None (ee_status ev) (ee_now ev) i Failed ''queue full'' r3))),
                            Inl ErrQueueFull)
                       | (r3, Committed) \<Rightarrow> (r3, Inr i))))"

subsection \<open>Cancel\<close>

text \<open>The part of \<open>Cancel\<close> under \<open>r.mu\<close>. \<open>None\<close>: the run is not tracked. Otherwise
  whether the caller has claimed the run, and its number of targets.\<close>

definition cancel_claim :: "int \<Rightarrow> runner \<Rightarrow> runner \<times> (bool \<times> nat) option" where
  "cancel_claim i r =
     (case r_runs r i of
        None \<Rightarrow> (r, None)
      | Some st \<Rightarrow>
          let st1 = st\<lparr>rt_canceled := True\<rparr>;
              notStarted = (\<not> rt_started st);
              r1 = (if notStarted then r\<lparr>r_runs := (r_runs r)(i := None), r_finalizing := insert i (r_finalizing r)\<rparr>
                    else r\<lparr>r_runs := (r_runs r)(i \<mapsto> st1)\<rparr>)
          in (r1\<lparr>r_ctx_done := insert i (r_ctx_done r1)\<rparr>, Some (notStarted, rt_total st)))"

definition cancelOrphan :: "fault \<Rightarrow> fault \<times> fault \<Rightarrow> string \<Rightarrow> int \<Rightarrow> runner \<Rightarrow> runner \<times> bool" where
  "cancelOrphan flt flts now i r =
     (if r_runs r i \<noteq> None \<or> i \<in> r_finalizing r then (r, False)
      else case GetRun flt (r_db r) i of
             Inl e \<Rightarrow> (r, False)
           | Inr run \<Rightarrow>
               if run_state run \<noteq> Queued \<and> run_state run \<noteq> Running then (r, False)
               else (case setRunStatus None flts now i Canceled '''' r of
                       (r', Some e) \<Rightarrow> (r', False)
                     | (r', None) \<Rightarrow> (publishRun i Canceled '''' 0 0 r', True)))"

definition Cancel :: "fault \<Rightarrow> fault \<times> fault \<Rightarrow> string \<Rightarrow> int \<Rightarrow> runner \<Rightarrow> runner \<times> bool" where
  "Cancel flt flts now i r =
     (case cancel_claim i r of
        (r1, None) \<Rightarrow> cancelOrphan flt flts now i r1
      | (r1, Some (notStarted, tot)) \<Rightarrow>
          if notStarted then (endFinalize i (write_and_publish flts now i Canceled '''' tot 0 r1), True)
          else (r1, True))"

subsection \<open>Workers\<close>

datatype exec_start = Gone | CanceledWhileQueued | Go nat

text \<open>The first part of \<open>execute\<close>, under \<open>r.mu\<close>.\<close>

definition execute_begin :: "int \<Rightarrow> runner \<Rightarrow> runner \<times> exec_start" where
  "execute_begin i r =
     (case r_runs r i of
        None \<Rightarrow> (r, Gone)
      | Some st \<Rightarrow>
          if rt_canceled st \<or> r_closing r \<or> i \<in> r_ctx_done r then (r, CanceledWhileQueued)
          else (r\<lparr>r_runs := (r_runs r)(i \<mapsto> st\<lparr>rt_started := True\<rparr>)\<rparr>, Go (rt_total st)))"

definition doneCount :: "int \<Rightarrow> runner \<Rightarrow> nat" where
  "doneCount i r = (case r_runs r i of None \<Rightarrow> 0 | Some st \<Rightarrow> rt_done st)"

definition markTargetDone :: "int \<Rightarrow> runner \<Rightarrow> runner \<times> (nat \<times> nat) option" where
  "markTargetDone i r =
     (case r_runs r i of
        None \<Rightarrow> (r, None)
      | Some st \<Rightarrow> (r\<lparr>r_runs := (r_runs r)(i \<mapsto> st\<lparr>rt_done := rt_done st + 1\<rparr>)\<rparr>,
                     Some (rt_total st, rt_done st + 1)))"

text \<open>The part of \<open>finishQueue\<close> under \<open>r.mu\<close>: the run's final status, and its counts, when this
  was its last queue.\<close>

definition final_status :: "run_state \<Rightarrow> run_status" where
  "final_status st = (if rt_canceled st then Canceled else if rt_failed st then Failed else Done)"

definition finish_claim :: "int \<Rightarrow> bool \<Rightarrow> bool \<Rightarrow> runner \<Rightarrow> runner \<times> (run_status \<times> nat \<times> nat) option" where
  "finish_claim i failed canceled r =
     (case r_runs r i of
        None \<Rightarrow> (r, None)
      | Some st \<Rightarrow>
          let st1 = st\<lparr>rt_failed := rt_failed st \<or> failed, rt_canceled := rt_canceled st \<or> canceled,
                       rt_pending := rt_pending st - 1\<rparr>
          in if rt_pending st1 > 0 then (r\<lparr>r_runs := (r_runs r)(i \<mapsto> st1)\<rparr>, None)
             else (r\<lparr>r_runs := (r_runs r)(i := None), r_finalizing := insert i (r_finalizing r),
                     r_ctx_done := insert i (r_ctx_done r)\<rparr>,
                   Some (final_status st1, rt_total st1, rt_done st1)))"

definition finishQueue :: "fault \<times> fault \<Rightarrow> string \<Rightarrow> int \<Rightarrow> bool \<Rightarrow> bool \<Rightarrow> runner \<Rightarrow> runner" where
  "finishQueue flts now i failed canceled r =
     (case finish_claim i failed canceled r of
        (r1, None) \<Rightarrow> r1
      | (r1, Some (st, tot, n)) \<Rightarrow> endFinalize i (write_and_publish flts now i st '''' tot n r1))"

text \<open>\<open>Sinks.OnResult\<close>: a sink runs on its own state and may panic half way (\<open>True\<close>); the panic is
  recovered per sink.\<close>

type_synonym 's sink = "result \<Rightarrow> result_meta \<Rightarrow> 's \<Rightarrow> 's \<times> bool"

definition Sinks_OnResult :: "'s sink list \<Rightarrow> result \<Rightarrow> result_meta \<Rightarrow> 's \<Rightarrow> 's" where
  "Sinks_OnResult sinks res m s = fold (\<lambda>sink s. case sink res m s of (s', panicked) \<Rightarrow> s') sinks s"

text \<open>\<open>storeResult\<close>: insert the row, publish it with its id, hand it to the sink.\<close>

definition storeResult :: "fault \<Rightarrow> result \<Rightarrow> result_meta \<Rightarrow> runner \<Rightarrow> runner \<times> bool" where
  "storeResult flt res m r =
     (case InsertResult flt (r_db r) res of
        (d, Inl e) \<Rightarrow> (r\<lparr>r_db := d\<rparr>, False)
      | (d, Inr i) \<Rightarrow>
          (r\<lparr>r_db := d, r_events := r_events r @ [EvResult (res\<lparr>res_id := i\<rparr>)],
             r_sunk := r_sunk r @ [(res\<lparr>res_id := i\<rparr>, m)]\<rparr>, True))"

text \<open>The progress callback: at most one event per \<open>progressInterval\<close> milliseconds and phase,
  except that the last phases always go out. \<open>prev\<close> is the time and phase of the last event.\<close>

definition progressInterval :: int where
  "progressInterval = 100"

fun throttle :: "(int \<times> phase) option \<Rightarrow> (int \<times> progress) list \<Rightarrow> (int \<times> progress) list" where
  "throttle prev [] = []"
| "throttle prev ((now, p) # ps) =
     (if p_phase p \<noteq> PhaseDone \<and> p_phase p \<noteq> PhaseError \<and>
         (case prev of None \<Rightarrow> False | Some (t, ph) \<Rightarrow> p_phase p = ph \<and> now - t < progressInterval)
      then throttle prev ps
      else (now, p) # throttle (Some (now, p_phase p)) ps)"

text \<open>What the store, the clock and the engine registry answer while one target runs.\<close>

record target_env =
  te_started :: string
  te_rotation :: fault
  te_duration_ms :: int
  te_insert :: fault

datatype target_end = TargetDone bool | TargetPanic string

definition pick_rotation :: "fault \<Rightarrow> int \<Rightarrow> int \<Rightarrow> db \<Rightarrow> db \<times> int" where
  "pick_rotation flt tid n d =
     (case NextRotationIndex flt d tid n of (d', Inl e) \<Rightarrow> (d', 0) | (d', Inr idx) \<Rightarrow> (d', idx))"

definition target_options :: "fault \<Rightarrow> target \<Rightarrow> raw \<Rightarrow> db \<Rightarrow> db \<times> raw" where
  "target_options flt t override d =
     (if override \<noteq> RawEmpty then (d, override)
      else case rotate_opts (t_options t) (t_engine t) (pick_rotation flt (t_id t)) d of
             (d', Some opts) \<Rightarrow> (d', opts)
           | (d', None) \<Rightarrow> (d', t_options t))"

definition base_result :: "int \<Rightarrow> target \<Rightarrow> raw \<Rightarrow> string \<Rightarrow> result" where
  "base_result i t snapshot started = \<lparr>res_id = 0, res_run_id = Some i, res_target_id = Some (t_id t),
     res_target_name = t_name t, res_engine = t_engine t, res_options_snapshot = rawOrEmpty snapshot,
     res_status = ROk, res_error = '''', res_started_at = started, res_duration_ms = 0,
     res_download_bps = 0, res_upload_bps = 0, res_ping_ms = 0, res_jitter_ms = 0,
     res_packet_loss_pct = 0, res_bytes_down = 0, res_bytes_up = 0, res_server_id = '''',
     res_server_name = '''', res_server_host = '''', res_isp = '''', res_external_ip = '''',
     res_result_url = '''', res_raw = RawEmpty\<rparr>"

definition failed_result :: "result \<Rightarrow> string \<Rightarrow> result" where
  "failed_result res msg = res\<lparr>res_status := RFailed, res_error := msg\<rparr>"

definition ok_result :: "result \<Rightarrow> engine_result \<Rightarrow> result" where
  "ok_result res out = res\<lparr>res_status := ROk, res_download_bps := er_download_bps out,
     res_upload_bps := er_upload_bps out, res_ping_ms := er_ping_ms out, res_jitter_ms := er_jitter_ms out,
     res_packet_loss_pct := er_packet_loss_pct out, res_bytes_down := er_bytes_down out,
     res_bytes_up := er_bytes_up out, res_server_id := er_server_id out,
     res_server_name := er_server_name out, res_server_host := er_server_host out,
     res_isp := er_isp out, res_external_ip := er_external_ip out, res_result_url := er_result_url out,
     res_raw := er_raw out\<rparr>"

definition run_meta :: "int \<Rightarrow> string \<Rightarrow> runner \<Rightarrow> result_meta" where
  "run_meta i queue r =
     (case r_runs r i of
        None \<Rightarrow> \<lparr>m_run_id = i, m_trigger = None, m_schedule_id = None, m_schedule_name = '''', m_queue_name = queue\<rparr>
      | Some st \<Rightarrow> \<lparr>m_run_id = i, m_trigger = Some (rt_trigger st), m_schedule_id = rt_schedule_id st,
                    m_schedule_name = rt_schedule_name st, m_queue_name = queue\<rparr>)"

definition runTarget ::
  "(string \<rightharpoonup> engine) \<Rightarrow> target_env \<Rightarrow> int \<Rightarrow> string \<Rightarrow> target \<Rightarrow> raw \<Rightarrow> runner \<Rightarrow> runner \<times> target_end" where
  "runTarget reg ev i queue t override r =
     (let (d, opts) = target_options (te_rotation ev) t override (r_db r);
          r1 = r\<lparr>r_db := d\<rparr>;
          res = base_result i t opts (te_started ev);
          m = run_meta i queue r1
      in case reg (t_engine t) of
           None \<Rightarrow>
             let (r2, ok) = storeResult (te_insert ev) (failed_result res (''unknown engine '' @ quoted (t_engine t))) m r1
             in (r2, TargetDone True)
         | Some eng \<Rightarrow>
             let (prog, out) = eng opts;
                 r2 = r1\<lparr>r_events := r_events r1 @
                        map (\<lambda>(now, p). EvProgress i (t_id t) (t_engine t) p) (throttle None prog)\<rparr>;
                 res1 = res\<lparr>res_duration_ms := te_duration_ms ev\<rparr>
             in case out of
                  EngPanic msg \<Rightarrow> (r2, TargetPanic msg)
                | EngErr msg \<Rightarrow>
                    let (r3, ok) = storeResult (te_insert ev) (failed_result res1 msg) m r2
                    in (r3, TargetDone True)
                | EngOk er \<Rightarrow>
                    let (r3, ok) = storeResult (te_insert ev) (ok_result res1 er) m r2
                    in (r3, TargetDone (\<not> ok)))"

definition publish_step :: "int \<Rightarrow> runner \<Rightarrow> runner" where
  "publish_step i r =
     (case markTargetDone i r of
        (r', None) \<Rightarrow> r'
      | (r', Some (tot, n)) \<Rightarrow> publishRun i Running '''' tot n r')"

text \<open>The deferred recovery of \<open>execute\<close>: the target in flight gets a failed row and the stepper
  advances; then the queue is finished as failed.\<close>

definition override_of :: "job \<Rightarrow> target \<Rightarrow> raw" where
  "override_of j t = (case j_snapshots j (t_id t) of None \<Rightarrow> RawEmpty | Some s \<Rightarrow> s)"

definition recover_result :: "string \<Rightarrow> job \<Rightarrow> target \<Rightarrow> string \<Rightarrow> result" where
  "recover_result now j t msg =
     failed_result (base_result (j_run_id j) t
       (if override_of j t = RawEmpty then t_options t else override_of j t) now) (''internal error: '' @ msg)"

definition recover_meta :: "job \<Rightarrow> result_meta" where
  "recover_meta j = \<lparr>m_run_id = j_run_id j, m_trigger = None, m_schedule_id = None, m_schedule_name = '''',
     m_queue_name = j_queue_name j\<rparr>"

definition recover_target :: "target_env \<Rightarrow> job \<Rightarrow> target \<Rightarrow> string \<Rightarrow> runner \<Rightarrow> runner" where
  "recover_target ev j t msg r =
     publish_step (j_run_id j)
       (fst (storeResult (te_insert ev) (recover_result (te_started ev) j t msg) (recover_meta j) r))"

text \<open>The target loop of \<open>execute\<close>; the result says whether a target failed and whether the loop
  ended in a panic.\<close>

fun target_loop ::
  "(string \<rightharpoonup> engine) \<Rightarrow> target_env \<Rightarrow> job \<Rightarrow> bool \<Rightarrow> target list \<Rightarrow> runner \<Rightarrow> runner \<times> bool \<times> bool" where
  "target_loop reg ev j failed [] r = (r, failed, False)"
| "target_loop reg ev j failed (t # ts) r =
     (if j_run_id j \<in> r_ctx_done r then (r, failed, False)
      else case runTarget reg ev (j_run_id j) (j_queue_name j) t (override_of j t) r of
             (r1, TargetPanic msg) \<Rightarrow> (recover_target ev j t msg r1, True, True)
           | (r1, TargetDone f) \<Rightarrow> target_loop reg ev j (failed \<or> f) ts (publish_step (j_run_id j) r1))"

definition execute ::
  "(string \<rightharpoonup> engine) \<Rightarrow> target_env \<Rightarrow> fault \<times> fault \<Rightarrow> fault \<times> fault \<Rightarrow> string \<Rightarrow> job \<Rightarrow> runner \<Rightarrow> runner" where
  "execute reg ev flts flts2 now j r =
     (case execute_begin (j_run_id j) r of
        (r1, Gone) \<Rightarrow> r1
      | (r1, CanceledWhileQueued) \<Rightarrow> finishQueue flts2 now (j_run_id j) False True r1
      | (r1, Go tot) \<Rightarrow>
          let r2 = write_and_publish flts now (j_run_id j) Running '''' tot (doneCount (j_run_id j) r1) r1;
              (r3, failed, panicked) = target_loop reg ev j False (j_targets j) r2
          in finishQueue flts2 now (j_run_id j) failed (\<not> panicked \<and> j_run_id j \<in> r_ctx_done r3) r3)"

subsection \<open>Shutdown and metrics\<close>

definition claimForForceCancel :: "int \<Rightarrow> runner \<Rightarrow> runner \<times> (nat \<times> nat) option" where
  "claimForForceCancel i r =
     (case r_runs r i of
        None \<Rightarrow> (r, None)
      | Some st \<Rightarrow> (r\<lparr>r_runs := (r_runs r)(i := None), r_finalizing := insert i (r_finalizing r)\<rparr>,
                    Some (rt_total st, rt_done st)))"

text \<open>The number of buffered jobs per display name. Two queues that share a name at some moment
  write the same entry; the map iteration decides which one stays, here the order of \<open>ids\<close>.\<close>

definition QueueDepths :: "int list \<Rightarrow> runner \<Rightarrow> (string \<rightharpoonup> nat)" where
  "QueueDepths ids r =
     foldl (\<lambda>m q. case r_queues r q of None \<Rightarrow> m
                  | Some ch \<Rightarrow> m((case r_queue_names r q of None \<Rightarrow> '''' | Some n \<Rightarrow> n) \<mapsto> length ch))
       Map.empty ids"

text \<open>Shutdown, part one: refuse new work and close the channels (a closed channel still hands out
  its buffer). \<open>False\<close> when another call got there first.\<close>

definition shutdown_begin :: "runner \<Rightarrow> runner \<times> bool" where
  "shutdown_begin r = (if r_closing r then (r, False) else (r\<lparr>r_closing := True\<rparr>, True))"

text \<open>After the grace period: every tracked run is flagged and its context canceled.\<close>

definition shutdown_cancel :: "runner \<Rightarrow> runner" where
  "shutdown_cancel r = r\<lparr>r_runs := (\<lambda>i. map_option (\<lambda>st. st\<lparr>rt_canceled := True\<rparr>) (r_runs r i)),
     r_ctx_done := r_ctx_done r \<union> dom (r_runs r)\<rparr>"

definition shutdown_mark :: "fault \<Rightarrow> string \<Rightarrow> int \<Rightarrow> runner \<Rightarrow> runner" where
  "shutdown_mark flt now i r =
     (case claimForForceCancel i r of
        (r1, None) \<Rightarrow> r1
      | (r1, Some (tot, n)) \<Rightarrow>
          (case SetRunStatus flt now (r_db r1) i Canceled ''server shutdown'' of
             (d, Inl e) \<Rightarrow> endFinalize i (r1\<lparr>r_db := d\<rparr>)
           | (d, Inr _) \<Rightarrow> publishRun i Canceled ''server shutdown'' tot n (endFinalize i (r1\<lparr>r_db := d\<rparr>))))"

definition shutdown_force :: "(int \<Rightarrow> fault) \<Rightarrow> string \<Rightarrow> int list \<Rightarrow> runner \<Rightarrow> runner" where
  "shutdown_force flts now stuck r = fold (\<lambda>i. shutdown_mark (flts i) now i) stuck r"

text \<open>Shutdown as a whole. \<open>drained\<close> says whether the workers were done within the grace period;
  \<open>wait1\<close> and \<open>wait2\<close> are what the other threads did to the runner during the two waits, and
  \<open>stuck\<close> is the list of runs tracked when the grace period ended.\<close>

definition Shutdown ::
  "bool \<Rightarrow> (runner \<Rightarrow> runner) \<Rightarrow> (runner \<Rightarrow> runner) \<Rightarrow> (int \<Rightarrow> fault) \<Rightarrow> string \<Rightarrow> int list \<Rightarrow> runner \<Rightarrow> runner" where
  "Shutdown drained wait1 wait2 flts now stuck r =
     (case shutdown_begin r of
        (r1, False) \<Rightarrow> r1
      | (r1, True) \<Rightarrow>
          let r2 = wait1 r1
          in if drained then r2 else shutdown_force flts now stuck (wait2 (shutdown_cancel r2)))"

end
