(* ===== verification/Claims.thy ===== *)
theory Claims
  imports Run_Store
begin

text \<open>
  The claim discipline of the runner, as an abstract protocol. A run id is created under the
  enqueue lock, marked as in transit, then handed to the tracked runs together with its jobs; from
  there exactly one thread claims it, writes its final status and releases the mark. The comments
  on \<open>finalizing\<close>, \<open>Cancel\<close>, \<open>cancelOrphan\<close> and \<open>claimForForceCancel\<close> in
  \<open>internal/runner/runner.go\<close> describe these rules. Here they are a step relation over the
  status rows, the tracked runs with their pending counts, the in-transit marks, the queued jobs
  and what every thread owns; the theory \<open>Runner_Steps\<close> shows that the code follows it.
\<close>

subsection \<open>Transition systems and simulation\<close>

locale event_system =
  fixes init :: "'s \<Rightarrow> bool" and trans :: "'s \<Rightarrow> 's \<Rightarrow> bool"
begin

inductive reach :: "'s \<Rightarrow> bool" where
  reach_init: "init s \<Longrightarrow> reach s"
| reach_step: "reach s \<Longrightarrow> trans s s' \<Longrightarrow> reach s'"

lemma invariant_reach:
  assumes "\<And>s. init s \<Longrightarrow> I s" "\<And>s s'. reach s \<Longrightarrow> I s \<Longrightarrow> trans s s' \<Longrightarrow> I s'" "reach s"
  shows "I s"
  using assms(3) by induction (use assms(1,2) in auto)

end

text \<open>A forward simulation with an invariant of the abstract system: the invariant holds of the
  abstraction of every reachable concrete state.\<close>

locale simulation = event_system init trans
  for init :: "'s \<Rightarrow> bool" and trans :: "'s \<Rightarrow> 's \<Rightarrow> bool" +
  fixes atrans :: "'a \<Rightarrow> 'a \<Rightarrow> bool" and absf :: "'s \<Rightarrow> 'a" and ainv :: "'a \<Rightarrow> bool" and cinv :: "'s \<Rightarrow> bool"
  assumes init_inv: "init s \<Longrightarrow> ainv (absf s) \<and> cinv s"
    and abs_inv: "ainv a \<Longrightarrow> atrans a a' \<Longrightarrow> ainv a'"
    and cinv_step: "ainv (absf s) \<Longrightarrow> cinv s \<Longrightarrow> trans s s' \<Longrightarrow> cinv s'"
    and sim_step: "ainv (absf s) \<Longrightarrow> cinv s \<Longrightarrow> trans s s' \<Longrightarrow> atrans\<^sup>*\<^sup>* (absf s) (absf s')"
begin

lemma abs_inv_star: "atrans\<^sup>*\<^sup>* a a' \<Longrightarrow> ainv a \<Longrightarrow> ainv a'"
  by (induction rule: rtranclp_induct) (auto intro: abs_inv)

lemma reach_inv: "reach s \<Longrightarrow> ainv (absf s) \<and> cinv s"
  by (erule invariant_reach [rotated -1]) (auto dest: init_inv cinv_step sim_step abs_inv_star)

lemma reach_abs: "reach s \<Longrightarrow> \<exists>s0. init s0 \<and> atrans\<^sup>*\<^sup>* (absf s0) (absf s)"
proof (induction rule: reach.induct)
  case (reach_step s s')
  then show ?case using reach_inv [OF reach_step.hyps(1)] sim_step by (meson rtranclp_trans)
qed auto

end

subsection \<open>The protocol\<close>

text \<open>Threads: the worker of a queue, or one call of an exported method.\<close>

datatype tid = Worker int | Caller nat

text \<open>What a thread owns: nothing; the right to create a run of a schedule; a new row; a marked
  new row; a claimed run whose final status is still to be written; one that was written; a job;
  an orphan it inspects.\<close>

datatype apc =
    ANone | ACreate "int option" | ABorn int | ANew int | AHeld int | ADone int | AJob int | AOrphan int

record claims =
  c_rows :: run_view
  c_seq :: int
  c_pend :: "int \<rightharpoonup> int"
  c_fin :: "int set"
  c_jobs :: "int \<Rightarrow> int list"
  c_pc :: "tid \<Rightarrow> apc"
  c_emu :: "tid option"
  c_lost :: "int set"

definition active_in :: "run_view \<Rightarrow> int \<Rightarrow> bool" where
  "active_in v i \<longleftrightarrow> (case v i of None \<Rightarrow> False | Some (st, sid) \<Rightarrow> \<not> terminal st)"

fun holds :: "apc \<Rightarrow> int option" where
  "holds (ANew i) = Some i"
| "holds (AHeld i) = Some i"
| "holds (ADone i) = Some i"
| "holds _ = None"

fun unwritten :: "apc \<Rightarrow> int option" where
  "unwritten (ABorn i) = Some i"
| "unwritten (ANew i) = Some i"
| "unwritten (AHeld i) = Some i"
| "unwritten _ = None"

fun locked :: "apc \<Rightarrow> bool" where
  "locked (ACreate sid) = True"
| "locked (ABorn i) = True"
| "locked (AOrphan i) = True"
| "locked _ = False"

definition free_schedule :: "run_view \<Rightarrow> int option \<Rightarrow> bool" where
  "free_schedule v sid \<longleftrightarrow> (\<forall>i st s. v i = Some (st, Some s) \<and> \<not> terminal st \<longrightarrow> sid \<noteq> Some s)"

definition add_jobs :: "int set \<Rightarrow> int \<Rightarrow> (int \<Rightarrow> int list) \<Rightarrow> int \<Rightarrow> int list" where
  "add_jobs Q i js q = (if q \<in> Q then js q @ [i] else js q)"

text \<open>What code outside the runner may do to the rows: drop the schedule of a run, delete a
  finished run, insert a finished one under a new id.\<close>

definition env_change :: "run_view \<Rightarrow> int \<Rightarrow> run_view \<Rightarrow> int \<Rightarrow> bool" where
  "env_change v n v' n' \<longleftrightarrow> n \<le> n' \<and>
     (\<forall>i. v' i = v i \<or> (\<exists>st sid. v i = Some (st, sid) \<and> v' i = Some (st, None)) \<or>
          (\<exists>st sid. v i = Some (st, sid) \<and> terminal st \<and> v' i = None) \<or>
          (n < i \<and> i \<le> n' \<and> v i = None \<and> (\<exists>st sid. v' i = Some (st, sid) \<and> terminal st)))"

inductive claim_step :: "claims \<Rightarrow> claims \<Rightarrow> bool" where
  a_lock: "c_pc c t = ANone \<Longrightarrow> c_emu c = None \<Longrightarrow> free_schedule (c_rows c) sid \<Longrightarrow>
     claim_step c (c\<lparr>c_pc := (c_pc c)(t := ACreate sid), c_emu := Some t\<rparr>)"
| a_unlock: "c_pc c t = ACreate sid \<Longrightarrow>
     claim_step c (c\<lparr>c_pc := (c_pc c)(t := ANone), c_emu := None\<rparr>)"
| a_create: "c_pc c t = ACreate sid \<Longrightarrow> i = c_seq c + 1 \<Longrightarrow>
     claim_step c (c\<lparr>c_pc := (c_pc c)(t := ABorn i), c_rows := (c_rows c)(i \<mapsto> (Queued, sid)), c_seq := i\<rparr>)"
| a_mark: "c_pc c t = ABorn i \<Longrightarrow>
     claim_step c (c\<lparr>c_pc := (c_pc c)(t := ANew i), c_fin := insert i (c_fin c), c_emu := None\<rparr>)"
| a_commit: "c_pc c t = ANew i \<Longrightarrow> finite Q \<Longrightarrow> Q \<noteq> {} \<Longrightarrow>
     claim_step c (c\<lparr>c_pc := (c_pc c)(t := ANone), c_fin := c_fin c - {i},
       c_pend := (c_pend c)(i \<mapsto> int (card Q)), c_jobs := add_jobs Q i (c_jobs c)\<rparr>)"
| a_full: "c_pc c t = ANew i \<Longrightarrow>
     claim_step c (c\<lparr>c_pc := (c_pc c)(t := AHeld i), c_jobs := add_jobs Q i (c_jobs c)\<rparr>)"
| a_take: "c_pc c (Worker q) = ANone \<Longrightarrow> c_jobs c q = i # js \<Longrightarrow>
     claim_step c (c\<lparr>c_pc := (c_pc c)(Worker q := AJob i), c_jobs := (c_jobs c)(q := js)\<rparr>)"
| a_drop: "c_pc c (Worker q) = AJob i \<Longrightarrow> c_pend c i = None \<Longrightarrow>
     claim_step c (c\<lparr>c_pc := (c_pc c)(Worker q := ANone)\<rparr>)"
| a_dec: "c_pc c (Worker q) = AJob i \<Longrightarrow> c_pend c i = Some n \<Longrightarrow> n > 1 \<Longrightarrow>
     claim_step c (c\<lparr>c_pc := (c_pc c)(Worker q := ANone), c_pend := (c_pend c)(i \<mapsto> n - 1)\<rparr>)"
| a_last: "c_pc c (Worker q) = AJob i \<Longrightarrow> c_pend c i = Some n \<Longrightarrow> n \<le> 1 \<Longrightarrow>
     claim_step c (c\<lparr>c_pc := (c_pc c)(Worker q := AHeld i), c_pend := (c_pend c)(i := None),
       c_fin := insert i (c_fin c)\<rparr>)"
| a_claim: "c_pc c (Caller k) = ANone \<Longrightarrow> c_pend c i = Some n \<Longrightarrow>
     claim_step c (c\<lparr>c_pc := (c_pc c)(Caller k := AHeld i), c_pend := (c_pend c)(i := None),
       c_fin := insert i (c_fin c)\<rparr>)"
| a_write: "c_pc c t = AHeld i \<Longrightarrow> c_rows c i = Some (st0, sid) \<Longrightarrow> \<not> terminal st0 \<Longrightarrow> terminal st \<Longrightarrow>
     claim_step c (c\<lparr>c_pc := (c_pc c)(t := ADone i), c_rows := (c_rows c)(i \<mapsto> (st, sid))\<rparr>)"
| a_write_failed: "c_pc c t = AHeld i \<Longrightarrow>
     claim_step c (c\<lparr>c_pc := (c_pc c)(t := ADone i), c_lost := insert i (c_lost c)\<rparr>)"
| a_release: "c_pc c t = ADone i \<Longrightarrow>
     claim_step c (c\<lparr>c_pc := (c_pc c)(t := ANone), c_fin := c_fin c - {i}\<rparr>)"
| a_orphan: "c_pc c t = ANone \<Longrightarrow> c_emu c = None \<Longrightarrow> c_pend c i = None \<Longrightarrow> i \<notin> c_fin c \<Longrightarrow>
     claim_step c (c\<lparr>c_pc := (c_pc c)(t := AOrphan i), c_emu := Some t\<rparr>)"
| a_orphan_write: "c_pc c t = AOrphan i \<Longrightarrow> c_rows c i = Some (st0, sid) \<Longrightarrow> \<not> terminal st0 \<Longrightarrow> terminal st \<Longrightarrow>
     claim_step c (c\<lparr>c_rows := (c_rows c)(i \<mapsto> (st, sid))\<rparr>)"
| a_orphan_end: "c_pc c t = AOrphan i \<Longrightarrow>
     claim_step c (c\<lparr>c_pc := (c_pc c)(t := ANone), c_emu := None\<rparr>)"
| a_running: "c_pc c t = AJob i \<Longrightarrow> c_rows c i = Some (st0, sid) \<Longrightarrow> \<not> terminal st0 \<Longrightarrow>
     claim_step c (c\<lparr>c_rows := (c_rows c)(i \<mapsto> (Running, sid))\<rparr>)"
| a_env: "env_change (c_rows c) (c_seq c) v n \<Longrightarrow>
     claim_step c (c\<lparr>c_rows := v, c_seq := n\<rparr>)"

subsection \<open>Its invariant\<close>

text \<open>The queues that still owe a run a job.\<close>

definition owing :: "(int \<Rightarrow> int list) \<Rightarrow> (tid \<Rightarrow> apc) \<Rightarrow> int \<Rightarrow> int set" where
  "owing js pc i = {q. i \<in> set (js q) \<or> pc (Worker q) = AJob i}"

definition once :: "(int \<Rightarrow> int list) \<Rightarrow> (tid \<Rightarrow> apc) \<Rightarrow> int \<Rightarrow> bool" where
  "once js pc i \<longleftrightarrow> (\<forall>q. count_list (js q) i + (if pc (Worker q) = AJob i then 1 else 0) \<le> 1)"

definition rows_bounded :: "claims \<Rightarrow> bool" where
  "rows_bounded c \<longleftrightarrow> (\<forall>i. c_rows c i \<noteq> None \<or> i \<in> c_fin c \<longrightarrow> i \<le> c_seq c)"

text \<open>The enqueue lock belongs to the thread that acts under it.\<close>

definition lock_owner :: "(tid \<Rightarrow> apc) \<Rightarrow> tid option \<Rightarrow> bool" where
  "lock_owner pc emu \<longleftrightarrow> (\<forall>t. locked (pc t) \<longleftrightarrow> emu = Some t)"

text \<open>The in-transit marks are exactly the runs some thread holds, and no two threads hold one.\<close>

definition marks_held :: "(tid \<Rightarrow> apc) \<Rightarrow> int set \<Rightarrow> bool" where
  "marks_held pc fin \<longleftrightarrow> (\<forall>i. i \<in> fin \<longleftrightarrow> (\<exists>t. holds (pc t) = Some i)) \<and>
     (\<forall>t t' i. holds (pc t) = Some i \<longrightarrow> holds (pc t') = Some i \<longrightarrow> t = t')"

definition marks_untracked :: "claims \<Rightarrow> bool" where
  "marks_untracked c \<longleftrightarrow> (\<forall>i\<in>c_fin c. c_pend c i = None) \<and>
     (\<forall>t i. c_pc c t = ABorn i \<or> c_pc c t = AOrphan i \<longrightarrow> i \<notin> c_fin c \<and> c_pend c i = None)"

definition tracked_active :: "claims \<Rightarrow> bool" where
  "tracked_active c \<longleftrightarrow> (\<forall>i. c_pend c i \<noteq> None \<longrightarrow> active_in (c_rows c) i) \<and>
     (\<forall>t i. unwritten (c_pc c t) = Some i \<longrightarrow> active_in (c_rows c) i)"

definition jobs_known :: "claims \<Rightarrow> bool" where
  "jobs_known c \<longleftrightarrow> (\<forall>i. owing (c_jobs c) (c_pc c) i \<noteq> {} \<longrightarrow> i \<le> c_seq c \<and>
     (\<forall>t. c_pc c t \<noteq> ABorn i \<and> c_pc c t \<noteq> ANew i)) \<and>
     (\<forall>k i. c_pc c (Caller k) \<noteq> AJob i)"

definition pending_exact :: "claims \<Rightarrow> bool" where
  "pending_exact c \<longleftrightarrow> (\<forall>i n. c_pend c i = Some n \<longrightarrow>
     finite (owing (c_jobs c) (c_pc c) i) \<and> n = int (card (owing (c_jobs c) (c_pc c) i)) \<and> 0 < n \<and>
     once (c_jobs c) (c_pc c) i)"

definition one_per_schedule :: "claims \<Rightarrow> bool" where
  "one_per_schedule c \<longleftrightarrow>
     (\<forall>i j st st' s. c_rows c i = Some (st, Some s) \<and> \<not> terminal st \<and>
        c_rows c j = Some (st', Some s) \<and> \<not> terminal st' \<longrightarrow> i = j) \<and>
     (\<forall>t sid. c_pc c t = ACreate sid \<longrightarrow> free_schedule (c_rows c) sid)"

definition all_covered :: "claims \<Rightarrow> bool" where
  "all_covered c \<longleftrightarrow> (\<forall>i. active_in (c_rows c) i \<longrightarrow>
     c_pend c i \<noteq> None \<or> (\<exists>t. unwritten (c_pc c t) = Some i) \<or> i \<in> c_lost c)"

definition claims_ok :: "claims \<Rightarrow> bool" where
  "claims_ok c \<longleftrightarrow> rows_bounded c \<and> lock_owner (c_pc c) (c_emu c) \<and> marks_held (c_pc c) (c_fin c) \<and> marks_untracked c \<and>
     tracked_active c \<and> jobs_known c \<and> pending_exact c \<and> one_per_schedule c \<and> all_covered c"

subsection \<open>Changing what one thread owns\<close>

lemma env_change_cases:
  assumes "env_change v n v' n'"
  shows "v' i = v i \<or> (\<exists>st sid. v i = Some (st, sid) \<and> v' i = Some (st, None)) \<or>
          (\<exists>st sid. v i = Some (st, sid) \<and> terminal st \<and> v' i = None) \<or>
          (n < i \<and> i \<le> n' \<and> v i = None \<and> (\<exists>st sid. v' i = Some (st, sid) \<and> terminal st))"
  using assms unfolding env_change_def by blast

lemma env_change_active: "env_change v n v' n' \<Longrightarrow> active_in v' i = active_in v i"
  by (drule env_change_cases [of _ _ _ _ i]) (auto simp: active_in_def)

lemma env_change_schedule:
  "env_change v n v' n' \<Longrightarrow> v' i = Some (st, Some s) \<Longrightarrow> \<not> terminal st \<Longrightarrow> v i = Some (st, Some s)"
  by (drule env_change_cases [of _ _ _ _ i]) auto

lemma env_change_seq: "env_change v n v' n' \<Longrightarrow> n \<le> n'"
  by (simp add: env_change_def)

lemma env_change_bound:
  "env_change v n v' n' \<Longrightarrow> (v i \<noteq> None \<Longrightarrow> i \<le> n) \<Longrightarrow> v' i \<noteq> None \<Longrightarrow> i \<le> n'"
  using env_change_cases [of v n v' n' i] env_change_seq [of v n v' n'] by auto

lemma active_in_upd [simp]:
  "active_in (v(i \<mapsto> (st, sid))) j = (if j = i then \<not> terminal st else active_in v j)"
  by (simp add: active_in_def)

lemma lock_owner_upd:
  assumes "lock_owner pc emu"
  shows "\<not> locked (pc t) \<Longrightarrow> \<not> locked x \<Longrightarrow> lock_owner (pc(t := x)) emu"
    and "locked (pc t) \<Longrightarrow> locked x \<Longrightarrow> lock_owner (pc(t := x)) emu"
    and "emu = None \<Longrightarrow> locked x \<Longrightarrow> lock_owner (pc(t := x)) (Some t)"
    and "locked (pc t) \<Longrightarrow> \<not> locked x \<Longrightarrow> lock_owner (pc(t := x)) None"
  using assms unfolding lock_owner_def by auto

lemma marks_held_upd:
  assumes "marks_held pc fin"
  shows "holds (pc t) = holds x \<Longrightarrow> marks_held (pc(t := x)) fin"
    and "holds (pc t) = None \<Longrightarrow> i \<notin> fin \<Longrightarrow> holds x = Some i \<Longrightarrow> marks_held (pc(t := x)) (insert i fin)"
    and "holds (pc t) = Some i \<Longrightarrow> holds x = None \<Longrightarrow> marks_held (pc(t := x)) (fin - {i})"
  subgoal premises p
  proof -
    have "holds ((pc(t := x)) t') = holds (pc t')" for t' using p by simp
    then show ?thesis using assms unfolding marks_held_def by simp
  qed
  subgoal premises p
  proof -
    have h: "holds ((pc(t := x)) t') = (if t' = t then Some i else holds (pc t'))" for t' using p by simp
    have "holds (pc t') \<noteq> Some i" for t' using p(2) assms unfolding marks_held_def by blast
    then show ?thesis using assms p(1) unfolding marks_held_def h
      by (auto split: if_splits) (metis option.distinct(1))
  qed
  subgoal premises p
  proof -
    have h: "holds ((pc(t := x)) t') = (if t' = t then None else holds (pc t'))" for t' using p by simp
    have "holds (pc t') = Some i \<Longrightarrow> t' = t" for t' using p(1) assms unfolding marks_held_def by blast
    then show ?thesis using assms p(1) unfolding marks_held_def h
      by (auto split: if_splits) (metis option.inject)
  qed
  done

subsection \<open>Consequences of the invariant\<close>

lemma claims_okD:
  assumes "claims_ok c"
  shows "c_rows c i = Some x \<Longrightarrow> i \<le> c_seq c"
    and "lock_owner (c_pc c) (c_emu c)"
    and "marks_held (c_pc c) (c_fin c)"
    and "i \<in> c_fin c \<Longrightarrow> c_pend c i = None"
    and "c_pc c t = ABorn i \<Longrightarrow> i \<notin> c_fin c \<and> c_pend c i = None"
    and "c_pc c t = AOrphan i \<Longrightarrow> i \<notin> c_fin c \<and> c_pend c i = None"
    and "c_pend c i = Some n \<Longrightarrow> active_in (c_rows c) i"
    and "unwritten (c_pc c t) = Some i \<Longrightarrow> active_in (c_rows c) i"
    and "i \<in> c_fin c \<Longrightarrow> i \<le> c_seq c"
  using assms
  by (auto simp: claims_ok_def rows_bounded_def marks_untracked_def tracked_active_def)

lemma held_mark: "claims_ok c \<Longrightarrow> holds (c_pc c t) = Some i \<Longrightarrow> i \<in> c_fin c"
  using claims_okD(3) unfolding marks_held_def by blast

lemma lock_unique: "claims_ok c \<Longrightarrow> locked (c_pc c t) \<Longrightarrow> locked (c_pc c t') \<Longrightarrow> t = t'"
  using claims_okD(2) unfolding lock_owner_def by fastforce

lemma unwritten_cases:
  assumes "unwritten p = Some i"
  obtains "p = ABorn i" | "holds p = Some i" "p = ANew i \<or> p = AHeld i"
  using assms by (cases p) auto

lemma unwritten_unique:
  assumes ok: "claims_ok c" and "unwritten (c_pc c t) = Some i" "unwritten (c_pc c t') = Some i"
  shows "t = t'"
proof -
  have h: "holds (c_pc c t) = Some i \<Longrightarrow> holds (c_pc c t') = Some i \<Longrightarrow> t = t'"
    using claims_okD(3) [OF ok] unfolding marks_held_def by blast
  show ?thesis
    using assms(2,3) h held_mark [OF ok] claims_okD(5) [OF ok] lock_unique [OF ok, of t t']
    by (elim unwritten_cases) auto
qed

lemma unwritten_untracked:
  assumes ok: "claims_ok c" and "unwritten (c_pc c t) = Some i"
  shows "c_pend c i = None" and "c_pc c t' \<noteq> AOrphan i"
  using assms(2) held_mark [OF ok, of t i] claims_okD(4-6) [OF ok] lock_unique [OF ok, of t t']
  by (auto elim!: unwritten_cases)

lemma fresh_id:
  assumes "claims_ok c"
  shows "c_rows c (c_seq c + 1) = None" "c_pend c (c_seq c + 1) = None" "c_seq c + 1 \<notin> c_fin c"
    "unwritten (c_pc c t) \<noteq> Some (c_seq c + 1)"
proof -
  show r: "c_rows c (c_seq c + 1) = None"
    using claims_okD(1) [OF assms, of "c_seq c + 1"] by (cases "c_rows c (c_seq c + 1)") auto
  then have na: "\<not> active_in (c_rows c) (c_seq c + 1)" by (simp add: active_in_def)
  show "c_pend c (c_seq c + 1) = None"
    using na claims_okD(7) [OF assms] by (cases "c_pend c (c_seq c + 1)") auto
  show "c_seq c + 1 \<notin> c_fin c" using claims_okD(9) [OF assms, of "c_seq c + 1"] by auto
  show "unwritten (c_pc c t) \<noteq> Some (c_seq c + 1)" using na claims_okD(8) [OF assms] by blast
qed

lemma active_bounded: "claims_ok c \<Longrightarrow> active_in (c_rows c) i \<Longrightarrow> i \<le> c_seq c"
  using claims_okD(1) by (auto simp: active_in_def split: option.splits)

subsection \<open>Every step keeps it\<close>

lemma rows_bounded_step: 
  assumes ok: "claims_ok c" and "claim_step c c'"
  shows "rows_bounded c'"
proof -
  note d = claims_okD(1,9) [OF ok]
  show ?thesis using assms(2)
  proof cases
    case (a_env v n)
    then show ?thesis using env_change_bound [of "c_rows c" "c_seq c" v n] env_change_seq [OF a_env(2)] d
      by (force simp: rows_bounded_def)
  next
    case (a_mark t i)
    then show ?thesis using active_bounded [OF ok, of i] claims_okD(8) [OF ok, of t i] d
      by (force simp: rows_bounded_def)
  qed (use d active_bounded [OF ok] claims_okD(7) [OF ok] in \<open>force simp: rows_bounded_def\<close>)+
qed

lemma lock_owner_step:
  assumes ok: "claims_ok c" and "claim_step c c'"
  shows "lock_owner (c_pc c') (c_emu c')"
  using assms(2) claims_okD(2) [OF ok] by cases (simp_all add: lock_owner_upd)

lemma marks_held_step:
  assumes ok: "claims_ok c" and "claim_step c c'"
  shows "marks_held (c_pc c') (c_fin c')"
  using assms(2) claims_okD(3) [OF ok]
  by cases (auto simp: marks_held_upd(1,3) intro!: marks_held_upd(2) dest: claims_okD(4-6) [OF ok])

lemma marks_untracked_step:
  assumes ok: "claims_ok c" and step: "claim_step c c'"
  shows "marks_untracked c'"
proof -
  note d = claims_okD(4-6) [OF ok]
  have uniq: "c_pc c t = ANew i \<Longrightarrow> c_pc c t' \<noteq> ABorn i \<and> c_pc c t' \<noteq> AOrphan i" for t t' i
    using held_mark [OF ok, of t i] d(2,3) by fastforce
  have lk: "c_pc c t = ABorn i \<Longrightarrow> c_pc c t' = ABorn j \<or> c_pc c t' = AOrphan j \<Longrightarrow> t' = t" for t t' i j
    using lock_unique [OF ok, of t t'] by auto
  show ?thesis using step
  proof cases
    case (a_create t sid i)
    then show ?thesis using d fresh_id(2,3) [OF ok] by (auto simp: marks_untracked_def)
  next
    case (a_mark t i)
    then show ?thesis using d lk [of t] by (auto simp: marks_untracked_def)
  next
    case (a_commit t i Q)
    then show ?thesis using d uniq [of t i] by (auto simp: marks_untracked_def)
  qed (use d in \<open>auto simp: marks_untracked_def\<close>)
qed

lemma tracked_active_step:
  assumes ok: "claims_ok c" and step: "claim_step c c'"
  shows "tracked_active c'"
proof -
  note d = claims_okD(7,8) [OF ok]
  show ?thesis using step
  proof cases
    case (a_write t i st0 sid st)
    then show ?thesis
      using d unwritten_unique [OF ok, of t i] unwritten_untracked(1) [OF ok, of t i]
      by (auto simp: tracked_active_def)
  next
    case (a_orphan_write t i st0 sid st)
    then show ?thesis using d unwritten_untracked(2) [OF ok] claims_okD(6) [OF ok, of t i]
      by (auto simp: tracked_active_def)
  next
    case (a_env v n)
    then show ?thesis using d by (auto simp: tracked_active_def env_change_active)
  next
    case (a_commit t i Q)
    then show ?thesis using d d(2) [of t i] by (auto simp: tracked_active_def)
  next
    case (a_full t i Q)
    then show ?thesis using d d(2) [of t i] by (auto simp: tracked_active_def)
  next
    case (a_mark t i)
    then show ?thesis using d d(2) [of t i] by (auto simp: tracked_active_def)
  next
    case (a_create t sid i)
    then show ?thesis using d by (auto simp: tracked_active_def status_simps)
  next
    case (a_running t i)
    then show ?thesis using d by (auto simp: tracked_active_def status_simps)
  next
    case (a_last q i n)
    then show ?thesis using d d(1) [of i] by (auto simp: tracked_active_def)
  next
    case (a_claim k i n)
    then show ?thesis using d d(1) [of i] by (auto simp: tracked_active_def)
  next
    case (a_dec q i n)
    then show ?thesis using d d(1) [of i] by (auto simp: tracked_active_def)
  qed (use d in \<open>auto simp: tracked_active_def\<close>)
qed


lemma count_list_once: "count_list xs i \<le> 1 \<Longrightarrow> i \<in> set xs \<Longrightarrow> count_list xs i = 1"
  using count_list_0_iff [of xs i] by linarith

lemma owing_upd:
  "(\<And>i. pc t \<noteq> AJob i) \<Longrightarrow> (\<And>i. x \<noteq> AJob i) \<Longrightarrow> owing js (pc(t := x)) = owing js pc"
  "(\<And>i. pc t \<noteq> AJob i) \<Longrightarrow> (\<And>i. x \<noteq> AJob i) \<Longrightarrow> once js (pc(t := x)) = once js pc"
  by (auto simp: owing_def once_def fun_eq_iff)

lemma owing_add:
  "owing (add_jobs Q i js) pc j = (if j = i then owing js pc i \<union> Q else owing js pc j)"
  by (auto simp: owing_def add_jobs_def)

lemma once_add:
  "owing js pc i = {} \<Longrightarrow> once (add_jobs Q i js) pc i"
  "j \<noteq> i \<Longrightarrow> once (add_jobs Q i js) pc j = once js pc j"
proof -
  assume "owing js pc i = {}"
  then have "i \<notin> set (js q)" "pc (Worker q) \<noteq> AJob i" for q by (auto simp: owing_def)
  then show "once (add_jobs Q i js) pc i" by (simp add: once_def add_jobs_def)
qed (simp add: once_def add_jobs_def if_distrib cong: if_cong)

lemma owing_take:
  assumes "pc (Worker q) = ANone" "js q = i # is"
  shows "owing (js(q := is)) (pc(Worker q := AJob i)) = owing js pc"
    and "once (js(q := is)) (pc(Worker q := AJob i)) = once js pc"
proof -
  have "count_list ((js(q := is)) p) j + (if (pc(Worker q := AJob i)) (Worker p) = AJob j then 1 else 0) =
        count_list (js p) j + (if pc (Worker p) = AJob j then 1 else 0)" for p j
    using assms by auto
  then show "once (js(q := is)) (pc(Worker q := AJob i)) = once js pc"
    unfolding once_def fun_eq_iff by presburger
qed (use assms in \<open>auto simp: owing_def fun_eq_iff\<close>)

lemma owing_drop:
  assumes "pc (Worker q) = AJob i" "\<And>j. x \<noteq> AJob j"
  shows "j \<noteq> i \<Longrightarrow> owing js (pc(Worker q := x)) j = owing js pc j"
    and "j \<noteq> i \<Longrightarrow> once js (pc(Worker q := x)) j = once js pc j"
    and "once js pc i \<Longrightarrow> owing js (pc(Worker q := x)) i = owing js pc i - {q}"
    and "once js pc i \<Longrightarrow> once js (pc(Worker q := x)) i"
    and "owing js (pc(Worker q := x)) j \<subseteq> owing js pc j"
    and "q \<in> owing js pc i"
proof -
  show "once js pc i \<Longrightarrow> owing js (pc(Worker q := x)) i = owing js pc i - {q}"
  proof -
    assume o: "once js pc i"
    then have "count_list (js q) i = 0" using assms(1) by (auto simp: once_def dest: spec [of _ q])
    then have "i \<notin> set (js q)" by (simp add: count_list_0_iff)
    then show ?thesis using assms by (auto simp: owing_def)
  qed
  show "once js (pc(Worker q := x)) i" if o: "once js pc i"
    unfolding once_def
  proof
    fix p
    from o have "count_list (js p) i + (if pc (Worker p) = AJob i then 1 else 0) \<le> 1" by (simp add: once_def)
    then show "count_list (js p) i + (if (pc(Worker q := x)) (Worker p) = AJob i then 1 else 0) \<le> 1"
      using assms by (auto split: if_splits)
  qed
qed (use assms in \<open>auto simp: owing_def once_def\<close>)

lemma jobs_knownD:
  assumes "claims_ok c" "q \<in> owing (c_jobs c) (c_pc c) i"
  shows "i \<le> c_seq c" "c_pc c t \<noteq> ABorn i" "c_pc c t \<noteq> ANew i"
  using assms by (auto simp: claims_ok_def jobs_known_def)

lemma caller_no_job: "claims_ok c \<Longrightarrow> c_pc c (Caller k) \<noteq> AJob i"
  by (simp add: claims_ok_def jobs_known_def)

lemma jobs_known_add:
  assumes ok: "claims_ok c" and "c_jobs c' = add_jobs Q i (c_jobs c)" "c_pc c' = (c_pc c)(t := x)" "c_seq c' = c_seq c"
    and "\<And>j. c_pc c t \<noteq> AJob j" "x = ANone \<or> x = AHeld i" "i \<le> c_seq c"
    and "\<And>t'. c_pc c t' \<noteq> ABorn i \<and> (c_pc c t' = ANew i \<longrightarrow> t' = t)"
  shows "jobs_known c'"
proof -
  have ow: "owing (c_jobs c') (c_pc c') j \<subseteq> (if j = i then UNIV else owing (c_jobs c) (c_pc c) j)" for j
    using assms(2,3,5,6) by (auto simp: owing_def add_jobs_def split: if_splits)
  show ?thesis unfolding jobs_known_def
  proof (intro conjI allI impI)
    fix j assume "owing (c_jobs c') (c_pc c') j \<noteq> {}"
    then have "j = i \<or> (\<exists>q. q \<in> owing (c_jobs c) (c_pc c) j)" using ow [of j] by (auto split: if_splits)
    then show "j \<le> c_seq c'" "\<And>t'. c_pc c' t' \<noteq> ABorn j" "\<And>t'. c_pc c' t' \<noteq> ANew j"
      using assms jobs_knownD [OF ok] by (auto split: if_splits)
  next
    fix k j show "c_pc c' (Caller k) \<noteq> AJob j" using assms caller_no_job [OF ok] by auto
  qed
qed

lemma jobs_known_step:
  assumes ok: "claims_ok c" and step: "claim_step c c'"
  shows "jobs_known c'"
proof -
  have d: "i \<le> c_seq c \<and> c_pc c t \<noteq> ABorn i \<and> c_pc c t \<noteq> ANew i" if "q \<in> owing (c_jobs c) (c_pc c) i" for q i t
    using jobs_knownD [OF ok that] by auto
  note d' = d caller_no_job [OF ok]
  show ?thesis using step
  proof cases
    case (a_create t sid i)
    then show ?thesis using d' fresh_id [OF ok] by (fastforce simp: jobs_known_def owing_upd)
  next
    case (a_mark t i)
    then show ?thesis using d' by (fastforce simp: jobs_known_def owing_upd)
  next
    case (a_commit t i Q)
    then have "c_pc c t' \<noteq> ABorn i \<and> (c_pc c t' = ANew i \<longrightarrow> t' = t)" for t'
      using unwritten_unique [OF ok, of t' i t] by auto
    moreover have "i \<le> c_seq c" using a_commit active_bounded [OF ok claims_okD(8) [OF ok, of t i]] by simp
    ultimately show ?thesis
      by (intro jobs_known_add [OF ok, where i = i and Q = Q and t = t and x = "ANone"]) (simp_all add: a_commit)
  next
    case (a_full t i Q)
    then have "c_pc c t' \<noteq> ABorn i \<and> (c_pc c t' = ANew i \<longrightarrow> t' = t)" for t'
      using unwritten_unique [OF ok, of t' i t] by auto
    moreover have "i \<le> c_seq c" using a_full active_bounded [OF ok claims_okD(8) [OF ok, of t i]] by simp
    ultimately show ?thesis
      by (intro jobs_known_add [OF ok, where i = i and Q = Q and t = t and x = "AHeld i"]) (simp_all add: a_full)
  next
    case (a_take q i js)
    then show ?thesis using d' by (auto simp: jobs_known_def owing_take)
  next
    case (a_drop q i)
    then show ?thesis using d' owing_drop(5) [of "c_pc c" q i ANone "c_jobs c"] by (fastforce simp: jobs_known_def)
  next
    case (a_dec q i n)
    then show ?thesis using d' owing_drop(5) [of "c_pc c" q i ANone "c_jobs c"] by (fastforce simp: jobs_known_def)
  next
    case (a_last q i n)
    then show ?thesis using d' owing_drop(5) [of "c_pc c" q i "AHeld i" "c_jobs c"] by (fastforce simp: jobs_known_def)
  next
    case (a_env v n)
    then show ?thesis using d' env_change_seq [OF a_env(2)] by (fastforce simp: jobs_known_def)
  qed (use d' in \<open>auto simp: jobs_known_def owing_upd\<close>)
qed

lemma pending_exactD:
  assumes "claims_ok c" "c_pend c i = Some n"
  shows "finite (owing (c_jobs c) (c_pc c) i)" "n = int (card (owing (c_jobs c) (c_pc c) i))" "0 < n"
    "once (c_jobs c) (c_pc c) i"
  using assms by (auto simp: claims_ok_def pending_exact_def)

lemma pending_exact_step:
  assumes ok: "claims_ok c" and step: "claim_step c c'"
  shows "pending_exact c'"
proof -
  note d = pending_exactD [OF ok]
  show ?thesis using step
  proof cases
    case (a_commit t i Q)
    have "owing (c_jobs c) (c_pc c) i = {}" using jobs_knownD(3) [OF ok, of _ i t] a_commit(2) by blast
    then show ?thesis using a_commit d
      by (auto simp: pending_exact_def owing_upd owing_add once_add)
  next
    case (a_full t i Q)
    have "c_pend c i = None" using unwritten_untracked(1) [OF ok, of t i] a_full by simp
    then show ?thesis using a_full d
      by (auto simp: pending_exact_def owing_upd owing_add once_add)
  next
    case (a_take q i js)
    then show ?thesis using d by (auto simp: pending_exact_def owing_take)
  next
    case (a_drop q i)
    then have "c_pend c j = Some n \<Longrightarrow> j \<noteq> i" for j n by auto
    with a_drop d show ?thesis by (simp add: pending_exact_def owing_drop)
  next
    case (a_dec q i n)
    let ?O = "owing (c_jobs c) (c_pc c) i"
    have "q \<in> ?O" using a_dec(2) by (simp add: owing_def)
    then have "int (card (?O - {q})) = n - 1" using d [OF a_dec(3)] by (simp add: card_Diff_singleton of_nat_diff Suc_leI card_gt_0_iff)
    then show ?thesis using a_dec d by (auto simp: pending_exact_def owing_drop)
  next
    case (a_last q i n)
    then show ?thesis using d by (auto simp: pending_exact_def owing_drop)
  next
    case (a_claim k i n)
    then show ?thesis using d by (auto simp: pending_exact_def owing_upd)
  qed (use d in \<open>auto simp: pending_exact_def owing_upd\<close>)
qed

lemma one_per_scheduleD:
  assumes "claims_ok c"
  shows "c_rows c i = Some (st, Some s) \<Longrightarrow> \<not> terminal st \<Longrightarrow> c_rows c j = Some (st', Some s) \<Longrightarrow>
     \<not> terminal st' \<Longrightarrow> i = j"
   and "c_pc c t = ACreate sid \<Longrightarrow> free_schedule (c_rows c) sid"
  using assms by (auto simp: claims_ok_def one_per_schedule_def)

lemma one_per_schedule_shrink:
  assumes ok: "claims_ok c"
    and sub: "\<And>j st s. c_rows c' j = Some (st, Some s) \<Longrightarrow> \<not> terminal st \<Longrightarrow>
       \<exists>st0. c_rows c j = Some (st0, Some s) \<and> \<not> terminal st0"
    and pcs: "\<And>t sid. c_pc c' t = ACreate sid \<Longrightarrow> free_schedule (c_rows c) sid"
  shows "one_per_schedule c'"
proof -
  have "free_schedule (c_rows c') sid" if "free_schedule (c_rows c) sid" for sid
    using that unfolding free_schedule_def by (blast dest: sub)
  moreover have "i = j" if "c_rows c' i = Some (st, Some s)" "\<not> terminal st"
      "c_rows c' j = Some (st', Some s)" "\<not> terminal st'" for i j st st' s
    using sub [OF that(1,2)] sub [OF that(3,4)] one_per_scheduleD(1) [OF ok] by blast
  ultimately show ?thesis using pcs unfolding one_per_schedule_def by blast
qed

lemma one_per_schedule_step:
  assumes ok: "claims_ok c" and step: "claim_step c c'"
  shows "one_per_schedule c'"
proof -
  note d = one_per_scheduleD [OF ok]
  have lk: "c_pc c t = ACreate s \<Longrightarrow> c_pc c t' = ACreate s' \<Longrightarrow> t' = t" for t t' s s'
    using lock_unique [OF ok, of t t'] by auto
  show ?thesis using step
  proof cases
    case (a_create t sid i)
    have none: "c_pc c' t' \<noteq> ACreate s" for t' s using lk [OF a_create(2)] a_create(1) by auto
    have "sid \<noteq> Some s" if "c_rows c j = Some (st, Some s)" "\<not> terminal st" for j st s
      using d(2) [OF a_create(2)] that unfolding free_schedule_def by blast
    then show ?thesis unfolding one_per_schedule_def using none a_create(1) d(1) by (auto split: if_splits)
  next
    case (a_env v n)
    show ?thesis
      by (rule one_per_schedule_shrink [OF ok]) (use a_env d(2) env_change_schedule [OF a_env(2)] in auto)
  qed (rule one_per_schedule_shrink [OF ok]; use d(2) in \<open>force split: if_splits\<close>)+
qed

lemma all_coveredD:
  assumes "claims_ok c" "active_in (c_rows c) i"
  shows "c_pend c i \<noteq> None \<or> (\<exists>t. unwritten (c_pc c t) = Some i) \<or> i \<in> c_lost c"
  using assms by (simp add: claims_ok_def all_covered_def)


lemma ex_upd: "(\<exists>t'. P ((pc(t := x)) t')) \<longleftrightarrow> P x \<or> (\<exists>t'. t' \<noteq> t \<and> P (pc t'))"
  by (auto simp: fun_upd_def)

lemma all_covered_step:
  assumes ok: "claims_ok c" and step: "claim_step c c'"
  shows "all_covered c'"
  unfolding all_covered_def
proof (intro allI impI)
  fix j assume act: "active_in (c_rows c') j"
  have "active_in (c_rows c) j \<or> (\<exists>t. unwritten (c_pc c' t) = Some j)"
    using step act
    by cases (auto split: if_splits simp: active_in_def env_change_active ex_upd dest: env_change_active)
  then consider "\<exists>t. unwritten (c_pc c' t) = Some j" | "c_pend c j \<noteq> None"
    | t0 where "unwritten (c_pc c t0) = Some j" | "j \<in> c_lost c"
    using all_coveredD [OF ok] by blast
  then show "c_pend c' j \<noteq> None \<or> (\<exists>t. unwritten (c_pc c' t) = Some j) \<or> j \<in> c_lost c'"
  proof cases
    case 2
    from step this show ?thesis by cases (auto simp: ex_upd split: if_splits)
  next
    case (3 t0)
    from step act 3 have "c_pend c' j \<noteq> None \<or> unwritten (c_pc c' t0) = Some j \<or> j \<in> c_lost c'"
      by cases (auto split: if_splits)
    then show ?thesis by blast
  next
    case 4
    from step this show ?thesis by cases auto
  qed blast
qed

lemma claims_ok_step: "claims_ok c \<Longrightarrow> claim_step c c' \<Longrightarrow> claims_ok c'"
  unfolding claims_ok_def [of c']
  by (intro conjI rows_bounded_step lock_owner_step marks_held_step marks_untracked_step
      tracked_active_step jobs_known_step pending_exact_step one_per_schedule_step all_covered_step)

end
