(* ===== verification/Runner_Steps.thy ===== *)
theory Runner_Steps
  imports Runner Claims
begin

text \<open>
  The runner under concurrency: queue workers and calls of \<open>Enqueue\<close>, \<open>Cancel\<close> and
  \<open>Shutdown\<close> interleave, and so does everything else that writes the database. A step is one
  critical section of \<open>r.mu\<close>, one store call, or one publication, exactly the pieces defined in
  \<open>Runner\<close>; between two steps of a thread any other thread may run. \<open>enqueueMu\<close> is held across
  steps, so its owner is part of the state. \<open>s_lost\<close> is a ghost: the runs whose final status
  write the store refused.
\<close>

subsection \<open>Where a thread stands\<close>

datatype pc =
    Idle
  | EnqTargets run_request "target list"
  | EnqCreate run_request "target list"
  | EnqMark run_request "target list" int
  | EnqCommit run_request "target list" int
  | Write int run_status string nat nat bool
  | Publish int run_status string nat nat
  | EndFin int
  | OrphanWait int
  | OrphanRead int
  | OrphanWrite int
  | OrphanPublish int
  | WBegin job
  | WRunning job nat
  | WPubRunning job nat
  | WTarget job "target list" bool
  | WMeta job target "target list" bool raw
  | WTest job target "target list" bool raw result_meta
  | WPanic job target string
  | WMark job "target list" bool bool
  | WPubMark job "target list" bool bool nat nat
  | WFinish job bool bool
  | ShutWait
  | ShutLoop "int list"
  | ShutWrite int nat nat "int list"
  | ShutEnd int "(nat \<times> nat) option" "int list"
  | ShutPublish int nat nat "int list"

record sys =
  s_r :: runner
  s_pc :: "tid \<Rightarrow> pc"
  s_emu :: "tid option"
  s_lost :: "int set"

definition goto :: "tid \<Rightarrow> pc \<Rightarrow> runner \<Rightarrow> sys \<Rightarrow> sys" where
  "goto t p r s = s\<lparr>s_r := r, s_pc := (s_pc s)(t := p)\<rparr>"

text \<open>After a target: on with the loop, or, when the engine panicked, out of it as failed.\<close>

definition after_mark :: "job \<Rightarrow> target list \<Rightarrow> bool \<Rightarrow> bool \<Rightarrow> pc" where
  "after_mark j ts failed panicked = (if panicked then WFinish j True False else WTarget j ts failed)"


text \<open>The result row of one target, for each way the engine call can end.\<close>

inductive target_result :: "int \<Rightarrow> target \<Rightarrow> raw \<Rightarrow> result \<Rightarrow> bool \<Rightarrow> bool" for i t opts where
  "target_result i t opts (failed_result (base_result i t opts now\<lparr>res_duration_ms := dur\<rparr>) msg) True"
| "target_result i t opts (ok_result (base_result i t opts now\<lparr>res_duration_ms := dur\<rparr>) er) False"

subsection \<open>Steps of the workers\<close>

inductive wstep :: "int \<Rightarrow> sys \<Rightarrow> sys \<Rightarrow> bool" for q where
  w_take: "s_pc s (Worker q) = Idle \<Longrightarrow> r_queues (s_r s) q = Some (j # js) \<Longrightarrow>
     wstep q s (goto (Worker q) (WBegin j) ((s_r s)\<lparr>r_queues := (r_queues (s_r s))(q \<mapsto> js)\<rparr>) s)"
| w_gone: "s_pc s (Worker q) = WBegin j \<Longrightarrow> execute_begin (j_run_id j) (s_r s) = (r, Gone) \<Longrightarrow>
     wstep q s (goto (Worker q) Idle r s)"
| w_canceled: "s_pc s (Worker q) = WBegin j \<Longrightarrow> execute_begin (j_run_id j) (s_r s) = (r, CanceledWhileQueued) \<Longrightarrow>
     wstep q s (goto (Worker q) (WFinish j False True) r s)"
| w_go: "s_pc s (Worker q) = WBegin j \<Longrightarrow> execute_begin (j_run_id j) (s_r s) = (r, Go tot) \<Longrightarrow>
     wstep q s (goto (Worker q) (WRunning j tot) r s)"
| w_running: "s_pc s (Worker q) = WRunning j tot \<Longrightarrow>
     setRunStatus None flts now (j_run_id j) Running '''' (s_r s) = (r, err) \<Longrightarrow>
     wstep q s (goto (Worker q) (if err = None then WPubRunning j tot else WTarget j (j_targets j) False) r s)"
| w_pub_running: "s_pc s (Worker q) = WPubRunning j tot \<Longrightarrow>
     wstep q s (goto (Worker q) (WTarget j (j_targets j) False)
       (publishRun (j_run_id j) Running '''' tot (doneCount (j_run_id j) (s_r s)) (s_r s)) s)"
| w_next: "s_pc s (Worker q) = WTarget j (t # ts) failed \<Longrightarrow> j_run_id j \<notin> r_ctx_done (s_r s) \<Longrightarrow>
     target_options flt t (override_of j t) (r_db (s_r s)) = (d, opts) \<Longrightarrow>
     wstep q s (goto (Worker q) (WMeta j t ts failed opts) ((s_r s)\<lparr>r_db := d\<rparr>) s)"
| w_meta: "s_pc s (Worker q) = WMeta j t ts failed opts \<Longrightarrow>
     wstep q s (goto (Worker q) (WTest j t ts failed opts (run_meta (j_run_id j) (j_queue_name j) (s_r s))) (s_r s) s)"
| w_progress: "s_pc s (Worker q) = WTest j t ts failed opts m \<Longrightarrow>
     wstep q s (goto (Worker q) (WTest j t ts failed opts m)
       ((s_r s)\<lparr>r_events := r_events (s_r s) @ [EvProgress (j_run_id j) (t_id t) (t_engine t) p]\<rparr>) s)"
| w_result: "s_pc s (Worker q) = WTest j t ts failed opts m \<Longrightarrow>
     target_result (j_run_id j) t opts res bad \<Longrightarrow> storeResult flt res m (s_r s) = (r, ok) \<Longrightarrow>
     wstep q s (goto (Worker q) (WMark j ts (failed \<or> bad \<or> \<not> ok) False) r s)"
| w_panic: "s_pc s (Worker q) = WTest j t ts failed opts m \<Longrightarrow>
     wstep q s (goto (Worker q) (WPanic j t msg) (s_r s) s)"
| w_recover: "s_pc s (Worker q) = WPanic j t msg \<Longrightarrow>
     storeResult flt (recover_result now j t msg) (recover_meta j) (s_r s) = (r, ok) \<Longrightarrow>
     wstep q s (goto (Worker q) (WMark j [] True True) r s)"
| w_mark_gone: "s_pc s (Worker q) = WMark j ts failed p \<Longrightarrow> markTargetDone (j_run_id j) (s_r s) = (r, None) \<Longrightarrow>
     wstep q s (goto (Worker q) (after_mark j ts failed p) r s)"
| w_mark: "s_pc s (Worker q) = WMark j ts failed p \<Longrightarrow> markTargetDone (j_run_id j) (s_r s) = (r, Some (tot, n)) \<Longrightarrow>
     wstep q s (goto (Worker q) (WPubMark j ts failed p tot n) r s)"
| w_pub_mark: "s_pc s (Worker q) = WPubMark j ts failed p tot n \<Longrightarrow>
     wstep q s (goto (Worker q) (after_mark j ts failed p) (publishRun (j_run_id j) Running '''' tot n (s_r s)) s)"
| w_end: "s_pc s (Worker q) = WTarget j ts failed \<Longrightarrow> ts = [] \<or> j_run_id j \<in> r_ctx_done (s_r s) \<Longrightarrow>
     wstep q s (goto (Worker q) (WFinish j failed (j_run_id j \<in> r_ctx_done (s_r s))) (s_r s) s)"
| w_finish_more: "s_pc s (Worker q) = WFinish j failed canceled \<Longrightarrow>
     finish_claim (j_run_id j) failed canceled (s_r s) = (r, None) \<Longrightarrow>
     wstep q s (goto (Worker q) Idle r s)"
| w_finish_last: "s_pc s (Worker q) = WFinish j failed canceled \<Longrightarrow>
     finish_claim (j_run_id j) failed canceled (s_r s) = (r, Some (st, tot, n)) \<Longrightarrow>
     wstep q s (goto (Worker q) (Write (j_run_id j) st '''' tot n False) r s)"

subsection \<open>The final status write\<close>

text \<open>The ending that workers, \<open>Cancel\<close> and a refused \<open>Enqueue\<close> share: write, publish when the
  write held (or always, after a full queue), release the mark.\<close>

inductive fstep :: "tid \<Rightarrow> sys \<Rightarrow> sys \<Rightarrow> bool" for t where
  f_write: "s_pc s t = Write i st msg tot n always \<Longrightarrow> setRunStatus None flts now i st msg (s_r s) = (r, err) \<Longrightarrow>
     fstep t s ((goto t (if err = None \<or> always then Publish i st msg tot n else EndFin i) r s)
       \<lparr>s_lost := (if err = None then s_lost s else insert i (s_lost s))\<rparr>)"
| f_publish: "s_pc s t = Publish i st msg tot n \<Longrightarrow>
     fstep t s (goto t (EndFin i) (publishRun i st msg tot n (s_r s)) s)"
| f_end: "s_pc s t = EndFin i \<Longrightarrow> fstep t s (goto t Idle (endFinalize i (s_r s)) s)"

subsection \<open>Steps of the callers\<close>

inductive cstep :: "tid \<Rightarrow> sys \<Rightarrow> sys \<Rightarrow> bool" for t where
  e_targets: "s_pc s t = Idle \<Longrightarrow> enqueue_targets flt (s_r s) req = Inr ts \<Longrightarrow>
     cstep t s (goto t (EnqTargets req ts) (s_r s) s)"
| e_dup: "s_pc s t = EnqTargets req ts \<Longrightarrow> s_emu s = None \<Longrightarrow> enqueue_dedupe flt (s_r s) req \<noteq> Inr None \<Longrightarrow>
     cstep t s (goto t Idle (s_r s) s)"
| e_lock: "s_pc s t = EnqTargets req ts \<Longrightarrow> s_emu s = None \<Longrightarrow> enqueue_dedupe flt (s_r s) req = Inr None \<Longrightarrow>
     cstep t s ((goto t (EnqCreate req ts) (s_r s) s)\<lparr>s_emu := Some t\<rparr>)"
| e_create_err: "s_pc s t = EnqCreate req ts \<Longrightarrow> enqueue_create flt (s_r s) req = (r, Inl e) \<Longrightarrow>
     cstep t s ((goto t Idle r s)\<lparr>s_emu := None\<rparr>)"
| e_create: "s_pc s t = EnqCreate req ts \<Longrightarrow> enqueue_create flt (s_r s) req = (r, Inr i) \<Longrightarrow>
     cstep t s (goto t (EnqMark req ts i) r s)"
| e_mark: "s_pc s t = EnqMark req ts i \<Longrightarrow>
     cstep t s ((goto t (EnqCommit req ts i) (beginFinalize i (s_r s)) s)\<lparr>s_emu := None\<rparr>)"
| e_refused: "s_pc s t = EnqCommit req ts i \<Longrightarrow> enqueue_commit i sname ts req (s_r s) = (r, Refused) \<Longrightarrow>
     cstep t s (goto t (Write i Canceled ''shutting down'' (length ts) 0 False) r s)"
| e_full: "s_pc s t = EnqCommit req ts i \<Longrightarrow> enqueue_commit i sname ts req (s_r s) = (r, Full) \<Longrightarrow>
     cstep t s (goto t (Write i Failed ''queue full'' (length ts) 0 True) r s)"
| e_commit: "s_pc s t = EnqCommit req ts i \<Longrightarrow> enqueue_commit i sname ts req (s_r s) = (r, Committed) \<Longrightarrow>
     cstep t s (goto t Idle r s)"
| k_claim: "s_pc s t = Idle \<Longrightarrow> cancel_claim i (s_r s) = (r, Some (True, tot)) \<Longrightarrow>
     cstep t s (goto t (Write i Canceled '''' tot 0 False) r s)"
| k_flag: "s_pc s t = Idle \<Longrightarrow> cancel_claim i (s_r s) = (r, Some (False, tot)) \<Longrightarrow>
     cstep t s (goto t Idle r s)"
| k_orphan: "s_pc s t = Idle \<Longrightarrow> cancel_claim i (s_r s) = (r, None) \<Longrightarrow>
     cstep t s (goto t (OrphanWait i) r s)"
| k_not_orphan: "s_pc s t = OrphanWait i \<Longrightarrow> s_emu s = None \<Longrightarrow>
     r_runs (s_r s) i \<noteq> None \<or> i \<in> r_finalizing (s_r s) \<Longrightarrow> cstep t s (goto t Idle (s_r s) s)"
| k_lock: "s_pc s t = OrphanWait i \<Longrightarrow> s_emu s = None \<Longrightarrow> r_runs (s_r s) i = None \<Longrightarrow>
     i \<notin> r_finalizing (s_r s) \<Longrightarrow> cstep t s ((goto t (OrphanRead i) (s_r s) s)\<lparr>s_emu := Some t\<rparr>)"
| k_resolved: "s_pc s t = OrphanRead i \<Longrightarrow> (\<forall>run. GetRun flt (r_db (s_r s)) i = Inr run \<longrightarrow> \<not> run_active run) \<Longrightarrow>
     cstep t s ((goto t Idle (s_r s) s)\<lparr>s_emu := None\<rparr>)"
| k_active: "s_pc s t = OrphanRead i \<Longrightarrow> GetRun flt (r_db (s_r s)) i = Inr run \<Longrightarrow> run_active run \<Longrightarrow>
     cstep t s (goto t (OrphanWrite i) (s_r s) s)"
| k_write: "s_pc s t = OrphanWrite i \<Longrightarrow> setRunStatus None flts now i Canceled '''' (s_r s) = (r, None) \<Longrightarrow>
     cstep t s (goto t (OrphanPublish i) r s)"
| k_write_err: "s_pc s t = OrphanWrite i \<Longrightarrow> setRunStatus None flts now i Canceled '''' (s_r s) = (r, Some e) \<Longrightarrow>
     cstep t s ((goto t Idle r s)\<lparr>s_emu := None\<rparr>)"
| k_publish: "s_pc s t = OrphanPublish i \<Longrightarrow>
     cstep t s ((goto t Idle (publishRun i Canceled '''' 0 0 (s_r s)) s)\<lparr>s_emu := None\<rparr>)"
| c_start: "s_pc s t = Idle \<Longrightarrow> cstep t s (goto t Idle (Start (s_r s)) s)"
| h_begin: "s_pc s t = Idle \<Longrightarrow> shutdown_begin (s_r s) = (r, True) \<Longrightarrow> cstep t s (goto t ShutWait r s)"
| h_done: "s_pc s t = ShutWait \<Longrightarrow> \<forall>q. s_pc s (Worker q) = Idle \<and> (\<forall>ch. r_queues (s_r s) q = Some ch \<longrightarrow> ch = []) \<Longrightarrow>
     cstep t s (goto t Idle (s_r s) s)"
| h_grace: "s_pc s t = ShutWait \<Longrightarrow> set stuck = dom (r_runs (s_r s)) \<Longrightarrow> distinct stuck \<Longrightarrow>
     cstep t s (goto t (ShutLoop stuck) (shutdown_cancel (s_r s)) s)"
| h_skip: "s_pc s t = ShutLoop (i # is) \<Longrightarrow> claimForForceCancel i (s_r s) = (r, None) \<Longrightarrow>
     cstep t s (goto t (ShutLoop is) r s)"
| h_claim: "s_pc s t = ShutLoop (i # is) \<Longrightarrow> claimForForceCancel i (s_r s) = (r, Some (tot, n)) \<Longrightarrow>
     cstep t s (goto t (ShutWrite i tot n is) r s)"
| h_write: "s_pc s t = ShutWrite i tot n is \<Longrightarrow>
     SetRunStatus flt now (r_db (s_r s)) i Canceled ''server shutdown'' = (d, res) \<Longrightarrow>
     cstep t s ((goto t (ShutEnd i (if res = Inr () then Some (tot, n) else None) is) ((s_r s)\<lparr>r_db := d\<rparr>) s)
       \<lparr>s_lost := (if res = Inr () then s_lost s else insert i (s_lost s))\<rparr>)"
| h_end: "s_pc s t = ShutEnd i pub is \<Longrightarrow>
     cstep t s (goto t (case pub of None \<Rightarrow> ShutLoop is | Some (tot, n) \<Rightarrow> ShutPublish i tot n is)
       (endFinalize i (s_r s)) s)"
| h_publish: "s_pc s t = ShutPublish i tot n is \<Longrightarrow>
     cstep t s (goto t (ShutLoop is) (publishRun i Canceled ''server shutdown'' tot n (s_r s)) s)"
| h_return: "s_pc s t = ShutLoop [] \<Longrightarrow> cstep t s (goto t Idle (s_r s) s)"

subsection \<open>The other writers of the database\<close>

text \<open>The scheduler's skipped runs, retention, deleting a schedule, and every operation that leaves
  the \<open>runs\<close> table alone.\<close>

inductive estep :: "db \<Rightarrow> db \<Rightarrow> bool" where
  v_skip: "InsertSkippedRun flt now d sid reason = (d', res) \<Longrightarrow> estep d d'"
| v_prune: "PruneRunsBefore flt d cutoff batch = (d', res) \<Longrightarrow> estep d d'"
| v_unschedule: "DeleteSchedule flt d i = (d', res) \<Longrightarrow> estep d d'"
| v_other: "runs_t d' = runs_t d \<Longrightarrow> estep d d'"

inductive sstep :: "sys \<Rightarrow> sys \<Rightarrow> bool" where
  s_worker: "wstep q s s' \<Longrightarrow> sstep s s'"
| s_final: "fstep t s s' \<Longrightarrow> sstep s s'"
| s_caller: "cstep (Caller k) s s' \<Longrightarrow> sstep s s'"
| s_env: "estep (r_db (s_r s)) d \<Longrightarrow> sstep s (s\<lparr>s_r := (s_r s)\<lparr>r_db := d\<rparr>\<rparr>)"

text \<open>A process starts with an empty runner on a database whose runs the reaper has resolved.\<close>

definition sys_init :: "sys \<Rightarrow> bool" where
  "sys_init s \<longleftrightarrow> (\<exists>cap d. s = \<lparr>s_r = New cap d, s_pc = (\<lambda>t. Idle), s_emu = None, s_lost = {}\<rparr> \<and>
     runs_ok d \<and> (\<forall>r\<in>set (rows (runs_t d)). \<not> run_active r))"

end
