(* ===== verification/Runner_Sim.thy ===== *)
theory Runner_Sim
  imports Runner_Steps
begin

text \<open>
  The runner follows the claim discipline: an abstraction function maps a state of the
  interleaved runner to a state of the protocol in \<open>Claims\<close>, and every step of the runner is a
  step of the protocol or leaves its state alone. The protocol's invariant therefore holds of
  every reachable state of the runner.
\<close>

subsection \<open>The abstraction\<close>

fun abs_pc :: "pc \<Rightarrow> apc" where
  "abs_pc Idle = ANone"
| "abs_pc (EnqTargets req ts) = ANone"
| "abs_pc (EnqCreate req ts) = ACreate (rq_schedule_id req)"
| "abs_pc (EnqMark req ts i) = ABorn i"
| "abs_pc (EnqCommit req ts i) = ANew i"
| "abs_pc (Write i st msg tot n always) = AHeld i"
| "abs_pc (Publish i st msg tot n) = ADone i"
| "abs_pc (EndFin i) = ADone i"
| "abs_pc (OrphanWait i) = ANone"
| "abs_pc (OrphanRead i) = AOrphan i"
| "abs_pc (OrphanWrite i) = AOrphan i"
| "abs_pc (OrphanPublish i) = AOrphan i"
| "abs_pc (WBegin j) = AJob (j_run_id j)"
| "abs_pc (WRunning j tot) = AJob (j_run_id j)"
| "abs_pc (WPubRunning j tot) = AJob (j_run_id j)"
| "abs_pc (WTarget j ts failed) = AJob (j_run_id j)"
| "abs_pc (WMeta j t ts failed opts) = AJob (j_run_id j)"
| "abs_pc (WTest j t ts failed opts m) = AJob (j_run_id j)"
| "abs_pc (WPanic j t msg) = AJob (j_run_id j)"
| "abs_pc (WMark j ts failed p) = AJob (j_run_id j)"
| "abs_pc (WPubMark j ts failed p tot n) = AJob (j_run_id j)"
| "abs_pc (WFinish j failed canceled) = AJob (j_run_id j)"
| "abs_pc ShutWait = ANone"
| "abs_pc (ShutLoop is) = ANone"
| "abs_pc (ShutWrite i tot n is) = AHeld i"
| "abs_pc (ShutEnd i pub is) = ADone i"
| "abs_pc (ShutPublish i tot n is) = ANone"

definition queued_ids :: "runner \<Rightarrow> int \<Rightarrow> int list" where
  "queued_ids r q = (case r_queues r q of None \<Rightarrow> [] | Some ch \<Rightarrow> map j_run_id ch)"

definition pendings :: "runner \<Rightarrow> int \<rightharpoonup> int" where
  "pendings r i = map_option rt_pending (r_runs r i)"

definition abs_sys :: "sys \<Rightarrow> claims" where
  "abs_sys s = \<lparr>c_rows = run_view (r_db (s_r s)), c_seq = seq (runs_t (r_db (s_r s))),
     c_pend = pendings (s_r s), c_fin = r_finalizing (s_r s), c_jobs = queued_ids (s_r s),
     c_pc = (\<lambda>t. abs_pc (s_pc s t)), c_emu = s_emu s, c_lost = s_lost s\<rparr>"

lemma abs_sys_sel [simp]:
  "c_rows (abs_sys s) = run_view (r_db (s_r s))" "c_seq (abs_sys s) = seq (runs_t (r_db (s_r s)))"
  "c_pend (abs_sys s) = pendings (s_r s)" "c_fin (abs_sys s) = r_finalizing (s_r s)"
  "c_jobs (abs_sys s) = queued_ids (s_r s)" "c_pc (abs_sys s) t = abs_pc (s_pc s t)"
  "c_emu (abs_sys s) = s_emu s" "c_lost (abs_sys s) = s_lost s"
  by (simp_all add: abs_sys_def)

text \<open>What the protocol sees of a step that moves one thread.\<close>

lemma abs_sys_goto:
  "abs_sys (goto t p r s) = (abs_sys s)\<lparr>c_rows := run_view (r_db r), c_seq := seq (runs_t (r_db r)),
     c_pend := pendings r, c_fin := r_finalizing r, c_jobs := queued_ids r,
     c_pc := (c_pc (abs_sys s))(t := abs_pc p)\<rparr>"
  by (auto simp: abs_sys_def goto_def)

lemma abs_sys_emu: "abs_sys (s\<lparr>s_emu := e\<rparr>) = (abs_sys s)\<lparr>c_emu := e\<rparr>"
  by (simp add: abs_sys_def)

lemma abs_sys_lost: "abs_sys (s\<lparr>s_lost := l\<rparr>) = (abs_sys s)\<lparr>c_lost := l\<rparr>"
  by (simp add: abs_sys_def)

lemma queued_ids_cong: "r_queues r' = r_queues r \<Longrightarrow> queued_ids r' = queued_ids r"
  by (auto simp: queued_ids_def)

lemma pendings_cong: "r_runs r' = r_runs r \<Longrightarrow> pendings r' = pendings r"
  by (auto simp: pendings_def)

lemma queued_ids_upd [simp]:
  "queued_ids (r\<lparr>r_queues := (r_queues r)(q \<mapsto> js)\<rparr>) = (queued_ids r)(q := map j_run_id js)"
  "queued_ids (r\<lparr>r_runs := x1\<rparr>) = queued_ids r" "queued_ids (r\<lparr>r_db := x2\<rparr>) = queued_ids r"
  "queued_ids (r\<lparr>r_finalizing := x3\<rparr>) = queued_ids r" "queued_ids (r\<lparr>r_ctx_done := x4\<rparr>) = queued_ids r"
  "queued_ids (r\<lparr>r_events := x5\<rparr>) = queued_ids r" "queued_ids (r\<lparr>r_closing := x6\<rparr>) = queued_ids r"
  by (auto simp: queued_ids_def fun_eq_iff)

lemma pendings_sel_upd [simp]:
  "pendings (r\<lparr>r_runs := (r_runs r)(i := None)\<rparr>) = (pendings r)(i := None)"
  "pendings (r\<lparr>r_queues := x1\<rparr>) = pendings r" "pendings (r\<lparr>r_db := x2\<rparr>) = pendings r"
  "pendings (r\<lparr>r_finalizing := x3\<rparr>) = pendings r" "pendings (r\<lparr>r_ctx_done := x4\<rparr>) = pendings r"
  "pendings (r\<lparr>r_events := x5\<rparr>) = pendings r" "pendings (r\<lparr>r_closing := x6\<rparr>) = pendings r"
  by (auto simp: pendings_def fun_eq_iff)

text \<open>The state the protocol sees of a runner.\<close>

definition same_claims :: "runner \<Rightarrow> runner \<Rightarrow> bool" where
  "same_claims r r' \<longleftrightarrow> runs_t (r_db r') = runs_t (r_db r) \<and> pendings r' = pendings r \<and>
     r_finalizing r' = r_finalizing r \<and> queued_ids r' = queued_ids r"

lemma same_claims_refl [simp]: "same_claims r r"
  by (simp add: same_claims_def)

lemma same_claimsD:
  assumes "same_claims r r'"
  shows "run_view (r_db r') = run_view (r_db r)" "seq (runs_t (r_db r')) = seq (runs_t (r_db r))"
    "pendings r' = pendings r" "r_finalizing r' = r_finalizing r" "queued_ids r' = queued_ids r"
  using assms run_view_runs_t [of "r_db r'" "r_db r"] by (simp_all add: same_claims_def)

lemma abs_sys_quiet:
  assumes "same_claims (s_r s) r" "abs_pc p = abs_pc (s_pc s t)"
  shows "abs_sys (goto t p r s) = abs_sys s"
  using assms
  by (auto simp: abs_sys_def goto_def same_claims_def fun_eq_iff run_view_def)

subsection \<open>The effects of the pieces\<close>

lemma same_claims_simps [simp]:
  "same_claims r (publishRun i st msg tot n r)"
  "same_claims r (r\<lparr>r_events := ev\<rparr>)"
  "same_claims r (Start r)"
  "runs_t d = runs_t (r_db r) \<Longrightarrow> same_claims r (r\<lparr>r_db := d\<rparr>)"
  by (auto simp: same_claims_def publishRun_def Start_def queued_ids_def pendings_def fun_eq_iff)

lemma pendings_upd: "r_runs r i = Some st \<Longrightarrow> rt_pending st' = rt_pending st \<Longrightarrow>
    pendings (r\<lparr>r_runs := (r_runs r)(i \<mapsto> st')\<rparr>) = pendings r"
  by (auto simp: pendings_def)

lemma execute_begin_cases:
  assumes "execute_begin i r = (r', e)"
  shows "same_claims r r'" and "e = Gone \<Longrightarrow> pendings r i = None"
  using assms
  by (auto simp: execute_begin_def same_claims_def pendings_def queued_ids_def fun_eq_iff
      split: option.splits if_splits)

lemma markTargetDone_same: "markTargetDone i r = (r', x) \<Longrightarrow> same_claims r r'"
  by (auto simp: markTargetDone_def same_claims_def pendings_def queued_ids_def fun_eq_iff split: option.splits)

lemma InsertResult_runs: "InsertResult flt d res = (d', x) \<Longrightarrow> runs_t d' = runs_t d"
  by (auto simp: InsertResult_def split: option.splits if_splits)

lemma storeResult_same: "storeResult flt res m r = (r', ok) \<Longrightarrow> same_claims r r'"
  by (auto simp: storeResult_def same_claims_def pendings_def queued_ids_def fun_eq_iff
      split: prod.splits sum.splits dest: InsertResult_runs)

lemma NextRotationIndex_runs: "NextRotationIndex flt d i n = (d', x) \<Longrightarrow> runs_t d' = runs_t d"
  by (auto simp: NextRotationIndex_def split: option.splits if_splits)

lemma pick_rotation_runs: "runs_t (fst (pick_rotation flt i n d)) = runs_t d"
  by (auto simp: pick_rotation_def split: prod.splits sum.splits dest: NextRotationIndex_runs)

lemma target_options_runs: "target_options flt t ov d = (d', opts) \<Longrightarrow> runs_t d' = runs_t d"
proof -
  have "runs_t (fst (rotate_opts (t_options t) (t_engine t) (pick_rotation flt (t_id t)) d)) = runs_t d"
    by (rule rotate_state [where P = "\<lambda>d'. runs_t d' = runs_t d"]) (simp_all add: pick_rotation_runs)
  then show "target_options flt t ov d = (d', opts) \<Longrightarrow> runs_t d' = runs_t d"
    by (cases "rotate_opts (t_options t) (t_engine t) (pick_rotation flt (t_id t)) d")
      (auto simp: target_options_def split: if_splits option.splits)
qed

lemma finish_claim_eq:
  "finish_claim i failed canceled r =
     (case r_runs r i of
        None \<Rightarrow> (r, None)
      | Some st \<Rightarrow>
          if rt_pending st > 1
          then (r\<lparr>r_runs := (r_runs r)(i \<mapsto> st\<lparr>rt_failed := rt_failed st \<or> failed,
                  rt_canceled := rt_canceled st \<or> canceled, rt_pending := rt_pending st - 1\<rparr>)\<rparr>, None)
          else (r\<lparr>r_runs := (r_runs r)(i := None), r_finalizing := insert i (r_finalizing r),
                  r_ctx_done := insert i (r_ctx_done r)\<rparr>,
                Some (if rt_canceled st \<or> canceled then Canceled else if rt_failed st \<or> failed then Failed else Done,
                      rt_total st, rt_done st)))"
  by (simp add: finish_claim_def Let_def final_status_def split: option.split)

lemma finish_claim_cases:
  assumes "finish_claim i failed canceled r = (r', out)"
  obtains (gone) "pendings r i = None" "r' = r" "out = None"
  | (more) n where "pendings r i = Some n" "n > 1" "out = None" "pendings r' = (pendings r)(i \<mapsto> n - 1)"
      "r_finalizing r' = r_finalizing r" "queued_ids r' = queued_ids r" "r_db r' = r_db r"
  | (last) n st tot k where "pendings r i = Some n" "n \<le> 1" "out = Some (st, tot, k)" "terminal st"
      "pendings r' = (pendings r)(i := None)"
      "r_finalizing r' = insert i (r_finalizing r)" "queued_ids r' = queued_ids r" "r_db r' = r_db r"
proof (cases "r_runs r i")
  case None
  with assms show ?thesis by (intro gone) (simp_all add: finish_claim_def pendings_def)
next
  case (Some st)
  show ?thesis
  proof (cases "rt_pending st > 1")
    case True
    with assms Some show ?thesis
      by (intro more [of "rt_pending st"]) (auto simp: finish_claim_eq pendings_def queued_ids_def)
  next
    case False
    let ?st = "if rt_canceled st \<or> canceled then Canceled else if rt_failed st \<or> failed then Failed else Done"
    have "terminal ?st" by (simp add: status_simps)
    with assms Some False show ?thesis
      by (intro last [of "rt_pending st" ?st "rt_total st" "rt_done st"])
       (simp_all add: finish_claim_eq pendings_def queued_ids_def fun_eq_iff, auto simp: pendings_def queued_ids_def)
  qed
qed

lemma cancel_claim_cases:
  assumes "cancel_claim i r = (r', out)"
  obtains (gone) "pendings r i = None" "r' = r" "out = None"
  | (flag) tot where "out = Some (False, tot)" "same_claims r r'"
  | (claim) n tot where "pendings r i = Some n" "out = Some (True, tot)"
      "pendings r' = (pendings r)(i := None)"
      "r_finalizing r' = insert i (r_finalizing r)" "queued_ids r' = queued_ids r" "r_db r' = r_db r"
proof (cases "r_runs r i")
  case None
  with assms show ?thesis by (intro gone) (simp_all add: cancel_claim_def pendings_def)
next
  case (Some st)
  show ?thesis
  proof (cases "rt_started st")
    case True
    with assms Some show ?thesis
      by (intro flag [of "rt_total st"])
        (auto simp: cancel_claim_def Let_def pendings_def queued_ids_def same_claims_def fun_eq_iff)
  next
    case False
    with assms Some show ?thesis
      by (intro claim [of "rt_pending st" "rt_total st"])
        (auto simp: cancel_claim_def Let_def pendings_def queued_ids_def)
  qed
qed

lemma claimForForceCancel_cases:
  assumes "claimForForceCancel i r = (r', out)"
  obtains (gone) "r' = r" "out = None"
  | (claim) n tot k where "pendings r i = Some n" "out = Some (tot, k)"
      "pendings r' = (pendings r)(i := None)"
      "r_finalizing r' = insert i (r_finalizing r)" "queued_ids r' = queued_ids r" "r_db r' = r_db r"
proof (cases "r_runs r i")
  case None
  with assms show ?thesis by (intro gone) (simp_all add: claimForForceCancel_def)
next
  case (Some st)
  with assms show ?thesis
    by (intro claim [of "rt_pending st" "rt_total st" "rt_done st"])
      (auto simp: claimForForceCancel_def pendings_def queued_ids_def)
qed

lemma shutdown_cancel_same: "same_claims r (shutdown_cancel r)"
  by (auto simp: shutdown_cancel_def same_claims_def pendings_def queued_ids_def option.map_comp comp_def)

subsection \<open>Status writes\<close>

lemma SetRunStatus_seq: "SetRunStatus flt now d i st m = (d', x) \<Longrightarrow> seq (runs_t d') = seq (runs_t d)"
  by (auto simp: SetRunStatus_def Let_def split: option.splits sum.splits if_splits)

lemma setRunStatus_production:
  "setRunStatus None flts now i st msg r =
     (case SetRunStatus (fst flts) now (r_db r) i st msg of
        (d, Inl e) \<Rightarrow> (r\<lparr>r_db := d\<rparr>, Some e) | (d, Inr _) \<Rightarrow> (r\<lparr>r_db := d\<rparr>, None))"
  by (simp add: setRunStatus_def status_attempt_def Let_def split: prod.splits sum.splits)

lemma setRunStatus_cases:
  assumes "runs_ok (r_db r)" "setRunStatus None flts now i st msg r = (r', err)"
  obtains (err) e where "err = Some e" "r' = r"
  | (ok) d s0 sid where "err = None" "r' = r\<lparr>r_db := d\<rparr>" "run_view (r_db r) i = Some (s0, sid)" "\<not> terminal s0"
      "runs_ok d" "run_view d = (run_view (r_db r))(i \<mapsto> (st, sid))" "seq (runs_t d) = seq (runs_t (r_db r))"
proof -
  obtain d x where w: "SetRunStatus (fst flts) now (r_db r) i st msg = (d, x)" by (meson surj_pair)
  note out = assms(2) [unfolded setRunStatus_production w]
  from assms(1) w show ?thesis
  proof (cases rule: rs.set_cases)
    case (err e)
    then show ?thesis using out err(1) that(1) by auto
  next
    case (ok s0 sid)
    then show ?thesis using out that(2) [of d s0 sid] SetRunStatus_seq [OF w] by auto
  qed
qed

subsection \<open>Committing a run\<close>

text \<open>Grouping by queue: the groups partition the targets by their queue, each in request order,
  and every queue appears once.\<close>

definition group_ok :: "target list \<Rightarrow> grouping \<Rightarrow> bool" where
  "group_ok ts g \<longleftrightarrow> distinct (g_order g) \<and> set (g_order g) = t_queue_id ` set ts \<and>
     (\<forall>q. g_by_queue g q = (if q \<in> t_queue_id ` set ts then Some (filter (\<lambda>t. t_queue_id t = q) ts) else None)) \<and>
     dom (g_names g) = t_queue_id ` set ts"

lemma group_step_ok: "group_ok ts g \<Longrightarrow> group_ok (ts @ [t]) (group_step g t)"
  by (auto simp: group_ok_def group_step_def Let_def filter_empty_conv split: if_splits) (metis rev_image_eqI)

lemma group_targets_ok: "group_ok ts (group_targets ts)"
proof (induction ts rule: rev_induct)
  case Nil
  show ?case by (simp add: group_ok_def group_targets_def)
next
  case (snoc t ts)
  then show ?case using group_step_ok by (simp add: group_targets_def)
qed

lemma queueChan_sel [simp]:
  "r_runs (queueChan q n r) = r_runs r" "r_finalizing (queueChan q n r) = r_finalizing r"
  "r_db (queueChan q n r) = r_db r" "r_ctx_done (queueChan q n r) = r_ctx_done r"
  "r_events (queueChan q n r) = r_events r" "r_cap (queueChan q n r) = r_cap r"
  "r_closing (queueChan q n r) = r_closing r" "queued_ids (queueChan q n r) = queued_ids r"
  "r_queues (queueChan q n r) p = (if p = q \<and> r_queues r q = None then Some [] else r_queues r p)"
  by (auto simp: queueChan_def Let_def queued_ids_def fun_eq_iff split: option.splits)

lemma fold_queueChan:
  defines "f \<equiv> (\<lambda>g. fold (\<lambda>q. queueChan q (g q)))"
  shows "r_runs (f g qs r) = r_runs r" "r_finalizing (f g qs r) = r_finalizing r"
    "r_db (f g qs r) = r_db r" "r_ctx_done (f g qs r) = r_ctx_done r" "r_events (f g qs r) = r_events r"
    "r_cap (f g qs r) = r_cap r" "r_closing (f g qs r) = r_closing r"
    "queued_ids (f g qs r) = queued_ids r"
    "q \<in> set qs \<Longrightarrow> r_queues (f g qs r) q \<noteq> None"
    "r_queues (f g qs r) p = r_queues r p \<or> r_queues (f g qs r) p = Some []"
proof -
  have keep: "r_queues r q \<noteq> None \<Longrightarrow> r_queues (fold (\<lambda>q. queueChan q (g q)) qs r) q = r_queues r q" for q qs r
    by (induction qs arbitrary: r) auto
  show "q \<in> set qs \<Longrightarrow> r_queues (f g qs r) q \<noteq> None" unfolding f_def
  proof (induction qs arbitrary: r)
    case (Cons a qs)
    then show ?case using keep [of "queueChan a (g a) r" a qs] by (cases "q = a") (auto split: if_splits)
  qed simp
  show "r_queues (f g qs r) p = r_queues r p \<or> r_queues (f g qs r) p = Some []"
    unfolding f_def
  proof (induction qs arbitrary: r)
    case (Cons a qs)
    from Cons.IH [of "queueChan a (g a) r"] show ?case by (auto split: if_splits)
  qed simp
qed (simp_all add: f_def fold_invariant [where Q = "\<lambda>_. True"], (induction qs arbitrary: r; simp add: f_def)+)

lemma send_jobs_sel:
  assumes "send_jobs js r = (r', full)"
  shows "r_runs r' = r_runs r" "r_finalizing r' = r_finalizing r" "r_db r' = r_db r"
    "r_events r' = r_events r" "r_ctx_done r' = r_ctx_done r" "r_cap r' = r_cap r" "r_closing r' = r_closing r"
  using assms by (induction js arbitrary: r) (auto simp: Let_def split: if_splits)

text \<open>Sending puts each job at the end of its own queue; when no queue was full, all of them.\<close>

lemma send_jobs_queued:
  assumes "send_jobs js r = (r', full)" "distinct (map j_queue_id js)"
    and "\<And>j. j \<in> set js \<Longrightarrow> j_run_id j = i \<and> r_queues r (j_queue_id j) \<noteq> None"
  shows "\<exists>Q\<subseteq>j_queue_id ` set js. (\<not> full \<longrightarrow> Q = j_queue_id ` set js) \<and> queued_ids r' = add_jobs Q i (queued_ids r)"
  using assms
proof (induction js arbitrary: r)
  case Nil
  then show ?case by (auto simp: add_jobs_def)
next
  case (Cons j js)
  obtain ch where ch: "r_queues r (j_queue_id j) = Some ch" using Cons.prems(3) by fastforce
  show ?case
  proof (cases "length ch < r_cap r")
    case False
    with Cons.prems(1) ch show ?thesis by (intro exI [of _ "{}"]) (auto simp: Let_def add_jobs_def)
  next
    case True
    let ?r = "r\<lparr>r_queues := (r_queues r)(j_queue_id j \<mapsto> ch @ [j])\<rparr>"
    have send: "send_jobs js ?r = (r', full)" using Cons.prems(1) ch True by (simp add: Let_def)
    have dist: "distinct (map j_queue_id js)" using Cons.prems(2) by simp
    have known: "j_run_id k = i \<and> r_queues ?r (j_queue_id k) \<noteq> None" if "k \<in> set js" for k
      using Cons.prems(3) [of k] that by auto
    from Cons.IH [OF send dist known] obtain Q where Q: "Q \<subseteq> j_queue_id ` set js"
      "\<not> full \<longrightarrow> Q = j_queue_id ` set js" "queued_ids r' = add_jobs Q i (queued_ids ?r)"
      by blast
    have nin: "j_queue_id j \<notin> Q" using Q(1) Cons.prems(2) by auto
    have "queued_ids r' = add_jobs (insert (j_queue_id j) Q) i (queued_ids r)"
      using Cons.prems(3) [of j] ch nin by (auto simp: Q(3) add_jobs_def queued_ids_def)
    with Q(1,2) show ?thesis by (intro exI [of _ "insert (j_queue_id j) Q"]) auto
  qed
qed

lemma enqueue_commit_cases:
  assumes "enqueue_commit i sname ts req r = (r', out)" "ts \<noteq> []" "pendings r i = None"
  obtains (refused) "out = Refused" "r' = r"
  | (full) Q where "out = Full" "pendings r' = pendings r" "r_finalizing r' = r_finalizing r" "r_db r' = r_db r"
      "queued_ids r' = add_jobs Q i (queued_ids r)"
  | (commit) Q where "out = Committed" "finite Q" "Q \<noteq> {}" "pendings r' = (pendings r)(i \<mapsto> int (card Q))"
      "r_finalizing r' = r_finalizing r - {i}" "r_db r' = r_db r" "queued_ids r' = add_jobs Q i (queued_ids r)"
      "Q = t_queue_id ` set ts"
proof (cases "r_closing r \<or> \<not> r_started r")
  case True
  with assms(1) show ?thesis by (intro refused) (auto simp: enqueue_commit_def)
next
  case False
  let ?g = "group_targets ts"
  let ?st = "\<lparr>rt_pending = int (length (g_order ?g)), rt_total = length ts, rt_done = 0, rt_failed = False,
     rt_canceled = False, rt_started = False, rt_trigger = rq_trigger req,
     rt_schedule_id = rq_schedule_id req, rt_schedule_name = sname\<rparr>"
  define r1 where "r1 = r\<lparr>r_runs := (r_runs r)(i \<mapsto> ?st)\<rparr>"
  define r2 where "r2 = fold (\<lambda>q. queueChan q (the (g_names ?g q))) (g_order ?g) r1"
  define r3 where "r3 = publishRun i Queued '''' (length ts) 0 r2"
  let ?js = "map (group_job i req ?g) (g_order ?g)"
  obtain r4 f where r4: "send_jobs ?js r3 = (r4, f)" by (meson surj_pair)
  note g = group_targets_ok [of ts, unfolded group_ok_def]
  have js: "j_queue_id ` set ?js = set (g_order ?g)" "distinct (map j_queue_id ?js)"
    using g by (simp_all add: group_job_def comp_def image_image)
  note r2s = fold_queueChan [where g = "\<lambda>q. the (g_names ?g q)" and qs = "g_order ?g" and r = r1, folded r2_def]
  have "j_run_id j = i \<and> r_queues r3 (j_queue_id j) \<noteq> None" if "j \<in> set ?js" for j
    using that r2s(9) by (auto simp: group_job_def r3_def publishRun_def)
  from send_jobs_queued [OF r4 js(2) this] obtain Q where Q: "Q \<subseteq> set (g_order ?g)"
    "\<not> f \<longrightarrow> Q = set (g_order ?g)" "queued_ids r4 = add_jobs Q i (queued_ids r3)"
    unfolding js(1) by blast
  note s4 = send_jobs_sel [OF r4]
  have q3: "queued_ids r3 = queued_ids r" using r2s(8) by (simp add: r3_def publishRun_def queued_ids_def r1_def fun_eq_iff)
  have runs4: "r_runs r4 = (r_runs r)(i \<mapsto> ?st)" using s4(1) r2s(1) by (simp add: r3_def publishRun_def r1_def)
  have rest4: "r_finalizing r4 = r_finalizing r" "r_db r4 = r_db r"
    using s4(2,3) r2s(2,3) by (simp_all add: r3_def publishRun_def r1_def)
  have out: "(r', out) = (if f then (r4\<lparr>r_ctx_done := insert i (r_ctx_done r4), r_runs := (r_runs r4)(i := None)\<rparr>, Full)
      else (r4\<lparr>r_finalizing := r_finalizing r4 - {i}\<rparr>, Committed))"
    using assms(1) False r4 unfolding enqueue_commit_def Let_def r3_def r2_def r1_def by (simp split: if_splits)
  show ?thesis
  proof (cases f)
    case True
    with out have r': "r' = r4\<lparr>r_ctx_done := insert i (r_ctx_done r4), r_runs := (r_runs r4)(i := None)\<rparr>" "out = Full"
      by auto
    have "pendings r' = pendings r"
      using assms(3) by (auto simp: r' pendings_def runs4 fun_eq_iff)
    with r' rest4 Q(3) q3 show ?thesis
      by (intro full [of Q]) simp_all
  next
    case False
    have "g_order ?g \<noteq> []" using g assms(2) by auto
    moreover have "card Q = length (g_order ?g)" using g False Q(2) distinct_card by metis
    moreover have "Q = t_queue_id ` set ts" using g False Q(2) by auto
    ultimately show ?thesis using out False Q(2,3) q3 rest4 runs4
      by (intro commit [of Q]) (auto simp: pendings_def queued_ids_def fun_eq_iff)
  qed
qed

subsection \<open>The simulation\<close>

text \<open>What the simulation needs beyond the protocol's invariant.\<close>

fun pc_targets :: "pc \<Rightarrow> target list option" where
  "pc_targets (EnqTargets req ts) = Some ts"
| "pc_targets (EnqCreate req ts) = Some ts"
| "pc_targets (EnqMark req ts i) = Some ts"
| "pc_targets (EnqCommit req ts i) = Some ts"
| "pc_targets _ = None"

fun pc_final :: "pc \<Rightarrow> run_status option" where
  "pc_final (Write i st msg tot n always) = Some st"
| "pc_final _ = None"

definition sys_ok :: "sys \<Rightarrow> bool" where
  "sys_ok s \<longleftrightarrow> runs_ok (r_db (s_r s)) \<and> (\<forall>t. pc_targets (s_pc s t) \<noteq> Some []) \<and>
     (\<forall>t st. pc_final (s_pc s t) = Some st \<longrightarrow> terminal st)"

lemma claim_stepI: "claim_step c c1 \<Longrightarrow> c1 = c' \<Longrightarrow> claim_step\<^sup>*\<^sup>* c c'"
  by auto

lemma abs_pc_after_mark [simp]: "abs_pc (after_mark j ts failed p) = AJob (j_run_id j)"
  by (simp add: after_mark_def)

lemma abs_sys_db:
  "abs_sys (s\<lparr>s_r := (s_r s)\<lparr>r_db := d\<rparr>\<rparr>) = (abs_sys s)\<lparr>c_rows := run_view d, c_seq := seq (runs_t d)\<rparr>"
  by (simp add: abs_sys_def pendings_def queued_ids_def fun_eq_iff)

lemma wstep_sim:
  assumes ok: "sys_ok s" and step: "wstep q s s'"
  shows "claim_step\<^sup>*\<^sup>* (abs_sys s) (abs_sys s')"
proof -
  have dbok: "runs_ok (r_db (s_r s))" using ok by (simp add: sys_ok_def)
  show ?thesis using step
  proof cases
    case (w_take j js)
    then show ?thesis
      by (intro claim_stepI [OF a_take [of "abs_sys s" q "j_run_id j" "map j_run_id js"]] claims.equality)
        (simp_all add: abs_sys_goto, simp add: queued_ids_def)
  next
    case (w_gone j r)
    note e = same_claimsD [OF execute_begin_cases(1) [OF w_gone(3)]] execute_begin_cases(2) [OF w_gone(3)]
    from w_gone e show ?thesis
      by (intro claim_stepI [OF a_drop [of "abs_sys s" q "j_run_id j"]] claims.equality)
        (simp_all add: abs_sys_goto)
  next
    case (w_canceled j r)
    then show ?thesis using execute_begin_cases(1) by (simp add: abs_sys_quiet)
  next
    case (w_go j r tot)
    then show ?thesis using execute_begin_cases(1) by (simp add: abs_sys_quiet)
  next
    case (w_running j tot flts now r err)
    show ?thesis using dbok w_running(3)
    proof (cases rule: setRunStatus_cases)
      case (err e)
      then show ?thesis using w_running by (simp add: abs_sys_quiet)
    next
      case (ok d s0 sid)
      then show ?thesis using w_running
        by (intro claim_stepI [OF a_running [of "abs_sys s" "Worker q" "j_run_id j" s0 sid]] claims.equality)
          (simp_all add: abs_sys_goto fun_eq_iff)
    qed
  next
    case (w_next j t ts failed flt d opts)
    then show ?thesis using target_options_runs by (simp add: abs_sys_quiet)
  next
    case (w_result j t ts failed opts m res bad flt r ok)
    then show ?thesis using storeResult_same by (simp add: abs_sys_quiet)
  next
    case (w_recover j t msg flt now r ok)
    then show ?thesis using storeResult_same by (simp add: abs_sys_quiet)
  next
    case (w_mark_gone j ts failed p r)
    then show ?thesis using markTargetDone_same by (simp add: abs_sys_quiet)
  next
    case (w_mark j ts failed p r tot n)
    then show ?thesis using markTargetDone_same by (simp add: abs_sys_quiet)
  next
    case (w_finish_more j failed canceled r)
    show ?thesis using w_finish_more(3)
    proof (cases rule: finish_claim_cases)
      case gone
      then show ?thesis using w_finish_more
        by (intro claim_stepI [OF a_drop [of "abs_sys s" q "j_run_id j"]] claims.equality) (simp_all add: abs_sys_goto)
    next
      case (more n)
      then show ?thesis using w_finish_more
        by (intro claim_stepI [OF a_dec [of "abs_sys s" q "j_run_id j" n]] claims.equality) (simp_all add: abs_sys_goto)
    qed simp
  next
    case (w_finish_last j failed canceled r st tot n)
    show ?thesis using w_finish_last(3)
    proof (cases rule: finish_claim_cases)
      case (last n)
      then show ?thesis using w_finish_last
        by (intro claim_stepI [OF a_last [of "abs_sys s" q "j_run_id j" n]] claims.equality) (simp_all add: abs_sys_goto)
    qed simp_all
  qed (simp_all add: abs_sys_quiet)
qed

text \<open>The final write: it either takes effect or the run is recorded as lost.\<close>

lemma fstep_sim:
  assumes ok: "sys_ok s" and step: "fstep t s s'"
  shows "claim_step\<^sup>*\<^sup>* (abs_sys s) (abs_sys s')"
proof -
  have dbok: "runs_ok (r_db (s_r s))" using ok by (simp add: sys_ok_def)
  show ?thesis using step
  proof cases
    case (f_write i st msg tot n always flts now r err)
    have "pc_final (s_pc s t) = Some st" by (simp add: f_write(2))
    then have fin: "terminal st" using ok unfolding sys_ok_def by blast
    show ?thesis using dbok f_write(3)
    proof (cases rule: setRunStatus_cases)
      case (err e)
      then show ?thesis using f_write
        by (intro claim_stepI [OF a_write_failed [of "abs_sys s" t i]] claims.equality)
          (simp_all add: abs_sys_goto abs_sys_lost)
    next
      case (ok d s0 sid)
      then show ?thesis using f_write fin
        by (intro claim_stepI [OF a_write [of "abs_sys s" t i s0 sid st]] claims.equality)
          (simp_all add: abs_sys_goto abs_sys_lost)
    qed
  next
    case (f_publish i st msg tot n)
    then show ?thesis by (simp add: abs_sys_quiet)
  next
    case (f_end i)
    then show ?thesis
      by (intro claim_stepI [OF a_release [of "abs_sys s" t i]] claims.equality)
        (simp_all add: abs_sys_goto endFinalize_def)
  qed
qed

lemma enqueue_dedupe_free:
  assumes "runs_ok (r_db r)" "enqueue_dedupe flt r req = Inr None"
  shows "free_schedule (run_view (r_db r)) (rq_schedule_id req)"
proof (cases "rq_schedule_id req")
  case None
  then show ?thesis by (simp add: free_schedule_def)
next
  case (Some sid)
  with assms(2) have q: "QueuedRunForSchedule flt (r_db r) sid = Inr None" by (simp add: enqueue_dedupe_def)
  show ?thesis unfolding free_schedule_def Some
    using QueuedRunForSchedule_None [OF q] run_view_iff [OF assms(1)] by fastforce
qed

lemma enqueue_create_cases:
  assumes "runs_ok (r_db r)" "enqueue_create flt r req = (r', out)"
  obtains (err) e where "out = Inl e" "r' = r"
  | (ok) d i where "out = Inr i" "r' = r\<lparr>r_db := d\<rparr>" "i = seq (runs_t (r_db r)) + 1" "seq (runs_t d) = i"
      "runs_ok d" "run_view d = (run_view (r_db r))(i \<mapsto> (Queued, rq_schedule_id req))"
proof -
  obtain d x where c: "CreateRun flt (r_db r) (rq_trigger req) (rq_schedule_id req) = (d, x)" by (meson surj_pair)
  have eq: "r' = r\<lparr>r_db := d\<rparr>" "out = x" using assms(2) c by (auto simp: enqueue_create_def)
  show ?thesis
  proof (cases x)
    case (Inl e)
    then show ?thesis using eq CreateRun_err [of flt "r_db r" _ _ d e] c by (intro err [of e]) auto
  next
    case (Inr i)
    then show ?thesis using eq CreateRun_ok [OF assms(1), of flt "rq_trigger req" "rq_schedule_id req" d i] c
      by (intro ok [of i d]) auto
  qed
qed

lemma cstep_enqueue_sim:
  assumes inv: "claims_ok (abs_sys s)" and ok: "sys_ok s" and step: "cstep t s s'"
    and pc: "\<exists>ts. pc_targets (s_pc s t) = Some ts"
  shows "claim_step\<^sup>*\<^sup>* (abs_sys s) (abs_sys s')"
proof -
  have dbok: "runs_ok (r_db (s_r s))" using ok by (simp add: sys_ok_def)
  have ne: "ts \<noteq> []" if "pc_targets (s_pc s t) = Some ts" for ts using ok that unfolding sys_ok_def by auto
  have commit: "claim_step\<^sup>*\<^sup>* (abs_sys s) (abs_sys (goto t p r s))"
    if c: "s_pc s t = EnqCommit req ts i" "enqueue_commit i sname ts req (s_r s) = (r, out)"
      and p: "abs_pc p = (if out = Committed then ANone else AHeld i)" for req ts i sname r out p
  proof -
    have nonempty: "ts \<noteq> []" using ne c(1) by simp
    have untracked: "pendings (s_r s) i = None" using unwritten_untracked(1) [OF inv, of t i] c(1) by simp
    from c(2) nonempty untracked show ?thesis
    proof (cases rule: enqueue_commit_cases)
      case refused
      then show ?thesis using c p
        by (intro claim_stepI [OF a_full [of "abs_sys s" t i "{}"]] claims.equality)
          (simp_all add: abs_sys_goto add_jobs_def fun_eq_iff)
    next
      case (full Q)
      then show ?thesis using c p
        by (intro claim_stepI [OF a_full [of "abs_sys s" t i Q]] claims.equality) (simp_all add: abs_sys_goto)
    next
      case (commit Q)
      then show ?thesis using c p
        by (intro claim_stepI [OF a_commit [of "abs_sys s" t i Q]] claims.equality) (simp_all add: abs_sys_goto)
    qed
  qed
  show ?thesis using step
  proof cases
    case (e_dup req ts flt)
    then show ?thesis by (simp add: abs_sys_quiet)
  next
    case (e_lock req ts flt)
    then show ?thesis using enqueue_dedupe_free [OF dbok]
      by (intro claim_stepI [OF a_lock [of "abs_sys s" t "rq_schedule_id req"]] claims.equality)
        (simp_all add: abs_sys_goto abs_sys_emu)
  next
    case (e_create_err req ts flt r e)
    show ?thesis using dbok e_create_err(3)
    proof (cases rule: enqueue_create_cases)
      case (err e)
      then show ?thesis using e_create_err
        by (intro claim_stepI [OF a_unlock [of "abs_sys s" t "rq_schedule_id req"]] claims.equality)
          (simp_all add: abs_sys_goto abs_sys_emu)
    qed simp
  next
    case (e_create req ts flt r i)
    show ?thesis using dbok e_create(3)
    proof (cases rule: enqueue_create_cases)
      case (ok d i)
      then show ?thesis using e_create
        by (intro claim_stepI [OF a_create [of "abs_sys s" t "rq_schedule_id req" i]] claims.equality)
          (simp_all add: abs_sys_goto)
    qed simp
  next
    case (e_mark req ts i)
    then show ?thesis
      by (intro claim_stepI [OF a_mark [of "abs_sys s" t i]] claims.equality)
        (simp_all add: abs_sys_goto abs_sys_emu beginFinalize_def)
  next
    case (e_refused req ts i sname r)
    then show ?thesis using commit [of req ts i sname r Refused] by simp
  next
    case (e_full req ts i sname r)
    then show ?thesis using commit [of req ts i sname r Full] by simp
  next
    case (e_commit req ts i sname r)
    then show ?thesis using commit [of req ts i sname r Committed] by simp
  qed (use pc in auto)
qed

lemma cstep_sim:
  assumes inv: "claims_ok (abs_sys s)" and ok: "sys_ok s" and step: "cstep (Caller k) s s'"
  shows "claim_step\<^sup>*\<^sup>* (abs_sys s) (abs_sys s')"
proof (cases "pc_targets (s_pc s (Caller k))")
  case (Some ts)
  then show ?thesis using cstep_enqueue_sim [OF inv ok step] by blast
next
  case None
  have dbok: "runs_ok (r_db (s_r s))" using ok by (simp add: sys_ok_def)
  show ?thesis using step
  proof cases
    case (k_claim i r tot)
    show ?thesis using k_claim(3)
    proof (cases rule: cancel_claim_cases)
      case (claim n)
      then show ?thesis using k_claim
        by (intro claim_stepI [OF a_claim [of "abs_sys s" k i n]] claims.equality) (simp_all add: abs_sys_goto)
    qed simp_all
  next
    case (k_flag i r tot)
    show ?thesis using k_flag(3) by (cases rule: cancel_claim_cases) (use k_flag in \<open>simp_all add: abs_sys_quiet\<close>)
  next
    case (k_orphan i r)
    show ?thesis using k_orphan(3) by (cases rule: cancel_claim_cases) (use k_orphan in \<open>simp_all add: abs_sys_quiet\<close>)
  next
    case (k_lock i)
    then show ?thesis
      by (intro claim_stepI [OF a_orphan [of "abs_sys s" "Caller k" i]] claims.equality)
        (simp_all add: abs_sys_goto abs_sys_emu pendings_def)
  next
    case (k_resolved i flt)
    then show ?thesis
      by (intro claim_stepI [OF a_orphan_end [of "abs_sys s" "Caller k" i]] claims.equality)
        (simp_all add: abs_sys_goto abs_sys_emu)
  next
    case (k_write i flts now r)
    show ?thesis using dbok k_write(3)
    proof (cases rule: setRunStatus_cases)
      case (ok d s0 sid)
      then show ?thesis using k_write
        by (intro claim_stepI [OF a_orphan_write [of "abs_sys s" "Caller k" i s0 sid Canceled]] claims.equality)
          (simp_all add: abs_sys_goto status_simps fun_eq_iff)
    qed simp
  next
    case (k_write_err i flts now r e)
    show ?thesis using dbok k_write_err(3)
    proof (cases rule: setRunStatus_cases)
      case (err e)
      then show ?thesis using k_write_err
        by (intro claim_stepI [OF a_orphan_end [of "abs_sys s" "Caller k" i]] claims.equality)
          (simp_all add: abs_sys_goto abs_sys_emu)
    qed simp
  next
    case (k_publish i)
    then show ?thesis
      by (intro claim_stepI [OF a_orphan_end [of "abs_sys s" "Caller k" i]] claims.equality)
        (simp_all add: abs_sys_goto abs_sys_emu publishRun_def)
  next
    case (h_begin r)
    then have "same_claims (s_r s) r" by (auto simp: shutdown_begin_def same_claims_def split: if_splits)
    with h_begin show ?thesis by (simp add: abs_sys_quiet)
  next
    case (h_grace stuck)
    then show ?thesis using shutdown_cancel_same by (simp add: abs_sys_quiet)
  next
    case (h_skip i "is" r)
    show ?thesis using h_skip(3) by (cases rule: claimForForceCancel_cases) (use h_skip in \<open>simp_all add: abs_sys_quiet\<close>)
  next
    case (h_claim i "is" r tot n)
    show ?thesis using h_claim(3)
    proof (cases rule: claimForForceCancel_cases)
      case (claim n)
      then show ?thesis using h_claim
        by (intro claim_stepI [OF a_claim [of "abs_sys s" k i n]] claims.equality) (simp_all add: abs_sys_goto)
    qed simp
  next
    case (h_write i tot n "is" flt now d res)
    show ?thesis using dbok h_write(3)
    proof (cases rule: rs.set_cases)
      case (err e)
      then show ?thesis using h_write
        by (intro claim_stepI [OF a_write_failed [of "abs_sys s" "Caller k" i]] claims.equality)
          (simp_all add: abs_sys_goto abs_sys_lost)
    next
      case (ok s0 sid)
      then show ?thesis using h_write SetRunStatus_seq [OF h_write(3)]
        by (intro claim_stepI [OF a_write [of "abs_sys s" "Caller k" i s0 sid Canceled]] claims.equality)
          (simp_all add: abs_sys_goto abs_sys_lost status_simps)
    qed
  next
    case (h_end i pub "is")
    then show ?thesis
      by (intro claim_stepI [OF a_release [of "abs_sys s" "Caller k" i]] claims.equality)
        (simp_all add: abs_sys_goto endFinalize_def split: option.split prod.split)
  qed (use None in \<open>simp_all add: abs_sys_quiet\<close>)
qed

subsection \<open>Other writers\<close>

lemma run_view_filter:
  assumes "runs_ok d"
  shows "run_view (d\<lparr>runs_t := map_rows (filter P) (runs_t d)\<rparr>) i =
         (case find (\<lambda>r. run_id r = i) (rows (runs_t d)) of
            None \<Rightarrow> None | Some r \<Rightarrow> if P r then run_view d i else None)"
proof -
  note dist = runs_ok_distinct [OF assms]
  have dist': "distinct (map run_id (filter P (rows (runs_t d))))" using dist by (rule distinct_map_filter)
  show ?thesis
  proof (cases "find (\<lambda>r. run_id r = i) (rows (runs_t d))")
    case None
    then have "find (\<lambda>r. run_id r = i) (filter P (rows (runs_t d))) = None" by (simp add: find_None)
    with None show ?thesis by (simp add: run_view_def)
  next
    case (Some r)
    then have r: "r \<in> set (rows (runs_t d))" "run_id r = i" by (auto dest: find_SomeD)
    have "find (\<lambda>r. run_id r = i) (filter P (rows (runs_t d))) = (if P r then Some r else None)"
    proof (cases "P r")
      case True
      then show ?thesis using r find_key_iff [OF dist', of i r] by simp
    next
      case False
      then have "r' = r" if "r' \<in> set (rows (runs_t d))" "run_id r' = i" for r'
        using find_key_distinct [OF dist that] Some by simp
      with False show ?thesis by (auto simp: find_None)
    qed
    with Some show ?thesis by (simp add: run_view_def)
  qed
qed

lemma run_view_update:
  assumes "\<And>r. run_id (f r) = run_id r"
  shows "run_view (d\<lparr>runs_t := map_rows (update_where P f) (runs_t d)\<rparr>) i =
     map_option (\<lambda>r. (run_state (if P r then f r else r), run_schedule_id (if P r then f r else r)))
       (find (\<lambda>r. run_id r = i) (rows (runs_t d)))"
  using assms by (simp add: run_view_def find_update_where option.map_comp comp_def)

lemma env_change_refl: "env_change v n v n"
  by (simp add: env_change_def)

lemma InsertSkippedRun_change:
  assumes ok: "runs_ok d" and step: "InsertSkippedRun flt now d sid reason = (d', res)"
  shows "runs_ok d' \<and> env_change (run_view d) (seq (runs_t d)) (run_view d') (seq (runs_t d'))"
proof (cases res)
  case (Inl e)
  then show ?thesis using InsertSkippedRun_err [OF step [unfolded Inl]] ok env_change_refl by simp
next
  case (Inr i)
  note k = InsertSkippedRun_ok [OF ok step [unfolded Inr]]
  have "run_view d i = None" using run_view_bound [OF ok, of i] k(1) by (cases "run_view d i") auto
  then show ?thesis using k by (auto simp: env_change_def status_simps)
qed

text \<open>Deleting rows: harmless as long as only finished runs go.\<close>

lemma delete_finished_change:
  assumes ok: "runs_ok d" and t: "runs_t d' = map_rows (filter P) (runs_t d)"
    and fin: "\<And>r. r \<in> set (rows (runs_t d)) \<Longrightarrow> \<not> P r \<Longrightarrow> terminal (run_state r)"
  shows "runs_ok d' \<and> env_change (run_view d) (seq (runs_t d)) (run_view d') (seq (runs_t d'))"
proof
  show "runs_ok d'" using ok t by (simp add: runs_ok_def tbl_ok_filter)
  let ?d = "d\<lparr>runs_t := map_rows (filter P) (runs_t d)\<rparr>"
  have view: "run_view d' = run_view ?d" using t by (intro run_view_runs_t) simp
  have "run_view d' i = run_view d i \<or> (\<exists>st sid. run_view d i = Some (st, sid) \<and> terminal st \<and> run_view d' i = None)" for i
  proof (cases "find (\<lambda>r. run_id r = i) (rows (runs_t d))")
    case None
    then show ?thesis by (simp add: view run_view_filter [OF ok] run_view_def [of d])
  next
    case (Some r)
    then have "P r \<or> terminal (run_state r)" using fin [of r] by (auto dest: find_SomeD)
    then show ?thesis using Some by (auto simp: view run_view_filter [OF ok] run_view_def [of d])
  qed
  then show "env_change (run_view d) (seq (runs_t d)) (run_view d') (seq (runs_t d'))"
    using t by (auto simp: env_change_def)
qed

lemma PruneRunsBefore_change:
  assumes ok: "runs_ok d" and step: "PruneRunsBefore flt d cutoff batch = (d', res)"
  shows "runs_ok d' \<and> env_change (run_view d) (seq (runs_t d)) (run_view d') (seq (runs_t d'))"
proof (cases flt)
  case (Some e)
  then show ?thesis using step ok env_change_refl by (auto simp: PruneRunsBefore_def)
next
  case None
  define ids where "ids = map run_id (take (if batch \<le> 0 then 1000 else nat batch) (sort_key run_id
                      (filter (prunable_run d cutoff) (rows (runs_t d)))))"
  have "runs_t d' = map_rows (filter (\<lambda>r. run_id r \<notin> set ids)) (runs_t d)"
    using step None unfolding ids_def by (auto simp: PruneRunsBefore_def Let_def delete_where_def)
  moreover have "terminal (run_state r)" if "r \<in> set (rows (runs_t d))" "\<not> run_id r \<notin> set ids" for r
  proof -
    from that(2) obtain r' where "r' \<in> set (rows (runs_t d))" "run_id r' = run_id r" "prunable_run d cutoff r'"
      unfolding ids_def by (auto dest!: in_set_takeD)
    moreover from this have "r' = r"
      using find_key_distinct [OF runs_ok_distinct [OF ok]] that(1) by (metis option.inject)
    ultimately show ?thesis by (simp add: prunable_run_def)
  qed
  ultimately show ?thesis by (rule delete_finished_change [OF ok])
qed

lemma DeleteSchedule_change:
  assumes ok: "runs_ok d" and step: "DeleteSchedule flt d i = (d', res)"
  shows "runs_ok d' \<and> env_change (run_view d) (seq (runs_t d)) (run_view d') (seq (runs_t d'))"
proof -
  let ?t = "map_rows (update_where (\<lambda>r. run_schedule_id r = Some i) (\<lambda>r. r\<lparr>run_schedule_id := None\<rparr>)) (runs_t d)"
  from step consider "d' = d" | "runs_t d' = ?t"
    by (auto simp: DeleteSchedule_def split: option.splits if_splits)
  then show ?thesis
  proof cases
    case 2
    have view: "run_view d' = run_view (d\<lparr>runs_t := ?t\<rparr>)" using 2 by (intro run_view_runs_t) simp
    have "run_view d' j = run_view d j \<or> (\<exists>st sid. run_view d j = Some (st, sid) \<and> run_view d' j = Some (st, None))" for j
      by (cases "find (\<lambda>r. run_id r = j) (rows (runs_t d))") (auto simp: view run_view_update run_view_def [of d])
    moreover have "runs_ok d'" using ok 2 by (simp add: runs_ok_def tbl_ok_update)
    ultimately show ?thesis using 2 by (auto simp: env_change_def)
  qed (use ok env_change_refl in simp)
qed

lemma estep_change:
  assumes ok: "runs_ok d" and step: "estep d d'"
  shows "runs_ok d' \<and> env_change (run_view d) (seq (runs_t d)) (run_view d') (seq (runs_t d'))"
  using step
proof cases
  case v_other
  then show ?thesis using ok run_view_runs_t [OF v_other] runs_ok_runs_t [OF v_other] env_change_refl by simp
qed (use InsertSkippedRun_change [OF ok] PruneRunsBefore_change [OF ok] DeleteSchedule_change [OF ok] in blast)+

subsection \<open>The invariant of the interleaved runner\<close>

lemma sstep_sim:
  assumes inv: "claims_ok (abs_sys s)" and ok: "sys_ok s" and step: "sstep s s'"
  shows "claim_step\<^sup>*\<^sup>* (abs_sys s) (abs_sys s')"
  using step
proof cases
  case (s_env d)
  have "runs_ok (r_db (s_r s))" using ok by (simp add: sys_ok_def)
  from estep_change [OF this s_env(2)] show ?thesis
    unfolding s_env(1) abs_sys_db by (intro r_into_rtranclp a_env) simp
qed (use wstep_sim [OF ok] fstep_sim [OF ok] cstep_sim [OF inv ok] in blast)+

lemma setRunStatus_runs_ok: "runs_ok (r_db r) \<Longrightarrow> setRunStatus None flts now i st msg r = (r', err) \<Longrightarrow> runs_ok (r_db r')"
  by (frule (1) setRunStatus_cases) auto

lemma same_claims_runs_ok: "same_claims r r' \<Longrightarrow> runs_ok (r_db r) \<Longrightarrow> runs_ok (r_db r')"
  by (simp add: same_claims_def runs_ok_def)

lemma finish_claim_db: "finish_claim i f c r = (r', out) \<Longrightarrow> r_db r' = r_db r"
  by (erule finish_claim_cases) auto

lemma cancel_claim_db: "cancel_claim i r = (r', out) \<Longrightarrow> r_db r' = r_db r"
  by (auto simp: cancel_claim_def Let_def split: option.splits if_splits)

lemma claimForForceCancel_db: "claimForForceCancel i r = (r', out) \<Longrightarrow> r_db r' = r_db r"
  by (auto simp: claimForForceCancel_def split: option.splits)

lemma enqueue_commit_db: "enqueue_commit i sname ts req r = (r', out) \<Longrightarrow> r_db r' = r_db r"
  by (auto simp: enqueue_commit_def Let_def fold_queueChan publishRun_def split: if_splits prod.splits
      dest: send_jobs_sel(3))

lemma goto_sel [simp]:
  "s_r (goto t p r s) = r" "s_pc (goto t p r s) = (s_pc s)(t := p)"
  "s_emu (goto t p r s) = s_emu s" "s_lost (goto t p r s) = s_lost s"
  by (simp_all add: goto_def)

lemma wstep_runs_ok: "runs_ok (r_db (s_r s)) \<Longrightarrow> wstep q s s' \<Longrightarrow> runs_ok (r_db (s_r s'))"
  by (erule wstep.cases)
    (auto simp: publishRun_def finish_claim_db runs_ok_def dest: setRunStatus_runs_ok [unfolded runs_ok_def]
      target_options_runs finish_claim_db
      intro: same_claims_runs_ok [unfolded runs_ok_def, OF execute_begin_cases(1)]
        same_claims_runs_ok [unfolded runs_ok_def, OF storeResult_same]
        same_claims_runs_ok [unfolded runs_ok_def, OF markTargetDone_same])

lemma fstep_runs_ok: "runs_ok (r_db (s_r s)) \<Longrightarrow> fstep t s s' \<Longrightarrow> runs_ok (r_db (s_r s'))"
  by (erule fstep.cases) (auto simp: publishRun_def endFinalize_def dest: setRunStatus_runs_ok)

lemma cstep_runs_ok: "runs_ok (r_db (s_r s)) \<Longrightarrow> cstep t s s' \<Longrightarrow> runs_ok (r_db (s_r s'))"
  by (erule cstep.cases)
    (auto simp: publishRun_def endFinalize_def beginFinalize_def Start_def shutdown_begin_def shutdown_cancel_def
      enqueue_commit_db cancel_claim_db claimForForceCancel_db
      dest: setRunStatus_runs_ok elim: enqueue_create_cases rs.set_cases split: if_splits)

lemma finish_claim_terminal: "finish_claim i f c r = (r', Some (st, tot, n)) \<Longrightarrow> terminal st"
  by (erule finish_claim_cases) auto

definition pc_ok :: "pc \<Rightarrow> bool" where
  "pc_ok p \<longleftrightarrow> pc_targets p \<noteq> Some [] \<and> (\<forall>st. pc_final p = Some st \<longrightarrow> terminal st)"

lemma sys_ok_iff: "sys_ok s \<longleftrightarrow> runs_ok (r_db (s_r s)) \<and> (\<forall>t. pc_ok (s_pc s t))"
  by (auto simp: sys_ok_def pc_ok_def)

lemma enqueue_targets_nonempty: "enqueue_targets flt r req = Inr ts \<Longrightarrow> ts \<noteq> []"
  by (auto simp: enqueue_targets_def Let_def split: sum.splits if_splits)

lemma wstep_pc_ok: "pc_ok (s_pc s t) \<Longrightarrow> wstep q s s' \<Longrightarrow> pc_ok (s_pc s' t)"
  by (erule wstep.cases) (auto simp: pc_ok_def after_mark_def dest: finish_claim_terminal split: if_splits)

lemma fstep_pc_ok: "pc_ok (s_pc s t) \<Longrightarrow> fstep t' s s' \<Longrightarrow> pc_ok (s_pc s' t)"
  by (erule fstep.cases) (auto simp: pc_ok_def)

lemma cstep_pc_ok: "pc_ok (s_pc s t) \<Longrightarrow> pc_ok (s_pc s t') \<Longrightarrow> cstep t' s s' \<Longrightarrow> pc_ok (s_pc s' t)"
  by (erule cstep.cases)
    (auto simp: pc_ok_def status_simps dest: enqueue_targets_nonempty split: option.splits prod.splits)

lemma sys_ok_step:
  assumes "sys_ok s" "sstep s s'"
  shows "sys_ok s'"
  using assms(2)
proof cases
  case (s_env d)
  then show ?thesis using assms(1) estep_change by (auto simp: sys_ok_iff)
qed (use assms(1) in \<open>auto simp: sys_ok_iff intro: wstep_runs_ok wstep_pc_ok fstep_runs_ok fstep_pc_ok
      cstep_runs_ok cstep_pc_ok\<close>)

lemma sys_init_ok:
  assumes "sys_init s"
  shows "claims_ok (abs_sys s) \<and> sys_ok s"
proof -
  from assms obtain cap d where s: "s = \<lparr>s_r = New cap d, s_pc = (\<lambda>t. Idle), s_emu = None, s_lost = {}\<rparr>"
    and d: "runs_ok d" "\<And>r. r \<in> set (rows (runs_t d)) \<Longrightarrow> terminal (run_state r)"
    by (auto simp: sys_init_def run_active_iff)
  have finished: "terminal st" if "run_view d i = Some (st, sid)" for i st sid
    using that d by (auto simp: run_view_iff)
  have bound: "i \<le> seq (runs_t d)" if "run_view d i = Some x" for i x
    using run_view_bound [OF d(1), of i] that by simp
  have inactive: "\<not> active_in (run_view d) i" for i
    using finished by (auto simp: active_in_def split: option.splits)
  have "claims_ok (abs_sys s)"
    unfolding claims_ok_def s abs_sys_def
    by (auto simp: New_def rows_bounded_def lock_owner_def marks_held_def marks_untracked_def tracked_active_def
        jobs_known_def pending_exact_def one_per_schedule_def all_covered_def owing_def queued_ids_def pendings_def
        inactive dest: bound finished)
  moreover have "sys_ok s" using d(1) by (simp add: sys_ok_iff s New_def pc_ok_def)
  ultimately show ?thesis ..
qed

interpretation runner_sim: simulation sys_init sstep claim_step abs_sys claims_ok sys_ok
proof
  show "sys_init s \<Longrightarrow> claims_ok (abs_sys s) \<and> sys_ok s" for s by (rule sys_init_ok)
  show "claims_ok a \<Longrightarrow> claim_step a a' \<Longrightarrow> claims_ok a'" for a a' by (rule claims_ok_step)
  show "claims_ok (abs_sys s) \<Longrightarrow> sys_ok s \<Longrightarrow> sstep s s' \<Longrightarrow> sys_ok s'" for s s' by (rule sys_ok_step)
  show "claims_ok (abs_sys s) \<Longrightarrow> sys_ok s \<Longrightarrow> sstep s s' \<Longrightarrow> claim_step\<^sup>*\<^sup>* (abs_sys s) (abs_sys s')" for s s'
    by (rule sstep_sim)
qed

lemmas reachable_ok = runner_sim.reach_inv

end
