(* ===== verification/Runner_Events.thy ===== *)
theory Runner_Events
  imports Runner_Sim
begin

text \<open>
  What subscribers and queues see of the interleaved runner: the order of the run events, that a
  published final status is the stored one, and that a worker only ever runs targets of its own
  queue.
\<close>

inductive runner_reachable :: "sys \<Rightarrow> bool" where
  start: "sys_init s \<Longrightarrow> runner_reachable s"
| more: "runner_reachable s \<Longrightarrow> sstep s s' \<Longrightarrow> runner_reachable s'"

lemma runner_reachable_reach: "runner_reachable s \<Longrightarrow> runner_sim.reach s"
  by (induction rule: runner_reachable.induct) (auto intro: runner_sim.reach_init runner_sim.reach_step)

lemma runner_reachable_ok: "runner_reachable s \<Longrightarrow> claims_ok (abs_sys s) \<and> sys_ok s"
  by (intro reachable_ok runner_reachable_reach)

subsection \<open>Jobs stay in their queue, and are announced before they run\<close>

definition announced :: "event list \<Rightarrow> int \<Rightarrow> bool" where
  "announced evs i \<longleftrightarrow> (\<exists>msg tot n. EvRun i Queued msg tot n \<in> set evs)"

definition job_ok :: "runner \<Rightarrow> int \<Rightarrow> job \<Rightarrow> bool" where
  "job_ok r q j \<longleftrightarrow> j_queue_id j = q \<and> (\<forall>t\<in>set (j_targets j). t_queue_id t = q) \<and> announced (r_events r) (j_run_id j)"

text \<open>The job a worker is busy with and the targets it may still test.\<close>

fun pc_job :: "pc \<Rightarrow> (job \<times> target list) option" where
  "pc_job (WBegin j) = Some (j, [])"
| "pc_job (WRunning j tot) = Some (j, [])"
| "pc_job (WPubRunning j tot) = Some (j, [])"
| "pc_job (WTarget j ts failed) = Some (j, ts)"
| "pc_job (WMeta j t ts failed opts) = Some (j, t # ts)"
| "pc_job (WTest j t ts failed opts m) = Some (j, t # ts)"
| "pc_job (WPanic j t msg) = Some (j, [t])"
| "pc_job (WMark j ts failed p) = Some (j, ts)"
| "pc_job (WPubMark j ts failed p tot n) = Some (j, ts)"
| "pc_job (WFinish j failed canceled) = Some (j, [])"
| "pc_job _ = None"

definition queues_placed :: "runner \<Rightarrow> bool" where
  "queues_placed r \<longleftrightarrow> (\<forall>q ch. r_queues r q = Some ch \<longrightarrow> (\<forall>j\<in>set ch. job_ok r q j))"

definition worker_placed :: "sys \<Rightarrow> int \<Rightarrow> bool" where
  "worker_placed s q \<longleftrightarrow> (\<forall>j ts. pc_job (s_pc s (Worker q)) = Some (j, ts) \<longrightarrow>
     job_ok (s_r s) q j \<and> set ts \<subseteq> set (j_targets j))"

definition queued_first :: "event list \<Rightarrow> bool" where
  "queued_first evs \<longleftrightarrow> (\<forall>k i msg tot n. k < length evs \<longrightarrow> evs ! k = EvRun i Running msg tot n \<longrightarrow>
     announced (take k evs) i)"

definition jobs_placed :: "sys \<Rightarrow> bool" where
  "jobs_placed s \<longleftrightarrow> queues_placed (s_r s) \<and> (\<forall>q. worker_placed s q) \<and> queued_first (r_events (s_r s))"

lemma announced_append [simp]: "announced (xs @ ys) i \<longleftrightarrow> announced xs i \<or> announced ys i"
  by (auto simp: announced_def)

lemma queued_first_snoc:
  "queued_first (evs @ [e]) \<longleftrightarrow> queued_first evs \<and>
     (\<forall>i msg tot n. e = EvRun i Running msg tot n \<longrightarrow> announced evs i)"
proof
  assume q: "queued_first (evs @ [e])"
  have "announced (take k evs) i" if "k < length evs" "evs ! k = EvRun i Running msg tot n" for k i msg tot n
    using q that unfolding queued_first_def
    by (metis (no_types, lifting) append_assoc length_append less_or_eq_imp_le nth_append take_append trans_less_add1
        diff_is_0_eq' take_0 append_Nil2)
  moreover have "announced evs i" if "e = EvRun i Running msg tot n" for i msg tot n
    using q [unfolded queued_first_def, rule_format, of "length evs" i msg tot n] that by simp
  ultimately show "queued_first evs \<and> (\<forall>i msg tot n. e = EvRun i Running msg tot n \<longrightarrow> announced evs i)"
    unfolding queued_first_def by blast
next
  assume "queued_first evs \<and> (\<forall>i msg tot n. e = EvRun i Running msg tot n \<longrightarrow> announced evs i)"
  then show "queued_first (evs @ [e])"
    unfolding queued_first_def by (auto simp: nth_append less_Suc_eq split: if_splits)
qed

lemma job_ok_mono:
  "job_ok r q j \<Longrightarrow> r_events r' = r_events r @ evs \<Longrightarrow> job_ok r' q j"
  by (simp add: job_ok_def)

text \<open>A step that leaves the queues alone, moves one thread and appends events none of which is a
  premature \<open>running\<close>.\<close>

lemma jobs_placed_goto:
  assumes inv: "jobs_placed s" and q: "r_queues r = r_queues (s_r s)"
    and ev: "r_events r = r_events (s_r s) @ evs" "queued_first (r_events r)"
    and pc: "\<And>q j ts. t = Worker q \<Longrightarrow> pc_job p = Some (j, ts) \<Longrightarrow> job_ok r q j \<and> set ts \<subseteq> set (j_targets j)"
  shows "jobs_placed (goto t p r s)"
proof -
  have "job_ok r q j" if "job_ok (s_r s) q j" for q j using that ev(1) by (rule job_ok_mono)
  then show ?thesis using inv q ev(2) pc
    by (fastforce simp: jobs_placed_def queues_placed_def worker_placed_def)
qed


lemma worker_job:
  assumes "jobs_placed s" "pc_job (s_pc s (Worker q)) = Some (j, ts)"
  shows "job_ok (s_r s) q j" "set ts \<subseteq> set (j_targets j)"
  using assms by (auto simp: jobs_placed_def worker_placed_def)

subsection \<open>The pieces that publish nothing\<close>

definition silent :: "runner \<Rightarrow> runner \<Rightarrow> bool" where
  "silent r r' \<longleftrightarrow> r_queues r' = r_queues r \<and> r_events r' = r_events r"

lemma silent_pieces:
  "execute_begin i r = (r', e) \<Longrightarrow> silent r r'"
  "markTargetDone i r = (r', x1) \<Longrightarrow> silent r r'"
  "finish_claim i f c r = (r', x2) \<Longrightarrow> silent r r'"
  "cancel_claim i r = (r', x3) \<Longrightarrow> silent r r'"
  "claimForForceCancel i r = (r', x4) \<Longrightarrow> silent r r'"
  "setRunStatus None flts now i st msg r = (r', x5) \<Longrightarrow> silent r r'"
  "shutdown_begin r = (r', x6) \<Longrightarrow> silent r r'"
  "enqueue_create flt r req = (r', x7) \<Longrightarrow> silent r r'"
  "silent r (r\<lparr>r_db := d\<rparr>)" "silent r r" "silent r (Start r)" "silent r (beginFinalize i r)"
  "silent r (endFinalize i r)" "silent r (shutdown_cancel r)"
  by (auto simp: silent_def execute_begin_def markTargetDone_def finish_claim_def cancel_claim_def
      claimForForceCancel_def setRunStatus_production shutdown_begin_def enqueue_create_def Start_def
      beginFinalize_def endFinalize_def shutdown_cancel_def Let_def
      split: option.splits if_splits prod.splits sum.splits)

lemma storeResult_events:
  assumes "storeResult flt res m r = (r', ok)"
  shows "r_queues r' = r_queues r" "\<exists>evs. r_events r' = r_events r @ evs \<and> (\<forall>e\<in>set evs. \<exists>x. e = EvResult x)"
  using assms by (auto simp: storeResult_def split: prod.splits sum.splits)

lemma publishRun_sel [simp]:
  "r_queues (publishRun i st msg tot n r) = r_queues r"
  "r_events (publishRun i st msg tot n r) = r_events r @ [EvRun i st msg tot n]"
  "r_runs (publishRun i st msg tot n r) = r_runs r" "r_db (publishRun i st msg tot n r) = r_db r"
  by (simp_all add: publishRun_def)

lemma jobs_placed_silent:
  assumes "jobs_placed s" "silent (s_r s) r"
    and "\<And>q j ts. t = Worker q \<Longrightarrow> pc_job p = Some (j, ts) \<Longrightarrow>
           \<exists>ts0. pc_job (s_pc s t) = Some (j, ts0) \<and> (set ts \<subseteq> set ts0 \<or> set ts \<subseteq> set (j_targets j))"
  shows "jobs_placed (goto t p r s)"
proof (rule jobs_placed_goto [where evs = "[]"])
  fix q j ts assume "t = Worker q" "pc_job p = Some (j, ts)"
  from assms(3) [OF this] obtain ts0 where
    t: "pc_job (s_pc s (Worker q)) = Some (j, ts0)" "set ts \<subseteq> set ts0 \<or> set ts \<subseteq> set (j_targets j)"
    using \<open>t = Worker q\<close> by blast
  have "job_ok r q j" using worker_job(1) [OF assms(1) t(1)] assms(2) by (simp add: job_ok_def silent_def)
  then show "job_ok r q j \<and> set ts \<subseteq> set (j_targets j)" using worker_job(2) [OF assms(1) t(1)] t(2) by auto
qed (use assms in \<open>auto simp: silent_def jobs_placed_def\<close>)

lemma queued_first_results:
  "queued_first evs \<Longrightarrow> \<forall>e\<in>set xs. \<exists>x. e = EvResult x \<Longrightarrow> queued_first (evs @ xs)"
proof (induction xs arbitrary: evs)
  case (Cons e xs)
  then have "queued_first (evs @ [e])" by (auto simp: queued_first_snoc)
  from Cons.IH [OF this] Cons.prems(2) show ?case by simp
qed simp

lemma wstep_placed:
  assumes inv: "jobs_placed s" and step: "wstep q s s'"
  shows "jobs_placed s'"
proof -
  note silent = jobs_placed_silent [OF inv]
  have qf: "queued_first (r_events (s_r s))" using inv by (simp add: jobs_placed_def)
  have ann: "announced (r_events (s_r s)) (j_run_id j)" if "pc_job (s_pc s (Worker q)) = Some (j, ts)" for j ts
    using worker_job(1) [OF inv that] by (simp add: job_ok_def)
  have mono: "job_ok r q j \<and> set ts \<subseteq> set (j_targets j)"
    if "pc_job (s_pc s (Worker q)) = Some (j, ts0)" "set ts \<subseteq> set ts0 \<or> set ts \<subseteq> set (j_targets j)"
      "r_events r = r_events (s_r s) @ evs" for j ts ts0 r evs
    using worker_job [OF inv that(1)] that(2) job_ok_mono [OF _ that(3)] by blast
  show ?thesis using step
  proof cases
    case (w_take j js)
    have qp: "job_ok (s_r s) p k" if "r_queues (s_r s) p = Some ch" "k \<in> set ch" for p ch k
      using inv that by (auto simp: jobs_placed_def queues_placed_def)
    have "worker_placed s p" for p using inv by (simp add: jobs_placed_def)
    moreover have "job_ok ((s_r s)\<lparr>r_queues := x\<rparr>) = job_ok (s_r s)" for x by (simp add: job_ok_def fun_eq_iff)
    ultimately show ?thesis using w_take qp [OF w_take(3)] qp qf
      by (auto simp: jobs_placed_def queues_placed_def worker_placed_def split: if_splits)
  next
    case (w_pub_running j tot)
    let ?r = "publishRun (j_run_id j) Running '''' tot (doneCount (j_run_id j) (s_r s)) (s_r s)"
    have pj: "pc_job (s_pc s (Worker q)) = Some (j, [])" using w_pub_running by simp
    show ?thesis unfolding w_pub_running(1)
      by (rule jobs_placed_goto [OF inv, where evs = "[EvRun (j_run_id j) Running '''' tot (doneCount (j_run_id j) (s_r s))]"])
        (use ann [OF pj] mono [OF pj, of _ ?r] in \<open>auto simp: queued_first_snoc qf\<close>)
  next
    case (w_progress j t ts failed opts m p)
    let ?e = "EvProgress (j_run_id j) (t_id t) (t_engine t) p"
    have pj: "pc_job (s_pc s (Worker q)) = Some (j, t # ts)" using w_progress by simp
    show ?thesis unfolding w_progress(1)
      by (rule jobs_placed_goto [OF inv, where evs = "[?e]"])
        (use mono [OF pj, of "t # ts" "(s_r s)\<lparr>r_events := r_events (s_r s) @ [?e]\<rparr>" "[?e]"] in
          \<open>auto simp: queued_first_snoc qf\<close>)
  next
    case (w_result j t ts failed opts m res bad flt r ok)
    from storeResult_events [OF w_result(4)] obtain evs where
      ev: "r_queues r = r_queues (s_r s)" "r_events r = r_events (s_r s) @ evs" "\<forall>e\<in>set evs. \<exists>x. e = EvResult x"
      by blast
    show ?thesis unfolding w_result(1)
      by (rule jobs_placed_goto [OF inv ev(1,2)])
        (use w_result ev queued_first_results [OF qf ev(3)] mono [OF _ _ ev(2), of j "t # ts"] in auto)
  next
    case (w_recover j t msg flt now r ok)
    from storeResult_events [OF w_recover(3)] obtain evs where
      ev: "r_queues r = r_queues (s_r s)" "r_events r = r_events (s_r s) @ evs" "\<forall>e\<in>set evs. \<exists>x. e = EvResult x"
      by blast
    show ?thesis unfolding w_recover(1)
      by (rule jobs_placed_goto [OF inv ev(1,2)])
        (use w_recover ev queued_first_results [OF qf ev(3)] mono [OF _ _ ev(2), of j "[t]"] in auto)
  next
    case (w_pub_mark j ts failed p tot n)
    have pj: "pc_job (s_pc s (Worker q)) = Some (j, ts)" using w_pub_mark by simp
    show ?thesis unfolding w_pub_mark(1)
      by (rule jobs_placed_goto [OF inv, where evs = "[EvRun (j_run_id j) Running '''' tot n]"])
        (use ann [OF pj] mono [OF pj, of _ "publishRun (j_run_id j) Running '''' tot n (s_r s)"] in
          \<open>auto simp: queued_first_snoc qf after_mark_def split: if_splits\<close>)
  next
    case (w_mark_gone j ts failed p r)
    then show ?thesis by (auto intro!: silent simp: after_mark_def silent_pieces split: if_splits)
  qed (auto intro!: silent simp: silent_pieces split: if_splits)
qed

lemma send_jobs_placed:
  assumes "send_jobs js r = (r', full)" "queues_placed r"
    and "\<And>j. j \<in> set js \<Longrightarrow> job_ok r (j_queue_id j) j \<and> r_queues r (j_queue_id j) \<noteq> None"
  shows "queues_placed r'"
  using assms
proof (induction js arbitrary: r)
  case (Cons j js)
  obtain ch where ch: "r_queues r (j_queue_id j) = Some ch" using Cons.prems(3) by fastforce
  let ?r = "r\<lparr>r_queues := (r_queues r)(j_queue_id j \<mapsto> ch @ [j])\<rparr>"
  show ?case
  proof (cases "length ch < r_cap r")
    case True
    have same: "job_ok ?r = job_ok r" by (simp add: job_ok_def fun_eq_iff)
    have send: "send_jobs js ?r = (r', full)" using Cons.prems(1) ch True by (simp add: Let_def)
    have "queues_placed ?r" using Cons.prems(2) Cons.prems(3) [of j] ch
      unfolding queues_placed_def same by auto
    from Cons.IH [OF send this] Cons.prems(3) show ?thesis unfolding same by auto
  next
    case False
    with Cons.prems ch show ?thesis by (simp add: Let_def)
  qed
qed simp

lemma enqueue_commit_placed:
  assumes "enqueue_commit i sname ts req r = (r', out)" "queues_placed r"
  shows "queues_placed r' \<and> (r_events r' = r_events r \<or> r_events r' = r_events r @ [EvRun i Queued '''' (length ts) 0])"
proof (cases "r_closing r \<or> \<not> r_started r")
  case True
  with assms show ?thesis by (auto simp: enqueue_commit_def)
next
  case False
  let ?g = "group_targets ts" and ?e = "EvRun i Queued '''' (length ts) 0"
  define r1 where "r1 = r\<lparr>r_runs := (r_runs r)(i \<mapsto> \<lparr>rt_pending = int (length (g_order ?g)), rt_total = length ts,
     rt_done = 0, rt_failed = False, rt_canceled = False, rt_started = False, rt_trigger = rq_trigger req,
     rt_schedule_id = rq_schedule_id req, rt_schedule_name = sname\<rparr>)\<rparr>"
  define r2 where "r2 = fold (\<lambda>q. queueChan q (the (g_names ?g q))) (g_order ?g) r1"
  define r3 where "r3 = publishRun i Queued '''' (length ts) 0 r2"
  let ?js = "map (group_job i req ?g) (g_order ?g)"
  obtain r4 f where r4: "send_jobs ?js r3 = (r4, f)" by (meson surj_pair)
  note r2s = fold_queueChan [where g = "\<lambda>q. the (g_names ?g q)" and qs = "g_order ?g" and r = r1, folded r2_def]
  have ev3: "r_events r3 = r_events r @ [?e]" using r2s(5) by (simp add: r3_def r1_def)
  have ann3: "announced (r_events r3) i" unfolding ev3 announced_def by auto
  have "queues_placed r3" unfolding queues_placed_def
  proof (intro allI impI ballI)
    fix q ch j assume "r_queues r3 q = Some ch" "j \<in> set ch"
    then have "r_queues r q = Some ch" using r2s(10) [of q] by (auto simp: r3_def r1_def)
    with \<open>j \<in> set ch\<close> assms(2) have "job_ok r q j" by (auto simp: queues_placed_def)
    then show "job_ok r3 q j" using ev3 by (rule job_ok_mono)
  qed
  moreover have "job_ok r3 (j_queue_id j) j \<and> r_queues r3 (j_queue_id j) \<noteq> None" if "j \<in> set ?js" for j
    using that r2s(9) group_targets_ok [of ts] ann3
    by (auto simp: group_job_def job_ok_def group_ok_def r3_def simp del: publishRun_sel(2) split: if_splits)
  ultimately have "queues_placed r4" using send_jobs_placed [OF r4] by blast
  moreover have "r' = r4\<lparr>r_ctx_done := insert i (r_ctx_done r4), r_runs := (r_runs r4)(i := None)\<rparr> \<or>
      r' = r4\<lparr>r_finalizing := r_finalizing r4 - {i}\<rparr>"
    using assms(1) False r4 unfolding enqueue_commit_def Let_def r3_def r2_def r1_def by (auto split: if_splits)
  ultimately show ?thesis using send_jobs_sel(4) [OF r4] ev3
    by (auto simp: queues_placed_def job_ok_def)
qed

lemma jobs_placed_commit:
  assumes inv: "jobs_placed s" and c: "enqueue_commit i sname ts req (s_r s) = (r, out)" and "pc_job p = None"
  shows "jobs_placed (goto t p r s)"
proof -
  have qp: "queues_placed (s_r s)" "queued_first (r_events (s_r s))" using inv by (auto simp: jobs_placed_def)
  from enqueue_commit_placed [OF c qp(1)] obtain evs where r: "queues_placed r"
    "r_events r = r_events (s_r s) @ evs" "evs = [] \<or> evs = [EvRun i Queued '''' (length ts) 0]" by fastforce
  have "queued_first (r_events r)" using r(2,3) qp(2) by (auto simp: queued_first_snoc)
  moreover have "worker_placed (goto t p r s) q" for q
    using inv assms(3) job_ok_mono [OF _ r(2)] by (auto simp: worker_placed_def jobs_placed_def)
  ultimately show ?thesis using r(1) by (simp add: jobs_placed_def)
qed

lemma jobs_placed_publish:
  assumes inv: "jobs_placed s" and "st \<noteq> Running" "pc_job p = None"
  shows "jobs_placed (goto t p (publishRun i st msg tot n (s_r s)) s)"
  by (rule jobs_placed_goto [OF inv, where evs = "[EvRun i st msg tot n]"])
    (use assms in \<open>auto simp: queued_first_snoc jobs_placed_def\<close>)

lemma jobs_placed_env: "jobs_placed s \<Longrightarrow> jobs_placed (s\<lparr>s_r := (s_r s)\<lparr>r_db := d\<rparr>\<rparr>)"
  by (simp add: jobs_placed_def queues_placed_def worker_placed_def job_ok_def)

lemma jobs_placed_extra:
  "jobs_placed s \<Longrightarrow> jobs_placed (s\<lparr>s_emu := e\<rparr>)" "jobs_placed s \<Longrightarrow> jobs_placed (s\<lparr>s_lost := l\<rparr>)"
  by (simp_all add: jobs_placed_def worker_placed_def)

lemma fstep_placed:
  assumes inv: "jobs_placed s" and ok: "sys_ok s" and st: "\<And>t i st msg tot n. s_pc s t = Publish i st msg tot n \<Longrightarrow> st \<noteq> Running"
    and step: "fstep t s s'"
  shows "jobs_placed s'"
  using step
proof cases
  case (f_write i st msg tot n always flts now r err)
  have "jobs_placed (goto t (if err = None \<or> always then Publish i st msg tot n else EndFin i) r s)"
    by (rule jobs_placed_silent [OF inv]) (use f_write in \<open>auto simp: silent_pieces split: if_splits\<close>)
  then show ?thesis unfolding f_write(1) by (rule jobs_placed_extra)
next
  case (f_publish i st msg tot n)
  then show ?thesis using jobs_placed_publish [OF inv st [OF f_publish(2)]] by simp
next
  case (f_end i)
  then show ?thesis by (auto intro!: jobs_placed_silent [OF inv] simp: silent_pieces)
qed

lemma cstep_placed:
  assumes inv: "jobs_placed s" and step: "cstep t s s'"
  shows "jobs_placed s'"
  using step
proof cases
  case (e_refused req ts i sname r)
  then show ?thesis using jobs_placed_commit [OF inv] by simp
next
  case (e_full req ts i sname r)
  then show ?thesis using jobs_placed_commit [OF inv] by simp
next
  case (e_commit req ts i sname r)
  then show ?thesis using jobs_placed_commit [OF inv] by simp
next
  case (k_publish i)
  then show ?thesis using jobs_placed_publish [OF inv] by (simp add: jobs_placed_extra)
next
  case (h_publish i tot n "is")
  then show ?thesis using jobs_placed_publish [OF inv] by simp
qed (auto intro!: jobs_placed_silent [OF inv] jobs_placed_extra simp: silent_pieces split: option.splits prod.splits)

subsection \<open>Published final statuses are the stored ones\<close>

text \<open>A run whose final status is \<open>st\<close>: its row says so, or retention has removed it.\<close>

definition settled :: "run_view \<Rightarrow> int \<Rightarrow> int \<Rightarrow> run_status \<Rightarrow> bool" where
  "settled v n i st \<longleftrightarrow> terminal st \<and> i \<le> n \<and> (\<forall>st' sid. v i = Some (st', sid) \<longrightarrow> st' = st)"

lemma settled_step:
  assumes "settled (c_rows c) (c_seq c) i st" "claim_step c c'"
  shows "settled (c_rows c') (c_seq c') i st"
  using assms(2)
proof cases
  case (a_env v n)
  then show ?thesis using assms(1) env_change_cases [OF a_env(2), of i] env_change_seq [OF a_env(2)]
    by (auto simp: settled_def)
qed (use assms(1) in \<open>auto simp: settled_def split: if_splits\<close>)

lemma settled_steps:
  "claim_step\<^sup>*\<^sup>* c c' \<Longrightarrow> settled (c_rows c) (c_seq c) i st \<Longrightarrow> settled (c_rows c') (c_seq c') i st"
  by (induction rule: rtranclp_induct) (auto intro: settled_step)

definition sys_settled :: "sys \<Rightarrow> int \<Rightarrow> run_status \<Rightarrow> bool" where
  "sys_settled s = settled (run_view (r_db (s_r s))) (seq (runs_t (r_db (s_r s))))"

lemma sys_settled_step:
  "claims_ok (abs_sys s) \<Longrightarrow> sys_ok s \<Longrightarrow> sstep s s' \<Longrightarrow> sys_settled s i st \<Longrightarrow> sys_settled s' i st"
  using settled_steps [OF sstep_sim] by (simp add: sys_settled_def)

text \<open>The final status a thread is about to publish; the notice of a full queue is published
  whatever became of its write, so it is left out.\<close>

fun pc_news :: "pc \<Rightarrow> (int \<times> run_status) option" where
  "pc_news (Publish i st msg tot n) = (if msg = ''queue full'' then None else Some (i, st))"
| "pc_news (OrphanPublish i) = Some (i, Canceled)"
| "pc_news (ShutEnd i (Some x) is) = Some (i, Canceled)"
| "pc_news (ShutPublish i tot n is) = Some (i, Canceled)"
| "pc_news _ = None"

fun pc_shape :: "pc \<Rightarrow> bool" where
  "pc_shape (Publish i st msg tot n) \<longleftrightarrow> st \<noteq> Running"
| "pc_shape (Write i st msg tot n always) \<longleftrightarrow> (always \<longrightarrow> msg = ''queue full'')"
| "pc_shape _ \<longleftrightarrow> True"

definition news_ok :: "sys \<Rightarrow> bool" where
  "news_ok s \<longleftrightarrow> (\<forall>i st msg tot n. EvRun i st msg tot n \<in> set (r_events (s_r s)) \<longrightarrow> terminal st \<longrightarrow>
       msg \<noteq> ''queue full'' \<longrightarrow> sys_settled s i st) \<and>
     (\<forall>t i st. pc_news (s_pc s t) = Some (i, st) \<longrightarrow> sys_settled s i st) \<and> (\<forall>t. pc_shape (s_pc s t))"

lemma news_okD:
  assumes "news_ok s"
  shows "EvRun i st msg tot n \<in> set (r_events (s_r s)) \<Longrightarrow> terminal st \<Longrightarrow> msg \<noteq> ''queue full'' \<Longrightarrow> sys_settled s i st"
    "pc_news (s_pc s t) = Some (i, st) \<Longrightarrow> sys_settled s i st" "pc_shape (s_pc s t)"
  using assms unfolding news_ok_def by blast+

lemma news_ok_step:
  assumes inv: "news_ok s" and keep: "\<And>i st. sys_settled s i st \<Longrightarrow> sys_settled s' i st"
    and ev: "\<And>i st msg tot n. EvRun i st msg tot n \<in> set (r_events (s_r s')) \<Longrightarrow> terminal st \<Longrightarrow> msg \<noteq> ''queue full'' \<Longrightarrow>
       EvRun i st msg tot n \<in> set (r_events (s_r s)) \<or> sys_settled s' i st"
    and pc: "s_pc s' = (s_pc s)(t := p)" "\<And>i st. pc_news p = Some (i, st) \<Longrightarrow> sys_settled s' i st" "pc_shape p"
  shows "news_ok s'"
  unfolding news_ok_def
proof (intro conjI allI impI)
  fix i st msg tot n assume "EvRun i st msg tot n \<in> set (r_events (s_r s'))" "terminal st" "msg \<noteq> ''queue full''"
  from ev [OF this] this(2,3) news_okD(1) [OF inv] keep show "sys_settled s' i st" by blast
next
  fix t' i st assume "pc_news (s_pc s' t') = Some (i, st)"
  then show "sys_settled s' i st" using pc news_okD(2) [OF inv] keep by (auto split: if_splits)
next
  fix t' show "pc_shape (s_pc s' t')" using pc news_okD(3) [OF inv] by auto
qed

lemma news_ok_silent:
  assumes "news_ok s" "\<And>i st. sys_settled s i st \<Longrightarrow> sys_settled s' i st" "silent (s_r s) (s_r s')"
    "s_pc s' = (s_pc s)(t := p)" "\<And>i st. pc_news p = Some (i, st) \<Longrightarrow> sys_settled s' i st" "pc_shape p"
  shows "news_ok s'"
  by (rule news_ok_step [OF assms(1,2) _ assms(4-6)]) (use assms(3) in \<open>auto simp: silent_def\<close>)

lemma news_goto_silent:
  assumes inv: "news_ok s" and keep: "\<And>i st. sys_settled s i st \<Longrightarrow> sys_settled s' i st"
  shows "s' = goto t p r s \<Longrightarrow> silent (s_r s) r \<Longrightarrow> pc_news p = None \<Longrightarrow> pc_shape p \<Longrightarrow> news_ok s'"
    and "s' = (goto t p r s)\<lparr>s_emu := e\<rparr> \<Longrightarrow> silent (s_r s) r \<Longrightarrow> pc_news p = None \<Longrightarrow> pc_shape p \<Longrightarrow> news_ok s'"
    and "s' = goto t p (publishRun i Running msg tot n (s_r s)) s \<Longrightarrow> pc_news p = None \<Longrightarrow> pc_shape p \<Longrightarrow> news_ok s'"
  by (rule news_ok_step [OF inv keep, where t = t and p = p]; auto simp: silent_def status_simps)+

lemma wstep_news:
  assumes inv: "news_ok s" and keep: "\<And>i st. sys_settled s i st \<Longrightarrow> sys_settled s' i st" and step: "wstep q s s'"
  shows "news_ok s'"
  using step
proof cases
  case (w_result j t ts failed opts m res bad flt r ok)
  from storeResult_events(2) [OF w_result(4)] obtain evs where
    "r_events r = r_events (s_r s) @ evs" "\<forall>e\<in>set evs. \<exists>x. e = EvResult x" by blast
  with w_result show ?thesis
    by (intro news_ok_step [OF inv keep, where t = "Worker q" and p = "WMark j ts (failed \<or> bad \<or> \<not> ok) False"]) auto
next
  case (w_recover j t msg flt now r ok)
  from storeResult_events(2) [OF w_recover(3)] obtain evs where
    "r_events r = r_events (s_r s) @ evs" "\<forall>e\<in>set evs. \<exists>x. e = EvResult x" by blast
  with w_recover show ?thesis
    by (intro news_ok_step [OF inv keep, where t = "Worker q" and p = "WMark j [] True True"]) auto
next
  case (w_take j js)
  then show ?thesis by (intro news_ok_step [OF inv keep, where t = "Worker q" and p = "WBegin j"]) auto
next
  case (w_progress j t ts failed opts m p)
  then show ?thesis
    by (intro news_ok_step [OF inv keep, where t = "Worker q" and p = "WTest j t ts failed opts m"]) auto
next
  case (w_pub_running j tot)
  show ?thesis by (rule news_goto_silent(3) [OF inv keep w_pub_running(1)]) auto
next
  case (w_pub_mark j ts failed p tot n)
  show ?thesis by (rule news_goto_silent(3) [OF inv keep w_pub_mark(1)]) (auto simp: after_mark_def)
qed (((rule news_goto_silent(1) [OF inv keep], assumption, assumption); auto intro: silent_pieces simp: after_mark_def)+)

lemma fstep_news:
  assumes inv: "news_ok s" and ok: "sys_ok s" and keep: "\<And>i st. sys_settled s i st \<Longrightarrow> sys_settled s' i st"
    and step: "fstep t s s'"
  shows "news_ok s'"
  using step
proof cases
  case (f_write i st msg tot n always flts now r err)
  have dbok: "runs_ok (r_db (s_r s))" using ok by (simp add: sys_ok_def)
  have fin: "terminal st" using ok f_write(2) by (auto simp: sys_ok_iff pc_ok_def dest!: spec [of _ t])
  have sh: "always \<longrightarrow> msg = ''queue full''" using news_okD(3) [OF inv, of t] f_write(2) by simp
  have wrote: "sys_settled s' i st" if "err = None"
    using dbok f_write(3)
  proof (cases rule: setRunStatus_cases)
    case (ok d s0 sid)
    have "i \<le> seq (runs_t (r_db (s_r s)))" using run_view_bound [OF dbok, of i] ok(3) by simp
    then show ?thesis using ok f_write(1) fin by (simp add: sys_settled_def settled_def)
  qed (use that in simp)
  have "st \<noteq> Running" using fin by (auto simp: status_simps)
  then show ?thesis
    by (intro news_ok_silent [OF inv keep, where t = t and p = "if err = None \<or> always then Publish i st msg tot n else EndFin i"])
      (use f_write sh wrote in \<open>auto simp: silent_pieces split: if_splits\<close>)
next
  case (f_publish i st msg tot n)
  have "msg \<noteq> ''queue full'' \<Longrightarrow> sys_settled s' i st" using news_okD(2) [OF inv, of t i st] f_publish keep by simp
  with f_publish show ?thesis by (intro news_ok_step [OF inv keep, where t = t and p = "EndFin i"]) auto
next
  case (f_end i)
  then show ?thesis by (intro news_ok_silent [OF inv keep, where t = t and p = Idle]) (auto simp: silent_pieces)
qed

lemma cstep_news:
  assumes inv: "news_ok s" and ok: "sys_ok s" and qp: "queues_placed (s_r s)"
    and keep: "\<And>i st. sys_settled s i st \<Longrightarrow> sys_settled s' i st" and step: "cstep t s s'"
  shows "news_ok s'"
proof -
  have dbok: "runs_ok (r_db (s_r s))" using ok by (simp add: sys_ok_def)
  have commit: "news_ok s'" if "s' = goto t p r s" "enqueue_commit i sname ts req (s_r s) = (r, out)"
      "pc_news p = None" "pc_shape p" for p r i sname ts req out
    using that enqueue_commit_placed [OF that(2) qp]
    by (intro news_ok_step [OF inv keep, where t = t and p = p]) (auto simp: status_simps)
  show ?thesis using step
  proof cases
    case (e_refused req ts i sname r)
    then show ?thesis by (intro commit [OF e_refused(1) e_refused(3)]) auto
  next
    case (e_full req ts i sname r)
    then show ?thesis by (intro commit [OF e_full(1) e_full(3)]) auto
  next
    case (e_commit req ts i sname r)
    then show ?thesis by (intro commit [OF e_commit(1) e_commit(3)]) auto
  next
    case (k_write i flts now r)
    show ?thesis using dbok k_write(3)
    proof (cases rule: setRunStatus_cases)
      case (ok d s0 sid)
      then have "sys_settled s' i Canceled"
        using k_write(1) run_view_bound [OF dbok, of i] by (simp add: sys_settled_def settled_def status_simps)
      then show ?thesis using k_write
        by (intro news_ok_silent [OF inv keep, where t = t and p = "OrphanPublish i"]) (auto simp: silent_pieces)
    qed simp
  next
    case (k_publish i)
    then have "sys_settled s' i Canceled" using news_okD(2) [OF inv, of t i Canceled] keep by simp
    with k_publish show ?thesis by (intro news_ok_step [OF inv keep, where t = t and p = Idle]) auto
  next
    case (h_write i tot n "is" flt now d res)
    have "sys_settled s' i Canceled" if "res = Inr ()"
      using dbok h_write(3)
    proof (cases rule: rs.set_cases)
      case (ok s0 sid)
      then show ?thesis using h_write(1) run_view_bound [OF dbok, of i] SetRunStatus_seq [OF h_write(3)]
        by (simp add: sys_settled_def settled_def status_simps)
    qed (use that in simp)
    with h_write show ?thesis
      by (intro news_ok_silent [OF inv keep, where t = t and p = "ShutEnd i (if res = Inr () then Some (tot, n) else None) is"])
        (auto simp: silent_pieces split: if_splits)
  next
    case (h_end i pub "is")
    have "sys_settled s' i Canceled" if "pub \<noteq> None" using news_okD(2) [OF inv, of t i Canceled] h_end that keep by auto
    with h_end show ?thesis
      by (intro news_ok_silent [OF inv keep, where t = t and
            p = "case pub of None \<Rightarrow> ShutLoop is | Some (tot, n) \<Rightarrow> ShutPublish i tot n is"])
        (auto simp: silent_pieces split: option.splits)
  next
    case (h_publish i tot n "is")
    then have "sys_settled s' i Canceled" using news_okD(2) [OF inv, of t i Canceled] keep by simp
    with h_publish show ?thesis by (intro news_ok_step [OF inv keep, where t = t and p = "ShutLoop is"]) auto
  qed ((((rule news_goto_silent(1) [OF inv keep], assumption, assumption) | (rule news_goto_silent(2) [OF inv keep], assumption, assumption));
      auto intro: silent_pieces)+)
qed

subsection \<open>Together\<close>

definition events_ok :: "sys \<Rightarrow> bool" where
  "events_ok s \<longleftrightarrow> jobs_placed s \<and> news_ok s"

lemma events_ok_step:
  assumes ok: "claims_ok (abs_sys s)" "sys_ok s" and inv: "events_ok s" and step: "sstep s s'"
  shows "events_ok s'"
proof -
  note keep = sys_settled_step [OF ok step]
  have jp: "jobs_placed s" and nw: "news_ok s" and qp: "queues_placed (s_r s)"
    using inv by (auto simp: events_ok_def jobs_placed_def)
  have st: "st \<noteq> Running" if "s_pc s t = Publish i st msg tot n" for t i st msg tot n
    using news_okD(3) [OF nw, of t] that by simp
  show ?thesis using step
  proof cases
    case (s_worker q)
    then show ?thesis using wstep_placed [OF jp] wstep_news [OF nw keep] by (simp add: events_ok_def)
  next
    case (s_final t)
    then show ?thesis using fstep_placed [OF jp ok(2) st] fstep_news [OF nw ok(2) keep] by (simp add: events_ok_def)
  next
    case (s_caller k)
    then show ?thesis using cstep_placed [OF jp] cstep_news [OF nw ok(2) qp keep] by (simp add: events_ok_def)
  next
    case (s_env d)
    have "news_ok s'"
      by (rule news_ok_silent [OF nw keep, where t = "Caller 0" and p = "s_pc s (Caller 0)"])
        (use s_env news_okD(2,3) [OF nw] keep in \<open>auto simp: silent_def\<close>)
    then show ?thesis using jobs_placed_env [OF jp] s_env by (simp add: events_ok_def)
  qed
qed

lemma runner_reachable_events: "runner_reachable s \<Longrightarrow> events_ok s"
proof (induction rule: runner_reachable.induct)
  case (start s)
  then show ?case
    by (auto simp: sys_init_def New_def events_ok_def jobs_placed_def queues_placed_def worker_placed_def
        queued_first_def news_ok_def)
next
  case (more s s')
  then show ?case using events_ok_step runner_reachable_ok by blast
qed

end
