(* ===== verification/Runner_Demo.thy ===== *)
theory Runner_Demo
  imports Runner_Events
begin

text \<open>
  Two concrete executions of the interleaved runner, used to show that the hypotheses of its
  theorems can hold: a cron run of one target that is canceled while queued, and the same run
  up to the moment its engine is working.
\<close>

definition demo_now :: string where "demo_now = ''2026-01-01T00:00:00.000Z''"

definition demo_row :: target_row where
  "demo_row = \<lparr>t_id = 1, t_name = ''home'', t_engine = ''iperf3'', t_enabled = True, t_queue_id = 1,
     t_options = RawDoc (JObj [(''host'', JStr ''a'')]), t_thresholds = RawDoc (JObj []),
     t_rotation_index = 0, t_created_at = ''t0'', t_updated_at = ''t0''\<rparr>"

definition demo_db :: db where
  "demo_db = seeded_db\<lparr>targets_t := \<lparr>rows = [demo_row], seq = 1\<rparr>,
     schedules_t := \<lparr>rows = [\<lparr>s_id = 1, s_name = ''hourly'', s_cron = ''0 * * * *'', s_enabled = True,
       s_timezone = ''UTC'', s_created_at = ''t0'', s_updated_at = ''t0''\<rparr>], seq = 1\<rparr>\<rparr>"

definition demo_req :: run_request where
  "demo_req = \<lparr>rq_trigger = Cron, rq_schedule_id = Some 1, rq_target_ids = [1], rq_snapshots = Map.empty\<rparr>"

definition demo_ts :: "target list" where "demo_ts = [demo_target]"

definition demo0 :: sys where
  "demo0 = \<lparr>s_r = New 2 demo_db, s_pc = (\<lambda>t. Idle), s_emu = None, s_lost = {}\<rparr>"
definition demo1 :: sys where "demo1 = goto (Caller 0) Idle (Start (s_r demo0)) demo0"
definition demo2 :: sys where "demo2 = goto (Caller 0) (EnqTargets demo_req demo_ts) (s_r demo1) demo1"
definition demo3 :: sys where
  "demo3 = (goto (Caller 0) (EnqCreate demo_req demo_ts) (s_r demo2) demo2)\<lparr>s_emu := Some (Caller 0)\<rparr>"
definition demo4 :: sys where
  "demo4 = goto (Caller 0) (EnqMark demo_req demo_ts 1) (fst (enqueue_create None (s_r demo3) demo_req)) demo3"
definition demo5 :: sys where
  "demo5 = (goto (Caller 0) (EnqCommit demo_req demo_ts 1) (beginFinalize 1 (s_r demo4)) demo4)\<lparr>s_emu := None\<rparr>"
definition demo6 :: sys where
  "demo6 = goto (Caller 0) Idle (fst (enqueue_commit 1 ''hourly'' demo_ts demo_req (s_r demo5))) demo5"

definition demo_job :: job where
  "demo_job = hd (the (r_queues (s_r demo6) 1))"

lemma demo_init: "sys_init demo0"
  unfolding sys_init_def
  by (rule exI [of _ 2], rule exI [of _ demo_db])
    (simp add: demo0_def demo_db_def seeded_db_def empty_db_def empty_tbl_def runs_ok_def tbl_ok_def)

lemmas demo_step = runner_reachable.more [OF _ s_caller] runner_reachable.more [OF _ s_worker]
  runner_reachable.more [OF _ s_final]

lemma demo1_reachable: "runner_reachable demo1"
  unfolding demo1_def by (rule demo_step(1) [OF runner_reachable.start [OF demo_init] c_start]) (simp add: demo0_def)

lemma demo2_reachable: "runner_reachable demo2"
  unfolding demo2_def
proof (rule demo_step(1) [OF demo1_reachable e_targets])
  show "s_pc demo1 (Caller 0) = Idle" by (simp add: demo1_def demo0_def)
  show "enqueue_targets None (s_r demo1) demo_req = Inr demo_ts" by code_simp
qed

lemma demo3_reachable: "runner_reachable demo3"
  unfolding demo3_def
proof (rule demo_step(1) [OF demo2_reachable e_lock])
  show "s_pc demo2 (Caller 0) = EnqTargets demo_req demo_ts" "s_emu demo2 = None"
    by (simp_all add: demo2_def demo1_def demo0_def)
  show "enqueue_dedupe None (s_r demo2) demo_req = Inr None" by code_simp
qed

lemma demo4_reachable: "runner_reachable demo4"
  unfolding demo4_def
proof (rule demo_step(1) [OF demo3_reachable e_create])
  show "s_pc demo3 (Caller 0) = EnqCreate demo_req demo_ts" by (simp add: demo3_def)
  have "snd (enqueue_create None (s_r demo3) demo_req) = Inr 1" by code_simp
  then show "enqueue_create None (s_r demo3) demo_req = (fst (enqueue_create None (s_r demo3) demo_req), Inr 1)"
    by (metis prod.collapse)
qed

lemma demo5_reachable: "runner_reachable demo5"
  unfolding demo5_def by (rule demo_step(1) [OF demo4_reachable e_mark]) (simp add: demo4_def)

lemma demo6_commit: "enqueue_commit 1 ''hourly'' demo_ts demo_req (s_r demo5) =
      (fst (enqueue_commit 1 ''hourly'' demo_ts demo_req (s_r demo5)), Committed)"
proof -
  have "snd (enqueue_commit 1 ''hourly'' demo_ts demo_req (s_r demo5)) = Committed" by code_simp
  then show ?thesis by (metis prod.collapse)
qed

lemma demo6_reachable: "runner_reachable demo6"
  unfolding demo6_def by (rule demo_step(1) [OF demo5_reachable e_commit [OF _ demo6_commit]]) (simp add: demo5_def)

lemma demo_ts_nonempty: "demo_ts \<noteq> []"
  by (simp add: demo_ts_def)

lemma demo5_untracked: "pendings (s_r demo5) 1 = None"
  by code_simp

lemma demo_job_eq: "r_queues (s_r demo6) 1 = Some [demo_job]" "j_run_id demo_job = 1" "j_targets demo_job = demo_ts"
proof -
  have q: "(case r_queues (s_r demo6) 1 of Some ch \<Rightarrow> length ch = 1 | None \<Rightarrow> False)" by code_simp
  then obtain ch where "r_queues (s_r demo6) 1 = Some ch" "length ch = 1" by (auto split: option.splits)
  then show "r_queues (s_r demo6) 1 = Some [demo_job]" by (auto simp: demo_job_def length_Suc_conv)
  show "j_run_id demo_job = 1" by code_simp
  show "j_targets demo_job = demo_ts" by code_simp
qed

subsection \<open>Canceled while queued\<close>

definition demo7 :: sys where
  "demo7 = goto (Caller 1) (Write 1 Canceled '''' 1 0 False) (fst (cancel_claim 1 (s_r demo6))) demo6"
definition demo8 :: sys where
  "demo8 = (goto (Caller 1) (Publish 1 Canceled '''' 1 0)
     (fst (setRunStatus None (None, None) demo_now 1 Canceled '''' (s_r demo7))) demo7)\<lparr>s_lost := {}\<rparr>"
definition demo9 :: sys where
  "demo9 = goto (Caller 1) (EndFin 1) (publishRun 1 Canceled '''' 1 0 (s_r demo8)) demo8"
definition demo10 :: sys where "demo10 = goto (Caller 1) Idle (endFinalize 1 (s_r demo9)) demo9"
definition demo11 :: sys where
  "demo11 = goto (Worker 1) (WBegin demo_job) ((s_r demo10)\<lparr>r_queues := (r_queues (s_r demo10))(1 \<mapsto> [])\<rparr>) demo10"
definition demo12 :: sys where "demo12 = goto (Worker 1) Idle (fst (execute_begin 1 (s_r demo11))) demo11"

lemma demo6_idle: "s_pc demo6 t = Idle"
  by (simp add: demo6_def demo5_def demo4_def demo3_def demo2_def demo1_def demo0_def)

lemma demo7_reachable: "runner_reachable demo7"
  unfolding demo7_def
proof (rule demo_step(1) [OF demo6_reachable k_claim])
  show "s_pc demo6 (Caller 1) = Idle" by (rule demo6_idle)
  have "snd (cancel_claim 1 (s_r demo6)) = Some (True, 1)" by code_simp
  then show "cancel_claim 1 (s_r demo6) = (fst (cancel_claim 1 (s_r demo6)), Some (True, 1))" by (metis prod.collapse)
qed

lemma demo_lost: "s_lost demo7 = {}"
  by (simp add: demo7_def demo6_def demo5_def demo4_def demo3_def demo2_def demo1_def demo0_def)

lemma demo8_reachable: "runner_reachable demo8"
proof -
  have pc: "s_pc demo7 (Caller 1) = Write 1 Canceled '''' 1 0 False" by (simp add: demo7_def)
  let ?w = "setRunStatus None (None, None) demo_now 1 Canceled '''' (s_r demo7)"
  have "snd ?w = None" by code_simp
  then have "?w = (fst ?w, None)" by (metis prod.collapse)
  from demo_step(3) [OF demo7_reachable f_write [OF pc this]] show ?thesis by (simp add: demo8_def demo_lost)
qed

lemma demo9_reachable: "runner_reachable demo9"
  unfolding demo9_def by (rule demo_step(3) [OF demo8_reachable f_publish]) (simp add: demo8_def)

lemma demo10_reachable: "runner_reachable demo10"
  unfolding demo10_def by (rule demo_step(3) [OF demo9_reachable f_end]) (simp add: demo9_def)

lemma demo10_queue: "r_queues (s_r demo10) = r_queues (s_r demo6)"
proof -
  have "silent (s_r demo6) (s_r demo7)" using silent_pieces(4) [OF prod.collapse [symmetric]] by (simp add: demo7_def)
  moreover have "silent (s_r demo7) (s_r demo8)" using silent_pieces(6) [OF prod.collapse [symmetric]] by (simp add: demo8_def)
  ultimately show ?thesis by (simp add: demo10_def demo9_def silent_def endFinalize_def)
qed

lemma demo11_reachable: "runner_reachable demo11"
  unfolding demo11_def
  by (rule demo_step(2) [OF demo10_reachable w_take])
    (simp_all add: demo10_queue demo_job_eq, simp add: demo10_def demo9_def demo8_def demo7_def demo6_idle)

lemma demo12_reachable: "runner_reachable demo12"
  unfolding demo12_def
proof (rule demo_step(2) [OF demo11_reachable w_gone])
  show "s_pc demo11 (Worker 1) = WBegin demo_job" by (simp add: demo11_def)
  have "snd (execute_begin 1 (s_r demo11)) = Gone" by code_simp
  then show "execute_begin (j_run_id demo_job) (s_r demo11) = (fst (execute_begin 1 (s_r demo11)), Gone)"
    unfolding demo_job_eq(2) by (metis prod.collapse)
qed

lemma demo12_quiet:
  "s_pc demo12 t = Idle" "queued_ids (s_r demo12) q = []" "s_lost demo12 = {}"
proof -
  show "s_pc demo12 t = Idle" by (simp add: demo12_def demo11_def demo10_def demo9_def demo8_def demo7_def demo6_idle)
  show "s_lost demo12 = {}" by (simp add: demo12_def demo11_def demo10_def demo9_def demo8_def)
  have "silent (s_r demo11) (s_r demo12)" using silent_pieces(1) [OF prod.collapse [symmetric]] by (simp add: demo12_def)
  then have "r_queues (s_r demo12) = (r_queues (s_r demo6))(1 \<mapsto> [])"
    by (simp add: silent_def demo11_def demo10_queue)
  then have q12: "queued_ids (s_r demo12) q = (if q = 1 then [] else queued_ids (s_r demo6) q)"
    by (simp add: queued_ids_def)
  have "queued_ids (s_r demo6) q = []" if "q \<noteq> 1"
    using demo6_commit demo_ts_nonempty demo5_untracked
  proof (cases rule: enqueue_commit_cases)
    case (commit Q)
    have "queued_ids (s_r demo5) q = []" using silent_pieces(8) [where flt = None and r = "s_r demo3" and req = demo_req, OF prod.collapse [symmetric]]
      by (simp add: demo5_def demo4_def demo3_def demo2_def demo1_def demo0_def New_def beginFinalize_def Start_def
          silent_def queued_ids_def)
    moreover have "Q = {1}" using commit(8) by (simp add: demo_ts_def demo_target_def)
    ultimately show ?thesis using commit(7) that by (simp add: demo6_def add_jobs_def)
  qed simp_all
  with q12 show "queued_ids (s_r demo12) q = []" by simp
qed

subsection \<open>Up to the engine call\<close>

definition test1 :: sys where
  "test1 = goto (Worker 1) (WBegin demo_job) ((s_r demo6)\<lparr>r_queues := (r_queues (s_r demo6))(1 \<mapsto> [])\<rparr>) demo6"
definition test2 :: sys where "test2 = goto (Worker 1) (WRunning demo_job 1) (fst (execute_begin 1 (s_r test1))) test1"
definition test3 :: sys where
  "test3 = goto (Worker 1) (WPubRunning demo_job 1)
     (fst (setRunStatus None (None, None) demo_now 1 Running '''' (s_r test2))) test2"
definition test4 :: sys where
  "test4 = goto (Worker 1) (WTarget demo_job demo_ts False)
     (publishRun 1 Running '''' 1 (doneCount 1 (s_r test3)) (s_r test3)) test3"

lemma test1_reachable: "runner_reachable test1"
  unfolding test1_def
  by (rule demo_step(2) [OF demo6_reachable w_take]) (simp_all add: demo_job_eq demo6_idle)

lemma test2_reachable: "runner_reachable test2"
  unfolding test2_def
proof (rule demo_step(2) [OF test1_reachable w_go])
  show "s_pc test1 (Worker 1) = WBegin demo_job" by (simp add: test1_def)
  have "snd (execute_begin 1 (s_r test1)) = Go 1" by code_simp
  then show "execute_begin (j_run_id demo_job) (s_r test1) = (fst (execute_begin 1 (s_r test1)), Go 1)"
    unfolding demo_job_eq(2) by (metis prod.collapse)
qed

lemma test3_reachable: "runner_reachable test3"
proof -
  let ?w = "setRunStatus None (None, None) demo_now 1 Running '''' (s_r test2)"
  have pc: "s_pc test2 (Worker 1) = WRunning demo_job 1" by (simp add: test2_def)
  have "snd ?w = None" by code_simp
  then have "setRunStatus None (None, None) demo_now (j_run_id demo_job) Running '''' (s_r test2) = (fst ?w, None)"
    unfolding demo_job_eq(2) by (metis prod.collapse)
  from demo_step(2) [OF test2_reachable w_running [OF pc this]] show ?thesis by (simp add: test3_def)
qed

lemma test4_reachable: "runner_reachable test4"
proof -
  have pc: "s_pc test3 (Worker 1) = WPubRunning demo_job 1" by (simp add: test3_def)
  from demo_step(2) [OF test3_reachable w_pub_running [OF pc]] show ?thesis
    by (simp add: test4_def demo_job_eq)
qed

subsection \<open>A lost final write, and the orphan it leaves\<close>

definition lost1 :: sys where
  "lost1 = (goto (Caller 1) (EndFin 1)
     (fst (setRunStatus None (Some ''busy'', None) demo_now 1 Canceled '''' (s_r demo7))) demo7)\<lparr>s_lost := {1}\<rparr>"
definition lost2 :: sys where "lost2 = goto (Caller 1) Idle (endFinalize 1 (s_r lost1)) lost1"
definition lost3 :: sys where "lost3 = goto (Caller 0) (OrphanWait 1) (s_r lost2) lost2"
definition lost4 :: sys where
  "lost4 = (goto (Caller 0) (OrphanRead 1) (s_r lost3) lost3)\<lparr>s_emu := Some (Caller 0)\<rparr>"
definition lost5 :: sys where "lost5 = goto (Caller 0) (OrphanWrite 1) (s_r lost4) lost4"

lemma lost1_reachable: "runner_reachable lost1"
proof -
  have pc: "s_pc demo7 (Caller 1) = Write 1 Canceled '''' 1 0 False" by (simp add: demo7_def)
  let ?w = "setRunStatus None (Some ''busy'', None) demo_now 1 Canceled '''' (s_r demo7)"
  have "snd ?w = Some (ErrDB ''busy'')" by code_simp
  then have "?w = (fst ?w, Some (ErrDB ''busy''))" by (metis prod.collapse)
  from demo_step(3) [OF demo7_reachable f_write [OF pc this]] show ?thesis by (simp add: lost1_def demo_lost)
qed

lemma lost2_reachable: "runner_reachable lost2"
  unfolding lost2_def by (rule demo_step(3) [OF lost1_reachable f_end]) (simp add: lost1_def)

lemma lost2_idle: "s_pc lost2 (Caller k) = Idle"
  by (simp add: lost2_def lost1_def demo7_def demo6_idle)

lemma lost2_emu: "s_emu lost2 = None"
  by (simp add: lost2_def lost1_def demo7_def demo6_def demo5_def)

lemma lost2_orphan: "cancel_claim 1 (s_r lost2) = (s_r lost2, None)"
proof -
  have "(case r_runs (s_r lost2) 1 of None \<Rightarrow> True | Some x \<Rightarrow> False)" by code_simp
  then show ?thesis by (auto simp: cancel_claim_def split: option.splits)
qed

lemma lost3_reachable: "runner_reachable lost3"
  unfolding lost3_def by (rule demo_step(1) [OF lost2_reachable k_orphan [OF lost2_idle lost2_orphan]])

lemma lost4_reachable: "runner_reachable lost4"
  unfolding lost4_def
proof (rule demo_step(1) [OF lost3_reachable k_lock])
  show "s_pc lost3 (Caller 0) = OrphanWait 1" "s_emu lost3 = None" by (simp_all add: lost3_def lost2_emu)
  have "(case r_runs (s_r lost3) 1 of None \<Rightarrow> True | Some x \<Rightarrow> False)" by code_simp
  then show "r_runs (s_r lost3) 1 = None" by (simp split: option.splits)
  show "1 \<notin> r_finalizing (s_r lost3)" by code_simp
qed

lemma lost5_reachable: "runner_reachable lost5"
  unfolding lost5_def
proof (rule demo_step(1) [OF lost4_reachable k_active])
  show "s_pc lost4 (Caller 0) = OrphanRead 1" by (simp add: lost4_def)
  show "GetRun None (r_db (s_r lost4)) 1 = Inr \<lparr>run_id = 1, run_schedule_id = Some 1, run_trigger = Cron,
     run_state = Queued, run_started_at = None, run_finished_at = None, run_error = None\<rparr>" by code_simp
  show "run_active \<lparr>run_id = 1, run_schedule_id = Some 1, run_trigger = Cron,
     run_state = Queued, run_started_at = None, run_finished_at = None, run_error = None\<rparr>" by (simp add: run_active_def)
qed

subsection \<open>Testing a target\<close>

definition test5 :: sys where
  "test5 = goto (Worker 1) (WMeta demo_job demo_target [] False
       (snd (target_options None demo_target (override_of demo_job demo_target) (r_db (s_r test4)))))
     ((s_r test4)\<lparr>r_db := fst (target_options None demo_target (override_of demo_job demo_target) (r_db (s_r test4)))\<rparr>) test4"

lemma test5_reachable: "runner_reachable test5"
  unfolding test5_def
proof (rule demo_step(2) [OF test4_reachable w_next])
  show "s_pc test4 (Worker 1) = WTarget demo_job [demo_target] False" by (simp add: test4_def demo_ts_def)
  have "1 \<notin> r_ctx_done (s_r test4)" by code_simp
  then show "j_run_id demo_job \<notin> r_ctx_done (s_r test4)" by (simp add: demo_job_eq)
qed (rule prod.collapse [symmetric])

end
