(* ===== verification/Runner_Props.thy ===== *)
theory Runner_Props
  imports Runner_Demo
begin

text \<open>
  The promises of the runner, for every interleaving of workers, callers and other writers of the
  database: one active run per schedule, one writer of the final status, no run left behind,
  truthful events, and no overlap within a queue.
\<close>

subsection \<open>Scheduling and claiming\<close>

lemma reachable_runs_ok: "runner_reachable s \<Longrightarrow> runs_ok (r_db (s_r s))"
  using runner_reachable_ok by (simp add: sys_ok_def)

text \<open>C1: however calls of \<open>Enqueue\<close> interleave with each other and with everything else, a schedule
  never has two runs that are queued or running: the dedupe check and the insert under
  \<open>enqueueMu\<close> act as one.\<close>

theorem one_active_run_per_schedule:
  assumes "runner_reachable s"
    and "a \<in> set (rows (runs_t (r_db (s_r s))))" "run_active a" "run_schedule_id a = Some sid"
    and "b \<in> set (rows (runs_t (r_db (s_r s))))" "run_active b" "run_schedule_id b = Some sid"
  shows "a = b"
proof -
  note ok = reachable_runs_ok [OF assms(1)]
  have "run_view (r_db (s_r s)) (run_id a) = Some (run_state a, Some sid)"
       "run_view (r_db (s_r s)) (run_id b) = Some (run_state b, Some sid)"
    using assms by (auto simp: run_view_iff [OF ok])
  then have "run_id a = run_id b"
    using one_per_scheduleD(1) [of "abs_sys s"] runner_reachable_ok [OF assms(1)] assms(3,6)
    by (auto simp: run_active_iff)
  then show ?thesis
    using find_key_distinct [OF runs_ok_distinct [OF ok] assms(2)]
      find_key_distinct [OF runs_ok_distinct [OF ok] assms(5)] by (metis option.inject)
qed

definition demo_active :: run where
  "demo_active = \<lparr>run_id = 1, run_schedule_id = Some 1, run_trigger = Cron, run_state = Queued,
     run_started_at = None, run_finished_at = None, run_error = None\<rparr>"

lemma demo4_rows: "rows (runs_t (r_db (s_r demo4))) = [demo_active]"
  by code_simp

theorem one_active_run_per_schedule_witness:
  "runner_reachable demo4 \<and>
   set (filter (\<lambda>b. run_active b \<and> run_schedule_id b = Some 1) (rows (runs_t (r_db (s_r demo4))))) = {demo_active}"
proof -
  have "demo_active \<in> set (rows (runs_t (r_db (s_r demo4))))" "run_active demo_active"
    "run_schedule_id demo_active = Some 1"
    by (simp_all add: demo4_rows) (simp_all add: demo_active_def run_active_def)
  with one_active_run_per_schedule [OF demo4_reachable _ _ _ this] demo4_reachable show ?thesis
    by auto
qed

text \<open>C2: the final status of a run has one writer. When a thread is about to write it, the run is
  active in the database, so a write the database accepts takes effect (it is never answered with
  \<open>ErrInvalidTransition\<close>); the run is no longer tracked and marked as in transit, so neither a
  finishing queue, nor \<open>Cancel\<close>, nor a forced shutdown, nor \<open>cancelOrphan\<close> can claim it too.\<close>

theorem final_status_has_one_writer:
  assumes "runner_reachable s" and "s_pc s t = Write i st msg tot n always \<or> s_pc s t = ShutWrite i tot n is"
  shows "(\<exists>d. SetRunStatus None now (r_db (s_r s)) i st' msg' = (d, Inr ())) \<and>
    r_runs (s_r s) i = None \<and> i \<in> r_finalizing (s_r s) \<and>
    (\<forall>t' st msg tot n always is. t' \<noteq> t \<longrightarrow> s_pc s t' \<noteq> Write i st msg tot n always \<and>
       s_pc s t' \<noteq> ShutWrite i tot n is \<and> s_pc s t' \<noteq> OrphanWrite i)"
proof -
  note ok = runner_reachable_ok [OF assms(1), THEN conjunct1]
  have held: "c_pc (abs_sys s) t = AHeld i" using assms(2) by auto
  have "active_in (run_view (r_db (s_r s))) i" using claims_okD(8) [OF ok, of t i] held by simp
  then obtain s0 sid where v: "run_view (r_db (s_r s)) i = Some (s0, sid)" "\<not> terminal s0"
    by (auto simp: active_in_def split: option.splits)
  have "\<exists>d. SetRunStatus None now (r_db (s_r s)) i st' msg' = (d, Inr ())"
    using SetRunStatus_update(1) [OF reachable_runs_ok [OF assms(1)] v] by blast
  moreover have "pendings (s_r s) i = None" using unwritten_untracked(1) [OF ok, of t i] held by simp
  moreover have "i \<in> r_finalizing (s_r s)" using held_mark [OF ok, of t i] held by simp
  moreover have "c_pc (abs_sys s) t' \<noteq> AHeld i \<and> c_pc (abs_sys s) t' \<noteq> AOrphan i" if "t' \<noteq> t" for t'
    using unwritten_unique [OF ok, of t i t'] unwritten_untracked(2) [OF ok, of t i t'] held that by auto
  ultimately show ?thesis by (fastforce simp: pendings_def)
qed

theorem final_status_has_one_writer_witness:
  "\<exists>d. SetRunStatus None demo_now (r_db (s_r demo7)) 1 Canceled '''' = (d, Inr ())"
proof -
  have "s_pc demo7 (Caller 1) = Write 1 Canceled '''' 1 0 False \<or> s_pc demo7 (Caller 1) = ShutWrite 1 1 0 []"
    by (simp add: demo7_def)
  from final_status_has_one_writer [OF demo7_reachable this] show ?thesis by blast
qed

text \<open>\<open>cancelOrphan\<close> only ever cancels orphans. When it is about to write, the run is neither
  tracked nor in transit: no queue job, no other call and no shutdown of this process will write
  a final status for it.\<close>

theorem cancelOrphan_spares_live_runs:
  assumes "runner_reachable s" and "s_pc s t = OrphanWrite i"
  shows "r_runs (s_r s) i = None \<and> i \<notin> r_finalizing (s_r s) \<and>
    (\<forall>t'. holds (abs_pc (s_pc s t')) \<noteq> Some i) \<and> (\<forall>t'. t' \<noteq> t \<longrightarrow> \<not> locked (abs_pc (s_pc s t')))"
proof -
  note ok = runner_reachable_ok [OF assms(1), THEN conjunct1]
  have o: "c_pc (abs_sys s) t = AOrphan i" using assms(2) by simp
  have "i \<notin> r_finalizing (s_r s)" "pendings (s_r s) i = None" using claims_okD(6) [OF ok o] by simp_all
  moreover have "holds (abs_pc (s_pc s t')) \<noteq> Some i" for t'
    using held_mark [OF ok, of t' i] calculation(1) by auto
  moreover have "\<not> locked (abs_pc (s_pc s t'))" if "t' \<noteq> t" for t'
    using lock_unique [OF ok, of t t'] o that by auto
  ultimately show ?thesis by (simp add: pendings_def)
qed

theorem cancelOrphan_spares_live_runs_witness:
  "s_pc lost5 (Caller 0) = OrphanWrite 1 \<and> r_runs (s_r lost5) 1 = None \<and> 1 \<notin> r_finalizing (s_r lost5)"
proof -
  have pc: "s_pc lost5 (Caller 0) = OrphanWrite 1" by (simp add: lost5_def)
  from cancelOrphan_spares_live_runs [OF lost5_reachable pc] pc show ?thesis by blast
qed

text \<open>C3: no run is left behind. Once every thread is idle and every queue drained, each run the
  database still shows as queued or running is one whose final status write the store refused;
  when no write was refused, every run has its outcome.\<close>

definition quiescent :: "sys \<Rightarrow> bool" where
  "quiescent s \<longleftrightarrow> (\<forall>t. s_pc s t = Idle) \<and> (\<forall>q. queued_ids (s_r s) q = [])"

theorem no_run_left_behind:
  assumes "runner_reachable s" and "quiescent s"
  shows "\<forall>r\<in>set (rows (runs_t (r_db (s_r s)))). run_active r \<longrightarrow> run_id r \<in> s_lost s"
proof (intro ballI impI)
  fix r assume r: "r \<in> set (rows (runs_t (r_db (s_r s))))" "run_active r"
  note ok = runner_reachable_ok [OF assms(1), THEN conjunct1]
  have "run_view (r_db (s_r s)) (run_id r) = Some (run_state r, run_schedule_id r)"
    using r(1) by (auto simp: run_view_iff [OF reachable_runs_ok [OF assms(1)]])
  then have act: "active_in (c_rows (abs_sys s)) (run_id r)"
    using r(2) by (simp add: active_in_def run_active_iff)
  have idle: "abs_pc (s_pc s t) = ANone" "queued_ids (s_r s) q = []" for t q using assms(2) by (auto simp: quiescent_def)
  have "owing (c_jobs (abs_sys s)) (c_pc (abs_sys s)) i = {}" for i by (simp add: owing_def idle)
  then have "pendings (s_r s) i = None" for i
    using pending_exactD(2,3) [OF ok, of i] by (cases "pendings (s_r s) i") auto
  with all_coveredD [OF ok act] show "run_id r \<in> s_lost s" by (simp add: idle)
qed

theorem no_run_left_behind_witness:
  "quiescent demo12 \<and> rows (runs_t (r_db (s_r demo12))) \<noteq> [] \<and>
   filter run_active (rows (runs_t (r_db (s_r demo12)))) = []"
proof -
  have q: "quiescent demo12" by (simp add: quiescent_def demo12_quiet)
  have "length (rows (runs_t (r_db (s_r demo12)))) = 1" by code_simp
  with no_run_left_behind [OF demo12_reachable q] q show ?thesis
    by (auto simp: demo12_quiet(3) filter_empty_conv)
qed

text \<open>A tracked run is waiting for exactly the queues that still owe it a job: its pending count is
  the number of queues in which its job is buffered or being executed, each at most once, and it
  is positive. So the last of its queues to finish, and no other, resolves it.\<close>

theorem pending_counts_outstanding_queues:
  assumes "runner_reachable s" and "r_runs (s_r s) i = Some st"
  shows "rt_pending st = int (card {q. i \<in> set (queued_ids (s_r s) q) \<or> abs_pc (s_pc s (Worker q)) = AJob i}) \<and>
    0 < rt_pending st \<and>
    (\<forall>q. count_list (queued_ids (s_r s) q) i + (if abs_pc (s_pc s (Worker q)) = AJob i then 1 else 0) \<le> 1)"
  using pending_exactD(2-4) [OF runner_reachable_ok [OF assms(1), THEN conjunct1], of i "rt_pending st"] assms(2)
  by (simp add: pendings_def owing_def once_def)

theorem pending_counts_outstanding_queues_witness:
  "\<exists>st. r_runs (s_r demo6) 1 = Some st \<and> 0 < rt_pending st"
proof -
  have "(case r_runs (s_r demo6) 1 of None \<Rightarrow> False | Some st \<Rightarrow> True)" by code_simp
  then obtain st where st: "r_runs (s_r demo6) 1 = Some st" by (auto split: option.splits)
  from pending_counts_outstanding_queues [OF demo6_reachable st] st show ?thesis by blast
qed

subsection \<open>Queues and events\<close>

text \<open>The target a worker is testing right now.\<close>

fun testing :: "pc \<Rightarrow> target option" where
  "testing (WMeta j t ts failed opts) = Some t"
| "testing (WTest j t ts failed opts m) = Some t"
| "testing _ = None"

lemma testing_job: "testing p = Some t \<Longrightarrow> \<exists>j ts. pc_job p = Some (j, t # ts)"
  by (cases p) auto



text \<open>A subscriber never sees a run "running" before it has seen it "queued": the \<open>queued\<close> event is
  published under \<open>r.mu\<close> before any job of the run reaches a queue.\<close>

theorem queued_is_published_first:
  assumes "runner_reachable s" and "k < length (r_events (s_r s))"
    and "r_events (s_r s) ! k = EvRun i Running msg tot n"
  shows "\<exists>l<k. \<exists>msg' tot' n'. r_events (s_r s) ! l = EvRun i Queued msg' tot' n'"
proof -
  have "announced (take k (r_events (s_r s))) i"
    using runner_reachable_events [OF assms(1)] assms(2,3)
    unfolding events_ok_def jobs_placed_def queued_first_def by blast
  then show ?thesis using assms(2) by (auto simp: announced_def in_set_conv_nth)
qed

theorem queued_is_published_first_witness:
  "r_events (s_r test4) ! 1 = EvRun 1 Running '''' 1 0 \<and>
   (\<exists>l<1. \<exists>msg' tot' n'. r_events (s_r test4) ! l = EvRun 1 Queued msg' tot' n')"
proof -
  have "r_events (s_r test4) = [EvRun 1 Queued '''' 1 0, EvRun 1 Running '''' 1 0]" by code_simp
  then show ?thesis using queued_is_published_first [OF test4_reachable, of 1 1 "''''" 1 0] by simp
qed

text \<open>What is published as a final status is what the database holds. Every such event (the
  notice of a full queue apart, which is sent whatever became of its write) names the status of
  the stored run, unless retention has deleted the run since; no later write of any thread can
  change it.\<close>

theorem published_final_status_is_stored:
  assumes "runner_reachable s" and "EvRun i st msg tot n \<in> set (r_events (s_r s))" and "terminal st"
    and "msg \<noteq> ''queue full''"
  shows "case GetRun None (r_db (s_r s)) i of Inr r \<Rightarrow> run_state r = st | Inl e \<Rightarrow> e = ErrNotFound"
proof -
  have "news_ok s" using runner_reachable_events [OF assms(1)] by (simp add: events_ok_def)
  from news_okD(1) [OF this assms(2-4)] show ?thesis
    by (auto simp: sys_settled_def settled_def run_view_def GetRun_def split: option.splits)
qed

theorem published_final_status_is_stored_witness:
  "EvRun 1 Canceled '''' 1 0 \<in> set (r_events (s_r demo9)) \<and>
   (case GetRun None (r_db (s_r demo9)) 1 of Inr r \<Rightarrow> run_state r = Canceled | Inl e \<Rightarrow> e = ErrNotFound)"
proof -
  have e: "EvRun 1 Canceled '''' 1 0 \<in> set (r_events (s_r demo9))" by (simp add: demo9_def)
  from published_final_status_is_stored [OF demo9_reachable this] e show ?thesis by (simp add: status_simps)
qed

subsection \<open>The retry of a status write\<close>

text \<open>C6: \<open>setRunStatus\<close> does not retry. Outside tests (no hook) the error of the first attempt is
  still in \<open>err\<close> when the second attempt starts, so the store is not called again: one transient
  failure of the first call is the outcome whatever the database would have answered next, and
  the run keeps its old status.\<close>

theorem setRunStatus_does_not_retry:
  "setRunStatus None (Some e, flt2) now i st msg r = (r, Some (ErrDB e)) \<and>
   setRunStatus None (flt1, flt2) now i st msg r = setRunStatus None (flt1, flt2') now i st msg r"
  by (simp add: setRunStatus_production SetRunStatus_def)

end
