(* ===== verification/Overlap.thy ===== *)
theory Overlap
  imports Go_Time
begin

text \<open>
  Cron expressions and overlap warnings: \<open>internal/scheduler/cronspec.go\<close> and \<open>overlap.go\<close>. The
  cron parser (robfig/cron) and the time zone database are parameters, the record \<open>cron_lib\<close>: a parsed
  expression is its \<open>Next\<close> function, which gives the zero time when there is no further fire time.
\<close>

record cron_lib =
  cl_parse :: "string \<Rightarrow> string + (time \<Rightarrow> time)"
  cl_location :: "string \<Rightarrow> string option"

text \<open>The documented behaviour of \<open>Schedule.Next\<close>: a later time, or the zero time.\<close>

definition next_ok :: "(time \<Rightarrow> time) \<Rightarrow> bool" where
  "next_ok nxt \<longleftrightarrow> (\<forall>t. nxt t = 0 \<or> t < nxt t)"

definition cron_lib_ok :: "cron_lib \<Rightarrow> bool" where
  "cron_lib_ok lib \<longleftrightarrow> (\<forall>e nxt. cl_parse lib e = Inr nxt \<longrightarrow> next_ok nxt)"

subsection \<open>Expressions\<close>

definition ValidateCron :: "cron_lib \<Rightarrow> string \<Rightarrow> string option" where
  "ValidateCron lib expr =
     (case cl_parse lib (TrimSpace expr) of
        Inl e \<Rightarrow> Some (''invalid cron expression: '' @ e)
      | Inr nxt \<Rightarrow> None)"

definition ParseSpec :: "cron_lib \<Rightarrow> string \<Rightarrow> string \<Rightarrow> string + (time \<Rightarrow> time)" where
  "ParseSpec lib expr0 tz0 =
     (let expr = TrimSpace expr0
      in if expr = [] then Inl ''invalid cron expression: empty''
         else let tz = (if TrimSpace tz0 = [] then ''UTC'' else tz0)
              in case cl_location lib tz of
                   Some e \<Rightarrow> Inl (''unknown timezone '' @ quoted tz @ '': '' @ e)
                 | None \<Rightarrow>
                     (case cl_parse lib (''CRON_TZ='' @ tz @ '' '' @ expr) of
                        Inl e \<Rightarrow> Inl (''invalid cron expression: '' @ e)
                      | Inr nxt \<Rightarrow> Inr nxt))"

fun next_loop :: "nat \<Rightarrow> (time \<Rightarrow> time) \<Rightarrow> time \<Rightarrow> time list" where
  "next_loop 0 nxt t = []"
| "next_loop (Suc n) nxt t = (let u = nxt t in if IsZero u then [] else u # next_loop n nxt u)"

definition NextFireTimes :: "cron_lib \<Rightarrow> string \<Rightarrow> string \<Rightarrow> nat \<Rightarrow> time \<Rightarrow> string + time list" where
  "NextFireTimes lib expr tz n from =
     (case ParseSpec lib expr tz of Inl e \<Rightarrow> Inl e | Inr nxt \<Rightarrow> Inr (next_loop n nxt from))"

subsection \<open>Overlaps\<close>

definition overlapWindow :: duration where "overlapWindow = 24 * Hour"
definition overlapThreshold :: duration where "overlapThreshold = 60 * Second"
definition maxFiresPerSched :: nat where "maxFiresPerSched = 2000"

record overlap_candidate =
  oc_id :: int
  oc_name :: string
  oc_cron :: string
  oc_timezone :: string
  oc_queues :: "string list"

text \<open>The loop of \<open>firesWithin\<close>; the counter is the room left in \<open>out\<close>.\<close>

fun fires_loop :: "nat \<Rightarrow> (time \<Rightarrow> time) \<Rightarrow> time \<Rightarrow> time \<Rightarrow> time list" where
  "fires_loop 0 nxt end t = []"
| "fires_loop (Suc n) nxt end t = (if IsZero t \<or> end < t then [] else t # fires_loop n nxt end (nxt t))"

definition firesWithin :: "cron_lib \<Rightarrow> overlap_candidate \<Rightarrow> time \<Rightarrow> time list" where
  "firesWithin lib c from =
     (case ParseSpec lib (oc_cron c) (oc_timezone c) of
        Inl e \<Rightarrow> []
      | Inr nxt \<Rightarrow> fires_loop maxFiresPerSched nxt (from + overlapWindow) (nxt from))"

definition sharedQueue :: "overlap_candidate \<Rightarrow> overlap_candidate \<Rightarrow> string option" where
  "sharedQueue a b = find (\<lambda>q. q \<in> set (oc_queues a)) (oc_queues b)"

text \<open>\<open>d := a[i].Sub(b[j]); if d < 0 { d = -d }\<close>, at 64 bits.\<close>

definition gap :: "time \<Rightarrow> time \<Rightarrow> duration" where
  "gap s t = (let d = time_Sub s t in if d < 0 then wrap64 (- d) else d)"

function collision_loop :: "time list \<Rightarrow> time list \<Rightarrow> nat \<Rightarrow> nat \<Rightarrow> time option" where
  "collision_loop a b i j =
     (if i < length a \<and> j < length b
      then if gap (a ! i) (b ! j) \<le> overlapThreshold then Some (a ! i)
           else if a ! i < b ! j then collision_loop a b (i + 1) j
           else collision_loop a b i (j + 1)
      else None)"
  by auto
termination
  by (relation "measure (\<lambda>(a, b, i, j). (length a - i) + (length b - j))") auto

declare collision_loop.simps [simp del]

definition nearestCollision :: "time list \<Rightarrow> time list \<Rightarrow> time option" where
  "nearestCollision a b = collision_loop a b 0 0"

definition overlap_warning :: "string \<Rightarrow> string \<Rightarrow> time \<Rightarrow> string" where
  "overlap_warning name queue tm =
     ''overlaps with schedule '' @ quoted name @ '' on queue '' @ quoted queue @ '' around '' @
     Format_RFC3339 tm @ ''; overlapping tests skew each other's results''"

fun overlap_loop :: "cron_lib \<Rightarrow> overlap_candidate \<Rightarrow> time list \<Rightarrow> time \<Rightarrow> overlap_candidate list \<Rightarrow> string list" where
  "overlap_loop lib subject mine from [] = []"
| "overlap_loop lib subject mine from (other # others) =
     (let rest = overlap_loop lib subject mine from others
      in if oc_id other = oc_id subject then rest
         else case sharedQueue subject other of
                None \<Rightarrow> rest
              | Some queue \<Rightarrow>
                  let theirs = firesWithin lib other from
                  in if theirs = [] then rest
                     else case nearestCollision mine theirs of
                            None \<Rightarrow> rest
                          | Some tm \<Rightarrow> overlap_warning (oc_name other) queue tm # rest)"

definition FindOverlaps :: "cron_lib \<Rightarrow> overlap_candidate \<Rightarrow> overlap_candidate list \<Rightarrow> time \<Rightarrow> string list" where
  "FindOverlaps lib subject others from =
     (let mine = firesWithin lib subject from
      in if mine = [] then [] else overlap_loop lib subject mine from others)"

subsection \<open>Fire times\<close>

lemma fires_loop_sorted:
  assumes "next_ok nxt"
  shows "sorted_wrt (<) (fires_loop n nxt e t) \<and> (\<forall>u\<in>set (fires_loop n nxt e t). t \<le> u \<and> u \<le> e)"
proof (induction n arbitrary: t)
  case (Suc n)
  show ?case
  proof (cases "IsZero (nxt t)")
    case True
    then have "fires_loop n nxt e (nxt t) = []" by (cases n) auto
    then show ?thesis by simp
  next
    case False
    with assms have "t < nxt t" by (auto simp: next_ok_def IsZero_def)
    then have "\<forall>u\<in>set (fires_loop n nxt e (nxt t)). t < u \<and> u \<le> e" using Suc.IH [of "nxt t"] by fastforce
    with Suc.IH [of "nxt t"] show ?thesis by auto
  qed
qed simp

lemma firesWithin_spec:
  assumes "cron_lib_ok lib"
  shows "sorted_wrt (<) (firesWithin lib c from)" "u \<in> set (firesWithin lib c from) \<Longrightarrow> from \<le> u \<and> u \<le> from + overlapWindow"
proof -
  have "sorted_wrt (<) (firesWithin lib c from) \<and> (\<forall>u\<in>set (firesWithin lib c from). from \<le> u \<and> u \<le> from + overlapWindow)"
  proof (cases "ParseSpec lib (oc_cron c) (oc_timezone c)")
    case (Inr nxt)
    then have ok: "next_ok nxt" using assms
      by (auto simp: ParseSpec_def cron_lib_ok_def Let_def split: if_splits option.splits sum.splits)
    show ?thesis
    proof (cases "IsZero (nxt from)")
      case True
      then show ?thesis by (simp add: firesWithin_def Inr maxFiresPerSched_def numeral_eq_Suc)
    next
      case False
      with ok have "from < nxt from" by (auto simp: next_ok_def IsZero_def)
      with fires_loop_sorted [OF ok, of maxFiresPerSched "from + overlapWindow" "nxt from"] Inr show ?thesis
        by (fastforce simp: firesWithin_def)
    qed
  qed (simp add: firesWithin_def)
  then show "sorted_wrt (<) (firesWithin lib c from)" "u \<in> set (firesWithin lib c from) \<Longrightarrow> from \<le> u \<and> u \<le> from + overlapWindow"
    by auto
qed

subsection \<open>The two-pointer walk finds the first collision\<close>

definition near :: "time list \<Rightarrow> time \<Rightarrow> bool" where
  "near b t \<longleftrightarrow> (\<exists>u\<in>set b. \<bar>t - u\<bar> \<le> overlapThreshold)"

lemma gap_eq: "\<bar>s - t\<bar> \<le> maxDuration \<Longrightarrow> gap s t = \<bar>s - t\<bar>"
  by (auto simp: gap_def Let_def time_Sub_def wrap64_id minDuration_def maxDuration_def)

lemma drop_nth_Cons: "i < length xs \<Longrightarrow> drop i xs = xs ! i # drop (Suc i) xs"
  by (simp add: Cons_nth_drop_Suc)

lemma collision_loop_spec:
  assumes "sorted_wrt (<) a" "sorted_wrt (<) b" "\<forall>s\<in>set a. \<forall>u\<in>set b. \<bar>s - u\<bar> \<le> maxDuration"
    and "\<forall>s\<in>set (drop i a). \<forall>u\<in>set (take j b). overlapThreshold < \<bar>s - u\<bar>"
  shows "collision_loop a b i j = find (near b) (drop i a)"
  using assms
proof (induction a b i j rule: collision_loop.induct)
  case (1 a b i j)
  show ?case
  proof (cases "i < length a \<and> j < length b")
    case False
    then consider "length a \<le> i" | "length b \<le> j" by linarith
    then have "find (near b) (drop i a) = None"
    proof cases
      case 2
      then have "\<forall>s\<in>set (drop i a). \<not> near b s" using "1.prems"(4) unfolding near_def by fastforce
      then show ?thesis by (simp only: find_None)
    qed simp
    with False show ?thesis by (subst collision_loop.simps) auto
  next
    case True
    let ?s = "a ! i" and ?u = "b ! j"
    have g: "gap ?s ?u = \<bar>?s - ?u\<bar>" using "1.prems"(3) True by (intro gap_eq) simp
    have dr: "drop i a = ?s # drop (Suc i) a" using True by (simp add: Cons_nth_drop_Suc)
    show ?thesis
    proof (cases "\<bar>?s - ?u\<bar> \<le> overlapThreshold")
      case hit: True
      then have "near b ?s" using True by (auto simp: near_def)
      with hit g True dr show ?thesis by (simp add: collision_loop.simps [of a b i j])
    next
      case miss: False
      show ?thesis
      proof (cases "?s < ?u")
        case lt: True
        have "overlapThreshold < \<bar>?s - u\<bar>" if "u \<in> set b" for u
        proof -
          from that obtain k where k: "k < length b" "u = b ! k" by (auto simp: in_set_conv_nth)
          show ?thesis
          proof (cases "k < j")
            case True
            with k have "u \<in> set (take j b)" by (auto simp: in_set_conv_nth)
            with "1.prems"(4) dr show ?thesis by simp
          next
            case False
            then have "?u \<le> u" using sorted_wrt_nth_less [OF "1.prems"(2), of j k] k by (cases "k = j") auto
            with lt miss show ?thesis by linarith
          qed
        qed
        then have "\<not> near b ?s" unfolding near_def using linorder_not_less by blast
        moreover have "collision_loop a b (i + 1) j = find (near b) (drop (i + 1) a)"
          using "1.IH"(1) True g miss lt "1.prems" dr by simp
        ultimately show ?thesis using True g miss lt dr by (simp add: collision_loop.simps [of a b i j])
      next
        case ge: False
        have "overlapThreshold < \<bar>s - ?u\<bar>" if "s \<in> set (drop i a)" for s
        proof -
          from that obtain k where "k < length (drop i a)" "s = drop i a ! k" by (auto simp: in_set_conv_nth)
          then have k: "i + k < length a" "s = a ! (i + k)" by auto
          have "?s \<le> s" using sorted_wrt_nth_less [OF "1.prems"(1), of i "i + k"] k by (cases k) auto
          with ge miss show ?thesis by linarith
        qed
        moreover have "take (j + 1) b = take j b @ [?u]" using True by (simp add: take_Suc_conv_app_nth)
        ultimately have "\<forall>s\<in>set (drop i a). \<forall>u\<in>set (take (j + 1) b). overlapThreshold < \<bar>s - u\<bar>"
          using "1.prems"(4) by auto
        then have "collision_loop a b i (j + 1) = find (near b) (drop i a)"
          using "1.IH"(2) True g miss ge "1.prems" by simp
        then show ?thesis using True g miss ge by (simp add: collision_loop.simps [of a b i j])
      qed
    qed
  qed
qed


subsection \<open>Overlap warnings against their specification\<close>

text \<open>The fires of \<open>a\<close> in the window that some fire of \<open>b\<close> comes within a minute of.\<close>

definition collisions :: "cron_lib \<Rightarrow> time \<Rightarrow> overlap_candidate \<Rightarrow> overlap_candidate \<Rightarrow> time set" where
  "collisions lib from a b =
     {t \<in> set (firesWithin lib a from). \<exists>u\<in>set (firesWithin lib b from). \<bar>t - u\<bar> \<le> overlapThreshold}"

lemma find_sorted_Min:
  assumes "sorted_wrt (<) (xs :: int list)"
  shows "find P xs = (if {x \<in> set xs. P x} = {} then None else Some (Min {x \<in> set xs. P x}))"
  using assms
proof (induction xs)
  case (Cons x xs)
  show ?case
  proof (cases "P x")
    case True
    have "Min {y \<in> set (x # xs). P y} = x" using Cons.prems True by (intro Min_eqI) auto
    with True show ?thesis by auto
  next
    case False
    then have "{y \<in> set (x # xs). P y} = {y \<in> set xs. P y}" by auto
    with Cons False show ?thesis by simp
  qed
qed simp

lemma nearestCollision_fires:
  assumes "cron_lib_ok lib"
  shows "nearestCollision (firesWithin lib a from) (firesWithin lib b from) =
     (if collisions lib from a b = {} then None else Some (Min (collisions lib from a b)))"
proof -
  note fa = firesWithin_spec(1) [OF assms, of a "from"] firesWithin_spec(2) [OF assms, of _ a "from"]
    and fb = firesWithin_spec(1) [OF assms, of b "from"] firesWithin_spec(2) [OF assms, of _ b "from"]
  have "\<bar>s - u\<bar> \<le> maxDuration" if "s \<in> set (firesWithin lib a from)" "u \<in> set (firesWithin lib b from)" for s u
    using fa(2) [OF that(1)] fb(2) [OF that(2)] by (simp add: overlapWindow_def maxDuration_def duration_defs) linarith
  then have "nearestCollision (firesWithin lib a from) (firesWithin lib b from) =
      find (near (firesWithin lib b from)) (firesWithin lib a from)"
    unfolding nearestCollision_def using collision_loop_spec [OF fa(1) fb(1), of 0 0] by simp
  then show ?thesis using find_sorted_Min [OF fa(1), of "near (firesWithin lib b from)"]
    by (simp add: near_def collisions_def)
qed

text \<open>C10: the overlap check warns about exactly the other schedules that share a queue with the
  subject and fire within a minute of one of its fires in the next 24 hours, in the given order, and
  each warning names the earliest such fire and the first shared queue: the two-pointer walk over the two
  ascending fire lists computes the minimum of the collision set.\<close>

theorem FindOverlaps_complete:
  assumes "cron_lib_ok lib"
  shows "FindOverlaps lib subject others from =
    map (\<lambda>o'. overlap_warning (oc_name o') (the (sharedQueue subject o')) (Min (collisions lib from subject o')))
      (filter (\<lambda>o'. oc_id o' \<noteq> oc_id subject \<and> (\<exists>q\<in>set (oc_queues o'). q \<in> set (oc_queues subject)) \<and>
                collisions lib from subject o' \<noteq> {}) others)"
proof -
  have none: "sharedQueue subject o' = None \<longleftrightarrow> \<not> (\<exists>q\<in>set (oc_queues o'). q \<in> set (oc_queues subject))" for o'
    by (auto simp: sharedQueue_def find_None)
  have empty: "collisions lib from subject o' = {}" if "firesWithin lib o' from = [] \<or> firesWithin lib subject from = []" for o'
    using that by (auto simp: collisions_def)
  have "overlap_loop lib subject (firesWithin lib subject from) from others =
    map (\<lambda>o'. overlap_warning (oc_name o') (the (sharedQueue subject o')) (Min (collisions lib from subject o')))
      (filter (\<lambda>o'. oc_id o' \<noteq> oc_id subject \<and> (\<exists>q\<in>set (oc_queues o'). q \<in> set (oc_queues subject)) \<and>
                collisions lib from subject o' \<noteq> {}) others)"
  proof (induction others)
    case (Cons o' others)
    show ?case
    proof (cases "sharedQueue subject o'")
      case None
      with Cons none [of o'] show ?thesis by (simp add: Let_def)
    next
      case (Some q)
      with none [of o'] have "\<exists>q\<in>set (oc_queues o'). q \<in> set (oc_queues subject)" by simp
      with Some Cons empty [of o'] nearestCollision_fires [OF assms, of subject "from" o'] show ?thesis
        by (cases "firesWithin lib o' from = []") (simp_all add: Let_def)
    qed
  qed simp
  then show ?thesis using empty by (auto simp: FindOverlaps_def Let_def)
qed

text \<open>A library with one expression: every \<open>n\<close> minutes for \<open>CRON_TZ=UTC @every n\<close> with a one-digit
  \<open>n\<close>.\<close>

definition demo_cron :: cron_lib where
  "demo_cron = \<lparr>cl_parse = (\<lambda>e. if take 19 e = ''CRON_TZ=UTC @every '' \<and> length e = 20 \<and> is_digit (e ! 19) \<and> 0 < digit_val (e ! 19)
       then Inr (\<lambda>t. t + digit_val (e ! 19) * Minute) else Inl ''expected exactly 5 fields''),
     cl_location = (\<lambda>tz. if tz = ''UTC'' then None else Some ''unknown time zone'')\<rparr>"

definition demo_candidate :: "int \<Rightarrow> string \<Rightarrow> string list \<Rightarrow> overlap_candidate" where
  "demo_candidate i e qs = \<lparr>oc_id = i, oc_name = ''s'', oc_cron = e, oc_timezone = '''', oc_queues = qs\<rparr>"

lemma demo_cron_ok: "cron_lib_ok demo_cron"
  by (auto simp: cron_lib_ok_def demo_cron_def next_ok_def Minute_def Second_def split: if_splits)


lemma demo_fires: "firesWithin demo_cron (demo_candidate i ''@every 5'' qs) from \<noteq> [] \<and>
  firesWithin demo_cron (demo_candidate i ''@every 5'' qs) from = firesWithin demo_cron (demo_candidate 0 ''@every 5'' []) from"
  if "0 \<le> from"
proof -
  have p: "ParseSpec demo_cron ''@every 5'' '''' = Inr (\<lambda>t. t + 5 * Minute)"
    by (simp add: ParseSpec_def demo_cron_def TrimSpace_def is_space_def is_digit_def digit_val_def numeral_eq_Suc)
  obtain n where m: "maxFiresPerSched = Suc n" by (cases maxFiresPerSched) (auto simp: maxFiresPerSched_def)
  show ?thesis using that
    by (simp add: firesWithin_def demo_candidate_def p m IsZero_def overlapWindow_def Hour_def Minute_def Second_def)
qed

theorem FindOverlaps_complete_witness:
  "cron_lib_ok demo_cron \<and>
   length (FindOverlaps demo_cron (demo_candidate 1 ''@every 5'' [''wan''])
     [demo_candidate 1 ''@every 5'' [''wan''], demo_candidate 2 ''@every 5'' [''lan''], demo_candidate 3 ''@every 5'' [''lan'', ''wan'']] 0) = 1"
proof -
  have "collisions demo_cron 0 (demo_candidate 1 ''@every 5'' [''wan'']) (demo_candidate 3 ''@every 5'' [''lan'', ''wan'']) \<noteq> {}"
  proof -
    from demo_fires [of 0 1 "[''wan'']"] obtain t where
      "t \<in> set (firesWithin demo_cron (demo_candidate 1 ''@every 5'' [''wan'']) 0)"
      by (metis list.set_intros(1) neq_Nil_conv order_refl)
    moreover from this demo_fires [of 0 1 "[''wan'']"] demo_fires [of 0 3 "[''lan'', ''wan'']"]
    have "t \<in> set (firesWithin demo_cron (demo_candidate 3 ''@every 5'' [''lan'', ''wan'']) 0)" by simp
    moreover have "\<bar>t - t\<bar> \<le> overlapThreshold" by (simp add: overlapThreshold_def Second_def)
    ultimately show ?thesis unfolding collisions_def by blast
  qed
  then show ?thesis
    using FindOverlaps_complete [OF demo_cron_ok, of "demo_candidate 1 ''@every 5'' [''wan'']"
      "[demo_candidate 1 ''@every 5'' [''wan''], demo_candidate 2 ''@every 5'' [''lan''], demo_candidate 3 ''@every 5'' [''lan'', ''wan'']]" 0]
    by (simp add: demo_cron_ok) (simp add: demo_candidate_def)
qed

end
