(* ===== verification/Scheduler.thy ===== *)
theory Scheduler
  imports Runner Overlap
begin

text \<open>
  The scheduler, \<open>internal/scheduler/scheduler.go\<close>. The cron runner of robfig/cron is a parameter, the
  record \<open>cron_api\<close> of the calls the scheduler makes on it: an instance is a value of type \<open>'c\<close> and a
  registered job is the schedule row its closure captured. \<open>fire\<close> is that closure; it works on the
  runner of the process, whose \<open>r_db\<close> is the store.
\<close>

record 'c cron_api =
  ca_new :: 'c
  ca_schedule :: "'c \<Rightarrow> (time \<Rightarrow> time) \<Rightarrow> schedule \<Rightarrow> 'c \<times> int"
  ca_start :: "'c \<Rightarrow> 'c"
  ca_entry :: "'c \<Rightarrow> int \<Rightarrow> int \<times> time"

record 'c scheduler =
  sch_cron :: "'c option"
  sch_entries :: "int \<rightharpoonup> int"
  sch_stopped :: bool
  sch_halted :: "'c list"

text \<open>\<open>sch_halted\<close> collects the instances \<open>Stop\<close> was called on, oldest first.\<close>

definition Scheduler_New :: "'c scheduler" where
  "Scheduler_New = \<lparr>sch_cron = None, sch_entries = Map.empty, sch_stopped = False, sch_halted = []\<rparr>"

subsection \<open>Reload\<close>

text \<open>The loop over the stored schedules: the new instance and its entries.\<close>

fun reload_loop ::
  "cron_lib \<Rightarrow> 'c cron_api \<Rightarrow> schedule list \<Rightarrow> 'c \<Rightarrow> (int \<rightharpoonup> int) \<Rightarrow> 'c \<times> (int \<rightharpoonup> int)" where
  "reload_loop lib api [] c entries = (c, entries)"
| "reload_loop lib api (sc # scs) c entries =
     (if \<not> s_enabled sc then reload_loop lib api scs c entries
      else if s_target_ids sc = [] then reload_loop lib api scs c entries
      else case ParseSpec lib (s_cron sc) (s_timezone sc) of
             Inl e \<Rightarrow> reload_loop lib api scs c entries
           | Inr spec \<Rightarrow>
               (case ca_schedule api c spec sc of
                  (c', i) \<Rightarrow> reload_loop lib api scs c' (entries(s_id sc \<mapsto> i))))"

text \<open>\<open>f1\<close> to \<open>f3\<close> are the outcomes of the queries of \<open>ListSchedules\<close>; \<open>during\<close> is what other
  goroutines (only \<open>Stop\<close> can) did to the scheduler between the store read and the lock.\<close>

definition Reload ::
  "cron_lib \<Rightarrow> 'c cron_api \<Rightarrow> fault \<Rightarrow> fault \<Rightarrow> fault \<Rightarrow> db \<Rightarrow> ('c scheduler \<Rightarrow> 'c scheduler) \<Rightarrow>
   'c scheduler \<Rightarrow> 'c scheduler \<times> unit res" where
  "Reload lib api f1 f2 f3 d during s0 =
     (case ListSchedules f1 f2 f3 d of
        Inl e \<Rightarrow> (s0, Inl e)
      | Inr schedules \<Rightarrow>
          (case reload_loop lib api schedules (ca_new api) Map.empty of
             (c, entries) \<Rightarrow>
               let s = during s0
               in if sch_stopped s then (s, Inr ())
                  else (s\<lparr>sch_cron := Some (ca_start api c), sch_entries := entries,
                          sch_halted := sch_halted s @ (case sch_cron s of None \<Rightarrow> [] | Some old \<Rightarrow> [old])\<rparr>,
                        Inr ())))"

definition Next :: "'c cron_api \<Rightarrow> 'c scheduler \<Rightarrow> int \<Rightarrow> time option" where
  "Next api s sid =
     (case (sch_cron s, sch_entries s sid) of
        (Some c, Some i) \<Rightarrow>
          (case ca_entry api c i of (j, nxt) \<Rightarrow> if j = 0 \<or> IsZero nxt then None else Some nxt)
      | _ \<Rightarrow> None)"

definition Entries :: "'c scheduler \<Rightarrow> nat" where
  "Entries s = card (dom (sch_entries s))"

text \<open>\<open>drained\<close>: the running callbacks ended before the context did.\<close>

definition Scheduler_Stop :: "bool \<Rightarrow> 'c scheduler \<Rightarrow> 'c scheduler \<times> bool" where
  "Scheduler_Stop drained s =
     (let s' = s\<lparr>sch_cron := None, sch_entries := Map.empty, sch_stopped := True\<rparr>
      in case sch_cron s of
           None \<Rightarrow> (s', True)
         | Some c \<Rightarrow> (s'\<lparr>sch_halted := sch_halted s @ [c]\<rparr>, drained))"

subsection \<open>Fire\<close>

text \<open>\<open>flt\<close>, \<open>ev\<close>, \<open>flt2\<close>: what the store answers to the dedupe query, during \<open>Enqueue\<close>, and to the
  insert of the skipped row.\<close>

definition skip :: "fault \<Rightarrow> string \<Rightarrow> schedule \<Rightarrow> string \<Rightarrow> runner \<Rightarrow> runner" where
  "skip flt now sc reason r = r\<lparr>r_db := fst (InsertSkippedRun flt now (r_db r) (s_id sc) reason)\<rparr>"

definition cron_request :: "schedule \<Rightarrow> run_request" where
  "cron_request sc = \<lparr>rq_trigger = Cron, rq_schedule_id = Some (s_id sc), rq_target_ids = s_target_ids sc,
     rq_snapshots = Map.empty\<rparr>"

definition fire :: "fault \<Rightarrow> enqueue_env \<Rightarrow> fault \<Rightarrow> string \<Rightarrow> schedule \<Rightarrow> runner \<Rightarrow> runner" where
  "fire flt ev flt2 now sc r =
     (case QueuedRunForSchedule flt (r_db r) (s_id sc) of
        Inl e \<Rightarrow> r
      | Inr (Some prev) \<Rightarrow> skip flt2 now sc (''previous run '' @ Itoa prev @ '' still in flight'') r
      | Inr None \<Rightarrow>
          (case Enqueue ev (cron_request sc) r of
             (r1, Inr runID) \<Rightarrow> r1
           | (r1, Inl ErrQueueFull) \<Rightarrow> skip flt2 now sc ''queue full'' r1
           | (r1, Inl ErrNoTargets) \<Rightarrow> skip flt2 now sc ''no runnable targets'' r1
           | (r1, Inl ErrShuttingDown) \<Rightarrow> skip flt2 now sc ''server shutting down'' r1
           | (r1, Inl (ErrStore e)) \<Rightarrow> r1))"

end
