(* ===== verification/Runner_Seq.thy ===== *)
theory Runner_Seq
  imports Runner_Sim
begin

text \<open>
  The runner's operations taken one at a time: what one call of \<open>Enqueue\<close> does on each of its
  paths, the result rows one queue job writes, and the progress throttle.
\<close>

subsection \<open>The rows of one queue job\<close>

text \<open>The database is ready for the results of a run: the rows its foreign keys name exist.\<close>

definition refs_ok :: "db \<Rightarrow> int \<Rightarrow> target list \<Rightarrow> bool" where
  "refs_ok d i ts \<longleftrightarrow> (\<exists>r\<in>set (rows (runs_t d)). run_id r = i) \<and>
     (\<forall>t\<in>set ts. \<exists>r\<in>set (rows (targets_t d)). t_id r = t_id t)"

definition same_refs :: "db \<Rightarrow> db \<Rightarrow> bool" where
  "same_refs d d' \<longleftrightarrow> runs_t d' = runs_t d \<and> map t_id (rows (targets_t d')) = map t_id (rows (targets_t d))"

lemma same_refs_ok: "same_refs d d' \<Longrightarrow> refs_ok d i ts \<Longrightarrow> refs_ok d' i ts"
proof -
  assume s: "same_refs d d'" and r: "refs_ok d i ts"
  have "t_id ` set (rows (targets_t d')) = t_id ` set (rows (targets_t d))"
    using s by (metis same_refs_def set_map)
  then have "(\<exists>r\<in>set (rows (targets_t d)). t_id r = k) \<longleftrightarrow> (\<exists>r\<in>set (rows (targets_t d')). t_id r = k)" for k
    by (metis (no_types, lifting) image_iff)
  then show ?thesis using s r by (simp add: refs_ok_def same_refs_def)
qed

lemma same_refs_trans: "same_refs a b \<Longrightarrow> same_refs b c \<Longrightarrow> same_refs a c"
  by (simp add: same_refs_def)

lemma target_options_refs:
  "same_refs d (fst (target_options flt t ov d)) \<and> results_t (fst (target_options flt t ov d)) = results_t d"
proof -
  have pick: "same_refs d (fst (pick_rotation flt i n d)) \<and> results_t (fst (pick_rotation flt i n d)) = results_t d" for i n
    by (auto simp: pick_rotation_def NextRotationIndex_def same_refs_def map_key_update_where split: option.splits)
  have "same_refs d (fst (rotate_opts (t_options t) (t_engine t) (pick_rotation flt (t_id t)) d)) \<and>
      results_t (fst (rotate_opts (t_options t) (t_engine t) (pick_rotation flt (t_id t)) d)) = results_t d"
    by (rule rotate_state [where P = "\<lambda>d'. same_refs d d' \<and> results_t d' = results_t d"])
      (simp_all add: pick, simp add: same_refs_def)
  then show ?thesis
    by (cases "rotate_opts (t_options t) (t_engine t) (pick_rotation flt (t_id t)) d")
      (auto simp: target_options_def same_refs_def split: option.splits)
qed

text \<open>One stored row: the new last row, its id filled in, everything else as before.\<close>

lemma storeResult_row:
  assumes "refs_ok (r_db r) i [t]" "res_run_id res = Some i" "res_target_id res = Some (t_id t)"
    and "storeResult None res m r = (r', ok)"
  obtains x where "ok" "rows (results_t (r_db r')) = rows (results_t (r_db r)) @ [x]" "same_refs (r_db r) (r_db r')"
    "res_run_id x = res_run_id res" "res_target_id x = res_target_id res" "res_status x = res_status res"
    "r_runs r' = r_runs r" "r_ctx_done r' = r_ctx_done r"
proof -
  let ?x = "res\<lparr>res_id := seq (results_t (r_db r)) + 1,
      res_options_snapshot := rawOrEmpty (res_options_snapshot res)\<rparr>"
  have "InsertResult None (r_db r) res = ((r_db r)\<lparr>results_t := insert_row
      (\<lambda>i. res\<lparr>res_id := i, res_options_snapshot := rawOrEmpty (res_options_snapshot res)\<rparr>) (results_t (r_db r))\<rparr>,
      Inr (seq (results_t (r_db r)) + 1))"
    using assms(1-3) by (auto simp: InsertResult_def refs_ok_def)
  then show ?thesis using assms(4) by (intro that [of ?x]) (auto simp: storeResult_def same_refs_def)
qed

lemma base_result_refs [simp]:
  "res_run_id (base_result i t opts now) = Some i" "res_target_id (base_result i t opts now) = Some (t_id t)"
  by (simp_all add: base_result_def)

lemma result_refs [simp]:
  "res_run_id (failed_result res msg) = res_run_id res" "res_target_id (failed_result res msg) = res_target_id res"
  "res_status (failed_result res msg) = RFailed"
  "res_run_id (ok_result res er) = res_run_id res" "res_target_id (ok_result res er) = res_target_id res"
  "res_status (ok_result res er) = ROk"
  by (simp_all add: failed_result_def ok_result_def)

text \<open>A target that does not panic writes one row; it counts as failed exactly when the row says so.
  A panic writes none.\<close>

lemma runTarget_row:
  assumes refs: "refs_ok (r_db r) i [t]" and flt: "te_insert ev = None"
    and run: "runTarget reg ev i queue t ov r = (r', out)"
  shows "same_refs (r_db r) (r_db r') \<and> r_runs r' = r_runs r \<and> r_ctx_done r' = r_ctx_done r \<and>
    (case out of
       TargetPanic msg \<Rightarrow> rows (results_t (r_db r')) = rows (results_t (r_db r))
     | TargetDone f \<Rightarrow> \<exists>x. rows (results_t (r_db r')) = rows (results_t (r_db r)) @ [x] \<and>
          res_run_id x = Some i \<and> res_target_id x = Some (t_id t) \<and> (f \<longleftrightarrow> res_status x \<noteq> ROk))"
proof -
  obtain d opts where o: "target_options (te_rotation ev) t ov (r_db r) = (d, opts)" by (meson surj_pair)
  have d: "same_refs (r_db r) d" "results_t d = results_t (r_db r)"
    using target_options_refs [of "r_db r" "te_rotation ev" t ov] o by auto
  let ?r1 = "r\<lparr>r_db := d\<rparr>"
  have store: "same_refs (r_db r) (r_db r'') \<and> r_runs r'' = r_runs r \<and> r_ctx_done r'' = r_ctx_done r \<and> ok \<and>
      (\<exists>x. rows (results_t (r_db r'')) = rows (results_t (r_db r)) @ [x] \<and>
          res_run_id x = Some i \<and> res_target_id x = Some (t_id t) \<and> res_status x = res_status res)"
    if "storeResult None res m r1 = (r'', ok)" "r_db r1 = d" "r_runs r1 = r_runs r" "r_ctx_done r1 = r_ctx_done r"
      "res_run_id res = Some i" "res_target_id res = Some (t_id t)" for res m r1 r'' ok
  proof -
    have "refs_ok (r_db r1) i [t]" using same_refs_ok [OF d(1) refs] that(2) by simp
    from storeResult_row [OF this that(5,6,1)] obtain x where x: "ok" "rows (results_t (r_db r'')) = rows (results_t (r_db r1)) @ [x]"
      "same_refs (r_db r1) (r_db r'')" "res_run_id x = res_run_id res" "res_target_id x = res_target_id res"
      "res_status x = res_status res" "r_runs r'' = r_runs r1" "r_ctx_done r'' = r_ctx_done r1" .
    then show ?thesis using d same_refs_trans [OF d(1)] that by auto
  qed
  show ?thesis
  proof (cases "reg (t_engine t)")
    case None
    let ?w = "storeResult None (failed_result (base_result i t opts (te_started ev)) (''unknown engine '' @ quoted (t_engine t)))
        (run_meta i queue ?r1) ?r1"
    obtain r2 ok where w: "?w = (r2, ok)" by (meson surj_pair)
    have "r' = r2 \<and> out = TargetDone True" using run None w by (auto simp: runTarget_def o Let_def flt)
    then show ?thesis using store [OF w] by auto
  next
    case (Some eng)
    obtain prog oc where e: "eng opts = (prog, oc)" by (meson surj_pair)
    let ?r2 = "?r1\<lparr>r_events := r_events ?r1 @ map (\<lambda>(now, p). EvProgress i (t_id t) (t_engine t) p) (throttle None prog)\<rparr>"
    let ?res = "base_result i t opts (te_started ev)\<lparr>res_duration_ms := te_duration_ms ev\<rparr>"
    show ?thesis
    proof (cases oc)
      case (EngOk er)
      obtain r3 ok where w: "storeResult None (ok_result ?res er) (run_meta i queue ?r1) ?r2 = (r3, ok)" by (meson surj_pair)
      have "r' = r3 \<and> out = TargetDone (\<not> ok)" using run Some e EngOk w by (auto simp: runTarget_def o Let_def flt)
      then show ?thesis using store [OF w] by auto
    next
      case (EngErr msg)
      obtain r3 ok where w: "storeResult None (failed_result ?res msg) (run_meta i queue ?r1) ?r2 = (r3, ok)" by (meson surj_pair)
      have "r' = r3 \<and> out = TargetDone True" using run Some e EngErr w by (auto simp: runTarget_def o Let_def flt)
      then show ?thesis using store [OF w] by auto
    next
      case (EngPanic msg)
      then show ?thesis using run Some e d by (auto simp: runTarget_def o Let_def)
    qed
  qed
qed

lemma publish_step_sel [simp]:
  "r_db (publish_step i r) = r_db r" "r_ctx_done (publish_step i r) = r_ctx_done r"
  by (auto simp: publish_step_def markTargetDone_def publishRun_def split: option.splits prod.splits)

text \<open>Every target the loop reaches gets exactly one row, in order; without a panic it reaches all.
  The loop reports a failure exactly when one of these rows is not \<open>ok\<close>.\<close>

lemma target_loop_rows:
  assumes "refs_ok (r_db r) (j_run_id j) ts" "te_insert ev = None" "j_run_id j \<notin> r_ctx_done r"
    and "target_loop reg ev j failed ts r = (r', failed', panicked)"
  shows "\<exists>new k. rows (results_t (r_db r')) = rows (results_t (r_db r)) @ new \<and> k \<le> length ts \<and>
    (\<not> panicked \<longrightarrow> k = length ts) \<and> map res_target_id new = map (\<lambda>t. Some (t_id t)) (take k ts) \<and>
    (\<forall>x\<in>set new. res_run_id x = Some (j_run_id j)) \<and>
    (failed' \<longleftrightarrow> failed \<or> (\<exists>x\<in>set new. res_status x \<noteq> ROk)) \<and> (panicked \<longrightarrow> failed')"
  using assms
proof (induction ts arbitrary: r failed)
  case (Cons t ts)
  obtain r1 out where run: "runTarget reg ev (j_run_id j) (j_queue_name j) t (override_of j t) r = (r1, out)"
    by (meson surj_pair)
  have refs: "refs_ok (r_db r) (j_run_id j) [t]" using Cons.prems(1) by (simp add: refs_ok_def)
  note row = runTarget_row [OF refs Cons.prems(2) run]
  have refs1: "refs_ok (r_db r1) (j_run_id j) (t # ts)" using same_refs_ok Cons.prems(1) row by blast
  show ?case
  proof (cases out)
    case (TargetDone f)
    then obtain x where x: "rows (results_t (r_db r1)) = rows (results_t (r_db r)) @ [x]" "res_run_id x = Some (j_run_id j)"
      "res_target_id x = Some (t_id t)" "f \<longleftrightarrow> res_status x \<noteq> ROk" using row by auto
    let ?r2 = "publish_step (j_run_id j) r1"
    have loop: "target_loop reg ev j (failed \<or> f) ts ?r2 = (r', failed', panicked)"
      using Cons.prems(3,4) run TargetDone by simp
    have pre: "refs_ok (r_db ?r2) (j_run_id j) ts" "j_run_id j \<notin> r_ctx_done ?r2"
      using refs1 row Cons.prems(3) by (auto simp: refs_ok_def)
    from Cons.IH [OF pre(1) Cons.prems(2) pre(2) loop] obtain new k where
      "rows (results_t (r_db r')) = rows (results_t (r_db r1)) @ new" "k \<le> length ts" "\<not> panicked \<longrightarrow> k = length ts"
      "map res_target_id new = map (\<lambda>t. Some (t_id t)) (take k ts)" "\<forall>x\<in>set new. res_run_id x = Some (j_run_id j)"
      "failed' \<longleftrightarrow> (failed \<or> f) \<or> (\<exists>x\<in>set new. res_status x \<noteq> ROk)" "panicked \<longrightarrow> failed'" by auto
    then show ?thesis using x by (intro exI [of _ "x # new"] exI [of _ "Suc k"]) auto
  next
    case (TargetPanic msg)
    obtain r2 ok where w: "storeResult None (recover_result (te_started ev) j t msg) (recover_meta j) r1 = (r2, ok)"
      by (meson surj_pair)
    have "refs_ok (r_db r1) (j_run_id j) [t]" using refs1 by (simp add: refs_ok_def)
    from storeResult_row [OF this _ _ w] obtain x where x: "rows (results_t (r_db r2)) = rows (results_t (r_db r1)) @ [x]"
      "res_run_id x = Some (j_run_id j)" "res_target_id x = Some (t_id t)" "res_status x = RFailed"
      by (auto simp: recover_result_def)
    have "r' = publish_step (j_run_id j) r2 \<and> failed' \<and> panicked"
      using Cons.prems(2,3,4) run TargetPanic w by (simp add: recover_target_def)
    then show ?thesis using x row TargetPanic by (intro exI [of _ "[x]"] exI [of _ 1]) auto
  qed
qed simp


definition seq_row :: "int \<Rightarrow> target_row" where
  "seq_row i = \<lparr>t_id = i, t_name = ''t'', t_engine = ''ookla'', t_enabled = True, t_queue_id = 1,
     t_options = RawEmpty, t_thresholds = RawEmpty, t_rotation_index = 0, t_created_at = ''t0'', t_updated_at = ''t0''\<rparr>"

definition seq_target :: "int \<Rightarrow> target" where
  "seq_target i = target_row.extend (seq_row i) \<lparr>t_queue_name = ''wan''\<rparr>"

definition seq_db :: db where
  "seq_db = seeded_db\<lparr>targets_t := \<lparr>rows = [seq_row 1, seq_row 2], seq = 2\<rparr>,
     runs_t := \<lparr>rows = [demo_run 1 None Running], seq = 1\<rparr>\<rparr>"

definition seq_job :: job where
  "seq_job = \<lparr>j_run_id = 1, j_queue_id = 1, j_queue_name = ''wan'', j_targets = [seq_target 1, seq_target 2],
     j_snapshots = Map.empty\<rparr>"

definition seq_env :: target_env where
  "seq_env = \<lparr>te_started = ''t1'', te_rotation = None, te_duration_ms = 5, te_insert = None\<rparr>"

definition seq_registry :: "string \<rightharpoonup> engine" where
  "seq_registry = [''ookla'' \<mapsto> (\<lambda>opts. ([], EngErr ''no route''))]"


subsection \<open>The progress throttle\<close>

definition last_phase :: "phase \<Rightarrow> bool" where
  "last_phase ph \<longleftrightarrow> ph = PhaseDone \<or> ph = PhaseError"

text \<open>Two events in a row are far enough apart, unless the second starts or ends something.\<close>

definition spaced :: "int \<times> phase \<Rightarrow> int \<times> phase \<Rightarrow> bool" where
  "spaced a b \<longleftrightarrow> last_phase (snd b) \<or> snd a \<noteq> snd b \<or> fst b - fst a \<ge> progressInterval"

definition stamp :: "int \<times> progress \<Rightarrow> int \<times> phase" where
  "stamp e = (fst e, p_phase (snd e))"

lemma throttle_spaced:
  "successively spaced (case prev of None \<Rightarrow> map stamp (throttle prev ps) | Some a \<Rightarrow> a # map stamp (throttle prev ps))"
proof (induction prev ps rule: throttle.induct)
  case (1 prev)
  show ?case by (cases prev) auto
next
  case (2 prev now p ps)
  show ?case
  proof (cases "p_phase p \<noteq> PhaseDone \<and> p_phase p \<noteq> PhaseError \<and>
      (case prev of None \<Rightarrow> False | Some (t, ph) \<Rightarrow> p_phase p = ph \<and> now - t < progressInterval)")
    case True
    then have "throttle prev ((now, p) # ps) = throttle prev ps" unfolding throttle.simps by (rule if_P)
    with 2(1) [OF True] show ?thesis by (simp only:)
  next
    case False
    from 2(2) [OF False] have tl: "successively spaced ((now, p_phase p) # map stamp (throttle (Some (now, p_phase p)) ps))" by simp
    have eq: "map stamp (throttle prev ((now, p) # ps)) = (now, p_phase p) # map stamp (throttle (Some (now, p_phase p)) ps)"
      using False by (auto simp: stamp_def)
    show ?thesis
    proof (cases prev)
      case None
      then show ?thesis unfolding eq using tl by simp
    next
      case (Some a)
      have "spaced a (now, p_phase p)" using False Some by (cases a) (auto simp: spaced_def last_phase_def)
      then show ?thesis unfolding eq using tl Some by simp
    qed
  qed
qed

lemma throttle_filter: "filter (\<lambda>e. last_phase (p_phase (snd e))) (throttle prev ps) = filter (\<lambda>e. last_phase (p_phase (snd e))) ps"
  by (induction prev ps rule: throttle.induct) (auto simp: last_phase_def)

lemma throttle_set: "set (throttle prev ps) \<subseteq> set ps"
  by (induction prev ps rule: throttle.induct) auto

text \<open>Progress events of one result go out at most ten times a second. Of what an engine reports,
  consecutive published updates of one phase are at least \<open>progressInterval\<close> milliseconds apart,
  every update of a final phase is published, and nothing is made up.\<close>

theorem progress_is_throttled:
  "successively spaced (map stamp (throttle None ps)) \<and>
   filter (\<lambda>e. last_phase (p_phase (snd e))) (throttle None ps) = filter (\<lambda>e. last_phase (p_phase (snd e))) ps \<and>
   set (throttle None ps) \<subseteq> set ps"
  using throttle_spaced [of None ps] throttle_filter throttle_set by simp

subsection \<open>Enqueue\<close>

lemma active_in_fresh: "runs_ok d \<Longrightarrow> \<not> active_in (run_view d) (seq (runs_t d) + 1)"
  using run_view_bound [of d "seq (runs_t d) + 1"] by (cases "run_view d (seq (runs_t d) + 1)") (auto simp: active_in_def)

lemma enqueue_dedupe_Some:
  assumes "runs_ok (r_db r)" "enqueue_dedupe flt r req = Inr (Some i)"
  shows "\<exists>st sid. rq_schedule_id req = Some sid \<and> run_view (r_db r) i = Some (st, Some sid) \<and> \<not> terminal st"
proof -
  from assms(2) obtain sid where sid: "rq_schedule_id req = Some sid" "QueuedRunForSchedule flt (r_db r) sid = Inr (Some i)"
    by (auto simp: enqueue_dedupe_def split: option.splits)
  from QueuedRunForSchedule_Some [OF sid(2)] sid(1) show ?thesis
    by (auto simp: run_view_iff [OF assms(1)] run_active_iff)
qed

text \<open>What is left of a run that was refused after its row was created.\<close>

lemma resolve_refused:
  assumes d: "runs_ok (r_db r)" "run_view (r_db r) i = Some (Queued, sid)" and st: "terminal st"
    and w: "setRunStatus None (None, flt) now i st msg r = (r', err)"
  shows "err = None \<and> (\<forall>j. active_in (run_view (r_db r')) j \<longleftrightarrow> j \<noteq> i \<and> active_in (run_view (r_db r)) j) \<and>
    r_runs r' = r_runs r \<and> r_finalizing r' = r_finalizing r"
proof -
  have "SetRunStatus None now (r_db r) i st msg = ((r_db r)\<lparr>runs_t := map_rows (update_where
      (\<lambda>r. run_id r = i \<and> \<not> terminal (run_state r)) (set_status now st msg)) (runs_t (r_db r))\<rparr>, Inr ())"
    using SetRunStatus_update(1) [OF d] by (simp add: status_simps)
  then have none: "err = None" using w by (auto simp: setRunStatus_production)
  from d(1) w show ?thesis
    by (cases rule: setRunStatus_cases) (use none st in auto)
qed

lemma enqueue_commit_runs:
  assumes "enqueue_commit i sname ts req r = (r', out)"
  shows "out = Full \<Longrightarrow> r_runs r' = (r_runs r)(i := None)" and "out = Committed \<Longrightarrow> r_runs r' i \<noteq> None"
  using assms
  by (auto simp: enqueue_commit_def Let_def publishRun_def fold_queueChan dest: send_jobs_sel(1) split: if_splits prod.splits)

text \<open>A row created and then refused: the store is left with the same active runs.\<close>

lemma refused_leaves_nothing:
  assumes d: "runs_ok (r_db r)" and view: "run_view (r_db r) = v(i \<mapsto> (Queued, sid))" "\<not> active_in v i"
    and w: "setRunStatus None (None, flt) now i st msg r = (r', err)" "terminal st"
  shows "err = None \<and> (\<forall>j. active_in (run_view (r_db r')) j = active_in v j) \<and> r_runs r' = r_runs r \<and>
     r_finalizing r' = r_finalizing r"
proof -
  have "run_view (r_db r) i = Some (Queued, sid)" by (simp add: view)
  from resolve_refused [OF d this w(2,1)] show ?thesis using view by auto
qed

lemma Enqueue_new:
  assumes d: "runs_ok (r_db r)" and i: "i = seq (runs_t (r_db r)) + 1" "r_runs r i = None" "i \<notin> r_finalizing r"
    and flt: "ee_status ev = (None, flt)" and ts: "ts \<noteq> []"
    and create: "enqueue_create (ee_create ev) r req = (r1, Inr i)"
    and commit: "enqueue_commit i sname ts req (beginFinalize i r1) = (r3, c)"
  shows "c = Refused \<Longrightarrow> r' = endFinalize i (write_and_publish (ee_status ev) (ee_now ev) i Canceled msg tot n r3) \<Longrightarrow>
      (\<forall>j. active_in (run_view (r_db r')) j = active_in (run_view (r_db r)) j) \<and> r_runs r' = r_runs r \<and> r_finalizing r' = r_finalizing r"
    and "c = Full \<Longrightarrow> r' = endFinalize i (publishRun i Failed msg tot n (fst (setRunStatus None (ee_status ev) (ee_now ev) i Failed msg r3))) \<Longrightarrow>
      (\<forall>j. active_in (run_view (r_db r')) j = active_in (run_view (r_db r)) j) \<and> r_runs r' = r_runs r \<and> r_finalizing r' = r_finalizing r"
    and "c = Committed \<Longrightarrow> run_view (r_db r3) = (run_view (r_db r))(i \<mapsto> (Queued, rq_schedule_id req)) \<and>
      r_runs r3 i \<noteq> None \<and> queued_ids r3 = add_jobs (t_queue_id ` set ts) i (queued_ids r) \<and> r_finalizing r3 = r_finalizing r"
proof -
  from d create obtain d1 where r1: "r1 = r\<lparr>r_db := d1\<rparr>" "runs_ok d1"
    "run_view d1 = (run_view (r_db r))(i \<mapsto> (Queued, rq_schedule_id req))"
    by (cases rule: enqueue_create_cases) auto
  let ?r2 = "beginFinalize i r1"
  have r2: "r_db ?r2 = d1" "r_runs ?r2 = r_runs r" "r_finalizing ?r2 = insert i (r_finalizing r)"
    "queued_ids ?r2 = queued_ids r" "pendings ?r2 i = None"
    using i(2) by (simp_all add: beginFinalize_def r1(1) pendings_def)
  note na = active_in_fresh [OF d, folded i(1)]
  have db: "r_db r3 = d1" using enqueue_commit_db [OF commit] r2(1) by simp
  have gone: "insert i (r_finalizing r) - {i} = r_finalizing r" using i(3) by auto
  have left: "err = None \<and> (\<forall>j. active_in (run_view (r_db r4)) j = active_in (run_view (r_db r)) j) \<and>
      r_runs r4 = r_runs r3 \<and> r_finalizing r4 = r_finalizing r3"
    if "setRunStatus None (ee_status ev) (ee_now ev) i st msg r3 = (r4, err)" "terminal st" for st r4 err
    using refused_leaves_nothing [of r3 "run_view (r_db r)" i "rq_schedule_id req" flt "ee_now ev" st msg r4 err]
      r1 db na that flt by simp
  show "c = Refused \<Longrightarrow> r' = endFinalize i (write_and_publish (ee_status ev) (ee_now ev) i Canceled msg tot n r3) \<Longrightarrow>
      (\<forall>j. active_in (run_view (r_db r')) j = active_in (run_view (r_db r)) j) \<and> r_runs r' = r_runs r \<and> r_finalizing r' = r_finalizing r"
    using commit ts r2(5) left [where st = Canceled]
    by (cases "setRunStatus None (ee_status ev) (ee_now ev) i Canceled msg r3", elim enqueue_commit_cases)
      (auto simp: write_and_publish_def endFinalize_def publishRun_def r2 gone status_simps)
  show "(\<forall>j. active_in (run_view (r_db r')) j = active_in (run_view (r_db r)) j) \<and> r_runs r' = r_runs r \<and> r_finalizing r' = r_finalizing r"
    if c: "c = Full"
      and r': "r' = endFinalize i (publishRun i Failed msg tot n (fst (setRunStatus None (ee_status ev) (ee_now ev) i Failed msg r3)))"
  proof -
    obtain r4 err where w: "setRunStatus None (ee_status ev) (ee_now ev) i Failed msg r3 = (r4, err)" by (meson surj_pair)
    have "r_runs r3 = r_runs r" using enqueue_commit_runs(1) [OF assms(8) c] r2(2) i(2) by (simp add: fun_upd_idem)
    moreover from commit ts r2(5) have "r_finalizing r3 = insert i (r_finalizing r)"
      by (cases rule: enqueue_commit_cases) (use c r2 in simp_all)
    ultimately show ?thesis using left [OF w] r' w gone by (simp add: endFinalize_def publishRun_def status_simps)
  qed
  show "run_view (r_db r3) = (run_view (r_db r))(i \<mapsto> (Queued, rq_schedule_id req)) \<and>
      r_runs r3 i \<noteq> None \<and> queued_ids r3 = add_jobs (t_queue_id ` set ts) i (queued_ids r) \<and> r_finalizing r3 = r_finalizing r"
    if c: "c = Committed"
    using commit ts r2(5)
  proof (cases rule: enqueue_commit_cases)
    case (commit Q)
    then show ?thesis using enqueue_commit_runs(2) [OF assms(8) c] db r1(3) by (simp add: r2 gone)
  qed (use c in simp_all)
qed

lemma Enqueue_result:
  assumes d: "runs_ok (r_db r)" and i: "r_runs r (seq (runs_t (r_db r)) + 1) = None" "seq (runs_t (r_db r)) + 1 \<notin> r_finalizing r"
    and flt: "ee_status ev = (None, flt)" and enq: "Enqueue ev req r = (r', out)"
  shows "case out of
      Inl e \<Rightarrow> (\<forall>j. active_in (run_view (r_db r')) j = active_in (run_view (r_db r)) j) \<and>
                r_runs r' = r_runs r \<and> r_finalizing r' = r_finalizing r
    | Inr k \<Rightarrow>
        (r' = r \<and> (\<exists>st sid. rq_schedule_id req = Some sid \<and> run_view (r_db r) k = Some (st, Some sid) \<and> \<not> terminal st)) \<or>
        (k = seq (runs_t (r_db r)) + 1 \<and> run_view (r_db r') = (run_view (r_db r))(k \<mapsto> (Queued, rq_schedule_id req)) \<and>
         r_runs r' k \<noteq> None \<and> r_finalizing r' = r_finalizing r \<and>
         (\<exists>Q. Q \<noteq> {} \<and> queued_ids r' = add_jobs Q k (queued_ids r)))"
proof (cases "enqueue_targets (ee_targets ev) r req")
  case (Inl e)
  with enq show ?thesis by (auto simp: Enqueue_def)
next
  case (Inr ts)
  note ts = this enqueue_targets_nonempty [OF this]
  show ?thesis
  proof (cases "enqueue_dedupe (ee_dedupe ev) r req")
    case (Inl e)
    with enq ts show ?thesis by (auto simp: Enqueue_def)
  next
    case (Inr dup)
    note dup = this
    show ?thesis
    proof (cases dup)
      case (Some k)
      with enq ts dup enqueue_dedupe_Some [OF d, of "ee_dedupe ev" req k] show ?thesis by (auto simp: Enqueue_def)
    next
      case None
      obtain r1 x where cr: "enqueue_create (ee_create ev) r req = (r1, x)" by (meson surj_pair)
      show ?thesis
      proof (cases x)
        case (Inl e)
        from d cr have "r1 = r" by (cases rule: enqueue_create_cases) (use Inl in auto)
        with enq ts dup None cr Inl show ?thesis by (auto simp: Enqueue_def)
      next
        case (Inr k)
        from d cr have k: "k = seq (runs_t (r_db r)) + 1" by (cases rule: enqueue_create_cases) (use Inr in auto)
        let ?sn = "schedule_name (ee_schedule ev) (beginFinalize k r1) req"
        obtain r3 c where co: "enqueue_commit k ?sn ts req (beginFinalize k r1) = (r3, c)" by (meson surj_pair)
        note new = Enqueue_new [OF d k i(1) [folded k] i(2) [folded k] flt ts(2) cr [unfolded Inr] co]
        show ?thesis
        proof (cases c)
          case Refused
          with enq ts dup None cr Inr co have o: "out = Inl ErrShuttingDown" and r: "r' = endFinalize k (write_and_publish
              (ee_status ev) (ee_now ev) k Canceled ''shutting down'' (length ts) 0 r3)" by (auto simp: Enqueue_def Let_def)
          show ?thesis using new(1) [OF Refused r] o by simp
        next
          case Full
          with enq ts dup None cr Inr co have o: "out = Inl ErrQueueFull" and r: "r' = endFinalize k (publishRun k Failed
              ''queue full'' (length ts) 0 (fst (setRunStatus None (ee_status ev) (ee_now ev) k Failed ''queue full'' r3)))"
            by (auto simp: Enqueue_def Let_def)
          show ?thesis using new(2) [OF Full r] o by simp
        next
          case Committed
          with enq ts dup None cr Inr co have "out = Inr k" "r' = r3" by (auto simp: Enqueue_def Let_def)
          moreover have "\<exists>Q. Q \<noteq> {} \<and> queued_ids r3 = add_jobs Q k (queued_ids r)"
            using ts(2) new(3) [OF Committed] by (intro exI [of _ "t_queue_id ` set ts"]) simp
          ultimately show ?thesis using new(3) [OF Committed] k by simp
        qed
      qed
    qed
  qed
qed

text \<open>\<open>Enqueue\<close> either hands out a run that will be worked on or leaves nothing behind. It answers
  with the schedule's existing active run, changing nothing; or with a new run, stored as queued,
  tracked, and with one job in each queue of its targets; or with an error, and then the same
  runs are active, tracked and in transit as before, a row created on the way being resolved.\<close>

theorem Enqueue_outcomes:
  assumes d: "runs_ok (r_db r)" and i: "r_runs r (seq (runs_t (r_db r)) + 1) = None" "seq (runs_t (r_db r)) + 1 \<notin> r_finalizing r"
    and flt: "ee_status ev = (None, flt)" and enq: "Enqueue ev req r = (r', out)"
  shows "case out of
      Inl e \<Rightarrow> (\<forall>j. active_in (run_view (r_db r')) j = active_in (run_view (r_db r)) j) \<and>
                r_runs r' = r_runs r \<and> r_finalizing r' = r_finalizing r
    | Inr k \<Rightarrow>
        (r' = r \<and> (\<exists>st sid. rq_schedule_id req = Some sid \<and> run_view (r_db r) k = Some (st, Some sid) \<and> \<not> terminal st)) \<or>
        (k = seq (runs_t (r_db r)) + 1 \<and> run_view (r_db r') = (run_view (r_db r))(k \<mapsto> (Queued, rq_schedule_id req)) \<and>
         r_runs r' k \<noteq> None \<and> r_finalizing r' = r_finalizing r \<and>
         (\<exists>Q. Q \<noteq> {} \<and> queued_ids r' = add_jobs Q k (queued_ids r)))"
  by (rule Enqueue_result [OF assms])

definition seq_req :: run_request where
  "seq_req = \<lparr>rq_trigger = Manual, rq_schedule_id = None, rq_target_ids = [1, 2], rq_snapshots = Map.empty\<rparr>"

definition seq_enq_env :: enqueue_env where
  "seq_enq_env = \<lparr>ee_targets = None, ee_dedupe = None, ee_create = None, ee_schedule = None,
     ee_status = (None, None), ee_now = ''t1''\<rparr>"

theorem Enqueue_outcomes_witness:
  "\<exists>r'. Enqueue seq_enq_env seq_req (Start (New 1 seq_db)) = (r', Inr 2) \<and> r_runs r' 2 \<noteq> None"
proof -
  let ?r = "Start (New 1 seq_db)"
  let ?out = "Enqueue seq_enq_env seq_req ?r"
  have "snd ?out = Inr 2" by code_simp
  then have out: "?out = (fst ?out, Inr 2)" by (metis prod.collapse)
  have d: "runs_ok (r_db ?r)"
    by (simp add: Start_def New_def seq_db_def seeded_db_def runs_ok_def tbl_ok_def ids_below_def demo_run_def)
  have i: "r_runs ?r (seq (runs_t (r_db ?r)) + 1) = None" "seq (runs_t (r_db ?r)) + 1 \<notin> r_finalizing ?r"
    by (simp_all add: Start_def New_def)
  have e: "ee_status seq_enq_env = (None, None)" by (simp add: seq_enq_env_def)
  have "rq_schedule_id seq_req = None" by (simp add: seq_req_def)
  with Enqueue_outcomes [OF d i e out] have "r_runs (fst ?out) 2 \<noteq> None" by simp
  then show ?thesis using out by (intro exI [of _ "fst ?out"] conjI)
qed

text \<open>A request is split into one job per queue: every runnable target is in exactly one job, that
  of its own queue, the targets of a queue keep the order of the request, and no queue gets two
  jobs or an empty one.\<close>

theorem targets_are_grouped_by_queue:
  "distinct (g_order (group_targets ts)) \<and> set (g_order (group_targets ts)) = t_queue_id ` set ts \<and>
   map (\<lambda>q. j_targets (group_job i req (group_targets ts) q)) (g_order (group_targets ts)) =
     map (\<lambda>q. filter (\<lambda>t. t_queue_id t = q) ts) (g_order (group_targets ts)) \<and>
   [] \<notin> set (map (\<lambda>q. j_targets (group_job i req (group_targets ts) q)) (g_order (group_targets ts)))"
proof -
  note g = group_targets_ok [of ts, unfolded group_ok_def]
  have "j_targets (group_job i req (group_targets ts) q) = filter (\<lambda>t. t_queue_id t = q) ts"
    if "q \<in> set (g_order (group_targets ts))" for q
    using g that by (simp add: group_job_def)
  with g show ?thesis by (auto simp: filter_empty_conv eq_commute [of "[]"])
qed

end
