(* ===== verification/Scheduler_Props.thy ===== *)
theory Scheduler_Props
  imports Scheduler Runner_Seq Runner_Demo
begin

text \<open>
  What a cron fire leaves in the store, for the composition of the scheduler with the runner, and the
  set of entries a reload installs.
\<close>

subsection \<open>The frame of an enqueue\<close>

lemma setRunStatus_schedules: "setRunStatus None flts now i st msg r = (r', e) \<Longrightarrow> schedules_t (r_db r') = schedules_t (r_db r)"
  by (auto simp: setRunStatus_def status_attempt_def SetRunStatus_def Let_def split: option.splits prod.splits sum.splits if_splits)

lemma write_and_publish_frame:
  assumes "runs_ok (r_db r)"
  shows "runs_ok (r_db (write_and_publish flts now i st msg tot n r))"
    "schedules_t (r_db (write_and_publish flts now i st msg tot n r)) = schedules_t (r_db r)"
proof -
  obtain r' e where w: "setRunStatus None flts now i st msg r = (r', e)" by (meson surj_pair)
  from setRunStatus_runs_ok [OF assms w] setRunStatus_schedules [OF w] w
  show "runs_ok (r_db (write_and_publish flts now i st msg tot n r))"
    "schedules_t (r_db (write_and_publish flts now i st msg tot n r)) = schedules_t (r_db r)"
    by (auto simp: write_and_publish_def publishRun_def split: option.splits)
qed

lemma finalize_db [simp]: "r_db (endFinalize i r) = r_db r" "r_db (beginFinalize i r) = r_db r"
  by (simp_all add: endFinalize_def beginFinalize_def)

lemma publishRun_db [simp]: "r_db (publishRun i st msg tot n r) = r_db r"
  by (simp add: publishRun_def)

lemma enqueue_create_frame:
  assumes "runs_ok (r_db r)" "enqueue_create flt r req = (r1, x)"
  shows "runs_ok (r_db r1)" "schedules_t (r_db r1) = schedules_t (r_db r)"
  using assms by (auto simp: enqueue_create_def CreateRun_def runs_ok_def tbl_ok_insert_row split: option.splits if_splits prod.splits)

lemma Enqueue_frame:
  assumes d: "runs_ok (r_db r)" and enq: "Enqueue ev req r = (r', out)"
  shows "runs_ok (r_db r') \<and> schedules_t (r_db r') = schedules_t (r_db r)"
proof -
  obtain r1 x where cr: "enqueue_create (ee_create ev) r req = (r1, x)" by (meson surj_pair)
  note f = enqueue_create_frame [OF d cr]
  have w: "runs_ok (r_db (write_and_publish flts now i st msg tot n r3)) \<and>
      schedules_t (r_db (write_and_publish flts now i st msg tot n r3)) = schedules_t (r_db r)"
    if "r_db r3 = r_db r1" for flts now i st msg tot n r3
    using write_and_publish_frame [of r3] f that by simp
  have v: "runs_ok (r_db (fst (setRunStatus None flts now i st msg r3))) \<and>
      schedules_t (r_db (fst (setRunStatus None flts now i st msg r3))) = schedules_t (r_db r)"
    if "r_db r3 = r_db r1" for flts now i st msg r3
    using setRunStatus_runs_ok [of r3] setRunStatus_schedules [of flts now i st msg r3] f that
    by (cases "setRunStatus None flts now i st msg r3") simp
  show ?thesis
  proof (cases x)
    case (Inl e)
    with enq cr d f show ?thesis by (auto simp: Enqueue_def split: sum.splits option.splits)
  next
    case (Inr i)
    obtain ts where ts: "enqueue_targets (ee_targets ev) r req = Inr ts \<or> (\<exists>e. enqueue_targets (ee_targets ev) r req = Inl e)"
      by (cases "enqueue_targets (ee_targets ev) r req") auto
    obtain r3 c where co: "enqueue_commit i (schedule_name (ee_schedule ev) (beginFinalize i r1) req) ts req (beginFinalize i r1) = (r3, c)"
      by (meson surj_pair)
    have db: "r_db r3 = r_db r1" using enqueue_commit_db [OF co] by simp
    from enq ts cr Inr co d f w [OF db, of "ee_status ev"] v [OF db, of "ee_status ev"] db show ?thesis
      by (auto simp: Enqueue_def Let_def split: sum.splits option.splits commit.splits)
  qed
qed

text \<open>Without store faults and with its schedule still there, the only errors are the runner's own.\<close>

lemma Enqueue_no_store_error:
  assumes "ee_targets ev = None" "ee_dedupe ev = None" "ee_create ev = None" "schedule_exists (r_db r) (rq_schedule_id req)"
    and "Enqueue ev req r = (r', Inl e)"
  shows "e \<in> {ErrQueueFull, ErrNoTargets, ErrShuttingDown}"
  using assms
  by (auto simp: Enqueue_def enqueue_targets_def ListTargetsByIDs_def enqueue_dedupe_def QueuedRunForSchedule_def
      enqueue_create_def CreateRun_def Let_def split: sum.splits option.splits commit.splits if_splits prod.splits)

subsection \<open>Every fire leaves a run or a skip\<close>

definition skipped_row :: "int \<Rightarrow> string \<Rightarrow> string \<Rightarrow> run \<Rightarrow> bool" where
  "skipped_row sid now reason x \<longleftrightarrow> run_schedule_id x = Some sid \<and> run_state x = Skipped \<and>
     run_started_at x = Some now \<and> run_finished_at x = Some now \<and> run_error x = Some reason"

lemma skip_row:
  assumes "runs_ok (r_db r)" "schedule_exists (r_db r) (Some (s_id sc))" "reason \<noteq> []"
  shows "skipped_row (s_id sc) now reason (last (rows (runs_t (r_db (skip None now sc reason r)))))"
    "run_view (r_db (skip None now sc reason r)) = (run_view (r_db r))(seq (runs_t (r_db r)) + 1 \<mapsto> (Skipped, Some (s_id sc)))"
    "r_runs (skip None now sc reason r) = r_runs r"
proof -
  let ?out = "InsertSkippedRun None now (r_db r) (s_id sc) reason"
  have out: "?out = (fst ?out, Inr (seq (runs_t (r_db r)) + 1))"
    using assms(2) by (simp add: InsertSkippedRun_def)
  show "skipped_row (s_id sc) now reason (last (rows (runs_t (r_db (skip None now sc reason r)))))"
    using assms(2,3) by (simp add: skip_def InsertSkippedRun_def skipped_row_def nullString_def)
  show "run_view (r_db (skip None now sc reason r)) = (run_view (r_db r))(seq (runs_t (r_db r)) + 1 \<mapsto> (Skipped, Some (s_id sc)))"
    using InsertSkippedRun_ok(2) [OF assms(1) out] by (simp add: skip_def)
  show "r_runs (skip None now sc reason r) = r_runs r" by (simp add: skip_def)
qed

lemma skip_outcome:
  assumes "runs_ok (r_db r1)" "schedules_t (r_db r1) = schedules_t (r_db r)" "schedule_exists (r_db r) (Some (s_id sc))"
    and "\<forall>j. active_in (run_view (r_db r1)) j = active_in (run_view (r_db r)) j" "r_runs r1 = r_runs r" "reason \<noteq> []"
  shows "skipped_row (s_id sc) now reason (last (rows (runs_t (r_db (skip None now sc reason r1))))) \<and>
    (\<forall>j. active_in (run_view (r_db (skip None now sc reason r1))) j = active_in (run_view (r_db r)) j) \<and>
    r_runs (skip None now sc reason r1) = r_runs r"
proof -
  have "schedule_exists (r_db r1) (Some (s_id sc))" using assms(2,3) by (simp add: schedule_exists_def)
  note s = skip_row [OF assms(1) this assms(6), of now]
  from s(1,3) assms(4,5) active_in_fresh [OF assms(1)] show ?thesis
    unfolding s(2) by (simp add: status_simps)
qed



definition demo_schedule :: schedule where
  "demo_schedule = scanSchedule demo_db (hd (rows (schedules_t demo_db)))\<lparr>s_target_ids := [1]\<rparr>"

definition demo_enq_env :: enqueue_env where
  "demo_enq_env = \<lparr>ee_targets = None, ee_dedupe = None, ee_create = None, ee_schedule = None,
     ee_status = (None, None), ee_now = demo_now\<rparr>"


subsection \<open>Reload\<close>

definition schedulable :: "cron_lib \<Rightarrow> schedule \<Rightarrow> bool" where
  "schedulable lib sc \<longleftrightarrow> s_enabled sc \<and> s_target_ids sc \<noteq> [] \<and> (\<exists>spec. ParseSpec lib (s_cron sc) (s_timezone sc) = Inr spec)"

lemma reload_loop_dom:
  "dom (snd (reload_loop lib api scs c entries)) = dom entries \<union> s_id ` set (filter (schedulable lib) scs)"
proof (induction scs arbitrary: c entries)
  case (Cons sc scs)
  show ?case
  proof (cases "schedulable lib sc")
    case True
    then obtain spec where "ParseSpec lib (s_cron sc) (s_timezone sc) = Inr spec" by (auto simp: schedulable_def)
    moreover obtain c' i where "ca_schedule api c spec sc = (c', i)" by (meson surj_pair)
    ultimately show ?thesis using True Cons by (auto simp: schedulable_def)
  next
    case False
    then show ?thesis using Cons by (auto simp: schedulable_def split: sum.splits)
  qed
qed simp

text \<open>Every instance ever started, in order: those halted and the current one.\<close>

definition cron_history :: "'c scheduler \<Rightarrow> 'c list" where
  "cron_history s = sch_halted s @ (case sch_cron s of None \<Rightarrow> [] | Some c \<Rightarrow> [c])"

text \<open>A reload registers exactly the enabled schedules with targets and a valid expression, so one
  broken row never keeps another schedule from firing; it swaps the cron instance and halts the old one,
  so at most one is ever running; a failed read changes nothing; and once the scheduler is stopped, also
  by a \<open>Stop\<close> during the reload, no cron is started again and no schedule has a next fire time.\<close>

theorem reload_swaps_the_cron:
  "case Reload lib api f1 f2 f3 d during s of
     (s', Inl e) \<Rightarrow> s' = s
   | (s', Inr _) \<Rightarrow>
       (\<exists>scs. ListSchedules f1 f2 f3 d = Inr scs \<and>
         (if sch_stopped (during s) then s' = during s
          else dom (sch_entries s') = s_id ` set (filter (schedulable lib) scs) \<and>
               (\<exists>c. cron_history s' = cron_history (during s) @ [c] \<and> sch_cron s' = Some c) \<and> \<not> sch_stopped s')) \<and>
       (sch_stopped (fst (Scheduler_Stop drained s')) \<and> cron_history (fst (Scheduler_Stop drained s')) = cron_history s' \<and>
        Entries (fst (Scheduler_Stop drained s')) = 0 \<and> Next api (fst (Scheduler_Stop drained s')) sid = None)"
proof (cases "ListSchedules f1 f2 f3 d")
  case (Inl e)
  then show ?thesis by (simp add: Reload_def)
next
  case (Inr scs)
  obtain c entries where rl: "reload_loop lib api scs (ca_new api) Map.empty = (c, entries)" by (meson surj_pair)
  then have "dom entries = s_id ` set (filter (schedulable lib) scs)"
    using reload_loop_dom [of lib api scs "ca_new api" Map.empty] by simp
  with Inr rl show ?thesis
    by (auto simp: Reload_def Let_def cron_history_def Scheduler_Stop_def Entries_def Next_def split: option.splits)
qed

end
