(* ===== verification/Sse_Hub.thy ===== *)
theory Sse_Hub
  imports Bounded_Buffer
begin

text \<open>
  Server-sent events: \<open>internal/sse/hub.go\<close> and \<open>handler.go\<close>. Channels are references
  into a heap (\<open>h_heap\<close>), because a stream handler keeps its channel after the hub has forgotten
  it. The two runtime panics a channel can cause, a send on a closed channel and a second close, are
  the value \<open>None\<close>. A stream is one client's \<open>Handler\<close> call; every turn of its select loop is
  one step, so that the steps of several clients, the publishers and \<open>Close\<close> interleave freely.
\<close>

subsection \<open>Channels\<close>

record 'e chan =
  ch_buf :: "'e list"
  ch_cap :: nat
  ch_closed :: bool

definition make_chan :: "nat \<Rightarrow> 'e chan" where
  "make_chan n = \<lparr>ch_buf = [], ch_cap = n, ch_closed = False\<rparr>"

text \<open>\<open>select { case ch <- e: default: }\<close>: the channel and whether the default was taken.\<close>

definition try_send :: "'e \<Rightarrow> 'e chan \<Rightarrow> ('e chan \<times> bool) option" where
  "try_send e c =
     (if ch_closed c then None
      else if length (ch_buf c) < ch_cap c then Some (c\<lparr>ch_buf := ch_buf c @ [e]\<rparr>, False)
      else Some (c, True))"

definition close_chan :: "'e chan \<Rightarrow> 'e chan option" where
  "close_chan c = (if ch_closed c then None else Some (c\<lparr>ch_closed := True\<rparr>))"

datatype 'e received = Received 'e | ChanClosed | WouldBlock

definition recv :: "'e chan \<Rightarrow> 'e chan \<times> 'e received" where
  "recv c = (case ch_buf c of
      e # es \<Rightarrow> (c\<lparr>ch_buf := es\<rparr>, Received e)
    | [] \<Rightarrow> (c, if ch_closed c then ChanClosed else WouldBlock))"

subsection \<open>The hub\<close>

record sse_event =
  ev_type :: string
  ev_data :: string

definition bufferSize :: nat where
  "bufferSize = 64"

record hub =
  h_heap :: "sse_event chan list"
  h_subs :: "(int \<times> nat) list"
  h_next :: int
  h_dropped :: nat
  h_closed :: bool

definition NewHub :: hub where
  "NewHub = \<lparr>h_heap = [], h_subs = [], h_next = 0, h_dropped = 0, h_closed = False\<rparr>"

text \<open>The channel and, when the subscription was entered, the id its cancel function removes.\<close>

definition Subscribe :: "hub \<Rightarrow> hub \<times> nat \<times> int option" where
  "Subscribe h =
     (let ch = make_chan bufferSize; ref = length (h_heap h)
      in if h_closed h then (h\<lparr>h_heap := h_heap h @ [ch\<lparr>ch_closed := True\<rparr>]\<rparr>, ref, None)
         else (h\<lparr>h_heap := h_heap h @ [ch], h_next := h_next h + 1,
                 h_subs := h_subs h @ [(h_next h, ref)]\<rparr>, ref, Some (h_next h)))"

text \<open>\<open>delete(h.subs, id); close(c)\<close>.\<close>

definition drop_sub :: "int \<Rightarrow> nat \<Rightarrow> hub \<Rightarrow> hub option" where
  "drop_sub i ref h =
     map_option (\<lambda>c. h\<lparr>h_subs := filter (\<lambda>(j, r). j \<noteq> i) (h_subs h), h_heap := (h_heap h)[ref := c]\<rparr>)
       (close_chan (h_heap h ! ref))"

text \<open>The cancel function; the \<open>sync.Once\<close> is the flag \<open>once\<close>.\<close>

definition cancel_sub :: "bool \<Rightarrow> int option \<Rightarrow> hub \<Rightarrow> hub option" where
  "cancel_sub once sub h =
     (case sub of
        None \<Rightarrow> Some h
      | Some i \<Rightarrow>
          if once then Some h
          else (case map_of (h_subs h) i of None \<Rightarrow> Some h | Some ref \<Rightarrow> drop_sub i ref h))"

fun close_loop :: "(int \<times> nat) list \<Rightarrow> hub \<Rightarrow> hub option" where
  "close_loop [] h = Some h"
| "close_loop ((i, ref) # xs) h = (case drop_sub i ref h of None \<Rightarrow> None | Some h' \<Rightarrow> close_loop xs h')"

definition Hub_Close :: "hub \<Rightarrow> hub option" where
  "Hub_Close h = close_loop (h_subs h) (h\<lparr>h_closed := True\<rparr>)"

fun publish_loop :: "sse_event \<Rightarrow> (int \<times> nat) list \<Rightarrow> hub \<Rightarrow> hub option" where
  "publish_loop e [] h = Some h"
| "publish_loop e ((i, ref) # xs) h =
     (case try_send e (h_heap h ! ref) of
        None \<Rightarrow> None
      | Some (c, full) \<Rightarrow>
          publish_loop e xs (h\<lparr>h_heap := (h_heap h)[ref := c],
                               h_dropped := (if full then Suc (h_dropped h) else h_dropped h)\<rparr>))"

definition Publish :: "sse_event \<Rightarrow> hub \<Rightarrow> hub option" where
  "Publish e h = publish_loop e (h_subs h) h"

text \<open>\<open>enc\<close> stands for \<open>json.Marshal\<close>, \<open>None\<close> for its error.\<close>

definition Marshal :: "('p \<Rightarrow> string option) \<Rightarrow> string \<Rightarrow> 'p \<Rightarrow> sse_event" where
  "Marshal enc eventType payload =
     (case enc payload of
        None \<Rightarrow> \<lparr>ev_type = eventType, ev_data = ''{}''\<rparr>
      | Some d \<Rightarrow> \<lparr>ev_type = eventType, ev_data = d\<rparr>)"

definition Subscribers :: "hub \<Rightarrow> nat" where
  "Subscribers h = length (h_subs h)"

definition Dropped :: "hub \<Rightarrow> nat" where
  "Dropped h = h_dropped h"

subsection \<open>The stream handler\<close>

datatype frame = Connected | Keepalive | Data sse_event

definition lf :: char where "lf = CHR 0x0A"

fun frame_text :: "frame \<Rightarrow> string" where
  "frame_text Connected = '': connected'' @ [lf, lf]"
| "frame_text Keepalive = '': keepalive'' @ [lf, lf]"
| "frame_text (Data e) = ''event: '' @ ev_type e @ [lf] @ ''data: '' @ ev_data e @ [lf, lf]"

record stream =
  st_sub :: "int option"
  st_ref :: nat
  st_out :: "frame list"
  st_live :: bool

text \<open>The turns of the select loop; the flag says whether the write and the flush succeeded.\<close>

datatype turn = CtxDone | OnEvent bool | OnTick bool

definition stream_open :: "bool \<Rightarrow> hub \<Rightarrow> hub \<times> stream" where
  "stream_open flushed h =
     (if flushed
      then (let (h', ref, sub) = Subscribe h
            in (h', \<lparr>st_sub = sub, st_ref = ref, st_out = [Connected], st_live = True\<rparr>))
      else (h, \<lparr>st_sub = None, st_ref = 0, st_out = [Connected], st_live = False\<rparr>))"

text \<open>Returning runs the deferred cancel.\<close>

definition stream_return :: "stream \<Rightarrow> hub \<Rightarrow> (hub \<times> stream) option" where
  "stream_return st h = map_option (\<lambda>h'. (h', st\<lparr>st_live := False\<rparr>)) (cancel_sub False (st_sub st) h)"

fun stream_turn :: "turn \<Rightarrow> stream \<Rightarrow> hub \<Rightarrow> (hub \<times> stream) option" where
  "stream_turn CtxDone st h = (if st_live st then stream_return st h else Some (h, st))"
| "stream_turn (OnEvent ok) st h =
     (if \<not> st_live st then Some (h, st)
      else case recv (h_heap h ! st_ref st) of
             (c, Received e) \<Rightarrow>
               (let h1 = h\<lparr>h_heap := (h_heap h)[st_ref st := c]\<rparr>
                in if ok then Some (h1, st\<lparr>st_out := st_out st @ [Data e]\<rparr>) else stream_return st h1)
           | (c, ChanClosed) \<Rightarrow> stream_return st h
           | (c, WouldBlock) \<Rightarrow> Some (h, st))"
| "stream_turn (OnTick ok) st h =
     (if \<not> st_live st then Some (h, st)
      else if ok then Some (h, st\<lparr>st_out := st_out st @ [Keepalive]\<rparr>) else stream_return st h)"

text \<open>The hub with all the streams ever opened, and the operations on the whole.\<close>

datatype hub_op = OpConnect bool | OpTurn nat turn | OpPublish sse_event | OpClose

type_synonym hub_sys = "hub \<times> stream list"

fun hub_step :: "hub_op \<Rightarrow> hub_sys \<Rightarrow> hub_sys option" where
  "hub_step (OpConnect flushed) (h, sts) = (let (h', st) = stream_open flushed h in Some (h', sts @ [st]))"
| "hub_step (OpTurn k t) (h, sts) =
     (if k < length sts then map_option (\<lambda>(h', st). (h', sts[k := st])) (stream_turn t (sts ! k) h)
      else Some (h, sts))"
| "hub_step (OpPublish e) (h, sts) = map_option (\<lambda>h'. (h', sts)) (Publish e h)"
| "hub_step OpClose (h, sts) = map_option (\<lambda>h'. (h', sts)) (Hub_Close h)"

fun hub_run :: "hub_op list \<Rightarrow> hub_sys \<Rightarrow> hub_sys option" where
  "hub_run [] s = Some s"
| "hub_run (x # xs) s = (case hub_step x s of None \<Rightarrow> None | Some s' \<Rightarrow> hub_run xs s')"


subsection \<open>Publishing\<close>

text \<open>What one delivery does to an open channel.\<close>

definition push_chan :: "'e \<Rightarrow> 'e chan \<Rightarrow> 'e chan" where
  "push_chan e c = (if length (ch_buf c) < ch_cap c then c\<lparr>ch_buf := ch_buf c @ [e]\<rparr> else c)"

definition chan_full :: "'e chan \<Rightarrow> bool" where
  "chan_full c \<longleftrightarrow> ch_cap c \<le> length (ch_buf c)"

lemma push_chan_sel [simp]:
  "ch_cap (push_chan e c) = ch_cap c" "ch_closed (push_chan e c) = ch_closed c"
  by (auto simp: push_chan_def)

lemma try_send_open: "\<not> ch_closed c \<Longrightarrow> try_send e c = Some (push_chan e c, chan_full c)"
  by (auto simp: try_send_def push_chan_def chan_full_def)

lemma publish_loop_eq:
  assumes "distinct (map snd xs)" "\<forall>(i, r)\<in>set xs. r < length (h_heap h) \<and> \<not> ch_closed (h_heap h ! r)"
  shows "\<exists>h'. publish_loop e xs h = Some h' \<and> h_subs h' = h_subs h \<and> h_next h' = h_next h \<and>
    h_closed h' = h_closed h \<and> length (h_heap h') = length (h_heap h) \<and>
    (\<forall>r < length (h_heap h). h_heap h' ! r = (if r \<in> snd ` set xs then push_chan e (h_heap h ! r) else h_heap h ! r)) \<and>
    h_dropped h' = h_dropped h + length (filter (\<lambda>(i, r). chan_full (h_heap h ! r)) xs)"
  using assms
proof (induction xs arbitrary: h)
  case (Cons x xs)
  obtain i r where x: "x = (i, r)" by (cases x)
  from Cons.prems x have r: "r < length (h_heap h)" "\<not> ch_closed (h_heap h ! r)" by auto
  let ?h = "h\<lparr>h_heap := (h_heap h)[r := push_chan e (h_heap h ! r)],
             h_dropped := (if chan_full (h_heap h ! r) then Suc (h_dropped h) else h_dropped h)\<rparr>"
  have other: "h_heap ?h ! r' = h_heap h ! r'" if "(j, r') \<in> set xs" for j r'
  proof -
    have "r' \<in> snd ` set xs" using that by force
    with Cons.prems(1) x have "r' \<noteq> r" by auto
    then show ?thesis by simp
  qed
  have "r' < length (h_heap ?h) \<and> \<not> ch_closed (h_heap ?h ! r')" if "(j, r') \<in> set xs" for j r'
    using other [OF that] Cons.prems(2) that by auto
  then have opn: "\<forall>(j, r')\<in>set xs. r' < length (h_heap ?h) \<and> \<not> ch_closed (h_heap ?h ! r')" by blast
  have dst: "distinct (map snd xs)" using Cons.prems(1) by simp
  from Cons.IH [OF dst opn] obtain h' where
    h1: "publish_loop e xs ?h = Some h'" "h_subs h' = h_subs ?h" "h_next h' = h_next ?h"
      "h_closed h' = h_closed ?h" "length (h_heap h') = length (h_heap ?h)"
      "\<forall>r'<length (h_heap ?h). h_heap h' ! r' =
         (if r' \<in> snd ` set xs then push_chan e (h_heap ?h ! r') else h_heap ?h ! r')"
      "h_dropped h' = h_dropped ?h + length (filter (\<lambda>(i, r). chan_full (h_heap ?h ! r)) xs)"
    by blast
  then have h': "publish_loop e xs ?h = Some h'" "h_subs h' = h_subs h" "h_next h' = h_next h"
      "h_closed h' = h_closed h" "length (h_heap h') = length (h_heap h)"
      "\<And>r'. r' < length (h_heap h) \<Longrightarrow> h_heap h' ! r' =
         (if r' \<in> snd ` set xs then push_chan e (h_heap ?h ! r') else h_heap ?h ! r')"
      "h_dropped h' = h_dropped ?h + length (filter (\<lambda>(i, r). chan_full (h_heap ?h ! r)) xs)"
    by simp_all
  have filt: "filter (\<lambda>(i, r). chan_full (h_heap ?h ! r)) xs = filter (\<lambda>(i, r). chan_full (h_heap h ! r)) xs"
  proof (rule filter_cong [OF refl], clarify)
    fix j r' assume "(j, r') \<in> set xs"
    from other [OF this] show "chan_full (h_heap ?h ! r') = chan_full (h_heap h ! r')" by simp
  qed
  have heap: "h_heap h' ! r' = (if r' \<in> snd ` set (x # xs) then push_chan e (h_heap h ! r') else h_heap h ! r')"
    if "r' < length (h_heap h)" for r'
    using h'(6) [OF that] Cons.prems(1) x r by (auto simp: rev_image_eqI nth_list_update)
  have drp: "h_dropped h' = h_dropped h + length (filter (\<lambda>(i, r). chan_full (h_heap h ! r)) (x # xs))"
    using h'(7) filt x by simp
  have pub: "publish_loop e (x # xs) h = Some h'" using h'(1) r x by (simp add: try_send_open)
  show ?case by (intro exI [of _ h'] conjI pub h'(2-5) drp) (use heap in blast)
qed simp

subsection \<open>The invariant of the hub and its streams\<close>

definition hub_ok :: "hub \<Rightarrow> bool" where
  "hub_ok h \<longleftrightarrow>
     distinct (map fst (h_subs h)) \<and> distinct (map snd (h_subs h)) \<and>
     (\<forall>(i, r)\<in>set (h_subs h). i < h_next h \<and> r < length (h_heap h) \<and> \<not> ch_closed (h_heap h ! r)) \<and>
     (\<forall>c\<in>set (h_heap h). ch_cap c = bufferSize \<and> length (ch_buf c) \<le> bufferSize) \<and>
     (h_closed h \<longrightarrow> h_subs h = [])"

definition stream_ok :: "hub \<Rightarrow> stream \<Rightarrow> bool" where
  "stream_ok h st \<longleftrightarrow> st_live st \<longrightarrow>
     st_ref st < length (h_heap h) \<and>
     (\<forall>i. st_sub st = Some i \<longrightarrow> i < h_next h \<and> (\<forall>r. (i, r) \<in> set (h_subs h) \<longrightarrow> r = st_ref st)) \<and>
     (\<not> h_closed h \<longrightarrow> (\<exists>i. st_sub st = Some i \<and> (i, st_ref st) \<in> set (h_subs h)))"

definition hub_sys_ok :: "hub_sys \<Rightarrow> bool" where
  "hub_sys_ok s \<longleftrightarrow> hub_ok (fst s) \<and> (\<forall>st\<in>set (snd s). stream_ok (fst s) st) \<and>
     (\<forall>j < length (snd s). \<forall>k < length (snd s). j \<noteq> k \<longrightarrow> st_live (snd s ! j) \<longrightarrow> st_live (snd s ! k) \<longrightarrow>
        st_ref (snd s ! j) \<noteq> st_ref (snd s ! k))"

lemma hub_okD:
  assumes "hub_ok h" "(i, r) \<in> set (h_subs h)"
  shows "i < h_next h" "r < length (h_heap h)" "\<not> ch_closed (h_heap h ! r)"
    "map_of (h_subs h) i = Some r" "ch_cap (h_heap h ! r) = bufferSize"
  using assms by (auto simp: hub_ok_def)

lemma hub_ok_map_of: "hub_ok h \<Longrightarrow> map_of (h_subs h) i = Some r \<longleftrightarrow> (i, r) \<in> set (h_subs h)"
  by (auto simp: hub_ok_def)

lemma Publish_hub:
  assumes "hub_ok h"
  obtains h' where "Publish e h = Some h'" "h_subs h' = h_subs h" "h_next h' = h_next h" "h_closed h' = h_closed h"
    "length (h_heap h') = length (h_heap h)"
    "\<forall>r<length (h_heap h). h_heap h' ! r =
       (if r \<in> snd ` set (h_subs h) then push_chan e (h_heap h ! r) else h_heap h ! r)"
    "h_dropped h' = h_dropped h + length (filter (\<lambda>(i, r). chan_full (h_heap h ! r)) (h_subs h))"
proof -
  have d: "distinct (map snd (h_subs h))" using assms by (simp add: hub_ok_def)
  have o: "\<forall>(i, r)\<in>set (h_subs h). r < length (h_heap h) \<and> \<not> ch_closed (h_heap h ! r)"
    using hub_okD [OF assms] by blast
  from publish_loop_eq [OF d o, of e] that show ?thesis unfolding Publish_def by blast
qed

text \<open>A change of the heap that keeps capacities and bounds, with the subscribed channels open.\<close>

lemma hub_ok_heap:
  assumes "hub_ok h" "length hp = length (h_heap h)"
    and "\<And>r. r < length hp \<Longrightarrow> ch_closed (hp ! r) = ch_closed (h_heap h ! r) \<and>
        ch_cap (hp ! r) = ch_cap (h_heap h ! r) \<and> length (ch_buf (hp ! r)) \<le> bufferSize"
  shows "hub_ok (h\<lparr>h_heap := hp\<rparr>)"
proof -
  have "ch_cap c = bufferSize \<and> length (ch_buf c) \<le> bufferSize" if "c \<in> set hp" for c
  proof -
    from that obtain r where r: "r < length hp" "c = hp ! r" by (auto simp: in_set_conv_nth)
    then have "h_heap h ! r \<in> set (h_heap h)" using assms(2) by simp
    then have "ch_cap (h_heap h ! r) = bufferSize" using assms(1) by (auto simp: hub_ok_def)
    with assms(3) [OF r(1)] r(2) show ?thesis by simp
  qed
  moreover have "\<not> ch_closed (hp ! r)" if "(i, r) \<in> set (h_subs h)" for i r
    using hub_okD [OF assms(1) that] assms(2,3) by simp
  ultimately show ?thesis using assms(1,2) by (auto simp: hub_ok_def)
qed

lemma drop_sub_ok:
  assumes "hub_ok (h\<lparr>h_closed := False\<rparr>)" "(i, r) \<in> set (h_subs h)"
  obtains c where "drop_sub i r h = Some (h\<lparr>h_subs := filter (\<lambda>(j, r). j \<noteq> i) (h_subs h), h_heap := (h_heap h)[r := c]\<rparr>)"
    "ch_buf c = ch_buf (h_heap h ! r)"
    "hub_ok (h\<lparr>h_subs := filter (\<lambda>(j, r). j \<noteq> i) (h_subs h), h_heap := (h_heap h)[r := c], h_closed := False\<rparr>)"
proof -
  let ?c = "(h_heap h ! r)\<lparr>ch_closed := True\<rparr>"
  let ?h = "h\<lparr>h_subs := filter (\<lambda>(j, r). j \<noteq> i) (h_subs h), h_heap := (h_heap h)[r := ?c]\<rparr>"
  have r: "r < length (h_heap h)" "\<not> ch_closed (h_heap h ! r)" using hub_okD [OF assms(1), of i r] assms(2) by auto
  have neq: "s \<noteq> r" if "(j, s) \<in> set (h_subs h)" "j \<noteq> i" for j s
  proof
    assume "s = r"
    moreover have "inj_on snd (set (h_subs h))" using assms(1) by (simp add: hub_ok_def distinct_map)
    ultimately have "(j, s) = (i, r)" using that(1) assms(2) by (metis inj_onD snd_conv)
    with that(2) show False by simp
  qed
  have "drop_sub i r h = Some ?h" using r by (simp add: drop_sub_def close_chan_def)
  moreover have "hub_ok (?h\<lparr>h_closed := False\<rparr>)"
    using assms(1) r neq unfolding hub_ok_def
    by (auto simp: distinct_map_filter nth_list_update set_update_distinct dest!: set_update_subset_insert [THEN subsetD])
  ultimately show ?thesis using that [of ?c] by simp
qed


lemma Publish_ok:
  assumes "hub_ok h" "Publish e h = Some h'"
  shows "hub_ok h'"
proof -
  from Publish_hub [OF assms(1), of e] obtain h1 where h1: "Publish e h = Some h1"
    "h_subs h1 = h_subs h" "h_next h1 = h_next h" "h_closed h1 = h_closed h"
    "length (h_heap h1) = length (h_heap h)"
    "\<forall>r<length (h_heap h). h_heap h1 ! r =
       (if r \<in> snd ` set (h_subs h) then push_chan e (h_heap h ! r) else h_heap h ! r)"
    "h_dropped h1 = h_dropped h + length (filter (\<lambda>(i, r). chan_full (h_heap h ! r)) (h_subs h))" .
  with assms(2) have "h1 = h'" by simp
  note h' = h1(2-) [unfolded this]
  have b: "length (ch_buf (h_heap h ! r)) \<le> bufferSize \<and> ch_cap (h_heap h ! r) = bufferSize" if "r < length (h_heap h)" for r
    using assms(1) that by (auto simp: hub_ok_def)
  have "hub_ok (h\<lparr>h_heap := h_heap h'\<rparr>)"
    using h'(4,5) b by (intro hub_ok_heap [OF assms(1)]) (auto simp: push_chan_def)
  then show ?thesis using h'(1-3) by (simp add: hub_ok_def)
qed

lemma close_loop_ok:
  assumes "hub_ok (h\<lparr>h_closed := False\<rparr>)" "h_subs h = xs" "h_closed h"
  shows "\<exists>h'. close_loop xs h = Some h' \<and> hub_ok h' \<and> h_subs h' = [] \<and> h_closed h' \<and> h_next h' = h_next h \<and>
    h_dropped h' = h_dropped h \<and> map ch_buf (h_heap h') = map ch_buf (h_heap h)"
  using assms
proof (induction xs arbitrary: h)
  case Nil
  then show ?case by (auto simp: hub_ok_def)
next
  case (Cons x xs)
  obtain i r where x: "x = (i, r)" by (cases x)
  from Cons.prems(2) x have "(i, r) \<in> set (h_subs h)" by simp
  from drop_sub_ok [OF Cons.prems(1) this] obtain c where
    c: "drop_sub i r h = Some (h\<lparr>h_subs := filter (\<lambda>(j, r). j \<noteq> i) (h_subs h), h_heap := (h_heap h)[r := c]\<rparr>)"
       "ch_buf c = ch_buf (h_heap h ! r)"
       "hub_ok (h\<lparr>h_subs := filter (\<lambda>(j, r). j \<noteq> i) (h_subs h), h_heap := (h_heap h)[r := c], h_closed := False\<rparr>)" .
  have "i \<notin> fst ` set xs" using Cons.prems(1,2) x by (simp add: hub_ok_def)
  then have xs: "filter (\<lambda>(j, r). j \<noteq> i) (h_subs h) = xs"
    using Cons.prems(2) x by (auto simp: filter_id_conv rev_image_eqI)
  have "map ch_buf ((h_heap h)[r := c]) = map ch_buf (h_heap h)"
    using c(2) by (metis list_update_id map_update)
  then show ?case using Cons.IH [of "h\<lparr>h_subs := xs, h_heap := (h_heap h)[r := c]\<rparr>"] c(1,3) Cons.prems(3) xs x
    by simp
qed

lemma Hub_Close_ok:
  assumes "hub_ok h"
  shows "\<exists>h'. Hub_Close h = Some h' \<and> hub_ok h' \<and> h_subs h' = [] \<and> h_closed h' \<and> h_next h' = h_next h \<and>
    h_dropped h' = h_dropped h \<and> map ch_buf (h_heap h') = map ch_buf (h_heap h)"
proof -
  have "hub_ok (h\<lparr>h_closed := True, h_closed := False\<rparr>)" using assms by (simp add: hub_ok_def)
  from close_loop_ok [OF this, of "h_subs h"] show ?thesis by (simp add: Hub_Close_def)
qed


lemma stream_ok_keep:
  assumes "stream_ok h st" "length (h_heap h) \<le> length (h_heap h')" "h_next h \<le> h_next h'"
    and "\<And>i r. (i, r) \<in> set (h_subs h') \<Longrightarrow> i < h_next h \<Longrightarrow> (i, r) \<in> set (h_subs h)"
    and "\<And>i. st_live st \<Longrightarrow> st_sub st = Some i \<Longrightarrow> (i, st_ref st) \<in> set (h_subs h) \<Longrightarrow> \<not> h_closed h' \<Longrightarrow> (i, st_ref st) \<in> set (h_subs h')"
    and "h_closed h \<Longrightarrow> h_closed h'"
  shows "stream_ok h' st"
proof (cases "st_live st")
  case True
  with assms(1) have s: "st_ref st < length (h_heap h)"
    "\<And>i. st_sub st = Some i \<Longrightarrow> i < h_next h \<and> (\<forall>r. (i, r) \<in> set (h_subs h) \<longrightarrow> r = st_ref st)"
    "\<not> h_closed h \<Longrightarrow> \<exists>i. st_sub st = Some i \<and> (i, st_ref st) \<in> set (h_subs h)"
    by (auto simp: stream_ok_def)
  have "i < h_next h' \<and> (\<forall>r. (i, r) \<in> set (h_subs h') \<longrightarrow> r = st_ref st)" if "st_sub st = Some i" for i
    using s(2) [OF that] assms(3) assms(4) [of i] by fastforce
  moreover have "\<exists>i. st_sub st = Some i \<and> (i, st_ref st) \<in> set (h_subs h')" if "\<not> h_closed h'"
    using s(3) assms(5) [OF True] assms(6) that by blast
  ultimately show ?thesis using s(1) assms(2) by (auto simp: stream_ok_def)
qed (simp add: stream_ok_def)

lemma cancel_sub_ok:
  assumes "hub_ok h"
  obtains h' where "cancel_sub False sub h = Some h'" "hub_ok h'" "h_closed h' = h_closed h" "h_next h' = h_next h"
    "h_dropped h' = h_dropped h" "map ch_buf (h_heap h') = map ch_buf (h_heap h)"
    "h_subs h' = filter (\<lambda>(j, r). sub \<noteq> Some j) (h_subs h)"
proof (cases "\<exists>i r. sub = Some i \<and> (i, r) \<in> set (h_subs h)")
  case False
  then have "filter (\<lambda>(j, r). sub \<noteq> Some j) (h_subs h) = h_subs h" by (auto simp: filter_id_conv)
  moreover have "cancel_sub False sub h = Some h"
    using False hub_ok_map_of [OF assms] by (auto simp: cancel_sub_def split: option.splits)
  ultimately show ?thesis using assms by (intro that [of h]) simp_all
next
  case True
  then obtain i r where i: "sub = Some i" "(i, r) \<in> set (h_subs h)" by blast
  have "h_closed h = False" using assms i by (auto simp: hub_ok_def)
  then have eq: "g\<lparr>h_closed := False\<rparr> = g" if "h_closed g = h_closed h" for g :: hub using that by simp
  from drop_sub_ok [of h, OF _ i(2)] assms eq [of h] obtain c where
    c: "drop_sub i r h = Some (h\<lparr>h_subs := filter (\<lambda>(j, r). j \<noteq> i) (h_subs h), h_heap := (h_heap h)[r := c]\<rparr>)"
       "ch_buf c = ch_buf (h_heap h ! r)"
       "hub_ok (h\<lparr>h_subs := filter (\<lambda>(j, r). j \<noteq> i) (h_subs h), h_heap := (h_heap h)[r := c], h_closed := False\<rparr>)"
    by auto
  let ?h = "h\<lparr>h_subs := filter (\<lambda>(j, r). j \<noteq> i) (h_subs h), h_heap := (h_heap h)[r := c]\<rparr>"
  have ok: "hub_ok ?h" using c(3) eq [of ?h] by simp
  have bufs: "map ch_buf ((h_heap h)[r := c]) = map ch_buf (h_heap h)"
    using c(2) by (metis list_update_id map_update)
  have run: "cancel_sub False sub h = Some ?h"
    using i c(1) hub_okD(4) [OF assms i(2)] by (simp add: cancel_sub_def)
  have "filter (\<lambda>(j, r). sub \<noteq> Some j) (h_subs h) = filter (\<lambda>(j, r). j \<noteq> i) (h_subs h)"
    using i(1) by (intro filter_cong) auto
  then show ?thesis using ok bufs run by (intro that [of ?h]) simp_all
qed


text \<open>Two streams never share a channel, so a stream's steps leave the others alone.\<close>

lemma hub_sys_okI:
  assumes "hub_ok h" "\<And>k. k < length sts \<Longrightarrow> stream_ok h (sts ! k)"
    and "\<And>j k. j < length sts \<Longrightarrow> k < length sts \<Longrightarrow> j \<noteq> k \<Longrightarrow> st_live (sts ! j) \<Longrightarrow> st_live (sts ! k) \<Longrightarrow>
      st_ref (sts ! j) \<noteq> st_ref (sts ! k)"
  shows "hub_sys_ok (h, sts)"
  using assms by (auto simp: hub_sys_ok_def all_set_conv_all_nth)

lemma hub_sys_okD:
  assumes "hub_sys_ok (h, sts)"
  shows "hub_ok h" "\<And>k. k < length sts \<Longrightarrow> stream_ok h (sts ! k)"
    "\<And>j k. j < length sts \<Longrightarrow> k < length sts \<Longrightarrow> j \<noteq> k \<Longrightarrow> st_live (sts ! j) \<Longrightarrow> st_live (sts ! k) \<Longrightarrow>
      st_ref (sts ! j) \<noteq> st_ref (sts ! k)"
  using assms by (auto simp: hub_sys_ok_def)

text \<open>A stream that ends: its subscription goes, the others stay.\<close>

lemma stream_return_ok:
  assumes ok: "hub_sys_ok (h, sts)" and k: "k < length sts" "st_live (sts ! k)"
  obtains h' where "stream_return (sts ! k) h = Some (h', (sts ! k)\<lparr>st_live := False\<rparr>)"
    "hub_sys_ok (h', sts[k := (sts ! k)\<lparr>st_live := False\<rparr>])"
    "map ch_buf (h_heap h') = map ch_buf (h_heap h)" "h_dropped h' = h_dropped h"
    "h_subs h' = filter (\<lambda>(j, r). st_sub (sts ! k) \<noteq> Some j) (h_subs h)"
proof -
  note ok' = hub_sys_okD [OF ok]
  from cancel_sub_ok [OF ok'(1), of "st_sub (sts ! k)"] obtain h' where h':
    "cancel_sub False (st_sub (sts ! k)) h = Some h'" "hub_ok h'" "h_closed h' = h_closed h" "h_next h' = h_next h"
    "h_dropped h' = h_dropped h" "map ch_buf (h_heap h') = map ch_buf (h_heap h)"
    "h_subs h' = filter (\<lambda>(j, r). st_sub (sts ! k) \<noteq> Some j) (h_subs h)" .
  have len: "length (h_heap h') = length (h_heap h)" using h'(6) map_eq_imp_length_eq by blast
  have st: "stream_ok h' (sts ! j)" if "j < length sts" "j \<noteq> k" for j
  proof (rule stream_ok_keep [OF ok'(2) [OF that(1)]])
    fix i assume i: "st_live (sts ! j)" "st_sub (sts ! j) = Some i" "(i, st_ref (sts ! j)) \<in> set (h_subs h)"
    have "st_sub (sts ! k) \<noteq> Some i"
      using ok'(2) [OF k(1)] ok'(3) [OF that(1) k(1) that(2) i(1) k(2)] i(3) k(2) by (auto simp: stream_ok_def)
    with i(3) show "(i, st_ref (sts ! j)) \<in> set (h_subs h')" by (simp add: h'(7))
  qed (auto simp: h' len)
  have "hub_sys_ok (h', sts[k := (sts ! k)\<lparr>st_live := False\<rparr>])"
  proof (rule hub_sys_okI)
    fix j assume "j < length (sts[k := (sts ! k)\<lparr>st_live := False\<rparr>])"
    with st [of j] show "stream_ok h' (sts[k := (sts ! k)\<lparr>st_live := False\<rparr>] ! j)"
      by (cases "j = k") (auto simp: stream_ok_def)
  next
    fix i j
    assume *: "i < length (sts[k := (sts ! k)\<lparr>st_live := False\<rparr>])" "j < length (sts[k := (sts ! k)\<lparr>st_live := False\<rparr>])"
      "i \<noteq> j" "st_live (sts[k := (sts ! k)\<lparr>st_live := False\<rparr>] ! i)" "st_live (sts[k := (sts ! k)\<lparr>st_live := False\<rparr>] ! j)"
    then have "i \<noteq> k" "j \<noteq> k" using k(1) by auto
    with * ok'(3) [of i j] show "st_ref (sts[k := (sts ! k)\<lparr>st_live := False\<rparr>] ! i) \<noteq> st_ref (sts[k := (sts ! k)\<lparr>st_live := False\<rparr>] ! j)"
      by simp
  qed (fact h'(2))
  then show ?thesis using h' by (intro that) (auto simp: stream_return_def)
qed

text \<open>Taking the head of a stream's channel.\<close>

lemma recv_ok:
  assumes "hub_sys_ok (h, sts)" "recv (h_heap h ! r) = (c, Received e)"
  shows "hub_sys_ok (h\<lparr>h_heap := (h_heap h)[r := c]\<rparr>, sts)"
proof -
  note ok' = hub_sys_okD [OF assms(1)]
  from assms(2) have c: "ch_closed c = ch_closed (h_heap h ! r)" "ch_cap c = ch_cap (h_heap h ! r)"
      "Suc (length (ch_buf c)) = length (ch_buf (h_heap h ! r))"
    by (auto simp: recv_def split: list.splits if_splits)
  have "hub_ok (h\<lparr>h_heap := (h_heap h)[r := c]\<rparr>)"
  proof (rule hub_ok_heap [OF ok'(1)])
    fix r' assume r': "r' < length ((h_heap h)[r := c])"
    then have "length (ch_buf (h_heap h ! r')) \<le> bufferSize" using ok'(1) by (auto simp: hub_ok_def)
    with r' c show "ch_closed ((h_heap h)[r := c] ! r') = ch_closed (h_heap h ! r') \<and>
       ch_cap ((h_heap h)[r := c] ! r') = ch_cap (h_heap h ! r') \<and> length (ch_buf ((h_heap h)[r := c] ! r')) \<le> bufferSize"
      by (cases "r' = r") auto
  qed simp
  then show ?thesis using ok'(2,3) by (intro hub_sys_okI) (auto simp: stream_ok_def)
qed

lemma connect_ok:
  assumes "hub_sys_ok (h, sts)" "stream_open flushed h = (h', st)"
  shows "hub_sys_ok (h', sts @ [st])"
proof (cases flushed)
  case False
  with assms have "h' = h" "\<not> st_live st" by (auto simp: stream_open_def)
  with hub_sys_okD [OF assms(1)] show ?thesis
    by (intro hub_sys_okI) (auto simp: nth_append stream_ok_def less_Suc_eq split: if_splits)
next
  case True
  note ok' = hub_sys_okD [OF assms(1)]
  have h': "h_closed h' = h_closed h" "length (h_heap h') = Suc (length (h_heap h))" "h_next h \<le> h_next h'"
      "h_subs h' = (if h_closed h then h_subs h else h_subs h @ [(h_next h, length (h_heap h))])"
      "st_ref st = length (h_heap h)"
    using assms(2) True by (auto simp: stream_open_def Subscribe_def Let_def split: if_splits)
  have ok: "hub_ok h'"
  proof (cases "h_closed h")
    case True
    with ok'(1) assms(2) \<open>flushed\<close> show ?thesis
      by (auto simp: stream_open_def Subscribe_def Let_def hub_ok_def make_chan_def)
  next
    case False
    have "i < h_next h \<and> r < length (h_heap h) \<and> \<not> ch_closed (h_heap h ! r)" if "(i, r) \<in> set (h_subs h)" for i r
      using hub_okD [OF ok'(1) that] by simp
    with ok'(1) assms(2) \<open>flushed\<close> False show ?thesis
      by (fastforce simp: stream_open_def Subscribe_def Let_def hub_ok_def make_chan_def nth_append)
  qed
  have st: "stream_ok h' (sts ! j)" if "j < length sts" for j
    using ok'(2) [OF that] h' by (rule_tac stream_ok_keep) (auto split: if_splits)
  have new: "stream_ok h' st"
    using assms(2) True ok'(1)
    by (auto simp: stream_open_def Subscribe_def Let_def stream_ok_def hub_ok_def split: if_splits)
  have fresh: "st_ref (sts ! j) < st_ref st" if "j < length sts" "st_live (sts ! j)" for j
    using ok'(2) [OF that(1)] that(2) h'(5) by (simp add: stream_ok_def)
  show ?thesis
    by (rule hub_sys_okI [OF ok])
       (use st new fresh ok'(3) in \<open>force simp: nth_append less_Suc_eq split: if_splits\<close>)+
qed


lemma hub_sys_ok_init: "hub_sys_ok (NewHub, [])"
  by (simp add: hub_sys_ok_def hub_ok_def NewHub_def)

lemma hub_sys_ok_idle:
  assumes "hub_sys_ok (h, sts)" "k < length sts"
    and "stream_ok h st = stream_ok h (sts ! k)" "st_live st = st_live (sts ! k)" "st_ref st = st_ref (sts ! k)"
  shows "hub_sys_ok (h, sts[k := st])"
  using hub_sys_okD [OF assms(1)] assms(2-)
  by (intro hub_sys_okI) (auto simp: nth_list_update split: if_splits)

lemma turn_ok:
  assumes ok: "hub_sys_ok (h, sts)" and k: "k < length sts"
  shows "\<exists>h' st. stream_turn t (sts ! k) h = Some (h', st) \<and> hub_sys_ok (h', sts[k := st])"
proof (cases "st_live (sts ! k)")
  case False
  with ok k show ?thesis by (cases t) auto
next
  case live: True
  from stream_return_ok [OF ok k live] obtain h' where
    ret: "stream_return (sts ! k) h = Some (h', (sts ! k)\<lparr>st_live := False\<rparr>)"
         "hub_sys_ok (h', sts[k := (sts ! k)\<lparr>st_live := False\<rparr>])" by blast
  have out: "hub_sys_ok (g, sts[k := (sts ! k)\<lparr>st_out := fs\<rparr>])" if "hub_sys_ok (g, sts)" for g fs
    by (rule hub_sys_ok_idle [OF that k]) (auto simp: stream_ok_def)
  show ?thesis
  proof (cases t)
    case CtxDone
    with live ret show ?thesis by simp
  next
    case (OnTick ok')
    with live ret out [OF ok] show ?thesis by (cases ok') auto
  next
    case (OnEvent ok')
    obtain c a where r: "recv (h_heap h ! st_ref (sts ! k)) = (c, a)" by (cases "recv (h_heap h ! st_ref (sts ! k))")
    show ?thesis
    proof (cases a)
      case (Received e)
      let ?h = "h\<lparr>h_heap := (h_heap h)[st_ref (sts ! k) := c]\<rparr>"
      have ok1: "hub_sys_ok (?h, sts)" using recv_ok [OF ok] r Received by blast
      from stream_return_ok [OF ok1 k live] obtain h2 where
        "stream_return (sts ! k) ?h = Some (h2, (sts ! k)\<lparr>st_live := False\<rparr>)"
        "hub_sys_ok (h2, sts[k := (sts ! k)\<lparr>st_live := False\<rparr>])" by blast
      with live r Received OnEvent out [OF ok1] show ?thesis by (cases ok') auto
    qed (use live r OnEvent ret ok k in auto)
  qed
qed

lemma hub_step_ok:
  assumes "hub_sys_ok s"
  shows "\<exists>s'. hub_step x s = Some s' \<and> hub_sys_ok s'"
proof -
  obtain h sts where s: "s = (h, sts)" by (cases s)
  note ok' = hub_sys_okD [OF assms [unfolded s]]
  show ?thesis
  proof (cases x)
    case (OpConnect f)
    with connect_ok [OF assms [unfolded s], of f] s show ?thesis by (cases "stream_open f h") simp
  next
    case (OpTurn k t)
    with turn_ok [OF assms [unfolded s], of k t] assms s show ?thesis by fastforce
  next
    case (OpPublish e)
    from Publish_hub [OF ok'(1), of e] obtain h' where h': "Publish e h = Some h'" "h_subs h' = h_subs h"
      "h_next h' = h_next h" "h_closed h' = h_closed h" "length (h_heap h') = length (h_heap h)" by blast
    have "stream_ok h' st = stream_ok h st" for st using h'(2-5) by (simp add: stream_ok_def)
    with ok' Publish_ok [OF ok'(1) h'(1)] have "hub_sys_ok (h', sts)" by (intro hub_sys_okI) auto
    with h'(1) OpPublish s show ?thesis by simp
  next
    case OpClose
    from Hub_Close_ok [OF ok'(1)] obtain h' where h': "Hub_Close h = Some h'" "hub_ok h'" "h_subs h' = []" "h_closed h'"
      "h_next h' = h_next h" "map ch_buf (h_heap h') = map ch_buf (h_heap h)" by blast
    have "length (h_heap h') = length (h_heap h)" using h'(6) map_eq_imp_length_eq by blast
    then have "stream_ok h' (sts ! j)" if "j < length sts" for j
      using ok'(2) [OF that] h' by (auto simp: stream_ok_def)
    with ok'(3) h'(2) have "hub_sys_ok (h', sts)" by (intro hub_sys_okI) auto
    with h'(1) OpClose s show ?thesis by simp
  qed
qed

lemma hub_run_ok: "hub_sys_ok s \<Longrightarrow> \<exists>s'. hub_run xs s = Some s' \<and> hub_sys_ok s'"
proof (induction xs arbitrary: s)
  case (Cons x xs)
  from hub_step_ok [OF Cons.prems, of x] obtain s1 where "hub_step x s = Some s1" "hub_sys_ok s1" by blast
  with Cons.IH [of s1] show ?case by auto
qed simp

subsection \<open>What one client sees\<close>

fun published :: "hub_op list \<Rightarrow> sse_event list" where
  "published [] = []"
| "published (OpPublish e # xs) = e # published xs"
| "published (_ # xs) = published xs"

definition seen :: "stream \<Rightarrow> sse_event list" where
  "seen st = concat (map (\<lambda>f. case f of Data e \<Rightarrow> [e] | _ \<Rightarrow> []) (st_out st))"

definition waiting :: "hub \<Rightarrow> stream \<Rightarrow> sse_event list" where
  "waiting h st = (if st_live st then ch_buf (h_heap h ! st_ref st) else [])"

text \<open>The events \<open>P\<close> published since the stream opened, against what the client has and will get.\<close>

definition tracks :: "nat \<Rightarrow> sse_event list \<Rightarrow> nat \<Rightarrow> hub_sys \<Rightarrow> bool" where
  "tracks k P n s \<longleftrightarrow> k < length (snd s) \<and> n \<le> h_dropped (fst s) \<and>
     subseq (seen (snd s ! k) @ waiting (fst s) (snd s ! k)) P \<and>
     (st_live (snd s ! k) \<longrightarrow> \<not> h_closed (fst s) \<longrightarrow> h_dropped (fst s) = n \<longrightarrow>
        seen (snd s ! k) @ waiting (fst s) (snd s ! k) = P)"

lemma seen_snoc [simp]:
  "seen (st\<lparr>st_out := st_out st @ [Data e]\<rparr>) = seen st @ [e]"
  "seen (st\<lparr>st_out := st_out st @ [Keepalive]\<rparr>) = seen st"
  "seen (st\<lparr>st_live := b\<rparr>) = seen st"
  by (simp_all add: seen_def)

lemma waiting_cong:
  assumes "map ch_buf (h_heap h') = map ch_buf (h_heap h)" "stream_ok h st"
  shows "waiting h' st = waiting h st"
proof (cases "st_live st")
  case True
  with assms(2) have "st_ref st < length (h_heap h)" by (simp add: stream_ok_def)
  with assms(1) show ?thesis by (metis True length_map nth_map waiting_def)
qed (simp add: waiting_def)


text \<open>One turn of a stream: other channels keep their contents, and the stream's own view either
  stays or, when it ends, shrinks to what was written.\<close>

lemma turn_view:
  assumes ok: "hub_sys_ok (h, sts)" and k: "k < length sts" and t: "stream_turn t (sts ! k) h = Some (h', st')"
  shows "h_dropped h' = h_dropped h \<and> h_closed h' = h_closed h \<and> length (h_heap h') = length (h_heap h) \<and>
    (\<forall>r < length (h_heap h). (st_live (sts ! k) \<longrightarrow> r \<noteq> st_ref (sts ! k)) \<longrightarrow> ch_buf (h_heap h' ! r) = ch_buf (h_heap h ! r)) \<and>
    subseq (seen st' @ waiting h' st') (seen (sts ! k) @ waiting h (sts ! k)) \<and>
    (st_live st' \<longrightarrow> seen st' @ waiting h' st' = seen (sts ! k) @ waiting h (sts ! k))"
    (is "?P h' st'")
proof (cases "st_live (sts ! k)")
  case False
  with t show ?thesis by (cases t) auto
next
  case live: True
  let ?st = "sts ! k"
  have ref: "st_ref ?st < length (h_heap h)" using hub_sys_okD(2) [OF ok k] live by (simp add: stream_ok_def)
  have closed: "h_closed g' = h_closed g \<and> h_dropped g' = h_dropped g \<and> map ch_buf (h_heap g') = map ch_buf (h_heap g)"
    if "stream_return ?st g = Some (g', s)" "hub_ok g" for g g' s
  proof -
    from cancel_sub_ok [OF that(2), of "st_sub ?st"] obtain g1 where "cancel_sub False (st_sub ?st) g = Some g1"
      "h_closed g1 = h_closed g" "h_dropped g1 = h_dropped g" "map ch_buf (h_heap g1) = map ch_buf (h_heap g)" by blast
    with that(1) show ?thesis by (simp add: stream_return_def)
  qed
  have ends: "?P g' s" if "stream_return ?st g = Some (g', s)" "hub_ok g" "h_closed g = h_closed h" "h_dropped g = h_dropped h"
      "length (h_heap g) = length (h_heap h)"
      "\<forall>r < length (h_heap h). r \<noteq> st_ref ?st \<longrightarrow> ch_buf (h_heap g ! r) = ch_buf (h_heap h ! r)" for g g' s
  proof -
    from closed [OF that(1,2)] have "length (h_heap g') = length (h_heap g)" by (metis length_map)
    moreover from closed [OF that(1,2)] have "ch_buf (h_heap g' ! r) = ch_buf (h_heap g ! r)" if "r < length (h_heap g)" for r
      by (metis calculation nth_map that)
    moreover have "s = ?st\<lparr>st_live := False\<rparr>" using that(1) by (auto simp: stream_return_def)
    ultimately show ?thesis using that closed [OF that(1,2)] live by (auto simp: waiting_def)
  qed
  note hok = hub_sys_okD(1) [OF ok]
  show ?thesis
  proof (cases t)
    case CtxDone
    with t live ends hok show ?thesis by simp
  next
    case (OnTick b)
    with t live ends [OF _ hok] show ?thesis by (cases b) (auto simp: waiting_def)
  next
    case (OnEvent b)
    obtain c a where r: "recv (h_heap h ! st_ref ?st) = (c, a)" by (cases "recv (h_heap h ! st_ref ?st)")
    show ?thesis
    proof (cases a)
      case (Received e)
      let ?h = "h\<lparr>h_heap := (h_heap h)[st_ref ?st := c]\<rparr>"
      have ok1: "hub_ok ?h" using recv_ok [OF ok] r Received hub_sys_okD(1) by blast
      have buf: "ch_buf (h_heap h ! st_ref ?st) = e # ch_buf c"
        using r Received by (auto simp: recv_def split: list.splits if_splits)
      show ?thesis
      proof (cases b)
        case True
        with t live OnEvent r Received buf ref show ?thesis by (auto simp: waiting_def)
      next
        case False
        with t live OnEvent r Received have "stream_return ?st ?h = Some (h', st')" by (simp add: Let_def)
        from ends [OF this ok1] show ?thesis by simp
      qed
    next
      case ChanClosed
      with t live OnEvent r ends [OF _ hok] show ?thesis by simp
    next
      case WouldBlock
      with t live OnEvent r show ?thesis by auto
    qed
  qed
qed

lemma tracks_turn:
  assumes tr: "tracks k P n (h, sts)" and ok: "hub_sys_ok (h, sts)" and j: "j < length sts"
    and t: "stream_turn t (sts ! j) h = Some (h', st')"
  shows "tracks k P n (h', sts[j := st'])"
proof -
  note v = turn_view [OF ok j t]
  show ?thesis
  proof (cases "k = j")
    case True
    have "st_live (sts ! j)" if "st_live st'"
      using that t by (cases t) (auto simp: stream_return_def split: if_splits received.splits prod.splits)
    with True tr v j show ?thesis unfolding tracks_def by (auto intro: subseq_order.order_trans)
  next
    case False
    have k: "k < length sts" using tr by (simp add: tracks_def)
    have "waiting h' (sts ! k) = waiting h (sts ! k)"
      using v hub_sys_okD(2) [OF ok k] hub_sys_okD(3) [OF ok k j False]
      by (auto simp: waiting_def stream_ok_def)
    with False tr v show ?thesis by (simp add: tracks_def)
  qed
qed

lemma tracks_publish:
  assumes tr: "tracks k P n (h, sts)" and ok: "hub_sys_ok (h, sts)" and p: "Publish e h = Some h'"
  shows "tracks k (P @ [e]) n (h', sts)"
proof -
  note hok = hub_sys_okD(1) [OF ok]
  have k: "k < length sts" using tr by (simp add: tracks_def)
  let ?st = "sts ! k"
  from Publish_hub [OF hok, of e] obtain h1 where h1: "Publish e h = Some h1" "h_closed h1 = h_closed h"
    "\<forall>r<length (h_heap h). h_heap h1 ! r = (if r \<in> snd ` set (h_subs h) then push_chan e (h_heap h ! r) else h_heap h ! r)"
    "h_dropped h1 = h_dropped h + length (filter (\<lambda>(i, r). chan_full (h_heap h ! r)) (h_subs h))" by blast
  with p have eq: "h1 = h'" by simp
  show ?thesis
  proof (cases "st_live ?st")
    case False
    with tr h1 eq show ?thesis by (auto simp: tracks_def waiting_def subseq_append)
  next
    case live: True
    from hub_sys_okD(2) [OF ok k] live have ref: "st_ref ?st < length (h_heap h)"
      and sub: "\<not> h_closed h \<Longrightarrow> \<exists>i. (i, st_ref ?st) \<in> set (h_subs h)" by (auto simp: stream_ok_def)
    let ?c = "h_heap h ! st_ref ?st"
    have w: "waiting h' ?st = (if st_ref ?st \<in> snd ` set (h_subs h) \<and> \<not> chan_full ?c then waiting h ?st @ [e] else waiting h ?st)"
      using h1(3) ref live eq by (auto simp: waiting_def push_chan_def chan_full_def)
    have mono: "n \<le> h_dropped h'" using tr h1(4) eq by (simp add: tracks_def)
    have lossy: "h_dropped h < h_dropped h'" if "\<not> h_closed h" "chan_full ?c"
    proof -
      from sub [OF that(1)] obtain i where "(i, st_ref ?st) \<in> set (h_subs h)" by blast
      with that(2) have "filter (\<lambda>(i, r). chan_full (h_heap h ! r)) (h_subs h) \<noteq> []" by (auto simp: filter_empty_conv)
      then show ?thesis using h1(4) eq by simp
    qed
    have "subseq (seen ?st @ waiting h' ?st) (P @ [e])"
    proof (cases "st_ref ?st \<in> snd ` set (h_subs h) \<and> \<not> chan_full ?c")
      case True
      then show ?thesis using w tr by (simp add: tracks_def flip: append_assoc)
    next
      case False
      then show ?thesis using w tr by (auto simp: tracks_def intro: subseq_order.order_trans)
    qed
    moreover have "seen ?st @ waiting h' ?st = P @ [e]" if "\<not> h_closed h'" "h_dropped h' = n"
    proof -
      have nc: "\<not> h_closed h" using that(1) h1(2) eq by simp
      have same: "h_dropped h = n" using that(2) tr h1(4) eq by (simp add: tracks_def)
      have "st_ref ?st \<in> snd ` set (h_subs h)" using sub [OF nc] by force
      moreover have "\<not> chan_full ?c" using lossy [OF nc] same that(2) by auto
      ultimately show ?thesis using w tr live nc same by (simp add: tracks_def)
    qed
    ultimately show ?thesis using k mono by (simp add: tracks_def)
  qed
qed


lemma tracks_step:
  assumes tr: "tracks k P n s" and ok: "hub_sys_ok s" and st: "hub_step x s = Some s'"
  shows "tracks k (P @ published [x]) n s'"
proof -
  obtain h sts where s: "s = (h, sts)" by (cases s)
  show ?thesis
  proof (cases x)
    case (OpConnect f)
    obtain h' st1 where o: "stream_open f h = (h', st1)" by (cases "stream_open f h")
    have k: "k < length sts" using tr s by (simp add: tracks_def)
    have "h_dropped h' = h_dropped h \<and> h_closed h' = h_closed h \<and> (\<forall>r < length (h_heap h). h_heap h' ! r = h_heap h ! r)"
      using o by (auto simp: stream_open_def Subscribe_def Let_def nth_append split: if_splits)
    moreover have "waiting h' (sts ! k) = waiting h (sts ! k)"
      using calculation hub_sys_okD(2) [OF ok [unfolded s] k] by (simp add: waiting_def stream_ok_def)
    ultimately show ?thesis using tr st OpConnect o s k by (auto simp: tracks_def nth_append)
  next
    case (OpTurn j t)
    show ?thesis
    proof (cases "j < length sts")
      case True
      with st OpTurn s obtain h' st' where "stream_turn t (sts ! j) h = Some (h', st')" "s' = (h', sts[j := st'])"
        by auto
      with tracks_turn [OF tr [unfolded s] ok [unfolded s] True] OpTurn show ?thesis by simp
    next
      case False
      with st OpTurn s tr show ?thesis by simp
    qed
  next
    case (OpPublish e)
    with st s obtain h' where "Publish e h = Some h'" "s' = (h', sts)" by auto
    with tracks_publish [OF tr [unfolded s] ok [unfolded s]] OpPublish show ?thesis by simp
  next
    case OpClose
    from Hub_Close_ok [OF hub_sys_okD(1) [OF ok [unfolded s]]] st OpClose s obtain h' where
      h': "s' = (h', sts)" "h_closed h'" "h_dropped h' = h_dropped h" "map ch_buf (h_heap h') = map ch_buf (h_heap h)"
      by auto
    have k: "k < length sts" using tr s by (simp add: tracks_def)
    show ?thesis using tr h' k s OpClose waiting_cong [OF h'(4) hub_sys_okD(2) [OF ok [unfolded s] k]]
      by (simp add: tracks_def)
  qed
qed

lemma published_append: "published (xs @ ys) = published xs @ published ys"
  by (induction xs rule: published.induct) auto

lemma tracks_run:
  assumes "tracks k P n s" "hub_sys_ok s" "hub_run xs s = Some s'"
  shows "tracks k (P @ published xs) n s'"
  using assms
proof (induction xs arbitrary: P s)
  case (Cons x xs)
  from Cons.prems(3) obtain s1 where s1: "hub_step x s = Some s1" "hub_run xs s1 = Some s'"
    by (auto split: option.splits)
  have "hub_sys_ok s1" using hub_step_ok [OF Cons.prems(2), of x] s1(1) by auto
  from Cons.IH [OF tracks_step [OF Cons.prems(1,2) s1(1)] this s1(2)] show ?case
    using published_append [of "[x]" xs] by simp
qed simp

lemma tracks_open:
  assumes "hub_step (OpConnect True) (h, sts) = Some s"
  shows "tracks (length sts) [] (h_dropped h) s"
  using assms
  by (auto simp: tracks_def stream_open_def Subscribe_def Let_def seen_def waiting_def make_chan_def nth_append split: if_splits)

subsection \<open>A hub with one subscriber is a buffer that drops the newest event\<close>

definition the_chan :: "hub \<Rightarrow> sse_event chan" where
  "the_chan h = h_heap h ! snd (hd (h_subs h))"

definition hub_take :: "hub \<Rightarrow> sse_event option \<times> hub" where
  "hub_take h =
     (case recv (the_chan h) of
        (c, Received e) \<Rightarrow> (Some e, h\<lparr>h_heap := (h_heap h)[snd (hd (h_subs h)) := c]\<rparr>)
      | (c, _) \<Rightarrow> (None, h))"

definition one_sub :: "hub \<Rightarrow> bool" where
  "one_sub h \<longleftrightarrow> hub_ok h \<and> (\<exists>i r. h_subs h = [(i, r)])"

lemma one_sub_publish:
  assumes "one_sub h"
  shows "ch_buf (the_chan (the (Publish e h))) =
      (if length (ch_buf (the_chan h)) < bufferSize then ch_buf (the_chan h) @ [e] else ch_buf (the_chan h)) \<and>
    h_dropped (the (Publish e h)) = (if length (ch_buf (the_chan h)) < bufferSize then h_dropped h else Suc (h_dropped h)) \<and>
    one_sub (the (Publish e h))"
proof -
  from assms obtain i r where ok: "hub_ok h" and sub: "h_subs h = [(i, r)]" by (auto simp: one_sub_def)
  from Publish_hub [OF ok, of e] obtain h' where h': "Publish e h = Some h'" "h_subs h' = h_subs h"
    "\<forall>r<length (h_heap h). h_heap h' ! r = (if r \<in> snd ` set (h_subs h) then push_chan e (h_heap h ! r) else h_heap h ! r)"
    "h_dropped h' = h_dropped h + length (filter (\<lambda>(i, r). chan_full (h_heap h ! r)) (h_subs h))" by blast
  have r: "r < length (h_heap h)" "ch_cap (h_heap h ! r) = bufferSize" using hub_okD [OF ok, of i r] sub by auto
  show ?thesis using h' r sub Publish_ok [OF ok h'(1)]
    by (auto simp: the_chan_def one_sub_def push_chan_def chan_full_def)
qed

interpretation hub_buf: drop_newest "\<lambda>e h. the (Publish e h)" hub_take "\<lambda>h. ch_buf (the_chan h)" h_dropped
  "\<lambda>h. bufferSize" one_sub
proof unfold_locales
  fix h assume i: "one_sub h"
  then obtain i r where ok: "hub_ok h" and sub: "h_subs h = [(i, r)]" by (auto simp: one_sub_def)
  have r: "r < length (h_heap h)" using hub_okD(2) [OF ok, of i r] sub by simp
  show "length (ch_buf (the_chan h)) \<le> bufferSize" using ok r sub by (simp add: hub_ok_def the_chan_def)
  show "fst (hub_take h) = (case ch_buf (the_chan h) of [] \<Rightarrow> None | x # xs \<Rightarrow> Some x) \<and>
      ch_buf (the_chan (snd (hub_take h))) = tl (ch_buf (the_chan h)) \<and> h_dropped (snd (hub_take h)) = h_dropped h \<and>
      bufferSize = bufferSize \<and> one_sub (snd (hub_take h))"
  proof (cases "ch_buf (the_chan h)")
    case Nil
    with i show ?thesis by (simp add: hub_take_def recv_def)
  next
    case (Cons e es)
    then have rc: "recv (h_heap h ! r) = ((h_heap h ! r)\<lparr>ch_buf := es\<rparr>, Received e)"
      using sub by (simp add: recv_def the_chan_def)
    have "hub_sys_ok (h, [])" using ok by (simp add: hub_sys_ok_def)
    from recv_ok [OF this rc] have "hub_ok (h\<lparr>h_heap := (h_heap h)[r := (h_heap h ! r)\<lparr>ch_buf := es\<rparr>]\<rparr>)"
      by (simp add: hub_sys_ok_def)
    with Cons rc sub r show ?thesis by (simp add: hub_take_def the_chan_def one_sub_def)
  qed
qed (auto simp: one_sub_publish)

subsection \<open>Properties\<close>

text \<open>C9: whatever the order of connects, disconnects, publishes, failing writes and shutdowns, the
  hub never sends on a closed channel and never closes a channel twice (both crash the process), no
  subscriber holds more than \<open>bufferSize\<close> undelivered events, and once the hub is closed nobody is
  subscribed.\<close>

theorem hub_never_panics:
  "\<exists>h sts. hub_run ops (NewHub, []) = Some (h, sts) \<and>
     (\<forall>c\<in>set (h_heap h). length (ch_buf c) \<le> bufferSize) \<and>
     (\<forall>(i, r)\<in>set (h_subs h). \<not> ch_closed (h_heap h ! r)) \<and> (h_closed h \<longrightarrow> Subscribers h = 0)"
proof -
  from hub_run_ok [OF hub_sys_ok_init, of ops] obtain h sts where
    run: "hub_run ops (NewHub, []) = Some (h, sts)" and ok: "hub_sys_ok (h, sts)" by auto
  from hub_sys_okD(1) [OF ok] have "(\<forall>c\<in>set (h_heap h). length (ch_buf c) \<le> bufferSize)"
    "(\<forall>(i, r)\<in>set (h_subs h). \<not> ch_closed (h_heap h ! r))" "h_closed h \<longrightarrow> Subscribers h = 0"
    by (auto simp: hub_ok_def Subscribers_def)
  with run show ?thesis by blast
qed

theorem hub_never_panics_witness:
  "\<exists>h sts. hub_run [OpConnect True, OpPublish \<lparr>ev_type = ''run'', ev_data = ''{}''\<rparr>, OpTurn 0 (OnEvent True), OpClose,
       OpTurn 0 (OnEvent True), OpClose] (NewHub, []) = Some (h, sts) \<and> Subscribers h = 0"
  using hub_never_panics [of "[OpConnect True, OpPublish \<lparr>ev_type = ''run'', ev_data = ''{}''\<rparr>, OpTurn 0 (OnEvent True), OpClose,
       OpTurn 0 (OnEvent True), OpClose]"]
  by (auto simp: Publish_def stream_open_def Subscribe_def NewHub_def make_chan_def try_send_def bufferSize_def Let_def
       recv_def Hub_Close_def drop_sub_def close_chan_def stream_return_def cancel_sub_def Subscribers_def)

text \<open>A client that connects sees events in the order they were published after it connected and
  never one twice; and as long as it stays connected and the hub has counted no drop since, what it
  has been sent followed by what waits in its buffer is the complete list of those events.\<close>

theorem client_sees_published_events:
  assumes "hub_run before (NewHub, []) = Some (h0, sts0)" "hub_step (OpConnect True) (h0, sts0) = Some s1"
    "hub_run after s1 = Some (h, sts)"
  shows "subseq (seen (sts ! length sts0) @ waiting h (sts ! length sts0)) (published after) \<and>
    (st_live (sts ! length sts0) \<and> \<not> h_closed h \<and> Dropped h = Dropped h0 \<longrightarrow>
       seen (sts ! length sts0) @ waiting h (sts ! length sts0) = published after)"
proof -
  have "hub_sys_ok (h0, sts0)" using hub_run_ok [OF hub_sys_ok_init, of before] assms(1) by auto
  from hub_step_ok [OF this, of "OpConnect True"] assms(2) have "hub_sys_ok s1" by auto
  from tracks_run [OF tracks_open [OF assms(2)] this assms(3)] show ?thesis
    by (auto simp: tracks_def Dropped_def)
qed

theorem client_sees_published_events_witness:
  "let e = (\<lambda>d. \<lparr>ev_type = ''run'', ev_data = d\<rparr>);
       s1 = the (hub_step (OpConnect True) (NewHub, []));
       (h, sts) = the (hub_run [OpPublish (e ''1''), OpTurn 0 (OnTick True), OpTurn 0 (OnEvent True), OpPublish (e ''2'')] s1)
   in map ev_data (seen (sts ! 0) @ waiting h (sts ! 0)) = [''1'', ''2'']"
proof -
  let ?e = "\<lambda>d. \<lparr>ev_type = ''run'', ev_data = d\<rparr>"
  let ?xs = "[OpPublish (?e ''1''), OpTurn 0 (OnTick True), OpTurn 0 (OnEvent True), OpPublish (?e ''2'')]"
  obtain s1 h sts where s: "hub_step (OpConnect True) (NewHub, []) = Some s1" "hub_run ?xs s1 = Some (h, sts)"
      "st_live (sts ! 0)" "\<not> h_closed h" "Dropped h = Dropped NewHub"
    by (simp add: Publish_def stream_open_def Subscribe_def NewHub_def make_chan_def try_send_def bufferSize_def Let_def
       recv_def Dropped_def)
  have "hub_run [] (NewHub, []) = Some (NewHub, [])" by simp
  from client_sees_published_events [OF this s(1,2)] s(3-5)
  have "seen (sts ! 0) @ waiting h (sts ! 0) = published ?xs" by simp
  then have "map ev_data (seen (sts ! 0) @ waiting h (sts ! 0)) = map ev_data (published ?xs)" by (rule arg_cong)
  then show ?thesis unfolding Let_def s(1) option.sel s(2) by simp
qed

end
