(* ===== verification/Notifier_Props.thy ===== *)
theory Notifier_Props
  imports Notifier
begin

text \<open>
  Correctness of the notifier: recoveries follow delivered alerts, the cooldown throttles exactly as a
  greedy filter would, quiet hours silence the worker, and after a successful result the stored alert
  rows are exactly the current breaches.
\<close>

subsection \<open>Delivery\<close>

lemma deliver_sel [simp]:
  "nf_db (deliver n conf m s) = nf_db s" "nf_log (deliver n conf m s) = nf_log s @ [m]"
proof -
  have "nf_db (fold (deliver_one n m) chs s) = nf_db s \<and> nf_log (fold (deliver_one n m) chs s) = nf_log s" for chs s
    by (induction chs arbitrary: s) (auto simp: deliver_one_def)
  then show "nf_db (deliver n conf m s) = nf_db s" "nf_log (deliver n conf m s) = nf_log s @ [m]"
    by (auto simp: deliver_def)
qed

lemma metric_name_inj: "metric_name a = metric_name b \<longleftrightarrow> a = b"
  by (cases a; cases b) auto

lemma BuildMessage_sel [simp]:
  "msg_kind (BuildMessage k tgt tid rid e now err) = k"
  "msg_target_id (BuildMessage k tgt tid rid e now err) = tid"
  "msg_metric (BuildMessage k tgt tid rid e now err) = Some (e_metric e)"
  "msg_at (BuildMessage k tgt tid rid e now err) = now"
  by (auto simp: BuildMessage_def Let_def)

lemma BuildResultMessage_kind [simp]: "msg_kind (BuildResultMessage tgt tid rid res now) = ''result''"
  by (auto simp: BuildResultMessage_def Let_def)

abbreviation row_of :: "notifier \<Rightarrow> int \<Rightarrow> metric \<Rightarrow> notify_state option" where
  "row_of s tid m \<equiv> notification_state_t (nf_db s) (tid, metric_name m)"

text \<open>What \<open>handleEval\<close> does, by cases.\<close>

lemma handleEval_cases:
  fixes s :: notifier and e :: eval and tgt :: target
  defines "m \<equiv> e_metric e" and "tid \<equiv> t_id tgt"
  obtains (same) "nf_db (handleEval n env conf tgt res now quiet cd e s) = nf_db s"
      "nf_log (handleEval n env conf tgt res now quiet cd e s) = nf_log s"
  | (alert) "e_breached e" "\<not> quiet" "row_of s tid m = None \<or> cooldownElapsed (ns_last_fired_at (the (row_of s tid m))) now cd"
      "nf_db (handleEval n env conf tgt res now quiet cd e s) = (nf_db s)\<lparr>notification_state_t :=
         (notification_state_t (nf_db s))((tid, metric_name m) \<mapsto> \<lparr>ns_last_fired_at = Format_frac 3 now, ns_firing = True\<rparr>)\<rparr>"
      "nf_log (handleEval n env conf tgt res now quiet cd e s) =
         nf_log s @ [BuildMessage ''alert'' (t_name tgt) tid (res_id res) e now (res_error res)]"
  | (hushed) "e_breached e" "quiet" "row_of s tid m = None"
      "nf_db (handleEval n env conf tgt res now quiet cd e s) = (nf_db s)\<lparr>notification_state_t :=
         (notification_state_t (nf_db s))((tid, metric_name m) \<mapsto> \<lparr>ns_last_fired_at = '''', ns_firing = True\<rparr>)\<rparr>"
      "nf_log (handleEval n env conf tgt res now quiet cd e s) = nf_log s"
  | (recovered) st where "\<not> e_breached e" "row_of s tid m = Some st" "ns_firing st"
      "nf_db (handleEval n env conf tgt res now quiet cd e s) = (nf_db s)\<lparr>notification_state_t :=
         (notification_state_t (nf_db s))((tid, metric_name m) := None)\<rparr>"
      "nf_log (handleEval n env conf tgt res now quiet cd e s) = nf_log s @
         (if n_recovery conf \<and> ns_last_fired_at st \<noteq> '''' \<and> \<not> quiet
          then [BuildMessage ''recovery'' (t_name tgt) tid (res_id res) e now ''''] else [])"
proof (cases "GetNotifyState (ne_get env (metric_name m)) (nf_db s) tid (metric_name m)")
  case (Inl err)
  then show ?thesis by (intro same) (simp_all add: handleEval_def m_def tid_def)
next
  case (Inr row)
  then have row: "row = row_of s tid m" by (auto simp: GetNotifyState_def split: option.splits)
  let ?h = "handleEval n env conf tgt res now quiet cd e s"
  show ?thesis
  proof (cases "e_breached e")
    case br: True
    show ?thesis
    proof (cases "row = None \<or> cooldownElapsed (ns_last_fired_at (the row)) now cd")
      case False
      with Inr br show ?thesis by (intro same) (auto simp: handleEval_def m_def tid_def Let_def)
    next
      case due: True
      let ?msg = "BuildMessage ''alert'' (t_name tgt) tid (res_id res) e now (res_error res)"
      have h: "?h = notify_fire n env conf tid (metric_name m) now quiet ?msg (row \<noteq> None) s"
        using Inr br due by (simp add: handleEval_def m_def tid_def)
      show ?thesis
      proof (cases quiet)
        case False
        then show ?thesis using h br due row
          by (cases "\<exists>d e. SetNotifyState (ne_set env (metric_name m)) (nf_db s) tid (metric_name m)
                \<lparr>ns_last_fired_at = Format_frac 3 now, ns_firing = True\<rparr> = (d, Inl e)")
             (auto simp: notify_fire_def SetNotifyState_def split: option.splits if_splits intro: same alert)
      next
        case True
        then show ?thesis using h br row
          by (cases "row = None")
             (auto simp: notify_fire_def SetNotifyState_def Let_def split: option.splits if_splits intro: same hushed)
      qed
    qed
  next
    case ok: False
    show ?thesis
    proof (cases row)
      case None
      with Inr ok show ?thesis by (intro same) (simp_all add: handleEval_def m_def tid_def)
    next
      case (Some st)
      show ?thesis
      proof (cases "ns_firing st")
        case False
        with Inr ok Some show ?thesis by (intro same) (simp_all add: handleEval_def m_def tid_def)
      next
        case True
        let ?msg = "BuildMessage ''recovery'' (t_name tgt) tid (res_id res) e now ''''"
        have h: "?h = notify_recover n env conf tid (metric_name m) quiet ?msg (n_recovery conf \<and> ns_last_fired_at st \<noteq> '''') s"
          using Inr ok Some True by (simp add: handleEval_def m_def tid_def)
        show ?thesis
        proof (cases "ne_clear env (metric_name m)")
          case None
          with h ok row Some True show ?thesis
            by (intro recovered [of st]) (auto simp: notify_recover_def ClearNotifyState_def Let_def)
        next
          case (Some err)
          with h show ?thesis by (intro same) (simp_all add: notify_recover_def ClearNotifyState_def)
        qed
      qed
    qed
  qed
qed

lemma clear_stale_cases:
  fixes s :: notifier
  obtains (same) "nf_db (clear_stale_one env tid evals m s) = nf_db s" "nf_log (clear_stale_one env tid evals m s) = nf_log s"
  | (cleared) "m \<notin> e_metric ` set evals"
      "nf_db (clear_stale_one env tid evals m s) = (nf_db s)\<lparr>notification_state_t :=
         (notification_state_t (nf_db s))((tid, metric_name m) := None)\<rparr>"
      "nf_log (clear_stale_one env tid evals m s) = nf_log s"
proof (cases "m \<in> e_metric ` set evals \<or> ne_clear env (metric_name m) \<noteq> None \<or> ne_get env (metric_name m) \<noteq> None \<or> row_of s tid m = None")
  case True
  then show ?thesis
    by (intro same) (auto simp: clear_stale_one_def Let_def GetNotifyState_def ClearNotifyState_def split: option.splits)
next
  case False
  then show ?thesis
    by (intro cleared) (auto simp: clear_stale_one_def Let_def GetNotifyState_def ClearNotifyState_def)
qed


subsection \<open>A recovery follows a delivered alert\<close>

definition is_msg :: "string \<Rightarrow> int \<Rightarrow> metric \<Rightarrow> message \<Rightarrow> bool" where
  "is_msg k tid m x \<longleftrightarrow> msg_kind x = k \<and> msg_target_id x = tid \<and> msg_metric x = Some m"

text \<open>Scanning a log: whether an alert is standing, and whether every recovery met a standing one.\<close>

fun standing :: "int \<Rightarrow> metric \<Rightarrow> bool \<Rightarrow> message list \<Rightarrow> bool" where
  "standing tid m b [] = b"
| "standing tid m b (x # xs) =
     standing tid m (if is_msg ''alert'' tid m x then True else if is_msg ''recovery'' tid m x then False else b) xs"

fun recoveries_ok :: "int \<Rightarrow> metric \<Rightarrow> bool \<Rightarrow> message list \<Rightarrow> bool" where
  "recoveries_ok tid m b [] = True"
| "recoveries_ok tid m b (x # xs) =
     ((is_msg ''recovery'' tid m x \<longrightarrow> b) \<and>
      recoveries_ok tid m (if is_msg ''alert'' tid m x then True else if is_msg ''recovery'' tid m x then False else b) xs)"

lemma standing_append [simp]: "standing tid m b (xs @ ys) = standing tid m (standing tid m b xs) ys"
  by (induction xs arbitrary: b) auto

lemma recoveries_ok_append [simp]:
  "recoveries_ok tid m b (xs @ ys) \<longleftrightarrow> recoveries_ok tid m b xs \<and> recoveries_ok tid m (standing tid m b xs) ys"
  by (induction xs arbitrary: b) auto

lemma standing_iff:
  "standing tid m False xs \<longleftrightarrow> (\<exists>j < length xs. is_msg ''alert'' tid m (xs ! j) \<and>
     (\<forall>k. j < k \<and> k < length xs \<longrightarrow> \<not> is_msg ''recovery'' tid m (xs ! k)))"
proof (induction xs rule: rev_induct)
  case (snoc x xs)
  have ex: "(\<exists>j < length (xs @ [x]). P j) \<longleftrightarrow> (\<exists>j < length xs. P j) \<or> P (length xs)" for P
    by (auto simp: less_Suc_eq)
  have disj: "is_msg ''alert'' tid m x \<Longrightarrow> \<not> is_msg ''recovery'' tid m x" by (auto simp: is_msg_def)
  show ?case
  proof (cases "is_msg ''alert'' tid m x")
    case True
    then have "\<exists>j < length (xs @ [x]). is_msg ''alert'' tid m ((xs @ [x]) ! j) \<and>
        (\<forall>k. j < k \<and> k < length (xs @ [x]) \<longrightarrow> \<not> is_msg ''recovery'' tid m ((xs @ [x]) ! k))"
      by (intro exI [of _ "length xs"]) auto
    with True show ?thesis by simp
  next
    case False
    have "(\<exists>j < length (xs @ [x]). is_msg ''alert'' tid m ((xs @ [x]) ! j) \<and>
        (\<forall>k. j < k \<and> k < length (xs @ [x]) \<longrightarrow> \<not> is_msg ''recovery'' tid m ((xs @ [x]) ! k))) \<longleftrightarrow>
      \<not> is_msg ''recovery'' tid m x \<and> (\<exists>j < length xs. is_msg ''alert'' tid m (xs ! j) \<and>
        (\<forall>k. j < k \<and> k < length xs \<longrightarrow> \<not> is_msg ''recovery'' tid m (xs ! k)))"
    proof -
      have all: "(\<forall>k. j < k \<and> k < length (xs @ [x]) \<longrightarrow> \<not> is_msg ''recovery'' tid m ((xs @ [x]) ! k)) \<longleftrightarrow>
          \<not> is_msg ''recovery'' tid m x \<and> (\<forall>k. j < k \<and> k < length xs \<longrightarrow> \<not> is_msg ''recovery'' tid m (xs ! k))"
        if "j < length xs" for j
      proof -
        have "(\<forall>k. j < k \<and> k < Suc (length xs) \<longrightarrow> Q k) \<longleftrightarrow> Q (length xs) \<and> (\<forall>k. j < k \<and> k < length xs \<longrightarrow> Q k)" for Q
          using that by (metis less_Suc_eq)
        from this [of "\<lambda>k. \<not> is_msg ''recovery'' tid m ((xs @ [x]) ! k)"] show ?thesis
          by (simp add: nth_append)
      qed
      have "\<not> is_msg ''alert'' tid m ((xs @ [x]) ! length xs)" using False by simp
      moreover have "is_msg ''alert'' tid m ((xs @ [x]) ! j) \<longleftrightarrow> is_msg ''alert'' tid m (xs ! j)" if "j < length xs" for j
        using that by (simp add: nth_append)
      ultimately show ?thesis unfolding ex using all by blast
    qed
    with False snoc.IH show ?thesis by simp
  qed
qed simp

lemma recoveries_ok_nth:
  assumes "recoveries_ok tid m False xs" "i < length xs" "is_msg ''recovery'' tid m (xs ! i)"
  shows "\<exists>j < i. is_msg ''alert'' tid m (xs ! j) \<and> (\<forall>k. j < k \<and> k < i \<longrightarrow> \<not> is_msg ''recovery'' tid m (xs ! k))"
proof -
  have "xs = take i xs @ xs ! i # drop (Suc i) xs" using assms(2) by (simp add: id_take_nth_drop)
  with assms(1,3) have "standing tid m False (take i xs)"
    by (metis recoveries_ok.simps(2) recoveries_ok_append)
  then show ?thesis unfolding standing_iff using assms(2) by auto
qed

definition paired :: "notifier \<Rightarrow> bool" where
  "paired s \<longleftrightarrow> (\<forall>tid m. recoveries_ok tid m False (nf_log s) \<and>
     (\<forall>st. row_of s tid m = Some st \<longrightarrow> ns_last_fired_at st \<noteq> '''' \<longrightarrow> standing tid m False (nf_log s)))"

lemma paired_step:
  assumes p: "paired s"
    and log: "nf_log s' = nf_log s @ new"
    and ok: "\<And>t k. recoveries_ok t k (standing t k False (nf_log s)) new"
    and rows: "\<And>t k st. row_of s' t k = Some st \<Longrightarrow> ns_last_fired_at st \<noteq> '''' \<Longrightarrow>
       standing t k (standing t k False (nf_log s)) new"
  shows "paired s'"
  using p ok rows by (auto simp: paired_def log split: option.splits)

lemma paired_handleEval:
  assumes "paired s"
  shows "paired (handleEval n env conf tgt res now quiet cd e s)" (is "paired ?s")
proof (cases rule: handleEval_cases [where s = s and e = e and tgt = tgt and n = n and env = env and conf = conf and res = res
      and now = now and quiet = quiet and cd = cd])
  case same
  with assms show ?thesis by (simp add: paired_def)
next
  case alert
  let ?m = "BuildMessage ''alert'' (t_name tgt) (t_id tgt) (res_id res) e now (res_error res)"
  have mine: "is_msg ''alert'' t k ?m \<longleftrightarrow> t = t_id tgt \<and> k = e_metric e" "\<not> is_msg ''recovery'' t k ?m" for t k
    by (auto simp: is_msg_def)
  show ?thesis
  proof (rule paired_step [OF assms alert(5)])
    fix t k st assume "row_of ?s t k = Some st" "ns_last_fired_at st \<noteq> ''''"
    with assms show "standing t k (standing t k False (nf_log s)) [?m]"
      by (auto simp: alert(4) mine paired_def metric_name_inj split: if_splits option.splits)
  qed (simp add: mine)
next
  case hushed
  show ?thesis
  proof (rule paired_step [OF assms])
    show "nf_log ?s = nf_log s @ []" using hushed(5) by simp
    fix t k st assume "row_of ?s t k = Some st" "ns_last_fired_at st \<noteq> ''''"
    with assms show "standing t k (standing t k False (nf_log s)) []"
      unfolding hushed(4) by (auto simp: paired_def split: if_splits)
  qed simp
next
  case (recovered st)
  let ?m = "BuildMessage ''recovery'' (t_name tgt) (t_id tgt) (res_id res) e now ''''"
  have mine: "is_msg ''recovery'' t k ?m \<longleftrightarrow> t = t_id tgt \<and> k = e_metric e" "\<not> is_msg ''alert'' t k ?m" for t k
    by (auto simp: is_msg_def)
  have std: "standing (t_id tgt) (e_metric e) False (nf_log s)" if "ns_last_fired_at st \<noteq> ''''"
    using assms recovered(2) that by (auto simp: paired_def split: option.splits)
  show ?thesis
  proof (rule paired_step [OF assms recovered(5)])
    fix t k st' assume "row_of ?s t k = Some st'" "ns_last_fired_at st' \<noteq> ''''"
    with assms show "standing t k (standing t k False (nf_log s))
        (if n_recovery conf \<and> ns_last_fired_at st \<noteq> '''' \<and> \<not> quiet then [?m] else [])"
      by (auto simp: recovered(4) mine paired_def metric_name_inj split: if_splits option.splits)
  qed (use std in \<open>auto simp: mine\<close>)
qed

lemma paired_clear: "paired s \<Longrightarrow> paired (clear_stale_one env tid evals m s)"
  by (cases rule: clear_stale_cases [of env tid evals m s]) (auto simp: paired_def split: option.splits)

lemma paired_fold: "(\<And>x s. P s \<Longrightarrow> P (f x s)) \<Longrightarrow> P s \<Longrightarrow> P (fold f xs s)"
  by (induction xs arbitrary: s) auto

lemma paired_result: "paired s \<Longrightarrow> paired (deliver n conf (BuildResultMessage tgt tid rid res now) s)"
  by (rule paired_step [of s _ "[BuildResultMessage tgt tid rid res now]"]) (auto simp: is_msg_def paired_def split: option.splits)

lemma paired_suppressed: "paired (s\<lparr>nf_suppressed := x\<rparr>) = paired s"
  by (simp add: paired_def)

lemma paired_process:
  assumes "paired s"
  shows "paired (process n env conf loc now res s)"
proof -
  have f: "paired (fold (handleEval n env conf tgt res now quiet cd) evals s)" for tgt quiet cd evals
    by (rule paired_fold [where P = paired]) (rule paired_handleEval, assumption, rule assms)
  have c: "paired (clearStaleState env tid evals s')" if "paired s'" for tid evals s'
    unfolding clearStaleState_def
    by (rule paired_fold [where P = paired]) (rule paired_clear, assumption, rule that)
  show ?thesis using assms f c
    by (auto simp: process_def Let_def paired_suppressed intro!: paired_result split: option.splits sum.splits)
qed

text \<open>One worker input: the environment, the settings snapshot and the result.\<close>

record notify_input =
  ni_net :: net
  ni_env :: notify_env
  ni_conf :: notifications
  ni_loc :: location
  ni_now :: time
  ni_result :: result

definition process_input :: "notify_input \<Rightarrow> notifier \<Rightarrow> notifier" where
  "process_input x s = process (ni_net x) (ni_env x) (ni_conf x) (ni_loc x) (ni_now x) (ni_result x) s"

definition fresh_notifier :: "db \<Rightarrow> notifier" where
  "fresh_notifier d = \<lparr>nf_db = d, nf_sent = 0, nf_failed = 0, nf_suppressed = 0, nf_log = []\<rparr>"



subsection \<open>The cooldown is a greedy throttle\<close>

text \<open>The specification: of a series of breaches, the first alerts, and a later one does when the cooldown
  has passed since the last that did (its time cut to milliseconds).\<close>

fun greedy :: "duration \<Rightarrow> time option \<Rightarrow> time list \<Rightarrow> time list" where
  "greedy cd lst [] = []"
| "greedy cd lst (t # ts) =
     (if (case lst of None \<Rightarrow> True | Some u \<Rightarrow> cd \<le> t - (u - u mod 1000000))
      then t # greedy cd (Some t) ts else greedy cd lst ts)"

lemma cooldownElapsed_iff:
  assumes "year4 u" "0 \<le> cd" "cd \<le> maxDuration"
  shows "cooldownElapsed (Format_frac 3 u) now cd \<longleftrightarrow> cd \<le> now - (u - u mod 1000000)"
proof -
  have "Parse_frac 3 (Format_frac 3 u) = Some (u - u mod 1000000)"
    using Parse_Format [OF assms(1), of 3] by (simp add: frac_unit_def)
  then show ?thesis using assms(2,3)
    by (auto simp: cooldownElapsed_def time_Sub_def minDuration_def)
qed

definition store_up :: "notify_env \<Rightarrow> bool" where
  "store_up env \<longleftrightarrow> ne_target env = None \<and> (\<forall>m. ne_get env m = None \<and> ne_set env m = None \<and> ne_clear env m = None)"

definition has_target :: "db \<Rightarrow> int \<Rightarrow> bool" where
  "has_target d tid \<longleftrightarrow> (\<exists>t\<in>set (rows (targets_t d)). t_id t = tid)"

lemma handleEval_breach:
  assumes "store_up env" "has_target (nf_db s) (t_id tgt)" "e_breached e"
  shows "nf_log (handleEval n env conf tgt res now False cd e s) = nf_log s @
      (if row_of s (t_id tgt) (e_metric e) = None \<or> cooldownElapsed (ns_last_fired_at (the (row_of s (t_id tgt) (e_metric e)))) now cd
       then [BuildMessage ''alert'' (t_name tgt) (t_id tgt) (res_id res) e now (res_error res)] else [])"
    "row_of (handleEval n env conf tgt res now False cd e s) (t_id tgt) (e_metric e) =
      (if row_of s (t_id tgt) (e_metric e) = None \<or> cooldownElapsed (ns_last_fired_at (the (row_of s (t_id tgt) (e_metric e)))) now cd
       then Some \<lparr>ns_last_fired_at = Format_frac 3 now, ns_firing = True\<rparr> else row_of s (t_id tgt) (e_metric e))"
    "targets_t (nf_db (handleEval n env conf tgt res now False cd e s)) = targets_t (nf_db s)"
  using assms
  by (auto simp: handleEval_def Let_def GetNotifyState_def notify_fire_def SetNotifyState_def store_up_def has_target_def)

lemma cooldown_greedy:
  assumes "store_up env" "has_target (nf_db s) (t_id tgt)" "e_breached e" "\<forall>t\<in>set ts. year4 t" "0 \<le> cd" "cd \<le> maxDuration"
    and "row_of s (t_id tgt) (e_metric e) = map_option (\<lambda>u. \<lparr>ns_last_fired_at = Format_frac 3 u, ns_firing = True\<rparr>) lst"
    and "\<forall>u. lst = Some u \<longrightarrow> year4 u"
  shows "\<exists>new. nf_log (fold (\<lambda>now. handleEval n env conf tgt res now False cd e) ts s) = nf_log s @ new \<and>
    map msg_at new = greedy cd lst ts"
  using assms
proof (induction ts arbitrary: s lst)
  case (Cons t ts)
  let ?s = "handleEval n env conf tgt res t False cd e s"
  note h = handleEval_breach [OF Cons.prems(1-3), of n conf res t cd]
  have due: "row_of s (t_id tgt) (e_metric e) = None \<or> cooldownElapsed (ns_last_fired_at (the (row_of s (t_id tgt) (e_metric e)))) t cd
     \<longleftrightarrow> (case lst of None \<Rightarrow> True | Some u \<Rightarrow> cd \<le> t - (u - u mod 1000000))"
    using Cons.prems(5-8) cooldownElapsed_iff by (cases lst) auto
  have tgt: "has_target (nf_db ?s) (t_id tgt)" using h(3) Cons.prems(2) by (simp add: has_target_def)
  show ?case
  proof (cases "case lst of None \<Rightarrow> True | Some u \<Rightarrow> cd \<le> t - (u - u mod 1000000)")
    case True
    have r: "row_of ?s (t_id tgt) (e_metric e) = map_option (\<lambda>u. \<lparr>ns_last_fired_at = Format_frac 3 u, ns_firing = True\<rparr>) (Some t)"
      using h(2) due True by simp
    have y: "\<forall>x\<in>set ts. year4 x" "\<forall>u. Some t = Some u \<longrightarrow> year4 u" using Cons.prems(4) by auto
    from Cons.IH [OF Cons.prems(1) tgt Cons.prems(3) y(1) Cons.prems(5,6) r y(2)] obtain new where
      "nf_log (fold (\<lambda>now. handleEval n env conf tgt res now False cd e) ts ?s) = nf_log ?s @ new" "map msg_at new = greedy cd (Some t) ts"
      by blast
    with h(1) due True show ?thesis
      by (intro exI [of _ "BuildMessage ''alert'' (t_name tgt) (t_id tgt) (res_id res) e t (res_error res) # new"]) simp
  next
    case False
    have r: "row_of ?s (t_id tgt) (e_metric e) = map_option (\<lambda>u. \<lparr>ns_last_fired_at = Format_frac 3 u, ns_firing = True\<rparr>) lst"
      using h(2) due False Cons.prems(7) by simp
    have y: "\<forall>x\<in>set ts. year4 x" using Cons.prems(4) by auto
    from Cons.IH [OF Cons.prems(1) tgt Cons.prems(3) y Cons.prems(5,6) r Cons.prems(8)] h(1) due False show ?thesis by simp
  qed
qed simp

text \<open>C13: a metric that stays in breach, outside quiet hours and with a working store, alerts at exactly the times
  a greedy throttle picks: at the first breach, and then at each breach at least the cooldown after
  the last alert (stored to the millisecond). The alert state survives in its text form, so this also
  holds across restarts.\<close>

theorem cooldown_throttles_alerts:
  assumes "store_up env" "has_target (nf_db s) (t_id tgt)" "e_breached e" "row_of s (t_id tgt) (e_metric e) = None"
    and "\<forall>t\<in>set ts. year4 t" "0 \<le> cd" "cd \<le> maxDuration"
  shows "map msg_at (drop (length (nf_log s)) (nf_log (fold (\<lambda>now. handleEval n env conf tgt res now False cd e) ts s))) =
    greedy cd None ts"
  using cooldown_greedy [of env s tgt e ts cd None n conf res] assms by fastforce

subsection \<open>Quiet hours\<close>

lemma mod_1440: "0 \<le> a \<Longrightarrow> a < 1440 \<Longrightarrow> 0 \<le> b \<Longrightarrow> b < 1440 \<Longrightarrow> (a - b) mod 1440 = (if b \<le> a then a - b else a - b + 1440 :: int)"
proof -
  assume *: "0 \<le> a" "a < 1440" "0 \<le> b" "b < 1440"
  show ?thesis
  proof (cases "b \<le> a")
    case True
    with * show ?thesis by (simp add: mod_pos_pos_trivial)
  next
    case False
    have "(a - b) mod 1440 = (a - b + 1440) mod 1440" by simp
    also have "\<dots> = a - b + 1440" using * False by (intro mod_pos_pos_trivial) auto
    finally show ?thesis using False by simp
  qed
qed

lemma getnum_nonneg: "getnum f s = Some (n, r) \<Longrightarrow> 0 \<le> n"
  by (induction f s rule: getnum.induct) (auto simp: is_digit_def digit_val_def split: if_splits)

lemma Parse_HHMM_range: "Parse_HHMM s = Some n \<Longrightarrow> 0 \<le> n \<and> n < 1440"
  by (auto simp: Parse_HHMM_def bind_eq_Some_conv dest!: getnum_nonneg split: if_splits prod.splits)

lemma quietNow_window:
  assumes "Parse_HHMM st = Some a" "Parse_HHMM en = Some b"
  shows "quietNow now st en loc \<longleftrightarrow>
    (sec_of_day (now + loc now * ns_per_sec) div 60 - a) mod 1440 < (b - a) mod 1440"
proof -
  let ?m = "sec_of_day (now + loc now * ns_per_sec) div 60"
  have m: "0 \<le> ?m" "?m < 1440" using sec_of_day_range [of "now + loc now * ns_per_sec"] by auto
  note r = Parse_HHMM_range [OF assms(1)] Parse_HHMM_range [OF assms(2)]
  have ne: "st \<noteq> []" "en \<noteq> []" using assms by (auto simp: Parse_HHMM_def)
  have "(?m - a) mod 1440 < (b - a) mod 1440 \<longleftrightarrow> (if b < a then a \<le> ?m \<or> ?m < b else a \<le> ?m \<and> ?m < b)"
    using r m mod_1440 [of ?m a] mod_1440 [of b a] by auto
  then show ?thesis using assms ne by (auto simp: quietNow_def Let_def)
qed

lemma handleEval_quiet:
  "nf_log (handleEval n env conf tgt res now True cd e s) = nf_log s \<and>
   nf_sent (handleEval n env conf tgt res now True cd e s) = nf_sent s \<and>
   nf_failed (handleEval n env conf tgt res now True cd e s) = nf_failed s"
  by (auto simp: handleEval_def notify_fire_def notify_recover_def Let_def split: sum.splits option.splits prod.splits)

lemma clear_stale_counts:
  "nf_log (clear_stale_one env tid evals m s) = nf_log s \<and> nf_sent (clear_stale_one env tid evals m s) = nf_sent s \<and>
   nf_failed (clear_stale_one env tid evals m s) = nf_failed s"
  by (auto simp: clear_stale_one_def Let_def split: sum.splits option.splits)

lemma fold_keeps: "(\<And>x s. g (f x s) = g s) \<Longrightarrow> g (fold f xs s) = g s"
  by (induction xs arbitrary: s) auto

lemma process_quiet:
  assumes "quietNow now (n_quiet_start conf) (n_quiet_end conf) loc"
  shows "nf_log (process n env conf loc now res s) = nf_log s \<and> nf_sent (process n env conf loc now res s) = nf_sent s \<and>
    nf_failed (process n env conf loc now res s) = nf_failed s"
proof -
  let ?g = "\<lambda>s. (nf_log s, nf_sent s, nf_failed s)"
  have h: "?g (fold (handleEval n env conf tgt res now True cd) evals s) = ?g s" for tgt cd evals s
    by (rule fold_keeps [where g = ?g]) (simp add: handleEval_quiet)
  have c: "?g (clearStaleState env tid evals s) = ?g s" for tid evals s
    unfolding clearStaleState_def by (rule fold_keeps [where g = ?g]) (simp add: clear_stale_counts)
  have "?g (process n env conf loc now res s) = ?g s"
    using h c assms by (simp add: process_def Let_def split: option.splits sum.splits prod.splits)
  then show ?thesis by simp
qed

text \<open>With quiet hours from \<open>a\<close> to \<open>b\<close> (minutes of the day), a result processed at a local minute inside
  the window, also one that wraps around midnight, sends nothing at all: no message reaches any channel;
  equal ends mean there is no window.\<close>

theorem quiet_hours_are_silent:
  assumes "Parse_HHMM (n_quiet_start conf) = Some a" "Parse_HHMM (n_quiet_end conf) = Some b"
    and "(sec_of_day (now + loc now * ns_per_sec) div 60 - a) mod 1440 < (b - a) mod 1440"
  shows "a \<noteq> b \<and> nf_log (process n env conf loc now res s) = nf_log s \<and>
    nf_sent (process n env conf loc now res s) = nf_sent s \<and> nf_failed (process n env conf loc now res s) = nf_failed s"
proof -
  have "a \<noteq> b" using assms(3) pos_mod_sign [of 1440 "sec_of_day (now + loc now * ns_per_sec) div 60 - a"] by auto
  moreover have "quietNow now (n_quiet_start conf) (n_quiet_end conf) loc"
    using quietNow_window [OF assms(1,2)] assms(3) by blast
  ultimately show ?thesis using process_quiet by blast
qed


subsection \<open>After a successful result the stored rows are the current breaches\<close>

lemma Evaluate_distinct: "distinct (map e_metric (Evaluate res th))"
proof -
  have below: "map e_metric (case x of None \<Rightarrow> [] | Some y \<Rightarrow> if c then [] else [below_eval m v y]) =
      (if x \<noteq> None \<and> \<not> c then [m] else [])" for x m v c
    by (auto simp: below_eval_def split: option.splits)
  have above: "map e_metric (case x of None \<Rightarrow> [] | Some y \<Rightarrow> [above_eval m v y u]) = (if x \<noteq> None then [m] else [])" for x m v u
    by (auto simp: above_eval_def split: option.splits)
  show ?thesis
    by (simp add: Evaluate_def Let_def below above failure_eval_def)
qed

definition rows_firing :: "int \<Rightarrow> notifier \<Rightarrow> bool" where
  "rows_firing tid s \<longleftrightarrow> (\<forall>m st. row_of s tid m = Some st \<longrightarrow> ns_firing st)"

text \<open>One evaluation with a working store: its metric's row reflects the breach, the others stay.\<close>

lemma handleEval_row:
  fixes n :: net and conf :: notifications and res :: result and now :: time and quiet :: bool and cd :: duration and e :: eval
  assumes "store_up env" "has_target (nf_db s) (t_id tgt)" "rows_firing (t_id tgt) s"
  defines "s' \<equiv> handleEval n env conf tgt res now quiet cd e s"
  shows "row_of s' (t_id tgt) (e_metric e) \<noteq> None \<longleftrightarrow> e_breached e"
    "m \<noteq> e_metric e \<Longrightarrow> row_of s' (t_id tgt) m = row_of s (t_id tgt) m"
    "has_target (nf_db s') (t_id tgt)" "rows_firing (t_id tgt) s'"
proof -
  let ?m = "e_metric e"
  have base: "row_of s' (t_id tgt) ?m =
      (if \<not> e_breached e then None
       else if row_of s (t_id tgt) ?m = None then Some \<lparr>ns_last_fired_at = (if quiet then '''' else Format_frac 3 now), ns_firing = True\<rparr>
       else if \<not> quiet \<and> cooldownElapsed (ns_last_fired_at (the (row_of s (t_id tgt) ?m))) now cd
       then Some \<lparr>ns_last_fired_at = Format_frac 3 now, ns_firing = True\<rparr> else row_of s (t_id tgt) ?m)"
    using assms(1-3) unfolding s'_def
    by (auto simp: handleEval_def Let_def GetNotifyState_def notify_fire_def notify_recover_def SetNotifyState_def
        ClearNotifyState_def store_up_def has_target_def rows_firing_def split: option.splits)
  have other: "row_of s' (t_id tgt) k = row_of s (t_id tgt) k" if "k \<noteq> ?m" for k
    using that unfolding s'_def
    by (cases rule: handleEval_cases [where s = s and e = e and tgt = tgt and n = n and env = env and conf = conf and res = res
          and now = now and quiet = quiet and cd = cd]) (auto simp: metric_name_inj)
  have tg: "targets_t (nf_db s') = targets_t (nf_db s)"
    unfolding s'_def
    by (cases rule: handleEval_cases [where s = s and e = e and tgt = tgt and n = n and env = env and conf = conf and res = res
          and now = now and quiet = quiet and cd = cd]) auto
  show "row_of s' (t_id tgt) ?m \<noteq> None \<longleftrightarrow> e_breached e" using base by (auto split: if_splits)
  show "m \<noteq> ?m \<Longrightarrow> row_of s' (t_id tgt) m = row_of s (t_id tgt) m" by (rule other)
  show "has_target (nf_db s') (t_id tgt)" using tg assms(2) by (simp add: has_target_def)
  show "rows_firing (t_id tgt) s'"
    unfolding rows_firing_def
  proof (intro allI impI)
    fix k st assume k: "row_of s' (t_id tgt) k = Some st"
    show "ns_firing st"
    proof (cases "k = ?m")
      case True
      with k base assms(3) show ?thesis by (auto simp: rows_firing_def split: if_splits)
    next
      case False
      with k other assms(3) show ?thesis by (auto simp: rows_firing_def)
    qed
  qed
qed

lemma handle_all_rows:
  fixes n :: net and conf :: notifications and res :: result and now :: time and quiet :: bool and cd :: duration
  assumes "store_up env" "has_target (nf_db s) (t_id tgt)" "rows_firing (t_id tgt) s" "distinct (map e_metric evals)"
  defines "s' \<equiv> fold (handleEval n env conf tgt res now quiet cd) evals s"
  shows "(m \<in> e_metric ` set evals \<longrightarrow> (row_of s' (t_id tgt) m \<noteq> None \<longleftrightarrow> (\<exists>e\<in>set evals. e_metric e = m \<and> e_breached e))) \<and>
    (m \<notin> e_metric ` set evals \<longrightarrow> row_of s' (t_id tgt) m = row_of s (t_id tgt) m)"
  using assms(2-4) unfolding s'_def
proof (induction evals arbitrary: s)
  case (Cons e evals)
  let ?s = "handleEval n env conf tgt res now quiet cd e s"
  note h = handleEval_row [OF assms(1) Cons.prems(1,2), where n = n and conf = conf and res = res and now = now
      and quiet = quiet and cd = cd and e = e]
  have d: "distinct (map e_metric evals)" "e_metric e \<notin> e_metric ` set evals" using Cons.prems(3) by auto
  note IH = Cons.IH [OF h(3,4) d(1)]
  show ?case
  proof (cases "m = e_metric e")
    case True
    then have m: "m \<notin> e_metric ` set evals" using d(2) by simp
    then have "e_metric x \<noteq> m" if "x \<in> set evals" for x using that by blast
    with IH m h(1) True show ?thesis by auto
  next
    case False
    with IH h(2) [of m] show ?thesis by (cases "m \<in> e_metric ` set evals") auto
  qed
qed simp

lemma clear_stale_row:
  assumes "store_up env"
  shows "row_of (clear_stale_one env tid evals k s) tid m =
    (if m = k \<and> k \<notin> e_metric ` set evals then None else row_of s tid m)"
  using assms
  by (auto simp: clear_stale_one_def Let_def GetNotifyState_def ClearNotifyState_def store_up_def metric_name_inj split: option.splits)

lemma clearStale_row:
  assumes "store_up env"
  shows "row_of (clearStaleState env tid evals s) tid m = (if m \<in> e_metric ` set evals then row_of s tid m else None)"
proof -
  have "row_of (fold (clear_stale_one env tid evals) ms s) tid m =
      (if m \<in> set ms \<and> m \<notin> e_metric ` set evals then None else row_of s tid m)" for ms s
    by (induction ms arbitrary: s) (auto simp: clear_stale_row [OF assms])
  moreover have "m \<in> set allMetrics" by (cases m) (simp_all add: allMetrics_def)
  ultimately show ?thesis by (simp add: clearStaleState_def)
qed

text \<open>C14: once a successful result of a target has been processed with a working store, the alert rows kept for the
  target are exactly its metrics that this result breaches under the effective thresholds (the defaults, overridden by the
  target's own, with those it sets to \<open>null\<close> disabled): breaches are recorded also in quiet hours and
  during the cooldown, and recovered or no longer evaluated metrics are forgotten.\<close>

theorem stored_alerts_are_current_breaches:
  assumes "store_up env" "n_enabled conf" "res_target_id res = Some tid" "res_status res = ROk"
    and "GetTarget None (nf_db s) tid = Inr tgt" "ParseThresholds (t_thresholds tgt) = Some (per, nulled)"
    and "rows_firing tid s"
  shows "{m. row_of (process n env conf loc now res s) tid m \<noteq> None} =
    {e_metric e | e. e \<in> set (Evaluate res (Merge (n_defaults conf) per nulled)) \<and> e_breached e}"
proof -
  let ?ev = "Evaluate res (Merge (n_defaults conf) per nulled)"
  have tid: "t_id tgt = tid" and ht: "has_target (nf_db s) tid"
    using assms(5) by (auto simp: GetTarget_def select_target_def has_target_def scanTarget_def target_row.extend_def
        split: option.splits dest!: find_SomeD)
  let ?q = "quietNow now (n_quiet_start conf) (n_quiet_end conf) loc" and ?cd = "wrap64 (n_cooldown_minutes conf * Minute)"
  let ?s1 = "fold (handleEval n env conf tgt res now ?q ?cd) ?ev s"
  note h = handle_all_rows [OF assms(1), where s = s and tgt = tgt and evals = ?ev and n = n and conf = conf and res = res
      and now = now and quiet = ?q and cd = ?cd, unfolded tid, OF ht assms(7) Evaluate_distinct]
  have rows: "row_of (process n env conf loc now res s) tid m = row_of (clearStaleState env tid ?ev ?s1) tid m" for m
    using assms(1-6) tid by (auto simp: process_def Let_def store_up_def)
  have "row_of (process n env conf loc now res s) tid m \<noteq> None \<longleftrightarrow> (\<exists>e\<in>set ?ev. e_metric e = m \<and> e_breached e)" for m
  proof (cases "m \<in> e_metric ` set ?ev")
    case True
    with h have "row_of ?s1 tid m \<noteq> None \<longleftrightarrow> (\<exists>e\<in>set ?ev. e_metric e = m \<and> e_breached e)" by blast
    with True rows [of m] clearStale_row [OF assms(1), of tid ?ev ?s1 m] show ?thesis by simp
  next
    case False
    with rows [of m] clearStale_row [OF assms(1), of tid ?ev ?s1 m] show ?thesis by auto
  qed
  then have "{m. row_of (process n env conf loc now res s) tid m \<noteq> None} = {m. \<exists>e\<in>set ?ev. e_metric e = m \<and> e_breached e}"
    by (intro Collect_cong)
  then show ?thesis by auto
qed


subsection \<open>Witnesses\<close>

definition nw_net :: net where
  "nw_net = \<lparr>net_post = (\<lambda>u h m. Inr 200), net_apprise = (\<lambda>us b t k. None)\<rparr>"

definition nw_env :: notify_env where
  "nw_env = \<lparr>ne_target = None, ne_get = (\<lambda>m. None), ne_set = (\<lambda>m. None), ne_clear = (\<lambda>m. None)\<rparr>"

definition nw_conf :: notifications where
  "nw_conf = \<lparr>n_enabled = True, n_channels = [], n_defaults = no_thresholds\<lparr>th_ping := Some 50, th_loss := Some 1\<rparr>,
     n_cooldown_minutes = 60, n_quiet_start = ''22:00'', n_quiet_end = ''07:00'', n_recovery = True\<rparr>"

definition nw_db :: db where
  "nw_db = seeded_db\<lparr>targets_t := \<lparr>rows = [\<lparr>t_id = 1, t_name = ''home'', t_engine = ''ookla'', t_enabled = True, t_queue_id = 1,
     t_options = RawEmpty, t_thresholds = RawDoc (JObj [(''loss_pct_max'', JNull)]), t_rotation_index = 0,
     t_created_at = ''t0'', t_updated_at = ''t0''\<rparr>], seq = 1\<rparr>\<rparr>"

definition nw_result :: "float64 \<Rightarrow> result" where
  "nw_result ping = \<lparr>res_id = 9, res_run_id = None, res_target_id = Some 1, res_target_name = ''home'', res_engine = ''ookla'',
     res_options_snapshot = RawEmpty, res_status = ROk, res_error = '''', res_started_at = ''t'', res_duration_ms = 0,
     res_download_bps = 0, res_upload_bps = 0, res_ping_ms = ping, res_jitter_ms = 0, res_packet_loss_pct = 5, res_bytes_down = 0,
     res_bytes_up = 0, res_server_id = '''', res_server_name = '''', res_server_host = '''', res_isp = '''', res_external_ip = '''',
     res_result_url = '''', res_raw = RawEmpty\<rparr>"

text \<open>Noon of a day in 2021, UTC.\<close>

definition nw_noon :: time where
  "nw_noon = 738000 * ns_per_day + 12 * Hour"

definition nw_input :: "time \<Rightarrow> float64 \<Rightarrow> notify_input" where
  "nw_input now ping = \<lparr>ni_net = nw_net, ni_env = nw_env, ni_conf = nw_conf, ni_loc = (\<lambda>t. 0), ni_now = now, ni_result = nw_result ping\<rparr>"

definition nw_target :: target where
  "nw_target = the (select_target nw_db 1)"

lemma process_single:
  fixes n :: net
  assumes "store_up env" "n_enabled conf" "res_target_id res = Some tid" "res_status res = ROk"
    and "GetTarget None (nf_db s) tid = Inr tgt" "ParseThresholds (t_thresholds tgt) = Some (per, nulled)"
    and "Evaluate res (Merge (n_defaults conf) per nulled) = [e]" "th_always (Merge (n_defaults conf) per nulled) \<noteq> Some True"
    and "\<not> quietNow now (n_quiet_start conf) (n_quiet_end conf) loc"
  defines "h \<equiv> handleEval n env conf tgt res now False (wrap64 (n_cooldown_minutes conf * Minute)) e s"
  shows "nf_log (process n env conf loc now res s) = nf_log h" "row_of (process n env conf loc now res s) (t_id tgt) (e_metric e) = row_of h (t_id tgt) (e_metric e)"
    "targets_t (nf_db (process n env conf loc now res s)) = targets_t (nf_db h)" "queues_t (nf_db (process n env conf loc now res s)) = queues_t (nf_db h)"
proof -
  have p: "process n env conf loc now res s = clearStaleState env (t_id tgt) [e] h"
    using assms by (auto simp: process_def Let_def store_up_def)
  have t: "nf_log (clear_stale_one env tid evals m s') = nf_log s' \<and> targets_t (nf_db (clear_stale_one env tid evals m s')) = targets_t (nf_db s') \<and>
      queues_t (nf_db (clear_stale_one env tid evals m s')) = queues_t (nf_db s')" for tid evals m s'
    by (cases rule: clear_stale_cases [of env tid evals m s']) auto
  have "(nf_log (clearStaleState env (t_id tgt) [e] h), targets_t (nf_db (clearStaleState env (t_id tgt) [e] h)), queues_t (nf_db (clearStaleState env (t_id tgt) [e] h))) =
      (nf_log h, targets_t (nf_db h), queues_t (nf_db h))"
    unfolding clearStaleState_def by (rule fold_keeps [where g = "\<lambda>s. (nf_log s, targets_t (nf_db s), queues_t (nf_db s))"]) (simp add: t)
  then show "nf_log (process n env conf loc now res s) = nf_log h" "targets_t (nf_db (process n env conf loc now res s)) = targets_t (nf_db h)"
    "queues_t (nf_db (process n env conf loc now res s)) = queues_t (nf_db h)" unfolding p by simp_all
  show "row_of (process n env conf loc now res s) (t_id tgt) (e_metric e) = row_of h (t_id tgt) (e_metric e)"
    unfolding p by (simp add: clearStale_row [OF assms(1)])
qed

lemma handleEval_tables:
  "targets_t (nf_db (handleEval n env conf tgt res now quiet cd e s)) = targets_t (nf_db s)"
  "queues_t (nf_db (handleEval n env conf tgt res now quiet cd e s)) = queues_t (nf_db s)"
  by (cases rule: handleEval_cases [where s = s and e = e and tgt = tgt and n = n and env = env and conf = conf and res = res
        and now = now and quiet = quiet and cd = cd]; simp)+

lemma handleEval_recovery:
  assumes "store_up env" "\<not> e_breached e" "n_recovery conf" "row_of s (t_id tgt) (e_metric e) = Some st" "ns_firing st" "ns_last_fired_at st \<noteq> ''''"
  shows "nf_log (handleEval n env conf tgt res now False cd e s) =
    nf_log s @ [BuildMessage ''recovery'' (t_name tgt) (t_id tgt) (res_id res) e now '''']"
  using assms by (auto simp: handleEval_def Let_def GetNotifyState_def notify_recover_def ClearNotifyState_def store_up_def)

lemma nw_facts:
  "store_up nw_env" "n_enabled nw_conf" "res_target_id (nw_result p) = Some 1" "res_status (nw_result p) = ROk"
  "ParseThresholds (t_thresholds nw_target) = Some (no_thresholds, {''loss_pct_max''})" "t_id nw_target = 1"
  "Evaluate (nw_result p) (Merge (n_defaults nw_conf) no_thresholds {''loss_pct_max''}) = [above_eval MetricPing p 50 ''ms'']"
  "th_always (Merge (n_defaults nw_conf) no_thresholds {''loss_pct_max''}) \<noteq> Some True"
  "targets_t d = targets_t nw_db \<Longrightarrow> queues_t d = queues_t nw_db \<Longrightarrow> GetTarget None d 1 = Inr nw_target"
proof -
  show "store_up nw_env" by (simp add: store_up_def nw_env_def)
  show "n_enabled nw_conf" "res_target_id (nw_result p) = Some 1" "res_status (nw_result p) = ROk"
    by (simp_all add: nw_conf_def nw_result_def)
  show "ParseThresholds (t_thresholds nw_target) = Some (no_thresholds, {''loss_pct_max''})" "t_id nw_target = 1" by code_simp+
  show "Evaluate (nw_result p) (Merge (n_defaults nw_conf) no_thresholds {''loss_pct_max''}) = [above_eval MetricPing p 50 ''ms'']"
    "th_always (Merge (n_defaults nw_conf) no_thresholds {''loss_pct_max''}) \<noteq> Some True"
    by (simp_all add: Evaluate_def nw_result_def Merge_def nw_conf_def no_thresholds_def nullable_def)
  show "GetTarget None d 1 = Inr nw_target" if "targets_t d = targets_t nw_db" "queues_t d = queues_t nw_db"
  proof -
    have "GetTarget None nw_db 1 = Inr nw_target" by code_simp
    moreover have s: "scanTarget d = scanTarget nw_db" using that by (intro ext) (simp add: scanTarget_def)
    have "GetTarget None d 1 = GetTarget None nw_db 1" unfolding GetTarget_def select_target_def that(1) s ..
    ultimately show ?thesis by simp
  qed
qed


theorem cooldown_throttles_alerts_witness:
  "map msg_at (drop 0 (nf_log (fold (\<lambda>now. handleEval nw_net nw_env nw_conf nw_target (nw_result 80) now False (60 * Minute)
       (above_eval MetricPing 80 50 ''ms'')) [nw_noon, nw_noon + 59 * Minute, nw_noon + 60 * Minute, nw_noon + 90 * Minute] (fresh_notifier nw_db)))) =
   [nw_noon, nw_noon + 60 * Minute]"
proof -
  let ?ts = "[nw_noon, nw_noon + 59 * Minute, nw_noon + 60 * Minute, nw_noon + 90 * Minute]"
  have up: "store_up nw_env" by (simp add: store_up_def nw_env_def)
  have tid: "t_id nw_target = 1" by code_simp
  have ht: "has_target (nf_db (fresh_notifier nw_db)) (t_id nw_target)"
    unfolding tid by (simp add: has_target_def fresh_notifier_def nw_db_def)
  have br: "e_breached (above_eval MetricPing 80 50 ''ms'')" by (simp add: above_eval_def)
  have none: "row_of (fresh_notifier nw_db) (t_id nw_target) (e_metric (above_eval MetricPing 80 50 ''ms'')) = None"
    by (simp add: fresh_notifier_def nw_db_def seeded_db_def empty_db_def)
  have y: "\<forall>t\<in>set ?ts. year4 t"
    by (simp add: year4_def nw_noon_def duration_defs days_before_year_def)
  have "greedy (60 * Minute) None ?ts = [nw_noon, nw_noon + 60 * Minute]" by code_simp
  moreover have "length (nf_log (fresh_notifier nw_db)) = 0" by (simp add: fresh_notifier_def)
  ultimately show ?thesis
    using cooldown_throttles_alerts [OF up ht br none y, of "60 * Minute" nw_net nw_conf "nw_result 80"]
    by (simp add: duration_defs maxDuration_def)
qed

theorem quiet_hours_are_silent_witness:
  "nf_log (process nw_net nw_env nw_conf (\<lambda>t. 0) (nw_noon + 12 * Hour) (nw_result 80) (fresh_notifier nw_db)) = []"
proof -
  have p: "Parse_HHMM (n_quiet_start nw_conf) = Some 1320" "Parse_HHMM (n_quiet_end nw_conf) = Some 420" by code_simp+
  have w: "(sec_of_day (nw_noon + 12 * Hour + 0 * ns_per_sec) div 60 - 1320) mod 1440 < (420 - 1320) mod 1440" by code_simp
  from quiet_hours_are_silent [OF p, of "nw_noon + 12 * Hour" "\<lambda>t. 0" nw_net nw_env "nw_result 80" "fresh_notifier nw_db"] w
  show ?thesis by (simp add: fresh_notifier_def)
qed

theorem stored_alerts_are_current_breaches_witness:
  "{m. row_of (process nw_net nw_env nw_conf (\<lambda>t. 0) nw_noon (nw_result 80) (fresh_notifier nw_db)) 1 m \<noteq> None} = {MetricPing}"
proof -
  have up: "store_up nw_env" by (simp add: store_up_def nw_env_def)
  have c: "n_enabled nw_conf" "res_target_id (nw_result 80) = Some 1" "res_status (nw_result 80) = ROk"
    by (simp_all add: nw_conf_def nw_result_def)
  have g: "GetTarget None (nf_db (fresh_notifier nw_db)) 1 = Inr nw_target" by code_simp
  have p: "ParseThresholds (t_thresholds nw_target) = Some (no_thresholds, {''loss_pct_max''})" by code_simp
  have f: "rows_firing 1 (fresh_notifier nw_db)" by (simp add: rows_firing_def fresh_notifier_def nw_db_def seeded_db_def empty_db_def)
  have "Evaluate (nw_result 80) (Merge (n_defaults nw_conf) no_thresholds {''loss_pct_max''}) = [above_eval MetricPing 80 50 ''ms'']"
    by code_simp
  with stored_alerts_are_current_breaches [OF up c g p f, of nw_net "\<lambda>t. 0" nw_noon] show ?thesis
    by (auto simp: above_eval_def)
qed

end
