(* ===== verification/Settings_Subs.thy ===== *)
theory Settings_Subs
  imports Settings
begin

text \<open>
  The change notifications of the settings store as an interleaving of the writer (the two halves of
  \<open>mark\<close>, and \<open>cancel\<close>, all three under the store's mutex), the pump and the reader: no changed key is
  lost, and once writers pause the pump and the reader come to rest.
\<close>

datatype sub_label = LMark string | LWake | LPump bool | LRecv string | LCancel

inductive sub_step :: "sub_label \<Rightarrow> subscriber \<Rightarrow> subscriber \<Rightarrow> bool" where
  mark: "\<not> sub_marking s \<Longrightarrow> \<not> sub_done s \<Longrightarrow> sub_step (LMark k) s (mark_dirty k s)"
| wake: "sub_marking s \<Longrightarrow> sub_step LWake s (mark_wake s)"
| pump: "Settings.pump stop s = Some t \<Longrightarrow> sub_step (LPump stop) s t"
| recv: "sub_recv s = Some (k, t) \<Longrightarrow> sub_step (LRecv k) s t"
| cancel: "\<not> sub_marking s \<Longrightarrow> \<not> sub_done s \<Longrightarrow> sub_step LCancel s (s\<lparr>sub_done := True\<rparr>)"

inductive sub_run :: "subscriber \<Rightarrow> sub_label list \<Rightarrow> subscriber \<Rightarrow> bool" where
  nil: "sub_run s [] s"
| snoc: "sub_run s ls t \<Longrightarrow> sub_step l t u \<Longrightarrow> sub_run s (ls @ [l]) u"

inductive_cases sub_stepE [elim!]:
  "sub_step (LMark k) s t" "sub_step LWake s t" "sub_step (LPump stop) s t" "sub_step (LRecv k) s t" "sub_step LCancel s t"

text \<open>The keys changed since the reader last received them.\<close>

fun owed_step :: "string set \<Rightarrow> sub_label \<Rightarrow> string set" where
  "owed_step w (LMark k) = insert k w"
| "owed_step w (LRecv k) = w - {k}"
| "owed_step w _ = w"

definition owed :: "sub_label list \<Rightarrow> string set" where
  "owed ls = foldl owed_step {} ls"

fun internal :: "sub_label \<Rightarrow> bool" where
  "internal LWake = True"
| "internal (LPump _) = True"
| "internal (LRecv _) = True"
| "internal _ = False"

text \<open>The keys the pump holds.\<close>

fun sending :: "pump_pc \<Rightarrow> string list" where
  "sending (PSend ks) = ks"
| "sending _ = []"

fun pc_weight :: "pump_pc \<Rightarrow> nat" where
  "pc_weight PLock = 2"
| "pc_weight (PSend _) = 1"
| "pc_weight _ = 0"

definition sub_ok :: "string set \<Rightarrow> subscriber \<Rightarrow> bool" where
  "sub_ok w s \<longleftrightarrow>
     finite (sub_dirty s) \<and>
     (sub_dirty s \<noteq> {} \<longrightarrow> sub_wake s \<or> sub_marking s \<or> sub_pc s = PLock \<or> sub_pc s = PExit) \<and>
     (sub_pc s = PExit \<longrightarrow> sub_done s) \<and> (sub_closed s \<longleftrightarrow> sub_pc s = PExit) \<and>
     length (sub_out s) \<le> 16 \<and>
     (\<not> sub_done s \<longrightarrow> w \<subseteq> sub_dirty s \<union> set (sending (sub_pc s)) \<union> set (sub_out s))"

definition sub_weight :: "subscriber \<Rightarrow> nat" where
  "sub_weight s = (if sub_marking s then 5 else 0) + (if sub_wake s then 3 else 0) + pc_weight (sub_pc s) +
     3 * card (sub_dirty s) + 2 * length (sending (sub_pc s)) + length (sub_out s)"

lemma pump_cases:
  assumes "Settings.pump stop s = Some t"
  obtains (exit) "sub_done s" "sub_pc s = PSelect \<or> (\<exists>k ks. sub_pc s = PSend (k # ks))"
      "t = s\<lparr>sub_pc := PExit, sub_closed := True\<rparr>"
  | (awake) "sub_pc s = PSelect" "sub_wake s" "t = s\<lparr>sub_wake := False, sub_pc := PLock\<rparr>"
  | (grab) "sub_pc s = PLock" "t = s\<lparr>sub_pc := PSend (sorted_list_of_set (sub_dirty s)), sub_dirty := {}\<rparr>"
  | (idle) "sub_pc s = PSend []" "t = s\<lparr>sub_pc := PSelect\<rparr>"
  | (send) k ks where "sub_pc s = PSend (k # ks)" "length (sub_out s) < 16"
      "t = s\<lparr>sub_out := sub_out s @ [k], sub_pc := PSend ks\<rparr>"
  using assms by (auto simp: Settings.pump_def split: pump_pc.splits list.splits if_splits)

lemma sub_ok_step:
  assumes "sub_step l s t" "sub_ok w s"
  shows "sub_ok (owed_step w l) t"
proof (cases l)
  case (LPump stop)
  with assms(1) have "Settings.pump stop s = Some t" by auto
  then show ?thesis
  proof (cases rule: pump_cases)
    case exit
    then show ?thesis using assms(2) by (simp add: LPump sub_ok_def)
  next
    case awake
    then show ?thesis using assms(2) by (simp add: LPump sub_ok_def)
  next
    case grab
    then show ?thesis using assms(2) by (simp add: LPump sub_ok_def)
  next
    case idle
    then show ?thesis using assms(2) by (simp add: LPump sub_ok_def)
  next
    case (send k ks)
    then show ?thesis using assms(2) by (simp add: LPump sub_ok_def)
  qed
next
  case (LRecv k)
  then have "sub_recv s = Some (k, t)" using assms(1) by auto
  then obtain ks where ks: "sub_out s = k # ks" "t = s\<lparr>sub_out := ks\<rparr>"
    by (cases "sub_out s") (auto simp: sub_recv_def)
  have "w - {k} \<subseteq> A \<union> set ks" if "w \<subseteq> A \<union> set (k # ks)" for A using that by auto
  then show ?thesis using assms(2) ks by (simp add: LRecv sub_ok_def)
next
  case (LMark k)
  then show ?thesis using assms by (auto simp: sub_ok_def mark_dirty_def)
next
  case LWake
  then show ?thesis using assms by (auto simp: sub_ok_def mark_wake_def)
next
  case LCancel
  then show ?thesis using assms by (auto simp: sub_ok_def)
qed

lemma sub_ok_run:
  assumes "sub_run new_subscriber ls s"
  shows "sub_ok (owed ls) s"
  using assms
proof (induction new_subscriber ls s rule: sub_run.induct)
  case nil
  show ?case by (simp add: sub_ok_def new_subscriber_def owed_def)
next
  case (snoc ls t l u)
  then show ?case using sub_ok_step by (simp add: owed_def)
qed

lemma sub_weight_step:
  assumes "sub_step l s t" "internal l" "finite (sub_dirty s)" "\<not> sub_done s"
  shows "sub_weight t < sub_weight s \<and> finite (sub_dirty t) \<and> \<not> sub_done t"
proof (cases l)
  case (LPump stop)
  with assms(1) have "Settings.pump stop s = Some t" by auto
  then show ?thesis using assms(3,4)
    by (cases rule: pump_cases) (auto simp: sub_weight_def)
next
  case (LRecv k)
  then show ?thesis using assms by (auto simp: sub_weight_def sub_recv_def split: list.splits)
next
  case LWake
  then show ?thesis using assms by (auto simp: sub_weight_def mark_wake_def)
qed (use assms in auto)

lemma sub_weight_run:
  assumes "sub_run s ls t" "list_all internal ls" "finite (sub_dirty s)" "\<not> sub_done s"
  shows "length ls + sub_weight t \<le> sub_weight s \<and> finite (sub_dirty t) \<and> \<not> sub_done t"
  using assms
proof (induction rule: sub_run.induct)
  case (snoc s ls t l u)
  then have "length ls + sub_weight t \<le> sub_weight s" "finite (sub_dirty t)" "\<not> sub_done t" by auto
  moreover from this have "sub_weight u < sub_weight t \<and> finite (sub_dirty u) \<and> \<not> sub_done u"
    using snoc sub_weight_step by auto
  ultimately show ?case by auto
qed simp

lemma rest_owes_nothing:
  assumes "sub_ok w s" "\<not> sub_done s" "\<forall>l t. internal l \<longrightarrow> \<not> sub_step l s t"
  shows "w = {}"
proof -
  have out: "sub_out s = []"
  proof (cases "sub_out s")
    case (Cons k ks)
    then have "sub_step (LRecv k) s (s\<lparr>sub_out := ks\<rparr>)" by (intro sub_step.recv) (simp add: sub_recv_def)
    with assms(3) show ?thesis by (metis internal.simps(3))
  qed
  have mk: "\<not> sub_marking s" using assms(3) sub_step.wake by (metis internal.simps(1))
  have pump: "Settings.pump False s = None"
    using assms(3) sub_step.pump by (metis internal.simps(2) option.exhaust)
  have "sub_pc s = PSelect \<and> \<not> sub_wake s"
    using pump assms(1,2) out by (auto simp: Settings.pump_def sub_ok_def split: pump_pc.splits list.splits if_splits)
  then show ?thesis using assms(1,2) out mk by (auto simp: sub_ok_def)
qed

text \<open>C17: however writers, the pump and the reader interleave, a subscriber that was not cancelled is always
  owed only keys that are still on their way to it (dirty, held by the pump, or in the channel, which
  never holds more than 16); as soon as writers pause, at most \<open>sub_weight\<close> further steps are possible, and
  when none is left the reader has received every changed key since its last change.\<close>

theorem no_change_is_lost:
  assumes "sub_run new_subscriber ls s" "\<not> sub_done s"
  shows "owed ls \<subseteq> sub_dirty s \<union> set (sending (sub_pc s)) \<union> set (sub_out s) \<and> length (sub_out s) \<le> 16 \<and>
    (\<forall>ms t. sub_run s ms t \<and> list_all internal ms \<longrightarrow>
       length ms \<le> sub_weight s \<and>
       ((\<forall>l u. internal l \<longrightarrow> \<not> sub_step l t u) \<longrightarrow> owed (ls @ ms) = {}))"
proof -
  have app: "sub_run new_subscriber (ls @ ms) t" if "sub_run s ms t" for ms t
    using that assms(1)
  proof (induction rule: sub_run.induct)
    case (snoc s ms t l u)
    then have "sub_run new_subscriber ((ls @ ms) @ [l]) u" by (blast intro: sub_run.snoc)
    then show ?case by simp
  qed simp
  have ok: "sub_ok (owed ls) s" using assms(1) by (rule sub_ok_run)
  have "length ms \<le> sub_weight s \<and> ((\<forall>l u. internal l \<longrightarrow> \<not> sub_step l t u) \<longrightarrow> owed (ls @ ms) = {})"
    if "sub_run s ms t" "list_all internal ms" for ms t
  proof -
    have "length ms + sub_weight t \<le> sub_weight s \<and> finite (sub_dirty t) \<and> \<not> sub_done t"
      using that ok assms(2) by (intro sub_weight_run) (auto simp: sub_ok_def)
    moreover have "sub_ok (owed (ls @ ms)) t" using app [OF that(1)] by (rule sub_ok_run)
    ultimately show ?thesis using rest_owes_nothing by auto
  qed
  then show ?thesis using ok assms(2) by (auto simp: sub_ok_def)
qed


definition one_change :: "sub_label list" where
  "one_change = [LMark ''auth.mode'', LWake]"

definition delivery :: "sub_label list" where
  "delivery = [LPump False, LPump False, LPump False, LPump False, LRecv ''auth.mode'']"

lemma sub_run_Cons:
  assumes "sub_run t ls u" "sub_step l s t"
  shows "sub_run s (l # ls) u"
  using assms
proof (induction rule: sub_run.induct)
  case (nil t)
  then show ?case using sub_run.snoc [OF sub_run.nil] by force
next
  case (snoc t ls u m v)
  then have "sub_run s ((l # ls) @ [m]) v" by (blast intro: sub_run.snoc)
  then show ?case by simp
qed

lemma one_change_run: "sub_run new_subscriber one_change (mark ''auth.mode'' new_subscriber)"
proof -
  have a: "sub_step (LMark ''auth.mode'') new_subscriber (mark_dirty ''auth.mode'' new_subscriber)"
    by (rule sub_step.mark) (simp_all add: new_subscriber_def)
  have b: "sub_step LWake (mark_dirty ''auth.mode'' new_subscriber) (mark ''auth.mode'' new_subscriber)"
    unfolding mark_def by (rule sub_step.wake) (simp add: mark_dirty_def)
  show ?thesis unfolding one_change_def by (rule sub_run_Cons [OF sub_run_Cons [OF sub_run.nil b] a])
qed

lemma delivery_run: "sub_run (mark ''auth.mode'' new_subscriber) delivery new_subscriber"
proof -
  let ?s1 = "new_subscriber\<lparr>sub_dirty := {''auth.mode''}, sub_pc := PLock\<rparr>"
  let ?s2 = "new_subscriber\<lparr>sub_pc := PSend [''auth.mode'']\<rparr>"
  let ?s3 = "new_subscriber\<lparr>sub_out := [''auth.mode''], sub_pc := PSend []\<rparr>"
  let ?s4 = "new_subscriber\<lparr>sub_out := [''auth.mode'']\<rparr>"
  have a: "sub_step (LPump False) (mark ''auth.mode'' new_subscriber) ?s1"
    by (rule sub_step.pump) (simp add: Settings.pump_def mark_def mark_wake_def mark_dirty_def new_subscriber_def)
  have b: "sub_step (LPump False) ?s1 ?s2" and c: "sub_step (LPump False) ?s2 ?s3" and d: "sub_step (LPump False) ?s3 ?s4"
    by (rule sub_step.pump, simp add: Settings.pump_def new_subscriber_def)+
  have e: "sub_step (LRecv ''auth.mode'') ?s4 new_subscriber"
    by (rule sub_step.recv) (simp add: sub_recv_def new_subscriber_def)
  show ?thesis unfolding delivery_def
    by (rule sub_run_Cons [OF sub_run_Cons [OF sub_run_Cons [OF sub_run_Cons [OF sub_run_Cons [OF sub_run.nil e] d] c] b] a])
qed

lemma new_subscriber_at_rest: "internal l \<Longrightarrow> \<not> sub_step l new_subscriber t"
  by (cases l) (auto simp: Settings.pump_def sub_recv_def new_subscriber_def split: if_splits)

theorem no_change_is_lost_witness:
  "sub_run new_subscriber one_change (mark ''auth.mode'' new_subscriber) \<and>
   owed one_change \<subseteq> sub_dirty (mark ''auth.mode'' new_subscriber) \<union>
     set (sending (sub_pc (mark ''auth.mode'' new_subscriber))) \<union> set (sub_out (mark ''auth.mode'' new_subscriber)) \<and>
   length delivery \<le> sub_weight (mark ''auth.mode'' new_subscriber) \<and>
   owed (one_change @ delivery) = {}"
proof -
  have live: "\<not> sub_done (mark ''auth.mode'' new_subscriber)"
    by (simp add: mark_def mark_wake_def mark_dirty_def new_subscriber_def)
  have "list_all internal delivery" by (simp add: delivery_def)
  then show ?thesis
    using no_change_is_lost [OF one_change_run live] one_change_run delivery_run new_subscriber_at_rest by blast
qed

end
