(* ===== verification/Prune.thy ===== *)
theory Prune
  imports Session_Store Result_Store
begin

text \<open>
  The retention job: \<open>internal/prune/prune.go\<close>. \<open>drain\<close> may run for ever for an arbitrary \<open>del\<close>, so it is a
  partial function whose \<open>None\<close> is a loop that does not return; the locale \<open>batch_delete\<close> states what makes
  it return, and the two deletes of the store are interpreted in it. The context is its error at each check
  of the loop.
\<close>

subsection \<open>The job\<close>

record prune_stats =
  ps_at :: time
  ps_results :: nat
  ps_runs :: nat
  ps_sessions :: nat
  ps_errs :: "store_error list"

definition no_stats :: prune_stats where
  "no_stats = \<lparr>ps_at = 0, ps_results = 0, ps_runs = 0, ps_sessions = 0, ps_errs = []\<rparr>"

record prune_job =
  pj_batch :: int
  pj_last :: prune_stats

definition Prune_New :: "int \<Rightarrow> prune_job" where
  "Prune_New batch = \<lparr>pj_batch = (if batch \<le> 0 then 1000 else batch), pj_last = no_stats\<rparr>"

partial_function (option) drain ::
  "(nat \<Rightarrow> fault) \<Rightarrow> (nat \<Rightarrow> 's \<Rightarrow> 's \<times> nat res) \<Rightarrow> nat \<Rightarrow> nat \<Rightarrow> 's \<Rightarrow> ('s \<times> nat \<times> store_error option) option" where
  "drain ctx del i acc s =
     (case ctx i of
        Some e \<Rightarrow> Some (s, acc, Some (ErrDB e))
      | None \<Rightarrow>
          (case del i s of
             (s', Inl e) \<Rightarrow> Some (s', acc, Some e)
           | (s', Inr n) \<Rightarrow> if n = 0 then Some (s', acc, None) else drain ctx del (Suc i) (acc + n) s'))"

text \<open>The answers of one pass's surroundings: the settings reads, and for each loop the context and the
  driver per turn.\<close>

record prune_env =
  pe_settings :: "string \<Rightarrow> fault"
  pe_ctx :: "bool \<Rightarrow> nat \<Rightarrow> fault"
  pe_del :: "bool \<Rightarrow> nat \<Rightarrow> fault"
  pe_sessions :: fault

definition cutoff :: "time \<Rightarrow> int \<Rightarrow> string" where
  "cutoff now days = Format_frac 3 (now - days * ns_per_day)"

definition opt_err :: "store_error option \<Rightarrow> store_error list" where
  "opt_err e = (case e of None \<Rightarrow> [] | Some x \<Rightarrow> [x])"

definition drain_results :: "prune_env \<Rightarrow> int \<Rightarrow> string \<Rightarrow> db \<Rightarrow> (db \<times> nat \<times> store_error option) option" where
  "drain_results env batch before d = drain (pe_ctx env False) (\<lambda>i s. PruneResultsBefore (pe_del env False i) s before batch) 0 0 d"

definition drain_runs :: "prune_env \<Rightarrow> int \<Rightarrow> string \<Rightarrow> db \<Rightarrow> (db \<times> nat \<times> store_error option) option" where
  "drain_runs env batch before d = drain (pe_ctx env True) (\<lambda>i s. PruneRunsBefore (pe_del env True i) s before batch) 0 0 d"

definition Once :: "prune_env \<Rightarrow> time \<Rightarrow> prune_job \<Rightarrow> db \<Rightarrow> (db \<times> prune_job \<times> (store_error list \<times> prune_stats)) option" where
  "Once env now j d =
     (case General (pe_settings env) d of
        Inl e \<Rightarrow> Some (d, j, [e], no_stats)
      | Inr g \<Rightarrow>
          Option.bind (if g_retention_days_results g > 0
                       then drain_results env (pj_batch j) (cutoff now (g_retention_days_results g)) d
                       else Some (d, 0, None)) (\<lambda>(d1, n1, e1).
          Option.bind (if g_retention_days_runs g > 0
                       then drain_runs env (pj_batch j) (cutoff now (g_retention_days_runs g)) d1
                       else Some (d1, 0, None)) (\<lambda>(d2, n2, e2).
            let (d3, r3) = DeleteExpiredSessions (pe_sessions env) d2 now;
                errs = opt_err e1 @ opt_err e2 @ (case r3 of Inl e \<Rightarrow> [e] | Inr _ \<Rightarrow> []);
                st = \<lparr>ps_at = now, ps_results = n1, ps_runs = n2,
                      ps_sessions = (case r3 of Inl _ \<Rightarrow> 0 | Inr n \<Rightarrow> n), ps_errs = errs\<rparr>
            in Some (d3, j\<lparr>pj_last := st\<rparr>, errs, st))))"

subsection \<open>The ticker\<close>

definition minInterval :: duration where
  "minInterval = Minute"

definition intervalFor :: "(string \<Rightarrow> fault) \<Rightarrow> db \<Rightarrow> duration" where
  "intervalFor flt d =
     (case General flt d of
        Inl _ \<Rightarrow> minInterval
      | Inr g \<Rightarrow>
          let dur = wrap64 (g_retention_prune_interval_minutes g * Minute)
          in if dur < minInterval then minInterval else dur)"

lemma intervalFor_min: "Minute \<le> intervalFor flt d"
  by (simp add: intervalFor_def minInterval_def Let_def split: sum.split)

text \<open>What \<open>Run\<close> finds ready at its select; the state is the database, the job and the ticker's period.
  \<open>None\<close>: the loop returned, or a pass never does.\<close>

datatype prune_event = PTick prune_env time | PChange string "string \<Rightarrow> fault" | PClosed | PDone

fun Run_turn :: "prune_event \<Rightarrow> db \<times> prune_job \<times> duration \<Rightarrow> (db \<times> prune_job \<times> duration) option" where
  "Run_turn (PTick env now) (d, j, period) =
     Option.bind (Once env now j d) (\<lambda>(d', j', _). Some (d', j', period))"
| "Run_turn (PChange key flt) (d, j, period) =
     Some (d, j, if key = ''general.retention_prune_interval_minutes'' then intervalFor flt d else period)"
| "Run_turn PClosed s = None"
| "Run_turn PDone s = None"

text \<open>The pass \<open>Run\<close> makes before its first wait (skipped when the context is already done), and the
  period of its first ticker.\<close>

definition Run_start :: "bool \<Rightarrow> prune_env \<Rightarrow> time \<Rightarrow> db \<Rightarrow> prune_job \<Rightarrow> (db \<times> prune_job \<times> duration) option" where
  "Run_start canceled env now d j =
     (if canceled then Some (d, j, intervalFor (pe_settings env) d)
      else Option.bind (Once env now j d) (\<lambda>(d', j', _). Some (d', j', intervalFor (pe_settings env) d')))"

subsection \<open>Deleting in batches\<close>

text \<open>
  What a batched delete promises: \<open>pending\<close> lists the rows to go; a step removes at least one while there is
  one and reports how many; \<open>goal\<close>, the state with all of them gone at once, does not change; it is the
  state itself when nothing is pending.
\<close>

locale batch_delete =
  fixes ok :: "'s \<Rightarrow> bool" and step :: "'s \<Rightarrow> 's \<times> nat" and pending :: "'s \<Rightarrow> 'r list" and goal :: "'s \<Rightarrow> 's"
  assumes ok_step: "ok s \<Longrightarrow> ok (fst (step s))"
    and removed: "ok s \<Longrightarrow> length (pending (fst (step s))) + snd (step s) = length (pending s)"
    and progress: "ok s \<Longrightarrow> pending s \<noteq> [] \<Longrightarrow> 0 < snd (step s)"
    and goal_step: "ok s \<Longrightarrow> goal (fst (step s)) = goal s"
    and goal_done: "ok s \<Longrightarrow> pending s = [] \<Longrightarrow> goal s = s"
begin

definition faulty :: "(nat \<Rightarrow> fault) \<Rightarrow> nat \<Rightarrow> 's \<Rightarrow> 's \<times> nat res" where
  "faulty flt i s = (case flt i of Some e \<Rightarrow> (s, Inl (ErrDB e)) | None \<Rightarrow> (fst (step s), Inr (snd (step s))))"

text \<open>The loop returns whatever the context and the driver do; it reports what it removed, and keeps the goal.\<close>

lemma drain_returns:
  assumes "ok s"
  shows "\<exists>s' n e. drain ctx (faulty flt) i acc s = Some (s', n, e) \<and> ok s' \<and> goal s' = goal s \<and>
    n + length (pending s') = acc + length (pending s) \<and> (e = None \<longrightarrow> s' = goal s)"
  using assms
proof (induction "length (pending s)" arbitrary: s i acc rule: less_induct)
  case less
  note unfold_drain = drain.simps [of ctx "faulty flt" i acc s]
  show ?case
  proof (cases "ctx i \<noteq> None \<or> flt i \<noteq> None")
    case True
    then show ?thesis unfolding unfold_drain using less.prems by (auto simp: faulty_def split: option.split)
  next
    case False
    let ?s = "fst (step s)" let ?n = "snd (step s)"
    have st: "faulty flt i s = (?s, Inr ?n)" and cx: "ctx i = None" using False by (auto simp: faulty_def)
    have rem: "length (pending ?s) + ?n = length (pending s)" using less.prems by (rule removed)
    show ?thesis
    proof (cases "?n = 0")
      case True
      then have p: "pending s = []" using progress [OF less.prems] by auto
      then have "goal ?s = ?s" using rem ok_step [OF less.prems] by (intro goal_done) auto
      then show ?thesis unfolding unfold_drain
        using True p rem less.prems ok_step goal_step by (simp add: st cx)
    next
      case False
      then have "length (pending ?s) < length (pending s)" using rem by simp
      from less.hyps [OF this ok_step [OF less.prems], of "Suc i" "acc + ?n"] obtain s' n e where
        "drain ctx (faulty flt) (Suc i) (acc + ?n) ?s = Some (s', n, e)" "ok s'" "goal s' = goal ?s"
        "n + length (pending s') = acc + ?n + length (pending ?s)" "e = None \<longrightarrow> s' = goal ?s" by blast
      then show ?thesis unfolding unfold_drain
        using False rem goal_step [OF less.prems] by (simp add: st cx)
    qed
  qed
qed

text \<open>Without failures it ends in the goal and has removed everything pending.\<close>

lemma drain_completes:
  assumes "ok s" "\<forall>i. ctx i = None" "\<forall>i. flt i = None"
  shows "drain ctx (faulty flt) i acc s = Some (goal s, acc + length (pending s), None)"
  using assms(1)
proof (induction "length (pending s)" arbitrary: s i acc rule: less_induct)
  case less
  let ?s = "fst (step s)" let ?n = "snd (step s)"
  have st: "faulty flt i s = (?s, Inr ?n)" and cx: "ctx i = None" using assms(2,3) by (auto simp: faulty_def)
  have rem: "length (pending ?s) + ?n = length (pending s)" using less.prems by (rule removed)
  show ?case
  proof (cases "?n = 0")
    case True
    then have p: "pending s = []" using progress [OF less.prems] by auto
    then have "goal ?s = ?s" using rem ok_step [OF less.prems] by (intro goal_done) auto
    then show ?thesis
      using True p goal_step [OF less.prems] by (subst drain.simps) (simp add: st cx)
  next
    case False
    then have "length (pending ?s) < length (pending s)" using rem by simp
    from less.hyps [OF this ok_step [OF less.prems]] show ?thesis
      using False rem goal_step [OF less.prems] by (subst drain.simps) (simp add: st cx)
  qed
qed

end


subsection \<open>The store's deletes\<close>

text \<open>The rows a batch hits: those whose key is among the first \<open>b\<close> of the sorted candidates.\<close>

lemma batch_hits:
  fixes key :: "'r \<Rightarrow> 'k" and f :: "'r \<Rightarrow> 'o :: linorder" and P :: "'r \<Rightarrow> bool" and b :: nat
  assumes "distinct (map key rs)"
  defines "hit \<equiv> \<lambda>r. key r \<in> set (map key (take b (sort_key f (filter P rs))))"
  shows "\<forall>r\<in>set rs. hit r \<longrightarrow> P r"
    and "filter P rs \<noteq> [] \<Longrightarrow> 0 < b \<Longrightarrow> \<exists>r\<in>set rs. hit r"
    and "length (filter P (delete_where hit rs)) + affected hit rs = length (filter P rs)"
proof -
  have sub: "set (take b (sort_key f (filter P rs))) \<subseteq> {r \<in> set rs. P r}"
    using set_take_subset [of b "sort_key f (filter P rs)"] by auto
  show hit: "\<forall>r\<in>set rs. hit r \<longrightarrow> P r"
  proof (intro ballI impI)
    fix r assume r: "r \<in> set rs" "hit r"
    then obtain x where x: "x \<in> set rs" "P x" "key x = key r" using sub by (auto simp: hit_def)
    then have "x = r" using assms(1) r(1) by (auto simp: distinct_map inj_on_def)
    then show "P r" using x by simp
  qed
  show "\<exists>r\<in>set rs. hit r" if "filter P rs \<noteq> []" "0 < b"
  proof -
    have "take b (sort_key f (filter P rs)) \<noteq> []"
      using that by (metis length_sort list.size(3) length_greater_0_conv take_eq_Nil not_gr_zero)
    then obtain x where "x \<in> set (take b (sort_key f (filter P rs)))" by (meson list.set_sel(1))
    then show ?thesis using sub unfolding hit_def by fastforce
  qed
  have "filter P (filter hit rs) = filter hit rs" using hit by (auto intro: filter_cong)
  moreover have "length (filter P rs) =
      length (filter P (filter (\<lambda>r. \<not> hit r) rs)) + length (filter P (filter hit rs))"
    using sum_length_filter_compl [of hit "filter P rs"] by (simp add: conj_commute)
  ultimately show "length (filter P (delete_where hit rs)) + affected hit rs = length (filter P rs)"
    by (simp add: delete_where_def affected_def)
qed

definition result_step :: "string \<Rightarrow> int \<Rightarrow> db \<Rightarrow> db \<times> nat" where
  "result_step before batch d =
     (case PruneResultsBefore None d before batch of (d', r) \<Rightarrow> (d', case r of Inl _ \<Rightarrow> 0 | Inr n \<Rightarrow> n))"

definition run_step :: "string \<Rightarrow> int \<Rightarrow> db \<Rightarrow> db \<times> nat" where
  "run_step before batch d =
     (case PruneRunsBefore None d before batch of (d', r) \<Rightarrow> (d', case r of Inl _ \<Rightarrow> 0 | Inr n \<Rightarrow> n))"

text \<open>The specification of a drained table: one \<open>DELETE\<close> without a limit.\<close>

definition old_result :: "string \<Rightarrow> result \<Rightarrow> bool" where
  "old_result before r \<longleftrightarrow> res_started_at r < before"

definition without_old_results :: "string \<Rightarrow> db \<Rightarrow> db" where
  "without_old_results before d = delete_results (old_result before) d"

definition without_old_runs :: "string \<Rightarrow> db \<Rightarrow> db" where
  "without_old_runs before d = d\<lparr>runs_t := map_rows (delete_where (prunable_run d before)) (runs_t d)\<rparr>"

definition batch_size :: "int \<Rightarrow> nat" where
  "batch_size batch = (if batch \<le> 0 then 1000 else nat batch)"

definition result_hit :: "string \<Rightarrow> int \<Rightarrow> db \<Rightarrow> result \<Rightarrow> bool" where
  "result_hit before batch d r \<longleftrightarrow> res_id r \<in> set (map res_id (take (batch_size batch)
     (sort_key res_started_at (filter (old_result before) (rows (results_t d))))))"

definition run_hit :: "string \<Rightarrow> int \<Rightarrow> db \<Rightarrow> run \<Rightarrow> bool" where
  "run_hit before batch d r \<longleftrightarrow> run_id r \<in> set (map run_id (take (batch_size batch)
     (sort_key run_id (filter (prunable_run d before) (rows (runs_t d))))))"

lemma batch_size_pos: "0 < batch_size batch"
  by (simp add: batch_size_def)

lemma result_step_eq:
  "result_step before batch d =
   (delete_results (result_hit before batch d) d, affected (result_hit before batch d) (rows (results_t d)))"
  by (simp add: result_step_def PruneResultsBefore_def Let_def result_hit_def [abs_def] old_result_def [abs_def] batch_size_def)

lemma delete_results_none:
  assumes "\<forall>r\<in>set (rows (results_t d)). \<not> P r"
  shows "delete_results P d = d"
proof -
  have "filter P (rows (results_t d)) = []" "delete_where P (rows (results_t d)) = rows (results_t d)"
    using assms by (auto simp: delete_where_def filter_empty_conv filter_id_conv)
  then show ?thesis by (simp add: delete_results_def map_rows_def)
qed

lemma delete_where_compose:
  "\<forall>r\<in>set rs. Q r \<longrightarrow> P r \<Longrightarrow> delete_where P (delete_where Q rs) = delete_where P rs"
  by (auto simp: delete_where_def intro: filter_cong)

lemma delete_results_compose:
  assumes "\<forall>r\<in>set (rows (results_t d)). Q r \<longrightarrow> P r"
  shows "delete_results P (delete_results Q d) = delete_results P d"
proof -
  have r: "delete_where P (delete_where Q (rows (results_t d))) = delete_where P (rows (results_t d))"
    using assms by (rule delete_where_compose)
  have "res_id ` set (filter P (delete_where Q (rows (results_t d)))) \<union> res_id ` set (filter Q (rows (results_t d))) =
      res_id ` set (filter P (rows (results_t d)))"
    using assms by (auto simp: delete_where_def)
  then have t: "filter (\<lambda>(x, t). x \<notin> res_id ` set (filter P (delete_where Q (rows (results_t d)))))
      (filter (\<lambda>(x, t). x \<notin> res_id ` set (filter Q (rows (results_t d)))) ts) =
      filter (\<lambda>(x, t). x \<notin> res_id ` set (filter P (rows (results_t d)))) ts" for ts :: "(int \<times> int) list"
    by (subst filter_filter) (intro filter_cong refl, auto)
  show ?thesis using r t by (simp add: delete_results_def Let_def map_rows_def)
qed

interpretation results_batch: batch_delete
  "\<lambda>d. distinct (map res_id (rows (results_t d)))" "result_step before batch"
  "\<lambda>d. filter (old_result before) (rows (results_t d))" "without_old_results before"
proof
  fix d :: db assume d: "distinct (map res_id (rows (results_t d)))"
  note hits = batch_hits [where rs = "rows (results_t d)" and key = res_id and f = res_started_at
      and P = "old_result before" and b = "batch_size batch", OF d, folded result_hit_def]
  show "distinct (map res_id (rows (results_t (fst (result_step before batch d)))))"
    using d by (simp add: result_step_eq delete_results_def Let_def delete_where_def distinct_map_filter)
  show "length (filter (old_result before) (rows (results_t (fst (result_step before batch d))))) +
      snd (result_step before batch d) = length (filter (old_result before) (rows (results_t d)))"
    using hits(3) by (simp add: result_step_eq delete_results_def Let_def)
  show "0 < snd (result_step before batch d)" if "filter (old_result before) (rows (results_t d)) \<noteq> []"
    using hits(2) [OF that batch_size_pos] by (simp add: result_step_eq)
  show "without_old_results before (fst (result_step before batch d)) = without_old_results before d"
    using hits(1) by (simp add: result_step_eq without_old_results_def delete_results_compose)
  show "without_old_results before d = d" if "filter (old_result before) (rows (results_t d)) = []"
    using that by (auto simp: without_old_results_def filter_empty_conv intro: delete_results_none)
qed


lemma prunable_run_cong: "results_t d' = results_t d \<Longrightarrow> prunable_run d' = prunable_run d"
  by (intro ext) (simp add: prunable_run_def has_results_def)

lemma run_step_eq:
  assumes "distinct (map run_id (rows (runs_t d)))"
  shows "run_step before batch d =
   (d\<lparr>runs_t := map_rows (delete_where (run_hit before batch d)) (runs_t d)\<rparr>,
    affected (run_hit before batch d) (rows (runs_t d)))"
proof -
  let ?ids = "map run_id (take (batch_size batch) (sort_key run_id (filter (prunable_run d before) (rows (runs_t d)))))"
  have "\<not> (\<exists>i\<in>set ?ids. res_run_id x = Some i)" if "x \<in> set (rows (results_t d))" for x
  proof
    assume "\<exists>i\<in>set ?ids. res_run_id x = Some i"
    then obtain r where "r \<in> set (take (batch_size batch) (sort_key run_id (filter (prunable_run d before) (rows (runs_t d)))))"
        "res_run_id x = Some (run_id r)" by auto
    then have "prunable_run d before r" "has_results d r" using that by (auto simp: has_results_def dest: in_set_takeD)
    then show False by (simp add: prunable_run_def)
  qed
  then have "delete_results (\<lambda>x. \<exists>i\<in>set ?ids. res_run_id x = Some i) d = d"
    by (intro delete_results_none) blast
  then show ?thesis
    by (simp add: run_step_def PruneRunsBefore_def Let_def run_hit_def [abs_def] batch_size_def)
qed

interpretation runs_batch: batch_delete
  "\<lambda>d. distinct (map run_id (rows (runs_t d)))" "run_step before batch"
  "\<lambda>d. filter (prunable_run d before) (rows (runs_t d))" "without_old_runs before"
proof
  fix d :: db assume d: "distinct (map run_id (rows (runs_t d)))"
  note hits = batch_hits [where rs = "rows (runs_t d)" and key = run_id and f = run_id
      and P = "prunable_run d before" and b = "batch_size batch", OF d, folded run_hit_def]
  have cong: "prunable_run (d\<lparr>runs_t := t\<rparr>) = prunable_run d" for t by (rule prunable_run_cong) simp
  show "distinct (map run_id (rows (runs_t (fst (run_step before batch d)))))"
    using d by (simp add: run_step_eq delete_where_def distinct_map_filter)
  show "length (filter (prunable_run (fst (run_step before batch d)) before) (rows (runs_t (fst (run_step before batch d))))) +
      snd (run_step before batch d) = length (filter (prunable_run d before) (rows (runs_t d)))"
    using hits(3) by (simp add: run_step_eq [OF d] cong)
  show "0 < snd (run_step before batch d)" if "filter (prunable_run d before) (rows (runs_t d)) \<noteq> []"
    using hits(2) [OF that batch_size_pos] by (simp add: run_step_eq [OF d])
  show "without_old_runs before (fst (run_step before batch d)) = without_old_runs before d"
    using delete_where_compose [OF hits(1)] by (simp add: run_step_eq [OF d] without_old_runs_def cong map_rows_def)
  show "without_old_runs before d = d" if "filter (prunable_run d before) (rows (runs_t d)) = []"
    using that by (auto simp: without_old_runs_def map_rows_def delete_where_def filter_empty_conv filter_id_conv)
qed

lemma drain_results_faulty:
  "drain_results env batch before d = drain (pe_ctx env False) (results_batch.faulty before batch (pe_del env False)) 0 0 d"
proof -
  have "(\<lambda>i s. PruneResultsBefore (pe_del env False i) s before batch) = results_batch.faulty before batch (pe_del env False)"
    by (intro ext) (simp add: results_batch.faulty_def result_step_def PruneResultsBefore_def Let_def split: option.split)
  then show ?thesis by (simp add: drain_results_def)
qed

lemma drain_runs_faulty:
  "drain_runs env batch before d = drain (pe_ctx env True) (runs_batch.faulty before batch (pe_del env True)) 0 0 d"
proof -
  have "(\<lambda>i s. PruneRunsBefore (pe_del env True i) s before batch) = runs_batch.faulty before batch (pe_del env True)"
    by (intro ext) (simp add: runs_batch.faulty_def run_step_def PruneRunsBefore_def Let_def split: option.split)
  then show ?thesis by (simp add: drain_runs_def)
qed

end
