(* ===== verification/Prune_Props.thy ===== *)
theory Prune_Props
  imports Prune
begin

text \<open>
  What a retention pass does: it returns, it equals three unlimited deletes, and seen through time values it
  removes exactly what is older than the retention window while no live session notices.
\<close>

definition prune_ok :: "db \<Rightarrow> bool" where
  "prune_ok d \<longleftrightarrow> distinct (map res_id (rows (results_t d))) \<and> distinct (map run_id (rows (runs_t d)))"

text \<open>The pass without batches.\<close>

definition pass_results :: "general \<Rightarrow> time \<Rightarrow> db \<Rightarrow> db" where
  "pass_results g now d = (if g_retention_days_results g > 0
     then without_old_results (cutoff now (g_retention_days_results g)) d else d)"

definition pass_runs :: "general \<Rightarrow> time \<Rightarrow> db \<Rightarrow> db" where
  "pass_runs g now d = (if g_retention_days_runs g > 0
     then without_old_runs (cutoff now (g_retention_days_runs g)) d else d)"

definition pass :: "general \<Rightarrow> time \<Rightarrow> db \<Rightarrow> db" where
  "pass g now d = fst (DeleteExpiredSessions None (pass_runs g now (pass_results g now d)) now)"

text \<open>What is left alone by a table's deletes, finished or not.\<close>

lemma rows_without_old_results:
  "rows (results_t (without_old_results before d)) = filter (\<lambda>r. \<not> old_result before r) (rows (results_t d))"
  "runs_t (without_old_results before d) = runs_t d" "sessions_t (without_old_results before d) = sessions_t d"
  by (simp_all add: without_old_results_def delete_results_def Let_def delete_where_def)

lemma without_old_runs_simps:
  "results_t (without_old_runs before d) = results_t d" "sessions_t (without_old_runs before d) = sessions_t d"
  by (simp_all add: without_old_runs_def)

lemma DeleteExpiredSessions_other [simp]:
  "results_t (fst (DeleteExpiredSessions flt d now)) = results_t d"
  "runs_t (fst (DeleteExpiredSessions flt d now)) = runs_t d"
  by (simp_all add: DeleteExpiredSessions_def Let_def split: option.split)

lemma drain_results_stage:
  assumes "prune_ok d"
  obtains d1 n e where "drain_results env batch before d = Some (d1, n, e)" "prune_ok d1"
    "without_old_results before d1 = without_old_results before d" "runs_t d1 = runs_t d"
    "n + length (filter (old_result before) (rows (results_t d1))) = length (filter (old_result before) (rows (results_t d)))"
    "e = None \<longrightarrow> d1 = without_old_results before d"
proof -
  from results_batch.drain_returns [of d "pe_ctx env False" before batch "pe_del env False" 0 0] assms
  obtain d1 n e where r: "drain_results env batch before d = Some (d1, n, e)" "distinct (map res_id (rows (results_t d1)))"
    "without_old_results before d1 = without_old_results before d"
    "n + length (filter (old_result before) (rows (results_t d1))) = length (filter (old_result before) (rows (results_t d)))"
    "e = None \<longrightarrow> d1 = without_old_results before d"
    by (auto simp: prune_ok_def drain_results_faulty)
  moreover have "runs_t d1 = runs_t d" using r(3) by (metis rows_without_old_results(2))
  ultimately show thesis using that assms by (simp add: prune_ok_def)
qed

lemma drain_runs_stage:
  assumes "prune_ok d"
  obtains d1 n e where "drain_runs env batch before d = Some (d1, n, e)" "results_t d1 = results_t d"
    "without_old_runs before d1 = without_old_runs before d"
    "n + length (filter (prunable_run d1 before) (rows (runs_t d1))) = length (filter (prunable_run d before) (rows (runs_t d)))"
    "e = None \<longrightarrow> d1 = without_old_runs before d"
proof -
  from runs_batch.drain_returns [of d "pe_ctx env True" before batch "pe_del env True" 0 0] assms
  obtain d1 n e where r: "drain_runs env batch before d = Some (d1, n, e)"
    "without_old_runs before d1 = without_old_runs before d"
    "n + length (filter (prunable_run d1 before) (rows (runs_t d1))) = length (filter (prunable_run d before) (rows (runs_t d)))"
    "e = None \<longrightarrow> d1 = without_old_runs before d"
    by (auto simp: prune_ok_def drain_runs_faulty)
  moreover have "results_t d1 = results_t d" using r(2) by (metis without_old_runs_simps(1))
  ultimately show thesis using that by blast
qed

text \<open>The two stages of a pass, each possibly switched off.\<close>

lemma stage_results:
  assumes "prune_ok d"
  obtains d1 n e where
    "(if g_retention_days_results g > 0 then drain_results env batch (cutoff now (g_retention_days_results g)) d
      else Some (d, 0, None)) = Some (d1, n, e)"
    "prune_ok d1" "pass_results g now d1 = pass_results g now d" "e = None \<longrightarrow> d1 = pass_results g now d"
proof (cases "g_retention_days_results g > 0")
  case True
  from drain_results_stage [OF assms, of env batch "cutoff now (g_retention_days_results g)"]
  obtain d1 n e where "drain_results env batch (cutoff now (g_retention_days_results g)) d = Some (d1, n, e)" "prune_ok d1"
    "without_old_results (cutoff now (g_retention_days_results g)) d1 = without_old_results (cutoff now (g_retention_days_results g)) d"
    "e = None \<longrightarrow> d1 = without_old_results (cutoff now (g_retention_days_results g)) d" by metis
  then show thesis using that True by (simp add: pass_results_def)
next
  case False
  then show thesis using that [of d 0 None] assms by (simp add: pass_results_def)
qed

lemma stage_runs:
  assumes "prune_ok d"
  obtains d1 n e where
    "(if g_retention_days_runs g > 0 then drain_runs env batch (cutoff now (g_retention_days_runs g)) d
      else Some (d, 0, None)) = Some (d1, n, e)"
    "results_t d1 = results_t d" "pass_runs g now d1 = pass_runs g now d" "e = None \<longrightarrow> d1 = pass_runs g now d"
proof (cases "g_retention_days_runs g > 0")
  case True
  from drain_runs_stage [OF assms, of env batch "cutoff now (g_retention_days_runs g)"]
  obtain d1 n e where "drain_runs env batch (cutoff now (g_retention_days_runs g)) d = Some (d1, n, e)" "results_t d1 = results_t d"
    "without_old_runs (cutoff now (g_retention_days_runs g)) d1 = without_old_runs (cutoff now (g_retention_days_runs g)) d"
    "e = None \<longrightarrow> d1 = without_old_runs (cutoff now (g_retention_days_runs g)) d" by metis
  then show thesis using that True by (simp add: pass_runs_def)
next
  case False
  then show thesis using that [of d 0 None] assms by (simp add: pass_runs_def)
qed

lemma pass_results_rows:
  "rows (results_t (pass_results g now d)) =
   (if g_retention_days_results g > 0
    then filter (\<lambda>r. \<not> old_result (cutoff now (g_retention_days_results g)) r) (rows (results_t d))
    else rows (results_t d))"
  by (simp add: pass_results_def rows_without_old_results)

lemma Once_returns:
  assumes "prune_ok d" "General (pe_settings env) d = Inr g"
  obtains d' j' errs st where "Once env now j d = Some (d', j', errs, st)" "pj_last j' = st"
    "rows (results_t (pass_results g now d')) = rows (results_t (pass_results g now d))"
    "errs = [] \<longrightarrow> d' = pass g now d"
proof -
  from stage_results [OF assms(1)] obtain d1 n1 e1 where
    s1: "(if g_retention_days_results g > 0 then drain_results env (pj_batch j) (cutoff now (g_retention_days_results g)) d
      else Some (d, 0, None)) = Some (d1, n1, e1)"
    "prune_ok d1" "pass_results g now d1 = pass_results g now d" "e1 = None \<longrightarrow> d1 = pass_results g now d" by metis
  from stage_runs [OF s1(2)] obtain d2 n2 e2 where
    s2: "(if g_retention_days_runs g > 0 then drain_runs env (pj_batch j) (cutoff now (g_retention_days_runs g)) d1
      else Some (d1, 0, None)) = Some (d2, n2, e2)"
    "results_t d2 = results_t d1" "pass_runs g now d2 = pass_runs g now d1" "e2 = None \<longrightarrow> d2 = pass_runs g now d1" by metis
  obtain d3 r3 where s3: "DeleteExpiredSessions (pe_sessions env) d2 now = (d3, r3)" by fastforce
  let ?errs = "opt_err e1 @ opt_err e2 @ (case r3 of Inl e \<Rightarrow> [e] | Inr _ \<Rightarrow> [])"
  let ?st = "\<lparr>ps_at = now, ps_results = n1, ps_runs = n2, ps_sessions = (case r3 of Inl _ \<Rightarrow> 0 | Inr n \<Rightarrow> n), ps_errs = ?errs\<rparr>"
  have once: "Once env now j d = Some (d3, j\<lparr>pj_last := ?st\<rparr>, ?errs, ?st)"
    by (simp only: Once_def assms(2) sum.case s1(1) s2(1) s3 Option.bind.simps prod.case Let_def)
  have rows3: "results_t d3 = results_t d1" using s2(2) s3 DeleteExpiredSessions_other(1) by (metis fst_conv)
  have "rows (results_t (pass_results g now d3)) = rows (results_t (pass_results g now d1))"
    by (simp add: pass_results_rows rows3)
  moreover have "d3 = pass g now d" if "?errs = []"
  proof -
    have "e1 = None" "e2 = None" "r3 = Inr (projr r3)" using that by (auto simp: opt_err_def split: option.splits sum.splits)
    then have "pe_sessions env = None" using s3 by (cases "pe_sessions env") (auto simp: DeleteExpiredSessions_def)
    then show ?thesis using s1(4) s2(4) s3 \<open>e1 = None\<close> \<open>e2 = None\<close> by (simp add: pass_def)
  qed
  ultimately show thesis using that [OF once] s1(3) by simp
qed

text \<open>C16: a retention pass always returns, whatever the database, the context and the settings answer: both
  batch loops end. A pass never loses a result inside the retention window, even when it is cut short, and a
  pass that reports no error has done exactly what three unlimited deletes would do, in that order: the old
  results with their tags, the finished runs left without results, and the expired sessions.\<close>

theorem prune_pass_returns:
  assumes "prune_ok d"
  shows "\<exists>d' j' errs st. Once env now j d = Some (d', j', errs, st) \<and>
    (\<forall>g. General (pe_settings env) d = Inr g \<longrightarrow>
       rows (results_t (pass_results g now d')) = rows (results_t (pass_results g now d)) \<and>
       pj_last j' = st \<and> (errs = [] \<longrightarrow> d' = pass g now d))"
proof (cases "General (pe_settings env) d")
  case (Inl e)
  then show ?thesis by (simp add: Once_def)
next
  case (Inr g)
  from Once_returns [OF assms Inr] obtain d' j' errs st where
    "Once env now j d = Some (d', j', errs, st)" "pj_last j' = st"
    "rows (results_t (pass_results g now d')) = rows (results_t (pass_results g now d))"
    "errs = [] \<longrightarrow> d' = pass g now d" by blast
  then show ?thesis using Inr by auto
qed

subsection \<open>A pass in terms of time\<close>

definition no_prune_faults :: prune_env where
  "no_prune_faults = \<lparr>pe_settings = \<lambda>k. None, pe_ctx = \<lambda>b i. None, pe_del = \<lambda>b i. None, pe_sessions = None\<rparr>"

lemma Once_no_faults:
  assumes "prune_ok d" "General (\<lambda>k. None) d = Inr g"
  shows "\<exists>j' st. Once no_prune_faults now j d = Some (pass g now d, j', [], st)"
proof -
  have ok: "prune_ok (pass_results g now d)"
    using assms(1) by (auto simp: prune_ok_def pass_results_rows distinct_map_filter)
       (simp add: pass_results_def rows_without_old_results)
  have r: "(if g_retention_days_results g > 0
       then drain_results no_prune_faults (pj_batch j) (cutoff now (g_retention_days_results g)) d else Some (d, 0, None)) =
      Some (pass_results g now d, (if g_retention_days_results g > 0
         then length (filter (old_result (cutoff now (g_retention_days_results g))) (rows (results_t d))) else 0), None)"
    using assms(1) results_batch.drain_completes [of d "\<lambda>i. None" "\<lambda>i. None"]
    by (simp add: prune_ok_def pass_results_def drain_results_faulty no_prune_faults_def)
  have q: "(if g_retention_days_runs g > 0
       then drain_runs no_prune_faults (pj_batch j) (cutoff now (g_retention_days_runs g)) (pass_results g now d)
       else Some (pass_results g now d, 0, None)) =
      Some (pass_runs g now (pass_results g now d), (if g_retention_days_runs g > 0
         then length (filter (prunable_run (pass_results g now d) (cutoff now (g_retention_days_runs g)))
            (rows (runs_t (pass_results g now d)))) else 0), None)"
    using ok runs_batch.drain_completes [of "pass_results g now d" "\<lambda>i. None" "\<lambda>i. None"]
    by (simp add: prune_ok_def pass_runs_def drain_runs_faulty no_prune_faults_def)
  have s: "pe_settings no_prune_faults = (\<lambda>k. None)" "pe_sessions no_prune_faults = None"
    by (simp_all add: no_prune_faults_def)
  obtain d3 n3 where d3: "DeleteExpiredSessions None (pass_runs g now (pass_results g now d)) now = (d3, Inr n3)"
    by (auto simp: DeleteExpiredSessions_def Let_def)
  then have "d3 = pass g now d" by (simp add: pass_def)
  then show ?thesis
    by (simp only: Once_def s assms(2) sum.case r q d3 Option.bind.simps prod.case Let_def opt_err_def option.case append.simps) blast
qed

lemma old_result_iff:
  assumes "res_started_at r = Format_frac 3 t" "year4 t" "year4 c"
  shows "old_result (Format_frac 3 c) r \<longleftrightarrow> t div 1000000 < c div 1000000"
  using Format_frac_less_iff [of t c 3] assms by (simp add: old_result_def frac_unit_def)

text \<open>A pass without failures keeps a result exactly when its start lies inside the retention window (to
  the millisecond, the resolution of the stored texts), and expired sessions disappear without any lookup,
  now or later, noticing: comparing stored texts is comparing times.\<close>

theorem retention_window:
  assumes "prune_ok d" "sessions_ok d" "General (\<lambda>k. None) d = Inr g"
    "0 < g_retention_days_results g" "year4 now" "year4 (now - g_retention_days_results g * ns_per_day)"
  shows "\<exists>d' j' st. Once no_prune_faults now j d = Some (d', j', [], st) \<and>
    (\<forall>r t. r \<in> set (rows (results_t d)) \<and> res_started_at r = Format_frac 3 t \<and> year4 t \<longrightarrow>
       (r \<in> set (rows (results_t d')) \<longleftrightarrow>
        (now - g_retention_days_results g * ns_per_day) div 1000000 \<le> t div 1000000)) \<and>
    (\<forall>i later. now \<le> later \<longrightarrow> LookupSession None d' i later = LookupSession None d i later)"
proof -
  let ?c = "now - g_retention_days_results g * ns_per_day"
  obtain j' st where once: "Once no_prune_faults now j d = Some (pass g now d, j', [], st)"
    using Once_no_faults [OF assms(1,3)] by blast
  have res: "rows (results_t (pass g now d)) = filter (\<lambda>r. \<not> old_result (Format_frac 3 ?c) r) (rows (results_t d))"
    using assms(4) by (simp add: pass_def pass_runs_def without_old_runs_simps pass_results_rows cutoff_def)
  have "r \<in> set (rows (results_t (pass g now d))) \<longleftrightarrow> ?c div 1000000 \<le> t div 1000000"
    if "r \<in> set (rows (results_t d))" "res_started_at r = Format_frac 3 t" "year4 t" for r t
    using that old_result_iff [OF that(2,3) assms(6)] by (auto simp: res)
  moreover have "LookupSession None (pass g now d) i later = LookupSession None d i later" if "now \<le> later" for i later
  proof -
    have "sessions_t (pass_runs g now (pass_results g now d)) = sessions_t d"
      by (simp add: pass_runs_def pass_results_def without_old_runs_simps rows_without_old_results)
    then have "LookupSession None (pass_runs g now (pass_results g now d)) i later = LookupSession None d i later"
      "sessions_ok (pass_runs g now (pass_results g now d))"
      using assms(2) by (simp_all add: LookupSession_def sessions_ok_def)
    then show ?thesis using lookup_after_expiry assms(5) that by (simp add: pass_def)
  qed
  ultimately show ?thesis using once by blast
qed

subsection \<open>An example\<close>

lemma general_defaults:
  "default_value ''general.base_url'' = VString ''''" "default_value ''general.timezone'' = VString ''UTC''"
  "default_value ''general.units'' = VString ''Mbps''" "default_value ''general.log_level'' = VString ''info''"
  "default_value ''general.retention_days_results'' = VInt 90" "default_value ''general.retention_days_runs'' = VInt 90"
  "default_value ''general.retention_prune_interval_minutes'' = VInt 60"
  "default_value ''general.sla_download_mbps'' = VFloatPtr None" "default_value ''general.sla_upload_mbps'' = VFloatPtr None"
  "default_value ''general.sla_tolerance_pct'' = VFloatPtr None"
  by (simp_all add: default_value_def defaults_def)

lemma General_unset:
  assumes "settings_t d = Map.empty"
  shows "General (\<lambda>k. None) d = Inr \<lparr>g_base_url = '''', g_timezone = ''UTC'', g_units = ''Mbps'', g_log_level = ''info'',
    g_retention_days_results = 90, g_retention_days_runs = 90, g_retention_prune_interval_minutes = 60,
    g_sla_download_mbps = None, g_sla_upload_mbps = None, g_sla_tolerance_pct = None\<rparr>"
  using assms by (simp add: General_def read_key_def rbind_def Get_def default_raw_def general_defaults
      dec_string_def dec_int_def or_zero_def unm_float_def null_or_def)

definition old_row :: "int \<Rightarrow> time \<Rightarrow> result" where
  "old_row i t = \<lparr>res_id = i, res_run_id = None, res_target_id = None, res_target_name = ''home'', res_engine = ''ookla'',
     res_options_snapshot = RawDoc (JObj []), res_status = ROk, res_error = '''', res_started_at = Format_frac 3 t,
     res_duration_ms = 1, res_download_bps = 1, res_upload_bps = 1, res_ping_ms = 1, res_jitter_ms = 0,
     res_packet_loss_pct = 0, res_bytes_down = 1, res_bytes_up = 1, res_server_id = '''', res_server_name = '''',
     res_server_host = '''', res_isp = '''', res_external_ip = '''', res_result_url = '''', res_raw = RawEmpty\<rparr>"

definition prune_now :: time where
  "prune_now = 700000 * ns_per_day"

definition prune_demo :: db where
  "prune_demo = empty_db\<lparr>results_t := \<lparr>rows = [old_row 1 (prune_now - 91 * ns_per_day), old_row 2 prune_now], seq = 2\<rparr>,
     sessions_t := [session_columns \<lparr>sess_id = ''a'', sess_subject = ''s'', sess_email = '''', sess_name = '''',
       sess_username = '''', sess_groups = [], sess_is_admin = False, sess_created = 0, sess_expires = prune_now\<rparr>]\<rparr>"

lemma prune_times: "year4 prune_now" "year4 (prune_now - 90 * ns_per_day)" "year4 (prune_now - 91 * ns_per_day)" "year4 0"
  by (simp_all add: year4_def prune_now_def ns_per_day_def days_before_year_def)

lemma prune_demo_ok: "prune_ok prune_demo" "sessions_ok prune_demo" "settings_t prune_demo = Map.empty"
proof -
  show "prune_ok prune_demo" by (simp add: prune_ok_def prune_demo_def old_row_def empty_db_def empty_tbl_def)
  show "settings_t prune_demo = Map.empty" by (simp add: prune_demo_def empty_db_def)
  have "session_times_ok \<lparr>sess_id = ''a'', sess_subject = ''s'', sess_email = '''', sess_name = '''',
       sess_username = '''', sess_groups = [], sess_is_admin = False, sess_created = 0, sess_expires = prune_now\<rparr>"
    using prune_times by (simp add: session_times_ok_def)
  then show "sessions_ok prune_demo" unfolding sessions_ok_def prune_demo_def by force
qed

theorem prune_pass_returns_witness:
  "prune_ok prune_demo \<and> (\<exists>d' j' errs st. Once no_prune_faults prune_now (Prune_New 0) prune_demo = Some (d', j', errs, st))"
  using prune_demo_ok(1) prune_pass_returns [OF prune_demo_ok(1), of no_prune_faults prune_now "Prune_New 0"] by blast

theorem retention_window_witness:
  "\<exists>d' j' st. Once no_prune_faults prune_now (Prune_New 0) prune_demo = Some (d', j', [], st) \<and>
     old_row 1 (prune_now - 91 * ns_per_day) \<notin> set (rows (results_t d')) \<and> old_row 2 prune_now \<in> set (rows (results_t d')) \<and>
     LookupSession None d' ''a'' prune_now = LookupSession None prune_demo ''a'' prune_now"
proof -
  note gen = General_unset [OF prune_demo_ok(3)]
  from retention_window [OF prune_demo_ok(1,2) gen, of prune_now "Prune_New 0"] prune_times
  obtain d' j' st where o: "Once no_prune_faults prune_now (Prune_New 0) prune_demo = Some (d', j', [], st)"
    and r: "\<forall>r t. r \<in> set (rows (results_t prune_demo)) \<and> res_started_at r = Format_frac 3 t \<and> year4 t \<longrightarrow>
       (r \<in> set (rows (results_t d')) \<longleftrightarrow> (prune_now - 90 * ns_per_day) div 1000000 \<le> t div 1000000)"
    and l: "\<forall>i later. prune_now \<le> later \<longrightarrow> LookupSession None d' i later = LookupSession None prune_demo i later"
    by auto
  have in_db: "old_row 1 (prune_now - 91 * ns_per_day) \<in> set (rows (results_t prune_demo))"
    "old_row 2 prune_now \<in> set (rows (results_t prune_demo))" by (simp_all add: prune_demo_def)
  have "old_row 1 (prune_now - 91 * ns_per_day) \<notin> set (rows (results_t d'))"
    using r in_db(1) prune_times(3) by (auto simp: old_row_def prune_now_def ns_per_day_def)
  moreover have "old_row 2 prune_now \<in> set (rows (results_t d'))"
    using r in_db(2) prune_times(1) by (auto simp: old_row_def prune_now_def ns_per_day_def)
  ultimately show ?thesis using o l by blast
qed

end
