(* ===== verification/Oidc_Props.thy ===== *)
theory Oidc_Props
  imports Oidc Auth_Props
begin

text \<open>
  The login flow end to end: the state cookie survives the round trip through the browser and only until it
  expires, a session is created only for a signed state and authorised claims, and from then on the
  middleware recognises it until it expires or is logged out.
\<close>

subsection \<open>The state cookie\<close>

lemma Decode_signed:
  assumes "Decode lib key s now = Some (state, verifier, returnTo)"
  shows "\<exists>payload expiry. b64_decode (takeWhile (\<lambda>c. c \<noteq> CHR ''.'') s) = Some payload \<and>
    b64_decode (tl (dropWhile (\<lambda>c. c \<noteq> CHR ''.'') s)) = Some (sign lib key payload) \<and>
    Split payload [CHR 0x00] = [state, verifier, returnTo, expiry] \<and>
    (\<exists>e. ParseInt64 expiry = Some e \<and> now < time_Unix e)"
  using assms by (auto simp: Decode_def split: if_splits option.splits list.splits)

lemma Decode_Encode_eq:
  assumes "CHR 0x00 \<notin> set state" "CHR 0x00 \<notin> set verifier" "CHR 0x00 \<notin> set returnTo"
    "0 \<le> Unix (t + stateTTL)" "Unix (t + stateTTL) < 2^63"
  shows "Decode lib key (Encode lib key t state verifier returnTo) now =
    (if now < time_Unix (Unix (t + stateTTL)) then Some (state, verifier, returnTo) else None)"
proof -
  let ?p = "state_payload state verifier returnTo (Unix (t + stateTTL))"
  let ?enc = "b64_encode ?p @ ''.'' @ b64_encode (sign lib key ?p)"
  have notdot: "\<forall>c\<in>set (b64_encode ?p). c \<noteq> CHR ''.''" using b64_encode_no_dot by metis
  then have tw: "takeWhile (\<lambda>c. c \<noteq> CHR ''.'') ?enc = b64_encode ?p"
    "tl (dropWhile (\<lambda>c. c \<noteq> CHR ''.'') ?enc) = b64_encode (sign lib key ?p)"
    by (auto simp: takeWhile_append2 dropWhile_append2)
  have sp: "Split ?p [CHR 0x00] = [state, verifier, returnTo, Itoa (Unix (t + stateTTL))]"
    unfolding state_payload_def using assms Itoa_no_nul by (intro Split_Join) auto
  have "ParseInt64 (Itoa (Unix (t + stateTTL))) = Some (Unix (t + stateTTL))"
    using assms(4,5) by (rule ParseInt64_Itoa)
  then show ?thesis
    unfolding Decode_def Encode_def Let_def tw by (simp add: sp)
qed

subsection \<open>The callback\<close>

lemma callback_cases:
  assumes "oidcCallback al lib deps now rand flt r d = (d', resp)"
  obtains (unchanged) "d' = d"
  | (created) cfg key verifier returnTo cl isAdmin buf where
      "od_provider deps = Some cfg" "od_key deps = Some key" "od_sessions deps"
      "Decode lib key (Cookie r oidcStateCookie) now = Some (Query_Get r ''state'', verifier, returnTo)"
      "Exchange lib cfg (Query_Get r ''code'') verifier (externalBaseURL r (oc_redirect_base cfg) @ ''/auth/oidc/callback'') = Inr cl"
      "Authorize cfg cl = Some isAdmin" "rand = Some buf"
      "d' = d\<lparr>sessions_t := sessions_t d @ [session_columns (login_session al cfg cl isAdmin (b64_encode buf) now)]\<rparr>"
      "\<forall>row\<in>set (sessions_t d). sr_id row \<noteq> HashSession al (b64_encode buf)"
      "fst resp = Redirect returnTo"
proof (cases "d' = d")
  case False
  obtain cfg key where dep: "od_provider deps = Some cfg" "od_key deps = Some key"
    using assms False by (auto simp: oidcCallback_def split: option.splits)
  let ?uri = "externalBaseURL r (oc_redirect_base cfg) @ ''/auth/oidc/callback''"
  let ?cookie = "Cookie r oidcStateCookie"
  note unf = assms [unfolded oidcCallback_def dep Let_def prod.case option.case]
  have q: "Query_Get r ''error'' = []" "?cookie \<noteq> []"
    using unf False by (auto split: if_splits)
  obtain want verifier returnTo where dec: "Decode lib key ?cookie now = Some (want, verifier, returnTo)"
    using unf False q by (cases "Decode lib key ?cookie now") auto
  note unf2 = unf [unfolded dec option.case prod.case]
  have st: "want = Query_Get r ''state''" "Query_Get r ''code'' \<noteq> []"
    using unf2 False q by (auto split: if_splits)
  obtain cl where ex: "Exchange lib cfg (Query_Get r ''code'') verifier ?uri = Inr cl"
    using unf2 False q st by (cases "Exchange lib cfg (Query_Get r ''code'') verifier ?uri") auto
  note unf3 = unf2 [unfolded ex sum.case]
  obtain isAdmin where au: "Authorize cfg cl = Some isAdmin"
    using unf3 False q st by (cases "Authorize cfg cl") auto
  note unf4 = unf3 [unfolded au option.case]
  have se: "od_sessions deps" using unf4 False q st by (auto split: if_splits)
  obtain buf where ra: "rand = Some buf"
    using unf4 False q st se by (cases rand) (auto simp: GenerateSessionID_def)
  let ?s = "login_session al cfg cl isAdmin (b64_encode buf) now"
  obtain d1 res where cr: "CreateSession flt d ?s = (d1, res)" by fastforce
  have d1: "d' = d1" "res = Inr () \<Longrightarrow> fst resp = Redirect returnTo"
    using unf4 q st se ra cr by (auto simp: GenerateSessionID_def split: sum.splits)
  have "d1 = d\<lparr>sessions_t := sessions_t d @ [session_columns ?s]\<rparr>" "res = Inr ()"
    "\<forall>row\<in>set (sessions_t d). sr_id row \<noteq> HashSession al (b64_encode buf)"
    using cr False d1(1) by (auto simp: CreateSession_def login_session_def split: option.splits if_splits)
  then show thesis using created dep se dec [unfolded st] ex au ra d1 by simp
qed (rule unchanged)


text \<open>The state cookie of the login flow round-trips: what \<open>Encode\<close> packed comes back from \<open>Decode\<close> until
  the five minutes are over and is refused from then on, and nothing else is ever accepted than a payload
  carrying this process's signature. The packed parts must not contain the NUL separator: the state and the
  verifier are base 64, and a return path with control characters does not parse as a URL.\<close>

theorem login_state_roundtrip:
  assumes "CHR 0x00 \<notin> set state" "CHR 0x00 \<notin> set verifier" "CHR 0x00 \<notin> set returnTo"
    "0 \<le> Unix (t + stateTTL)" "Unix (t + stateTTL) < 2^63"
  shows "Decode lib key (Encode lib key t state verifier returnTo) now =
      (if now < time_Unix (Unix (t + stateTTL)) then Some (state, verifier, returnTo) else None) \<and>
    (Decode lib key s now = Some (a, b, c) \<longrightarrow>
      (\<exists>payload. b64_decode (takeWhile (\<lambda>c. c \<noteq> CHR ''.'') s) = Some payload \<and>
        b64_decode (tl (dropWhile (\<lambda>c. c \<noteq> CHR ''.'') s)) = Some (ol_hmac lib key payload)))"
  using Decode_Encode_eq [OF assms] Decode_signed [of lib key s now a b c] by (auto simp: sign_def)

text \<open>A login callback touches the session table only when the request carried a state cookie signed by
  this process and not yet expired, its \<open>state\<close> parameter equals the signed one, the provider vouched for
  the claims under the signed verifier, and the claims pass the configured group and address rules; it then
  adds exactly one session, for those claims, stored under the hash of the cookie it sets and expiring
  after the configured lifetime.\<close>

theorem session_needs_authorised_login:
  assumes "oidcCallback al lib deps now rand flt r d = (d', resp)" "d' \<noteq> d"
  shows "\<exists>cfg key payload verifier returnTo expiry cl isAdmin buf.
    od_provider deps = Some cfg \<and> od_key deps = Some key \<and>
    b64_decode (takeWhile (\<lambda>c. c \<noteq> CHR ''.'') (Cookie r oidcStateCookie)) = Some payload \<and>
    b64_decode (tl (dropWhile (\<lambda>c. c \<noteq> CHR ''.'') (Cookie r oidcStateCookie))) = Some (ol_hmac lib key payload) \<and>
    Split payload [CHR 0x00] = [Query_Get r ''state'', verifier, returnTo, expiry] \<and>
    (\<exists>e. ParseInt64 expiry = Some e \<and> now < time_Unix e) \<and>
    Exchange lib cfg (Query_Get r ''code'') verifier
      (externalBaseURL r (oc_redirect_base cfg) @ ''/auth/oidc/callback'') = Inr cl \<and>
    (oc_allowed_groups cfg = [] \<or> intersects (cl_groups cl) (oc_allowed_groups cfg)) \<and>
    (oc_allowed_emails cfg = [] \<or> containsFold (oc_allowed_emails cfg) (cl_email cl) \<and> \<not> cl_email_unverified cl) \<and>
    isAdmin = (oc_admin_group cfg = [] \<or> containsFold (cl_groups cl) (oc_admin_group cfg)) \<and>
    rand = Some buf \<and>
    d' = d\<lparr>sessions_t := sessions_t d @ [session_columns (login_session al cfg cl isAdmin (b64_encode buf) now)]\<rparr>"
  using assms(1)
proof (cases rule: callback_cases)
  case (created cfg key verifier returnTo cl isAdmin buf)
  from Decode_signed [OF created(4)] obtain payload expiry where p:
    "b64_decode (takeWhile (\<lambda>c. c \<noteq> CHR ''.'') (Cookie r oidcStateCookie)) = Some payload"
    "b64_decode (tl (dropWhile (\<lambda>c. c \<noteq> CHR ''.'') (Cookie r oidcStateCookie))) = Some (ol_hmac lib key payload)"
    "Split payload [CHR 0x00] = [Query_Get r ''state'', verifier, returnTo, expiry]"
    "\<exists>e. ParseInt64 expiry = Some e \<and> now < time_Unix e" by (auto simp: sign_def)
  have "oc_allowed_groups cfg = [] \<or> intersects (cl_groups cl) (oc_allowed_groups cfg)"
    "oc_allowed_emails cfg = [] \<or> containsFold (oc_allowed_emails cfg) (cl_email cl) \<and> \<not> cl_email_unverified cl"
    "isAdmin = (oc_admin_group cfg = [] \<or> containsFold (cl_groups cl) (oc_admin_group cfg))"
    using created(6) by (auto simp: Authorize_def split: if_splits)
  then show ?thesis using created(1,2,5,7,8) p by blast
qed (use assms in simp)

subsection \<open>From login to logout\<close>

lemma find_snoc_fresh:
  "\<forall>row\<in>set rs. key row \<noteq> key x \<Longrightarrow> find (\<lambda>r. key r = key x) (rs @ [x]) = Some x"
proof -
  assume "\<forall>row\<in>set rs. key row \<noteq> key x"
  then have "find (\<lambda>r. key r = key x) rs = None" by (simp only: find_None)
  then show ?thesis by (simp add: find_append)
qed

text \<open>A session cookie in OIDC mode, for a store that holds or does not hold its session.\<close>

lemma oidc_mode_session:
  assumes "ac_mode (mw_cfg m) = ''oidc''" "mw_sessions m" "Cookie q SessionCookie = plain" "plain \<noteq> []" "bearerToken q = None"
  shows "Handler al toks (storeSessions_LookupSession None d) now q m =
    (case LookupSession None d (HashSession al plain) now of
       Inl e \<Rightarrow> (m, Unavailable503)
     | Inr None \<Rightarrow> (m, Refused401)
     | Inr (Some s) \<Rightarrow>
         (m, Served \<lparr>id_mode = ''oidc'', id_user = (if sess_email s = [] then sess_subject s else sess_email s),
            id_email = sess_email s, id_name = sess_name s, id_username = sess_username s, id_groups = sess_groups s,
            id_is_admin = sess_is_admin s, id_token_id = 0, id_source = ''oidc''\<rparr>))"
  using assms
  by (auto simp: Handler_def Identify_def Let_def identifySession_def storeSessions_LookupSession_def split: sum.split option.split)

lemma lookup_new_session:
  assumes "session_times_ok s" "\<forall>row\<in>set (sessions_t d). sr_id row \<noteq> sess_id s"
  shows "LookupSession None (d\<lparr>sessions_t := sessions_t d @ [session_columns s]\<rparr>) (sess_id s) now =
    Inr (if now < sess_expires s then Some s else None)"
proof -
  have "find (\<lambda>r. sr_id r = sess_id s) (sessions_t d @ [session_columns s]) = Some (session_columns s)"
    using find_snoc_fresh [of "sessions_t d" sr_id "session_columns s"] assms(2) by (simp add: session_columns_def)
  then show ?thesis using scan_session_columns [OF assms(1)] by (simp add: LookupSession_def)
qed

lemma lookup_deleted_session: "LookupSession None (fst (DeleteSession None d i)) i now = Inr None"
proof -
  have "find (\<lambda>r. sr_id r = i) (delete_where (\<lambda>r. sr_id r = i) (sessions_t d)) = None"
    unfolding find_None by (simp add: delete_where_def)
  then show ?thesis by (simp add: LookupSession_def DeleteSession_def)
qed



subsection \<open>An example\<close>

definition demo_oidc :: oidc_lib where
  "demo_oidc = \<lparr>ol_hmac = (\<lambda>k p. ''mac''), ol_url = (\<lambda>s. None), ol_auth_url = (\<lambda>s v u. ''https://idp/''),
     ol_id_token = (\<lambda>c v u. Inr (''u1'', [''email'' \<mapsto> JStr ''a@b'', ''groups'' \<mapsto> JArr [JStr ''ops'']])),
     ol_userinfo_endpoint = [], ol_userinfo = (\<lambda>c. Inl ''none'')\<rparr>"

definition demo_oidc_config :: oidc_config where
  "demo_oidc_config = \<lparr>oc_issuer = ''https://idp'', oc_client_id = ''id'', oc_client_secret = ''s'', oc_redirect_base = ''https://home'', oc_scopes = [], oc_groups_claim = ''groups'',
     oc_admin_group = ''OPS'', oc_allowed_groups = [], oc_allowed_emails = [''A@b''], oc_session_ttl = Hour\<rparr>"

definition demo_deps :: oidc_deps where
  "demo_deps = \<lparr>od_provider = Some demo_oidc_config, od_key = Some ''k'', od_sessions = True\<rparr>"

definition demo_state :: string where
  "demo_state = Encode demo_oidc ''k'' unix_epoch (b64_encode ''rnd'') ''ver'' ''/runs''"

definition callback_request :: request where
  "callback_request = \<lparr>rq_headers = [], rq_cookies = [oidcStateCookie \<mapsto> demo_state], rq_remote = [], rq_host = ''home'',
     rq_tls = True, rq_method = ''GET'', rq_path = ''/auth/oidc/callback'',
     rq_query = [''state'' \<mapsto> b64_encode ''rnd'', ''code'' \<mapsto> ''c'']\<rparr>"

definition session_request :: request where
  "session_request = \<lparr>rq_headers = [], rq_cookies = [SessionCookie \<mapsto> b64_encode ''sess''], rq_remote = [], rq_host = ''home'',
     rq_tls = True, rq_method = ''POST'', rq_path = ''/api/v1/runs'', rq_query = Map.empty\<rparr>"

lemma demo_unix: "Unix (unix_epoch + stateTTL) = 300" "time_Unix 300 = unix_epoch + 300 * ns_per_sec"
  by (simp_all add: Unix_def time_Unix_def stateTTL_def duration_defs)

lemma demo_decode:
  "Decode demo_oidc ''k'' demo_state unix_epoch = Some (b64_encode ''rnd'', ''ver'', ''/runs'')"
  unfolding demo_state_def using b64_encode_no_nul [of "''rnd''"]
  by (subst Decode_Encode_eq) (simp_all add: demo_unix ns_per_sec_def)

definition demo_claims :: claims where
  "demo_claims = \<lparr>cl_subject = ''u1'', cl_email = ''a@b'', cl_name = [], cl_username = [], cl_groups = [''ops''],
     cl_email_unverified = False, cl_userinfo_err = None\<rparr>"

lemma demo_exchange: "Exchange demo_oidc demo_oidc_config c v u = Inr demo_claims"
  by (simp add: Exchange_def demo_oidc_def demo_oidc_config_def demo_claims_def fill_def fill_field_def unverified_def
      extractGroups_def Let_def)

lemma demo_authorize: "Authorize demo_oidc_config demo_claims = Some True"
  by code_simp

lemma demo_login:
  obtains d' resp where "oidcCallback demo_lib demo_oidc demo_deps unix_epoch (Some ''sess'') None callback_request empty_db = (d', resp)"
    "d' \<noteq> empty_db"
proof -
  have q: "Query_Get callback_request ''error'' = []" "Query_Get callback_request ''state'' = b64_encode ''rnd''"
    "Query_Get callback_request ''code'' = ''c''" "Cookie callback_request oidcStateCookie = demo_state"
    by (simp_all add: Query_Get_def Cookie_def callback_request_def)
  have ne: "demo_state \<noteq> []" by (simp add: demo_state_def Encode_def Let_def)
  have dep: "od_provider demo_deps = Some demo_oidc_config" "od_key demo_deps = Some ''k''" "od_sessions demo_deps"
    by (simp_all add: demo_deps_def)
  have "fst (oidcCallback demo_lib demo_oidc demo_deps unix_epoch (Some ''sess'') None callback_request empty_db) =
      empty_db\<lparr>sessions_t := [session_columns (login_session demo_lib demo_oidc_config demo_claims True (b64_encode ''sess'') unix_epoch)]\<rparr>"
    by (simp add: oidcCallback_def dep q ne demo_decode demo_exchange demo_authorize Let_def GenerateSessionID_def
        CreateSession_def empty_db_def)
  moreover have "empty_db\<lparr>sessions_t := [x]\<rparr> \<noteq> empty_db" for x by (simp add: empty_db_def)
  ultimately show thesis using that by (metis surjective_pairing)
qed

theorem login_state_roundtrip_witness:
  "Decode demo_oidc ''k'' (Encode demo_oidc ''k'' unix_epoch ''st'' ''ver'' ''/runs'') unix_epoch = Some (''st'', ''ver'', ''/runs'') \<and>
   Decode demo_oidc ''k'' (Encode demo_oidc ''k'' unix_epoch ''st'' ''ver'' ''/runs'') (unix_epoch + 300 * ns_per_sec) = None"
proof -
  have h: "CHR 0x00 \<notin> set ''st''" "CHR 0x00 \<notin> set ''ver''" "CHR 0x00 \<notin> set ''/runs''"
    "0 \<le> Unix (unix_epoch + stateTTL)" "Unix (unix_epoch + stateTTL) < 2^63" by (simp_all add: demo_unix)
  note rt = conjunct1 [OF login_state_roundtrip [OF h]]
  show ?thesis unfolding rt by (simp add: demo_unix ns_per_sec_def)
qed

theorem session_needs_authorised_login_witness:
  "\<exists>d' resp cl. oidcCallback demo_lib demo_oidc demo_deps unix_epoch (Some ''sess'') None callback_request empty_db = (d', resp) \<and>
     d' \<noteq> empty_db \<and> containsFold (oc_allowed_emails demo_oidc_config) (cl_email cl) \<and>
     (\<exists>isAdmin. d' = empty_db\<lparr>sessions_t :=
        [session_columns (login_session demo_lib demo_oidc_config cl isAdmin (b64_encode ''sess'') unix_epoch)]\<rparr>)"
proof -
  from demo_login obtain d' resp where l:
    "oidcCallback demo_lib demo_oidc demo_deps unix_epoch (Some ''sess'') None callback_request empty_db = (d', resp)" "d' \<noteq> empty_db"
    by blast
  have e: "sessions_t empty_db = []" "od_provider demo_deps = Some demo_oidc_config"
    by (simp_all add: empty_db_def demo_deps_def)
  have "oc_allowed_emails demo_oidc_config \<noteq> []" by (simp add: demo_oidc_config_def)
  then show ?thesis using session_needs_authorised_login [OF l] l e by auto
qed


end
