(* ===== verification/Vm_Format.thy ===== *)
theory Vm_Format
  imports Settings_Body Result_Store
begin

text \<open>
  The VictoriaMetrics payload: \<open>internal/vmpush/format.go\<close>. \<open>strconv.FormatFloat(v, 'g', -1, 64)\<close> is the argument
  \<open>fmt\<close>, since the model's numbers are rationals; the only thing used of it is that its text has no space
  and no line break. The map of extra labels is the list of its entries.
\<close>

subsection \<open>Times\<close>

text \<open>The fraction of layout \<open>.999999999\<close>: absent, or any number of digits of which nine count.\<close>

definition get_frac_any :: "string \<Rightarrow> int \<times> string" where
  "get_frac_any s =
     (case s of
        c # d # rest \<Rightarrow>
          if (c = CHR ''.'' \<or> c = CHR '','') \<and> is_digit d
          then let ds = takeWhile is_digit (d # rest); nine = take 9 ds
               in (digits_val nine * 10 ^ (9 - length nine), dropWhile is_digit (d # rest))
          else (0, s)
      | _ \<Rightarrow> (0, s))"

text \<open>The zone of layout \<open>Z07:00\<close>, in seconds east of UTC.\<close>

definition get_zone :: "string \<Rightarrow> int option" where
  "get_zone s =
     (if s = ''Z'' then Some 0
      else case s of
        sign1 # rest \<Rightarrow>
          if sign1 \<noteq> CHR ''+'' \<and> sign1 \<noteq> CHR ''-'' then None
          else Option.bind (getnum True rest) (\<lambda>(h, s1).
               Option.bind (lit CHR '':'' s1) (\<lambda>s2.
               Option.bind (getnum True s2) (\<lambda>(m, s3).
                 if s3 \<noteq> [] \<or> 24 < h \<or> 60 < m then None
                 else Some ((if sign1 = CHR ''-'' then -1 else 1) * (3600 * h + 60 * m)))))
      | [] \<Rightarrow> None)"

definition Parse_RFC3339Nano :: "string \<Rightarrow> time option" where
  "Parse_RFC3339Nano s0 =
     Option.bind (get_date s0) (\<lambda>((y, m, d), s1).
     Option.bind (lit CHR ''T'' s1) (\<lambda>s2.
     Option.bind (get_clock s2) (\<lambda>(sec, s3).
       case get_frac_any s3 of (ns, s4) \<Rightarrow>
         Option.bind (get_zone s4) (\<lambda>off.
           if d < 1 \<or> month_days y ! nat (m - 1) < d then None
           else Some (day_number y m d * ns_per_day + (sec - off) * ns_per_sec + ns)))))"

definition timestampMillis :: "time \<Rightarrow> string \<Rightarrow> int" where
  "timestampMillis now s =
     (case Parse_frac 3 s of
        Some t \<Rightarrow> UnixMilli t
      | None \<Rightarrow> (case Parse_RFC3339Nano s of Some t \<Rightarrow> UnixMilli t | None \<Rightarrow> UnixMilli now))"

subsection \<open>Labels\<close>

definition esc_char :: "char \<Rightarrow> string" where
  "esc_char c =
     (if c = CHR 0x5C then [CHR 0x5C, CHR 0x5C]
      else if c = CHR 0x22 then [CHR 0x5C, CHR 0x22]
      else if c = CHR 0x0A then [CHR 0x5C, CHR ''n'']
      else [c])"

definition labelEscaper :: "string \<Rightarrow> string" where
  "labelEscaper s = concat (map esc_char s)"

definition validLabelName :: "string \<Rightarrow> bool" where
  "validLabelName s = settingsKeyPattern s"

definition builtinLabels :: "string list" where
  "builtinLabels = [''target'', ''target_id'', ''engine'', ''server_id'', ''server_name'', ''isp'', ''schedule'']"

record meta =
  meta_schedule :: string

text \<open>The pairs the label block carries, in order.\<close>

definition extra_pairs :: "(string \<times> string) list \<Rightarrow> (string \<times> string) list" where
  "extra_pairs extra =
     map (\<lambda>k. (k, the (map_of extra k)))
       (filter (\<lambda>k. k \<notin> set builtinLabels \<and> validLabelName k) (sort (remdups (map fst extra))))"

definition label_pairs :: "result \<Rightarrow> meta \<Rightarrow> (string \<times> string) list \<Rightarrow> (string \<times> string) list" where
  "label_pairs res meta extra =
     [(''target'', res_target_name res),
      (''target_id'', case res_target_id res of None \<Rightarrow> [] | Some i \<Rightarrow> Itoa i),
      (''engine'', res_engine res),
      (''server_id'', res_server_id res),
      (''server_name'', res_server_name res),
      (''isp'', res_isp res),
      (''schedule'', meta_schedule meta)] @ extra_pairs extra"

definition kv :: "string \<times> string \<Rightarrow> string" where
  "kv p = fst p @ ''='' @ [CHR 0x22] @ labelEscaper (snd p) @ [CHR 0x22] @ '',''"

definition TrimSuffix :: "string \<Rightarrow> string \<Rightarrow> string" where
  "TrimSuffix s suf = (if length suf \<le> length s \<and> drop (length s - length suf) s = suf then take (length s - length suf) s else s)"

definition buildLabels :: "result \<Rightarrow> meta \<Rightarrow> (string \<times> string) list \<Rightarrow> string" where
  "buildLabels res meta extra = TrimSuffix (''{'' @ concat (map kv (label_pairs res meta extra))) '','' @ ''}''"

subsection \<open>Lines\<close>

definition metric_line :: "(float64 \<Rightarrow> string) \<Rightarrow> string \<Rightarrow> int \<Rightarrow> string \<times> float64 \<Rightarrow> string" where
  "metric_line fmt labels ts m = fst m @ labels @ '' '' @ fmt (snd m) @ '' '' @ Itoa ts @ [CHR 0x0A]"

definition metrics_of :: "result \<Rightarrow> (string \<times> float64) list" where
  "metrics_of res =
     (if res_status res \<noteq> RFailed then
        [(''speedtest_download_bps'', res_download_bps res), (''speedtest_upload_bps'', res_upload_bps res),
         (''speedtest_ping_ms'', res_ping_ms res), (''speedtest_jitter_ms'', res_jitter_ms res),
         (''speedtest_packet_loss_pct'', res_packet_loss_pct res)]
      else []) @
     [(''speedtest_run_success'', if res_status res = ROk then 1 else 0),
      (''speedtest_duration_ms'', of_int (res_duration_ms res))]"

definition Format :: "(float64 \<Rightarrow> string) \<Rightarrow> time \<Rightarrow> result \<Rightarrow> meta \<Rightarrow> (string \<times> string) list \<Rightarrow> string" where
  "Format fmt now res meta extra =
     concat (map (metric_line fmt (buildLabels res meta extra) (timestampMillis now (res_started_at res))) (metrics_of res))"

subsection \<open>Reading the payload\<close>

text \<open>A reader of the Prometheus text format, the specification the payload is measured against. A label value ends at
  the first quote that is not escaped.\<close>

fun read_value :: "string \<Rightarrow> (string \<times> string) option" where
  "read_value [] = None"
| "read_value (c # cs) =
     (if c = CHR 0x22 then Some ([], cs)
      else if c = CHR 0x5C then
        (case cs of
           [] \<Rightarrow> None
         | d # ds \<Rightarrow>
             if d = CHR ''n'' then map_option (\<lambda>(v, r). (CHR 0x0A # v, r)) (read_value ds)
             else if d = CHR 0x5C \<or> d = CHR 0x22 then map_option (\<lambda>(v, r). (d # v, r)) (read_value ds)
             else None)
      else if c = CHR 0x0A then None
      else map_option (\<lambda>(v, r). (c # v, r)) (read_value cs))"

lemma read_value_shorter: "read_value s = Some (v, r) \<Longrightarrow> length r < length s"
  by (induction s arbitrary: v r rule: read_value.induct) (auto split: if_splits list.splits, force+)

definition read_until :: "char \<Rightarrow> string \<Rightarrow> (string \<times> string) option" where
  "read_until x s = (if x \<in> set s then Some (takeWhile (\<lambda>c. c \<noteq> x) s, tl (dropWhile (\<lambda>c. c \<noteq> x) s)) else None)"

lemma read_until_shorter: "read_until x s = Some (v, r) \<Longrightarrow> length r < length s"
proof -
  assume "read_until x s = Some (v, r)"
  then have "x \<in> set s" "r = tl (dropWhile (\<lambda>c. c \<noteq> x) s)" by (auto simp: read_until_def split: if_splits)
  moreover have "length (dropWhile (\<lambda>c. c \<noteq> x) s) \<le> length s" by (rule length_dropWhile_le)
  moreover have "dropWhile (\<lambda>c. c \<noteq> x) s \<noteq> []" using calculation by (auto simp: dropWhile_eq_Nil_conv)
  ultimately show "length r < length s" by (cases "dropWhile (\<lambda>c. c \<noteq> x) s") auto
qed

text \<open>The pairs up to the closing brace, and the rest of the line.\<close>

function read_pairs :: "string \<Rightarrow> ((string \<times> string) list \<times> string) option" where
  "read_pairs s =
     (case read_until (CHR ''='') s of
        Some (name, CHR 0x22 # rest) \<Rightarrow>
          (case read_value rest of
             Some (v, CHR '','' # rest') \<Rightarrow> map_option (\<lambda>(ps, r). ((name, v) # ps, r)) (read_pairs rest')
           | Some (v, CHR 0x7D # rest') \<Rightarrow> Some ([(name, v)], rest')
           | _ \<Rightarrow> None)
      | _ \<Rightarrow> None)"
  by pat_completeness auto
termination
  by (relation "measure length") (auto dest!: read_value_shorter read_until_shorter)

type_synonym sample = "string \<times> (string \<times> string) list \<times> string \<times> string"

definition read_sample :: "string \<Rightarrow> (sample \<times> string) option" where
  "read_sample s =
     Option.bind (read_until (CHR 0x7B) s) (\<lambda>(name, s1).
     Option.bind (read_pairs s1) (\<lambda>(ps, s2).
     Option.bind (lit (CHR '' '') s2) (\<lambda>s3.
     Option.bind (read_until (CHR '' '') s3) (\<lambda>(v, s4).
     Option.bind (read_until (CHR 0x0A) s4) (\<lambda>(ts, s5).
       Some ((name, ps, v, ts), s5))))))"

function read_samples :: "string \<Rightarrow> sample list option" where
  "read_samples s =
     (if s = [] then Some []
      else case read_sample s of
             None \<Rightarrow> None
           | Some (x, rest) \<Rightarrow> if length rest < length s then map_option ((#) x) (read_samples rest) else None)"
  by pat_completeness auto
termination by (relation "measure length") auto

declare read_pairs.simps [simp del] read_samples.simps [simp del]

subsection \<open>The payload reads back\<close>

lemma read_value_escaped: "read_value (labelEscaper v @ CHR 0x22 # rest) = Some (v, rest)"
  by (induction v) (simp_all add: labelEscaper_def esc_char_def)

lemma read_until_piece: "x \<notin> set p \<Longrightarrow> read_until x (p @ x # rest) = Some (p, rest)"
  by (induction p) (auto simp: read_until_def)

definition pair_text :: "string \<times> string \<Rightarrow> string" where
  "pair_text p = fst p @ ''='' @ [CHR 0x22] @ labelEscaper (snd p) @ [CHR 0x22]"

lemma kv_eq: "kv p = pair_text p @ '',''"
  by (simp add: kv_def pair_text_def)

lemma read_pairs_block:
  assumes "ps \<noteq> []" "\<forall>p\<in>set ps. CHR ''='' \<notin> set (fst p)"
  shows "read_pairs (Join (map pair_text ps) '','' @ CHR 0x7D # rest) = Some (ps, rest)"
  using assms
proof (induction ps rule: induct_list012)
  case (2 p)
  have "read_until (CHR ''='') (fst p @ CHR ''='' # CHR 0x22 # labelEscaper (snd p) @ CHR 0x22 # CHR 0x7D # rest) =
      Some (fst p, CHR 0x22 # labelEscaper (snd p) @ CHR 0x22 # CHR 0x7D # rest)"
    using 2 by (intro read_until_piece) simp
  then show ?case by (subst read_pairs.simps) (simp add: pair_text_def read_value_escaped)
next
  case (3 p q ps)
  let ?r = "Join (map pair_text (q # ps)) '','' @ CHR 0x7D # rest"
  have "read_until (CHR ''='') (fst p @ CHR ''='' # CHR 0x22 # labelEscaper (snd p) @ CHR 0x22 # CHR '','' # ?r) =
      Some (fst p, CHR 0x22 # labelEscaper (snd p) @ CHR 0x22 # CHR '','' # ?r)"
    using 3 by (intro read_until_piece) simp
  moreover have "read_pairs ?r = Some (q # ps, rest)" using 3 by simp
  ultimately show ?case by (subst read_pairs.simps) (simp add: pair_text_def read_value_escaped)
qed simp

lemma concat_kv: "ps \<noteq> [] \<Longrightarrow> concat (map kv ps) = Join (map pair_text ps) '','' @ '',''"
  by (induction ps rule: induct_list012) (simp_all add: kv_eq)

lemma TrimSuffix_append [simp]: "TrimSuffix (s @ suf) suf = s"
  by (simp add: TrimSuffix_def)

lemma buildLabels_eq: "buildLabels res meta extra = ''{'' @ Join (map pair_text (label_pairs res meta extra)) '','' @ ''}''"
proof -
  have "label_pairs res meta extra \<noteq> []" by (simp add: label_pairs_def)
  then have "''{'' @ concat (map kv (label_pairs res meta extra)) =
      (''{'' @ Join (map pair_text (label_pairs res meta extra)) '','') @ '',''" by (simp add: concat_kv)
  then show ?thesis by (simp only: buildLabels_def TrimSuffix_append) simp
qed

lemma ident_no_eq: "settingsKeyPattern k \<Longrightarrow> CHR ''='' \<notin> set k"
proof -
  have "\<not> ident_start (CHR ''='')" "\<not> is_digit (CHR ''='')" by code_simp+
  then show "settingsKeyPattern k \<Longrightarrow> CHR ''='' \<notin> set k"
    by (cases k) (auto simp: settingsKeyPattern_def list_all_iff)
qed

lemma label_names: "\<forall>p\<in>set (label_pairs res meta extra). CHR ''='' \<notin> set (fst p)"
  by (auto simp: label_pairs_def extra_pairs_def validLabelName_def dest: ident_no_eq)

lemma metric_names: "m \<in> set (metrics_of res) \<Longrightarrow> CHR 0x7B \<notin> set (fst m)"
  by (auto simp: metrics_of_def split: if_splits)

lemma nat_digits_digits: "c \<in> set (nat_digits n) \<Longrightarrow> is_digit c"
  using nat_digits_props [of n] by (auto simp: list_all_iff)

lemma Itoa_no_break: "CHR 0x0A \<notin> set (Itoa n)"
proof -
  have "\<not> is_digit (CHR 0x0A)" by code_simp
  then show ?thesis by (auto simp: Itoa_def dest: nat_digits_digits)
qed

lemma read_line:
  assumes "m \<in> set (metrics_of res)" "\<forall>x. CHR '' '' \<notin> set (fmt x) \<and> CHR 0x0A \<notin> set (fmt x)"
  shows "read_sample (metric_line fmt (buildLabels res meta extra) ts m @ rest) =
    Some ((fst m, label_pairs res meta extra, fmt (snd m), Itoa ts), rest)"
proof -
  let ?L = "Join (map pair_text (label_pairs res meta extra)) '',''"
  let ?t = "CHR '' '' # fmt (snd m) @ CHR '' '' # Itoa ts @ CHR 0x0A # rest"
  have "metric_line fmt (buildLabels res meta extra) ts m @ rest = fst m @ CHR 0x7B # ?L @ CHR 0x7D # ?t"
    by (simp add: metric_line_def buildLabels_eq)
  moreover have "read_until (CHR 0x7B) (fst m @ CHR 0x7B # ?L @ CHR 0x7D # ?t) = Some (fst m, ?L @ CHR 0x7D # ?t)"
    using metric_names [OF assms(1)] by (rule read_until_piece)
  moreover have "read_pairs (?L @ CHR 0x7D # ?t) = Some (label_pairs res meta extra, ?t)"
    by (rule read_pairs_block [OF _ label_names]) (simp add: label_pairs_def)
  moreover have "read_until (CHR '' '') (fmt (snd m) @ CHR '' '' # Itoa ts @ CHR 0x0A # rest) = Some (fmt (snd m), Itoa ts @ CHR 0x0A # rest)"
    using assms(2) by (intro read_until_piece) simp
  moreover have "read_until (CHR 0x0A) (Itoa ts @ CHR 0x0A # rest) = Some (Itoa ts, rest)"
    using Itoa_no_break by (rule read_until_piece)
  ultimately show ?thesis by (simp add: read_sample_def)
qed

lemma read_lines:
  assumes "set ms \<subseteq> set (metrics_of res)" "\<forall>x. CHR '' '' \<notin> set (fmt x) \<and> CHR 0x0A \<notin> set (fmt x)"
  shows "read_samples (concat (map (metric_line fmt (buildLabels res meta extra) ts) ms)) =
    Some (map (\<lambda>m. (fst m, label_pairs res meta extra, fmt (snd m), Itoa ts)) ms)"
  using assms(1)
proof (induction ms)
  case Nil
  then show ?case by (simp add: read_samples.simps)
next
  case (Cons m ms)
  let ?l = "metric_line fmt (buildLabels res meta extra) ts" and ?r = "concat (map (metric_line fmt (buildLabels res meta extra) ts) ms)"
  have "?l m \<noteq> []" by (simp add: metric_line_def)
  then have "length ?r < length (?l m @ ?r)" "?l m @ ?r \<noteq> []" by simp_all
  with read_line [of m res fmt meta extra ts ?r] assms(2) Cons show ?case
    by (simp add: read_samples.simps [of "?l m @ ?r"])
qed

text \<open>C26: whatever texts a result carries (target and server names, provider, schedule, extra labels with any bytes), the
  payload of a push reads back, by the rules of the exposition format, as exactly the intended samples: one per metric
  (no throughput or latency for a failed test), all with the same time, the seven built-in labels with the exact
  values and then the extra labels with a valid name that is not built in, in order. No value can end a label, a
  block or a line early. Every label set the settings API accepts is exported whole.\<close>

theorem pushed_samples_read_back:
  assumes "\<forall>x. CHR '' '' \<notin> set (fmt x) \<and> CHR 0x0A \<notin> set (fmt x)"
  shows "read_samples (Format fmt now res meta extra) =
      Some (map (\<lambda>(name, v). (name, label_pairs res meta extra, fmt v, Itoa (timestampMillis now (res_started_at res)))) (metrics_of res)) \<and>
    (validateKeys extra vmReservedLabels = None \<longrightarrow> set (map fst (label_pairs res meta extra)) = set builtinLabels \<union> fst ` set extra)"
proof
  show "read_samples (Format fmt now res meta extra) =
      Some (map (\<lambda>(name, v). (name, label_pairs res meta extra, fmt v, Itoa (timestampMillis now (res_started_at res)))) (metrics_of res))"
    using read_lines [OF subset_refl assms] by (simp add: Format_def case_prod_beta')
  have first: "firstErr es = None \<longleftrightarrow> (\<forall>e\<in>set es. e = None)" for es
    by (induction es rule: firstErr.induct) auto
  show "validateKeys extra vmReservedLabels = None \<longrightarrow> set (map fst (label_pairs res meta extra)) = set builtinLabels \<union> fst ` set extra"
  proof
    assume v: "validateKeys extra vmReservedLabels = None"
    have "settingsKeyPattern k \<and> k \<notin> set vmReservedLabels" if "k \<in> fst ` set extra" for k
      using v that by (auto simp: validateKeys_def first check_def split: if_splits)
    then have all: "\<forall>k\<in>fst ` set extra. k \<notin> set builtinLabels \<and> validLabelName k"
      by (simp add: builtinLabels_def vmReservedLabels_def validLabelName_def)
    have "fst ` set (extra_pairs extra) = {k \<in> fst ` set extra. k \<notin> set builtinLabels \<and> validLabelName k}"
      by (simp add: extra_pairs_def image_image)
    then have "fst ` set (extra_pairs extra) = fst ` set extra" using all by blast
    then show "set (map fst (label_pairs res meta extra)) = set builtinLabels \<union> fst ` set extra"
      by (auto simp: label_pairs_def builtinLabels_def)
  qed
qed

definition hostile_result :: result where
  "hostile_result = \<lparr>res_id = 1, res_run_id = None, res_target_id = Some 7, res_target_name = [CHR 0x22, CHR 0x7D, CHR 0x0A, CHR 0x5C],
     res_engine = ''ookla'', res_options_snapshot = RawEmpty, res_status = RFailed, res_error = [], res_started_at = ''bad'',
     res_duration_ms = 5, res_download_bps = 0, res_upload_bps = 0, res_ping_ms = 0, res_jitter_ms = 0, res_packet_loss_pct = 0,
     res_bytes_down = 0, res_bytes_up = 0, res_server_id = [], res_server_name = [], res_server_host = [], res_isp = [],
     res_external_ip = [], res_result_url = [], res_raw = RawEmpty\<rparr>"

theorem pushed_samples_read_back_witness:
  "\<exists>ls. read_samples (Format (\<lambda>x. ''1'') 0 hostile_result \<lparr>meta_schedule = ''nightly''\<rparr> [(''site'', ''a=b,c''), (''engine'', ''x'')]) =
     Some [(''speedtest_run_success'', ls, ''1'', Itoa (UnixMilli 0)), (''speedtest_duration_ms'', ls, ''1'', Itoa (UnixMilli 0))] \<and>
   map_of ls ''target'' = Some [CHR 0x22, CHR 0x7D, CHR 0x0A, CHR 0x5C] \<and> map_of ls ''engine'' = Some ''ookla''"
proof -
  have "timestampMillis 0 ''bad'' = UnixMilli 0" by code_simp
  then show ?thesis
    using pushed_samples_read_back [of "\<lambda>x. ''1''" 0 hostile_result "\<lparr>meta_schedule = ''nightly''\<rparr>" "[(''site'', ''a=b,c''), (''engine'', ''x'')]"]
    by (simp add: metrics_of_def hostile_result_def label_pairs_def)
qed

end
