(* ===== verification/Vm_Writer.thy ===== *)
theory Vm_Writer
  imports Vm_Format Drop_Oldest
begin

text \<open>
  The VictoriaMetrics writer: \<open>internal/vmpush/writer.go\<close>. Producers hand batches over through the ring of
  \<open>Drop_Oldest\<close>; one worker posts them, with retries. The worker is a step function over its position in the code:
  one step per lock, channel operation or network answer, so that configuration changes, new results and \<open>Close\<close> can come
  between any two of them. Time enters as the choice between the cases of a select.
\<close>

subsection \<open>State\<close>

text \<open>Where the worker is: at the select of \<open>run\<close>; in \<open>deliver\<close> before an attempt, with a request in flight, in the
  backoff; in \<open>deliverBounded\<close> likewise, called from \<open>deliver\<close> (\<open>True\<close>) or from \<open>drainAndFlush\<close>; at the drain's select; done.\<close>

datatype vm_pc =
    AtSelect
  | Attempt string duration | InFlight string duration | Backoff string duration
  | FAttempt bool string duration | FInFlight bool string duration | FBackoff bool string duration
  | Draining | Finished

record vm_writer =
  vw_enabled :: bool
  vw_url :: string
  vw_auth :: export_auth
  vw_extra :: "(string \<times> string) list"
  vw_in :: "string dq"
  vw_pushed :: nat
  vw_failed :: nat
  vw_stop :: bool
  vw_max :: duration
  vw_pc :: vm_pc

text \<open>\<open>ring\<close> and \<open>mb\<close> are the configured \<open>RingSize\<close> and \<open>MaxBackoff\<close>.\<close>

definition Writer_New :: "int \<Rightarrow> duration \<Rightarrow> vm_writer" where
  "Writer_New ring mb = \<lparr>vw_enabled = False, vw_url = [],
     vw_auth = \<lparr>ea_type = [], ea_username = [], ea_password = [], ea_token = [], ea_header_name = [], ea_header_value = []\<rparr>,
     vw_extra = [], vw_in = dq_new 200 ring, vw_pushed = 0, vw_failed = 0, vw_stop = False,
     vw_max = (if mb \<le> 0 then 60 * Second else mb), vw_pc = AtSelect\<rparr>"

definition Writer_Configure :: "bool \<Rightarrow> string \<Rightarrow> export_auth \<Rightarrow> (string \<times> string) list \<Rightarrow> vm_writer \<Rightarrow> vm_writer" where
  "Writer_Configure enabled url auth1 extra w = w\<lparr>vw_enabled := enabled, vw_url := url, vw_auth := auth1, vw_extra := extra\<rparr>"

definition Writer_OnResult :: "(float64 \<Rightarrow> string) \<Rightarrow> time \<Rightarrow> result \<Rightarrow> meta \<Rightarrow> vm_writer \<Rightarrow> vm_writer" where
  "Writer_OnResult fmt now res meta w =
     (if \<not> vw_enabled w \<or> vw_url w = [] then w
      else w\<lparr>vw_in := offer (Format fmt now res meta (vw_extra w)) (vw_in w)\<rparr>)"

definition Writer_Stats :: "vm_writer \<Rightarrow> nat \<times> nat \<times> nat \<times> nat" where
  "Writer_Stats w = (vw_pushed w, vw_failed w, dq_dropped (vw_in w), length (dq_items (vw_in w)))"

text \<open>\<open>Close\<close> closes \<open>stop\<close> and cancels the request context; it returns once the worker is done.\<close>

definition Writer_Close :: "vm_writer \<Rightarrow> vm_writer" where
  "Writer_Close w = w\<lparr>vw_stop := True\<rparr>"

subsection \<open>The worker\<close>

definition firstBackoff :: duration where
  "firstBackoff = 200000000"

definition next_backoff :: "duration \<Rightarrow> duration \<Rightarrow> duration" where
  "next_backoff mb b = (let b2 = wrap64 (b * 2) in if mb < b2 then mb else b2)"

text \<open>The answer of \<open>post\<close>: an error or a status.\<close>

type_synonym post_answer = "string + int"

definition post_ok :: "post_answer \<Rightarrow> bool" where
  "post_ok a = (case a of Inl _ \<Rightarrow> False | Inr status \<Rightarrow> status < 300)"

definition post_rejected :: "post_answer \<Rightarrow> bool" where
  "post_rejected a = (case a of Inl _ \<Rightarrow> False | Inr status \<Rightarrow> 400 \<le> status \<and> status < 500 \<and> status \<noteq> 429)"

text \<open>What a request carries: URL, credentials and body.\<close>

definition post_request :: "string \<Rightarrow> export_auth \<Rightarrow> string \<Rightarrow> string \<times> auth_header \<times> string" where
  "post_request url auth1 b =
     (rev (dropWhile (\<lambda>c. c = CHR ''/'') (rev url)) @ ''/api/v1/import/prometheus'', Apply auth1, b)"

definition count_drop :: "vm_writer \<Rightarrow> vm_writer" where
  "count_drop w = w\<lparr>vw_in := (vw_in w)\<lparr>dq_dropped := Suc (dq_dropped (vw_in w))\<rparr>\<rparr>"

definition count_fail :: "vm_writer \<Rightarrow> vm_writer" where
  "count_fail w = w\<lparr>vw_failed := Suc (vw_failed w)\<rparr>"

definition count_push :: "vm_writer \<Rightarrow> vm_writer" where
  "count_push w = w\<lparr>vw_pushed := Suc (vw_pushed w)\<rparr>"

definition goto_pc :: "vm_pc \<Rightarrow> vm_writer \<Rightarrow> vm_writer" where
  "goto_pc pc w = w\<lparr>vw_pc := pc\<rparr>"

definition flush_return :: "bool \<Rightarrow> vm_pc" where
  "flush_return from_deliver = (if from_deliver then AtSelect else Draining)"

text \<open>What became of a batch: accepted; rejected for good; given up because the export was turned off, in normal
  operation and during shutdown; given up at the shutdown deadline.\<close>

datatype fate = Delivered | Refused | TurnedOff | TurnedOffFlush | Expired

text \<open>What the worker's surroundings decide in a step: the case of a select, the answer to a request.\<close>

datatype vm_choice = TakeBatch | SeeStop | Answer post_answer | Timer | Deadline | Proceed

type_synonym vm_result = "(vm_writer \<times> (string \<times> fate) option) option"

text \<open>\<open>run\<close>: the select over the ring and \<open>stop\<close>. A choice that is not ready gives \<open>None\<close>.\<close>

definition run_select :: "vm_choice \<Rightarrow> vm_writer \<Rightarrow> vm_result" where
  "run_select ch w =
     (case ch of
        TakeBatch \<Rightarrow>
          (case take_one (vw_in w) of
             (None, q) \<Rightarrow> None
           | (Some b, q) \<Rightarrow> Some (goto_pc (Attempt b firstBackoff) (w\<lparr>vw_in := q\<rparr>), None))
      | SeeStop \<Rightarrow> if vw_stop w then Some (goto_pc Draining w, None) else None
      | _ \<Rightarrow> None)"

text \<open>\<open>deliver\<close>: one attempt and its backoff.\<close>

definition deliver_begin :: "string \<Rightarrow> duration \<Rightarrow> vm_choice \<Rightarrow> vm_writer \<Rightarrow> vm_result" where
  "deliver_begin b backoff ch w =
     (if ch \<noteq> Proceed then None
      else if \<not> vw_enabled w then Some (goto_pc AtSelect (count_fail w), Some (b, TurnedOff))
      else Some (goto_pc (InFlight b backoff) w, None))"

definition deliver_answer :: "string \<Rightarrow> duration \<Rightarrow> vm_choice \<Rightarrow> vm_writer \<Rightarrow> vm_result" where
  "deliver_answer b backoff ch w =
     (case ch of
        Answer a \<Rightarrow>
          if post_ok a then Some (goto_pc AtSelect (count_push w), Some (b, Delivered))
          else if vw_stop w then Some (goto_pc (FAttempt True b firstBackoff) w, None)
          else if post_rejected a then Some (goto_pc AtSelect (count_fail w), Some (b, Refused))
          else Some (goto_pc (Backoff b backoff) (count_fail w), None)
      | _ \<Rightarrow> None)"

definition deliver_backoff :: "string \<Rightarrow> duration \<Rightarrow> vm_choice \<Rightarrow> vm_writer \<Rightarrow> vm_result" where
  "deliver_backoff b backoff ch w =
     (case ch of
        SeeStop \<Rightarrow> if vw_stop w then Some (goto_pc (FAttempt True b firstBackoff) w, None) else None
      | Timer \<Rightarrow> Some (goto_pc (Attempt b (next_backoff (vw_max w) backoff)) w, None)
      | _ \<Rightarrow> None)"

text \<open>\<open>deliverBounded\<close>, which gives up at the deadline of the flush context.\<close>

definition bounded_begin :: "bool \<Rightarrow> string \<Rightarrow> duration \<Rightarrow> vm_choice \<Rightarrow> vm_writer \<Rightarrow> vm_result" where
  "bounded_begin ret b backoff ch w =
     (if ch \<noteq> Proceed then None
      else if \<not> vw_enabled w then Some (goto_pc (flush_return ret) (count_drop w), Some (b, TurnedOffFlush))
      else Some (goto_pc (FInFlight ret b backoff) w, None))"

definition bounded_answer :: "bool \<Rightarrow> string \<Rightarrow> duration \<Rightarrow> vm_choice \<Rightarrow> vm_writer \<Rightarrow> vm_result" where
  "bounded_answer ret b backoff ch w =
     (case ch of
        Answer a \<Rightarrow>
          if post_ok a then Some (goto_pc (flush_return ret) (count_push w), Some (b, Delivered))
          else if post_rejected a then Some (goto_pc (flush_return ret) (count_fail w), Some (b, Refused))
          else Some (goto_pc (FBackoff ret b backoff) (count_fail w), None)
      | _ \<Rightarrow> None)"

definition bounded_backoff :: "bool \<Rightarrow> string \<Rightarrow> duration \<Rightarrow> vm_choice \<Rightarrow> vm_writer \<Rightarrow> vm_result" where
  "bounded_backoff ret b backoff ch w =
     (case ch of
        Deadline \<Rightarrow> Some (goto_pc (flush_return ret) (count_drop w), Some (b, Expired))
      | Timer \<Rightarrow> Some (goto_pc (FAttempt ret b (next_backoff (vw_max w) backoff)) w, None)
      | _ \<Rightarrow> None)"

text \<open>\<open>drainAndFlush\<close>: the select with a default.\<close>

definition drain_select :: "vm_choice \<Rightarrow> vm_writer \<Rightarrow> vm_result" where
  "drain_select ch w =
     (if ch \<noteq> Proceed then None
      else case take_one (vw_in w) of
             (None, q) \<Rightarrow> Some (goto_pc Finished w, None)
           | (Some b, q) \<Rightarrow> Some (goto_pc (FAttempt False b firstBackoff) (w\<lparr>vw_in := q\<rparr>), None))"

text \<open>A step of the worker from wherever it is; the second component is the batch that got its fate.\<close>

definition worker_step :: "vm_choice \<Rightarrow> vm_writer \<Rightarrow> vm_result" where
  "worker_step ch w =
     (case vw_pc w of
        AtSelect \<Rightarrow> run_select ch w
      | Attempt b backoff \<Rightarrow> deliver_begin b backoff ch w
      | InFlight b backoff \<Rightarrow> deliver_answer b backoff ch w
      | Backoff b backoff \<Rightarrow> deliver_backoff b backoff ch w
      | FAttempt ret b backoff \<Rightarrow> bounded_begin ret b backoff ch w
      | FInFlight ret b backoff \<Rightarrow> bounded_answer ret b backoff ch w
      | FBackoff ret b backoff \<Rightarrow> bounded_backoff ret b backoff ch w
      | Draining \<Rightarrow> drain_select ch w
      | Finished \<Rightarrow> None)"

subsection \<open>The writer in operation\<close>

datatype vm_event =
    Reconfigure bool string export_auth "(string \<times> string) list"
  | NewResult "float64 \<Rightarrow> string" time result meta
  | CloseWriter
  | Worker vm_choice

record vm_sys =
  vs_w :: vm_writer
  vs_offered :: "string list"
  vs_fates :: "(string \<times> fate) list"

fun vm_event_step :: "vm_event \<Rightarrow> vm_sys \<Rightarrow> vm_sys" where
  "vm_event_step (Reconfigure en url auth1 extra) s = s\<lparr>vs_w := Writer_Configure en url auth1 extra (vs_w s)\<rparr>"
| "vm_event_step (NewResult fmt now res meta) s =
     s\<lparr>vs_w := Writer_OnResult fmt now res meta (vs_w s),
       vs_offered := vs_offered s @
         (if vw_enabled (vs_w s) \<and> vw_url (vs_w s) \<noteq> [] then [Format fmt now res meta (vw_extra (vs_w s))] else [])\<rparr>"
| "vm_event_step CloseWriter s = s\<lparr>vs_w := Writer_Close (vs_w s)\<rparr>"
| "vm_event_step (Worker ch) s =
     (case worker_step ch (vs_w s) of
        None \<Rightarrow> s
      | Some (w, None) \<Rightarrow> s\<lparr>vs_w := w\<rparr>
      | Some (w, Some f) \<Rightarrow> s\<lparr>vs_w := w, vs_fates := vs_fates s @ [f]\<rparr>)"

definition vm_start :: "int \<Rightarrow> duration \<Rightarrow> vm_sys" where
  "vm_start ring mb = \<lparr>vs_w = Writer_New ring mb, vs_offered = [], vs_fates = []\<rparr>"

text \<open>The batch the worker holds.\<close>

fun in_hand :: "vm_pc \<Rightarrow> string list" where
  "in_hand (Attempt b d) = [b]"
| "in_hand (InFlight b d) = [b]"
| "in_hand (Backoff b d) = [b]"
| "in_hand (FAttempt r b d) = [b]"
| "in_hand (FInFlight r b d) = [b]"
| "in_hand (FBackoff r b d) = [b]"
| "in_hand _ = []"

definition fated :: "fate set \<Rightarrow> vm_sys \<Rightarrow> nat" where
  "fated fs s = length (filter (\<lambda>f. snd f \<in> fs) (vs_fates s))"

definition vm_ok :: "vm_sys \<Rightarrow> bool" where
  "vm_ok s \<longleftrightarrow> dq_ok (vw_in (vs_w s)) \<and>
     subseq (map fst (vs_fates s) @ in_hand (vw_pc (vs_w s)) @ dq_items (vw_in (vs_w s))) (vs_offered s) \<and>
     length (vs_offered s) + fated {TurnedOffFlush, Expired} s =
       length (vs_fates s) + length (in_hand (vw_pc (vs_w s))) + length (dq_items (vw_in (vs_w s))) + dq_dropped (vw_in (vs_w s)) \<and>
     vw_pushed (vs_w s) = fated {Delivered} s \<and> fated {Refused, TurnedOff} s \<le> vw_failed (vs_w s)"

lemmas worker_defs = run_select_def deliver_begin_def deliver_answer_def deliver_backoff_def bounded_begin_def bounded_answer_def
  bounded_backoff_def drain_select_def flush_return_def goto_pc_def count_drop_def count_fail_def count_push_def

lemma in_hand_return [simp]: "in_hand (flush_return r) = []"
  by (simp add: flush_return_def)

lemma in_hand_one: "length (in_hand pc) \<le> 1"
  by (cases pc) auto

text \<open>A worker step, seen from outside: it takes a batch, moves on with the one in hand, or settles it.\<close>

lemma worker_step_cases:
  assumes "worker_step ch w = Some (w', f)"
  obtains (taken) b where "f = None" "in_hand (vw_pc w) = []" "in_hand (vw_pc w') = [b]" "dq_items (vw_in w) = b # dq_items (vw_in w')"
      "dq_cap (vw_in w') = dq_cap (vw_in w)" "dq_dropped (vw_in w') = dq_dropped (vw_in w)" "vw_pushed w' = vw_pushed w" "vw_failed w' = vw_failed w"
  | (moved) "f = None" "in_hand (vw_pc w') = in_hand (vw_pc w)" "vw_in w' = vw_in w" "vw_pushed w' = vw_pushed w" "vw_failed w \<le> vw_failed w'"
  | (settled) b x where "f = Some (b, x)" "in_hand (vw_pc w) = [b]" "in_hand (vw_pc w') = []" "dq_items (vw_in w') = dq_items (vw_in w)"
      "dq_cap (vw_in w') = dq_cap (vw_in w)"
      "dq_dropped (vw_in w') = dq_dropped (vw_in w) + (if x \<in> {TurnedOffFlush, Expired} then 1 else 0)"
      "vw_pushed w' = vw_pushed w + (if x = Delivered then 1 else 0)"
      "vw_failed w + (if x \<in> {Refused, TurnedOff} then 1 else 0) \<le> vw_failed w'"
  using assms
  by (cases "vw_pc w")
    (auto simp: worker_step_def worker_defs take_one_def split: vm_choice.splits if_splits list.splits prod.splits option.splits)

lemma vm_ok_start: "vm_ok (vm_start ring mb)"
  by (simp add: vm_ok_def vm_start_def Writer_New_def fated_def dq_new_ok)

lemma vm_ok_worker:
  assumes "vm_ok s"
  shows "vm_ok (vm_event_step (Worker ch) s)"
proof (cases "worker_step ch (vs_w s)")
  case None
  with assms show ?thesis by simp
next
  case (Some r)
  obtain w' f where r: "r = (w', f)" by (cases r)
  note ok = assms [unfolded vm_ok_def]
  from Some r have st: "worker_step ch (vs_w s) = Some (w', f)" by simp
  then show ?thesis
  proof (cases rule: worker_step_cases)
    case (taken b)
    with ok st show ?thesis by (simp add: vm_ok_def fated_def dq_ok_def)
  next
    case moved
    with ok st show ?thesis by (simp add: vm_ok_def fated_def dq_ok_def)
  next
    case (settled b x)
    with ok st show ?thesis by (cases x) (simp_all add: vm_ok_def fated_def dq_ok_def)
  qed
qed

lemma vm_ok_step: "vm_ok s \<Longrightarrow> vm_ok (vm_event_step e s)"
proof (cases e)
  case (NewResult fmt now res meta)
  assume ok: "vm_ok s"
  let ?q = "vw_in (vs_w s)" and ?b = "Format fmt now res meta (vw_extra (vs_w s))"
  show ?thesis
  proof (cases "vw_enabled (vs_w s) \<and> vw_url (vs_w s) \<noteq> []")
    case True
    note o = ok [unfolded vm_ok_def]
    from o have q: "dq_ok ?q" by simp
    from dq.put_eq [OF q, of ?b] have p: "dq_ok (offer ?b ?q)" by simp
    have "subseq (map fst (vs_fates s) @ in_hand (vw_pc (vs_w s)) @ dq_items (offer ?b ?q)) (vs_offered s @ [?b])"
    proof -
      have "subseq (dq_items (offer ?b ?q)) (dq_items ?q @ [?b])" by (rule dq.put_order [OF q])
      then have "subseq (map fst (vs_fates s) @ in_hand (vw_pc (vs_w s)) @ dq_items (offer ?b ?q))
          (map fst (vs_fates s) @ in_hand (vw_pc (vs_w s)) @ dq_items ?q @ [?b])" by (intro list_emb_append_mono subseq_order.refl)
      also have "subseq (map fst (vs_fates s) @ in_hand (vw_pc (vs_w s)) @ dq_items ?q @ [?b]) (vs_offered s @ [?b])"
        using o list_emb_append_mono [of "(=)" "map fst (vs_fates s) @ in_hand (vw_pc (vs_w s)) @ dq_items ?q" "vs_offered s" "[?b]" "[?b]"] by simp
      finally show ?thesis .
    qed
    with o p True NewResult dq.put_count [OF q, of ?b] show ?thesis
      by (simp add: vm_ok_def Writer_OnResult_def fated_def)
  next
    case False
    with ok NewResult show ?thesis by (simp add: vm_ok_def Writer_OnResult_def fated_def)
  qed
next
  case (Worker ch)
  then show "vm_ok s \<Longrightarrow> ?thesis" using vm_ok_worker by simp
qed (simp_all add: vm_ok_def Writer_Configure_def Writer_Close_def fated_def)

lemma vm_ok_run: "vm_ok s \<Longrightarrow> vm_ok (fold vm_event_step es s)"
  by (induction es arbitrary: s) (simp_all add: vm_ok_step)


subsection \<open>Shutdown\<close>

text \<open>How far a stopped worker is from its end.\<close>

fun pc_weight :: "vm_pc \<Rightarrow> nat" where
  "pc_weight Finished = 0"
| "pc_weight Draining = 1"
| "pc_weight AtSelect = 2"
| "pc_weight (FBackoff r b d) = 3"
| "pc_weight (FInFlight r b d) = 4"
| "pc_weight (FAttempt r b d) = 5"
| "pc_weight (Backoff b d) = 6"
| "pc_weight (InFlight b d) = 6"
| "pc_weight (Attempt b d) = 7"

definition vm_weight :: "vm_writer \<Rightarrow> nat" where
  "vm_weight w = 6 * length (dq_items (vw_in w)) + pc_weight (vw_pc w)"

fun worker_run :: "vm_choice list \<Rightarrow> vm_writer \<Rightarrow> vm_writer option" where
  "worker_run [] w = Some w"
| "worker_run (ch # chs) w = (case worker_step ch w of None \<Rightarrow> None | Some (w', f) \<Rightarrow> worker_run chs w')"

lemma vm_weight_step:
  assumes "worker_step ch w = Some (w', f)" "vw_stop w"
  shows "vw_stop w' \<and> vm_weight w' + 1 \<le> vm_weight w + (if ch = Timer then 3 else 0)"
  using assms
  by (cases "vw_pc w")
    (auto simp: worker_step_def worker_defs take_one_def vm_weight_def split: vm_choice.splits if_splits list.splits prod.splits option.splits)

lemma worker_not_stuck:
  assumes "vw_stop w" "vw_pc w \<noteq> Finished"
  shows "\<exists>ch r. ch \<noteq> Timer \<and> worker_step ch w = Some r"
proof -
  have "worker_step SeeStop w \<noteq> None \<or> worker_step Proceed w \<noteq> None \<or> worker_step (Answer (Inl [])) w \<noteq> None \<or>
      worker_step Deadline w \<noteq> None"
    using assms by (cases "vw_pc w") (auto simp: worker_step_def worker_defs post_ok_def post_rejected_def split: prod.splits option.splits)
  then show ?thesis by (metis not_None_eq vm_choice.distinct)
qed

lemma worker_run_weight:
  "worker_run chs w = Some w' \<Longrightarrow> vw_stop w \<Longrightarrow> vw_stop w' \<and> length chs + vm_weight w' \<le> vm_weight w + 3 * length (filter (\<lambda>c. c = Timer) chs)"
proof (induction chs arbitrary: w)
  case (Cons ch chs)
  then obtain w1 f where s: "worker_step ch w = Some (w1, f)" "worker_run chs w1 = Some w'" by (auto split: option.splits)
  from vm_weight_step [OF s(1) Cons.prems(2)] Cons.IH [OF s(2)] show ?case by (auto split: if_splits)
qed simp

text \<open>\<open>Close\<close> ends the worker. From any state, once \<open>stop\<close> is closed and nothing new is handed over, the worker
  can make at most six steps per queued batch, seven for what it is doing and three more per retry timer that still wins
  against the flush deadline; whenever it cannot move it has finished, with the ring drained. Since the flush context expires after
  at most ten seconds, a dead endpoint cannot keep it alive.\<close>

theorem close_ends_the_worker:
  assumes "worker_run chs (Writer_Close w) = Some w'"
  shows "length chs \<le> 6 * length (dq_items (vw_in w)) + 7 + 3 * length (filter (\<lambda>c. c = Timer) chs) \<and>
    ((\<forall>ch. ch \<noteq> Timer \<longrightarrow> worker_step ch w' = None) \<longrightarrow> vw_pc w' = Finished)"
proof
  have st: "vw_stop (Writer_Close w)" by (simp add: Writer_Close_def)
  have "pc_weight (vw_pc w) \<le> 7" by (cases "vw_pc w") auto
  with worker_run_weight [OF assms st] show "length chs \<le> 6 * length (dq_items (vw_in w)) + 7 + 3 * length (filter (\<lambda>c. c = Timer) chs)"
    by (auto simp: vm_weight_def Writer_Close_def)
  show "(\<forall>ch. ch \<noteq> Timer \<longrightarrow> worker_step ch w' = None) \<longrightarrow> vw_pc w' = Finished"
    using worker_not_stuck [of w'] worker_run_weight [OF assms st] by fastforce
qed

text \<open>A finished worker has left nothing in the ring.\<close>

lemma finished_drained:
  assumes "worker_step ch w = Some (w', f)" "vw_pc w' = Finished"
  shows "dq_items (vw_in w') = []"
  using assms
  by (cases "vw_pc w")
    (auto simp: worker_step_def worker_defs take_one_def split: vm_choice.splits if_splits list.splits prod.splits option.splits)

definition busy_writer :: vm_writer where
  "busy_writer = (Writer_New 4 0)\<lparr>vw_enabled := True, vw_url := ''http://vm'', vw_in := \<lparr>dq_items = [''b2''], dq_cap = 4, dq_dropped = 0\<rparr>,
     vw_pc := Backoff ''b1'' firstBackoff\<rparr>"

theorem close_ends_the_worker_witness:
  "\<exists>w'. worker_run [SeeStop, Proceed, Answer (Inl ''refused''), Deadline, SeeStop, Proceed, Proceed, Answer (Inr 204), Proceed]
       (Writer_Close busy_writer) = Some w' \<and>
     length [SeeStop, Proceed, Answer (Inl ''refused''), Deadline, SeeStop, Proceed, Proceed, Answer (Inr 204), Proceed] \<le>
       6 * length (dq_items (vw_in busy_writer)) + 7 + 3 * 0 \<and> vw_pc w' = Finished \<and> vw_pushed w' = 1 \<and> dq_dropped (vw_in w') = 1"
proof -
  let ?chs = "[SeeStop, Proceed, Answer (Inl ''refused''), Deadline, SeeStop, Proceed, Proceed, Answer (Inr 204), Proceed]"
  obtain w' where w': "worker_run ?chs (Writer_Close busy_writer) = Some w'" "vw_pc w' = Finished" "vw_pushed w' = 1" "dq_dropped (vw_in w') = 1"
    by (simp add: busy_writer_def Writer_New_def Writer_Close_def worker_step_def worker_defs take_one_def post_ok_def post_rejected_def)
  with close_ends_the_worker [OF w'(1)] show ?thesis by simp
qed

subsection \<open>Backoff\<close>

text \<open>The wait after the \<open>k\<close>-th retry doubles up to \<open>MaxBackoff\<close>.\<close>

lemma backoff_bounds:
  assumes "0 < mb" "mb \<le> maxDuration div 2"
  shows "(next_backoff mb ^^ k) firstBackoff = (if k = 0 then firstBackoff else min mb (2 ^ k * firstBackoff))"
proof (induction k)
  case (Suc k)
  let ?b = "(next_backoff mb ^^ k) firstBackoff"
  have m: "mb \<le> 4611686018427387903" using assms(2) by (simp add: maxDuration_def)
  have b: "0 \<le> ?b \<and> ?b \<le> max mb firstBackoff" using Suc assms(1) by (auto simp: firstBackoff_def)
  then have "wrap64 (?b * 2) = ?b * 2" using m by (intro wrap64_id) (auto simp: minDuration_def maxDuration_def firstBackoff_def)
  then have "next_backoff mb ?b = min mb (?b * 2)" by (simp add: next_backoff_def Let_def)
  moreover have "0 \<le> 2 ^ k * firstBackoff" by (simp add: firstBackoff_def)
  ultimately show ?case using Suc assms(1) by (cases "k = 0") (auto simp: min_def)
qed simp

end
