(* ===== verification/Vl_Push.thy ===== *)
theory Vl_Push
  imports Settings_Env Bounded_Buffer
begin

text \<open>
  The VictoriaLogs handler: \<open>internal/vlpush/vlpush.go\<close>. A log record is rendered as a JSON line and handed to the
  worker without waiting; a full queue refuses the line. The worker collects lines into batches and posts them. \<open>json.Marshal\<close> of a line
  is the argument \<open>marshal\<close>, which fails for a value JSON cannot express.
\<close>

subsection \<open>Attributes\<close>

text \<open>A resolved \<open>slog.Value\<close> by the cases of \<open>addAttr\<close>: a scalar, one with a text form (durations, times and what else
  \<open>String\<close> prints), an error or \<open>Stringer\<close> with its text, any other value with its JSON form, if it has one, and its
  printed form, and a group.\<close>

datatype log_value =
    LScalar json | LText string | LError string | LAny "json option" string | LGroup "(string \<times> log_value) list"

type_synonym log_attr = "string \<times> log_value"

definition jsonSafe :: "json option \<Rightarrow> string \<Rightarrow> json" where
  "jsonSafe j printed = (case j of Some x \<Rightarrow> x | None \<Rightarrow> JStr printed)"

fun addAttr :: "string \<Rightarrow> log_attr \<Rightarrow> (string \<rightharpoonup> json) \<Rightarrow> (string \<rightharpoonup> json)"
  and addAttrs :: "string \<Rightarrow> log_attr list \<Rightarrow> (string \<rightharpoonup> json) \<Rightarrow> (string \<rightharpoonup> json)" where
  "addAttr pre (key, LGroup as) line = addAttrs (if key \<noteq> [] then pre @ key @ ''.'' else pre) as line"
| "addAttr pre (key, LScalar j) line = line(pre @ key \<mapsto> j)"
| "addAttr pre (key, LText s) line = line(pre @ key \<mapsto> JStr s)"
| "addAttr pre (key, LError s) line = line(pre @ key \<mapsto> JStr s)"
| "addAttr pre (key, LAny j p) line = line(pre @ key \<mapsto> jsonSafe j p)"
| "addAttrs pre [] line = line"
| "addAttrs pre (a # as) line = addAttrs pre as (addAttr pre a line)"

definition groupPrefix :: "string list \<Rightarrow> string" where
  "groupPrefix groups = (if groups = [] then [] else Join groups ''.'' @ ''.'')"

text \<open>What a clone of the handler adds to the shared part.\<close>

record vl_handler =
  vh_attrs :: "(string \<times> log_attr) list"
  vh_groups :: "string list"

definition WithAttrs :: "log_attr list \<Rightarrow> vl_handler \<Rightarrow> vl_handler" where
  "WithAttrs as h = h\<lparr>vh_attrs := vh_attrs h @ map (Pair (groupPrefix (vh_groups h))) as\<rparr>"

definition WithGroup :: "string \<Rightarrow> vl_handler \<Rightarrow> vl_handler" where
  "WithGroup name h = h\<lparr>vh_groups := vh_groups h @ [name]\<rparr>"

record log_record =
  lr_message :: string
  lr_time :: string
  lr_level :: string
  lr_attrs :: "log_attr list"

text \<open>The line of a record; \<open>lr_time\<close> is the time in its nanosecond format.\<close>

definition render_line :: "string \<Rightarrow> (string \<times> string) list \<Rightarrow> vl_handler \<Rightarrow> log_record \<Rightarrow> string \<rightharpoonup> json" where
  "render_line app sfields h rec =
     (let base = [''_msg'' \<mapsto> JStr (lr_message rec), ''_time'' \<mapsto> JStr (lr_time rec), ''level'' \<mapsto> JStr (lr_level rec), ''app'' \<mapsto> JStr app];
          line = fold (\<lambda>(k, v) m. m(k \<mapsto> JStr v)) sfields base;
          line1 = fold (\<lambda>(pre, a) m. addAttr pre a m) (vh_attrs h) line
      in addAttrs (groupPrefix (vh_groups h)) (lr_attrs rec) line1)"

subsection \<open>The shared state\<close>

datatype vl_pc = Top | Selecting | Stopped

record vl_shared =
  vl_enabled :: bool
  vl_url :: string
  vl_auth :: export_auth
  vl_fields :: "(string \<times> string) list"
  vl_lines :: "string list"
  vl_cap :: nat
  vl_dropped :: nat
  vl_stop :: bool
  vl_app :: string
  vl_batch :: nat
  vl_buf :: "string list"
  vl_last_err :: time
  vl_pc :: vl_pc

definition Handler_New :: "int \<Rightarrow> int \<Rightarrow> string \<Rightarrow> vl_shared" where
  "Handler_New queueSize batchSize app =
     \<lparr>vl_enabled = False, vl_url = [],
      vl_auth = \<lparr>ea_type = [], ea_username = [], ea_password = [], ea_token = [], ea_header_name = [], ea_header_value = []\<rparr>,
      vl_fields = [], vl_lines = [], vl_cap = (if queueSize \<le> 0 then 4096 else nat queueSize), vl_dropped = 0, vl_stop = False,
      vl_app = (if app = [] then ''speedtest-tracker'' else app), vl_batch = (if batchSize \<le> 0 then 100 else nat batchSize),
      vl_buf = [], vl_last_err = 0, vl_pc = Top\<rparr>"

definition Handler_Configure :: "bool \<Rightarrow> string \<Rightarrow> export_auth \<Rightarrow> (string \<times> string) list \<Rightarrow> vl_shared \<Rightarrow> vl_shared" where
  "Handler_Configure enabled u auth1 sfields s = s\<lparr>vl_enabled := enabled, vl_url := u, vl_auth := auth1, vl_fields := sfields\<rparr>"

definition send_line :: "string \<Rightarrow> vl_shared \<Rightarrow> vl_shared" where
  "send_line b s =
     (if length (vl_lines s) < vl_cap s then s\<lparr>vl_lines := vl_lines s @ [b]\<rparr> else s\<lparr>vl_dropped := Suc (vl_dropped s)\<rparr>)"

text \<open>The line \<open>Handle\<close> sends, if any: the wrapped handler has taken the record without error, shipping is on, and the line can be encoded.\<close>

definition handled_line :: "((string \<rightharpoonup> json) \<Rightarrow> string option) \<Rightarrow> vl_handler \<Rightarrow> log_record \<Rightarrow> vl_shared \<Rightarrow> string option" where
  "handled_line marshal h rec s =
     (if \<not> vl_enabled s \<or> vl_url s = [] then None else marshal (render_line (vl_app s) (vl_fields s) h rec))"

definition Handle :: "((string \<rightharpoonup> json) \<Rightarrow> string option) \<Rightarrow> string option \<Rightarrow> vl_handler \<Rightarrow> log_record \<Rightarrow> vl_shared \<Rightarrow> vl_shared \<times> string option" where
  "Handle marshal next_err h rec s =
     (case next_err of
        Some e \<Rightarrow> (s, Some e)
      | None \<Rightarrow> (case handled_line marshal h rec s of None \<Rightarrow> (s, None) | Some b \<Rightarrow> (send_line b s, None)))"

definition Handler_Close :: "vl_shared \<Rightarrow> vl_shared" where
  "Handler_Close s = s\<lparr>vl_stop := True\<rparr>"

definition take_line :: "vl_shared \<Rightarrow> string option \<times> vl_shared" where
  "take_line s = (case vl_lines s of [] \<Rightarrow> (None, s) | b # bs \<Rightarrow> (Some b, s\<lparr>vl_lines := bs\<rparr>))"

interpretation vl_queue: drop_newest send_line take_line vl_lines vl_dropped vl_cap "\<lambda>s. length (vl_lines s) \<le> vl_cap s"
  by unfold_locales (auto simp: send_line_def take_line_def split: list.splits)

subsection \<open>Flushing\<close>

text \<open>The request of \<open>post\<close>: the URL without its query, the stream fields of the query, the credentials and the body.\<close>

definition stream_fields :: "(string \<times> string) list \<Rightarrow> string" where
  "stream_fields sfields = Join ([''app'', ''level''] @ sort (map fst sfields)) '',''"

definition vl_post_request :: "vl_shared \<Rightarrow> string list \<Rightarrow> string \<times> string \<times> auth_header \<times> string" where
  "vl_post_request s buf =
     (rev (dropWhile (\<lambda>c. c = CHR ''/'') (rev (vl_url s))) @ ''/insert/jsonline'', stream_fields (vl_fields s), Apply (vl_auth s),
      Join buf [CHR 0x0A] @ [CHR 0x0A])"

text \<open>What became of a batch: posted, failed, or skipped because shipping was turned off.\<close>

datatype flush_outcome = Shipped | FlushFailed | Skipped1

text \<open>\<open>answer\<close>: a transport error or the status. The third component: the failure is logged, at most every 30 seconds.\<close>

definition doFlush :: "string + int \<Rightarrow> time \<Rightarrow> string list \<Rightarrow> vl_shared \<Rightarrow> vl_shared \<times> flush_outcome \<times> bool" where
  "doFlush answer now buf s =
     (if \<not> vl_enabled s \<or> vl_url s = [] then (s, Skipped1, False)
      else if (case answer of Inl _ \<Rightarrow> True | Inr status \<Rightarrow> 300 \<le> status)
      then let shouldLog = (30 * Second \<le> time_Sub now (vl_last_err s))
           in (s\<lparr>vl_dropped := vl_dropped s + length buf, vl_last_err := (if shouldLog then now else vl_last_err s)\<rparr>, FlushFailed, shouldLog)
      else (s, Shipped, False))"

subsection \<open>The worker\<close>

datatype vl_choice = CheckStop | TakeLine | Tick | SeeStop

text \<open>A step of \<open>run\<close>; the second component lists the batch that was flushed with its outcome. \<open>drainAndFlush\<close> empties the queue into the
  buffer and flushes once.\<close>

definition flush_with :: "string + int \<Rightarrow> time \<Rightarrow> string list \<Rightarrow> vl_shared \<Rightarrow> vl_shared \<times> (string list \<times> flush_outcome) list" where
  "flush_with answer now buf s = (case doFlush answer now buf s of (s', out, logged) \<Rightarrow> (s'\<lparr>vl_buf := []\<rparr>, [(buf, out)]))"

definition vl_drainAndFlush :: "string + int \<Rightarrow> time \<Rightarrow> vl_shared \<Rightarrow> vl_shared \<times> (string list \<times> flush_outcome) list" where
  "vl_drainAndFlush answer now s =
     (let buf = vl_buf s @ vl_lines s; s1 = s\<lparr>vl_lines := [], vl_buf := buf, vl_pc := Stopped\<rparr>
      in if buf = [] then (s1, []) else flush_with answer now buf s1)"

definition vl_run_step ::
  "vl_choice \<Rightarrow> string + int \<Rightarrow> time \<Rightarrow> vl_shared \<Rightarrow> (vl_shared \<times> (string list \<times> flush_outcome) list) option" where
  "vl_run_step ch answer now s =
     (case (vl_pc s, ch) of
        (Top, CheckStop) \<Rightarrow>
          if vl_stop s then Some (vl_drainAndFlush answer now s) else Some (s\<lparr>vl_pc := Selecting\<rparr>, [])
      | (Selecting, TakeLine) \<Rightarrow>
          (case take_line s of
             (None, _) \<Rightarrow> None
           | (Some b, s1) \<Rightarrow>
               let buf = vl_buf s1 @ [b]; s2 = s1\<lparr>vl_buf := buf, vl_pc := Top\<rparr>
               in if vl_batch s2 \<le> length buf then Some (flush_with answer now buf s2) else Some (s2, []))
      | (Selecting, Tick) \<Rightarrow>
          let s1 = s\<lparr>vl_pc := Top\<rparr>
          in if vl_buf s1 \<noteq> [] then Some (flush_with answer now (vl_buf s1) s1) else Some (s1, [])
      | (Selecting, SeeStop) \<Rightarrow> if vl_stop s then Some (vl_drainAndFlush answer now s) else None
      | _ \<Rightarrow> None)"

subsection \<open>The handler in operation\<close>

datatype vl_event =
    VConfigure bool string export_auth "(string \<times> string) list"
  | VLog "(string \<rightharpoonup> json) \<Rightarrow> string option" vl_handler log_record
  | VClose
  | VWorker vl_choice "string + int" time

record vl_sys =
  vy_s :: vl_shared
  vy_sent :: "string list"
  vy_flushes :: "(string list \<times> flush_outcome) list"

fun vl_event_step :: "vl_event \<Rightarrow> vl_sys \<Rightarrow> vl_sys" where
  "vl_event_step (VConfigure en u a fs) y = y\<lparr>vy_s := Handler_Configure en u a fs (vy_s y)\<rparr>"
| "vl_event_step (VLog marshal h rec) y =
     y\<lparr>vy_s := fst (Handle marshal None h rec (vy_s y)),
       vy_sent := vy_sent y @ (case handled_line marshal h rec (vy_s y) of None \<Rightarrow> [] | Some b \<Rightarrow> [b])\<rparr>"
| "vl_event_step VClose y = y\<lparr>vy_s := Handler_Close (vy_s y)\<rparr>"
| "vl_event_step (VWorker ch answer now) y =
     (case vl_run_step ch answer now (vy_s y) of
        None \<Rightarrow> y
      | Some (s, fl) \<Rightarrow> y\<lparr>vy_s := s, vy_flushes := vy_flushes y @ fl\<rparr>)"

definition vl_start :: "int \<Rightarrow> int \<Rightarrow> string \<Rightarrow> vl_sys" where
  "vl_start q b app = \<lparr>vy_s = Handler_New q b app, vy_sent = [], vy_flushes = []\<rparr>"

definition lines_flushed :: "vl_sys \<Rightarrow> string list" where
  "lines_flushed y = concat (map fst (vy_flushes y))"

definition lines_failed :: "vl_sys \<Rightarrow> nat" where
  "lines_failed y = length (concat (map fst (filter (\<lambda>f. snd f = FlushFailed) (vy_flushes y))))"

text \<open>The accounting every step keeps, and the bound on the buffer between two steps.\<close>

definition vl_acc :: "vl_sys \<Rightarrow> bool" where
  "vl_acc y \<longleftrightarrow> length (vl_lines (vy_s y)) \<le> vl_cap (vy_s y) \<and> 0 < vl_batch (vy_s y) \<and>
     subseq (lines_flushed y @ vl_buf (vy_s y) @ vl_lines (vy_s y)) (vy_sent y) \<and>
     length (vy_sent y) + lines_failed y =
       length (lines_flushed y) + length (vl_buf (vy_s y)) + length (vl_lines (vy_s y)) + vl_dropped (vy_s y) \<and>
     (\<forall>f\<in>set (vy_flushes y). fst f \<noteq> []) \<and>
     (vl_pc (vy_s y) \<noteq> Stopped \<longrightarrow> (\<forall>f\<in>set (vy_flushes y). length (fst f) \<le> vl_batch (vy_s y)))"

definition vl_ok :: "vl_sys \<Rightarrow> bool" where
  "vl_ok y \<longleftrightarrow> vl_acc y \<and> (if vl_pc (vy_s y) = Stopped then vl_buf (vy_s y) = [] else length (vl_buf (vy_s y)) < vl_batch (vy_s y))"

lemmas vl_counts = vl_acc_def lines_flushed_def lines_failed_def

lemma vl_ok_start: "vl_ok (vl_start q b app)"
  by (simp add: vl_ok_def vl_counts vl_start_def Handler_New_def)

text \<open>A flush empties the buffer, keeps the queue, and counts the batch as dropped exactly when it failed.\<close>

lemma flush_with_elim:
  assumes "flush_with answer now b s = r"
  obtains out where "snd r = [(b, out)]" "vl_buf (fst r) = []" "vl_lines (fst r) = vl_lines s" "vl_cap (fst r) = vl_cap s"
    "vl_batch (fst r) = vl_batch s" "vl_pc (fst r) = vl_pc s"
    "vl_dropped (fst r) = vl_dropped s + (if out = FlushFailed then length b else 0)"
proof -
  obtain s' out lg where d: "doFlush answer now b s = (s', out, lg)" by (cases "doFlush answer now b s") auto
  then have "vl_lines s' = vl_lines s \<and> vl_cap s' = vl_cap s \<and> vl_batch s' = vl_batch s \<and> vl_pc s' = vl_pc s \<and>
      vl_dropped s' = vl_dropped s + (if out = FlushFailed then length b else 0)"
    by (auto simp: doFlush_def Let_def split: if_splits)
  then show thesis using that [of out] assms d by (simp add: flush_with_def split: prod.splits) (auto)
qed

lemma vl_ok_flush_with:
  assumes "vl_acc (y\<lparr>vy_s := s\<rparr>)" "b = vl_buf s" "b \<noteq> []" "vl_pc s = Stopped \<or> length b \<le> vl_batch s"
  shows "vl_ok (y\<lparr>vy_s := fst (flush_with answer now b s), vy_flushes := vy_flushes y @ snd (flush_with answer now b s)\<rparr>)"
proof -
  obtain out where "snd (flush_with answer now b s) = [(b, out)]" "vl_buf (fst (flush_with answer now b s)) = []"
    "vl_lines (fst (flush_with answer now b s)) = vl_lines s" "vl_cap (fst (flush_with answer now b s)) = vl_cap s"
    "vl_batch (fst (flush_with answer now b s)) = vl_batch s" "vl_pc (fst (flush_with answer now b s)) = vl_pc s"
    "vl_dropped (fst (flush_with answer now b s)) = vl_dropped s + (if out = FlushFailed then length b else 0)"
    by (rule flush_with_elim [OF refl])
  with assms show ?thesis by (cases out) (auto simp: vl_ok_def vl_counts)
qed

text \<open>Moving lines from the queue to the buffer keeps the accounting.\<close>

lemma vl_acc_moved:
  assumes "vl_ok y" "vl_buf t @ vl_lines t = vl_buf (vy_s y) @ vl_lines (vy_s y)" "vl_cap t = vl_cap (vy_s y)" "vl_batch t = vl_batch (vy_s y)"
    "vl_dropped t = vl_dropped (vy_s y)" "length (vl_lines t) \<le> length (vl_lines (vy_s y))" "vl_pc (vy_s y) \<noteq> Stopped"
  shows "vl_acc (y\<lparr>vy_s := t\<rparr>)"
proof -
  have "length (vl_buf t) + length (vl_lines t) = length (vl_buf (vy_s y)) + length (vl_lines (vy_s y))"
    using assms(2) by (metis length_append)
  then show ?thesis using assms by (simp add: vl_ok_def vl_counts)
qed

lemma vl_ok_drain:
  assumes ok: "vl_ok y" and pc: "vl_pc (vy_s y) \<noteq> Stopped" and r: "vl_drainAndFlush answer now (vy_s y) = (s, fl)"
  shows "vl_ok (y\<lparr>vy_s := s, vy_flushes := vy_flushes y @ fl\<rparr>)"
proof -
  let ?t = "(vy_s y)\<lparr>vl_lines := [], vl_buf := vl_buf (vy_s y) @ vl_lines (vy_s y), vl_pc := Stopped\<rparr>"
  have a: "vl_acc (y\<lparr>vy_s := ?t\<rparr>)" using pc by (intro vl_acc_moved [OF ok]) simp_all
  show ?thesis
  proof (cases "vl_buf ?t = []")
    case True
    with a r show ?thesis by (auto simp: vl_drainAndFlush_def Let_def vl_ok_def vl_counts)
  next
    case False
    then have "flush_with answer now (vl_buf ?t) ?t = (s, fl)" using r by (auto simp: vl_drainAndFlush_def Let_def)
    with vl_ok_flush_with [OF a refl False, of answer now] show ?thesis by simp
  qed
qed

lemma vl_ok_take:
  assumes ok: "vl_ok y" and pc: "vl_pc (vy_s y) = Selecting" and st: "vl_run_step TakeLine answer now (vy_s y) = Some (s, fl)"
  shows "vl_ok (y\<lparr>vy_s := s, vy_flushes := vy_flushes y @ fl\<rparr>)"
proof -
  let ?s = "vy_s y"
  obtain l ls where q: "vl_lines ?s = l # ls" using st pc by (auto simp: vl_run_step_def take_line_def split: list.splits)
  let ?t = "?s\<lparr>vl_lines := ls, vl_buf := vl_buf ?s @ [l], vl_pc := Top\<rparr>"
  have a: "vl_acc (y\<lparr>vy_s := ?t\<rparr>)" using pc q by (intro vl_acc_moved [OF ok]) simp_all
  have r: "(if vl_batch ?s \<le> length (vl_buf ?t) then flush_with answer now (vl_buf ?t) ?t else (?t, [])) = (s, fl)"
    using st pc q by (auto simp: vl_run_step_def take_line_def Let_def split: if_splits)
  show ?thesis
  proof (cases "vl_batch ?s \<le> length (vl_buf ?t)")
    case True
    moreover have "length (vl_buf ?t) \<le> vl_batch ?s" using ok pc by (simp add: vl_ok_def)
    ultimately show ?thesis using vl_ok_flush_with [OF a refl, of answer now] r by simp
  next
    case False
    with r a show ?thesis by (auto simp: vl_ok_def)
  qed
qed

lemma vl_ok_tick:
  assumes ok: "vl_ok y" and pc: "vl_pc (vy_s y) = Selecting" and st: "vl_run_step Tick answer now (vy_s y) = Some (s, fl)"
  shows "vl_ok (y\<lparr>vy_s := s, vy_flushes := vy_flushes y @ fl\<rparr>)"
proof -
  let ?s = "vy_s y" let ?t = "(vy_s y)\<lparr>vl_pc := Top\<rparr>"
  have a: "vl_acc (y\<lparr>vy_s := ?t\<rparr>)" using pc by (intro vl_acc_moved [OF ok]) simp_all
  show ?thesis
  proof (cases "vl_buf ?s = []")
    case True
    with pc st a show ?thesis by (auto simp: vl_run_step_def Let_def vl_ok_def vl_counts)
  next
    case False
    then have "flush_with answer now (vl_buf ?s) ?t = (s, fl)" using pc st by (simp add: vl_run_step_def Let_def)
    moreover have "length (vl_buf ?s) \<le> vl_batch ?s" using ok pc by (simp add: vl_ok_def)
    ultimately show ?thesis using vl_ok_flush_with [OF a, of "vl_buf ?s" answer now] False by simp
  qed
qed

lemma vl_ok_flush:
  assumes ok: "vl_ok y" and st: "vl_run_step ch answer now (vy_s y) = Some (s, fl)"
  shows "vl_ok (y\<lparr>vy_s := s, vy_flushes := vy_flushes y @ fl\<rparr>)"
proof (cases "vl_pc (vy_s y)"; cases ch)
  assume pc: "vl_pc (vy_s y) = Top" and ch: "ch = CheckStop"
  show ?thesis
  proof (cases "vl_stop (vy_s y)")
    case True
    with pc ch st show ?thesis by (intro vl_ok_drain [OF ok, of answer now]) (simp_all add: vl_run_step_def)
  next
    case False
    with pc ch st ok show ?thesis by (auto simp: vl_run_step_def vl_ok_def vl_counts)
  qed
next
  assume pc: "vl_pc (vy_s y) = Selecting" and ch: "ch = SeeStop"
  with st show ?thesis by (intro vl_ok_drain [OF ok, of answer now]) (auto simp: vl_run_step_def split: if_splits)
qed (use st vl_ok_take [OF ok] vl_ok_tick [OF ok] in \<open>auto simp: vl_run_step_def [of CheckStop] vl_run_step_def [of SeeStop] vl_run_step_def\<close>)

lemma vl_ok_log:
  assumes "vl_ok y"
  shows "vl_ok (vl_event_step (VLog marshal h rec) y)"
proof (cases "handled_line marshal h rec (vy_s y)")
  case None
  with assms show ?thesis by (simp add: Handle_def)
next
  case (Some b)
  note o = assms [unfolded vl_ok_def vl_acc_def]
  have e: "vl_event_step (VLog marshal h rec) y = y\<lparr>vy_s := send_line b (vy_s y), vy_sent := vy_sent y @ [b]\<rparr>"
    using Some by (simp add: Handle_def)
  show ?thesis
  proof (cases "length (vl_lines (vy_s y)) < vl_cap (vy_s y)")
    case True
    have "subseq ((lines_flushed y @ vl_buf (vy_s y) @ vl_lines (vy_s y)) @ [b]) (vy_sent y @ [b])"
      using o by (intro list_emb_append_mono) auto
    with o True e show ?thesis by (simp add: vl_ok_def vl_counts send_line_def)
  next
    case False
    have "subseq (lines_flushed y @ vl_buf (vy_s y) @ vl_lines (vy_s y)) (vy_sent y @ [b])"
      using o by (metis append_Nil2 list_emb_append_mono list_emb_Nil)
    with o False e show ?thesis by (simp add: vl_ok_def vl_counts send_line_def)
  qed
qed

lemma vl_ok_step: "vl_ok y \<Longrightarrow> vl_ok (vl_event_step e y)"
proof (cases e)
  case (VLog marshal h rec)
  then show "vl_ok y \<Longrightarrow> ?thesis" using vl_ok_log by simp
next
  case (VWorker ch answer now)
  then show "vl_ok y \<Longrightarrow> ?thesis" using vl_ok_flush by (auto split: option.split)
qed (simp_all add: vl_ok_def vl_counts Handler_Configure_def Handler_Close_def)

lemma vl_ok_run: "vl_ok y \<Longrightarrow> vl_ok (fold vl_event_step es y)"
  by (induction es arbitrary: y) (simp_all add: vl_ok_step)


text \<open>Shutdown. Once \<open>Close\<close> has been called, the worker's next look at the stop channel posts everything it still holds, buffer first and
  then the queue, as one last batch and ends; it never takes another step.\<close>

theorem close_flushes_once:
  assumes "vl_stop s" "vl_pc s = Top" "vl_enabled s" "vl_url s \<noteq> []" "vl_buf s @ vl_lines s \<noteq> []"
  shows "\<exists>s'. vl_run_step CheckStop (Inr 204) now s = Some (s', [(vl_buf s @ vl_lines s, Shipped)]) \<and>
     vl_buf s' = [] \<and> vl_lines s' = [] \<and> vl_dropped s' = vl_dropped s \<and> vl_run_step ch answer now' s' = None"
  using assms by (auto simp: vl_run_step_def vl_drainAndFlush_def flush_with_def doFlush_def Let_def)

end
