(* ===== verification/Outages.thy ===== *)
theory Outages
  imports Result_Store Go_Time "HOL-Library.Multiset" "HOL-Library.Option_ord" "HOL-Library.Product_Lexorder"
begin

text \<open>
  The trouble timeline: \<open>Outages\<close> of \<open>internal/store/outages.go\<close>. One pass over the results of the window, ordered by target and time,
  keeps the open incident; the reference definition cuts each target's own results into episodes. \<open>sort.Slice\<close> promises no order among
  incidents that start at the same time, so it is the argument \<open>srt\<close>, of which only \<open>sorts_newest_first\<close> is used.
\<close>

datatype incident_kind = KResult | KSkipped

datatype incident_status = IFailed | IDegraded | ISkipped

record incident =
  inc_target_id :: "int option"
  inc_target_name :: string
  inc_kind :: incident_kind
  inc_status :: incident_status
  inc_started_at :: string
  inc_ended_at :: string
  inc_count :: nat
  inc_error :: string

definition maxIncidents :: nat where
  "maxIncidents = 500"

subsection \<open>The rows\<close>

text \<open>\<open>ORDER BY target_id, CASE WHEN target_id IS NULL THEN target_name END, started_at\<close>; NULL comes first, and rows that compare equal
  come in table order.\<close>

definition target_key :: "result \<Rightarrow> int option \<times> string option" where
  "target_key r = (res_target_id r, if res_target_id r = None then Some (res_target_name r) else None)"

definition in_window :: "string \<Rightarrow> string \<Rightarrow> string \<Rightarrow> bool" where
  "in_window from1 to1 t \<longleftrightarrow> from1 \<le> t \<and> t \<le> to1"

definition outage_rows :: "db \<Rightarrow> string \<Rightarrow> string \<Rightarrow> result list" where
  "outage_rows d from1 to1 =
     sort_key target_key (sort_key res_started_at (filter (\<lambda>r. in_window from1 to1 (res_started_at r)) (rows (results_t d))))"

text \<open>\<open>COALESCE\<close> with a constant.\<close>

definition text_or :: "string option \<Rightarrow> string \<Rightarrow> string" where
  "text_or v dflt = (case v of None \<Rightarrow> dflt | Some x \<Rightarrow> x)"

text \<open>The skipped cron fires, with the name of their schedule.\<close>

definition skipped_incident :: "db \<Rightarrow> run \<Rightarrow> incident" where
  "skipped_incident d r =
     \<lparr>inc_target_id = None,
      inc_target_name = (case find (\<lambda>s. Some (s_id s) = run_schedule_id r) (rows (schedules_t d)) of
                           None \<Rightarrow> ''(deleted schedule)'' | Some s \<Rightarrow> s_name s),
      inc_kind = KSkipped, inc_status = ISkipped, inc_started_at = text_or (run_started_at r) [], inc_ended_at = text_or (run_started_at r) [],
      inc_count = 1, inc_error = text_or (run_error r) ''skipped''\<rparr>"

definition skipped_incidents :: "db \<Rightarrow> string \<Rightarrow> string \<Rightarrow> incident list" where
  "skipped_incidents d from1 to1 =
     map (skipped_incident d) (sort_key (\<lambda>r. text_or (run_started_at r) [])
       (filter (\<lambda>r. run_state r = Skipped \<and> (case run_started_at r of None \<Rightarrow> False | Some t \<Rightarrow> in_window from1 to1 t)) (rows (runs_t d))))"

subsection \<open>The pass\<close>

type_synonym outage_scan = "incident list \<times> (incident \<times> time) option"

definition flush_incident :: "outage_scan \<Rightarrow> incident list" where
  "flush_incident s = fst s @ (case snd s of None \<Rightarrow> [] | Some (c, _) \<Rightarrow> [c])"

definition same_target :: "incident \<Rightarrow> result \<Rightarrow> bool" where
  "same_target c r \<longleftrightarrow>
     (inc_target_id c = None \<and> res_target_id r = None \<and> inc_target_name c = res_target_name r) \<or>
     (inc_target_id c \<noteq> None \<and> res_target_id r \<noteq> None \<and> inc_target_id c = res_target_id r)"

definition bad_status :: "result_status \<Rightarrow> incident_status" where
  "bad_status s = (if s = RFailed then IFailed else IDegraded)"

definition new_incident :: "result \<Rightarrow> incident" where
  "new_incident r =
     \<lparr>inc_target_id = res_target_id r, inc_target_name = res_target_name r, inc_kind = KResult, inc_status = bad_status (res_status r),
      inc_started_at = res_started_at r, inc_ended_at = res_started_at r, inc_count = 1, inc_error = res_error r\<rparr>"

definition extend_incident :: "incident \<Rightarrow> result \<Rightarrow> incident" where
  "extend_incident c r =
     c\<lparr>inc_ended_at := res_started_at r, inc_count := Suc (inc_count c),
       inc_status := (if inc_status c = IDegraded \<and> res_status r = RFailed then IFailed else inc_status c),
       inc_error := (if inc_error c = [] then res_error r else inc_error c)\<rparr>"

definition outage_step :: "duration \<Rightarrow> result \<Rightarrow> time \<Rightarrow> outage_scan \<Rightarrow> outage_scan" where
  "outage_step gap r t s =
     (let same = (case snd s of None \<Rightarrow> False | Some (c, _) \<Rightarrow> same_target c r) in
      if res_status r = ROk then (if same then (flush_incident s, None) else s)
      else case snd s of
             Some (c, e) \<Rightarrow>
               if same \<and> time_Sub t e \<le> gap then (fst s, Some (extend_incident c r, t))
               else (flush_incident s, Some (new_incident r, t))
           | None \<Rightarrow> (flush_incident s, Some (new_incident r, t)))"

fun outage_loop :: "duration \<Rightarrow> outage_scan \<Rightarrow> result list \<Rightarrow> outage_scan res" where
  "outage_loop gap s [] = Inr s"
| "outage_loop gap s (r # rs) =
     (case Parse_frac 3 (res_started_at r) of
        None \<Rightarrow> Inl (ErrDB (''parse outage time '' @ res_started_at r))
      | Some t \<Rightarrow> outage_loop gap (outage_step gap r t s) rs)"

definition gap_of :: "int \<Rightarrow> duration" where
  "gap_of gapSeconds = wrap64 ((if gapSeconds \<le> 0 then 1800 else gapSeconds) * Second)"

definition Outages :: "(incident list \<Rightarrow> incident list) \<Rightarrow> fault \<Rightarrow> fault \<Rightarrow> db \<Rightarrow> string \<Rightarrow> string \<Rightarrow> int \<Rightarrow> incident list res" where
  "Outages srt flt flt2 d from1 to1 gapSeconds =
     (case flt of
        Some e \<Rightarrow> Inl (ErrDB e)
      | None \<Rightarrow>
          (case outage_loop (gap_of gapSeconds) ([], None) (outage_rows d from1 to1) of
             Inl e \<Rightarrow> Inl e
           | Inr s \<Rightarrow>
               (case flt2 of
                  Some e \<Rightarrow> Inl (ErrDB e)
                | None \<Rightarrow> Inr (take maxIncidents (srt (flush_incident s @ skipped_incidents d from1 to1))))))"

subsection \<open>Episodes\<close>

definition result_time :: "result \<Rightarrow> time" where
  "result_time r = the (Parse_frac 3 (res_started_at r))"

definition not_ok :: "result \<Rightarrow> bool" where
  "not_ok r \<longleftrightarrow> res_status r \<noteq> ROk"

definition linked :: "duration \<Rightarrow> result \<Rightarrow> result \<Rightarrow> bool" where
  "linked gap r r' \<longleftrightarrow> not_ok r \<and> not_ok r' \<and> time_Sub (result_time r') (result_time r) \<le> gap"

text \<open>A target's results in time order, cut into its episodes: a result that is not ok belongs with its successor when that one is not ok
  either and follows within the gap.\<close>

fun episodes :: "duration \<Rightarrow> result list \<Rightarrow> result list list" where
  "episodes gap [] = []"
| "episodes gap (r # rs) =
     (if \<not> not_ok r then episodes gap rs
      else case rs of
             r' # _ \<Rightarrow> if linked gap r r' then (r # hd (episodes gap rs)) # tl (episodes gap rs) else [r] # episodes gap rs
           | [] \<Rightarrow> [[r]])"

text \<open>The incident of an episode: the worst status, and the first error text.\<close>

fun first_text :: "string list \<Rightarrow> string" where
  "first_text [] = []"
| "first_text (m # ms) = (if m = [] then first_text ms else m)"

definition incident_of :: "result list \<Rightarrow> incident" where
  "incident_of e =
     \<lparr>inc_target_id = res_target_id (hd e), inc_target_name = res_target_name (hd e), inc_kind = KResult,
      inc_status = (if \<exists>r\<in>set e. res_status r = RFailed then IFailed else IDegraded),
      inc_started_at = res_started_at (hd e), inc_ended_at = res_started_at (last e), inc_count = length e,
      inc_error = first_text (map res_error e)\<rparr>"

definition target_timeline :: "db \<Rightarrow> string \<Rightarrow> string \<Rightarrow> int option \<times> string option \<Rightarrow> result list" where
  "target_timeline d from1 to1 k =
     filter (\<lambda>r. target_key r = k) (sort_key res_started_at (filter (\<lambda>r. in_window from1 to1 (res_started_at r)) (rows (results_t d))))"

definition window_keys :: "db \<Rightarrow> string \<Rightarrow> string \<Rightarrow> (int option \<times> string option) list" where
  "window_keys d from1 to1 =
     sorted_list_of_set (target_key ` set (filter (\<lambda>r. in_window from1 to1 (res_started_at r)) (rows (results_t d))))"

definition outage_episodes :: "db \<Rightarrow> string \<Rightarrow> string \<Rightarrow> duration \<Rightarrow> result list list" where
  "outage_episodes d from1 to1 gap = concat (map (\<lambda>k. episodes gap (target_timeline d from1 to1 k)) (window_keys d from1 to1))"

definition sorts_newest_first :: "(incident list \<Rightarrow> incident list) \<Rightarrow> bool" where
  "sorts_newest_first srt \<longleftrightarrow> (\<forall>xs. mset (srt xs) = mset xs \<and> sorted_wrt (\<lambda>a b. inc_started_at b \<le> inc_started_at a) (srt xs))"

subsection \<open>The pass finds the episodes\<close>

declare episodes.simps(2) [simp del]

lemma episodes_Cons:
  "\<not> not_ok r \<Longrightarrow> episodes gap (r # rs) = episodes gap rs"
  "not_ok r \<Longrightarrow> rs = [] \<or> \<not> linked gap r (hd rs) \<Longrightarrow> episodes gap (r # rs) = [r] # episodes gap rs"
  "rs \<noteq> [] \<Longrightarrow> linked gap r (hd rs) \<Longrightarrow> episodes gap (r # rs) = (r # hd (episodes gap rs)) # tl (episodes gap rs)"
proof -
  show "\<not> not_ok r \<Longrightarrow> episodes gap (r # rs) = episodes gap rs" by (subst episodes.simps) simp
  show "episodes gap (r # rs) = [r] # episodes gap rs" if "not_ok r" "rs = [] \<or> \<not> linked gap r (hd rs)"
    using that by (cases rs; subst episodes.simps) simp_all
  show "episodes gap (r # rs) = (r # hd (episodes gap rs)) # tl (episodes gap rs)" if "rs \<noteq> []" "linked gap r (hd rs)"
  proof -
    obtain r' rs' where "rs = r' # rs'" using \<open>rs \<noteq> []\<close> by (cases rs) auto
    moreover have "not_ok r" using that by (simp add: linked_def)
    ultimately show ?thesis using that(2) by (subst episodes.simps) simp
  qed
qed

lemma episodes_head: "rs \<noteq> [] \<Longrightarrow> not_ok (hd rs) \<Longrightarrow> episodes gap rs \<noteq> []"
  by (cases rs; cases "tl rs = [] \<or> \<not> linked gap (hd rs) (hd (tl rs))") (auto simp: episodes_Cons)

lemma episodes_cases:
  obtains (ok) "\<not> not_ok r" | (alone) "not_ok r" "rs = [] \<or> \<not> linked gap r (hd rs)" | (joined) "rs \<noteq> []" "linked gap r (hd rs)"
  by blast

lemma episodes_bad: "concat (episodes gap rs) = filter not_ok rs"
proof (induction rs)
  case (Cons r rs)
  show ?case
  proof (cases rule: episodes_cases [where r = r and rs = rs and gap = gap])
    case joined
    then have "episodes gap rs \<noteq> []" using episodes_head by (auto simp: linked_def)
    then have "hd (episodes gap rs) @ concat (tl (episodes gap rs)) = concat (episodes gap rs)" by (cases "episodes gap rs") auto
    with Cons joined show ?thesis by (simp add: episodes_Cons linked_def)
  qed (use Cons in \<open>simp_all add: episodes_Cons\<close>)
qed simp

lemma in_set_tl: "x \<in> set (tl xs) \<Longrightarrow> x \<in> set xs"
  by (cases xs) auto

lemma episodes_nonempty: "e \<in> set (episodes gap rs) \<Longrightarrow> e \<noteq> []"
proof (induction rs arbitrary: e)
  case (Cons r rs)
  show ?case
    by (cases rule: episodes_cases [where r = r and rs = rs and gap = gap])
      (use Cons in \<open>auto simp: episodes_Cons dest: in_set_tl\<close>)
qed simp

text \<open>A chain: an episode that may still grow.\<close>

definition chain :: "duration \<Rightarrow> result list \<Rightarrow> bool" where
  "chain gap e \<longleftrightarrow> e \<noteq> [] \<and> list_all not_ok e \<and> successively (linked gap) e"

lemma episodes_chain_end:
  assumes "chain gap e" "rs = [] \<or> \<not> linked gap (last e) (hd rs)"
  shows "episodes gap (e @ rs) = e # episodes gap rs"
  using assms
proof (induction e)
  case (Cons r e)
  show ?case
  proof (cases "e = []")
    case True
    with Cons.prems show ?thesis by (simp add: chain_def episodes_Cons)
  next
    case False
    then have "chain gap e" "linked gap r (hd (e @ rs))" using Cons.prems(1) by (cases e; simp add: chain_def)+
    with Cons.IH Cons.prems False show ?thesis by (simp add: episodes_Cons)
  qed
qed (simp add: chain_def)

lemma chain_snoc: "chain gap e \<Longrightarrow> linked gap (last e) r \<Longrightarrow> chain gap (e @ [r])"
  by (auto simp: chain_def linked_def successively_append_iff)

lemma chain_single: "not_ok r \<Longrightarrow> chain gap [r]"
  by (simp add: chain_def)

lemma incident_of_single: "not_ok r \<Longrightarrow> incident_of [r] = new_incident r"
  by (cases "res_status r") (auto simp: incident_of_def new_incident_def not_ok_def bad_status_def)

lemma first_text_snoc: "first_text (ms @ [m]) = (if first_text ms = [] then m else first_text ms)"
  by (induction ms) auto

lemma incident_of_snoc:
  assumes "e \<noteq> []" "not_ok r"
  shows "incident_of (e @ [r]) = extend_incident (incident_of e) r"
  using assms by (simp add: incident_of_def extend_incident_def first_text_snoc)

text \<open>The key of an incident, and of the open one of a scan.\<close>

definition incident_key :: "incident \<Rightarrow> int option \<times> string option" where
  "incident_key c = (inc_target_id c, if inc_target_id c = None then Some (inc_target_name c) else None)"

definition open_key :: "outage_scan \<Rightarrow> (int option \<times> string option) option" where
  "open_key s = map_option (\<lambda>(c, _). incident_key c) (snd s)"

lemma open_key_None [simp]: "open_key (out, None) = None"
  by (simp add: open_key_def)

lemma same_target_key: "same_target c r \<longleftrightarrow> incident_key c = target_key r"
  by (auto simp: same_target_def incident_key_def target_key_def)

lemma incident_of_key: "incident_key (incident_of e) = target_key (hd e)"
  by (simp add: incident_of_def incident_key_def target_key_def)

lemma outage_step_other:
  assumes "open_key s \<noteq> Some (target_key r)"
  shows "outage_step gap r t s = (if not_ok r then (flush_incident s, Some (new_incident r, t)) else s)"
  using assms by (auto simp: outage_step_def open_key_def same_target_key not_ok_def split: option.splits prod.splits)

lemma outage_step_same:
  assumes "incident_key c = target_key r"
  shows "outage_step gap r t (out, Some (c, e)) =
    (if \<not> not_ok r then (out @ [c], None)
     else if time_Sub t e \<le> gap then (out, Some (extend_incident c r, t)) else (out @ [c], Some (new_incident r, t)))"
  using assms by (simp add: outage_step_def same_target_key not_ok_def flush_incident_def)

text \<open>The pass without its failure branch: the step at the row's own time.\<close>

definition scan_rows :: "duration \<Rightarrow> outage_scan \<Rightarrow> result list \<Rightarrow> outage_scan" where
  "scan_rows gap s rs = foldl (\<lambda>s r. outage_step gap r (result_time r) s) s rs"

lemma scan_rows_simps [simp]:
  "scan_rows gap s [] = s"
  "scan_rows gap s (r # rs) = scan_rows gap (outage_step gap r (result_time r) s) rs"
  "scan_rows gap s (rs @ rs') = scan_rows gap (scan_rows gap s rs) rs'"
  by (simp_all add: scan_rows_def)

lemma outage_loop_parsed:
  "\<forall>r\<in>set rs. Parse_frac 3 (res_started_at r) \<noteq> None \<Longrightarrow> outage_loop gap s rs = Inr (scan_rows gap s rs)"
proof (induction rs arbitrary: s)
  case (Cons r rs)
  then obtain t where "Parse_frac 3 (res_started_at r) = Some t" by auto
  with Cons show ?case by (simp add: result_time_def)
qed simp

text \<open>Over the rows of one target: from an open episode of it, and from a scan whose open incident is another target's.\<close>

lemma scan_target:
  assumes "\<forall>r\<in>set rs. target_key r = k"
  shows "chain gap e \<and> target_key (hd e) = k \<Longrightarrow>
      flush_incident (scan_rows gap (out, Some (incident_of e, result_time (last e))) rs) = out @ map incident_of (episodes gap (e @ rs)) \<and>
      open_key (scan_rows gap (out, Some (incident_of e, result_time (last e))) rs) \<in> {None, Some k}"
    and "open_key s \<noteq> Some k \<Longrightarrow>
      flush_incident (scan_rows gap s rs) = flush_incident s @ map incident_of (episodes gap rs) \<and>
      open_key (scan_rows gap s rs) \<in> {None, Some k, open_key s}"
  using assms
proof (induction rs arbitrary: e out s)
  case Nil
  {
    case 1
    have "episodes gap e = [e]" using episodes_chain_end [of gap e "[]"] 1 by simp
    with 1 show ?case by (simp add: flush_incident_def open_key_def incident_of_key)
  next
    case 2
    then show ?case by simp
  }
next
  case (Cons r rs)
  {
    case 1
    then have k: "target_key r = k" "\<forall>x\<in>set rs. target_key x = k" and ch: "chain gap e" and key: "incident_key (incident_of e) = target_key r"
      by (auto simp: incident_of_key)
    note st = outage_step_same [OF key, of gap "result_time r" out "result_time (last e)"]
    show ?case
    proof (cases "linked gap (last e) r")
      case True
      moreover have "e \<noteq> []" using ch by (simp add: chain_def)
      ultimately have "chain gap (e @ [r])" "hd (e @ [r]) = hd e" "incident_of (e @ [r]) = extend_incident (incident_of e) r"
        using ch by (auto simp: chain_snoc incident_of_snoc linked_def)
      with Cons.IH(1) [of "e @ [r]" out] 1 k True st show ?thesis by (simp add: linked_def)
    next
      case False
      then have ep: "episodes gap (e @ r # rs) = e # episodes gap (r # rs)" using episodes_chain_end [OF ch, of "r # rs"] by simp
      have "not_ok (last e)" using ch by (auto simp: chain_def list_all_iff)
      with False have nl: "not_ok r \<Longrightarrow> \<not> time_Sub (result_time r) (result_time (last e)) \<le> gap" by (simp add: linked_def)
      show ?thesis
      proof (cases "not_ok r")
        case True
        have "flush_incident (scan_rows gap (out @ [incident_of e], Some (incident_of [r], result_time (last [r]))) rs) =
            (out @ [incident_of e]) @ map incident_of (episodes gap ([r] @ rs)) \<and>
            open_key (scan_rows gap (out @ [incident_of e], Some (incident_of [r], result_time (last [r]))) rs) \<in> {None, Some k}"
          using k True by (intro Cons.IH(1)) (simp_all add: chain_single)
        with st nl True ep show ?thesis by (simp add: incident_of_single)
      next
        case nok: False
        have "flush_incident (scan_rows gap (out @ [incident_of e], None) rs) = flush_incident (out @ [incident_of e], None) @ map incident_of (episodes gap rs) \<and>
            open_key (scan_rows gap (out @ [incident_of e], None) rs) \<in> {None, Some k, open_key (out @ [incident_of e], None)}"
          using k by (intro Cons.IH(2)) simp_all
        with st nok ep show ?thesis by (auto simp: episodes_Cons flush_incident_def [of "(out @ [incident_of e], None)"])
      qed
    qed
  next
    case 2
    then have k: "target_key r = k" "\<forall>x\<in>set rs. target_key x = k" by auto
    with 2 have st: "outage_step gap r (result_time r) s = (if not_ok r then (flush_incident s, Some (new_incident r, result_time r)) else s)"
      by (simp add: outage_step_other)
    show ?case
    proof (cases "not_ok r")
      case True
      have "flush_incident (scan_rows gap (flush_incident s, Some (incident_of [r], result_time (last [r]))) rs) =
          flush_incident s @ map incident_of (episodes gap ([r] @ rs)) \<and>
          open_key (scan_rows gap (flush_incident s, Some (incident_of [r], result_time (last [r]))) rs) \<in> {None, Some k}"
        using k True by (intro Cons.IH(1)) (simp_all add: chain_single)
      with st True show ?thesis by (auto simp: incident_of_single)
    next
      case False
      with st Cons.IH(2) [of s] 2 k show ?thesis by (simp add: episodes_Cons)
    qed
  }
qed

text \<open>A stable sort lists the rows of each key in turn.\<close>

lemma sort_key_groups:
  fixes f :: "'a \<Rightarrow> 'k::linorder"
  shows "sort_key f xs = concat (map (\<lambda>k. filter (\<lambda>x. f x = k) xs) (sorted_list_of_set (f ` set xs)))"
proof (rule properties_for_sort_key)
  let ?ks = "sorted_list_of_set (f ` set xs)" and ?g = "\<lambda>k. filter (\<lambda>x. f x = k) xs"
  have count: "filter (\<lambda>x. f x = k) (concat (map ?g ks)) = (if k \<in> set ks then ?g k else [])" if "distinct ks" for k ks
    using that by (induction ks) (auto simp: filter_filter intro: filter_False)
  have grp: "filter (\<lambda>x. f x = k) (concat (map ?g ?ks)) = ?g k" for k
    by (cases "k \<in> f ` set xs") (auto simp: count image_iff intro: filter_False [symmetric])
  show "filter (\<lambda>x. f k = f x) (concat (map ?g ?ks)) = filter (\<lambda>x. f k = f x) xs" for k
    using grp [of "f k"] by (simp add: eq_commute [of "f k"])
  show "mset (concat (map ?g ?ks)) = mset xs"
  proof (rule multiset_eqI)
    fix y
    have "count (mset zs) y = count (mset (filter (\<lambda>x. f x = f y) zs)) y" for zs by (simp add: count_mset)
    then show "count (mset (concat (map ?g ?ks))) y = count (mset xs) y" using grp [of "f y"] by metis
  qed
  have one: "sorted (map f (filter (\<lambda>x. f x = k) ys))" for k ys by (induction ys) auto
  have "sorted (map f (concat (map ?g ks)))" if "sorted ks" for ks
    using that by (induction ks) (auto simp: sorted_append one)
  then show "sorted (map f (concat (map ?g ?ks)))" by simp
qed

lemma scan_groups:
  assumes "distinct ks" "\<forall>k\<in>set ks. \<forall>r\<in>set (g k). target_key r = k" "\<forall>k\<in>set ks. open_key s \<noteq> Some k"
  shows "flush_incident (scan_rows gap s (concat (map g ks))) = flush_incident s @ map incident_of (concat (map (\<lambda>k. episodes gap (g k)) ks))"
  using assms
proof (induction ks arbitrary: s)
  case (Cons k ks)
  have "\<forall>r\<in>set (g k). target_key r = k" "open_key s \<noteq> Some k" using Cons.prems by auto
  note st = scan_target(2) [OF this, of gap]
  with Cons.prems have "\<forall>k'\<in>set ks. open_key (scan_rows gap s (g k)) \<noteq> Some k'" by auto
  with Cons st show ?case by simp
qed simp

lemma outage_rows_groups:
  "outage_rows d from1 to1 = concat (map (target_timeline d from1 to1) (window_keys d from1 to1))"
  by (simp add: outage_rows_def sort_key_groups [of target_key] target_timeline_def [abs_def] window_keys_def)

lemma set_outage_rows: "set (outage_rows d from1 to1) = {r \<in> set (rows (results_t d)). in_window from1 to1 (res_started_at r)}"
  by (auto simp: outage_rows_def)

lemma bad_results_counted:
  "sum_list (map length (outage_episodes d from1 to1 gap)) =
     length (filter (\<lambda>r. not_ok r \<and> in_window from1 to1 (res_started_at r)) (rows (results_t d)))"
proof -
  have "sum_list (map length (outage_episodes d from1 to1 gap)) = length (concat (outage_episodes d from1 to1 gap))"
    by (simp add: length_concat)
  also have "concat (outage_episodes d from1 to1 gap) = filter not_ok (outage_rows d from1 to1)"
  proof -
    have "concat (concat (map (\<lambda>k. episodes gap (g k)) ks)) = filter not_ok (concat (map g ks))" for ks and g :: "int option \<times> string option \<Rightarrow> result list"
      by (induction ks) (simp_all add: episodes_bad)
    then show ?thesis by (simp add: outage_episodes_def outage_rows_groups)
  qed
  also have "length (filter not_ok (outage_rows d from1 to1)) =
      length (filter (\<lambda>r. not_ok r \<and> in_window from1 to1 (res_started_at r)) (rows (results_t d)))"
  proof -
    have "mset (filter not_ok (outage_rows d from1 to1)) = filter_mset not_ok (mset (filter (\<lambda>r. in_window from1 to1 (res_started_at r)) (rows (results_t d))))"
      by (simp add: outage_rows_def)
    then have "size (mset (filter not_ok (outage_rows d from1 to1))) =
        size (mset (filter not_ok (filter (\<lambda>r. in_window from1 to1 (res_started_at r)) (rows (results_t d)))))" by (simp only: mset_filter)
    then show ?thesis by (simp only: size_mset filter_filter conj_commute)
  qed
  finally show ?thesis .
qed

text \<open>C29: The trouble timeline is exactly the episodes of each target. When every timestamp of the window parses, the one pass over the
  interleaved rows gives the incidents of the reference definition, target by target, and the skipped cron fires, newest first and at most
  500; and when nothing is cut off, every failed or degraded result of the window is counted in one incident, none twice.\<close>

theorem outages_are_episodes:
  assumes "sorts_newest_first srt" "\<forall>r\<in>set (rows (results_t d)). Parse_frac 3 (res_started_at r) \<noteq> None"
  shows "\<exists>incs. Outages srt None None d from1 to1 gapSeconds = Inr incs \<and>
    incs = take maxIncidents (srt (map incident_of (outage_episodes d from1 to1 (gap_of gapSeconds)) @ skipped_incidents d from1 to1)) \<and>
    sorted_wrt (\<lambda>a b. inc_started_at b \<le> inc_started_at a) incs \<and>
    (length (outage_episodes d from1 to1 (gap_of gapSeconds)) + length (skipped_incidents d from1 to1) \<le> maxIncidents \<longrightarrow>
       sum_list (map inc_count (filter (\<lambda>i. inc_kind i = KResult) incs)) =
         length (filter (\<lambda>r. not_ok r \<and> in_window from1 to1 (res_started_at r)) (rows (results_t d))))"
proof -
  let ?eps = "outage_episodes d from1 to1 (gap_of gapSeconds)" and ?sk = "skipped_incidents d from1 to1"
  let ?all = "map incident_of ?eps @ ?sk"
  have "outage_loop (gap_of gapSeconds) ([], None) (outage_rows d from1 to1) = Inr (scan_rows (gap_of gapSeconds) ([], None) (outage_rows d from1 to1))"
    using assms(2) by (intro outage_loop_parsed) (auto simp: set_outage_rows)
  moreover have "flush_incident (scan_rows (gap_of gapSeconds) ([], None) (outage_rows d from1 to1)) = map incident_of ?eps"
    unfolding outage_rows_groups outage_episodes_def
    by (subst scan_groups) (auto simp: window_keys_def target_timeline_def flush_incident_def)
  ultimately have o: "Outages srt None None d from1 to1 gapSeconds = Inr (take maxIncidents (srt ?all))" by (simp add: Outages_def)
  have m: "mset (srt ?all) = mset ?all" and s: "sorted_wrt (\<lambda>a b. inc_started_at b \<le> inc_started_at a) (srt ?all)"
    using assms(1) by (auto simp: sorts_newest_first_def)
  have "sum_list (map inc_count (filter (\<lambda>i. inc_kind i = KResult) (take maxIncidents (srt ?all)))) =
      length (filter (\<lambda>r. not_ok r \<and> in_window from1 to1 (res_started_at r)) (rows (results_t d)))"
    if "length ?eps + length ?sk \<le> maxIncidents"
  proof -
    have "length (srt ?all) = length ?eps + length ?sk" using m by (metis length_append length_map mset_eq_length)
    with that have "take maxIncidents (srt ?all) = srt ?all" by simp
    moreover have "mset (map inc_count (filter (\<lambda>i. inc_kind i = KResult) (srt ?all))) = mset (map inc_count (filter (\<lambda>i. inc_kind i = KResult) ?all))"
      using m by (simp only: mset_filter mset_map)
    moreover have "filter (\<lambda>i. inc_kind i = KResult) ?all = map incident_of ?eps"
      by (auto simp: filter_True incident_of_def skipped_incidents_def skipped_incident_def)
    ultimately have "sum_list (map inc_count (filter (\<lambda>i. inc_kind i = KResult) (take maxIncidents (srt ?all)))) = sum_list (map inc_count (map incident_of ?eps))"
      by (metis sum_mset_sum_list)
    also have "map inc_count (map incident_of ?eps) = map length ?eps" by (simp add: incident_of_def)
    finally show ?thesis by (simp only: bad_results_counted)
  qed
  with o s show ?thesis by (auto simp: sorted_wrt_take)
qed

definition newest_first :: "incident list \<Rightarrow> incident list" where
  "newest_first xs = rev (sort_key inc_started_at xs)"

lemma newest_first_sorts: "sorts_newest_first newest_first"
proof -
  have "sorted (map inc_started_at (sort_key inc_started_at xs))" for xs :: "incident list" by simp
  then have "sorted_wrt (\<lambda>a b. inc_started_at a \<le> inc_started_at b) (sort_key inc_started_at xs)" for xs :: "incident list"
    by (simp only: sorted_map)
  then show ?thesis by (simp add: sorts_newest_first_def newest_first_def sorted_wrt_rev)
qed

definition outage_result :: "int \<Rightarrow> int option \<Rightarrow> string \<Rightarrow> result_status \<Rightarrow> string \<Rightarrow> result" where
  "outage_result i tid name st t =
     \<lparr>res_id = i, res_run_id = None, res_target_id = tid, res_target_name = name, res_engine = ''ookla'', res_options_snapshot = RawEmpty,
      res_status = st, res_error = (if st = RFailed then ''timeout'' else []), res_started_at = t, res_duration_ms = 0, res_download_bps = 0,
      res_upload_bps = 0, res_ping_ms = 0, res_jitter_ms = 0, res_packet_loss_pct = 0, res_bytes_down = 0, res_bytes_up = 0, res_server_id = [],
      res_server_name = [], res_server_host = [], res_isp = [], res_external_ip = [], res_result_url = [], res_raw = RawEmpty\<rparr>"

text \<open>A degraded and a failed result of one target within the gap, a recovery, a failure after it, and a failure of a deleted target.\<close>

definition outage_db :: db where
  "outage_db = empty_db\<lparr>results_t := \<lparr>rows =
     [outage_result 1 (Some 7) ''home'' RDegraded ''2024-05-01T10:00:00.000Z'',
      outage_result 2 None ''gone'' RFailed ''2024-05-01T10:05:00.000Z'',
      outage_result 3 (Some 7) ''home'' RFailed ''2024-05-01T10:15:00.000Z'',
      outage_result 4 (Some 7) ''home'' ROk ''2024-05-01T10:20:00.000Z'',
      outage_result 5 (Some 7) ''home'' RFailed ''2024-05-01T10:30:00.000Z''], seq = 5\<rparr>\<rparr>"

theorem outages_are_episodes_witness:
  "\<exists>incs. Outages newest_first None None outage_db ''2024-05-01'' ''2024-05-02'' 1800 = Inr incs \<and>
     map inc_count incs = [1, 1, 2] \<and> map inc_status incs = [IFailed, IFailed, IFailed] \<and>
     sum_list (map inc_count (filter (\<lambda>i. inc_kind i = KResult) incs)) = 4"
proof -
  have p: "\<forall>r\<in>set (rows (results_t outage_db)). Parse_frac 3 (res_started_at r) \<noteq> None" by code_simp
  have s: "skipped_incidents outage_db ''2024-05-01'' ''2024-05-02'' = []" by code_simp
  have e: "map (map res_id) (outage_episodes outage_db ''2024-05-01'' ''2024-05-02'' (gap_of 1800)) = [[2], [1, 3], [5]]" by code_simp
  have c: "map inc_count (take maxIncidents (newest_first (map incident_of (outage_episodes outage_db ''2024-05-01'' ''2024-05-02'' (gap_of 1800))))) = [1, 1, 2]"
    by code_simp
  have i: "map inc_status (take maxIncidents (newest_first (map incident_of (outage_episodes outage_db ''2024-05-01'' ''2024-05-02'' (gap_of 1800))))) =
      [IFailed, IFailed, IFailed]" by code_simp
  have b: "length (filter (\<lambda>r. not_ok r \<and> in_window ''2024-05-01'' ''2024-05-02'' (res_started_at r)) (rows (results_t outage_db))) = 4" by code_simp
  have "length (outage_episodes outage_db ''2024-05-01'' ''2024-05-02'' (gap_of 1800)) = 3" using arg_cong [OF e, of length] by simp
  with outages_are_episodes [OF newest_first_sorts p, of "''2024-05-01''" "''2024-05-02''" 1800] s b c i
  show ?thesis by (auto simp: maxIncidents_def)
qed

end
