(* ===== verification/History.thy ===== *)
theory History
  imports Outages
begin

text \<open>
  Chart data: \<open>internal/store/history.go\<close>. The bucket width of a window and the aggregates per bucket. SQLite's
  \<open>strftime('%s', ...)\<close>, which turns a stored text into unix seconds, is the argument \<open>ep\<close>; \<open>reads_schema_times\<close> states
  what it does on the texts of the schema. Averages are exact.
\<close>

record history_point =
  hp_bucket_start :: string
  hp_count :: nat
  hp_fail_count :: nat
  hp_avg_download :: float64
  hp_min_download :: float64
  hp_max_download :: float64
  hp_avg_upload :: float64
  hp_min_upload :: float64
  hp_max_upload :: float64
  hp_avg_ping :: float64
  hp_min_ping :: float64
  hp_max_ping :: float64
  hp_avg_jitter :: float64

definition bucketSteps :: "int list" where
  "bucketSteps = [60, 300, 900, 1800, 3600, 7200, 21600, 43200, 86400]"

definition maxHistoryPoints :: int where
  "maxHistoryPoints = 500"

definition BucketSecondsFor :: "duration \<Rightarrow> int" where
  "BucketSecondsFor sp =
     (let secs = sp div Second
      in if secs \<le> 0 then hd bucketSteps
         else case find (\<lambda>step. secs div step \<le> maxHistoryPoints) bucketSteps of
                Some step \<Rightarrow> step | None \<Rightarrow> last bucketSteps)"

subsection \<open>SQL\<close>

text \<open>The aggregates over the rows with status ok; \<open>NULL\<close>, from no row, scans to 0.\<close>

definition sql_avg :: "float64 list \<Rightarrow> float64 option" where
  "sql_avg xs = (if xs = [] then None else Some (sum_list xs / of_nat (length xs)))"

definition sql_min :: "float64 list \<Rightarrow> float64 option" where
  "sql_min xs = (case xs of [] \<Rightarrow> None | y # ys \<Rightarrow> Some (fold min ys y))"

definition sql_max :: "float64 list \<Rightarrow> float64 option" where
  "sql_max xs = (case xs of [] \<Rightarrow> None | y # ys \<Rightarrow> Some (fold max ys y))"

definition null_float :: "float64 option \<Rightarrow> float64" where
  "null_float v = (case v of None \<Rightarrow> 0 | Some x \<Rightarrow> x)"

text \<open>Integer division of SQL truncates.\<close>

definition sql_div :: "int \<Rightarrow> int \<Rightarrow> int" where
  "sql_div a b = (if 0 \<le> a then a div b else - ((- a) div b))"

definition ok_column :: "(result \<Rightarrow> float64) \<Rightarrow> result list \<Rightarrow> float64 list" where
  "ok_column f rs = map f (filter (\<lambda>r. res_status r = ROk) rs)"

definition history_point_of :: "int \<Rightarrow> result list \<Rightarrow> history_point" where
  "history_point_of b rs =
     \<lparr>hp_bucket_start = Format_frac 3 (unix_epoch + b * ns_per_sec), hp_count = length rs,
      hp_fail_count = length (filter (\<lambda>r. res_status r \<noteq> ROk) rs),
      hp_avg_download = null_float (sql_avg (ok_column res_download_bps rs)),
      hp_min_download = null_float (sql_min (ok_column res_download_bps rs)),
      hp_max_download = null_float (sql_max (ok_column res_download_bps rs)),
      hp_avg_upload = null_float (sql_avg (ok_column res_upload_bps rs)),
      hp_min_upload = null_float (sql_min (ok_column res_upload_bps rs)),
      hp_max_upload = null_float (sql_max (ok_column res_upload_bps rs)),
      hp_avg_ping = null_float (sql_avg (ok_column res_ping_ms rs)),
      hp_min_ping = null_float (sql_min (ok_column res_ping_ms rs)),
      hp_max_ping = null_float (sql_max (ok_column res_ping_ms rs)),
      hp_avg_jitter = null_float (sql_avg (ok_column res_jitter_ms rs))\<rparr>"

definition bucket_of :: "(string \<Rightarrow> int option) \<Rightarrow> int \<Rightarrow> result \<Rightarrow> int" where
  "bucket_of ep b r = sql_div (the (ep (res_started_at r))) b * b"

definition history_rows :: "db \<Rightarrow> int \<Rightarrow> string \<Rightarrow> string \<Rightarrow> result list" where
  "history_rows d tid from1 to1 =
     filter (\<lambda>r. res_target_id r = Some tid \<and> in_window from1 to1 (res_started_at r)) (rows (results_t d))"

text \<open>A text that is no time gives the bucket \<open>NULL\<close>, which does not scan into an integer.\<close>

definition HistoryBuckets ::
  "(string \<Rightarrow> int option) \<Rightarrow> fault \<Rightarrow> db \<Rightarrow> int \<Rightarrow> string \<Rightarrow> string \<Rightarrow> int \<Rightarrow> history_point list res" where
  "HistoryBuckets ep flt d tid from1 to1 bucketSeconds =
     (let b = (if bucketSeconds \<le> 0 then hd bucketSteps else bucketSeconds); rs = history_rows d tid from1 to1 in
      case flt of
        Some e \<Rightarrow> Inl (ErrDB e)
      | None \<Rightarrow>
          if \<exists>r\<in>set rs. ep (res_started_at r) = None then Inl (ErrDB ''scan history bucket'')
          else Inr (map (\<lambda>k. history_point_of k (filter (\<lambda>r. bucket_of ep b r = k) rs)) (sorted_list_of_set (bucket_of ep b ` set rs))))"

subsection \<open>The points partition the results\<close>

text \<open>The texts the program writes to \<open>started_at\<close>, of instants since 1970, and how SQLite reads them.\<close>

definition schema_times :: "db \<Rightarrow> bool" where
  "schema_times d \<longleftrightarrow> (\<forall>r\<in>set (rows (results_t d)). \<exists>t. year4 t \<and> unix_epoch \<le> t \<and> res_started_at r = Format_frac 3 t)"

definition reads_schema_times :: "(string \<Rightarrow> int option) \<Rightarrow> bool" where
  "reads_schema_times ep \<longleftrightarrow> (\<forall>t. year4 t \<longrightarrow> ep (Format_frac 3 t) = Some ((t - unix_epoch) div ns_per_sec))"

lemma sum_list_groups:
  assumes "distinct ks" "\<forall>x\<in>set xs. f x \<in> set ks"
  shows "(\<Sum>k\<leftarrow>ks. length (filter (\<lambda>x. P x \<and> f x = k) xs)) = length (filter P xs)"
  using assms
proof (induction ks arbitrary: xs)
  case (Cons k ks)
  let ?rest = "filter (\<lambda>x. f x \<noteq> k) xs"
  have "(\<Sum>j\<leftarrow>ks. length (filter (\<lambda>x. P x \<and> f x = j) xs)) = (\<Sum>j\<leftarrow>ks. length (filter (\<lambda>x. P x \<and> f x = j) ?rest))"
  proof (rule arg_cong [where f = sum_list], rule map_cong [OF refl])
    fix j assume "j \<in> set ks"
    with Cons.prems(1) have "(\<lambda>x. P x \<and> f x = j) = (\<lambda>x. f x \<noteq> k \<and> P x \<and> f x = j)" by auto
    then show "length (filter (\<lambda>x. P x \<and> f x = j) xs) = length (filter (\<lambda>x. P x \<and> f x = j) ?rest)" by (simp add: filter_filter)
  qed
  also have "\<dots> = length (filter P ?rest)" using Cons.prems by (intro Cons.IH) auto
  finally show ?case using sum_length_filter_compl [of "\<lambda>x. f x = k" "filter P xs"] by (simp add: filter_filter conj_commute)
qed simp

lemma in_window_times:
  assumes "year4 f" "year4 t" "year4 x"
  shows "in_window (Format_frac 3 f) (Format_frac 3 t) (Format_frac 3 x) \<longleftrightarrow>
    f div 1000000 \<le> x div 1000000 \<and> x div 1000000 \<le> t div 1000000"
  using Format_frac_less_iff [of x f 3] Format_frac_less_iff [of t x 3] assms
  by (simp add: in_window_def frac_unit_def not_less [symmetric])

definition result_secs :: "(string \<Rightarrow> int option) \<Rightarrow> result \<Rightarrow> int" where
  "result_secs ep r = the (ep (res_started_at r))"

lemma schema_secs:
  assumes "reads_schema_times ep" "schema_times d" "r \<in> set (history_rows d tid from1 to1)"
  shows "ep (res_started_at r) \<noteq> None" "0 \<le> result_secs ep r"
proof -
  obtain t where t: "year4 t" "unix_epoch \<le> t" "res_started_at r = Format_frac 3 t"
    using assms(2,3) by (auto simp: schema_times_def history_rows_def)
  then have "ep (res_started_at r) = Some ((t - unix_epoch) div ns_per_sec)" using assms(1) by (simp add: reads_schema_times_def)
  then show "ep (res_started_at r) \<noteq> None" "0 \<le> result_secs ep r"
    using t(2) by (auto simp: result_secs_def pos_imp_zdiv_nonneg_iff ns_per_sec_def)
qed

lemma bucket_member:
  assumes "0 \<le> result_secs ep r" "0 < b" "b dvd k"
  shows "bucket_of ep b r = k \<longleftrightarrow> k \<le> result_secs ep r \<and> result_secs ep r < k + b"
proof -
  obtain j where k: "k = j * b" using assms(3) by (metis dvd_def mult.commute)
  have e: "bucket_of ep b r = result_secs ep r div b * b" using assms(1) by (simp add: bucket_of_def result_secs_def sql_div_def)
  have m: "result_secs ep r = result_secs ep r div b * b + result_secs ep r mod b" "0 \<le> result_secs ep r mod b" "result_secs ep r mod b < b"
    using assms(2) by simp_all
  have "result_secs ep r div b = j" if "j * b \<le> result_secs ep r" "result_secs ep r < j * b + b"
    using that by (intro int_div_pos_eq [where r = "result_secs ep r - j * b"]) (simp_all add: algebra_simps)
  then have "result_secs ep r div b = j \<longleftrightarrow> j * b \<le> result_secs ep r \<and> result_secs ep r < j * b + b" using m by (metis add_less_cancel_left le_add_same_cancel1)
  then show ?thesis using assms(2) by (simp add: e k)
qed

text \<open>The points of a chart partition the results. For a database whose timestamps are the texts the program writes, the buckets are
  distinct multiples of the width in increasing order, none is empty, each counts exactly the results that start within it, and together
  they count every result of the target in the window, and every failure, once.\<close>

theorem history_partitions_results:
  assumes "reads_schema_times ep" "schema_times d" "0 < b"
  shows "\<exists>ps ks. HistoryBuckets ep None d tid from1 to1 b = Inr ps \<and> sorted_wrt (<) ks \<and> (\<forall>k\<in>set ks. b dvd k) \<and>
    map hp_bucket_start ps = map (\<lambda>k. Format_frac 3 (unix_epoch + k * ns_per_sec)) ks \<and>
    list_all2 (\<lambda>k p. 0 < hp_count p \<and>
       hp_count p = length (filter (\<lambda>r. k \<le> result_secs ep r \<and> result_secs ep r < k + b) (history_rows d tid from1 to1))) ks ps \<and>
    sum_list (map hp_count ps) = length (history_rows d tid from1 to1) \<and>
    sum_list (map hp_fail_count ps) = length (filter (\<lambda>r. res_status r \<noteq> ROk) (history_rows d tid from1 to1))"
proof -
  let ?rs = "history_rows d tid from1 to1"
  define ks where "ks = sorted_list_of_set (bucket_of ep b ` set ?rs)"
  define ps where "ps = map (\<lambda>k. history_point_of k (filter (\<lambda>r. bucket_of ep b r = k) ?rs)) ks"
  have k: "b dvd k" if "k \<in> set ks" for k using that by (auto simp: ks_def bucket_of_def)
  have grp: "filter (\<lambda>r. bucket_of ep b r = k) ?rs = filter (\<lambda>r. k \<le> result_secs ep r \<and> result_secs ep r < k + b) ?rs" if "k \<in> set ks" for k
    using k [OF that] assms schema_secs(2) [OF assms(1,2)] by (intro filter_cong) (auto simp: bucket_member)
  have "filter (\<lambda>r. bucket_of ep b r = k) ?rs \<noteq> []" if "k \<in> set ks" for k
    using that by (auto simp: ks_def filter_empty_conv)
  then have all2: "list_all2 (\<lambda>k p. 0 < hp_count p \<and>
       hp_count p = length (filter (\<lambda>r. k \<le> result_secs ep r \<and> result_secs ep r < k + b) ?rs)) ks ps"
    by (auto simp: ps_def list_all2_conv_all_nth history_point_of_def grp)
  have d: "distinct ks" "\<forall>r\<in>set ?rs. bucket_of ep b r \<in> set ks" by (simp_all add: ks_def)
  have "sum_list (map hp_count ps) = length ?rs"
    using sum_list_groups [OF d, of "\<lambda>_. True"] by (simp add: ps_def history_point_of_def o_def)
  moreover have "sum_list (map hp_fail_count ps) = length (filter (\<lambda>r. res_status r \<noteq> ROk) ?rs)"
    using sum_list_groups [OF d, of "\<lambda>r. res_status r \<noteq> ROk"] by (simp add: ps_def history_point_of_def o_def filter_filter conj_commute)
  moreover have "HistoryBuckets ep None d tid from1 to1 b = Inr ps"
    using assms(3) schema_secs(1) [OF assms(1,2)] by (auto simp: HistoryBuckets_def ps_def ks_def Let_def)
  moreover have "map hp_bucket_start ps = map (\<lambda>k. Format_frac 3 (unix_epoch + k * ns_per_sec)) ks"
    by (simp add: ps_def history_point_of_def)
  ultimately show ?thesis using k all2 by (intro exI [of _ ps] exI [of _ ks]) (simp add: ks_def)
qed

text \<open>A reading of the schema's texts, and three results of a target, two of them in the same five minutes.\<close>

definition sqlite_secs :: "string \<Rightarrow> int option" where
  "sqlite_secs s = map_option (\<lambda>t. (t - unix_epoch) div ns_per_sec) (Parse_frac 3 s)"

text \<open>Seconds of an instant, from its milliseconds.\<close>

lemma second_of_milli: "(t - unix_epoch) div ns_per_sec = (t div 1000000 - 62135596800000) div 1000"
proof -
  have e: "ns_per_sec = 1000000 * 1000" by (simp add: ns_per_sec_def)
  have "unix_epoch = 1000000 * 62135596800000" by (simp add: unix_epoch_def ns_per_day_def)
  then have "(t - unix_epoch) div 1000000 = t div 1000000 - 62135596800000"
    using div_mult_self2 [of 1000000 t "- 62135596800000"] by (simp add: algebra_simps)
  then show ?thesis unfolding e by (subst zdiv_zmult2_eq) simp_all
qed

lemma sqlite_secs_reads: "reads_schema_times sqlite_secs"
proof -
  have "(t - t mod 1000000) div 1000000 = t div 1000000" for t :: int by (simp add: minus_mod_eq_mult_div)
  then show ?thesis by (simp add: reads_schema_times_def sqlite_secs_def Parse_Format frac_unit_def second_of_milli)
qed

definition history_db :: db where
  "history_db = empty_db\<lparr>results_t := \<lparr>rows =
     map (\<lambda>(i, st, s). outage_result i (Some 7) ''home'' st (Format_frac 3 (unix_epoch + s * Second)))
       [(1, ROk, 1700000010), (2, RFailed, 1700000100), (3, ROk, 1700000900)], seq = 3\<rparr>\<rparr>"

lemma history_db_times:
  assumes "0 \<le> s" "s < 2000000000"
  shows "year4 (unix_epoch + s * Second)" "unix_epoch \<le> unix_epoch + s * Second"
    "(unix_epoch + s * Second) div 1000000 = 62135596800000 + s * 1000"
proof -
  show "year4 (unix_epoch + s * Second)" "unix_epoch \<le> unix_epoch + s * Second"
    using assms by (auto simp: year4_def unix_epoch_def days_before_year_def duration_defs)
  have "unix_epoch + s * Second = (62135596800000 + s * 1000) * 1000000" by (simp add: unix_epoch_def duration_defs)
  then show "(unix_epoch + s * Second) div 1000000 = 62135596800000 + s * 1000" by simp
qed

lemma history_db_schema: "schema_times history_db"
proof -
  have "\<exists>t. year4 t \<and> unix_epoch \<le> t \<and> Format_frac 3 (unix_epoch + s * Second) = Format_frac 3 t" if "0 \<le> s" "s < 2000000000" for s
    using history_db_times(1,2) [OF that] by blast
  then show ?thesis by (simp add: schema_times_def history_db_def outage_result_def)
qed

theorem history_partitions_results_witness:
  "\<exists>ps ks. HistoryBuckets sqlite_secs None history_db 7 (Format_frac 3 (unix_epoch + 1700000000 * Second))
       (Format_frac 3 (unix_epoch + 1700001000 * Second)) 300 = Inr ps \<and> sorted_wrt (<) ks \<and>
     map hp_bucket_start ps = map (\<lambda>k. Format_frac 3 (unix_epoch + k * ns_per_sec)) ks \<and>
     sum_list (map hp_count ps) = 3 \<and> sum_list (map hp_fail_count ps) = 1"
proof -
  let ?f = "Format_frac 3 (unix_epoch + 1700000000 * Second)" and ?t = "Format_frac 3 (unix_epoch + 1700001000 * Second)"
  have "history_rows history_db 7 ?f ?t = rows (results_t history_db)"
    by (simp add: history_rows_def history_db_def outage_result_def in_window_times history_db_times)
  then have n: "length (history_rows history_db 7 ?f ?t) = 3"
    "length (filter (\<lambda>r. res_status r \<noteq> ROk) (history_rows history_db 7 ?f ?t)) = 1"
    by (simp_all add: history_db_def outage_result_def)
  have "0 < (300 :: int)" by simp
  from history_partitions_results [OF sqlite_secs_reads history_db_schema this, of 7 ?f ?t] obtain ps ks where
    "HistoryBuckets sqlite_secs None history_db 7 ?f ?t 300 = Inr ps" "sorted_wrt (<) ks"
    "map hp_bucket_start ps = map (\<lambda>k. Format_frac 3 (unix_epoch + k * ns_per_sec)) ks"
    "sum_list (map hp_count ps) = 3" "sum_list (map hp_fail_count ps) = 1" unfolding n by blast
  then show ?thesis by blast
qed

end
