(* ===== verification/Summary.thy ===== *)
theory Summary
  imports History
begin

text \<open>
  The dashboard summary: \<open>internal/store/summary.go\<close>. Aggregates per target, its service-level plan and the share of results that met
  it. Rates are exact quotients.
\<close>

record sla_plan =
  sp_download :: "float64 option"
  sp_upload :: "float64 option"
  sp_tolerance :: "float64 option"

record target_summary =
  ts_target_id :: int
  ts_target_name :: string
  ts_engine :: string
  ts_latest :: "tagged_result option"
  ts_count :: nat
  ts_fail_count :: nat
  ts_success_rate :: float64
  ts_avg_download :: float64
  ts_min_download :: float64
  ts_max_download :: float64
  ts_avg_upload :: float64
  ts_avg_ping :: float64
  ts_max_ping :: float64
  ts_sla :: "float64 option"

record summary_stats =
  ss_from :: string
  ss_to :: string
  ss_targets :: "target_summary list"
  ss_total_results :: nat
  ss_total_failures :: nat
  ss_success_rate :: float64
  ss_sla :: "float64 option"

subsection \<open>Plans\<close>

definition clampTolerancePct :: "float64 \<Rightarrow> float64" where
  "clampTolerancePct v = (if v < 0 then 0 else if 99 < v then 99 else v)"

definition normalizeMbps :: "float64 option \<Rightarrow> float64 option" where
  "normalizeMbps v = (case v of None \<Rightarrow> None | Some x \<Rightarrow> if x \<le> 0 then None else Some x)"

text \<open>The error of \<open>json.Unmarshal\<close> is ignored: a document that is no object sets no field, and a member of the wrong type leaves behind
  the pointer the decoder had already allocated.\<close>

definition loose_ptr :: "string \<Rightarrow> raw \<Rightarrow> float64 option" where
  "loose_ptr name doc =
     (case members doc of
        None \<Rightarrow> None
      | Some kvs \<Rightarrow>
          foldl (\<lambda>cur v. if v = JNull then None
                         else case as_num v of Some x \<Rightarrow> Some x | None \<Rightarrow> Some (case cur of None \<Rightarrow> 0 | Some x \<Rightarrow> x))
            None (field_vals name kvs))"

definition first_set :: "'a option \<Rightarrow> 'a option \<Rightarrow> 'a option" where
  "first_set a b = (case a of None \<Rightarrow> b | Some _ \<Rightarrow> a)"

definition resolvePlan :: "raw \<Rightarrow> sla_plan \<Rightarrow> float64 option \<times> float64 option \<times> float64" where
  "resolvePlan thresholdsJSON general =
     (first_set (normalizeMbps (loose_ptr ''sla_download_mbps'' thresholdsJSON)) (normalizeMbps (sp_download general)),
      first_set (normalizeMbps (loose_ptr ''sla_upload_mbps'' thresholdsJSON)) (normalizeMbps (sp_upload general)),
      clampTolerancePct (case first_set (loose_ptr ''sla_tolerance_pct'' thresholdsJSON) (sp_tolerance general) of None \<Rightarrow> 0 | Some x \<Rightarrow> x))"

subsection \<open>Judging a result\<close>

datatype sla_verdict = NotCounted | Missed | Met

definition sla_threshold :: "float64 option \<Rightarrow> float64 \<Rightarrow> float64" where
  "sla_threshold plan tol = (case plan of None \<Rightarrow> 0 | Some x \<Rightarrow> x * 1000000 * (1 - tol / 100))"

definition sla_judge :: "float64 option \<times> float64 option \<times> float64 \<Rightarrow> result \<Rightarrow> sla_verdict" where
  "sla_judge plan r =
     (case plan of (dl, ul, tol) \<Rightarrow>
        if dl = None \<and> ul = None then NotCounted
        else if res_status r = RFailed then Missed
        else let checkDL = (dl \<noteq> None \<and> res_download_bps r \<noteq> 0); checkUL = (ul \<noteq> None \<and> res_upload_bps r \<noteq> 0)
             in if \<not> checkDL \<and> \<not> checkUL then NotCounted
                else if (\<not> checkDL \<or> sla_threshold dl tol \<le> res_download_bps r) \<and> (\<not> checkUL \<or> sla_threshold ul tol \<le> res_upload_bps r)
                then Met else Missed)"

text \<open>The two tallies of the pass over the results, \<open>slaDenom\<close> and \<open>slaCompliant\<close>, by target.\<close>

type_synonym tallies = "(int \<Rightarrow> nat) \<times> (int \<Rightarrow> nat)"

definition count_up :: "int \<Rightarrow> (int \<Rightarrow> nat) \<Rightarrow> (int \<Rightarrow> nat)" where
  "count_up i m = m(i := Suc (m i))"

definition sla_step :: "(int \<Rightarrow> float64 option \<times> float64 option \<times> float64) \<Rightarrow> result \<Rightarrow> tallies \<Rightarrow> tallies" where
  "sla_step plans r t =
     (case res_target_id r of
        None \<Rightarrow> t
      | Some i \<Rightarrow>
          (case sla_judge (plans i) r of
             NotCounted \<Rightarrow> t
           | Missed \<Rightarrow> (count_up i (fst t), snd t)
           | Met \<Rightarrow> (count_up i (fst t), count_up i (snd t))))"

subsection \<open>The summary\<close>

definition window_of_target :: "db \<Rightarrow> string \<Rightarrow> string \<Rightarrow> int \<Rightarrow> result list" where
  "window_of_target d from1 to1 i =
     filter (\<lambda>r. res_target_id r = Some i \<and> in_window from1 to1 (res_started_at r)) (rows (results_t d))"

definition rate :: "nat \<Rightarrow> nat \<Rightarrow> float64" where
  "rate good n = (if n = 0 then 0 else of_nat good / of_nat n)"

text \<open>A row of the aggregate query: the target, and the results of the window joined to it.\<close>

definition target_summary_of :: "db \<Rightarrow> string \<Rightarrow> string \<Rightarrow> target_row \<Rightarrow> target_summary" where
  "target_summary_of d from1 to1 t =
     (let rs = window_of_target d from1 to1 (t_id t); fails = length (filter (\<lambda>r. res_status r \<noteq> ROk) rs) in
      \<lparr>ts_target_id = t_id t, ts_target_name = t_name t, ts_engine = t_engine t, ts_latest = None, ts_count = length rs, ts_fail_count = fails,
       ts_success_rate = rate (length rs - fails) (length rs),
       ts_avg_download = null_float (sql_avg (ok_column res_download_bps rs)),
       ts_min_download = null_float (sql_min (ok_column res_download_bps rs)),
       ts_max_download = null_float (sql_max (ok_column res_download_bps rs)),
       ts_avg_upload = null_float (sql_avg (ok_column res_upload_bps rs)),
       ts_avg_ping = null_float (sql_avg (ok_column res_ping_ms rs)),
       ts_max_ping = null_float (sql_max (ok_column res_ping_ms rs)), ts_sla = None\<rparr>)"

definition plan_of :: "db \<Rightarrow> sla_plan \<Rightarrow> int \<Rightarrow> float64 option \<times> float64 option \<times> float64" where
  "plan_of d sla i =
     (case find (\<lambda>t. t_id t = i) (rows (targets_t d)) of None \<Rightarrow> (None, None, 0) | Some t \<Rightarrow> resolvePlan (t_thresholds t) sla)"

definition sla_share :: "tallies \<Rightarrow> int \<Rightarrow> float64 option" where
  "sla_share t i = (if 0 < fst t i then Some (of_nat (snd t i) / of_nat (fst t i)) else None)"

definition by_target :: "tagged_result list \<Rightarrow> int \<Rightarrow> tagged_result option" where
  "by_target rs i = find (\<lambda>r. res_target_id r = Some i) (rev rs)"

definition summary_stats_of :: "db \<Rightarrow> string \<Rightarrow> string \<Rightarrow> sla_plan \<Rightarrow> tagged_result list \<Rightarrow> summary_stats" where
  "summary_stats_of d from1 to1 sla latest =
     (let ts = map (target_summary_of d from1 to1) (sort_key t_name (sort_key t_id (rows (targets_t d))));
          n = sum_list (map ts_count ts); fails = sum_list (map ts_fail_count ts);
          tal = fold (sla_step (plan_of d sla)) (filter (\<lambda>r. in_window from1 to1 (res_started_at r)) (rows (results_t d))) (\<lambda>_. 0, \<lambda>_. 0);
          counted = filter (\<lambda>s. 0 < fst tal (ts_target_id s)) ts;
          denom = sum_list (map (\<lambda>s. fst tal (ts_target_id s)) counted);
          met = sum_list (map (\<lambda>s. snd tal (ts_target_id s)) counted)
      in \<lparr>ss_from = from1, ss_to = to1,
          ss_targets = map (\<lambda>s. s\<lparr>ts_sla := sla_share tal (ts_target_id s), ts_latest := by_target latest (ts_target_id s)\<rparr>) ts,
          ss_total_results = n, ss_total_failures = fails, ss_success_rate = rate (n - fails) n,
          ss_sla = (if 0 < denom then Some (of_nat met / of_nat denom) else None)\<rparr>)"

definition Summary :: "fault \<Rightarrow> fault \<Rightarrow> fault \<Rightarrow> fault \<Rightarrow> db \<Rightarrow> string \<Rightarrow> string \<Rightarrow> sla_plan \<Rightarrow> summary_stats res" where
  "Summary flt flt2 lflt lflt2 d from1 to1 sla =
     (case flt of
        Some e \<Rightarrow> Inl (ErrDB e)
      | None \<Rightarrow>
          (case flt2 of
             Some e \<Rightarrow> Inl (ErrDB e)
           | None \<Rightarrow>
               (case LatestResults lflt lflt2 d of
                  Inl e \<Rightarrow> Inl e
                | Inr latest \<Rightarrow> Inr (summary_stats_of d from1 to1 sla latest))))"

subsection \<open>The tallies count verdicts\<close>

definition judged :: "float64 option \<times> float64 option \<times> float64 \<Rightarrow> result list \<Rightarrow> result list" where
  "judged plan rs = filter (\<lambda>r. sla_judge plan r \<noteq> NotCounted) rs"

definition met :: "float64 option \<times> float64 option \<times> float64 \<Rightarrow> result list \<Rightarrow> result list" where
  "met plan rs = filter (\<lambda>r. sla_judge plan r = Met) rs"

lemma tallies_count:
  "fst (fold (sla_step plans) rs t) i = fst t i + length (judged (plans i) (filter (\<lambda>r. res_target_id r = Some i) rs)) \<and>
   snd (fold (sla_step plans) rs t) i = snd t i + length (met (plans i) (filter (\<lambda>r. res_target_id r = Some i) rs))"
proof (induction rs arbitrary: t)
  case (Cons r rs)
  have "fst (sla_step plans r t) i = fst t i + length (judged (plans i) (filter (\<lambda>r. res_target_id r = Some i) [r])) \<and>
      snd (sla_step plans r t) i = snd t i + length (met (plans i) (filter (\<lambda>r. res_target_id r = Some i) [r]))"
    by (auto simp: sla_step_def judged_def met_def count_up_def split: option.splits sla_verdict.splits)
  with Cons show ?case by (auto simp: judged_def met_def)
qed (simp add: judged_def met_def)

lemma met_le_judged: "length (met plan rs) \<le> length (judged plan rs)"
  by (induction rs) (auto simp: met_def judged_def)

text \<open>A wider tolerance never turns a met result into a missed one.\<close>

lemma tolerance_is_lenient:
  assumes "sla_judge (dl, ul, tol) r = Met" "tol \<le> tol'" "\<forall>x. dl = Some x \<longrightarrow> 0 \<le> x" "\<forall>x. ul = Some x \<longrightarrow> 0 \<le> x"
  shows "sla_judge (dl, ul, tol') r = Met"
proof -
  have "sla_threshold p tol' \<le> sla_threshold p tol" if "\<forall>x. p = Some x \<longrightarrow> 0 \<le> x" for p
    using that assms(2) by (cases p) (auto simp: sla_threshold_def intro!: mult_left_mono)
  from this [of dl] this [of ul] show ?thesis
    using assms by (auto simp: sla_judge_def Let_def split: if_splits)
qed

text \<open>The share of a target, and the shares weighted by the number of judged results.\<close>

definition share_of :: "db \<Rightarrow> string \<Rightarrow> string \<Rightarrow> sla_plan \<Rightarrow> int \<Rightarrow> float64 option" where
  "share_of d from1 to1 sla i =
     (let rs = window_of_target d from1 to1 i; j = judged (plan_of d sla i) rs
      in if j = [] then None else Some (of_nat (length (met (plan_of d sla i) rs)) / of_nat (length j)))"

definition weight_of :: "db \<Rightarrow> string \<Rightarrow> string \<Rightarrow> sla_plan \<Rightarrow> int \<Rightarrow> nat" where
  "weight_of d from1 to1 sla i = length (judged (plan_of d sla i) (window_of_target d from1 to1 i))"

lemma summary_tallies:
  fixes d from1 to1 sla
  defines "tal \<equiv> fold (sla_step (plan_of d sla)) (filter (\<lambda>r. in_window from1 to1 (res_started_at r)) (rows (results_t d))) (\<lambda>_. 0, \<lambda>_. 0)"
  shows "fst tal i = weight_of d from1 to1 sla i"
    "snd tal i = length (met (plan_of d sla i) (window_of_target d from1 to1 i))"
    "sla_share tal i = share_of d from1 to1 sla i"
proof -
  have w: "filter (\<lambda>r. res_target_id r = Some i) (filter (\<lambda>r. in_window from1 to1 (res_started_at r)) (rows (results_t d))) =
      window_of_target d from1 to1 i" by (simp add: window_of_target_def conj_commute)
  show a: "fst tal i = weight_of d from1 to1 sla i"
    and b: "snd tal i = length (met (plan_of d sla i) (window_of_target d from1 to1 i))"
    using tallies_count [of "plan_of d sla" "filter (\<lambda>r. in_window from1 to1 (res_started_at r)) (rows (results_t d))" "(\<lambda>_. 0, \<lambda>_. 0)" i]
    unfolding w tal_def weight_of_def by simp_all
  show "sla_share tal i = share_of d from1 to1 sla i" by (simp add: sla_share_def share_of_def a b weight_of_def Let_def)
qed

lemma share_weight:
  "case share_of d from1 to1 sla i of
     None \<Rightarrow> weight_of d from1 to1 sla i = 0
   | Some v \<Rightarrow> 0 < weight_of d from1 to1 sla i \<and> 0 \<le> v \<and> v \<le> 1 \<and>
       v * of_nat (weight_of d from1 to1 sla i) = of_nat (length (met (plan_of d sla i) (window_of_target d from1 to1 i)))"
  using met_le_judged [of "plan_of d sla i" "window_of_target d from1 to1 i"]
  by (auto simp: share_of_def weight_of_def Let_def divide_le_eq)

lemma sum_weighted:
  "(\<Sum>x\<leftarrow>xs. (case f x of None \<Rightarrow> 0 | Some v \<Rightarrow> v * of_nat (w x))) = (of_nat (\<Sum>x\<leftarrow>filter (\<lambda>x. 0 < w x) xs. m x) :: rat)"
  if "\<forall>x\<in>set xs. case f x of None \<Rightarrow> w x = 0 | Some v \<Rightarrow> 0 < w x \<and> v * of_nat (w x) = of_nat (m x)"
  using that
proof (induction xs)
  case (Cons x xs)
  then show ?case by (cases "f x") simp_all
qed simp

lemma sum_pos_iff: "0 < (\<Sum>x\<leftarrow>xs. w x :: nat) \<longleftrightarrow> (\<exists>x\<in>set xs. 0 < w x)"
  by (induction xs) auto

lemma sum_positive: "(\<Sum>x\<leftarrow>filter (\<lambda>x. 0 < w x) xs. w x) = (\<Sum>x\<leftarrow>xs. w x :: nat)"
  by (induction xs) auto

lemma fraction_cases:
  assumes "m \<le> (w :: nat)"
  shows "case (if 0 < w then Some (of_nat m / of_nat w) else None) of
      None \<Rightarrow> w = 0 | Some v \<Rightarrow> 0 < w \<and> 0 \<le> v \<and> v \<le> 1 \<and> v * of_nat w = (of_nat m :: rat)"
  using assms by (simp add: divide_le_eq)

text \<open>The results of the window, target by target.\<close>

lemma window_groups:
  fixes d P
  assumes "distinct (map t_id (rows (targets_t d)))"
  defines "ts \<equiv> sort_key t_name (sort_key t_id (rows (targets_t d)))"
  shows "(\<Sum>t\<leftarrow>ts. length (filter P (window_of_target d from1 to1 (t_id t)))) =
    length (filter P (filter (\<lambda>r. in_window from1 to1 (res_started_at r) \<and> res_target_id r \<in> Some ` t_id ` set (rows (targets_t d))) (rows (results_t d))))"
proof -
  define owned where "owned = filter (\<lambda>r. in_window from1 to1 (res_started_at r) \<and> res_target_id r \<in> Some ` t_id ` set (rows (targets_t d))) (rows (results_t d))"
  have ids: "distinct (map (Some \<circ> t_id) ts)"
  proof -
    have "mset (map (Some \<circ> t_id) ts) = mset (map Some (map t_id (rows (targets_t d))))" by (simp add: ts_def multiset.map_comp)
    moreover have "distinct (map Some (map t_id (rows (targets_t d))))" using assms(1) by (simp add: distinct_map inj_on_def)
    ultimately show ?thesis by (metis mset_eq_imp_distinct_iff)
  qed
  have "filter P (window_of_target d from1 to1 (t_id t)) = filter (\<lambda>r. P r \<and> res_target_id r = Some (t_id t)) owned" if "t \<in> set ts" for t
    using that by (auto simp: ts_def window_of_target_def owned_def intro!: filter_cong)
  then have "(\<Sum>t\<leftarrow>ts. length (filter P (window_of_target d from1 to1 (t_id t)))) =
      (\<Sum>k\<leftarrow>map (Some \<circ> t_id) ts. length (filter (\<lambda>r. P r \<and> res_target_id r = k) owned))"
    by (auto simp: o_def intro!: arg_cong [where f = sum_list] map_cong)
  also have "\<dots> = length (filter P owned)" by (rule sum_list_groups [OF ids]) (auto simp: owned_def ts_def)
  finally show ?thesis by (simp only: owned_def)
qed

text \<open>C30: The summary adds up. The totals are the results, and the failures, of the window that belong to a target; every target's service
  level is the fraction of its judged results that met its plan, absent exactly when none was judged; and the overall level is the average of
  the targets' levels weighted by their judged results, a number between 0 and 1.\<close>

theorem summary_adds_up:
  assumes "Summary flt flt2 lflt lflt2 d from1 to1 sla = Inr s" "distinct (map t_id (rows (targets_t d)))"
  defines "owned \<equiv> filter (\<lambda>r. in_window from1 to1 (res_started_at r) \<and> res_target_id r \<in> Some ` t_id ` set (rows (targets_t d))) (rows (results_t d))"
  shows "ss_total_results s = length owned \<and> ss_total_failures s = length (filter (\<lambda>r. res_status r \<noteq> ROk) owned) \<and>
    set (map ts_target_id (ss_targets s)) = t_id ` set (rows (targets_t d)) \<and>
    (\<forall>x\<in>set (ss_targets s). ts_sla x = share_of d from1 to1 sla (ts_target_id x)) \<and>
    (let total_weight = (\<Sum>x\<leftarrow>ss_targets s. weight_of d from1 to1 sla (ts_target_id x)) in
     case ss_sla s of
       None \<Rightarrow> total_weight = 0
     | Some v \<Rightarrow> 0 < total_weight \<and> 0 \<le> v \<and> v \<le> 1 \<and>
         v * of_nat total_weight = (\<Sum>x\<leftarrow>ss_targets s. case ts_sla x of None \<Rightarrow> 0 | Some u \<Rightarrow> u * of_nat (weight_of d from1 to1 sla (ts_target_id x))))"
proof -
  obtain latest where s: "s = summary_stats_of d from1 to1 sla latest" using assms(1) by (auto simp: Summary_def split: option.splits sum.splits)
  let ?ts = "sort_key t_name (sort_key t_id (rows (targets_t d)))"
  let ?w = "\<lambda>t. weight_of d from1 to1 sla (t_id t)" and ?m = "\<lambda>t. length (met (plan_of d sla (t_id t)) (window_of_target d from1 to1 (t_id t)))"
  note grp = window_groups [OF assms(2), of _ from1 to1, folded owned_def]
  have tot: "ss_total_results s = length owned" "ss_total_failures s = length (filter (\<lambda>r. res_status r \<noteq> ROk) owned)"
    using grp [of "\<lambda>_. True"] grp [of "\<lambda>r. res_status r \<noteq> ROk"] by (simp_all add: s summary_stats_of_def target_summary_of_def Let_def o_def)
  have ts: "map (\<lambda>x. (ts_target_id x, ts_sla x)) (ss_targets s) = map (\<lambda>t. (t_id t, share_of d from1 to1 sla (t_id t))) ?ts"
    by (simp add: s summary_stats_of_def target_summary_of_def Let_def summary_tallies o_def)
  have sl: "ss_sla s = (if 0 < (\<Sum>t\<leftarrow>?ts. ?w t) then Some (of_nat (\<Sum>t\<leftarrow>filter (\<lambda>t. 0 < ?w t) ?ts. ?m t) / of_nat (\<Sum>t\<leftarrow>?ts. ?w t)) else None)"
    by (simp add: s summary_stats_of_def target_summary_of_def Let_def summary_tallies o_def filter_map sum_positive sum_pos_iff)
  have tid: "set (map ts_target_id (ss_targets s)) = t_id ` set (rows (targets_t d))"
    using arg_cong [OF ts, of "\<lambda>l. fst ` set l"] by (simp add: image_image)
  have each: "ts_sla x = share_of d from1 to1 sla (ts_target_id x)" if "x \<in> set (ss_targets s)" for x
  proof -
    have "(ts_target_id x, ts_sla x) \<in> set (map (\<lambda>t. (t_id t, share_of d from1 to1 sla (t_id t))) ?ts)" using that unfolding ts [symmetric] by auto
    then show ?thesis by auto
  qed
  have W: "(\<Sum>x\<leftarrow>ss_targets s. weight_of d from1 to1 sla (ts_target_id x)) = (\<Sum>t\<leftarrow>?ts. ?w t)"
    using arg_cong [OF ts, of "\<lambda>l. sum_list (map (\<lambda>p. weight_of d from1 to1 sla (fst p)) l)"] by (simp add: o_def)
  have "(\<Sum>x\<leftarrow>ss_targets s. case ts_sla x of None \<Rightarrow> 0 | Some u \<Rightarrow> u * of_nat (weight_of d from1 to1 sla (ts_target_id x))) =
      (\<Sum>t\<leftarrow>?ts. case share_of d from1 to1 sla (t_id t) of None \<Rightarrow> 0 | Some u \<Rightarrow> u * of_nat (?w t))"
    using arg_cong [OF ts, of "\<lambda>l. sum_list (map (\<lambda>p. case snd p of None \<Rightarrow> 0 | Some u \<Rightarrow> u * of_nat (weight_of d from1 to1 sla (fst p))) l)"]
    unfolding map_map o_def fst_conv snd_conv .
  also have "\<dots> = of_nat (\<Sum>t\<leftarrow>filter (\<lambda>t. 0 < ?w t) ?ts. ?m t)"
    by (rule sum_weighted) (use share_weight [of d from1 to1 sla] in \<open>fastforce split: option.splits\<close>)
  finally have U: "(\<Sum>x\<leftarrow>ss_targets s. case ts_sla x of None \<Rightarrow> 0 | Some u \<Rightarrow> u * of_nat (weight_of d from1 to1 sla (ts_target_id x))) =
      of_nat (\<Sum>t\<leftarrow>filter (\<lambda>t. 0 < ?w t) ?ts. ?m t)" .
  have "(\<Sum>t\<leftarrow>filter (\<lambda>t. 0 < ?w t) ?ts. ?m t) \<le> (\<Sum>t\<leftarrow>filter (\<lambda>t. 0 < ?w t) ?ts. ?w t)"
    by (intro sum_list_mono) (simp add: weight_of_def met_le_judged)
  then have "of_nat (\<Sum>t\<leftarrow>filter (\<lambda>t. 0 < ?w t) ?ts. ?m t) \<le> (of_nat (\<Sum>t\<leftarrow>?ts. ?w t) :: rat)" unfolding sum_positive by (simp only: of_nat_le_iff)
  then have "case ss_sla s of
       None \<Rightarrow> (\<Sum>t\<leftarrow>?ts. ?w t) = 0
     | Some v \<Rightarrow> 0 < (\<Sum>t\<leftarrow>?ts. ?w t) \<and> 0 \<le> v \<and> v \<le> 1 \<and> v * of_nat (\<Sum>t\<leftarrow>?ts. ?w t) = of_nat (\<Sum>t\<leftarrow>filter (\<lambda>t. 0 < ?w t) ?ts. ?m t)"
    unfolding sl of_nat_le_iff by (rule fraction_cases)
  then show ?thesis unfolding W U Let_def using tot tid each by blast
qed

text \<open>Two measured results and a failed one against a plan of 1 Mbps with ten percent tolerance.\<close>

definition sla_db :: db where
  "sla_db = empty_db\<lparr>
     targets_t := \<lparr>rows = [\<lparr>t_id = 7, t_name = ''home'', t_engine = ''ookla'', t_enabled = True, t_queue_id = 1, t_options = RawEmpty,
       t_thresholds = RawDoc (JObj [(''sla_tolerance_pct'', JNum 10)]), t_rotation_index = 0, t_created_at = [], t_updated_at = []\<rparr>], seq = 7\<rparr>,
     results_t := \<lparr>rows =
       [(outage_result 1 (Some 7) ''home'' ROk ''a'')\<lparr>res_download_bps := 950000\<rparr>,
        (outage_result 2 (Some 7) ''home'' RDegraded ''b'')\<lparr>res_download_bps := 800000\<rparr>,
        outage_result 3 (Some 7) ''home'' RFailed ''c''], seq = 3\<rparr>\<rparr>"

theorem summary_adds_up_witness:
  "\<exists>s. Summary None None None None sla_db [] ''z'' \<lparr>sp_download = Some 1, sp_upload = None, sp_tolerance = None\<rparr> = Inr s \<and>
     ss_total_results s = 3 \<and> ss_total_failures s = 2 \<and> (7, Some (1 / 3)) \<in> (\<lambda>x. (ts_target_id x, ts_sla x)) ` set (ss_targets s)"
proof -
  let ?sla = "\<lparr>sp_download = Some 1, sp_upload = None, sp_tolerance = None\<rparr> :: sla_plan"
  obtain s where s: "Summary None None None None sla_db [] ''z'' ?sla = Inr s"
  proof -
    have "\<exists>rs. attachTags None sla_db xs = Inr rs" for xs by (auto simp: attachTags_def TagsForResults_def)
    then obtain rs where "LatestResults None None sla_db = Inr rs" unfolding LatestResults_def by auto
    then show thesis using that by (simp add: Summary_def)
  qed
  have d: "distinct (map t_id (rows (targets_t sla_db)))" by (simp add: sla_db_def)
  have n: "length (filter (\<lambda>r. in_window [] ''z'' (res_started_at r) \<and> res_target_id r \<in> Some ` t_id ` set (rows (targets_t sla_db))) (rows (results_t sla_db))) = 3"
    "length (filter (\<lambda>r. res_status r \<noteq> ROk) (filter (\<lambda>r. in_window [] ''z'' (res_started_at r) \<and> res_target_id r \<in> Some ` t_id ` set (rows (targets_t sla_db))) (rows (results_t sla_db)))) = 2"
    by code_simp+
  have share: "share_of sla_db [] ''z'' ?sla 7 = Some (1 / 3)" by code_simp
  note a = summary_adds_up [OF s d, unfolded n]
  have "7 \<in> ts_target_id ` set (ss_targets s)" using a by (auto simp: sla_db_def)
  then have "(7, Some (1 / 3)) \<in> (\<lambda>x. (ts_target_id x, ts_sla x)) ` set (ss_targets s)" using a share by force
  with a s show ?thesis by blast
qed

end
