(* ===== verification/Report_Api.thy ===== *)
theory Report_Api
  imports Summary Vm_Format Settings_Api
begin

text \<open>
  The reporting handlers: query parameters (\<open>internal/api/results.go\<close>, \<open>runs.go\<close>), the windows of \<open>internal/api/history.go\<close> with
  \<open>targetHistory\<close> and \<open>outages\<close>, and the cached summary of \<open>internal/api/stats.go\<close>. An absent parameter is the empty text. Instants are
  those of year 1 and later.
\<close>

subsection \<open>Query parameters\<close>

definition int64Query :: "string \<Rightarrow> string \<Rightarrow> int \<Rightarrow> api_error + int" where
  "int64Query name raw_text dflt =
     (if raw_text = [] then Inr dflt
      else case ParseInt64 raw_text of
             Some v \<Rightarrow> if v < 0 then Inl (BadRequest (name @ '' must be a non-negative integer'')) else Inr v
           | None \<Rightarrow> Inl (BadRequest (name @ '' must be a non-negative integer'')))"

text \<open>\<open>Atoi\<close> reads the same numbers: \<open>int\<close> has 64 bits.\<close>

definition intQuery :: "string \<Rightarrow> string \<Rightarrow> int \<Rightarrow> api_error + int" where
  "intQuery name raw_text dflt =
     (if raw_text = [] then Inr dflt
      else case ParseInt64 raw_text of
             Some v \<Rightarrow> if v < 0 then Inl (BadRequest (name @ '' must be a non-negative integer'')) else Inr v
           | None \<Rightarrow> Inl (BadRequest (name @ '' must be a non-negative integer'')))"

definition cursorString :: "int \<Rightarrow> string" where
  "cursorString n = (if n = 0 then [] else Itoa n)"

text \<open>\<open>time.Unix\<close> counts seconds from year 1 in 64 bits.\<close>

definition unix_instant :: "int \<Rightarrow> time" where
  "unix_instant sec = wrap64 (sec + 62135596800) * ns_per_sec"

definition timeQuery :: "string \<Rightarrow> string \<Rightarrow> api_error + string" where
  "timeQuery name raw_text =
     (if raw_text = [] then Inr []
      else case ParseInt64 raw_text of
             Some sec \<Rightarrow> Inr (Format_frac 3 (unix_instant sec))
           | None \<Rightarrow>
               (case Parse_RFC3339Nano raw_text of
                  None \<Rightarrow> Inl (BadRequest (name @ '' must be RFC3339 or unix seconds''))
                | Some t \<Rightarrow> Inr (Format_frac 3 t)))"

subsection \<open>Windows\<close>

definition Millisecond :: duration where
  "Millisecond = 1000000"

definition summaryTTL :: duration where
  "summaryTTL = 30 * Second"

definition windowGranularity :: duration where
  "windowGranularity = summaryTTL"

definition defaultHistorySpan :: duration where
  "defaultHistorySpan = 24 * Hour"

definition defaultOutagesSpan :: duration where
  "defaultOutagesSpan = 7 * 24 * Hour"

definition defaultOutageGapSeconds :: int where
  "defaultOutageGapSeconds = 1800"

definition maxExplicitSpan :: duration where
  "maxExplicitSpan = 90 * 24 * Hour"

definition namedRanges :: "string \<rightharpoonup> duration" where
  "namedRanges = map_of [(''24h'', 24 * Hour), (''7d'', 7 * 24 * Hour), (''30d'', 30 * 24 * Hour)]"

definition windowSpan :: "string \<Rightarrow> string \<Rightarrow> duration" where
  "windowSpan from1 to1 =
     (case (Parse_frac 3 from1, Parse_frac 3 to1) of
        (Some f, Some t) \<Rightarrow> if f < t then time_Sub t f else Hour
      | _ \<Rightarrow> Hour)"

definition shiftWindow :: "string \<Rightarrow> string \<Rightarrow> int \<Rightarrow> (string \<times> string) option" where
  "shiftWindow from1 to1 offset =
     (if offset = 0 then Some (from1, to1)
      else case Parse_frac 3 from1 of
             None \<Rightarrow> None
           | Some f \<Rightarrow> Some (Format_frac 3 (f - windowSpan from1 to1), Format_frac 3 (f - Millisecond)))"

definition span_too_large :: "string \<Rightarrow> string \<Rightarrow> bool" where
  "span_too_large from1 to1 =
     (case Parse_frac 3 from1 of
        None \<Rightarrow> False
      | Some f \<Rightarrow> (case Parse_frac 3 to1 of None \<Rightarrow> False | Some t \<Rightarrow> maxExplicitSpan < time_Sub t f))"

text \<open>The query of a window: \<open>range\<close>, \<open>from\<close>, \<open>to\<close>.\<close>

record window_query =
  wq_range :: string
  wq_from :: string
  wq_to :: string

definition rangeWindow :: "time \<Rightarrow> window_query \<Rightarrow> duration \<Rightarrow> api_error + (string \<times> string)" where
  "rangeWindow now q defaultSpan =
     abind (timeQuery ''from'' (wq_from q)) (\<lambda>from1.
     abind (timeQuery ''to'' (wq_to q)) (\<lambda>to1.
       if (from1 = []) \<noteq> (to1 = []) then Inl (BadRequest ''from and to must be given together'')
       else if from1 \<noteq> [] \<and> to1 \<noteq> [] then
         (if to1 < from1 then Inl (BadRequest ''from must be before to'')
          else if span_too_large from1 to1 then Inl (BadRequest ''range too large'')
          else Inr (from1, to1))
       else
         let n = now - now mod windowGranularity in
         if wq_range q = [] then Inr (Format_frac 3 (n - defaultSpan), Format_frac 3 n)
         else case namedRanges (wq_range q) of
                None \<Rightarrow> Inl (BadRequest ''range must be one of 24h, 7d, 30d, or an explicit from/to pair'')
              | Some sp \<Rightarrow> Inr (Format_frac 3 (n - sp), Format_frac 3 n)))"

definition offsetQuery :: "string \<Rightarrow> api_error + int" where
  "offsetQuery raw_text =
     abind (intQuery ''offset'' raw_text 0) (\<lambda>offset.
       if offset < 0 \<or> 1 < offset then Inl (BadRequest ''offset must be 0 or 1'') else Inr offset)"

definition shifted :: "string \<times> string \<Rightarrow> int \<Rightarrow> api_error + (string \<times> string)" where
  "shifted w offset = (case shiftWindow (fst w) (snd w) offset of None \<Rightarrow> Inl (BadRequest ''invalid window'') | Some w' \<Rightarrow> Inr w')"

definition id_check :: "int \<Rightarrow> api_error + unit" where
  "id_check i = (if i \<le> 0 then Inl (BadRequest ''id must be a positive integer'') else Inr ())"

subsection \<open>History and outages\<close>

record history_response =
  hr_bucket_seconds :: int
  hr_from :: string
  hr_points :: "history_point list"
  hr_target_id :: int
  hr_to :: string

definition lookup_target :: "fault \<Rightarrow> db \<Rightarrow> int \<Rightarrow> api_error + target" where
  "lookup_target flt d i = (case GetTarget flt d i of Inl e \<Rightarrow> Inl (storeErr ''target'' e) | Inr t \<Rightarrow> Inr t)"

definition targetHistory ::
  "(string \<Rightarrow> int option) \<Rightarrow> fault \<Rightarrow> fault \<Rightarrow> time \<Rightarrow> db \<Rightarrow> int \<Rightarrow> window_query \<Rightarrow> string \<Rightarrow> api_error + history_response" where
  "targetHistory ep gflt hflt now d i q offset_text =
     abind (id_check i) (\<lambda>_.
     abind (lookup_target gflt d i) (\<lambda>_.
     abind (offsetQuery offset_text) (\<lambda>offset.
     abind (rangeWindow now q defaultHistorySpan) (\<lambda>w.
     abind (shifted w offset) (\<lambda>(from1, to1).
       let bucket = BucketSecondsFor (windowSpan from1 to1) in
       abind (internal_of ''history failed'' (HistoryBuckets ep hflt d i from1 to1 bucket)) (\<lambda>points.
         Inr \<lparr>hr_bucket_seconds = bucket, hr_from = from1, hr_points = points, hr_target_id = i, hr_to = to1\<rparr>))))))"

record outages_response =
  or_from :: string
  or_incidents :: "incident list"
  or_to :: string

definition outages ::
  "(incident list \<Rightarrow> incident list) \<Rightarrow> fault \<Rightarrow> fault \<Rightarrow> time \<Rightarrow> db \<Rightarrow> window_query \<Rightarrow> string \<Rightarrow> api_error + outages_response" where
  "outages srt flt flt2 now d q gap_text =
     abind (rangeWindow now q defaultOutagesSpan) (\<lambda>(from1, to1).
     abind (intQuery ''gap_seconds'' gap_text defaultOutageGapSeconds) (\<lambda>gap.
       if gap \<le> 0 then Inl (BadRequest ''gap_seconds must be positive'')
       else abind (internal_of ''outages failed'' (Outages srt flt flt2 d from1 to1 gap)) (\<lambda>incs.
              Inr \<lparr>or_from = from1, or_incidents = incs, or_to = to1\<rparr>)))"

subsection \<open>The summary cache\<close>

definition maxSummaryCacheEntries :: nat where
  "maxSummaryCacheEntries = 64"

text \<open>The entries as pairs with distinct keys, and the insertion order, oldest first.\<close>

record summary_cache =
  sc_ttl :: duration
  sc_entries :: "(string \<times> (summary_stats \<times> time)) list"
  sc_order :: "string list"

definition newSummaryCache :: "duration \<Rightarrow> summary_cache" where
  "newSummaryCache ttl = \<lparr>sc_ttl = ttl, sc_entries = [], sc_order = []\<rparr>"

definition cache_get :: "time \<Rightarrow> string \<Rightarrow> summary_cache \<Rightarrow> summary_stats option" where
  "cache_get now key c =
     (case map_of (sc_entries c) key of
        None \<Rightarrow> None
      | Some (body, stamp) \<Rightarrow> if sc_ttl c < time_Sub now stamp then None else Some body)"

definition put_entry :: "string \<Rightarrow> 'a \<Rightarrow> (string \<times> 'a) list \<Rightarrow> (string \<times> 'a) list" where
  "put_entry key v es = (key, v) # filter (\<lambda>p. fst p \<noteq> key) es"

text \<open>The eviction loop; \<open>order[0]\<close> of an empty slice panics.\<close>

fun evict :: "string list \<Rightarrow> (string \<times> 'a) list \<Rightarrow> (string list \<times> (string \<times> 'a) list) option" where
  "evict [] es = (if maxSummaryCacheEntries < length es then None else Some ([], es))"
| "evict (k # ks) es =
     (if maxSummaryCacheEntries < length es then evict ks (filter (\<lambda>p. fst p \<noteq> k) es) else Some (k # ks, es))"

definition cache_set :: "time \<Rightarrow> string \<Rightarrow> summary_stats \<Rightarrow> summary_cache \<Rightarrow> summary_cache option" where
  "cache_set now key body c =
     (let order = (if key \<in> fst ` set (sc_entries c) then sc_order c else sc_order c @ [key])
      in case evict order (put_entry key (body, now) (sc_entries c)) of
           None \<Rightarrow> None
         | Some (order', es) \<Rightarrow> Some (c\<lparr>sc_entries := es, sc_order := order'\<rparr>))"

text \<open>\<open>fmt\<close> is \<open>strconv.FormatFloat\<close> with the shortest digits.\<close>

definition slaKeyPart :: "(float64 \<Rightarrow> string) \<Rightarrow> sla_plan \<Rightarrow> string" where
  "slaKeyPart fmt sla =
     (let f = (\<lambda>v. case v of None \<Rightarrow> [] | Some x \<Rightarrow> fmt x)
      in f (sp_download sla) @ '','' @ f (sp_upload sla) @ '','' @ f (sp_tolerance sla))"

definition summary_key :: "(float64 \<Rightarrow> string) \<Rightarrow> string \<Rightarrow> string \<Rightarrow> int \<Rightarrow> sla_plan \<Rightarrow> string" where
  "summary_key fmt from1 to1 offset sla = from1 @ ''|'' @ to1 @ ''|'' @ Itoa offset @ ''|'' @ slaKeyPart fmt sla"

definition general_plan :: "general \<Rightarrow> sla_plan" where
  "general_plan g = \<lparr>sp_download = g_sla_download_mbps g, sp_upload = g_sla_upload_mbps g, sp_tolerance = g_sla_tolerance_pct g\<rparr>"

text \<open>What the driver answers to the reads of one request.\<close>

record summary_faults =
  sf_general :: "string \<Rightarrow> fault"
  sf_rows :: fault
  sf_sla :: fault
  sf_latest :: fault
  sf_tags :: fault

text \<open>Up to the lookup: the window, the plan and the key, or the refusal. The settings store is present in the running server.\<close>

definition summary_request ::
  "(float64 \<Rightarrow> string) \<Rightarrow> summary_faults \<Rightarrow> time \<Rightarrow> db \<Rightarrow> window_query \<Rightarrow> string \<Rightarrow> api_error + (string \<times> string \<times> sla_plan \<times> string)" where
  "summary_request fmt flt now d q offset_text =
     (if wq_from q \<noteq> [] \<or> wq_to q \<noteq> []
      then Inl (BadRequest ''stats/summary only accepts range=24h|7d|30d, not an explicit from/to pair'')
      else abind (offsetQuery offset_text) (\<lambda>offset.
           abind (rangeWindow now q defaultHistorySpan) (\<lambda>w.
           abind (shifted w offset) (\<lambda>(from1, to1).
           abind (internal_of ''load general settings'' (General (sf_general flt) d)) (\<lambda>g.
             Inr (from1, to1, general_plan g, summary_key fmt from1 to1 offset (general_plan g)))))))"

text \<open>\<open>GET /stats/summary\<close>. \<open>now\<close> is the clock of the window, \<open>t_get\<close> and \<open>t_set\<close> that of the cache. The outer \<open>None\<close> is a panic.\<close>

definition statsSummary ::
  "(float64 \<Rightarrow> string) \<Rightarrow> summary_faults \<Rightarrow> time \<Rightarrow> time \<Rightarrow> time \<Rightarrow> db \<Rightarrow> window_query \<Rightarrow> string \<Rightarrow> summary_cache \<Rightarrow>
   (summary_cache \<times> (api_error + summary_stats)) option" where
  "statsSummary fmt flt now t_get t_set d q offset_text c =
     (case summary_request fmt flt now d q offset_text of
        Inl e \<Rightarrow> Some (c, Inl e)
      | Inr (from1, to1, sla, key) \<Rightarrow>
          (case cache_get t_get key c of
             Some body \<Rightarrow> Some (c, Inr body)
           | None \<Rightarrow>
               (case Summary (sf_rows flt) (sf_sla flt) (sf_latest flt) (sf_tags flt) d from1 to1 sla of
                  Inl e \<Rightarrow> Some (c, Inl (Internal ''summary failed''))
                | Inr stats \<Rightarrow> (case cache_set t_set key stats c of None \<Rightarrow> None | Some c' \<Rightarrow> Some (c', Inr stats)))))"

subsection \<open>Cache keys\<close>

definition clean :: "string \<Rightarrow> bool" where
  "clean s \<longleftrightarrow> CHR ''|'' \<notin> set s \<and> CHR '','' \<notin> set s"

text \<open>What the keys need of \<open>FormatFloat\<close>: distinct numbers have distinct, nonempty texts without the separators.\<close>

definition number_texts :: "(float64 \<Rightarrow> string) \<Rightarrow> bool" where
  "number_texts fmt \<longleftrightarrow> inj fmt \<and> (\<forall>x. fmt x \<noteq> [] \<and> clean (fmt x))"

lemma digits_clean: "list_all is_digit s \<Longrightarrow> clean s"
  by (auto simp: clean_def list_all_iff is_digit_def)

lemma clean_append [simp]: "clean (s @ t) \<longleftrightarrow> clean s \<and> clean t" "clean []"
  "clean (c # s) \<longleftrightarrow> c \<noteq> CHR ''|'' \<and> c \<noteq> CHR '','' \<and> clean s"
  by (auto simp: clean_def)

lemma clean_Itoa: "clean (Itoa n)"
proof -
  have "clean (nat_digits k)" for k by (rule digits_clean) (auto simp: list_all_iff dest: nat_digits_digits)
  then show ?thesis by (simp add: Itoa_def)
qed

lemma clean_Format: "clean (Format_frac nd t)"
proof -
  have p: "clean (pad w n)" for w n by (rule digits_clean) (rule pad_digits)
  have "clean (year_text y)" for y by (simp add: year_text_def p clean_Itoa)
  then have "clean (date_text t)" by (simp add: date_text_def p split: prod.splits)
  then show ?thesis by (simp add: Format_frac_def clock_text_def p Let_def)
qed

lemma sep_split:
  assumes "a @ x # b = a' @ x # b'" "x \<notin> set a" "x \<notin> set a'"
  shows "a = a' \<and> b = b'"
  using assms by (induction a a' rule: list_induct2') auto

lemma opt_text_inj:
  assumes "number_texts fmt" "(case v of None \<Rightarrow> [] | Some x \<Rightarrow> fmt x) = (case w of None \<Rightarrow> [] | Some x \<Rightarrow> fmt x)"
  shows "v = w"
proof -
  have "fmt x \<noteq> []" "[] \<noteq> fmt x" for x using assms(1) by (metis number_texts_def)+
  moreover have "inj fmt" using assms(1) by (simp add: number_texts_def)
  ultimately show ?thesis using assms(2) by (cases v; cases w) (auto dest: injD)
qed

lemma opt_text_clean: "number_texts fmt \<Longrightarrow> clean (case v of None \<Rightarrow> [] | Some x \<Rightarrow> fmt x)"
  by (auto simp: number_texts_def split: option.split)

lemma plan_key_inj:
  assumes "number_texts fmt" "slaKeyPart fmt s = slaKeyPart fmt s'"
  shows "s = s'"
proof -
  let ?f = "\<lambda>v. case v of None \<Rightarrow> [] | Some x \<Rightarrow> fmt x"
  have c: "CHR '','' \<notin> set (?f v)" for v using opt_text_clean [OF assms(1), of v] by (simp add: clean_def)
  have e: "?f (sp_download s) @ CHR '','' # ?f (sp_upload s) @ CHR '','' # ?f (sp_tolerance s) =
      ?f (sp_download s') @ CHR '','' # ?f (sp_upload s') @ CHR '','' # ?f (sp_tolerance s')"
    using assms(2) by (simp add: slaKeyPart_def Let_def)
  from sep_split [OF e c c] have "?f (sp_download s) = ?f (sp_download s')"
    "?f (sp_upload s) @ CHR '','' # ?f (sp_tolerance s) = ?f (sp_upload s') @ CHR '','' # ?f (sp_tolerance s')" by simp_all
  with sep_split [OF this(2) c c] opt_text_inj [OF assms(1)] show ?thesis by (intro sla_plan.equality) auto
qed

lemma summary_key_inj:
  assumes "number_texts fmt" "clean f" "clean t" "clean f'" "clean t'" "summary_key fmt f t off s = summary_key fmt f' t' off' s'"
  shows "f = f' \<and> t = t' \<and> s = s'"
proof -
  have e: "f @ CHR ''|'' # t @ CHR ''|'' # Itoa off @ CHR ''|'' # slaKeyPart fmt s =
      f' @ CHR ''|'' # t' @ CHR ''|'' # Itoa off' @ CHR ''|'' # slaKeyPart fmt s'"
    using assms(6) by (simp add: summary_key_def)
  have b: "CHR ''|'' \<notin> set f" "CHR ''|'' \<notin> set f'" "CHR ''|'' \<notin> set t" "CHR ''|'' \<notin> set t'" using assms by (auto simp: clean_def)
  have i: "CHR ''|'' \<notin> set (Itoa n)" for n using clean_Itoa [of n] by (simp add: clean_def)
  from sep_split [OF e b(1,2)] have 1: "f = f'"
    and e1: "t @ CHR ''|'' # Itoa off @ CHR ''|'' # slaKeyPart fmt s = t' @ CHR ''|'' # Itoa off' @ CHR ''|'' # slaKeyPart fmt s'" by simp_all
  from sep_split [OF e1 b(3,4)] have 2: "t = t'"
    and e2: "Itoa off @ CHR ''|'' # slaKeyPart fmt s = Itoa off' @ CHR ''|'' # slaKeyPart fmt s'" by simp_all
  from sep_split [OF e2 i i] have "slaKeyPart fmt s = slaKeyPart fmt s'" by simp
  with 1 2 plan_key_inj [OF assms(1)] show ?thesis by simp
qed


subsection \<open>The cache under any sequence of requests\<close>

record stats_request =
  rq_faults :: summary_faults
  rq_now :: time
  rq_get :: time
  rq_set :: time
  rq_db :: db
  rq_query :: window_query
  rq_offset :: string

definition serve_stats ::
  "(float64 \<Rightarrow> string) \<Rightarrow> stats_request \<Rightarrow> summary_cache \<Rightarrow> (summary_cache \<times> (api_error + summary_stats)) option" where
  "serve_stats fmt r c = statsSummary fmt (rq_faults r) (rq_now r) (rq_get r) (rq_set r) (rq_db r) (rq_query r) (rq_offset r) c"

fun serve_all ::
  "(float64 \<Rightarrow> string) \<Rightarrow> stats_request list \<Rightarrow> summary_cache \<Rightarrow> (summary_cache \<times> (api_error + summary_stats) list) option" where
  "serve_all fmt [] c = Some (c, [])"
| "serve_all fmt (r # rs) c =
     (case serve_stats fmt r c of
        None \<Rightarrow> None
      | Some (c1, out) \<Rightarrow> (case serve_all fmt rs c1 of None \<Rightarrow> None | Some (c2, outs) \<Rightarrow> Some (c2, out # outs)))"

text \<open>The summary the store gives a request for a window and a plan.\<close>

definition computed :: "stats_request \<Rightarrow> string \<Rightarrow> string \<Rightarrow> sla_plan \<Rightarrow> summary_stats res" where
  "computed r from1 to1 sla =
     Summary (sf_rows (rq_faults r)) (sf_sla (rq_faults r)) (sf_latest (rq_faults r)) (sf_tags (rq_faults r)) (rq_db r) from1 to1 sla"

definition entry_ok :: "(float64 \<Rightarrow> string) \<Rightarrow> stats_request list \<Rightarrow> string \<times> (summary_stats \<times> time) \<Rightarrow> bool" where
  "entry_ok fmt past e \<longleftrightarrow>
     (\<exists>r\<in>set past. \<exists>from1 to1 sla offset. fst e = summary_key fmt from1 to1 offset sla \<and> clean from1 \<and> clean to1 \<and>
        snd (snd e) = rq_set r \<and> computed r from1 to1 sla = Inr (fst (snd e)))"

definition cache_ok :: "(float64 \<Rightarrow> string) \<Rightarrow> stats_request list \<Rightarrow> summary_cache \<Rightarrow> bool" where
  "cache_ok fmt past c \<longleftrightarrow> sc_ttl c = summaryTTL \<and> distinct (map fst (sc_entries c)) \<and> distinct (sc_order c) \<and>
     set (sc_order c) = fst ` set (sc_entries c) \<and> length (sc_entries c) \<le> maxSummaryCacheEntries \<and>
     (\<forall>e\<in>set (sc_entries c). entry_ok fmt past e)"

lemma evict_ok:
  assumes "distinct (map fst es)" "distinct order" "set order = fst ` set es"
  shows "\<exists>order' es'. evict order es = Some (order', es') \<and> distinct (map fst es') \<and> distinct order' \<and> set order' = fst ` set es' \<and>
    length es' \<le> maxSummaryCacheEntries \<and> set es' \<subseteq> set es"
  using assms
proof (induction order arbitrary: es)
  case (Cons k ks)
  show ?case
  proof (cases "maxSummaryCacheEntries < length es")
    case True
    let ?es = "filter (\<lambda>p. fst p \<noteq> k) es"
    have "distinct (map fst ?es)" using Cons.prems(1) by (induction es) auto
    moreover have "set ks = fst ` set ?es" using Cons.prems(2,3) by auto
    ultimately obtain order' es' where "evict ks ?es = Some (order', es')" "distinct (map fst es')" "distinct order'"
      "set order' = fst ` set es'" "length es' \<le> maxSummaryCacheEntries" "set es' \<subseteq> set ?es"
      using Cons.IH [of ?es] Cons.prems(2) by auto
    with True show ?thesis by auto
  qed (use Cons.prems in auto)
qed simp

lemma cache_set_ok:
  assumes ok: "cache_ok fmt past c" and e: "entry_ok fmt past (key, body, stamp)"
  shows "\<exists>c'. cache_set stamp key body c = Some c' \<and> cache_ok fmt past c'"
proof -
  let ?es = "put_entry key (body, stamp) (sc_entries c)"
  let ?order = "if key \<in> fst ` set (sc_entries c) then sc_order c else sc_order c @ [key]"
  note o = ok [unfolded cache_ok_def]
  have "distinct (map fst es) \<Longrightarrow> distinct (map fst (filter (\<lambda>p. fst p \<noteq> key) es))" for es :: "(string \<times> (summary_stats \<times> time)) list"
    by (induction es) auto
  then have es: "distinct (map fst ?es)" using o by (auto simp: put_entry_def)
  have order: "distinct ?order" using o by auto
  have "set ?order = fst ` set ?es" using o by (auto simp: put_entry_def)
  from evict_ok [OF es order this] obtain order' es' where v: "evict ?order ?es = Some (order', es')" "distinct (map fst es')" "distinct order'"
    "set order' = fst ` set es'" "length es' \<le> maxSummaryCacheEntries" "set es' \<subseteq> set ?es" by blast
  have "entry_ok fmt past x" if "x \<in> set ?es" for x using that o e by (auto simp: put_entry_def)
  then have "\<forall>x\<in>set es'. entry_ok fmt past x" using v(6) by blast
  moreover have "sc_ttl c = summaryTTL" using o by blast
  ultimately have "cache_ok fmt past (c\<lparr>sc_entries := es', sc_order := order'\<rparr>)" using v(2-5) unfolding cache_ok_def by simp
  moreover have "cache_set stamp key body c = Some (c\<lparr>sc_entries := es', sc_order := order'\<rparr>)" using v(1) by (simp add: cache_set_def Let_def)
  ultimately show ?thesis by blast
qed

lemma entry_ok_mono: "entry_ok fmt past e \<Longrightarrow> set past \<subseteq> set past' \<Longrightarrow> entry_ok fmt past' e"
  unfolding entry_ok_def by blast

lemma cache_ok_mono: "cache_ok fmt past c \<Longrightarrow> set past \<subseteq> set past' \<Longrightarrow> cache_ok fmt past' c"
  unfolding cache_ok_def using entry_ok_mono by blast

lemma abind_InrD: "abind r f = Inr y \<Longrightarrow> \<exists>x. r = Inr x \<and> f x = Inr y"
  by (cases r) (simp_all add: abind_def)

lemma request_key:
  assumes "summary_request fmt flt now d q offset_text = Inr (from1, to1, sla, key)"
  shows "clean from1 \<and> clean to1 \<and> (\<exists>offset. key = summary_key fmt from1 to1 offset sla)"
proof -
  have q: "wq_from q = []" "wq_to q = []" using assms by (auto simp: summary_request_def split: if_splits)
  have "\<exists>offset w. rangeWindow now q defaultHistorySpan = Inr w \<and> shifted w offset = Inr (from1, to1) \<and> key = summary_key fmt from1 to1 offset sla"
    using assms q by (auto simp: summary_request_def dest!: abind_InrD)
  then obtain offset w where w: "rangeWindow now q defaultHistorySpan = Inr w" "shifted w offset = Inr (from1, to1)"
    and key: "key = summary_key fmt from1 to1 offset sla" by blast
  have "clean (fst w) \<and> clean (snd w)"
    using w(1) q by (auto simp: rangeWindow_def timeQuery_def abind_def Let_def clean_Format split: if_splits option.splits)
  with w(2) key show ?thesis by (auto simp: shifted_def shiftWindow_def clean_Format split: option.splits if_splits)
qed

text \<open>The store gives this body for the window and the plan of the request, on its own database or on that of an earlier request at most the
  TTL ago.\<close>

definition fresh_answer :: "(float64 \<Rightarrow> string) \<Rightarrow> stats_request list \<Rightarrow> stats_request \<Rightarrow> summary_stats \<Rightarrow> bool" where
  "fresh_answer fmt past r body \<longleftrightarrow>
     (\<exists>from1 to1 sla key. summary_request fmt (rq_faults r) (rq_now r) (rq_db r) (rq_query r) (rq_offset r) = Inr (from1, to1, sla, key) \<and>
        (computed r from1 to1 sla = Inr body \<or>
         (\<exists>p\<in>set past. computed p from1 to1 sla = Inr body \<and> time_Sub (rq_get r) (rq_set p) \<le> summaryTTL)))"

text \<open>One request: the answer is computed now, or was computed for the same window and plan at most the TTL ago.\<close>

lemma serve_stats_ok:
  assumes n: "number_texts fmt" and ok: "cache_ok fmt past c"
  shows "\<exists>c' out. serve_stats fmt r c = Some (c', out) \<and> cache_ok fmt (past @ [r]) c' \<and>
    (\<forall>body. out = Inr body \<longrightarrow> fresh_answer fmt past r body)"
proof -
  have ok': "cache_ok fmt (past @ [r]) c" by (rule cache_ok_mono [OF ok]) auto
  show ?thesis
  proof (cases "summary_request fmt (rq_faults r) (rq_now r) (rq_db r) (rq_query r) (rq_offset r)")
    case (Inl e)
    with ok' show ?thesis by (simp add: serve_stats_def statsSummary_def)
  next
    case (Inr w)
    obtain from1 to1 sla key where w: "w = (from1, to1, sla, key)" by (cases w) auto
    note req = Inr [unfolded w]
    obtain offset where k: "clean from1" "clean to1" "key = summary_key fmt from1 to1 offset sla" using request_key [OF req] by blast
    show ?thesis
    proof (cases "cache_get (rq_get r) key c")
      case (Some body)
      then obtain stamp where m: "map_of (sc_entries c) key = Some (body, stamp)" "\<not> sc_ttl c < time_Sub (rq_get r) stamp"
        by (auto simp: cache_get_def split: option.splits if_splits)
      have "entry_ok fmt past (key, body, stamp)" using ok map_of_SomeD [OF m(1)] unfolding cache_ok_def by blast
      then obtain p f t s off where p: "p \<in> set past" "key = summary_key fmt f t off s" "clean f" "clean t" "stamp = rq_set p" "computed p f t s = Inr body"
        unfolding entry_ok_def by auto
      have "f = from1 \<and> t = to1 \<and> s = sla" using summary_key_inj [OF n p(3,4) k(1,2)] p(2) k(3) by metis
      moreover have "sc_ttl c = summaryTTL" using ok by (simp add: cache_ok_def)
      ultimately show ?thesis using Some req p m(2) ok' by (auto simp: serve_stats_def statsSummary_def fresh_answer_def intro!: bexI [of _ p])
    next
      case None
      show ?thesis
      proof (cases "computed r from1 to1 sla")
        case (Inl e)
        with None req ok' show ?thesis by (simp add: serve_stats_def statsSummary_def computed_def)
      next
        case (Inr body)
        have "entry_ok fmt (past @ [r]) (key, body, rq_set r)" using k Inr by (auto simp: entry_ok_def)
        from cache_set_ok [OF ok' this] obtain c' where "cache_set (rq_set r) key body c = Some c'" "cache_ok fmt (past @ [r]) c'" by blast
        with None req Inr show ?thesis by (simp add: serve_stats_def statsSummary_def computed_def fresh_answer_def)
      qed
    qed
  qed
qed

lemma serve_all_ok:
  assumes "number_texts fmt" "cache_ok fmt past c"
  shows "\<exists>c' outs. serve_all fmt rs c = Some (c', outs) \<and> cache_ok fmt (past @ rs) c' \<and> length outs = length rs \<and>
    (\<forall>i<length rs. \<forall>body. outs ! i = Inr body \<longrightarrow> fresh_answer fmt (past @ take i rs) (rs ! i) body)"
  using assms(2)
proof (induction rs arbitrary: c past)
  case (Cons r rs)
  obtain c1 out where s: "serve_stats fmt r c = Some (c1, out)" "cache_ok fmt (past @ [r]) c1"
    and o: "\<And>body. out = Inr body \<Longrightarrow> fresh_answer fmt past r body"
    using serve_stats_ok [OF assms(1) Cons.prems] by metis
  obtain c' outs where i: "serve_all fmt rs c1 = Some (c', outs)" "cache_ok fmt ((past @ [r]) @ rs) c'" "length outs = length rs"
    and a: "\<And>i body. i < length rs \<Longrightarrow> outs ! i = Inr body \<Longrightarrow> fresh_answer fmt ((past @ [r]) @ take i rs) (rs ! i) body"
    using Cons.IH [OF s(2)] by metis
  have "fresh_answer fmt (past @ take i (r # rs)) ((r # rs) ! i) body" if "i < length (r # rs)" "(out # outs) ! i = Inr body" for i body
    using that o a by (cases i) simp_all
  with s(1) i show ?case by simp
qed simp

text \<open>C31: Summaries are fresh. Whatever requests the server answers, in order, the cache never panics and never holds more than 64 entries, and
  every summary it answers is the one the store computes for the window and the plan of that very request, on the current database or on the
  database of an earlier request whose summary was stored at most 30 seconds before.\<close>

theorem summaries_are_fresh:
  assumes "number_texts fmt"
  shows "\<exists>c outs. serve_all fmt rs (newSummaryCache summaryTTL) = Some (c, outs) \<and> length (sc_entries c) \<le> 64 \<and> length outs = length rs \<and>
    (\<forall>i<length rs. \<forall>body. outs ! i = Inr body \<longrightarrow> fresh_answer fmt (take i rs) (rs ! i) body)"
proof -
  have "cache_ok fmt [] (newSummaryCache summaryTTL)" by (simp add: cache_ok_def newSummaryCache_def)
  from serve_all_ok [OF assms this, of rs] show ?thesis by (auto simp: cache_ok_def maxSummaryCacheEntries_def)
qed

text \<open>A text for every number: numerator and denominator in unary.\<close>

definition unary_text :: "float64 \<Rightarrow> string" where
  "unary_text x =
     (let (n, m) = quotient_of x
      in (if n < 0 then ''-'' else ''+'') @ replicate (nat \<bar>n\<bar>) CHR ''1'' @ ''/'' @ replicate (nat m) CHR ''1'')"

lemma unary_number_texts: "number_texts unary_text"
proof -
  have "x = y" if "unary_text x = unary_text y" for x y
  proof -
    obtain n m n' m' where q: "quotient_of x = (n, m)" "quotient_of y = (n', m')" by (cases "quotient_of x", cases "quotient_of y") auto
    have d: "0 < m" "0 < m'" using q quotient_of_denom_pos by auto
    have c: "CHR ''/'' \<notin> set (replicate k CHR ''1'')" for k by simp
    have sg: "(n < 0) = (n' < 0)" and e: "replicate (nat \<bar>n\<bar>) CHR ''1'' @ CHR ''/'' # replicate (nat m) CHR ''1'' =
        replicate (nat \<bar>n'\<bar>) CHR ''1'' @ CHR ''/'' # replicate (nat m') CHR ''1''"
      using that q by (auto simp: unary_text_def split: if_splits)
    from sep_split [OF e c c] have "nat \<bar>n\<bar> = nat \<bar>n'\<bar>" "nat m = nat m'" by simp_all
    with sg d have "quotient_of x = quotient_of y" unfolding q by auto
    then show ?thesis by (simp add: quotient_of_inject)
  qed
  then show ?thesis by (auto simp: number_texts_def unary_text_def clean_def inj_def Let_def split: prod.splits)
qed

theorem summaries_are_fresh_witness:
  "\<exists>c outs. serve_all unary_text (replicate 3 \<lparr>rq_faults = \<lparr>sf_general = (\<lambda>_. None), sf_rows = None, sf_sla = None, sf_latest = None, sf_tags = None\<rparr>,
       rq_now = unix_epoch, rq_get = unix_epoch, rq_set = unix_epoch, rq_db = sla_db, rq_query = \<lparr>wq_range = ''7d'', wq_from = [], wq_to = []\<rparr>,
       rq_offset = ''1''\<rparr>) (newSummaryCache summaryTTL) = Some (c, outs) \<and> length (sc_entries c) \<le> 64 \<and> length outs = 3"
  using summaries_are_fresh [OF unary_number_texts, of "replicate 3 \<lparr>rq_faults = \<lparr>sf_general = (\<lambda>_. None), sf_rows = None, sf_sla = None,
       sf_latest = None, sf_tags = None\<rparr>, rq_now = unix_epoch, rq_get = unix_epoch, rq_set = unix_epoch, rq_db = sla_db,
       rq_query = \<lparr>wq_range = ''7d'', wq_from = [], wq_to = []\<rparr>, rq_offset = ''1''\<rparr>"]
  by auto

subsection \<open>Windows\<close>

lemma Parse_aligned:
  assumes "year4 t" "t mod Millisecond = 0"
  shows "Parse_frac 3 (Format_frac 3 t) = Some t"
  using Parse_Format [OF assms(1), of 3] assms(2) by (simp add: frac_unit_def Millisecond_def)

lemma windowSpan_times:
  assumes "year4 f" "year4 t" "f mod Millisecond = 0" "t mod Millisecond = 0" "t - f \<le> maxDuration"
  shows "windowSpan (Format_frac 3 f) (Format_frac 3 t) = (if f < t then t - f else Hour)"
  using assms by (auto simp: windowSpan_def Parse_aligned time_Sub_def minDuration_def)

text \<open>The previous period. For a window of instants whose year has four digits, shifted back by its own length, the results of the shifted
  window are exactly those that started in the span of the same length before the window; no result is in both.\<close>

theorem previous_period_is_adjacent:
  assumes "year4 f" "year4 t" "f mod Millisecond = 0" "t mod Millisecond = 0" "f < t" "t - f \<le> f" "t - f \<le> maxDuration"
  shows "\<exists>from1 to1. shiftWindow (Format_frac 3 f) (Format_frac 3 t) 1 = Some (from1, to1) \<and>
    (\<forall>x. year4 x \<longrightarrow>
       (in_window from1 to1 (Format_frac 3 x) \<longleftrightarrow> f - (t - f) \<le> x \<and> x < f) \<and>
       \<not> (in_window from1 to1 (Format_frac 3 x) \<and> in_window (Format_frac 3 f) (Format_frac 3 t) (Format_frac 3 x)))"
proof -
  let ?g = "f - (t - f)" and ?h = "f - Millisecond"
  have "0 < f" using assms(1,5,6) by simp
  then have "Millisecond \<le> f" using assms(3) by (metis Millisecond_def mod_pos_pos_trivial not_less order_less_imp_le order_less_irrefl)
  then have y: "year4 ?g" "year4 ?h" using assms by (auto simp: year4_def Millisecond_def)
  obtain a where a: "f = 1000000 * a" using assms(3) by (auto simp: Millisecond_def)
  obtain b where b: "t = 1000000 * b" using assms(4) by (auto simp: Millisecond_def)
  have d: "?g div 1000000 = a - (b - a)" "?h div 1000000 = a - 1" "f div 1000000 = a"
  proof -
    have "?g = 1000000 * (a - (b - a))" "?h = 1000000 * (a - 1)" by (simp_all add: a b Millisecond_def)
    then show "?g div 1000000 = a - (b - a)" "?h div 1000000 = a - 1" "f div 1000000 = a" by (simp_all add: a)
  qed
  have s: "shiftWindow (Format_frac 3 f) (Format_frac 3 t) 1 = Some (Format_frac 3 ?g, Format_frac 3 ?h)"
    using assms by (simp add: shiftWindow_def Parse_aligned windowSpan_times)
  have "in_window (Format_frac 3 ?g) (Format_frac 3 ?h) (Format_frac 3 x) \<longleftrightarrow> ?g \<le> x \<and> x < f" if "year4 x" for x
  proof -
    have "a - (b - a) \<le> x div 1000000 \<longleftrightarrow> ?g \<le> x" unfolding a b by linarith
    moreover have "x div 1000000 \<le> a - 1 \<longleftrightarrow> x < f" unfolding a by linarith
    ultimately show ?thesis using in_window_times [OF y that] unfolding d by blast
  qed
  moreover have "in_window (Format_frac 3 f) (Format_frac 3 t) (Format_frac 3 x) \<Longrightarrow> f \<le> x" if "year4 x" for x
  proof -
    assume "in_window (Format_frac 3 f) (Format_frac 3 t) (Format_frac 3 x)"
    then have "a \<le> x div 1000000" using that assms(1,2) by (simp add: in_window_times d)
    then show "f \<le> x" unfolding a by linarith
  qed
  ultimately show ?thesis using s by fastforce
qed

text \<open>Noon to one o'clock of a day in 2021.\<close>

definition report_noon :: time where
  "report_noon = 738000 * ns_per_day + 12 * Hour"

theorem previous_period_is_adjacent_witness:
  "\<exists>from1 to1. shiftWindow (Format_frac 3 report_noon) (Format_frac 3 (report_noon + Hour)) 1 = Some (from1, to1) \<and>
     in_window from1 to1 (Format_frac 3 (report_noon - 1)) \<and> \<not> in_window from1 to1 (Format_frac 3 report_noon)"
proof -
  have y: "year4 report_noon" "year4 (report_noon + Hour)" "year4 (report_noon - 1)"
    by (simp_all add: year4_def report_noon_def days_before_year_def duration_defs)
  have m: "report_noon mod Millisecond = 0" "(report_noon + Hour) mod Millisecond = 0" "report_noon < report_noon + Hour" "report_noon + Hour - report_noon \<le> report_noon"
    "report_noon + Hour - report_noon \<le> maxDuration"
    by (simp_all add: report_noon_def Millisecond_def maxDuration_def duration_defs)
  obtain from1 to1 where w: "shiftWindow (Format_frac 3 report_noon) (Format_frac 3 (report_noon + Hour)) 1 = Some (from1, to1)"
    and i: "\<forall>x. year4 x \<longrightarrow> (in_window from1 to1 (Format_frac 3 x) \<longleftrightarrow> report_noon - (report_noon + Hour - report_noon) \<le> x \<and> x < report_noon)"
    using previous_period_is_adjacent [OF y(1,2) m] by blast
  have "in_window from1 to1 (Format_frac 3 (report_noon - 1))" "\<not> in_window from1 to1 (Format_frac 3 report_noon)"
    using i y(1,3) by (simp_all add: duration_defs)
  with w show ?thesis by blast
qed

text \<open>The bucket width of a span up to the limit of explicit windows.\<close>

lemma BucketSecondsFor_bound:
  assumes "sp \<le> maxExplicitSpan"
  shows "0 < BucketSecondsFor sp" "sp div Second < 501 * BucketSecondsFor sp"
proof -
  let ?secs = "sp div Second"
  have "maxExplicitSpan div Second = 7776000" by (simp add: maxExplicitSpan_def Hour_def Minute_def Second_def)
  moreover have "0 < Second" by (simp add: Second_def)
  ultimately have s: "?secs \<le> 7776000" using zdiv_mono1 [OF assms, of Second] by linarith
  have "0 < BucketSecondsFor sp \<and> ?secs < 501 * BucketSecondsFor sp"
  proof (cases "?secs \<le> 0")
    case True
    then show ?thesis by (simp add: BucketSecondsFor_def bucketSteps_def Let_def)
  next
    case False
    have "?secs div 21600 \<le> maxHistoryPoints" using s by (simp add: maxHistoryPoints_def)
    moreover have "21600 \<in> set bucketSteps" by (simp add: bucketSteps_def)
    ultimately have "find (\<lambda>step. ?secs div step \<le> maxHistoryPoints) bucketSteps \<noteq> None" unfolding find_None by blast
    then obtain step where st: "find (\<lambda>step. ?secs div step \<le> maxHistoryPoints) bucketSteps = Some step" by blast
    then have "BucketSecondsFor sp = step" using False by (simp add: BucketSecondsFor_def Let_def)
    moreover have "step \<in> set bucketSteps" "?secs div step \<le> 500" using find_SomeD [OF st] by (simp_all add: maxHistoryPoints_def)
    moreover have "0 < step" using \<open>step \<in> set bucketSteps\<close> by (auto simp: bucketSteps_def)
    moreover have "?secs < 501 * step"
    proof -
      have "?secs = step * (?secs div step) + ?secs mod step" by simp
      also have "\<dots> < step * 500 + step" using \<open>0 < step\<close> \<open>?secs div step \<le> 500\<close>
        by (intro add_le_less_mono mult_left_mono) simp_all
      finally show ?thesis by simp
    qed
    ultimately show ?thesis by simp
  qed
  then show "0 < BucketSecondsFor sp" "?secs < 501 * BucketSecondsFor sp" by simp_all
qed

lemma div_diff_le:
  assumes "0 < (n :: int)"
  shows "a div n - b div n \<le> (a - b) div n + 1"
proof -
  have "a div n = b div n + (a - b) div n + (b mod n + (a - b) mod n) div n" using div_add1_eq [of b "a - b" n] by simp
  moreover have "b mod n + (a - b) mod n < 2 * n" using pos_mod_bound [OF assms, of b] pos_mod_bound [OF assms, of "a - b"] by linarith
  moreover have "x div n \<le> 1" if "x < 2 * n" for x
  proof (rule ccontr)
    assume "\<not> x div n \<le> 1"
    then have "n * 2 \<le> n * (x div n)" using assms by (intro mult_left_mono) simp_all
    moreover have "n * (x div n) \<le> x" using pos_mod_sign [OF assms, of x] mult_div_mod_eq [of n x] by linarith
    ultimately show False using that by simp
  qed
  ultimately show ?thesis by fastforce
qed

text \<open>C32: Charts stay small. For a window of four-digit years of at most 90 days, at the width \<open>targetHistory\<close> chooses for it, the store answers
  with at most 502 points, however many results it holds.\<close>

theorem history_points_bounded:
  assumes "reads_schema_times ep" "schema_times d" "year4 f" "year4 t" "f mod Millisecond = 0" "t mod Millisecond = 0" "t - f \<le> maxExplicitSpan"
  shows "\<exists>ps. HistoryBuckets ep None d tid (Format_frac 3 f) (Format_frac 3 t)
      (BucketSecondsFor (windowSpan (Format_frac 3 f) (Format_frac 3 t))) = Inr ps \<and> length ps \<le> 502"
proof -
  let ?rs = "history_rows d tid (Format_frac 3 f) (Format_frac 3 t)"
  define sp where "sp = windowSpan (Format_frac 3 f) (Format_frac 3 t)"
  define b where "b = BucketSecondsFor sp"
  have "maxExplicitSpan \<le> maxDuration" by (simp add: maxExplicitSpan_def maxDuration_def duration_defs)
  then have sp: "sp = (if f < t then t - f else Hour)" using windowSpan_times [OF assms(3-6)] assms(7) by (simp add: sp_def)
  then have "sp \<le> maxExplicitSpan" using assms(7) by (auto simp: maxExplicitSpan_def duration_defs)
  from BucketSecondsFor_bound [OF this] have b: "0 < b" "sp div Second < 501 * b" by (simp_all add: b_def)
  define lo where "lo = (f - unix_epoch) div ns_per_sec"
  define hi where "hi = (t - unix_epoch) div ns_per_sec"
  have range: "lo \<le> result_secs ep r \<and> result_secs ep r \<le> hi \<and> 0 \<le> result_secs ep r" if r: "r \<in> set ?rs" for r
  proof -
    obtain x where x: "year4 x" "unix_epoch \<le> x" "res_started_at r = Format_frac 3 x"
    proof -
      have "r \<in> set (rows (results_t d))" using r by (simp add: history_rows_def)
      then show thesis using assms(2) that unfolding schema_times_def by blast
    qed
    have s: "result_secs ep r = (x - unix_epoch) div ns_per_sec" using assms(1) x by (simp add: result_secs_def reads_schema_times_def)
    have "in_window (Format_frac 3 f) (Format_frac 3 t) (Format_frac 3 x)" using r x(3) by (simp add: history_rows_def)
    then have w: "f div 1000000 \<le> x div 1000000" "x div 1000000 \<le> t div 1000000" using in_window_times [OF assms(3,4) x(1)] by simp_all
    then have "lo \<le> result_secs ep r" "result_secs ep r \<le> hi" unfolding s lo_def hi_def second_of_milli by (simp_all add: zdiv_mono1)
    then show ?thesis using schema_secs(2) [OF assms(1,2) r] by simp
  qed
  have "hi - lo \<le> sp div Second + 1"
  proof (cases "f < t")
    case True
    have "0 < ns_per_sec" "Second = ns_per_sec" by (simp_all add: ns_per_sec_def Second_def)
    then show ?thesis using True sp div_diff_le [of ns_per_sec "t - unix_epoch" "f - unix_epoch"] by (simp add: hi_def lo_def)
  next
    case False
    then have "hi \<le> lo" unfolding hi_def lo_def by (intro zdiv_mono1) (simp_all add: ns_per_sec_def)
    then show ?thesis using False sp by (simp add: duration_defs)
  qed
  then have hl: "hi - lo \<le> 501 * b" using b(2) by linarith
  have "bucket_of ep b ` set ?rs \<subseteq> (\<lambda>j. j * b) ` {lo div b .. hi div b}"
  proof
    fix k assume "k \<in> bucket_of ep b ` set ?rs"
    then obtain r where r: "r \<in> set ?rs" "k = bucket_of ep b r" by auto
    then have "k = result_secs ep r div b * b" using range [OF r(1)] by (simp add: bucket_of_def result_secs_def sql_div_def)
    moreover have "result_secs ep r div b \<in> {lo div b .. hi div b}" using range [OF r(1)] b(1) by (simp add: zdiv_mono1)
    ultimately show "k \<in> (\<lambda>j. j * b) ` {lo div b .. hi div b}" by blast
  qed
  then have "card (bucket_of ep b ` set ?rs) \<le> card {lo div b .. hi div b}"
    by (meson card_image_le card_mono finite_atLeastAtMost_int finite_imageI le_trans)
  also have "\<dots> \<le> 502"
  proof -
    have "hi div b \<le> (lo + 501 * b) div b" using hl b(1) by (intro zdiv_mono1) linarith+
    also have "\<dots> = lo div b + 501" using b(1) by simp
    finally show ?thesis by simp
  qed
  finally have c: "card (bucket_of ep b ` set ?rs) \<le> 502" .
  define ps where "ps = map (\<lambda>k. history_point_of k (filter (\<lambda>r. bucket_of ep b r = k) ?rs)) (sorted_list_of_set (bucket_of ep b ` set ?rs))"
  have "HistoryBuckets ep None d tid (Format_frac 3 f) (Format_frac 3 t) b = Inr ps"
    using b(1) schema_secs(1) [OF assms(1,2)] by (auto simp: HistoryBuckets_def ps_def Let_def)
  moreover have "length ps \<le> 502" using c by (simp add: ps_def)
  ultimately show ?thesis by (auto simp: b_def sp_def)
qed

theorem history_points_bounded_witness:
  "\<exists>ps. HistoryBuckets sqlite_secs None history_db 7 (Format_frac 3 report_noon) (Format_frac 3 (report_noon + Hour))
      (BucketSecondsFor (windowSpan (Format_frac 3 report_noon) (Format_frac 3 (report_noon + Hour)))) = Inr ps \<and> length ps \<le> 502"
proof -
  have "year4 report_noon" "year4 (report_noon + Hour)" "report_noon mod Millisecond = 0" "(report_noon + Hour) mod Millisecond = 0"
    "report_noon + Hour - report_noon \<le> maxExplicitSpan"
    by (simp_all add: report_noon_def year4_def Millisecond_def maxExplicitSpan_def days_before_year_def duration_defs)
  from history_points_bounded [OF sqlite_secs_reads history_db_schema this] show ?thesis by blast
qed


end
