(* ===== verification/Resource_Api.thy ===== *)
theory Resource_Api
  imports Report_Api Runner
begin

text \<open>
  The handlers of targets, revisions, queues, tags, results and runs (\<open>internal/api/targets.go\<close>, \<open>revisions.go\<close>,
  \<open>queues.go\<close>, \<open>tags.go\<close>, \<open>results.go\<close>, \<open>runs.go\<close>) over the store and the runner, the engine registry they validate
  against (\<open>internal/engine/registry.go\<close>), and the guard in front of every mutating request (\<open>internal/api/api.go\<close>). A handler
  calls a store function at most once, so what the driver answers is a function of that function's name.
\<close>

subsection \<open>The engine registry\<close>

text \<open>Of an engine the handlers use \<open>Validate\<close>: the error it reports for an option document. The engines
  themselves are parameters.\<close>

type_synonym validator = "raw \<Rightarrow> string option"
type_synonym registry = "string \<rightharpoonup> validator"

definition NewRegistry :: registry where
  "NewRegistry = Map.empty"

definition Register :: "string \<Rightarrow> validator \<Rightarrow> registry \<Rightarrow> registry" where
  "Register name e r = r(name \<mapsto> e)"

text \<open>The loop copies the given map into a fresh one.\<close>

definition Replace :: "(string \<times> validator) list \<Rightarrow> registry \<Rightarrow> registry" where
  "Replace engines r = foldl (\<lambda>next (name, e). next(name \<mapsto> e)) Map.empty engines"

definition Registry_Get :: "string \<Rightarrow> registry \<Rightarrow> validator option" where
  "Registry_Get name r = r name"

definition Names :: "registry \<Rightarrow> string list" where
  "Names r = sorted_list_of_set (dom r)"

subsection \<open>What a handler is given\<close>

text \<open>\<open>ad_json_error\<close> is the text of the error \<open>encoding/json\<close> reports for a document.\<close>

record api_deps =
  ad_registry :: registry
  ad_json_error :: "raw \<Rightarrow> string"

type_synonym call_faults = "string \<Rightarrow> fault"

text \<open>What the driver and the clock answer during one request.\<close>

record api_env =
  ae_faults :: call_faults
  ae_now :: string
  ae_enqueue :: enqueue_env
  ae_cancel :: "fault \<times> fault"

definition store_err :: "string \<Rightarrow> 'a res \<Rightarrow> api_error + 'a" where
  "store_err what r = (case r of Inl e \<Rightarrow> Inl (storeErr what e) | Inr x \<Rightarrow> Inr x)"

text \<open>A write of the store followed by the rest of the handler on the new database.\<close>

definition after_write :: "('e \<Rightarrow> api_error) \<Rightarrow> db \<times> ('e + 'a) \<Rightarrow> (db \<Rightarrow> 'a \<Rightarrow> api_error + 'b) \<Rightarrow> db \<times> (api_error + 'b)" where
  "after_write err w k = (case w of (d, Inl e) \<Rightarrow> (d, Inl (err e)) | (d, Inr x) \<Rightarrow> (d, k d x))"

subsection \<open>Validating a target\<close>

record target_body =
  tb_name :: string
  tb_engine :: string
  tb_enabled :: bool
  tb_queue_id :: int
  tb_lane :: string
  tb_options :: raw
  tb_thresholds :: raw

definition isJSONNull :: "raw \<Rightarrow> bool" where
  "isJSONNull m \<longleftrightarrow> m = RawDoc JNull"

definition default_doc :: "raw \<Rightarrow> raw" where
  "default_doc m = (if m = RawEmpty \<or> isJSONNull m then RawDoc (JObj []) else m)"

text \<open>\<open>queue_id\<close>, or the queue the deprecated \<open>lane\<close> names.\<close>

definition lane_queue :: "call_faults \<Rightarrow> db \<Rightarrow> target_body \<Rightarrow> api_error + int" where
  "lane_queue f d b =
     (if tb_queue_id b = 0 \<and> tb_lane b \<noteq> []
      then case GetQueueByName (f ''GetQueueByName'') d (tb_lane b) of
             Inl e \<Rightarrow> Inl (if e = ErrNotFound then BadRequest ''unknown lane'' else Internal ''resolve lane failed'')
           | Inr q \<Rightarrow> Inr (q_id q)
      else Inr (tb_queue_id b))"

definition body_queue :: "call_faults \<Rightarrow> db \<Rightarrow> int \<Rightarrow> api_error + int" where
  "body_queue f d qid =
     (if qid = 0 then internal_of ''resolve default queue failed'' (DefaultQueueID (f ''DefaultQueueID'') d)
      else case GetQueue (f ''GetQueue'') d qid of
             Inl e \<Rightarrow> Inl (if e = ErrNotFound then BadRequest ''unknown queue_id'' else Internal ''resolve queue failed'')
           | Inr _ \<Rightarrow> Inr qid)"

definition check_thresholds :: "api_deps \<Rightarrow> raw \<Rightarrow> api_error + unit" where
  "check_thresholds dp m =
     (case (case m of RawDoc j \<Rightarrow> unm_thresholds j | _ \<Rightarrow> None) of
        None \<Rightarrow> Inl (BadRequest (''invalid thresholds: '' @ ad_json_error dp m))
      | Some th \<Rightarrow> (case validateThresholds th of
                     Some e \<Rightarrow> Inl (BadRequest (''invalid thresholds: '' @ e)) | None \<Rightarrow> Inr ()))"

definition check_engine :: "api_deps \<Rightarrow> string \<Rightarrow> raw \<Rightarrow> api_error + unit" where
  "check_engine dp name opts =
     (case Registry_Get name (ad_registry dp) of
        None \<Rightarrow> Inl (BadRequest (''unknown engine '' @ quoted name @ ''; have '' @ Join (Names (ad_registry dp)) '', ''))
      | Some eng \<Rightarrow> (case eng opts of
                      Some e \<Rightarrow> Inl (BadRequest (''invalid options for engine '' @ name @ '': '' @ e)) | None \<Rightarrow> Inr ()))"

definition validateTarget :: "api_deps \<Rightarrow> call_faults \<Rightarrow> db \<Rightarrow> target_body \<Rightarrow> api_error + target_body" where
  "validateTarget dp f d b =
     (let name = TrimSpace (tb_name b); opts = default_doc (tb_options b); thr = default_doc (tb_thresholds b)
      in if name = [] then Inl (BadRequest ''name is required'')
         else abind (lane_queue f d b) (\<lambda>q.
              abind (body_queue f d q) (\<lambda>qid.
              abind (check_thresholds dp thr) (\<lambda>_.
              abind (check_engine dp (tb_engine b) opts) (\<lambda>_.
                Inr (b\<lparr>tb_name := name, tb_queue_id := qid, tb_options := opts, tb_thresholds := thr\<rparr>))))))"

definition body_target :: "int \<Rightarrow> target_body \<Rightarrow> target" where
  "body_target i b = \<lparr>t_id = i, t_name = tb_name b, t_engine = tb_engine b, t_enabled = tb_enabled b,
     t_queue_id = tb_queue_id b, t_options = tb_options b, t_thresholds = tb_thresholds b,
     t_rotation_index = 0, t_created_at = '''', t_updated_at = '''', t_queue_name = ''''\<rparr>"

subsection \<open>Targets\<close>

definition listTargets :: "call_faults \<Rightarrow> db \<Rightarrow> api_error + target list" where
  "listTargets f d = internal_of ''list targets failed'' (ListTargets (f ''ListTargets'') d)"

definition createTarget :: "api_deps \<Rightarrow> call_faults \<Rightarrow> string \<Rightarrow> target_body \<Rightarrow> db \<Rightarrow> db \<times> (api_error + target)" where
  "createTarget dp f now body d =
     (case validateTarget dp f d body of
        Inl e \<Rightarrow> (d, Inl e)
      | Inr b \<Rightarrow>
          after_write (\<lambda>_. Internal ''create target failed'') (CreateTarget (f ''CreateTarget'') now d (body_target 0 b))
            (\<lambda>d' i. store_err ''target'' (GetTarget (f ''GetTarget'') d' i)))"

definition getTarget :: "call_faults \<Rightarrow> int \<Rightarrow> db \<Rightarrow> api_error + target" where
  "getTarget f i d = abind (id_check i) (\<lambda>_. store_err ''target'' (GetTarget (f ''GetTarget'') d i))"

definition updateTarget :: "api_deps \<Rightarrow> call_faults \<Rightarrow> string \<Rightarrow> int \<Rightarrow> target_body \<Rightarrow> db \<Rightarrow> db \<times> (api_error + target)" where
  "updateTarget dp f now i body d =
     (case abind (id_check i) (\<lambda>_. validateTarget dp f d body) of
        Inl e \<Rightarrow> (d, Inl e)
      | Inr b \<Rightarrow>
          after_write (storeErr ''target'') (UpdateTarget (f ''UpdateTarget'') now d (body_target i b))
            (\<lambda>d' _. store_err ''target'' (GetTarget (f ''GetTarget'') d' i)))"

definition deleteTarget :: "call_faults \<Rightarrow> string \<Rightarrow> int \<Rightarrow> db \<Rightarrow> db \<times> (api_error + unit)" where
  "deleteTarget f now i d =
     (case id_check i of
        Inl e \<Rightarrow> (d, Inl e)
      | Inr _ \<Rightarrow> after_write (storeErr ''target'') (DeleteTarget (f ''DeleteTarget'') now d i) (\<lambda>_ _. Inr ()))"

text \<open>\<open>enqueueError\<close>.\<close>

fun enqueueErr :: "enqueue_error \<Rightarrow> api_error" where
  "enqueueErr ErrNoTargets = BadRequest ''no runnable targets''"
| "enqueueErr ErrQueueFull = Unavailable ''queue is full, try again shortly''"
| "enqueueErr ErrShuttingDown = Unavailable ''server is shutting down''"
| "enqueueErr (ErrStore e) = Internal ''enqueue run failed''"

text \<open>A handler that ends in \<open>Enqueue\<close>: the request, or the answer that stops it.\<close>

definition enqueue_answer :: "enqueue_env \<Rightarrow> api_error + run_request \<Rightarrow> runner \<Rightarrow> runner \<times> (api_error + int)" where
  "enqueue_answer ev rq r =
     (case rq of
        Inl e \<Rightarrow> (r, Inl e)
      | Inr req \<Rightarrow> (case Enqueue ev req r of (r', Inl e) \<Rightarrow> (r', Inl (enqueueErr e)) | (r', Inr i) \<Rightarrow> (r', Inr i)))"

definition run_request_of :: "trigger \<Rightarrow> int list \<Rightarrow> run_request" where
  "run_request_of tr ids = \<lparr>rq_trigger = tr, rq_schedule_id = None, rq_target_ids = ids, rq_snapshots = Map.empty\<rparr>"

definition runTarget_api :: "call_faults \<Rightarrow> enqueue_env \<Rightarrow> int \<Rightarrow> runner \<Rightarrow> runner \<times> (api_error + int)" where
  "runTarget_api f ev i r = enqueue_answer ev
     (abind (id_check i) (\<lambda>_. abind (store_err ''target'' (GetTarget (f ''GetTarget'') (r_db r) i)) (\<lambda>_.
        Inr (run_request_of Manual [i])))) r"

definition targetLatest :: "call_faults \<Rightarrow> int \<Rightarrow> db \<Rightarrow> api_error + tagged_result" where
  "targetLatest f i d = abind (id_check i) (\<lambda>_. store_err ''result''
     (LatestResultForTarget (f ''LatestResultForTarget'') (f ''TagsForResults'') d i))"

definition testTarget :: "api_deps \<Rightarrow> call_faults \<Rightarrow> target_body \<Rightarrow> db \<Rightarrow> api_error + string" where
  "testTarget dp f body d =
     abind (validateTarget dp f d (body\<lparr>tb_name := ''validation''\<rparr>)) (\<lambda>b. Inr (tb_engine b))"

subsection \<open>Revisions\<close>

definition revisionFields :: "string list" where
  "revisionFields = [''name'', ''engine'', ''enabled'', ''queue_id'', ''options'', ''thresholds'']"

text \<open>Decoding into \<open>any\<close> keeps the last value of every key and forgets the order of the members, so two decoded
  values are deeply equal exactly when their documents agree after this normalisation.\<close>

fun decode_any :: "json \<Rightarrow> json" where
  "decode_any (JArr xs) = JArr (map decode_any xs)"
| "decode_any (JObj kvs) =
     (let last_of = map_of (rev (map (\<lambda>(k, v). (k, decode_any v)) kvs))
      in JObj (map (\<lambda>k. (k, the (last_of k))) (sort (remdups (map fst kvs)))))"
| "decode_any j = j"

text \<open>A missing field stays nil, as does one that holds \<open>null\<close>.\<close>

definition decoded_field :: "(string \<rightharpoonup> json) \<Rightarrow> string \<Rightarrow> json" where
  "decoded_field m k = (case m k of None \<Rightarrow> JNull | Some j \<Rightarrow> decode_any j)"

definition diffChangedFields :: "raw \<Rightarrow> raw \<Rightarrow> string list option" where
  "diffChangedFields cur prev =
     (case (unmarshal_map cur, unmarshal_map prev) of
        (Some a, Some b) \<Rightarrow> Some (filter (\<lambda>k. decoded_field a k \<noteq> decoded_field b k) revisionFields)
      | _ \<Rightarrow> None)"

text \<open>The entry of each revision, newest first; \<open>None\<close> is the nil slice.\<close>

fun revision_entries :: "revision list \<Rightarrow> (revision \<times> string list option) list" where
  "revision_entries [] = []"
| "revision_entries [v] = [(v, Some [])]"
| "revision_entries (v # w # vs) = (v, diffChangedFields (rev_snapshot v) (rev_snapshot w)) # revision_entries (w # vs)"

definition listTargetRevisions :: "call_faults \<Rightarrow> int \<Rightarrow> db \<Rightarrow> api_error + (revision \<times> string list option) list" where
  "listTargetRevisions f i d =
     abind (id_check i) (\<lambda>_.
     abind (internal_of ''list target revisions failed'' (ListTargetRevisions (f ''ListTargetRevisions'') d i)) (\<lambda>revs.
       Inr (revision_entries revs)))"

text \<open>The body a revert validates: the snapshot with its queue resolved anew.\<close>

definition revert_body :: "target \<Rightarrow> int \<Rightarrow> target_body" where
  "revert_body snap qid = \<lparr>tb_name = t_name snap, tb_engine = t_engine snap, tb_enabled = t_enabled snap,
     tb_queue_id = qid, tb_lane = '''', tb_options = t_options snap, tb_thresholds = t_thresholds snap\<rparr>"

definition revert_checked :: "api_deps \<Rightarrow> call_faults \<Rightarrow> int \<Rightarrow> int \<Rightarrow> db \<Rightarrow> api_error + target_body" where
  "revert_checked dp f i version d =
     abind (id_check i) (\<lambda>_.
     if version \<le> 0 then Inl (BadRequest ''version must be a positive integer'')
     else abind (store_err ''target revision'' (GetTargetRevision (f ''GetTargetRevision'') d i version)) (\<lambda>rv.
       case unmarshalTarget (rev_snapshot rv) of
         None \<Rightarrow> Inl (Internal ''unmarshal revision snapshot'')
       | Some snap \<Rightarrow>
           abind (internal_of ''resolve revision queue'' (ResolveSnapshotQueueID (f ''ResolveSnapshotQueueID'') d (rev_snapshot rv))) (\<lambda>qid.
             validateTarget dp f d (revert_body snap qid))))"

definition revertTargetRevision ::
  "api_deps \<Rightarrow> call_faults \<Rightarrow> string \<Rightarrow> int \<Rightarrow> int \<Rightarrow> db \<Rightarrow> db \<times> (api_error + target)" where
  "revertTargetRevision dp f now i version d =
     (case revert_checked dp f i version d of
        Inl e \<Rightarrow> (d, Inl e)
      | Inr b \<Rightarrow>
          after_write (storeErr ''target'') (RevertTarget (f ''RevertTarget'') now d (body_target i b))
            (\<lambda>d' _. store_err ''target'' (GetTarget (f ''GetTarget'') d' i)))"

definition listDeletedTargets :: "call_faults \<Rightarrow> db \<Rightarrow> api_error + deleted_target list" where
  "listDeletedTargets f d =
     internal_of ''list deleted targets failed'' (ListDeletedTargets (f ''ListQueues'') (f ''ListDeletedTargets'') d)"

definition restoreDeletedTarget :: "call_faults \<Rightarrow> string \<Rightarrow> int \<Rightarrow> db \<Rightarrow> db \<times> (api_error + target)" where
  "restoreDeletedTarget f now i d =
     (case abind (id_check i) (\<lambda>_. store_err ''deleted target'' (LatestDeletedSnapshot (f ''LatestDeletedSnapshot'') d i)) of
        Inl e \<Rightarrow> (d, Inl e)
      | Inr snap \<Rightarrow>
          after_write (\<lambda>e. if e = ErrIDConflict then Conflict ''a live target with that id already exists''
                           else Internal ''restore target failed'')
            (RestoreTarget (f ''RestoreTarget'') now d snap) (\<lambda>_ t. Inr t))"

subsection \<open>Queues\<close>

definition maxQueueNameLen :: nat where
  "maxQueueNameLen = 64"

definition validateQueueName :: "string \<Rightarrow> api_error + string" where
  "validateQueueName raw_name =
     (let name = TrimSpace raw_name
      in if name = [] then Inl (BadRequest ''name is required'')
         else if maxQueueNameLen < length name then Inl (BadRequest ''name must be at most 64 characters'')
         else Inr name)"

definition queueStoreErr :: "store_error \<Rightarrow> api_error" where
  "queueStoreErr e =
     (case e of
        ErrNameConflict \<Rightarrow> Conflict ''a queue with that name already exists''
      | ErrQueueInUse \<Rightarrow> Conflict ''targets still reference this queue''
      | ErrLastQueue \<Rightarrow> Conflict ''cannot delete the last queue''
      | _ \<Rightarrow> storeErr ''queue'' e)"

definition listQueues :: "call_faults \<Rightarrow> db \<Rightarrow> api_error + queue list" where
  "listQueues f d = internal_of ''list queues failed'' (ListQueues (f ''ListQueues'') d)"

definition createQueue :: "call_faults \<Rightarrow> string \<Rightarrow> string \<Rightarrow> db \<Rightarrow> db \<times> (api_error + queue)" where
  "createQueue f now raw_name d =
     (case validateQueueName raw_name of
        Inl e \<Rightarrow> (d, Inl e)
      | Inr name \<Rightarrow> after_write queueStoreErr (CreateQueue (f ''CreateQueue'') now d name) (\<lambda>_ q. Inr q))"

definition updateQueue :: "call_faults \<Rightarrow> int \<Rightarrow> string \<Rightarrow> db \<Rightarrow> db \<times> (api_error + queue)" where
  "updateQueue f i raw_name d =
     (case abind (id_check i) (\<lambda>_. validateQueueName raw_name) of
        Inl e \<Rightarrow> (d, Inl e)
      | Inr name \<Rightarrow> after_write queueStoreErr (RenameQueue (f ''RenameQueue'') d i name) (\<lambda>_ q. Inr q))"

definition deleteQueue :: "call_faults \<Rightarrow> int \<Rightarrow> db \<Rightarrow> db \<times> (api_error + unit)" where
  "deleteQueue f i d =
     (case id_check i of
        Inl e \<Rightarrow> (d, Inl e)
      | Inr _ \<Rightarrow> after_write queueStoreErr (DeleteQueue (f ''DeleteQueue'') d i) (\<lambda>_ _. Inr ()))"

subsection \<open>Tags\<close>

definition renameTag :: "call_faults \<Rightarrow> int \<Rightarrow> string \<Rightarrow> db \<Rightarrow> db \<times> (api_error + tag)" where
  "renameTag f i name d =
     (case id_check i of
        Inl e \<Rightarrow> (d, Inl e)
      | Inr _ \<Rightarrow>
          if TrimSpace name = [] then (d, Inl (BadRequest ''name is required''))
          else after_write (\<lambda>e. if e = ErrNameConflict then Conflict ''a tag with that name already exists'' else storeErr ''tag'' e)
                 (RenameTag (f ''RenameTag'') d i name) (\<lambda>_ t. Inr t))"

definition listTags :: "call_faults \<Rightarrow> db \<Rightarrow> api_error + tag list" where
  "listTags f d = internal_of ''list tags failed'' (ListTags (f ''ListTags'') d)"

definition deleteTag :: "call_faults \<Rightarrow> int \<Rightarrow> db \<Rightarrow> db \<times> (api_error + unit)" where
  "deleteTag f i d =
     (case id_check i of
        Inl e \<Rightarrow> (d, Inl e)
      | Inr _ \<Rightarrow> after_write (storeErr ''tag'') (DeleteTag (f ''DeleteTag'') d i) (\<lambda>_ _. Inr ()))"

subsection \<open>Results\<close>

text \<open>The parameters of \<open>GET /results\<close>; an absent one is the empty text.\<close>

record results_query =
  lq_limit :: string
  lq_cursor :: string
  lq_target_id :: string
  lq_engine :: string
  lq_status :: string
  lq_tag :: string
  lq_from :: string
  lq_to :: string

definition resultFilterFromQuery :: "results_query \<Rightarrow> api_error + result_filter" where
  "resultFilterFromQuery q =
     abind (timeQuery ''from'' (lq_from q)) (\<lambda>from1.
     abind (timeQuery ''to'' (lq_to q)) (\<lambda>to1.
     abind (if lq_target_id q = [] then Inr None else abind (int64Query ''target_id'' (lq_target_id q) 0) (\<lambda>i. Inr (Some i))) (\<lambda>tid.
       Inr \<lparr>f_target_id = tid, f_engine = lq_engine q, f_status = lq_status q, f_from = from1, f_to = to1,
            f_tag = lq_tag q, f_limit = 0, f_cursor = 0\<rparr>)))"

definition listResults :: "call_faults \<Rightarrow> results_query \<Rightarrow> db \<Rightarrow> api_error + (string \<times> tagged_result list)" where
  "listResults f q d =
     abind (resultFilterFromQuery q) (\<lambda>flt.
     abind (intQuery ''limit'' (lq_limit q) 50) (\<lambda>limit.
     abind (int64Query ''cursor'' (lq_cursor q) 0) (\<lambda>cursor.
     abind (internal_of ''list results failed'' (ListResults (f ''ListResults'') (f ''TagsForResults'') d
              (flt\<lparr>f_limit := limit, f_cursor := cursor\<rparr>))) (\<lambda>(rs, next).
       Inr (cursorString next, rs)))))"

definition getResult :: "call_faults \<Rightarrow> int \<Rightarrow> db \<Rightarrow> api_error + tagged_result" where
  "getResult f i d = abind (id_check i) (\<lambda>_.
     store_err ''result'' (GetResult (f ''GetResult'') (f ''TagsForResults'') d i))"

definition deleteResult :: "call_faults \<Rightarrow> int \<Rightarrow> db \<Rightarrow> db \<times> (api_error + unit)" where
  "deleteResult f i d =
     (case id_check i of
        Inl e \<Rightarrow> (d, Inl e)
      | Inr _ \<Rightarrow> after_write (storeErr ''result'') (DeleteResult (f ''DeleteResult'') d i) (\<lambda>_ _. Inr ()))"

definition reexec_request :: "call_faults \<Rightarrow> int \<Rightarrow> db \<Rightarrow> api_error + run_request" where
  "reexec_request f i d =
     abind (getResult f i d) (\<lambda>res.
       case res_target_id res of
         None \<Rightarrow> Inl (BadRequest ''result has no target to re-execute'')
       | Some t \<Rightarrow>
           (case GetTarget (f ''GetTarget'') d t of
              Inl e \<Rightarrow> Inl (if e = ErrNotFound then BadRequest ''target of this result no longer exists'' else Internal ''get target failed'')
            | Inr _ \<Rightarrow> Inr ((run_request_of Reexec [t])\<lparr>rq_snapshots := [t \<mapsto> res_options_snapshot res]\<rparr>)))"

definition reexecuteResult :: "call_faults \<Rightarrow> enqueue_env \<Rightarrow> int \<Rightarrow> runner \<Rightarrow> runner \<times> (api_error + int)" where
  "reexecuteResult f ev i r = enqueue_answer ev (reexec_request f i (r_db r)) r"

text \<open>\<open>utf8.RuneCountInString\<close>: the length of the encoding at the head of a byte string, 1 where the bytes are not UTF-8.\<close>

definition in_bytes :: "nat \<Rightarrow> nat \<Rightarrow> nat list \<Rightarrow> nat \<Rightarrow> bool" where
  "in_bytes lo hi bs i \<longleftrightarrow> i < length bs \<and> lo \<le> bs ! i \<and> bs ! i \<le> hi"

definition rune_size :: "nat list \<Rightarrow> nat" where
  "rune_size bs =
     (let b = bs ! 0;
          lo = (if b = 0xE0 then 0xA0 else if b = 0xF0 then 0x90 else 0x80);
          hi = (if b = 0xED then 0x9F else if b = 0xF4 then 0x8F else 0xBF)
      in if 0xC2 \<le> b \<and> b \<le> 0xDF \<and> in_bytes lo hi bs 1 then 2
         else if 0xE0 \<le> b \<and> b \<le> 0xEF \<and> in_bytes lo hi bs 1 \<and> in_bytes 0x80 0xBF bs 2 then 3
         else if 0xF0 \<le> b \<and> b \<le> 0xF4 \<and> in_bytes lo hi bs 1 \<and> in_bytes 0x80 0xBF bs 2 \<and> in_bytes 0x80 0xBF bs 3 then 4
         else 1)"

lemma rune_size_pos [simp]: "0 < rune_size bs"
  by (simp add: rune_size_def Let_def)

function rune_count :: "nat list \<Rightarrow> nat" where
  "rune_count bs = (if bs = [] then 0 else Suc (rune_count (drop (rune_size bs) bs)))"
  by auto
termination by (relation "measure length") (auto simp: rune_size_def Let_def)

declare rune_count.simps [simp del]

definition RuneCountInString :: "string \<Rightarrow> nat" where
  "RuneCountInString s = rune_count (map of_char s)"

text \<open>The loop of \<open>validTagList\<close>: the distinct names seen so far.\<close>

fun tag_loop :: "string list \<Rightarrow> string list \<Rightarrow> api_error + string list" where
  "tag_loop seen [] = Inr seen"
| "tag_loop seen (t # ts) =
     (let norm = ToLower (TrimSpace t); n = RuneCountInString norm
      in if n < 1 \<or> n > 40 then Inl (BadRequest ''each tag must be 1-40 characters after trimming'')
         else tag_loop (if norm \<in> set seen then seen else seen @ [norm]) ts)"

definition validTagList :: "string list \<Rightarrow> api_error + unit" where
  "validTagList tags = abind (tag_loop [] tags) (\<lambda>seen.
     if length seen > 20 then Inl (BadRequest ''at most 20 tags allowed'') else Inr ())"

definition setResultTags :: "call_faults \<Rightarrow> int \<Rightarrow> string list \<Rightarrow> db \<Rightarrow> db \<times> (api_error + (int \<times> string list))" where
  "setResultTags f i tags d =
     (case abind (id_check i) (\<lambda>_. validTagList tags) of
        Inl e \<Rightarrow> (d, Inl e)
      | Inr _ \<Rightarrow> after_write (storeErr ''result'') (SetResultTags (f ''SetResultTags'') d i tags) (\<lambda>_ ts. Inr (i, ts)))"

subsection \<open>Runs\<close>

definition listRuns :: "call_faults \<Rightarrow> string \<Rightarrow> string \<Rightarrow> string \<Rightarrow> db \<Rightarrow> api_error + (string \<times> run list)" where
  "listRuns f limit_text cursor_text schedule_text d =
     abind (intQuery ''limit'' limit_text 50) (\<lambda>limit.
     abind (int64Query ''cursor'' cursor_text 0) (\<lambda>cursor.
     abind (if schedule_text = [] then Inr None
            else abind (int64Query ''schedule_id'' schedule_text 0) (\<lambda>sid.
                   if sid = 0 then Inl (BadRequest ''schedule_id must be a positive integer'') else Inr (Some sid))) (\<lambda>sid.
     abind (internal_of ''list runs failed'' (ListRuns (f ''ListRuns'') d \<lparr>rf_schedule_id = sid, rf_limit = limit, rf_cursor = cursor\<rparr>))
       (\<lambda>(rs, next). Inr (cursorString next, rs)))))"

definition getRun :: "call_faults \<Rightarrow> int \<Rightarrow> db \<Rightarrow> api_error + run" where
  "getRun f i d = abind (id_check i) (\<lambda>_. store_err ''run'' (GetRun (f ''GetRun'') d i))"

definition createRun :: "enqueue_env \<Rightarrow> int list \<Rightarrow> runner \<Rightarrow> runner \<times> (api_error + int)" where
  "createRun ev ids r = enqueue_answer ev
     (if ids = [] then Inl (BadRequest ''target_ids must contain at least one target'') else Inr (run_request_of Manual ids)) r"

text \<open>\<open>cf\<close>: what the driver answers inside \<open>Cancel\<close>.\<close>

definition cancelRun :: "call_faults \<Rightarrow> fault \<Rightarrow> fault \<times> fault \<Rightarrow> string \<Rightarrow> int \<Rightarrow> runner \<Rightarrow> runner \<times> (api_error + int)" where
  "cancelRun f cf cfs now i r =
     (case getRun f i (r_db r) of
        Inl e \<Rightarrow> (r, Inl e)
      | Inr _ \<Rightarrow> (case Cancel cf cfs now i r of
                    (r', True) \<Rightarrow> (r', Inr i)
                  | (r', False) \<Rightarrow> (r', Inl (Conflict ''run is not in flight''))))"

subsection \<open>Routes and the write guard\<close>

datatype resource_request =
    ListTargetsRq | CreateTargetRq target_body | TestTargetRq target_body | ListDeletedRq | RestoreTargetRq int
  | GetTargetRq int | UpdateTargetRq int target_body | DeleteTargetRq int | RunTargetRq int | LatestRq int
  | ListRevisionsRq int | RevertRq int int
  | ListQueuesRq | CreateQueueRq string | RenameQueueRq int string | DeleteQueueRq int
  | ListTagsRq | RenameTagRq int string | DeleteTagRq int
  | ListResultsRq results_query | GetResultRq int | DeleteResultRq int | ReexecuteRq int | SetTagsRq int "string list"
  | ListRunsRq string string string | GetRunRq int | CreateRunRq "int list" | CancelRunRq int

datatype resource_answer =
    ATarget target | ATargets "target list" | ADeleted "deleted_target list" | AEngine string
  | ARevisions "(revision \<times> string list option) list" | AQueue queue | AQueues "queue list"
  | ATag tag | ATags "tag list" | AResult tagged_result | AResults string "tagged_result list"
  | AResultTags int "string list" | ARun run | ARuns string "run list" | ARunQueued int | ANoContent

text \<open>The method each operation is registered with (\<open>routes_*.go\<close>).\<close>

fun route_method :: "resource_request \<Rightarrow> string" where
  "route_method ListTargetsRq = ''GET''"
| "route_method (CreateTargetRq b) = ''POST''"
| "route_method (TestTargetRq b) = ''POST''"
| "route_method ListDeletedRq = ''GET''"
| "route_method (RestoreTargetRq i) = ''POST''"
| "route_method (GetTargetRq i) = ''GET''"
| "route_method (UpdateTargetRq i b) = ''PUT''"
| "route_method (DeleteTargetRq i) = ''DELETE''"
| "route_method (RunTargetRq i) = ''POST''"
| "route_method (LatestRq i) = ''GET''"
| "route_method (ListRevisionsRq i) = ''GET''"
| "route_method (RevertRq i v) = ''POST''"
| "route_method ListQueuesRq = ''GET''"
| "route_method (CreateQueueRq n) = ''POST''"
| "route_method (RenameQueueRq i n) = ''PUT''"
| "route_method (DeleteQueueRq i) = ''DELETE''"
| "route_method ListTagsRq = ''GET''"
| "route_method (RenameTagRq i n) = ''PUT''"
| "route_method (DeleteTagRq i) = ''DELETE''"
| "route_method (ListResultsRq q) = ''GET''"
| "route_method (GetResultRq i) = ''GET''"
| "route_method (DeleteResultRq i) = ''DELETE''"
| "route_method (ReexecuteRq i) = ''POST''"
| "route_method (SetTagsRq i ts) = ''PUT''"
| "route_method (ListRunsRq l c s) = ''GET''"
| "route_method (GetRunRq i) = ''GET''"
| "route_method (CreateRunRq ids) = ''POST''"
| "route_method (CancelRunRq i) = ''DELETE''"

definition answer_of :: "('a \<Rightarrow> resource_answer) \<Rightarrow> api_error + 'a \<Rightarrow> api_error + resource_answer" where
  "answer_of k x = (case x of Inl e \<Rightarrow> Inl e | Inr a \<Rightarrow> Inr (k a))"

text \<open>A handler that only touches the store leaves the rest of the runner alone.\<close>

definition on_db :: "('a \<Rightarrow> resource_answer) \<Rightarrow> (db \<Rightarrow> db \<times> (api_error + 'a)) \<Rightarrow> runner \<Rightarrow> runner \<times> (api_error + resource_answer)" where
  "on_db k h r = (case h (r_db r) of (d, x) \<Rightarrow> (r\<lparr>r_db := d\<rparr>, answer_of k x))"

definition on_runner :: "('a \<Rightarrow> resource_answer) \<Rightarrow> runner \<times> (api_error + 'a) \<Rightarrow> runner \<times> (api_error + resource_answer)" where
  "on_runner k w = (case w of (r, x) \<Rightarrow> (r, answer_of k x))"

fun route :: "api_deps \<Rightarrow> api_env \<Rightarrow> resource_request \<Rightarrow> runner \<Rightarrow> runner \<times> (api_error + resource_answer)" where
  "route dp ev ListTargetsRq r = (r, answer_of ATargets (listTargets (ae_faults ev) (r_db r)))"
| "route dp ev (CreateTargetRq b) r = on_db ATarget (createTarget dp (ae_faults ev) (ae_now ev) b) r"
| "route dp ev (TestTargetRq b) r = (r, answer_of AEngine (testTarget dp (ae_faults ev) b (r_db r)))"
| "route dp ev ListDeletedRq r = (r, answer_of ADeleted (listDeletedTargets (ae_faults ev) (r_db r)))"
| "route dp ev (RestoreTargetRq i) r = on_db ATarget (restoreDeletedTarget (ae_faults ev) (ae_now ev) i) r"
| "route dp ev (GetTargetRq i) r = (r, answer_of ATarget (getTarget (ae_faults ev) i (r_db r)))"
| "route dp ev (UpdateTargetRq i b) r = on_db ATarget (updateTarget dp (ae_faults ev) (ae_now ev) i b) r"
| "route dp ev (DeleteTargetRq i) r = on_db (\<lambda>_. ANoContent) (deleteTarget (ae_faults ev) (ae_now ev) i) r"
| "route dp ev (RunTargetRq i) r = on_runner ARunQueued (runTarget_api (ae_faults ev) (ae_enqueue ev) i r)"
| "route dp ev (LatestRq i) r = (r, answer_of AResult (targetLatest (ae_faults ev) i (r_db r)))"
| "route dp ev (ListRevisionsRq i) r = (r, answer_of ARevisions (listTargetRevisions (ae_faults ev) i (r_db r)))"
| "route dp ev (RevertRq i v) r = on_db ATarget (revertTargetRevision dp (ae_faults ev) (ae_now ev) i v) r"
| "route dp ev ListQueuesRq r = (r, answer_of AQueues (listQueues (ae_faults ev) (r_db r)))"
| "route dp ev (CreateQueueRq n) r = on_db AQueue (createQueue (ae_faults ev) (ae_now ev) n) r"
| "route dp ev (RenameQueueRq i n) r = on_db AQueue (updateQueue (ae_faults ev) i n) r"
| "route dp ev (DeleteQueueRq i) r = on_db (\<lambda>_. ANoContent) (deleteQueue (ae_faults ev) i) r"
| "route dp ev ListTagsRq r = (r, answer_of ATags (listTags (ae_faults ev) (r_db r)))"
| "route dp ev (RenameTagRq i n) r = on_db ATag (renameTag (ae_faults ev) i n) r"
| "route dp ev (DeleteTagRq i) r = on_db (\<lambda>_. ANoContent) (deleteTag (ae_faults ev) i) r"
| "route dp ev (ListResultsRq q) r = (r, answer_of (\<lambda>(c, rs). AResults c rs) (listResults (ae_faults ev) q (r_db r)))"
| "route dp ev (GetResultRq i) r = (r, answer_of AResult (getResult (ae_faults ev) i (r_db r)))"
| "route dp ev (DeleteResultRq i) r = on_db (\<lambda>_. ANoContent) (deleteResult (ae_faults ev) i) r"
| "route dp ev (ReexecuteRq i) r = on_runner ARunQueued (reexecuteResult (ae_faults ev) (ae_enqueue ev) i r)"
| "route dp ev (SetTagsRq i ts) r = on_db (\<lambda>(i, ts). AResultTags i ts) (setResultTags (ae_faults ev) i ts) r"
| "route dp ev (ListRunsRq l c s) r = (r, answer_of (\<lambda>(c, rs). ARuns c rs) (listRuns (ae_faults ev) l c s (r_db r)))"
| "route dp ev (GetRunRq i) r = (r, answer_of ARun (getRun (ae_faults ev) i (r_db r)))"
| "route dp ev (CreateRunRq ids) r = on_runner ARunQueued (createRun (ae_enqueue ev) ids r)"
| "route dp ev (CancelRunRq i) r =
     on_runner ARunQueued (cancelRun (ae_faults ev) (ae_faults ev ''Cancel'') (ae_cancel ev) (ae_now ev) i r)"

text \<open>\<open>writeGuard\<close>: the identity is the one the authentication middleware left in the context.\<close>

definition writeGuard :: "identity \<Rightarrow> string \<Rightarrow> ('w \<Rightarrow> 'w \<times> (api_error + 'a)) \<Rightarrow> 'w \<Rightarrow> 'w \<times> (api_error + 'a)" where
  "writeGuard ident mth next w =
     (if mth \<in> {''GET'', ''HEAD'', ''OPTIONS''} then next w
      else if id_mode ident \<noteq> [] \<and> \<not> id_is_admin ident then (w, Inl (Forbidden ''admin group required''))
      else next w)"

definition serve_resource ::
  "api_deps \<Rightarrow> api_env \<Rightarrow> identity \<Rightarrow> resource_request \<Rightarrow> runner \<Rightarrow> runner \<times> (api_error + resource_answer)" where
  "serve_resource dp ev ident rq r = writeGuard ident (route_method rq) (route dp ev rq) r"

end
