(* ===== verification/Schedule_Api.thy ===== *)
theory Schedule_Api
  imports Resource_Api Scheduler
begin

text \<open>
  The schedule handlers, \<open>internal/api/schedules.go\<close>: validation, saving followed by a reload of the scheduler, the
  next fire times and the overlap warnings. The state of a handler is the runner with its store and the scheduler with its cron.
\<close>

subsection \<open>What a handler is given\<close>

type_synonym 'c sched_state = "runner \<times> 'c scheduler"

text \<open>\<open>sd_reload\<close> is false where \<open>Deps.ReloadSchedules\<close> is nil, \<open>sd_scheduler\<close> where \<open>Deps.Scheduler\<close> is.\<close>

record 'c sched_deps =
  sd_cron :: cron_lib
  sd_api :: "'c cron_api"
  sd_reload :: bool
  sd_scheduler :: bool

text \<open>The answers of the driver: to the calls of the handler itself, to \<open>ListSchedules\<close> inside the reload, and to
  the reads for the overlap warnings; the clock as a time and as the text the store writes; and what \<open>Stop\<close> did during the reload.\<close>

record 'c sched_env =
  se_faults :: call_faults
  se_reload :: "fault \<times> fault \<times> fault"
  se_overlap :: call_faults
  se_now :: time
  se_now_text :: string
  se_during :: "'c scheduler \<Rightarrow> 'c scheduler"
  se_enqueue :: enqueue_env

definition nextRunCount :: nat where
  "nextRunCount = 5"

record schedule_body =
  sb_name :: string
  sb_cron :: string
  sb_enabled :: bool
  sb_timezone :: string
  sb_target_ids :: "int list"

record schedule_view = schedule +
  sv_next_run :: string

subsection \<open>Views\<close>

definition viewSchedule :: "'c sched_deps \<Rightarrow> 'c scheduler \<Rightarrow> schedule \<Rightarrow> time \<Rightarrow> schedule_view" where
  "viewSchedule dp s sc now = schedule.extend sc \<lparr>sv_next_run =
     (if \<not> s_enabled sc then ''''
      else case (if sd_scheduler dp then Next (sd_api dp) s (s_id sc) else None) of
             Some tm \<Rightarrow> Format_RFC3339 tm
           | None \<Rightarrow>
               (case NextFireTimes (sd_cron dp) (s_cron sc) (s_timezone sc) 1 now of
                  Inr (tm # _) \<Rightarrow> Format_RFC3339 tm
                | _ \<Rightarrow> ''''))\<rparr>"

definition formatTimes :: "time list \<Rightarrow> string list" where
  "formatTimes ts = map Format_RFC3339 ts"

subsection \<open>Validation\<close>

definition validateSchedule :: "cron_lib \<Rightarrow> fault \<Rightarrow> db \<Rightarrow> schedule_body \<Rightarrow> api_error + schedule_body" where
  "validateSchedule lib flt d b =
     (let name = TrimSpace (sb_name b); cron = TrimSpace (sb_cron b);
          tz = (if TrimSpace (sb_timezone b) = [] then ''UTC'' else sb_timezone b)
      in if name = [] then Inl (BadRequest ''name is required'')
         else case ValidateCron lib cron of
                Some e \<Rightarrow> Inl (BadRequest e)
              | None \<Rightarrow>
                  if cl_location lib tz \<noteq> None then Inl (BadRequest (''unknown timezone '' @ tz))
                  else if sb_target_ids b = [] then Inl (BadRequest ''target_ids must contain at least one target'')
                  else if \<not> distinct (sb_target_ids b) then Inl (BadRequest ''target_ids contains duplicates'')
                  else abind (internal_of ''load targets failed'' (ListTargetsByIDs flt d (sb_target_ids b))) (\<lambda>found.
                         if length found \<noteq> length (sb_target_ids b)
                         then Inl (BadRequest ''target_ids contains an unknown target'')
                         else Inr (b\<lparr>sb_name := name, sb_cron := cron, sb_timezone := tz\<rparr>)))"

definition scheduleStoreErr :: "store_error \<Rightarrow> api_error" where
  "scheduleStoreErr e =
     (if e = ErrNameConflict then Conflict ''a schedule with that name already exists'' else storeErr ''schedule'' e)"

definition body_schedule :: "int \<Rightarrow> schedule_body \<Rightarrow> schedule" where
  "body_schedule i b = \<lparr>s_id = i, s_name = sb_name b, s_cron = sb_cron b, s_enabled = sb_enabled b,
     s_timezone = sb_timezone b, s_created_at = '''', s_updated_at = '''', s_target_ids = sb_target_ids b, s_last_run = None\<rparr>"

subsection \<open>Reading\<close>

definition schedule_res :: "'a res \<Rightarrow> api_error + 'a" where
  "schedule_res r = (case r of Inl e \<Rightarrow> Inl (scheduleStoreErr e) | Inr x \<Rightarrow> Inr x)"

definition read_schedule :: "call_faults \<Rightarrow> db \<Rightarrow> int \<Rightarrow> api_error + schedule" where
  "read_schedule f d i = schedule_res
     (GetSchedule (f ''GetSchedule'') (f ''attachScheduleTargets'') (f ''attachLastRuns'') d i)"

definition listSchedules :: "'c sched_deps \<Rightarrow> 'c sched_env \<Rightarrow> 'c sched_state \<Rightarrow> api_error + schedule_view list" where
  "listSchedules dp ev w =
     abind (internal_of ''list schedules failed'' (ListSchedules (se_faults ev ''ListSchedules'')
              (se_faults ev ''attachScheduleTargets'') (se_faults ev ''attachLastRuns'') (r_db (fst w)))) (\<lambda>scs.
       Inr (map (\<lambda>sc. viewSchedule dp (snd w) sc (se_now ev)) scs))"

definition getSchedule :: "'c sched_deps \<Rightarrow> 'c sched_env \<Rightarrow> int \<Rightarrow> 'c sched_state \<Rightarrow> api_error + schedule_view" where
  "getSchedule dp ev i w = abind (id_check i) (\<lambda>_. abind (read_schedule (se_faults ev) (r_db (fst w)) i) (\<lambda>sc.
     Inr (viewSchedule dp (snd w) sc (se_now ev))))"

definition validateCron :: "cron_lib \<Rightarrow> time \<Rightarrow> string \<Rightarrow> string \<Rightarrow> api_error + string list" where
  "validateCron lib now cron tz =
     (case NextFireTimes lib (TrimSpace cron) tz nextRunCount now of
        Inl e \<Rightarrow> Inl (BadRequest e) | Inr ts \<Rightarrow> Inr (formatTimes ts))"

definition scheduleNext :: "'c sched_deps \<Rightarrow> 'c sched_env \<Rightarrow> int \<Rightarrow> 'c sched_state \<Rightarrow> api_error + string list" where
  "scheduleNext dp ev i w =
     abind (id_check i) (\<lambda>_. abind (read_schedule (se_faults ev) (r_db (fst w)) i) (\<lambda>sc.
       if \<not> s_enabled sc then Inr []
       else case NextFireTimes (sd_cron dp) (s_cron sc) (s_timezone sc) nextRunCount (se_now ev) of
              Inl e \<Rightarrow> Inl (BadRequest e) | Inr ts \<Rightarrow> Inr (formatTimes ts)))"

subsection \<open>Overlap warnings\<close>

definition queue_names_of :: "target list \<Rightarrow> int \<rightharpoonup> string" where
  "queue_names_of ts = foldl (\<lambda>m t. m(t_id t \<mapsto> t_queue_name t)) Map.empty ts"

fun queues_loop :: "(int \<rightharpoonup> string) \<Rightarrow> string list \<Rightarrow> int list \<Rightarrow> string list" where
  "queues_loop queueOf queues [] = queues"
| "queues_loop queueOf queues (t # ts) =
     (case queueOf t of
        Some q \<Rightarrow> queues_loop queueOf (if q \<in> set queues then queues else queues @ [q]) ts
      | None \<Rightarrow> queues_loop queueOf queues ts)"

definition candidate :: "(int \<rightharpoonup> string) \<Rightarrow> schedule \<Rightarrow> overlap_candidate" where
  "candidate queueOf s = \<lparr>oc_id = s_id s, oc_name = s_name s, oc_cron = s_cron s, oc_timezone = s_timezone s,
     oc_queues = queues_loop queueOf [] (s_target_ids s)\<rparr>"

definition overlapWarnings :: "cron_lib \<Rightarrow> call_faults \<Rightarrow> time \<Rightarrow> db \<Rightarrow> schedule \<Rightarrow> string list" where
  "overlapWarnings lib f now d sc =
     (if \<not> s_enabled sc then []
      else case ListSchedules (f ''ListSchedules'') (f ''attachScheduleTargets'') (f ''attachLastRuns'') d of
             Inl _ \<Rightarrow> []
           | Inr scs \<Rightarrow>
               (case ListTargets (f ''ListTargets'') d of
                  Inl _ \<Rightarrow> []
                | Inr ts \<Rightarrow>
                    FindOverlaps lib (candidate (queue_names_of ts) sc)
                      (map (candidate (queue_names_of ts)) (filter (\<lambda>x. \<not> (s_id x = s_id sc \<or> \<not> s_enabled x)) scs)) now))"

subsection \<open>Saving\<close>

definition reloadSchedules :: "'c sched_deps \<Rightarrow> 'c sched_env \<Rightarrow> 'c sched_state \<Rightarrow> 'c sched_state" where
  "reloadSchedules dp ev w =
     (if \<not> sd_reload dp then w
      else case se_reload ev of (f1, f2, f3) \<Rightarrow>
        (fst w, fst (Reload (sd_cron dp) (sd_api dp) f1 f2 f3 (r_db (fst w)) (se_during ev) (snd w))))"

definition respondSchedule :: "'c sched_deps \<Rightarrow> 'c sched_env \<Rightarrow> int \<Rightarrow> 'c sched_state \<Rightarrow> api_error + schedule_view \<times> string list" where
  "respondSchedule dp ev i w =
     abind (read_schedule (se_faults ev) (r_db (fst w)) i) (\<lambda>saved.
       Inr (viewSchedule dp (snd w) saved (se_now ev),
            overlapWarnings (sd_cron dp) (se_overlap ev) (se_now ev) (r_db (fst w)) saved))"

definition set_db :: "db \<Rightarrow> 'c sched_state \<Rightarrow> 'c sched_state" where
  "set_db d w = ((fst w)\<lparr>r_db := d\<rparr>, snd w)"

definition createSchedule ::
  "'c sched_deps \<Rightarrow> 'c sched_env \<Rightarrow> schedule_body \<Rightarrow> 'c sched_state \<Rightarrow> 'c sched_state \<times> (api_error + schedule_view \<times> string list)" where
  "createSchedule dp ev body w =
     (case validateSchedule (sd_cron dp) (se_faults ev ''ListTargetsByIDs'') (r_db (fst w)) body of
        Inl e \<Rightarrow> (w, Inl e)
      | Inr b \<Rightarrow>
          (case CreateSchedule (se_faults ev ''CreateSchedule'') (se_now_text ev) (r_db (fst w)) (body_schedule 0 b) of
             (d, Inl e) \<Rightarrow> (set_db d w, Inl (scheduleStoreErr e))
           | (d, Inr i) \<Rightarrow> (let w' = reloadSchedules dp ev (set_db d w) in (w', respondSchedule dp ev i w'))))"

definition updateSchedule ::
  "'c sched_deps \<Rightarrow> 'c sched_env \<Rightarrow> int \<Rightarrow> schedule_body \<Rightarrow> 'c sched_state \<Rightarrow>
   'c sched_state \<times> (api_error + schedule_view \<times> string list)" where
  "updateSchedule dp ev i body w =
     (case abind (id_check i) (\<lambda>_. validateSchedule (sd_cron dp) (se_faults ev ''ListTargetsByIDs'') (r_db (fst w)) body) of
        Inl e \<Rightarrow> (w, Inl e)
      | Inr b \<Rightarrow>
          (case UpdateSchedule (se_faults ev ''UpdateSchedule'') (se_now_text ev) (r_db (fst w)) (body_schedule i b) of
             (d, Inl e) \<Rightarrow> (set_db d w, Inl (scheduleStoreErr e))
           | (d, Inr _) \<Rightarrow> (let w' = reloadSchedules dp ev (set_db d w) in (w', respondSchedule dp ev i w'))))"

definition deleteSchedule :: "'c sched_deps \<Rightarrow> 'c sched_env \<Rightarrow> int \<Rightarrow> 'c sched_state \<Rightarrow> 'c sched_state \<times> (api_error + unit)" where
  "deleteSchedule dp ev i w =
     (case id_check i of
        Inl e \<Rightarrow> (w, Inl e)
      | Inr _ \<Rightarrow>
          (case DeleteSchedule (se_faults ev ''DeleteSchedule'') (r_db (fst w)) i of
             (d, Inl e) \<Rightarrow> (set_db d w, Inl (scheduleStoreErr e))
           | (d, Inr _) \<Rightarrow> (reloadSchedules dp ev (set_db d w), Inr ())))"

definition runSchedule :: "'c sched_env \<Rightarrow> int \<Rightarrow> 'c sched_state \<Rightarrow> 'c sched_state \<times> (api_error + int)" where
  "runSchedule ev i w =
     (let rq = abind (id_check i) (\<lambda>_. abind (read_schedule (se_faults ev) (r_db (fst w)) i) (\<lambda>sc.
                 Inr \<lparr>rq_trigger = Manual, rq_schedule_id = Some (s_id sc), rq_target_ids = s_target_ids sc,
                      rq_snapshots = Map.empty\<rparr>));
          (r', x) = enqueue_answer (se_enqueue ev) rq (fst w)
      in ((r', snd w), x))"

end
