(* ===== verification/Resource_Props.thy ===== *)
theory Resource_Props
  imports Resource_Api Target_Props Runner_Seq
begin

text \<open>
  What the resource handlers keep: every stored target passed the validation of its engine, whatever sequence of requests
  led there, a request without admin rights changes nothing, and the tags of a result are the ones last set.
\<close>

subsection \<open>Stored targets are valid\<close>

definition fields_valid :: "api_deps \<Rightarrow> string \<Rightarrow> string \<Rightarrow> raw \<Rightarrow> raw \<Rightarrow> bool" where
  "fields_valid dp name eng opts thr \<longleftrightarrow>
     name \<noteq> [] \<and> check_engine dp eng opts = Inr () \<and> check_thresholds dp thr = Inr ()"

text \<open>The tables: every row of \<open>targets\<close> is valid, and so is the target of every revision snapshot.\<close>

definition rows_valid :: "api_deps \<Rightarrow> db \<Rightarrow> bool" where
  "rows_valid dp d \<longleftrightarrow>
     (\<forall>r\<in>set (rows (targets_t d)). fields_valid dp (t_name r) (t_engine r) (t_options r) (t_thresholds r))"

definition snapshots_valid :: "api_deps \<Rightarrow> db \<Rightarrow> bool" where
  "snapshots_valid dp d \<longleftrightarrow>
     (\<forall>v\<in>set (rows (revisions_t d)). \<exists>t j. rev_snapshot v = RawDoc j \<and> marshalTarget t = Some j \<and>
        fields_valid dp (t_name t) (t_engine t) (t_options t) (t_thresholds t))"

definition tables_valid :: "api_deps \<Rightarrow> db \<Rightarrow> bool" where
  "tables_valid dp d \<longleftrightarrow> tq_ok d \<and> rows_valid dp d \<and> snapshots_valid dp d"

lemma bind_Inr_iff: "abind x f = Inr y \<longleftrightarrow> (\<exists>z. x = Inr z \<and> f z = Inr y)"
  by (cases x) (auto simp: abind_def)

lemma default_doc_nonempty: "default_doc m \<noteq> RawEmpty"
  by (simp add: default_doc_def)

lemma rawOrEmpty_id: "m \<noteq> RawEmpty \<Longrightarrow> rawOrEmpty m = m"
  by (cases m) auto

lemma validateTarget_ok:
  assumes "validateTarget dp f d body = Inr b"
  shows "fields_valid dp (tb_name b) (tb_engine b) (tb_options b) (tb_thresholds b) \<and>
    rawOrEmpty (tb_options b) = tb_options b \<and> rawOrEmpty (tb_thresholds b) = tb_thresholds b"
  using assms default_doc_nonempty
  by (auto simp: validateTarget_def Let_def bind_Inr_iff fields_valid_def rawOrEmpty_id split: if_splits)

lemma insertRevision_snapshots:
  assumes "insertRevision now d i act t = Some d'" "snapshots_valid dp d"
    "fields_valid dp (t_name t) (t_engine t) (t_options t) (t_thresholds t)"
  shows "snapshots_valid dp d'"
proof -
  obtain j where j: "marshalTarget t = Some j" using assms(1) by (auto simp: insertRevision_def split: option.splits)
  then have d': "set (rows (revisions_t d')) \<subseteq> insert \<lparr>rev_id = seq (revisions_t d) + 1, rev_target_id = i,
      rev_version = max_version d i + 1, rev_action = act, rev_snapshot = RawDoc j, rev_created_at = now\<rparr> (set (rows (revisions_t d)))"
    using assms(1) by (auto simp: insertRevision_def Let_def delete_where_def split: if_splits)
  show ?thesis unfolding snapshots_valid_def
  proof
    fix v assume "v \<in> set (rows (revisions_t d'))"
    with d' have "v \<in> set (rows (revisions_t d)) \<or> rev_snapshot v = RawDoc j" by auto
    then show "\<exists>t j. rev_snapshot v = RawDoc j \<and> marshalTarget t = Some j \<and>
        fields_valid dp (t_name t) (t_engine t) (t_options t) (t_thresholds t)"
      using assms(2,3) j unfolding snapshots_valid_def by blast
  qed
qed

text \<open>What a transaction that writes a revision of a stored target last does to the tables.\<close>

lemma valid_revision:
  assumes "insertRevision now d1 i act t = Some d2" "rows_valid dp d1" "snapshots_valid dp d1"
    "fields_valid dp (t_name t) (t_engine t) (t_options t) (t_thresholds t)"
  shows "rows_valid dp d2 \<and> snapshots_valid dp d2"
  using insertRevision_snapshots [OF assms(1,3,4)] insertRevision_frame [OF assms(1)] assms(2)
  by (simp add: rows_valid_def)

lemma selected_valid:
  assumes "select_target d i = Some t" "rows_valid dp d"
  shows "fields_valid dp (t_name t) (t_engine t) (t_options t) (t_thresholds t)"
  using select_target_Some [OF assms(1)] scanTarget_sel assms(2) unfolding rows_valid_def by metis

lemma snapshots_valid_cong: "revisions_t d' = revisions_t d \<Longrightarrow> snapshots_valid dp d' = snapshots_valid dp d"
  by (simp add: snapshots_valid_def)

lemma valid_CreateTarget:
  assumes "tables_valid dp d" "fields_valid dp (t_name t) (t_engine t) (t_options t) (t_thresholds t)"
    "rawOrEmpty (t_options t) = t_options t" "rawOrEmpty (t_thresholds t) = t_thresholds t"
  shows "tables_valid dp (fst (CreateTarget flt now d t))"
proof (cases "fst (CreateTarget flt now d t) = d")
  case False
  let ?d1 = "d\<lparr>targets_t := insert_row
                     (\<lambda>k. \<lparr>t_id = k, t_name = t_name t, t_engine = t_engine t, t_enabled = t_enabled t,
                           t_queue_id = t_queue_id t, t_options = rawOrEmpty (t_options t),
                           t_thresholds = rawOrEmpty (t_thresholds t), t_rotation_index = 0,
                           t_created_at = now, t_updated_at = now\<rparr>) (targets_t d)\<rparr>"
  from False obtain i c d2 where c: "select_target ?d1 i = Some c" and ins: "insertRevision now ?d1 i Database.ACreate c = Some d2"
    and d2: "fst (CreateTarget flt now d t) = d2"
    by (auto simp: CreateTarget_def Let_def split: option.splits)
  have r: "rows_valid dp ?d1" using assms by (auto simp: tables_valid_def rows_valid_def)
  have s: "snapshots_valid dp ?d1" using assms(1) snapshots_valid_cong [of ?d1 d] by (simp add: tables_valid_def)
  from valid_revision [OF ins r s selected_valid [OF c r]] d2 tq_ok_CreateTarget [of d flt now t] assms(1)
  show ?thesis by (simp add: tables_valid_def)
qed (use assms in simp)

lemma valid_updateTarget:
  assumes "tables_valid dp d" "fields_valid dp (t_name t) (t_engine t) (t_options t) (t_thresholds t)"
    "rawOrEmpty (t_options t) = t_options t" "rawOrEmpty (t_thresholds t) = t_thresholds t"
  shows "tables_valid dp (fst (updateTargetWithAction flt now d t act))"
proof (cases "fst (updateTargetWithAction flt now d t act) = d")
  case False
  let ?d1 = "d\<lparr>targets_t := map_rows (update_where (\<lambda>r. t_id r = t_id t) (set_target now t)) (targets_t d)\<rparr>"
  from False obtain c d2 where c: "select_target ?d1 (t_id t) = Some c"
    and ins: "insertRevision now ?d1 (t_id t) act c = Some d2"
    and d2: "fst (updateTargetWithAction flt now d t act) = d2"
    by (auto simp: updateTargetWithAction_def Let_def split: option.splits if_splits)
  have r: "rows_valid dp ?d1"
    using assms by (auto simp: tables_valid_def rows_valid_def set_update_where set_target_def)
  have s: "snapshots_valid dp ?d1" using assms(1) snapshots_valid_cong [of ?d1 d] by (simp add: tables_valid_def)
  from valid_revision [OF ins r s selected_valid [OF c r]] d2 tq_ok_updateTarget [of d flt now t act] assms(1)
  show ?thesis by (simp add: tables_valid_def)
qed (use assms in simp)

lemma valid_DeleteTarget:
  assumes "tables_valid dp d"
  shows "tables_valid dp (fst (DeleteTarget flt now d i))"
proof (cases "fst (DeleteTarget flt now d i) = d")
  case False
  from False obtain c d2 where c: "select_target d i = Some c"
    and ins: "insertRevision now (delete_target_row d i) i Database.ADelete c = Some d2"
    and d2: "fst (DeleteTarget flt now d i) = d2"
    by (auto simp: DeleteTarget_def Let_def split: option.splits if_splits)
  from assms have v: "rows_valid dp d" "snapshots_valid dp d" by (simp_all add: tables_valid_def)
  have r: "rows_valid dp (delete_target_row d i)"
    using v(1) by (auto simp: rows_valid_def delete_target_row_def delete_where_def)
  have s: "snapshots_valid dp (delete_target_row d i)"
    using v(2) snapshots_valid_cong [of "delete_target_row d i" d] by (simp add: delete_target_row_def)
  from valid_revision [OF ins r s selected_valid [OF c v(1)]] d2 tq_ok_DeleteTarget [of d flt now i] assms
  show ?thesis by (simp add: tables_valid_def)
qed (use assms in simp)

lemma unmarshal_fields:
  assumes "marshalTarget t = Some j" "unmarshalTarget (RawDoc j) = Some t'"
  shows "t_name t' = t_name t \<and> t_engine t' = t_engine t \<and> t_options t' = t_options t \<and> t_thresholds t' = t_thresholds t"
proof -
  obtain opts thr where doc: "t_options t = RawDoc opts" "t_thresholds t = RawDoc thr"
    using assms(1) by (auto simp: marshalTarget_def split: raw.splits)
  show ?thesis
    using assms doc
    by (auto simp: marshalTarget_def unmarshalTarget_def dec_scalar_def dec_raw_def field_vals_def
        EqualFold_def ToLower_fields split: option.splits if_splits)
qed

lemma deleted_snapshot_valid:
  assumes "LatestDeletedSnapshot flt d i = Inr t" "snapshots_valid dp d"
  shows "fields_valid dp (t_name t) (t_engine t) (t_options t) (t_thresholds t) \<and>
    rawOrEmpty (t_options t) = t_options t \<and> rawOrEmpty (t_thresholds t) = t_thresholds t"
proof -
  obtain v u q where v: "latest_delete d i = Some v" and u: "unmarshalTarget (rev_snapshot v) = Some u"
    and t: "t = u\<lparr>t_queue_id := q\<rparr>"
    using assms(1) by (auto simp: LatestDeletedSnapshot_def split: option.splits sum.splits)
  from v have "v \<in> set (rows (revisions_t d))"
    by (auto simp: latest_delete_def split: if_splits dest!: find_SomeD)
  then obtain s j where s: "rev_snapshot v = RawDoc j" "marshalTarget s = Some j"
    "fields_valid dp (t_name s) (t_engine s) (t_options s) (t_thresholds s)"
    using assms(2) unfolding snapshots_valid_def by blast
  have "t_options s \<noteq> RawEmpty" "t_thresholds s \<noteq> RawEmpty" using s(2) by (auto simp: marshalTarget_def split: raw.splits)
  with unmarshal_fields [OF s(2)] u s t show ?thesis by (simp add: rawOrEmpty_id)
qed

lemma valid_RestoreTarget:
  assumes "tables_valid dp d" "fields_valid dp (t_name t) (t_engine t) (t_options t) (t_thresholds t)"
    "rawOrEmpty (t_options t) = t_options t" "rawOrEmpty (t_thresholds t) = t_thresholds t"
  shows "tables_valid dp (fst (RestoreTarget flt now d t))"
proof (cases "fst (RestoreTarget flt now d t) = d")
  case False
  let ?row = "\<lparr>t_id = t_id t, t_name = t_name t, t_engine = t_engine t, t_enabled = t_enabled t,
     t_queue_id = t_queue_id t, t_options = rawOrEmpty (t_options t), t_thresholds = rawOrEmpty (t_thresholds t),
     t_rotation_index = 0, t_created_at = t_created_at t, t_updated_at = now\<rparr>"
  let ?d1 = "d\<lparr>targets_t := \<lparr>rows = rows (targets_t d) @ [?row], seq = max (seq (targets_t d)) (t_id t)\<rparr>\<rparr>"
  from False obtain c d2 where c: "select_target ?d1 (t_id t) = Some c"
    and ins: "insertRevision now ?d1 (t_id t) Database.ARestore c = Some d2"
    and d2: "fst (RestoreTarget flt now d t) = d2"
    by (auto simp: RestoreTarget_def Let_def split: option.splits if_splits)
  have r: "rows_valid dp ?d1" using assms by (auto simp: tables_valid_def rows_valid_def)
  have s: "snapshots_valid dp ?d1" using assms(1) snapshots_valid_cong [of ?d1 d] by (simp add: tables_valid_def)
  from valid_revision [OF ins r s selected_valid [OF c r]] d2 tq_ok_RestoreTarget [of d flt now t] assms(1)
  show ?thesis by (simp add: tables_valid_def)
qed (use assms in simp)

subsection \<open>The handlers\<close>

lemma validate_write_valid:
  assumes "validateTarget dp f d body = Inr b" "tables_valid dp d"
  shows "tables_valid dp (fst (CreateTarget flt now d (body_target i b)))"
    "tables_valid dp (fst (updateTargetWithAction flt now d (body_target i b) act))"
  using validateTarget_ok [OF assms(1)] valid_CreateTarget [OF assms(2), of "body_target i b"]
    valid_updateTarget [OF assms(2), of "body_target i b"]
  by (simp_all add: body_target_def)

lemma fst_after_write [simp]: "fst (after_write err w k) = fst w"
  by (auto simp: after_write_def split: prod.splits sum.splits)

lemma valid_createTarget: "tables_valid dp d \<Longrightarrow> tables_valid dp (fst (createTarget dp f now body d))"
  using validate_write_valid(1) by (auto simp: createTarget_def split: sum.splits)

lemma valid_updateTarget_api: "tables_valid dp d \<Longrightarrow> tables_valid dp (fst (updateTarget dp f now i body d))"
  using validate_write_valid(2) by (auto simp: updateTarget_def UpdateTarget_def bind_Inr_iff split: sum.splits)

lemma valid_deleteTarget_api: "tables_valid dp d \<Longrightarrow> tables_valid dp (fst (deleteTarget f now i d))"
  using valid_DeleteTarget by (auto simp: deleteTarget_def split: sum.splits)

lemma valid_revert: "tables_valid dp d \<Longrightarrow> tables_valid dp (fst (revertTargetRevision dp f now i v d))"
proof (cases "revert_checked dp f i v d")
  case (Inr b)
  assume d: "tables_valid dp d"
  from Inr obtain body where "validateTarget dp f d body = Inr b"
    by (auto simp: revert_checked_def bind_Inr_iff split: if_splits option.splits)
  from validate_write_valid(2) [OF this d] Inr show ?thesis
    by (simp add: revertTargetRevision_def RevertTarget_def)
qed (simp add: revertTargetRevision_def)

lemma store_err_Inr: "store_err what r = Inr x \<longleftrightarrow> r = Inr x"
  by (auto simp: store_err_def split: sum.splits)

lemma valid_restore: "tables_valid dp d \<Longrightarrow> tables_valid dp (fst (restoreDeletedTarget f now i d))"
proof (cases "abind (id_check i) (\<lambda>_. store_err ''deleted target'' (LatestDeletedSnapshot (f ''LatestDeletedSnapshot'') d i))")
  case (Inr t)
  assume d: "tables_valid dp d"
  then have s: "snapshots_valid dp d" by (simp add: tables_valid_def)
  from Inr have "LatestDeletedSnapshot (f ''LatestDeletedSnapshot'') d i = Inr t"
    by (auto simp: bind_Inr_iff store_err_Inr)
  note v = deleted_snapshot_valid [OF this s]
  from valid_RestoreTarget [OF d] v have "tables_valid dp (fst (RestoreTarget (f ''RestoreTarget'') now d t))" by blast
  then show ?thesis by (simp only: restoreDeletedTarget_def Inr sum.case fst_after_write)
qed (simp add: restoreDeletedTarget_def)

text \<open>Everything that leaves the three tables alone.\<close>

definition same_tables :: "db \<Rightarrow> db \<Rightarrow> bool" where
  "same_tables d d' \<longleftrightarrow> targets_t d' = targets_t d \<and> revisions_t d' = revisions_t d \<and> queues_t d' = queues_t d"

lemma same_tables_valid:
  assumes "same_tables d d'" "tables_valid dp d"
  shows "tables_valid dp d'"
proof -
  have "tq_ok d'"
    using assms tq_ok_frame [of d d'] queues_ok_frame [of d' d]
    by (simp add: same_tables_def tables_valid_def tq_ok_def)
  with assms show ?thesis by (simp add: same_tables_def tables_valid_def rows_valid_def snapshots_valid_def)
qed

lemma valid_queue_ops:
  assumes "tables_valid dp d"
  shows "tables_valid dp (fst (CreateQueue flt now d n))" "tables_valid dp (fst (RenameQueue flt d i n))"
    "tables_valid dp (fst (DeleteQueue flt d i))"
  using assms tq_ok_queue_ops [of d]
  by (simp_all add: tables_valid_def rows_valid_def snapshots_valid_def queue_ops_frame)

lemma fold_attach_tag_same: "same_tables d (fold (attach_tag rid) want d)"
proof (induction want arbitrary: d)
  case (Cons n want)
  have "same_tables d (attach_tag rid n d)"
    by (simp add: same_tables_def attach_tag_def ensure_tag_def Let_def)
  with Cons.IH [of "attach_tag rid n d"] show ?case by (simp add: same_tables_def)
qed (simp add: same_tables_def)

lemma same_tables_writes:
  "same_tables d (fst (RenameTag flt d i n))" "same_tables d (fst (DeleteTag flt d i))"
  "same_tables d (fst (DeleteResult flt d i))"
  by (auto simp: same_tables_def RenameTag_def DeleteTag_def DeleteResult_def delete_results_def Let_def
      split: option.splits list.splits)

lemma SetResultTags_same: "same_tables d (fst (SetResultTags flt d i ts))"
  using fold_attach_tag_same [of "d\<lparr>result_tags_t := filter (\<lambda>(r, t). r \<noteq> i) (result_tags_t d)\<rparr>" i "normaliseTagNames ts"]
  by (simp add: same_tables_def SetResultTags_def Let_def split: option.split)

lemma SetRunStatus_same: "same_tables d (fst (SetRunStatus flt now d i st msg))"
  by (simp add: SetRunStatus_def same_tables_def Let_def split: option.split sum.split)

lemma status_attempt_same: "same_tables d (fst (status_attempt hook flt now i st msg attempt err d))"
proof -
  obtain d' x where "SetRunStatus flt now d i st msg = (d', x)" by (meson surj_pair)
  moreover have "same_tables d d" by (simp add: same_tables_def)
  ultimately show ?thesis using SetRunStatus_same [of d flt now i st msg]
    by (simp add: status_attempt_def Let_def split: option.split sum.split)
qed

lemma same_tables_trans: "same_tables a b \<Longrightarrow> same_tables b c \<Longrightarrow> same_tables a c"
  by (simp add: same_tables_def)

lemma setRunStatus_same: "same_tables (r_db r) (r_db (fst (setRunStatus hook flts now i st msg r)))"
proof -
  obtain d1 e1 where a: "status_attempt hook (fst flts) now i st msg 0 None (r_db r) = (d1, e1)" by (meson surj_pair)
  obtain d2 e2 where b: "status_attempt hook (snd flts) now i st msg 1 e1 d1 = (d2, e2)" by (meson surj_pair)
  have "same_tables (r_db r) d1" using status_attempt_same [of "r_db r" hook "fst flts" now i st msg 0 None] a by simp
  moreover have "same_tables d1 d2" using status_attempt_same [of d1 hook "snd flts" now i st msg 1 e1] b by simp
  ultimately show ?thesis using a b same_tables_trans by (auto simp: setRunStatus_def)
qed

lemma write_and_publish_same: "same_tables (r_db r) (r_db (write_and_publish flts now i st msg tot n r))"
  using setRunStatus_same [of r None flts now i st msg]
  by (auto simp: write_and_publish_def publishRun_def split: prod.splits option.splits)

lemma same_tables_refl [simp]: "same_tables d d"
  by (simp add: same_tables_def)

lemma Enqueue_same: "same_tables (r_db r) (r_db (fst (Enqueue ev req r)))"
proof -
  obtain r1 x where cr: "enqueue_create (ee_create ev) r req = (r1, x)" by (meson surj_pair)
  have c: "same_tables (r_db r) (r_db r1)"
    using cr by (auto simp: enqueue_create_def CreateRun_def same_tables_def split: option.splits if_splits prod.splits)
  show ?thesis
  proof (cases "enqueue_targets (ee_targets ev) r req")
    case (Inr ts)
    show ?thesis
    proof (cases x)
      case (Inl e)
      with cr c \<open>enqueue_targets (ee_targets ev) r req = Inr ts\<close> show ?thesis
        by (simp add: Enqueue_def split: sum.split option.split)
    next
      case (Inr i)
      obtain r3 co where co: "enqueue_commit i (schedule_name (ee_schedule ev) (beginFinalize i r1) req) ts req (beginFinalize i r1) = (r3, co)"
        by (meson surj_pair)
      have db: "r_db r3 = r_db r1" using enqueue_commit_db [OF co] by (simp add: beginFinalize_def)
      have w: "same_tables (r_db r) (r_db (write_and_publish flts now i st msg tot n r3))" for flts now st msg tot n
        using write_and_publish_same [of r3] db c same_tables_trans by metis
      have s: "same_tables (r_db r) (r_db (fst (setRunStatus None flts now i st msg r3)))" for flts now st msg
        using setRunStatus_same [of r3] db c same_tables_trans by metis
      from w s c db co cr Inr \<open>enqueue_targets (ee_targets ev) r req = Inr ts\<close> show ?thesis
        by (simp add: Enqueue_def Let_def publishRun_def endFinalize_def split: sum.split option.split commit.split)
    qed
  qed (simp add: Enqueue_def)
qed

lemma cancelOrphan_same: "same_tables (r_db r) (r_db (fst (cancelOrphan flt flts now i r)))"
proof -
  obtain r' e where w: "setRunStatus None flts now i Canceled '''' r = (r', e)" by (meson surj_pair)
  with setRunStatus_same [of r None flts now i Canceled "''''"] show ?thesis
    by (simp add: cancelOrphan_def publishRun_def split: sum.split option.split)
qed

lemma Cancel_same: "same_tables (r_db r) (r_db (fst (Cancel flt flts now i r)))"
proof -
  obtain r1 x where cl: "cancel_claim i r = (r1, x)" by (meson surj_pair)
  then have db: "r_db r1 = r_db r" by (auto simp: cancel_claim_def Let_def split: option.splits if_splits)
  show ?thesis
    using cl db cancelOrphan_same [of r1 flt flts now i] write_and_publish_same [of r1 flts now i Canceled "''''" _ 0]
    by (auto simp: Cancel_def endFinalize_def split: option.splits)
qed

lemma enqueue_answer_same: "same_tables (r_db r) (r_db (fst (enqueue_answer ev rq r)))"
proof (cases rq)
  case (Inr req)
  obtain r' x where "Enqueue ev req r = (r', x)" by (meson surj_pair)
  with Inr Enqueue_same [of r ev req] show ?thesis by (auto simp: enqueue_answer_def split: sum.splits)
qed (simp add: enqueue_answer_def)

lemma cancelRun_same: "same_tables (r_db r) (r_db (fst (cancelRun f cf cfs now i r)))"
proof -
  obtain r' ok where "Cancel cf cfs now i r = (r', ok)" by (meson surj_pair)
  with Cancel_same [of r cf cfs now i] show ?thesis by (auto simp: cancelRun_def split: sum.splits bool.splits)
qed

lemma on_db_db [simp]: "r_db (fst (on_db k h r)) = fst (h (r_db r))"
  by (simp add: on_db_def split: prod.split)

lemma on_runner_fst [simp]: "fst (on_runner k w) = fst w"
  by (simp add: on_runner_def split: prod.split)

lemma api_writes_same:
  "same_tables d (fst (renameTag f i n d))" "same_tables d (fst (deleteTag f i d))"
  "same_tables d (fst (deleteResult f i d))" "same_tables d (fst (setResultTags f i ts d))"
  using same_tables_writes SetResultTags_same
  by (simp_all add: renameTag_def deleteTag_def deleteResult_def setResultTags_def split: sum.split)

lemma valid_queue_handlers:
  assumes "tables_valid dp d"
  shows "tables_valid dp (fst (createQueue f now n d))" "tables_valid dp (fst (updateQueue f i n d))"
    "tables_valid dp (fst (deleteQueue f i d))"
  using assms valid_queue_ops [OF assms]
  by (simp_all add: createQueue_def updateQueue_def deleteQueue_def split: sum.split)

lemma route_valid: "tables_valid dp (r_db r) \<Longrightarrow> tables_valid dp (r_db (fst (route dp ev rq r)))"
  using valid_createTarget valid_updateTarget_api valid_deleteTarget_api valid_revert valid_restore valid_queue_handlers
    same_tables_valid [OF api_writes_same(1)] same_tables_valid [OF api_writes_same(2)]
    same_tables_valid [OF api_writes_same(3)] same_tables_valid [OF api_writes_same(4)]
    same_tables_valid [OF enqueue_answer_same] same_tables_valid [OF cancelRun_same]
  by (cases rq) (simp_all add: runTarget_api_def reexecuteResult_def createRun_def)

text \<open>Requests as the server handles them one after the other, each with the identity the middleware found.\<close>

fun serve_resources :: "api_deps \<Rightarrow> (api_env \<times> identity \<times> resource_request) list \<Rightarrow> runner \<Rightarrow> runner" where
  "serve_resources dp [] r = r"
| "serve_resources dp ((ev, ident, rq) # rqs) r = serve_resources dp rqs (fst (serve_resource dp ev ident rq r))"

lemma writeGuard_fst: "fst (writeGuard ident mth next w) = w \<or> fst (writeGuard ident mth next w) = fst (next w)"
  by (simp add: writeGuard_def)

lemma reads_change_nothing: "route_method rq = ''GET'' \<Longrightarrow> fst (route dp ev rq r) = r"
  by (cases rq) simp_all

lemma route_methods: "route_method rq \<in> {''GET'', ''POST'', ''PUT'', ''DELETE''}"
  by (cases rq) simp_all

lemma viewer_changes_nothing:
  assumes "\<not> requestIsAdmin ident"
  shows "fst (serve_resource dp ev ident rq r) = r"
proof (cases "route_method rq = ''GET''")
  case True
  then show ?thesis using reads_change_nothing by (simp add: serve_resource_def writeGuard_def)
next
  case False
  with route_methods [of rq] assms show ?thesis
    by (auto simp: serve_resource_def writeGuard_def requestIsAdmin_def)
qed

text \<open>C34: whatever requests arrive, in any order, from anybody and with whatever statements failing, a target that is
  stored has a name, an engine the registry knows which accepted its options, and thresholds that decode and are in range; the
  same holds for every target a revision can bring back, so a revert and a restore cannot smuggle in what an update
  would refuse; and the queue and revision tables stay consistent. If no request came from an identity with admin rights,
  neither the store nor the runner changed at all.\<close>

theorem resource_api_keeps_targets_valid:
  assumes "tables_valid dp (r_db r)"
  shows "tables_valid dp (r_db (serve_resources dp rqs r)) \<and>
    (list_all (\<lambda>(ev, ident, rq). \<not> requestIsAdmin ident) rqs \<longrightarrow> serve_resources dp rqs r = r)"
  using assms
proof (induction rqs arbitrary: r)
  case (Cons x rqs)
  obtain ev ident rq where x: "x = (ev, ident, rq)" by (metis prod.exhaust)
  from route_valid [OF Cons.prems] writeGuard_fst [of ident "route_method rq" "route dp ev rq" r] Cons.prems
  have "tables_valid dp (r_db (fst (serve_resource dp ev ident rq r)))"
    unfolding serve_resource_def by (metis (full_types))
  from Cons.IH [OF this] viewer_changes_nothing [of ident dp ev rq r] show ?case by (auto simp: x)
qed simp

definition demo_api :: api_deps where
  "demo_api = \<lparr>ad_registry = [''iperf3'' \<mapsto> (\<lambda>m. if m = RawDoc (JObj []) then Some ''host is required'' else None)],
     ad_json_error = (\<lambda>_. ''invalid character'')\<rparr>"

definition demo_env :: api_env where
  "demo_env = \<lparr>ae_faults = (\<lambda>_. None), ae_now = ''t1'', ae_enqueue = \<lparr>ee_targets = None, ee_dedupe = None,
     ee_create = None, ee_schedule = None, ee_status = (None, None), ee_now = ''t1''\<rparr>, ae_cancel = (None, None)\<rparr>"

definition demo_body :: target_body where
  "demo_body = \<lparr>tb_name = '' home '', tb_engine = ''iperf3'', tb_enabled = True, tb_queue_id = 0, tb_lane = ''lan'',
     tb_options = RawDoc (JObj [(''host'', JStr ''a'')]), tb_thresholds = RawEmpty\<rparr>"

text \<open>A user a trusted proxy vouches for, inside or outside the admin group.\<close>

definition demo_identity :: "bool \<Rightarrow> identity" where
  "demo_identity admin = no_identity\<lparr>id_user := ''u'', id_is_admin := admin, id_mode := ''forward_auth''\<rparr>"

lemma seeded_tables_valid: "tables_valid dp (r_db (New 4 seeded_db))"
  using tq_ok_seeded
  by (simp add: tables_valid_def rows_valid_def snapshots_valid_def New_def seeded_db_def empty_db_def empty_tbl_def)

lemma demo_body_accepted:
  "validateTarget demo_api (\<lambda>_. None) seeded_db demo_body =
   Inr (demo_body\<lparr>tb_name := ''home'', tb_queue_id := 2, tb_thresholds := RawDoc (JObj [])\<rparr>)"
proof -
  have "TrimSpace '' home '' = ''home''" by code_simp
  moreover have "check_thresholds demo_api (RawDoc (JObj [])) = Inr ()" by code_simp
  ultimately show ?thesis
    by (simp add: validateTarget_def demo_body_def Let_def lane_queue_def body_queue_def GetQueueByName_def GetQueue_def
        seeded_db_def default_doc_def isJSONNull_def check_engine_def Registry_Get_def demo_api_def abind_def)
qed

definition demo_requests :: "(api_env \<times> identity \<times> resource_request) list" where
  "demo_requests = [(demo_env, demo_identity True, CreateTargetRq demo_body), (demo_env, demo_identity False, DeleteTargetRq 1)]"

theorem resource_api_keeps_targets_valid_witness:
  "tables_valid demo_api (r_db (serve_resources demo_api demo_requests (New 4 seeded_db))) \<and>
   map t_name (rows (targets_t (r_db (serve_resources demo_api demo_requests (New 4 seeded_db))))) = [''home'']"
proof
  show "tables_valid demo_api (r_db (serve_resources demo_api demo_requests (New 4 seeded_db)))"
    using resource_api_keeps_targets_valid [OF seeded_tables_valid] by blast
  have v: "\<not> requestIsAdmin (demo_identity False)" by (simp add: requestIsAdmin_def demo_identity_def no_identity_def)
  have a: "serve_resource demo_api demo_env (demo_identity True) (CreateTargetRq demo_body) (New 4 seeded_db) =
      on_db ATarget (createTarget demo_api (\<lambda>_. None) ''t1'' demo_body) (New 4 seeded_db)"
    by (simp add: serve_resource_def writeGuard_def demo_identity_def demo_env_def)
  have d: "r_db (New 4 seeded_db) = seeded_db" by (simp add: New_def)
  have c: "fst (createTarget demo_api (\<lambda>_. None) ''t1'' demo_body seeded_db) =
      fst (CreateTarget None ''t1'' seeded_db (body_target 0 (demo_body\<lparr>tb_name := ''home'', tb_queue_id := 2, tb_thresholds := RawDoc (JObj [])\<rparr>)))"
    by (simp add: createTarget_def demo_body_accepted)
  have "map t_name (rows (targets_t (fst (CreateTarget None ''t1'' seeded_db (body_target 0 (demo_body\<lparr>tb_name := ''home'', tb_queue_id := 2, tb_thresholds := RawDoc (JObj [])\<rparr>)))))) = [''home'']"
    by (simp add: CreateTarget_def body_target_def demo_body_def seeded_db_def empty_db_def empty_tbl_def insert_row_def Let_def
        select_target_def scanTarget_def insertRevision_def marshalTarget_def)
  then show "map t_name (rows (targets_t (r_db (serve_resources demo_api demo_requests (New 4 seeded_db))))) = [''home'']"
    by (simp add: demo_requests_def viewer_changes_nothing [OF v] a d c)
qed

subsection \<open>Tags round trip\<close>

text \<open>Tag ids and names are unique, and every attached tag exists.\<close>

definition tags_ok :: "db \<Rightarrow> bool" where
  "tags_ok d \<longleftrightarrow> tbl_ok tag_id (tags_t d) \<and> distinct (map tag_name (rows (tags_t d))) \<and>
     (\<forall>(r, t)\<in>set (result_tags_t d). \<exists>g\<in>set (rows (tags_t d)). tag_id g = t)"

text \<open>The names attached to a result, in the order they were attached.\<close>

fun names_at :: "tag list \<Rightarrow> int \<Rightarrow> int \<times> int \<Rightarrow> string list" where
  "names_at gs i (r, t) = (if r = i then map tag_name (filter (\<lambda>g. tag_id g = t) gs) else [])"

definition attached :: "db \<Rightarrow> int \<Rightarrow> string list" where
  "attached d i = concat (map (names_at (rows (tags_t d)) i) (result_tags_t d))"

lemma tag_rows_attached: "tag_rows d [i] = map (Pair i) (sort (attached d i))"
proof -
  have c: "concat (map (\<lambda>(r, t). if r \<in> set [i] then map (\<lambda>x. (r, tag_name x)) (filter (\<lambda>x. tag_id x = t) rs) else []) ps) =
      map (Pair i) (concat (map (names_at rs i) ps))" for rs ps
    by (induction ps) auto
  have s: "sort_key snd (map (Pair i) ns) = map (Pair i) (sort ns)" for ns :: "string list"
  proof (induction ns)
    case (Cons n ns)
    have "insort_key snd (i, n) (map (Pair i) ms) = map (Pair i) (insort n ms)" for ms :: "string list"
      by (induction ms) auto
    with Cons show ?case by simp
  qed simp
  show ?thesis unfolding tag_rows_def attached_def c s by simp
qed

lemma group_same_key:
  "foldl (\<lambda>out (i, n). out(i \<mapsto> (case out i of None \<Rightarrow> [] | Some ns \<Rightarrow> ns) @ [n])) m (map (Pair i) ns) =
   (if ns = [] then m else m(i \<mapsto> (case m i of None \<Rightarrow> [] | Some ks \<Rightarrow> ks) @ ns))"
  by (induction ns arbitrary: m) (auto split: option.splits)

lemma GetResult_tags:
  "GetResult None None d i = (case find (\<lambda>r. res_id r = i) (rows (results_t d)) of
     None \<Rightarrow> Inl ErrNotFound | Some r \<Rightarrow> Inr (with_tags r (sort (attached d i))))"
proof (cases "find (\<lambda>r. res_id r = i) (rows (results_t d))")
  case (Some r)
  then have "res_id r = i" by (auto dest: find_SomeD)
  moreover have "TagsForResults None d [i] = Inr (if attached d i = [] then Map.empty else [i \<mapsto> sort (attached d i)])"
    using group_same_key [of Map.empty i "sort (attached d i)"]
    by (simp add: TagsForResults_def tag_rows_attached) (metis length_0_conv length_sort)
  ultimately show ?thesis using Some by (simp add: GetResult_def attachTags_def scanResultCols_def)
qed (simp add: GetResult_def)

lemma filter_unique: "distinct (map f xs) \<Longrightarrow> x \<in> set xs \<Longrightarrow> filter (\<lambda>y. f y = f x) xs = [x]"
proof (induction xs)
  case (Cons a xs)
  show ?case
  proof (cases "x = a")
    case True
    with Cons.prems(1) have "filter (\<lambda>y. f y = f x) xs = []" by (auto simp: filter_empty_conv image_iff)
    with True show ?thesis by simp
  next
    case False
    with Cons.prems have "x \<in> set xs" "f a \<noteq> f x" by (auto simp: image_iff)
    with Cons show ?thesis by simp
  qed
qed simp

lemma attached_tag_exists:
  assumes "tags_ok d" "(r, t) \<in> set (result_tags_t d)"
  shows "\<exists>g\<in>set (rows (tags_t d)). tag_id g = t"
proof -
  have "\<forall>(r, t)\<in>set (result_tags_t d). \<exists>g\<in>set (rows (tags_t d)). tag_id g = t" using assms(1) by (simp add: tags_ok_def)
  from bspec [OF this assms(2)] show ?thesis by simp
qed

lemma attach_tag_ok:
  assumes "tags_ok d"
  shows "tags_ok (attach_tag rid n d) \<and> attached (attach_tag rid n d) j = attached d j @ (if j = rid then [n] else [])"
proof -
  let ?d1 = "ensure_tag n d"
  let ?T = "rows (tags_t ?d1)"
  have old: "filter (\<lambda>g. tag_id g = t) ?T = filter (\<lambda>g. tag_id g = t) (rows (tags_t d))"
    if "(r, t) \<in> set (result_tags_t d)" for r t
  proof -
    from attached_tag_exists [OF assms that] obtain g where g: "g \<in> set (rows (tags_t d))" "tag_id g = t" by blast
    have "tbl_ok tag_id (tags_t d)" using assms by (simp add: tags_ok_def)
    from tbl_ok_fresh [OF this g(1)] g(2) have "t \<noteq> seq (tags_t d) + 1" "seq (tags_t d) + 1 \<noteq> t" by simp_all
    then show ?thesis by (simp add: ensure_tag_def)
  qed
  have ids: "tbl_ok tag_id (tags_t ?d1)" using assms by (auto simp: tags_ok_def ensure_tag_def intro: tbl_ok_insert_row tbl_ok_bump)
  have names: "distinct (map tag_name ?T)" using assms by (auto simp: tags_ok_def ensure_tag_def)
  have rt: "result_tags_t ?d1 = result_tags_t d" by (simp add: ensure_tag_def)
  have "\<exists>g\<in>set ?T. tag_name g = n" by (simp add: ensure_tag_def)
  then obtain g where g: "g \<in> set ?T" "tag_name g = n" by blast
  have one: "filter (\<lambda>t. tag_name t = n) ?T = [g]" using filter_unique [OF names g(1)] g(2) by simp
  have two: "filter (\<lambda>x. tag_id x = tag_id g) ?T = [g]" by (rule filter_unique [OF tbl_ok_distinct [OF ids] g(1)])
  have at: "attach_tag rid n d = ?d1\<lparr>result_tags_t := result_tags_t d @ [(rid, tag_id g)]\<rparr>"
    by (simp add: attach_tag_def Let_def one rt)
  have fk: "\<exists>x\<in>set ?T. tag_id x = t" if rt': "(r, t) \<in> set (result_tags_t d)" for r t
  proof -
    from attached_tag_exists [OF assms rt'] obtain x where "x \<in> set (rows (tags_t d))" "tag_id x = t" by blast
    then show ?thesis by (auto simp: ensure_tag_def)
  qed
  have "tags_ok (attach_tag rid n d)" using ids names fk g(1) by (auto simp: tags_ok_def at)
  moreover have "attached (attach_tag rid n d) j = attached d j @ (if j = rid then [n] else [])"
  proof -
    have "map (names_at ?T j) (result_tags_t d) = map (names_at (rows (tags_t d)) j) (result_tags_t d)"
      using old by (auto simp: map_eq_conv)
    note same = arg_cong [where f = concat, OF this]
    show ?thesis unfolding at by (simp add: attached_def two g(2) same)
  qed
  ultimately show ?thesis ..
qed

lemma fold_attach_ok:
  assumes "tags_ok d"
  shows "tags_ok (fold (attach_tag rid) ns d) \<and>
    attached (fold (attach_tag rid) ns d) j = attached d j @ (if j = rid then ns else [])"
  using assms
proof (induction ns arbitrary: d)
  case (Cons n ns)
  from Cons.IH [of "attach_tag rid n d"] attach_tag_ok [OF Cons.prems, of rid n] show ?case by auto
qed simp

lemma normalise_loop_props:
  "distinct out \<Longrightarrow> distinct (normalise_loop out ns) \<and>
     set (normalise_loop out ns) = set out \<union> {ToLower (TrimSpace n) | n. n \<in> set ns \<and> ToLower (TrimSpace n) \<noteq> []}"
  by (induction ns arbitrary: out) (auto simp: Let_def)

lemma RuneCount_Nil: "RuneCountInString [] = 0"
  by (simp add: RuneCountInString_def rune_count.simps)

lemma tag_loop_normalises:
  "tag_loop seen ts = Inr out \<Longrightarrow> normalise_loop seen ts = out \<and> (\<forall>t\<in>set ts. ToLower (TrimSpace t) \<noteq> [])"
  by (induction ts arbitrary: seen) (auto simp: Let_def RuneCount_Nil split: if_splits)

lemma SetResultTags_ok:
  assumes "tags_ok d" "SetResultTags flt d i names = (d', Inr ts)"
  shows "tags_ok d' \<and> ts = normaliseTagNames names \<and> results_t d' = results_t d \<and>
    (\<exists>r\<in>set (rows (results_t d)). res_id r = i) \<and> attached d' j = (if j = i then ts else attached d j)"
proof -
  let ?d0 = "d\<lparr>result_tags_t := filter (\<lambda>(r, t). r \<noteq> i) (result_tags_t d)\<rparr>"
  let ?w = "normaliseTagNames names"
  have d': "d' = fold (attach_tag i) ?w ?d0" and ts: "ts = ?w" and ex: "\<exists>r\<in>set (rows (results_t d)). res_id r = i"
    using assms(2) by (auto simp: SetResultTags_def Let_def split: option.splits if_splits)
  have ok: "tags_ok ?d0" using assms(1) by (auto simp: tags_ok_def)
  have gone: "attached ?d0 j = (if j = i then [] else attached d j)"
  proof -
    have "concat (map (names_at gs j) (filter (\<lambda>(r, t). r \<noteq> i) ps)) =
        (if j = i then [] else concat (map (names_at gs j) ps))" for gs ps
      by (induction ps) auto
    then show ?thesis by (simp add: attached_def)
  qed
  have res: "results_t (fold (attach_tag i) ns e) = results_t e" for ns e
    by (induction ns arbitrary: e) (simp_all add: attach_tag_def ensure_tag_def Let_def)
  from fold_attach_ok [OF ok, of i ?w] gone res ts ex show ?thesis unfolding d' by simp
qed


definition demo_result :: "int \<Rightarrow> result" where
  "demo_result i = \<lparr>res_id = i, res_run_id = None, res_target_id = None, res_target_name = ''home'', res_engine = ''iperf3'',
     res_options_snapshot = RawDoc (JObj []), res_status = ROk, res_error = '''', res_started_at = ''t0'', res_duration_ms = 0,
     res_download_bps = 0, res_upload_bps = 0, res_ping_ms = 0, res_jitter_ms = 0, res_packet_loss_pct = 0,
     res_bytes_down = 0, res_bytes_up = 0, res_server_id = '''', res_server_name = '''', res_server_host = '''', res_isp = '''',
     res_external_ip = '''', res_result_url = '''', res_raw = RawEmpty\<rparr>"

text \<open>Two results, the first one tagged.\<close>

definition tagged_db :: db where
  "tagged_db = empty_db\<lparr>results_t := \<lparr>rows = [demo_result 1, demo_result 2], seq = 2\<rparr>,
     tags_t := \<lparr>rows = [\<lparr>tag_id = 1, tag_name = ''old''\<rparr>], seq = 1\<rparr>, result_tags_t := [(1, 1)]\<rparr>"

lemma tagged_db_ok: "tags_ok tagged_db"
  by (simp add: tags_ok_def tagged_db_def tbl_ok_def ids_below_def)


end
