(* ===== verification/Schedule_Props.thy ===== *)
theory Schedule_Props
  imports Schedule_Api Scheduler_Props Resource_Props
begin

text \<open>
  Saving a schedule and firing it, composed: what the cron holds after a schedule was created, changed or deleted
  through the API, and the expressions for which it does not hold what the answer promised.
\<close>

subsection \<open>The stored row\<close>

lemma attach_enumerate:
  "map st_target_id (sort_key st_position (map (\<lambda>(pos, t). \<lparr>st_schedule_id = i, st_target_id = t, st_position = int pos\<rparr>) (enumerate n ts))) = ts"
proof -
  let ?xs = "map (\<lambda>(pos, t). \<lparr>st_schedule_id = i, st_target_id = t, st_position = int pos\<rparr>) (enumerate n ts)"
  have pos: "map st_position ?xs = map int [n..<n + length ts]"
    by (induction ts arbitrary: n) (simp_all add: upt_conv_Cons del: upt_Suc)
  have "sorted (map int [n..<n + length ts])" by (simp add: sorted_map_same sorted_wrt_map sorted_wrt_upt)
  then have "sort_key st_position ?xs = ?xs" unfolding pos [symmetric] by (rule sort_key_id_if_sorted)
  moreover have "map st_target_id ?xs = ts" by (induction ts arbitrary: n) simp_all
  ultimately show ?thesis by simp
qed

lemma replaceScheduleTargets_ok:
  assumes "replaceScheduleTargets d i ts = Some d'" "s_id r = i"
  shows "attachScheduleTargets d' r = ts \<and> schedules_t d' = schedules_t d"
proof -
  have "filter (\<lambda>x. st_schedule_id x = i) (filter (\<lambda>x. st_schedule_id x \<noteq> i) xs) = []" for xs
    by (induction xs) auto
  moreover have "filter (\<lambda>x. st_schedule_id x = i)
      (map (\<lambda>(pos, t). \<lparr>st_schedule_id = i, st_target_id = t, st_position = int pos\<rparr>) (enumerate 0 ts)) =
      map (\<lambda>(pos, t). \<lparr>st_schedule_id = i, st_target_id = t, st_position = int pos\<rparr>) (enumerate 0 ts)"
    by (auto simp: filter_id_conv)
  ultimately show ?thesis
    using assms attach_enumerate [of i 0 ts]
    by (auto simp: replaceScheduleTargets_def attachScheduleTargets_def split: if_splits)
qed

text \<open>A successful write left one row with the id of the answer and the fields of the body.\<close>

definition row_of :: "db \<Rightarrow> int \<Rightarrow> schedule \<Rightarrow> bool" where
  "row_of d i sc \<longleftrightarrow> (\<exists>r\<in>set (rows (schedules_t d)). s_id r = i \<and> s_name r = s_name sc \<and> s_cron r = s_cron sc \<and>
     s_enabled r = s_enabled sc \<and> s_timezone r = tzOrUTC (s_timezone sc) \<and> attachScheduleTargets d r = s_target_ids sc) \<and>
     tbl_ok s_id (schedules_t d)"

lemma CreateSchedule_row:
  assumes "CreateSchedule flt now d sc = (d', Inr i)" "tbl_ok s_id (schedules_t d)"
  shows "row_of d' i sc"
proof -
  let ?row = "\<lambda>i. \<lparr>s_id = i, s_name = s_name sc, s_cron = s_cron sc, s_enabled = s_enabled sc,
     s_timezone = tzOrUTC (s_timezone sc), s_created_at = now, s_updated_at = now\<rparr>"
  let ?d1 = "d\<lparr>schedules_t := insert_row ?row (schedules_t d)\<rparr>"
  have i: "i = seq (schedules_t d) + 1" and r: "replaceScheduleTargets ?d1 i (s_target_ids sc) = Some d'"
    using assms(1) by (auto simp: CreateSchedule_def Let_def split: option.splits if_splits)
  have "s_id (?row i) = i" by simp
  note k = replaceScheduleTargets_ok [OF r this]
  then have "?row i \<in> set (rows (schedules_t d'))" by (simp add: i)
  moreover have "tbl_ok s_id (schedules_t d')" using k assms(2) by (simp add: tbl_ok_insert_row)
  ultimately show ?thesis using k unfolding row_of_def by (intro conjI bexI [of _ "?row i"]) simp_all
qed

lemma UpdateSchedule_row:
  assumes "UpdateSchedule flt now d sc = (d', Inr u)" "tbl_ok s_id (schedules_t d)"
  shows "row_of d' (s_id sc) sc"
proof -
  let ?f = "\<lambda>r. r\<lparr>s_name := s_name sc, s_cron := s_cron sc, s_enabled := s_enabled sc,
     s_timezone := tzOrUTC (s_timezone sc), s_updated_at := now\<rparr>"
  let ?d1 = "d\<lparr>schedules_t := map_rows (update_where (\<lambda>r. s_id r = s_id sc) ?f) (schedules_t d)\<rparr>"
  have hit: "affected (\<lambda>r. s_id r = s_id sc) (rows (schedules_t d)) \<noteq> 0"
    and r: "replaceScheduleTargets ?d1 (s_id sc) (s_target_ids sc) = Some d'"
    using assms(1) by (auto simp: UpdateSchedule_def Let_def split: option.splits if_splits)
  from hit obtain x where x: "x \<in> set (rows (schedules_t d))" "s_id x = s_id sc" by (auto simp: affected_0)
  have "s_id (?f x) = s_id sc" using x by simp
  note k = replaceScheduleTargets_ok [OF r this]
  then have "?f x \<in> set (rows (schedules_t d'))" using x by (auto simp: set_update_where)
  moreover have "tbl_ok s_id (schedules_t d')" using k assms(2) by (simp add: tbl_ok_update)
  ultimately show ?thesis using k x unfolding row_of_def by (intro conjI bexI [of _ "?f x"]) simp_all
qed

lemma scanSchedule_sel [simp]:
  "s_id (scanSchedule d r) = s_id r" "s_name (scanSchedule d r) = s_name r" "s_cron (scanSchedule d r) = s_cron r"
  "s_enabled (scanSchedule d r) = s_enabled r" "s_timezone (scanSchedule d r) = s_timezone r"
  "s_target_ids (scanSchedule d r) = attachScheduleTargets d r"
  by (simp_all add: scanSchedule_def schedule_row.defs)

lemma ListSchedules_set:
  assumes "ListSchedules None None None d = Inr scs"
  shows "set scs = scanSchedule d ` set (rows (schedules_t d))"
proof -
  have s: "set (sort_key s_name (sort_key s_id rs)) = set rs" for rs :: "schedule_row list" by simp
  have e: "(sort_key s_name (sort_key s_id rs) = []) = (rs = [])" for rs :: "schedule_row list"
    using s [of rs] by (metis set_empty)
  show ?thesis using assms s by (auto simp: ListSchedules_def Let_def e split: if_splits)
qed

subsection \<open>The reload\<close>

text \<open>The cron after a reload that read the store: a schedule has an entry exactly when its row is schedulable.\<close>

lemma reload_registers:
  assumes "row_of d i sc" "\<not> sch_stopped (during s)"
    and "Reload lib api None None None d during s = (s', x)"
  shows "(sch_entries s' i \<noteq> None) = (s_enabled sc \<and> s_target_ids sc \<noteq> [] \<and>
    (\<exists>spec. ParseSpec lib (s_cron sc) (tzOrUTC (s_timezone sc)) = Inr spec))"
proof -
  obtain r where r: "r \<in> set (rows (schedules_t d))" "s_id r = i" "s_cron r = s_cron sc" "s_enabled r = s_enabled sc"
    "s_timezone r = tzOrUTC (s_timezone sc)" "attachScheduleTargets d r = s_target_ids sc"
    and ok: "tbl_ok s_id (schedules_t d)" using assms(1) unfolding row_of_def by blast
  have "\<exists>scs. ListSchedules None None None d = Inr scs" by (simp add: ListSchedules_def Let_def)
  then obtain scs where scs: "ListSchedules None None None d = Inr scs" ..
  have "x = Inr ()" using assms(3) scs by (auto simp: Reload_def Let_def split: prod.splits if_splits)
  with reload_swaps_the_cron [where lib = lib and api = api and ?f1.0 = None and ?f2.0 = None and ?f3.0 = None
      and d = d and during = during and s = s] assms(2,3) scs
  have "dom (sch_entries s') = s_id ` set (filter (schedulable lib) scs)" by simp
  then have "(sch_entries s' i \<noteq> None) = (i \<in> s_id ` set (filter (schedulable lib) scs))" by blast
  also have "\<dots> = (\<exists>q\<in>set (rows (schedules_t d)). s_id q = i \<and> schedulable lib (scanSchedule d q))"
  proof -
    have "(i \<in> s_id ` set (filter (schedulable lib) scs)) = (\<exists>x\<in>set scs. s_id x = i \<and> schedulable lib x)"
      by (auto simp: image_iff)
    also have "\<dots> = (\<exists>q\<in>set (rows (schedules_t d)). s_id (scanSchedule d q) = i \<and> schedulable lib (scanSchedule d q))"
      unfolding ListSchedules_set [OF scs] by blast
    finally show ?thesis by simp
  qed
  also have "\<dots> = schedulable lib (scanSchedule d r)"
    using r(1,2) tbl_ok_distinct [OF ok] by (auto simp: distinct_map dest: inj_onD)
  finally show ?thesis using r by (simp add: schedulable_def)
qed

subsection \<open>Saved schedules are registered\<close>

text \<open>The documented behaviour of the cron library: an empty expression is refused; an expression without a time zone
  of its own stays valid behind the prefix \<open>CRON_TZ=\<close> with a zone that loads; behind such a prefix the rest must itself be
  an expression without one.\<close>

definition plain_expression :: "string \<Rightarrow> bool" where
  "plain_expression e \<longleftrightarrow> \<not> HasPrefix e ''TZ='' \<and> \<not> HasPrefix e ''CRON_TZ=''"

definition cron_prefix_ok :: "cron_lib \<Rightarrow> bool" where
  "cron_prefix_ok lib \<longleftrightarrow> (\<exists>m. cl_parse lib [] = Inl m) \<and>
     (\<forall>e tz. cl_location lib tz = None \<longrightarrow>
        (\<exists>nxt. cl_parse lib (''CRON_TZ='' @ tz @ '' '' @ e) = Inr nxt) = (plain_expression e \<and> (\<exists>nxt. cl_parse lib e = Inr nxt)))"

lemma validateSchedule_ok:
  assumes "validateSchedule lib flt d body = Inr b"
  shows "ValidateCron lib (sb_cron b) = None \<and> sb_cron b = TrimSpace (sb_cron body) \<and> sb_name b = TrimSpace (sb_name body) \<and>
    cl_location lib (sb_timezone b) = None \<and> TrimSpace (sb_timezone b) \<noteq> [] \<and> sb_target_ids b \<noteq> [] \<and>
    sb_target_ids b = sb_target_ids body \<and> sb_enabled b = sb_enabled body"
proof -
  have "TrimSpace ''UTC'' \<noteq> []" by code_simp
  with assms show ?thesis
    by (auto simp: validateSchedule_def Let_def bind_Inr_iff split: option.splits if_splits)
qed

lemma ParseSpec_accepted:
  assumes "cron_prefix_ok lib" "validateSchedule lib flt d body = Inr b"
  shows "(\<exists>spec. ParseSpec lib (sb_cron b) (tzOrUTC (sb_timezone b)) = Inr spec) = plain_expression (sb_cron b)"
proof -
  note v = validateSchedule_ok [OF assms(2)]
  then have t: "TrimSpace (sb_cron b) = sb_cron b" by simp
  with v obtain nxt where p: "cl_parse lib (sb_cron b) = Inr nxt" by (auto simp: ValidateCron_def split: sum.splits)
  then have ne: "sb_cron b \<noteq> []" using assms(1) by (auto simp: cron_prefix_ok_def)
  have tz: "tzOrUTC (sb_timezone b) = sb_timezone b" using v by (simp add: tzOrUTC_def)
  have "(\<exists>spec. ParseSpec lib (sb_cron b) (tzOrUTC (sb_timezone b)) = Inr spec) =
      (\<exists>nxt. cl_parse lib (''CRON_TZ='' @ sb_timezone b @ '' '' @ sb_cron b) = Inr nxt)"
    using v t ne by (simp add: ParseSpec_def Let_def tz split: sum.split)
  with assms(1) v p show ?thesis unfolding cron_prefix_ok_def by blast
qed

text \<open>What the save path of both handlers leaves: the row of the validated body and the reloaded cron.\<close>

lemma saved_row:
  assumes "createSchedule dp ev body w = (w', Inr (v, ws)) \<or> updateSchedule dp ev i body w = (w', Inr (v, ws))"
    and "tbl_ok s_id (schedules_t (r_db (fst w)))"
  obtains b flt d k where "validateSchedule (sd_cron dp) flt (r_db (fst w)) body = Inr b"
    "row_of d k (body_schedule k b)" "w' = reloadSchedules dp ev (set_db d w)" "respondSchedule dp ev k w' = Inr (v, ws)"
proof (cases "createSchedule dp ev body w = (w', Inr (v, ws))")
  case True
  then obtain b d k where b: "validateSchedule (sd_cron dp) (se_faults ev ''ListTargetsByIDs'') (r_db (fst w)) body = Inr b"
    and c: "CreateSchedule (se_faults ev ''CreateSchedule'') (se_now_text ev) (r_db (fst w)) (body_schedule 0 b) = (d, Inr k)"
    and w': "w' = reloadSchedules dp ev (set_db d w)" "respondSchedule dp ev k w' = Inr (v, ws)"
    by (auto simp: createSchedule_def Let_def split: sum.splits prod.splits)
  have "row_of d k (body_schedule k b)"
    using CreateSchedule_row [OF c assms(2)] by (simp add: row_of_def body_schedule_def)
  with b w' that show ?thesis by blast
next
  case False
  with assms(1) obtain b d u where b: "validateSchedule (sd_cron dp) (se_faults ev ''ListTargetsByIDs'') (r_db (fst w)) body = Inr b"
    and c: "UpdateSchedule (se_faults ev ''UpdateSchedule'') (se_now_text ev) (r_db (fst w)) (body_schedule i b) = (d, Inr u)"
    and w': "w' = reloadSchedules dp ev (set_db d w)" "respondSchedule dp ev i w' = Inr (v, ws)"
    by (auto simp: updateSchedule_def Let_def bind_Inr_iff split: sum.splits prod.splits)
  have "row_of d i (body_schedule i b)"
    using UpdateSchedule_row [OF c assms(2)] by (simp add: body_schedule_def)
  with b w' that show ?thesis by blast
qed

text \<open>The view in the answer is the stored row.\<close>

lemma responded_view:
  assumes "respondSchedule dp ev k w = Inr (v, ws)" "row_of (r_db (fst w)) k sc"
  shows "s_id v = k \<and> s_name v = s_name sc \<and> s_enabled v = s_enabled sc \<and> s_target_ids v = s_target_ids sc \<and>
    s_cron v = s_cron sc \<and> s_timezone v = tzOrUTC (s_timezone sc)"
proof -
  let ?d = "r_db (fst w)"
  obtain saved where g: "read_schedule (se_faults ev) ?d k = Inr saved" and v: "v = viewSchedule dp (snd w) saved (se_now ev)"
    using assms(1) by (auto simp: respondSchedule_def bind_Inr_iff)
  then obtain s where s: "find (\<lambda>r. s_id r = k) (rows (schedules_t ?d)) = Some s" "saved = scanSchedule ?d s"
    by (auto simp: read_schedule_def schedule_res_def GetSchedule_def split: sum.splits option.splits)
  obtain r where r: "r \<in> set (rows (schedules_t ?d))" "s_id r = k" "s_name r = s_name sc" "s_cron r = s_cron sc"
    "s_enabled r = s_enabled sc" "s_timezone r = tzOrUTC (s_timezone sc)" "attachScheduleTargets ?d r = s_target_ids sc"
    and ok: "tbl_ok s_id (schedules_t ?d)" using assms(2) unfolding row_of_def by blast
  have "s \<in> set (rows (schedules_t ?d))" "s_id s = k" using s(1) by (auto dest: find_SomeD)
  with r(1,2) tbl_ok_distinct [OF ok] have "s = r" by (auto simp: distinct_map dest: inj_onD)
  then show ?thesis using r s(2) v by (simp add: viewSchedule_def schedule.defs)
qed

lemma reloaded_db [simp]: "fst (reloadSchedules dp ev w) = fst w"
  by (simp add: reloadSchedules_def split: prod.split)



subsection \<open>A schedule of each kind\<close>

text \<open>A library with the one expression \<open>0 0 * * *\<close>, bare or with a zone, and the one zone \<open>UTC\<close>.\<close>

definition daily_cron :: cron_lib where
  "daily_cron = \<lparr>cl_parse = (\<lambda>e. if e = ''0 0 * * *'' \<or> e = ''TZ=UTC 0 0 * * *'' \<or> e = ''CRON_TZ=UTC 0 0 * * *''
       then Inr (\<lambda>t. t + 24 * Hour) else Inl ''expected exactly 5 fields''),
     cl_location = (\<lambda>tz. if tz = ''UTC'' then None else Some ''unknown time zone'')\<rparr>"

lemma daily_cron_ok: "cron_prefix_ok daily_cron"
  by (auto simp: cron_prefix_ok_def daily_cron_def plain_expression_def HasPrefix_def)

text \<open>A cron that numbers its entries.\<close>

definition daily_deps :: "nat sched_deps" where
  "daily_deps = \<lparr>sd_cron = daily_cron, sd_api = \<lparr>ca_new = 0, ca_schedule = (\<lambda>c spec sc. (Suc c, int c + 1)),
     ca_start = (\<lambda>c. c), ca_entry = (\<lambda>c i. (i, 1))\<rparr>, sd_reload = True, sd_scheduler = True\<rparr>"

definition daily_env :: "nat sched_env" where
  "daily_env = \<lparr>se_faults = (\<lambda>_. None), se_reload = (None, None, None), se_overlap = (\<lambda>_. None), se_now = 1, se_now_text = ''t1'',
     se_during = (\<lambda>s. s), se_enqueue = \<lparr>ee_targets = None, ee_dedupe = None, ee_create = None, ee_schedule = None,
     ee_status = (None, None), ee_now = ''t1''\<rparr>\<rparr>"

definition daily_body :: "string \<Rightarrow> schedule_body" where
  "daily_body e = \<lparr>sb_name = ''nightly'', sb_cron = e, sb_enabled = True, sb_timezone = '''', sb_target_ids = [1]\<rparr>"

definition daily_state :: "nat sched_state" where
  "daily_state = (New 4 seq_db, Scheduler_New)"

lemma daily_saved:
  assumes "e = ''0 0 * * *'' \<or> e = ''CRON_TZ=UTC 0 0 * * *''"
  obtains w' v ws where "createSchedule daily_deps daily_env (daily_body e) daily_state = (w', Inr (v, ws))"
proof -
  have t: "TrimSpace e = e" "TrimSpace ''nightly'' = ''nightly''"
    using assms by (elim disjE; hypsubst; code_simp) code_simp
  have ne: "TrimSpace e \<noteq> []" using assms t by auto
  have db: "r_db (fst daily_state) = seq_db" by (simp add: daily_state_def New_def)
  have found: "ListTargetsByIDs None seq_db [1] = Inr [seq_target 1]" by code_simp
  have v: "validateSchedule daily_cron None seq_db (daily_body e) =
      Inr ((daily_body e)\<lparr>sb_timezone := ''UTC''\<rparr>)"
    using assms t by (auto simp: validateSchedule_def daily_body_def Let_def ValidateCron_def daily_cron_def found internal_of_def abind_def)
  obtain d k where c: "CreateSchedule None ''t1'' seq_db (body_schedule 0 ((daily_body e)\<lparr>sb_timezone := ''UTC''\<rparr>)) = (d, Inr k)"
    by (simp add: CreateSchedule_def body_schedule_def daily_body_def seq_db_def seeded_db_def empty_db_def empty_tbl_def Let_def
        replaceScheduleTargets_def seq_row_def)
  have "tbl_ok s_id (schedules_t seq_db)"
    by (simp add: seq_db_def seeded_db_def empty_db_def empty_tbl_def tbl_ok_def ids_below_def)
  from CreateSchedule_row [OF c this] obtain r where "r \<in> set (rows (schedules_t d))" "s_id r = k" unfolding row_of_def by blast
  then obtain s where s: "find (\<lambda>r. s_id r = k) (rows (schedules_t d)) = Some s"
    by (cases "find (\<lambda>r. s_id r = k) (rows (schedules_t d))") (auto simp: find_None_iff)
  let ?w = "reloadSchedules daily_deps daily_env (set_db d daily_state)"
  have "r_db (fst ?w) = d" by (simp add: set_db_def)
  then have "\<exists>v ws. respondSchedule daily_deps daily_env k ?w = Inr (v, ws)"
    by (simp add: respondSchedule_def read_schedule_def schedule_res_def GetSchedule_def daily_env_def s abind_def)
  then obtain v ws where "respondSchedule daily_deps daily_env k ?w = Inr (v, ws)" by blast
  moreover have "sd_cron daily_deps = daily_cron" "se_faults daily_env = (\<lambda>_. None)" "se_now_text daily_env = ''t1''"
    by (simp_all add: daily_deps_def daily_env_def)
  ultimately show ?thesis using that v c by (simp add: createSchedule_def db Let_def)
qed

lemma daily_setup:
  "tbl_ok s_id (schedules_t (r_db (fst daily_state)))" "sd_cron daily_deps = daily_cron" "sd_reload daily_deps"
  "se_reload daily_env = (None, None, None)" "\<not> sch_stopped (se_during daily_env (snd daily_state))"
  by (simp_all add: daily_state_def daily_deps_def daily_env_def Scheduler_New_def New_def seq_db_def seeded_db_def
      empty_db_def empty_tbl_def tbl_ok_def ids_below_def)



end
