(* ===== verification/Iperf3.thy ===== *)
theory Iperf3
  imports Settings_Body Runner
begin

text \<open>
  The iperf3 engine, \<open>internal/engine/iperf3\<close>: options and arguments (\<open>options.go\<close>), the parsers of the summary document and of the
  event stream (\<open>parse.go\<close>), the version probe (\<open>version.go\<close>) and \<open>Run\<close> with its retries on busy ports (\<open>iperf3.go\<close>). The
  program itself is a parameter: for arguments and environment, what it writes and how it ends. Durations in seconds
  are exact rationals; the conversion to \<open>int64\<close> cuts towards zero. Products of machine integers wrap around.
\<close>

subsection \<open>Options\<close>

record iperf3_options =
  io_host :: string
  io_hosts :: "string list"
  io_port :: int
  io_port_range_end :: int
  io_protocol :: string
  io_reverse :: bool
  io_bidir :: bool
  io_parallel :: int
  io_duration_s :: int
  io_udp_bitrate :: string
  io_bind :: string
  io_username :: string
  io_password :: string
  io_rsa_public_key_path :: string

definition decode_iperf3 :: "(string \<times> json) list \<Rightarrow> iperf3_options option" where
  "decode_iperf3 kvs =
     (case (dec_scalar as_str '''' ''host'' kvs, dec_strs ''hosts'' kvs, dec_scalar as_int 0 ''port'' kvs,
            dec_scalar as_int 0 ''port_range_end'' kvs, dec_scalar as_str '''' ''protocol'' kvs,
            dec_scalar as_bool False ''reverse'' kvs, dec_scalar as_bool False ''bidir'' kvs,
            dec_scalar as_int 0 ''parallel'' kvs, dec_scalar as_int 0 ''duration_s'' kvs,
            dec_scalar as_str '''' ''udp_bitrate'' kvs, dec_scalar as_str '''' ''bind'' kvs,
            dec_scalar as_str '''' ''username'' kvs, dec_scalar as_str '''' ''password'' kvs,
            dec_scalar as_str '''' ''rsa_public_key_path'' kvs) of
        (Some h, Some hs, Some p, Some pe, Some pr, Some rv, Some bd, Some pa, Some du, Some ub, Some bi, Some un, Some pw, Some rs) \<Rightarrow>
          Some \<lparr>io_host = h, io_hosts = hs, io_port = p, io_port_range_end = pe, io_protocol = pr, io_reverse = rv,
                io_bidir = bd, io_parallel = pa, io_duration_s = du, io_udp_bitrate = ub, io_bind = bi, io_username = un,
                io_password = pw, io_rsa_public_key_path = rs\<rparr>
      | _ \<Rightarrow> None)"

text \<open>No bytes give the zero value; \<open>err\<close> is the text of the decoder's error.\<close>

definition unmarshal_iperf3 :: "(raw \<Rightarrow> string) \<Rightarrow> raw \<Rightarrow> string + iperf3_options" where
  "unmarshal_iperf3 err opts =
     (case (if opts = RawEmpty then Some [] else members opts) of
        None \<Rightarrow> Inl (''iperf3 options: '' @ err opts)
      | Some kvs \<Rightarrow> (case decode_iperf3 kvs of None \<Rightarrow> Inl (''iperf3 options: '' @ err opts) | Some o0 \<Rightarrow> Inr o0))"

text \<open>The defaults, in the order of the source; each one is used by the checks after it.\<close>

definition with_host :: "iperf3_options \<Rightarrow> iperf3_options" where
  "with_host x = (if io_host x = [] then (case io_hosts x of [] \<Rightarrow> x | h # _ \<Rightarrow> x\<lparr>io_host := h\<rparr>) else x)"

definition with_defaults :: "iperf3_options \<Rightarrow> iperf3_options" where
  "with_defaults x =
     (let x1 = with_host x
      in x1\<lparr>io_port := if io_port x1 = 0 then 5201 else io_port x1,
            io_protocol := if io_protocol x1 = [] then ''tcp'' else io_protocol x1,
            io_parallel := if io_parallel x1 = 0 then 1 else io_parallel x1,
            io_duration_s := if io_duration_s x1 = 0 then 10 else io_duration_s x1\<rparr>)"

definition check_iperf3 :: "iperf3_options \<Rightarrow> string option" where
  "check_iperf3 x = firstErr [
     check ([] \<in> set (io_hosts x)) ''iperf3 options: hosts must not contain an empty host'',
     check (io_host x = [] \<and> io_hosts x = []) ''iperf3 options: host is required'',
     check (io_port x < 1 \<or> 65535 < io_port x) ''iperf3 options: port out of range'',
     check (io_port_range_end x \<noteq> 0 \<and> io_port_range_end x < io_port x) ''iperf3 options: port_range_end must be >= port'',
     check (65535 < io_port_range_end x) ''iperf3 options: port_range_end out of range'',
     check (io_protocol x \<noteq> ''tcp'' \<and> io_protocol x \<noteq> ''udp'')
       (''iperf3 options: protocol '' @ quoted (io_protocol x) @ '' must be tcp or udp''),
     check (io_parallel x < 1) ''iperf3 options: parallel must be >= 1'',
     check (io_duration_s x < 1) ''iperf3 options: duration_s must be >= 1'',
     check (io_reverse x \<and> io_bidir x) ''iperf3 options: reverse and bidir are mutually exclusive'',
     check (io_bidir x \<and> io_protocol x = ''udp'') ''iperf3 options: bidir is not supported with udp'',
     check (io_udp_bitrate x \<noteq> [] \<and> io_protocol x \<noteq> ''udp'') ''iperf3 options: udp_bitrate requires protocol udp'',
     check (io_password x \<noteq> [] \<and> (io_username x = [] \<or> io_rsa_public_key_path x = []))
       ''iperf3 options: password requires username and rsa_public_key_path'']"

definition parseOptions :: "(raw \<Rightarrow> string) \<Rightarrow> raw \<Rightarrow> string + iperf3_options" where
  "parseOptions err opts =
     (case unmarshal_iperf3 err opts of
        Inl e \<Rightarrow> Inl e
      | Inr x \<Rightarrow> (case check_iperf3 (with_defaults x) of Some e \<Rightarrow> Inl e | None \<Rightarrow> Inr (with_defaults x)))"

definition iperf3_Validate :: "(raw \<Rightarrow> string) \<Rightarrow> raw \<Rightarrow> string option" where
  "iperf3_Validate err opts = (case parseOptions err opts of Inl e \<Rightarrow> Some e | Inr _ \<Rightarrow> None)"

subsection \<open>Arguments\<close>

definition connectTimeoutMs :: int where
  "connectTimeoutMs = 10000"

definition buildArgs :: "iperf3_options \<Rightarrow> bool \<Rightarrow> bool \<Rightarrow> string list" where
  "buildArgs x stream connTO =
     [''-c'', io_host x, ''-p'', Itoa (io_port x)] @
     (if stream then [''--json-stream''] else [''-J'']) @
     (if connTO then [''--connect-timeout'', Itoa connectTimeoutMs] else []) @
     [''-t'', Itoa (io_duration_s x), ''-P'', Itoa (io_parallel x)] @
     (if io_reverse x then [''-R''] else []) @
     (if io_bidir x then [''--bidir''] else []) @
     (if io_protocol x = ''udp''
      then [''-u''] @ (if io_udp_bitrate x \<noteq> [] then [''-b'', io_udp_bitrate x] else []) else []) @
     (if io_bind x \<noteq> [] then [''-B'', io_bind x] else []) @
     (if io_username x \<noteq> [] then [''--username'', io_username x] else []) @
     (if io_rsa_public_key_path x \<noteq> [] then [''--rsa-public-key-path'', io_rsa_public_key_path x] else [])"

definition password_env :: "iperf3_options \<Rightarrow> string list" where
  "password_env x = (if io_password x \<noteq> [] then [''IPERF3_PASSWORD='' @ io_password x] else [])"

subsection \<open>Version\<close>

text \<open>The leftmost match of \<open>iperf\s+(\d+)\.(\d+)\<close>; a number past the range of \<open>int\<close> becomes its largest value.\<close>

definition re_space :: "char \<Rightarrow> bool" where
  "re_space c \<longleftrightarrow> c \<in> {CHR 0x09, CHR 0x0A, CHR 0x0C, CHR 0x0D, CHR '' ''}"

definition Atoi_sat :: "string \<Rightarrow> int" where
  "Atoi_sat ds = min (digits_val ds) (2 ^ 63 - 1)"

definition version_at :: "string \<Rightarrow> (int \<times> int) option" where
  "version_at s =
     (if \<not> HasPrefix s ''iperf'' then None
      else let r = drop 5 s; r1 = dropWhile re_space r; major = takeWhile is_digit r1; r2 = dropWhile is_digit r1
           in if r1 = r \<or> major = [] then None
              else case r2 of
                     [] \<Rightarrow> None
                   | c # r3 \<Rightarrow> let minor = takeWhile is_digit r3
                               in if c \<noteq> CHR ''.'' \<or> minor = [] then None else Some (Atoi_sat major, Atoi_sat minor))"

fun parseVersion :: "string \<Rightarrow> (int \<times> int) option" where
  "parseVersion [] = None"
| "parseVersion (c # cs) = (case version_at (c # cs) of Some v \<Rightarrow> Some v | None \<Rightarrow> parseVersion cs)"

definition versionAtLeast :: "int \<Rightarrow> int \<Rightarrow> int \<Rightarrow> int \<Rightarrow> bool" where
  "versionAtLeast major minor wantMajor wantMinor \<longleftrightarrow> wantMajor < major \<or> (major = wantMajor \<and> wantMinor \<le> minor)"

definition supportsConnectTimeout :: "int \<Rightarrow> int \<Rightarrow> bool" where
  "supportsConnectTimeout major minor = versionAtLeast major minor 3 10"

text \<open>The output of \<open>--version\<close> and whether the call failed.\<close>

definition probeVersion :: "string \<times> bool \<Rightarrow> (int \<times> int) option" where
  "probeVersion a = (if snd a \<and> fst a = [] then None else parseVersion (fst a))"

record iperf3_engine =
  ie_bin :: string
  ie_force_summary :: bool
  ie_probed :: bool
  ie_stream :: bool
  ie_conn_to :: bool

definition probe :: "string \<times> bool \<Rightarrow> iperf3_engine \<Rightarrow> iperf3_engine \<times> bool \<times> bool" where
  "probe a e =
     (if ie_probed e then (e, ie_stream e, ie_conn_to e)
      else case probeVersion a of
             None \<Rightarrow> (e, False, False)
           | Some (major, minor) \<Rightarrow>
               let e' = e\<lparr>ie_probed := True, ie_stream := versionAtLeast major minor 3 17,
                          ie_conn_to := supportsConnectTimeout major minor\<rparr>
               in (e', ie_stream e', ie_conn_to e'))"

subsection \<open>The summary document\<close>

text \<open>A nested struct is filled by every value of its key in turn, so by the members of all of them.\<close>

definition dec_members :: "string \<Rightarrow> (string \<times> json) list \<Rightarrow> (string \<times> json) list option" where
  "dec_members name kvs =
     foldl (\<lambda>acc v. case acc of
         None \<Rightarrow> None
       | Some ms \<Rightarrow> (case v of JNull \<Rightarrow> Some ms | JObj xs \<Rightarrow> Some (ms @ xs) | _ \<Rightarrow> None))
       (Some []) (field_vals name kvs)"

record sum_doc =
  su_start :: float64
  su_end :: float64
  su_seconds :: float64
  su_bytes :: int
  su_bps :: float64
  su_jitter_ms :: float64
  su_lost_percent :: float64

definition decode_sum :: "(string \<times> json) list \<Rightarrow> sum_doc option" where
  "decode_sum kvs =
     (case (dec_scalar as_num 0 ''start'' kvs, dec_scalar as_num 0 ''end'' kvs, dec_scalar as_num 0 ''seconds'' kvs,
            dec_scalar as_int 0 ''bytes'' kvs, dec_scalar as_num 0 ''bits_per_second'' kvs,
            dec_scalar as_num 0 ''jitter_ms'' kvs, dec_scalar as_num 0 ''lost_percent'' kvs) of
        (Some a, Some b, Some c, Some d, Some e, Some f, Some g) \<Rightarrow>
          Some \<lparr>su_start = a, su_end = b, su_seconds = c, su_bytes = d, su_bps = e, su_jitter_ms = f, su_lost_percent = g\<rparr>
      | _ \<Rightarrow> None)"

definition dec_sum :: "string \<Rightarrow> (string \<times> json) list \<Rightarrow> sum_doc option" where
  "dec_sum name kvs = Option.bind (dec_members name kvs) decode_sum"

record summary_doc =
  sd_error :: string
  sd_sum :: sum_doc
  sd_received :: sum_doc
  sd_forward :: sum_doc
  sd_backward :: sum_doc

text \<open>\<open>start\<close> and \<open>sum_sent\<close> are decoded for their errors only; nothing reads them.\<close>

definition start_ok :: "(string \<times> json) list \<Rightarrow> bool" where
  "start_ok kvs =
     (case dec_members ''start'' kvs of
        None \<Rightarrow> False
      | Some st \<Rightarrow> dec_scalar as_str '''' ''version'' st \<noteq> None \<and>
          (case dec_members ''connecting_to'' st of
             None \<Rightarrow> False
           | Some c \<Rightarrow> dec_scalar as_str '''' ''host'' c \<noteq> None \<and> dec_scalar as_int 0 ''port'' c \<noteq> None))"

definition decode_summary :: "(string \<times> json) list \<Rightarrow> summary_doc option" where
  "decode_summary kvs =
     (case (dec_scalar as_str '''' ''error'' kvs, start_ok kvs, dec_members ''end'' kvs) of
        (Some err, True, Some fin) \<Rightarrow>
          (case (dec_sum ''sum'' fin, dec_sum ''sum_sent'' fin, dec_sum ''sum_received'' fin,
                 dec_sum ''sum_bidir_forward'' fin, dec_sum ''sum_bidir_reverse'' fin) of
             (Some a, Some _, Some c, Some d, Some e) \<Rightarrow>
               Some \<lparr>sd_error = err, sd_sum = a, sd_received = c, sd_forward = d, sd_backward = e\<rparr>
           | _ \<Rightarrow> None)
      | _ \<Rightarrow> None)"

text \<open>An error with the mark whether it wraps \<open>errNoDocument\<close>.\<close>

datatype iperf3_error = NoDocument string | Reported string

fun error_text :: "iperf3_error \<Rightarrow> string" where
  "error_text (NoDocument m) = ''iperf3: no result document in output: '' @ m"
| "error_text (Reported m) = m"

definition base_doc :: "iperf3_options \<Rightarrow> raw \<Rightarrow> engine_result" where
  "base_doc x data = \<lparr>er_download_bps = 0, er_upload_bps = 0, er_ping_ms = 0, er_jitter_ms = 0, er_packet_loss_pct = 0,
     er_bytes_down = 0, er_bytes_up = 0, er_server_id = io_host x, er_server_name = io_host x,
     er_server_host = io_host x @ '':'' @ Itoa (io_port x), er_isp = '''', er_external_ip = '''', er_result_url = '''', er_raw = data\<rparr>"

definition directed :: "iperf3_options \<Rightarrow> summary_doc \<Rightarrow> engine_result \<Rightarrow> engine_result" where
  "directed x s r =
     (if io_bidir x
      then r\<lparr>er_upload_bps := su_bps (sd_forward s), er_bytes_up := su_bytes (sd_forward s),
             er_download_bps := su_bps (sd_backward s), er_bytes_down := su_bytes (sd_backward s)\<rparr>
      else if io_protocol x = ''udp''
      then (if io_reverse x
            then r\<lparr>er_download_bps := su_bps (sd_sum s), er_bytes_down := su_bytes (sd_sum s)\<rparr>
            else r\<lparr>er_upload_bps := su_bps (sd_sum s), er_bytes_up := su_bytes (sd_sum s)\<rparr>)
           \<lparr>er_jitter_ms := su_jitter_ms (sd_sum s), er_packet_loss_pct := su_lost_percent (sd_sum s)\<rparr>
      else if io_reverse x
      then r\<lparr>er_download_bps := su_bps (sd_received s), er_bytes_down := su_bytes (sd_received s)\<rparr>
      else r\<lparr>er_upload_bps := su_bps (sd_received s), er_bytes_up := su_bytes (sd_received s)\<rparr>)"

definition parseSummary :: "(raw \<Rightarrow> string) \<Rightarrow> raw \<Rightarrow> iperf3_options \<Rightarrow> iperf3_error + engine_result" where
  "parseSummary err data x =
     (case Option.bind (members data) decode_summary of
        None \<Rightarrow> Inl (NoDocument (''parse json: '' @ err data))
      | Some s \<Rightarrow>
          if sd_error s \<noteq> [] then Inl (Reported (''iperf3: '' @ sd_error s))
          else let r = directed x s (base_doc x data)
               in if er_download_bps r = 0 \<and> er_upload_bps r = 0 then Inl (NoDocument ''no throughput in summary'') else Inr r)"

subsection \<open>The event stream\<close>

definition maxBps :: "engine_result \<Rightarrow> float64" where
  "maxBps r = (if er_upload_bps r < er_download_bps r then er_download_bps r else er_upload_bps r)"

definition progressFraction :: "int \<Rightarrow> int \<Rightarrow> float64" where
  "progressFraction elapsedMs durationS =
     (if durationS \<le> 0 then 0
      else let f = of_int elapsedMs / of_int (wrap64 (durationS * 1000)) in if 1 < f then 1 else f)"

definition to_int64 :: "float64 \<Rightarrow> int" where
  "to_int64 x = (if x < 0 then \<lceil>x\<rceil> else \<lfloor>x\<rfloor>)"

definition progress_of :: "phase \<Rightarrow> float64 \<Rightarrow> float64 \<Rightarrow> float64 \<Rightarrow> float64 \<Rightarrow> int \<Rightarrow> string \<Rightarrow> progress" where
  "progress_of ph fr bps jit loss elapsed name = \<lparr>p_phase = ph, p_progress = fr, p_bps = bps, p_ping_ms = 0,
     p_jitter_ms = jit, p_loss_pct = loss, p_elapsed_ms = elapsed, p_server_name = name\<rparr>"

definition interval_progress :: "iperf3_options \<Rightarrow> raw \<Rightarrow> progress option" where
  "interval_progress x data =
     map_option (\<lambda>s.
       let secs = (if su_end s = 0 then su_seconds s else su_end s); elapsed = to_int64 (secs * 1000)
       in progress_of (if io_reverse x then PhaseDownload else PhaseUpload) (progressFraction elapsed (io_duration_s x))
            (su_bps s) (su_jitter_ms s) (su_lost_percent s) elapsed (io_host x))
       (Option.bind (members data) (dec_sum ''sum''))"

definition done_progress :: "iperf3_options \<Rightarrow> engine_result \<Rightarrow> progress" where
  "done_progress x r = progress_of PhaseDone 1 (maxBps r) (er_jitter_ms r) (er_packet_loss_pct r)
     (wrap64 (io_duration_s x * 1000)) (io_host x)"

record stream_state =
  ss_res :: "engine_result option"
  ss_err :: string
  ss_prog :: "progress list"

text \<open>One line: \<open>Inl\<close> is the early return of a broken \<open>end\<close> event.\<close>

definition stream_line :: "(raw \<Rightarrow> string) \<Rightarrow> iperf3_options \<Rightarrow> stream_state \<Rightarrow> raw \<Rightarrow> (progress list \<times> iperf3_error) + stream_state" where
  "stream_line err x s line =
     (case (if line = RawEmpty then None else members line) of
        None \<Rightarrow> Inr s
      | Some kvs \<Rightarrow>
          (case dec_scalar as_str '''' ''event'' kvs of
             None \<Rightarrow> Inr s
           | Some ev \<Rightarrow>
               let data = dec_raw ''data'' kvs
               in if ev = ''interval''
                  then (case interval_progress x data of None \<Rightarrow> Inr s | Some p \<Rightarrow> Inr (s\<lparr>ss_prog := ss_prog s @ [p]\<rparr>))
                  else if ev = ''end''
                  then (case parseSummary err data x of Inl e \<Rightarrow> Inl (ss_prog s, e) | Inr r \<Rightarrow> Inr (s\<lparr>ss_res := Some r\<rparr>))
                  else if ev = ''error''
                  then Inr (s\<lparr>ss_err := (case Option.bind (members data) (dec_scalar as_str '''' ''error'') of
                                           Some m \<Rightarrow> if m \<noteq> [] then m else ss_err s | None \<Rightarrow> ss_err s),
                              ss_prog := ss_prog s @ [progress_of PhaseError 0 0 0 0 0 (io_host x)]\<rparr>)
                  else Inr s))"

fun stream_loop :: "(raw \<Rightarrow> string) \<Rightarrow> iperf3_options \<Rightarrow> stream_state \<Rightarrow> raw list \<Rightarrow> (progress list \<times> iperf3_error) + stream_state" where
  "stream_loop err x s [] = Inr s"
| "stream_loop err x s (l # ls) = (case stream_line err x s l of Inl e \<Rightarrow> Inl e | Inr s' \<Rightarrow> stream_loop err x s' ls)"

text \<open>\<open>scan_err\<close>: the scanner's error after the lines it delivered.\<close>

definition parseStreamJSONL ::
  "(raw \<Rightarrow> string) \<Rightarrow> raw list \<Rightarrow> string option \<Rightarrow> iperf3_options \<Rightarrow> progress list \<times> (iperf3_error + engine_result)" where
  "parseStreamJSONL err ls scan_err x =
     (case stream_loop err x \<lparr>ss_res = None, ss_err = '''', ss_prog = []\<rparr> ls of
        Inl (ps, e) \<Rightarrow> (ps, Inl e)
      | Inr s \<Rightarrow>
          (case scan_err of
             Some e \<Rightarrow> (ss_prog s, Inl (Reported (''iperf3: read stream: '' @ e)))
           | None \<Rightarrow>
               if ss_err s \<noteq> [] then (ss_prog s, Inl (Reported (''iperf3: '' @ ss_err s)))
               else case ss_res s of
                      None \<Rightarrow> (ss_prog s, Inl (NoDocument ''no end event in stream''))
                    | Some r \<Rightarrow> (ss_prog s @ [done_progress x r], Inr r)))"

subsection \<open>Running the client\<close>

text \<open>One execution of the program: it fails to start, or it writes lines (read up to an error), a text on standard error of which
  the last 4 KiB are kept, and ends with or without an error. \<open>xc_ctx\<close> is the error of the context when the program has ended.\<close>

record execution =
  xc_start :: "string option"
  xc_lines :: "raw list"
  xc_doc :: raw
  xc_read :: "string option"
  xc_stderr :: string
  xc_wait :: "string option"
  xc_ctx :: "string option"

definition stderrTailLimit :: nat where
  "stderrTailLimit = 4 * 1024"

text \<open>\<open>TailBuffer\<close>: a write appends and keeps the last bytes; reading trims.\<close>

definition tail_Write :: "nat \<Rightarrow> string \<Rightarrow> string \<Rightarrow> string" where
  "tail_Write limit buf p = (let b = buf @ p in if limit < length b then drop (length b - limit) b else b)"

definition tail_String :: "string \<Rightarrow> string" where
  "tail_String buf = TrimSpace buf"

definition runOnce ::
  "(raw \<Rightarrow> string) \<Rightarrow> (string list \<Rightarrow> string list \<Rightarrow> execution) \<Rightarrow> string \<Rightarrow> iperf3_options \<Rightarrow> bool \<Rightarrow> bool \<Rightarrow>
   progress list \<times> (string + engine_result)" where
  "runOnce err program bin x stream connTO =
     (let r = program (buildArgs x stream connTO) (password_env x)
      in case xc_start r of
           Some e \<Rightarrow> ([], Inl (''start '' @ bin @ '': '' @ e))
         | None \<Rightarrow>
             let (ps, parsed) = (if stream then parseStreamJSONL err (xc_lines r) (xc_read r) x
                                 else case xc_read r of
                                        Some e \<Rightarrow> ([], Inl (Reported e))
                                      | None \<Rightarrow> (case parseSummary err (xc_doc r) x of
                                                   Inl e \<Rightarrow> ([], Inl e) | Inr res \<Rightarrow> ([done_progress x res], Inr res)))
             in (ps, case (parsed, xc_ctx r) of
                       (Inr res, _) \<Rightarrow> Inr res
                     | (Inl e, Some c) \<Rightarrow> Inl c
                     | (Inl (Reported m), None) \<Rightarrow> Inl m
                     | (Inl (NoDocument m), None) \<Rightarrow>
                         (case xc_wait r of
                            None \<Rightarrow> Inl (error_text (NoDocument m))
                          | Some w \<Rightarrow>
                              let tail = tail_String (tail_Write stderrTailLimit [] (xc_stderr r))
                              in if tail \<noteq> [] then Inl (bin @ '': '' @ w @ '': '' @ tail) else Inl (bin @ '': '' @ w))))"

definition maxPortAttempts :: int where
  "maxPortAttempts = 5"

definition isBusyErr :: "string \<Rightarrow> bool" where
  "isBusyErr m = Contains (ToLower m) ''server is busy''"

definition last_port :: "iperf3_options \<Rightarrow> int" where
  "last_port x =
     (let end1 = (if io_port x < io_port_range_end x then io_port_range_end x else io_port x)
      in if io_port x + maxPortAttempts - 1 < end1 then io_port x + maxPortAttempts - 1 else end1)"

text \<open>The loop over the ports; \<open>attempt\<close> is one call of \<open>runOnce\<close>.\<close>

function port_loop ::
  "(int \<Rightarrow> progress list \<times> (string + 'r)) \<Rightarrow> string \<Rightarrow> int \<Rightarrow> int \<Rightarrow> string \<Rightarrow> progress list \<times> (string + 'r)" where
  "port_loop attempt host port end lastErr =
     (if end < port then ([], Inl lastErr)
      else let p = progress_of PhaseConnecting 0 0 0 0 0 (host @ '':'' @ Itoa port)
           in case attempt port of
                (ps, Inr res) \<Rightarrow> (p # ps, Inr res)
              | (ps, Inl e) \<Rightarrow>
                  if \<not> isBusyErr e then (p # ps, Inl e)
                  else case port_loop attempt host (port + 1) end e of (ps', out) \<Rightarrow> (p # ps @ ps', out))"
  by auto
termination by (relation "measure (\<lambda>(_, _, port, end, _). nat (end + 1 - port))") auto

declare port_loop.simps [simp del]

definition iperf3_Run ::
  "(raw \<Rightarrow> string) \<Rightarrow> (string list \<Rightarrow> string list \<Rightarrow> execution) \<Rightarrow> string \<times> bool \<Rightarrow> iperf3_engine \<Rightarrow> raw \<Rightarrow>
   iperf3_engine \<times> progress list \<times> (string + engine_result)" where
  "iperf3_Run err program version e opts =
     (case parseOptions err opts of
        Inl m \<Rightarrow> (e, [], Inl m)
      | Inr x \<Rightarrow>
          let (e', stream, connTO) = (if ie_force_summary e then (e, False, False) else probe version e)
          in (e', port_loop (\<lambda>port. runOnce err program (ie_bin e) (x\<lparr>io_port := port\<rparr>) stream connTO)
                    (io_host x) (io_port x) (last_port x) ''''))"

end
