(* ===== verification/Iperf3_Props.thy ===== *)
theory Iperf3_Props
  imports Iperf3 Target_Props Settings_Api_Props
begin

text \<open>
  What the iperf3 engine guarantees: validated options are in range, retries visit the ports of the range in order and only past
  busy servers, a result measures the directions the options ask for, and the host rotation of the runner is the host tested.
\<close>

subsection \<open>Options\<close>

lemma parseOptions_sound:
  assumes "parseOptions err opts = Inr x"
  shows "io_host x \<noteq> [] \<and> 1 \<le> io_port x \<and> io_port x \<le> 65535 \<and> io_port_range_end x \<le> 65535 \<and>
    (io_port_range_end x = 0 \<or> io_port x \<le> io_port_range_end x) \<and> io_protocol x \<in> {''tcp'', ''udp''} \<and>
    1 \<le> io_parallel x \<and> 1 \<le> io_duration_s x \<and> \<not> (io_reverse x \<and> io_bidir x) \<and> \<not> (io_bidir x \<and> io_protocol x = ''udp'')"
proof -
  obtain y where x: "x = with_defaults y" and c: "check_iperf3 (with_defaults y) = None"
    using assms by (auto simp: parseOptions_def split: sum.splits option.splits)
  have "io_host (with_defaults y) = [] \<Longrightarrow> io_hosts (with_defaults y) = [] \<or> [] \<in> set (io_hosts (with_defaults y))"
    by (auto simp: with_defaults_def with_host_def Let_def split: list.splits if_splits)
  with c show ?thesis
    unfolding x check_iperf3_def firstErr_None by (auto simp: not_less)
qed

subsection \<open>Retries\<close>

fun busy_out :: "string + 'r \<Rightarrow> bool" where
  "busy_out (Inl e) = isBusyErr e"
| "busy_out (Inr r) = False"

text \<open>The ports contacted: up to and including the first one whose attempt did not find the server busy.\<close>

definition tried :: "(int \<Rightarrow> string + 'r) \<Rightarrow> int list \<Rightarrow> int list" where
  "tried f ports = take (Suc (length (takeWhile (\<lambda>p. busy_out (f p)) ports))) ports"

definition contacts :: "progress list \<Rightarrow> string list" where
  "contacts ps = map p_server_name (filter (\<lambda>p. p_phase p = PhaseConnecting) ps)"

lemma contacts_simps [simp]:
  "contacts [] = []" "contacts (ps @ qs) = contacts ps @ contacts qs"
  "contacts (progress_of PhaseConnecting a b c d e n # ps) = n # contacts ps"
  by (simp_all add: contacts_def progress_of_def)

lemma port_loop_spec:
  assumes "port \<le> end" "\<And>p. contacts (fst (attempt p)) = []"
  shows "snd (port_loop attempt host port end lastErr) = snd (attempt (last (tried (\<lambda>p. snd (attempt p)) [port..end]))) \<and>
    contacts (fst (port_loop attempt host port end lastErr)) =
      map (\<lambda>p. host @ '':'' @ Itoa p) (tried (\<lambda>p. snd (attempt p)) [port..end])"
  using assms
proof (induction attempt host port "end" lastErr rule: port_loop.induct)
  case (1 attempt host port "end" lastErr)
  obtain ps out where a: "attempt port = (ps, out)" by (meson surj_pair)
  from a "1.prems"(2) [of port] have c: "contacts ps = []" by simp
  have ports: "[port..end] = port # [port + 1..end]" using "1.prems"(1) by (simp add: upto_rec1)
  show ?case
  proof (cases "busy_out out")
    case False
    then have "tried (\<lambda>p. snd (attempt p)) [port..end] = [port]" by (simp add: tried_def ports a)
    with a False "1.prems"(1) c show ?thesis
      by (cases out) (simp_all add: port_loop.simps [of attempt host port] Let_def)
  next
    case True
    then obtain e where out: "out = Inl e" "isBusyErr e" by (cases out) auto
    obtain ps' out' where l: "port_loop attempt host (port + 1) end e = (ps', out')" by (meson surj_pair)
    show ?thesis
    proof (cases "port + 1 \<le> end")
      case True
      have t: "tried (\<lambda>p. snd (attempt p)) [port..end] = port # tried (\<lambda>p. snd (attempt p)) [port + 1..end]"
        using out by (simp add: tried_def ports a)
      have ne: "tried (\<lambda>p. snd (attempt p)) [port + 1..end] \<noteq> []" using True by (simp add: tried_def)
      from "1.IH" [OF _ refl a [symmetric] out(1) _ True "1.prems"(2)] "1.prems"(1) out(2) l
      have "out' = snd (attempt (last (tried (\<lambda>p. snd (attempt p)) [port + 1..end])))"
        "contacts ps' = map (\<lambda>p. host @ '':'' @ Itoa p) (tried (\<lambda>p. snd (attempt p)) [port + 1..end])" by simp_all
      with a out "1.prems"(1) l c ne show ?thesis
        by (simp add: port_loop.simps [of attempt host port] Let_def t)
    next
      case False
      then have "end = port" using "1.prems"(1) by simp
      then have t: "tried (\<lambda>p. snd (attempt p)) [port..end] = [port]" by (simp add: tried_def)
      have "port_loop attempt host (port + 1) end e = ([], Inl e)" using False by (simp add: port_loop.simps)
      with a out "1.prems"(1) c show ?thesis
        by (simp add: port_loop.simps [of attempt host port] Let_def t)
    qed
  qed
qed

text \<open>A property of the progress updates that intervals and error events have holds for everything a stream emits.\<close>

lemma stream_loop_progress:
  assumes "\<And>d p. interval_progress x d = Some p \<Longrightarrow> Q p" "Q (progress_of PhaseError 0 0 0 0 0 (io_host x))"
  shows "list_all Q (ss_prog s) \<Longrightarrow>
    (case stream_loop err x s ls of Inl (ps, e) \<Rightarrow> list_all Q ps | Inr s' \<Rightarrow> list_all Q (ss_prog s'))"
proof (induction ls arbitrary: s)
  case (Cons l ls)
  have l: "case stream_line err x s l of Inl (ps, e) \<Rightarrow> list_all Q ps | Inr s' \<Rightarrow> list_all Q (ss_prog s')"
    using Cons.prems assms
    by (auto simp: stream_line_def Let_def split: option.splits sum.splits)
  show ?case
  proof (cases "stream_line err x s l")
    case (Inr s')
    with l Cons.IH [of s'] show ?thesis by simp
  qed (use l in auto)
qed simp

lemma parseStream_progress:
  assumes "\<And>d p. interval_progress x d = Some p \<Longrightarrow> Q p" "Q (progress_of PhaseError 0 0 0 0 0 (io_host x))"
    "\<And>r. Q (done_progress x r)"
  shows "list_all Q (fst (parseStreamJSONL err ls sc x))"
proof -
  note k = stream_loop_progress [of x Q, OF assms(1,2), where s = "\<lparr>ss_res = None, ss_err = '''', ss_prog = []\<rparr>" and err = err and ls = ls]
  show ?thesis
  proof (cases "stream_loop err x \<lparr>ss_res = None, ss_err = '''', ss_prog = []\<rparr> ls")
    case (Inl a)
    with k show ?thesis by (cases a) (simp add: parseStreamJSONL_def)
  next
    case (Inr s)
    with k assms(3) show ?thesis by (simp add: parseStreamJSONL_def split: option.split)
  qed
qed

lemma runOnce_progress:
  assumes "\<And>d p. interval_progress x d = Some p \<Longrightarrow> Q p" "Q (progress_of PhaseError 0 0 0 0 0 (io_host x))"
    "\<And>r. Q (done_progress x r)"
  shows "list_all Q (fst (runOnce err program bin x stream connTO))"
proof -
  have k: "list_all Q (fst (parseStreamJSONL err ls sc x))" for ls sc by (rule parseStream_progress [OF assms])
  show ?thesis
    using k assms(3) by (auto simp: runOnce_def Let_def split: option.splits sum.splits prod.splits) (metis fst_conv)+
qed

lemma interval_phase: "interval_progress x d = Some p \<Longrightarrow> p_phase p \<noteq> PhaseConnecting"
  by (auto simp: interval_progress_def progress_of_def Let_def split: if_splits)

lemma runOnce_contacts: "contacts (fst (runOnce err program bin x stream connTO)) = []"
proof -
  have "list_all (\<lambda>p. p_phase p \<noteq> PhaseConnecting) (fst (runOnce err program bin x stream connTO))"
    by (rule runOnce_progress) (auto simp: interval_phase done_progress_def progress_of_def)
  then show ?thesis by (auto simp: contacts_def list_all_iff filter_empty_conv)
qed

lemma ToLower_hosts: "ToLower ''hosts'' = ''hosts''" "ToLower ''port'' = ''port''" "ToLower ''port_range_end'' = ''port_range_end''"
  "ToLower ''protocol'' = ''protocol''" "ToLower ''reverse'' = ''reverse''" "ToLower ''bidir'' = ''bidir''"
  "ToLower ''parallel'' = ''parallel''" "ToLower ''duration_s'' = ''duration_s''" "ToLower ''udp_bitrate'' = ''udp_bitrate''"
  "ToLower ''bind'' = ''bind''" "ToLower ''username'' = ''username''" "ToLower ''password'' = ''password''"
  "ToLower ''rsa_public_key_path'' = ''rsa_public_key_path''" "ToLower ''host'' = ''host''"
  by code_simp+

lemma ToLower_summary: "ToLower ''error'' = ''error''" "ToLower ''start'' = ''start''" "ToLower ''version'' = ''version''"
  "ToLower ''connecting_to'' = ''connecting_to''" "ToLower ''end'' = ''end''" "ToLower ''sum'' = ''sum''" "ToLower ''sum_sent'' = ''sum_sent''"
  "ToLower ''sum_received'' = ''sum_received''" "ToLower ''sum_bidir_forward'' = ''sum_bidir_forward''"
  "ToLower ''sum_bidir_reverse'' = ''sum_bidir_reverse''" "ToLower ''seconds'' = ''seconds''" "ToLower ''bytes'' = ''bytes''"
  "ToLower ''bits_per_second'' = ''bits_per_second''" "ToLower ''jitter_ms'' = ''jitter_ms''" "ToLower ''lost_percent'' = ''lost_percent''"
  by code_simp+

text \<open>A target on ports 5201 to 5203: the first port is busy, the second one measures the upload.\<close>

definition range_opts :: raw where
  "range_opts = RawDoc (JObj [(''host'', JStr ''a''), (''port'', JNum 5201), (''port_range_end'', JNum 5203)])"

definition busy_program :: "string list \<Rightarrow> string list \<Rightarrow> execution" where
  "busy_program args env =
     \<lparr>xc_start = None, xc_lines = [],
      xc_doc = (if ''5201'' \<in> set args then RawDoc (JObj [(''error'', JStr ''the server is busy running a test'')])
                else RawDoc (JObj [(''end'', JObj [(''sum_received'', JObj [(''bytes'', JNum 1250), (''bits_per_second'', JNum 1000)])])])),
      xc_read = None, xc_stderr = '''', xc_wait = None, xc_ctx = None\<rparr>"

definition summary_engine :: iperf3_engine where
  "summary_engine = \<lparr>ie_bin = ''iperf3'', ie_force_summary = True, ie_probed = False, ie_stream = False, ie_conn_to = False\<rparr>"

definition range_options :: iperf3_options where
  "range_options = \<lparr>io_host = ''a'', io_hosts = [], io_port = 5201, io_port_range_end = 5203, io_protocol = ''tcp'',
     io_reverse = False, io_bidir = False, io_parallel = 1, io_duration_s = 10, io_udp_bitrate = '''', io_bind = '''',
     io_username = '''', io_password = '''', io_rsa_public_key_path = ''''\<rparr>"

definition range_result :: engine_result where
  "range_result = (base_doc (range_options\<lparr>io_port := 5202\<rparr>) (xc_doc (busy_program [] [])))\<lparr>er_upload_bps := 1000, er_bytes_up := 1250\<rparr>"

definition range_events :: "progress list" where
  "range_events = [progress_of PhaseConnecting 0 0 0 0 0 ''a:5201'', progress_of PhaseConnecting 0 0 0 0 0 ''a:5202'',
     done_progress (range_options\<lparr>io_port := 5202\<rparr>) range_result]"

lemmas field_eval = dec_scalar_def dec_strs_def dec_members_def dec_sum_def field_vals_def EqualFold_def ToLower_hosts ToLower_summary

lemma range_options_parse: "parseOptions (\<lambda>_. ''malformed'') range_opts = Inr range_options"
proof -
  have "decode_iperf3 [(''host'', JStr ''a''), (''port'', JNum 5201), (''port_range_end'', JNum 5203)] =
      Some (range_options\<lparr>io_protocol := '''', io_parallel := 0, io_duration_s := 0\<rparr>)"
    by (simp add: decode_iperf3_def field_eval range_options_def)
  moreover have "with_defaults (range_options\<lparr>io_protocol := '''', io_parallel := 0, io_duration_s := 0\<rparr>) = range_options"
    by (simp add: with_defaults_def with_host_def range_options_def)
  moreover have "check_iperf3 range_options = None"
    unfolding check_iperf3_def firstErr_None by (simp add: range_options_def)
  ultimately show ?thesis by (simp add: parseOptions_def unmarshal_iperf3_def range_opts_def)
qed

lemma Itoa_ports: "Itoa 5201 = ''5201''" "Itoa 5202 = ''5202''" "Itoa 10 = ''10''" "Itoa 1 = ''1''"
proof -
  have "digit_char 0 = CHR ''0''" "digit_char 1 = CHR ''1''" "digit_char 2 = CHR ''2''" "digit_char 5 = CHR ''5''" by code_simp+
  then show "Itoa 5201 = ''5201''" "Itoa 5202 = ''5202''" "Itoa 10 = ''10''" "Itoa 1 = ''1''"
    by (simp_all add: Itoa_def nat_digits.simps)
qed

lemma busy_attempts:
  "runOnce err busy_program bin (range_options\<lparr>io_port := 5201\<rparr>) False False = ([], Inl ''iperf3: the server is busy running a test'')"
  "runOnce err busy_program bin (range_options\<lparr>io_port := 5202\<rparr>) False False =
     ([done_progress (range_options\<lparr>io_port := 5202\<rparr>) range_result], Inr range_result)"
proof -
  let ?x = "range_options\<lparr>io_port := 5202\<rparr>"
  have a: "buildArgs (range_options\<lparr>io_port := 5201\<rparr>) False False = [''-c'', ''a'', ''-p'', ''5201'', ''-J'', ''-t'', ''10'', ''-P'', ''1'']"
    "buildArgs ?x False False = [''-c'', ''a'', ''-p'', ''5202'', ''-J'', ''-t'', ''10'', ''-P'', ''1'']"
    by (simp_all add: buildArgs_def range_options_def Itoa_ports)
  have d: "xc_doc (busy_program [''-c'', ''a'', ''-p'', ''5202'', ''-J'', ''-t'', ''10'', ''-P'', ''1''] env) = xc_doc (busy_program [] [])" for env
    by (simp add: busy_program_def)
  have m: "map_option sd_error (Option.bind (members (RawDoc (JObj [(''error'', JStr e)]))) decode_summary) = Some e" for e
    by (simp add: decode_summary_def decode_sum_def start_ok_def field_eval)
  have s: "Option.bind (members (xc_doc (busy_program [] []))) decode_summary =
      Some \<lparr>sd_error = '''', sd_sum = \<lparr>su_start = 0, su_end = 0, su_seconds = 0, su_bytes = 0, su_bps = 0, su_jitter_ms = 0, su_lost_percent = 0\<rparr>,
        sd_received = \<lparr>su_start = 0, su_end = 0, su_seconds = 0, su_bytes = 1250, su_bps = 1000, su_jitter_ms = 0, su_lost_percent = 0\<rparr>,
        sd_forward = \<lparr>su_start = 0, su_end = 0, su_seconds = 0, su_bytes = 0, su_bps = 0, su_jitter_ms = 0, su_lost_percent = 0\<rparr>,
        sd_backward = \<lparr>su_start = 0, su_end = 0, su_seconds = 0, su_bytes = 0, su_bps = 0, su_jitter_ms = 0, su_lost_percent = 0\<rparr>\<rparr>"
    by (simp add: busy_program_def decode_summary_def decode_sum_def start_ok_def field_eval)
  have p: "parseSummary err (xc_doc (busy_program [] [])) ?x = Inr range_result"
    by (simp add: parseSummary_def s directed_def range_result_def base_doc_def range_options_def)
  show "runOnce err busy_program bin (range_options\<lparr>io_port := 5201\<rparr>) False False = ([], Inl ''iperf3: the server is busy running a test'')"
    using m [of "''the server is busy running a test''"]
    by (auto simp: runOnce_def a busy_program_def parseSummary_def)
  show "runOnce err busy_program bin ?x False False = ([done_progress ?x range_result], Inr range_result)"
    using p by (simp add: runOnce_def a d Let_def) (simp add: busy_program_def)
qed

lemma busy_run: "iperf3_Run (\<lambda>_. ''malformed'') busy_program ('''', True) summary_engine range_opts =
    (summary_engine, range_events, Inr range_result)"
proof -
  have b: "isBusyErr ''iperf3: the server is busy running a test''" by code_simp
  have r: "io_host range_options = ''a''" "io_port range_options = 5201" "last_port range_options = 5203"
    by (simp_all add: range_options_def last_port_def maxPortAttempts_def)
  show ?thesis
    by (simp add: iperf3_Run_def range_options_parse r port_loop.simps busy_attempts b Itoa_ports summary_engine_def range_events_def Let_def)
qed

text \<open>C38: an iperf3 run contacts consecutive ports from the configured one, each announced by one connecting event, and goes on
  to the next only while the server reports it is busy; its outcome is that of the last port contacted, the first one that was not
  busy if there is one. All ports are valid, lie in the configured range, and there are at most five of them.\<close>

theorem busy_ports_are_retried:
  assumes "iperf3_Run err program version e opts = (e', ps, out)" "parseOptions err opts = Inr x"
  shows "\<exists>stream connTO. let f = (\<lambda>port. snd (runOnce err program (ie_bin e) (x\<lparr>io_port := port\<rparr>) stream connTO));
      ports = [io_port x..last_port x]
    in out = f (last (tried f ports)) \<and> contacts ps = map (\<lambda>p. io_host x @ '':'' @ Itoa p) (tried f ports) \<and>
       ports \<noteq> [] \<and> length ports \<le> 5 \<and> set ports \<subseteq> {1..65535} \<and>
       set ports \<subseteq> {io_port x..max (io_port x) (io_port_range_end x)}"
proof -
  obtain e1 stream connTO where p: "(if ie_force_summary e then (e, False, False) else probe version e) = (e1, stream, connTO)"
    by (metis prod_cases3)
  let ?a = "\<lambda>port. runOnce err program (ie_bin e) (x\<lparr>io_port := port\<rparr>) stream connTO"
  have run: "port_loop ?a (io_host x) (io_port x) (last_port x) '''' = (ps, out)"
    using assms p by (simp add: iperf3_Run_def Let_def)
  have b: "io_port x \<le> last_port x" "last_port x \<le> io_port x + 4" "last_port x \<le> max (io_port x) (io_port_range_end x)"
    by (auto simp: last_port_def maxPortAttempts_def Let_def)
  from port_loop_spec [of "io_port x" "last_port x" ?a "io_host x" "''''"] runOnce_contacts b(1) run
  have "out = snd (?a (last (tried (\<lambda>p. snd (?a p)) [io_port x..last_port x])))"
    "contacts ps = map (\<lambda>p. io_host x @ '':'' @ Itoa p) (tried (\<lambda>p. snd (?a p)) [io_port x..last_port x])" by simp_all
  moreover have "[io_port x..last_port x] \<noteq> []" "length [io_port x..last_port x] \<le> 5"
    "set [io_port x..last_port x] \<subseteq> {1..65535}"
    "set [io_port x..last_port x] \<subseteq> {io_port x..max (io_port x) (io_port_range_end x)}"
    using b parseOptions_sound [OF assms(2)] by auto
  ultimately show ?thesis unfolding Let_def by blast
qed

lemma busy_ports_are_retried_witness:
  "contacts range_events = [''a:5201'', ''a:5202''] \<and>
   (\<exists>stream connTO. let f = (\<lambda>port. snd (runOnce (\<lambda>_. ''malformed'') busy_program ''iperf3'' (range_options\<lparr>io_port := port\<rparr>) stream connTO));
        ports = [5201..5203] in Inr range_result = f (last (tried f ports)))"
proof -
  have c: "contacts range_events = [''a:5201'', ''a:5202'']"
    by (simp add: range_events_def done_progress_def progress_of_def contacts_def)
  have e: "ie_bin summary_engine = ''iperf3''" "io_port range_options = 5201" "last_port range_options = 5203"
    by (simp_all add: range_options_def summary_engine_def last_port_def maxPortAttempts_def)
  from busy_ports_are_retried [OF busy_run range_options_parse] c show ?thesis unfolding Let_def e by blast
qed

subsection \<open>Results\<close>

text \<open>What a result says about the options it was measured with.\<close>

definition follows :: "iperf3_options \<Rightarrow> engine_result \<Rightarrow> bool" where
  "follows x r \<longleftrightarrow> er_server_name r = io_host x \<and> (er_download_bps r \<noteq> 0 \<or> er_upload_bps r \<noteq> 0) \<and>
     (io_bidir x \<or> (if io_reverse x then er_upload_bps r = 0 \<and> er_bytes_up r = 0 else er_download_bps r = 0 \<and> er_bytes_down r = 0)) \<and>
     (io_protocol x = ''udp'' \<or> (er_jitter_ms r = 0 \<and> er_packet_loss_pct r = 0))"

lemma parseSummary_follows:
  assumes "parseSummary err d x = Inr r" "\<not> (io_bidir x \<and> io_protocol x = ''udp'')"
  shows "follows x r"
  using assms by (auto simp: parseSummary_def Let_def follows_def directed_def base_doc_def split: option.splits if_splits)

lemma stream_follows:
  assumes "\<not> (io_bidir x \<and> io_protocol x = ''udp'')" "\<And>r. ss_res s = Some r \<Longrightarrow> follows x r"
    and "stream_loop err x s ls = Inr s'" "ss_res s' = Some r"
  shows "follows x r"
  using assms(2-)
proof (induction ls arbitrary: s)
  case (Cons l ls)
  then obtain s1 where s1: "stream_line err x s l = Inr s1" and rest: "stream_loop err x s1 ls = Inr s'"
    by (auto split: sum.splits)
  have "follows x r'" if "ss_res s1 = Some r'" for r'
    using s1 that Cons.prems(1) parseSummary_follows [OF _ assms(1)]
    by (auto simp: stream_line_def Let_def split: option.splits sum.splits if_splits)
  from Cons.IH [OF this rest Cons.prems(3)] show ?case .
qed auto

lemma runOnce_follows:
  assumes "runOnce err program bin x stream connTO = (ps, Inr r)" "\<not> (io_bidir x \<and> io_protocol x = ''udp'')"
  shows "follows x r \<and> ps \<noteq> [] \<and> last ps = done_progress x r"
proof -
  let ?r = "program (buildArgs x stream connTO) (password_env x)"
  have "(stream \<and> parseStreamJSONL err (xc_lines ?r) (xc_read ?r) x = (ps, Inr r)) \<or>
      (\<not> stream \<and> parseSummary err (xc_doc ?r) x = Inr r \<and> ps = [done_progress x r])"
    using assms(1) by (auto simp: runOnce_def Let_def split: option.splits sum.splits prod.splits if_splits iperf3_error.splits)
  then show ?thesis
  proof
    assume "stream \<and> parseStreamJSONL err (xc_lines ?r) (xc_read ?r) x = (ps, Inr r)"
    then obtain s where s: "stream_loop err x \<lparr>ss_res = None, ss_err = '''', ss_prog = []\<rparr> (xc_lines ?r) = Inr s"
      "ss_res s = Some r" "ps = ss_prog s @ [done_progress x r]"
      by (auto simp: parseStreamJSONL_def split: sum.splits option.splits if_splits)
    from stream_follows [OF assms(2) _ s(1,2)] s(3) show ?thesis by simp
  next
    assume a: "\<not> stream \<and> parseSummary err (xc_doc ?r) x = Inr r \<and> ps = [done_progress x r]"
    then have "parseSummary err (xc_doc ?r) x = Inr r" by blast
    from parseSummary_follows [OF this assms(2)] a show ?thesis by simp
  qed
qed

lemma port_loop_last:
  assumes "port_loop attempt host port end lastErr = (ps, Inr r)"
  shows "\<exists>p qs ps'. attempt p = (ps', Inr r) \<and> ps = qs @ ps'"
  using assms
proof (induction attempt host port "end" lastErr arbitrary: ps rule: port_loop.induct)
  case (1 attempt host port "end" lastErr)
  obtain ps1 out where a: "attempt port = (ps1, out)" by (meson surj_pair)
  let ?p = "progress_of PhaseConnecting 0 0 0 0 0 (host @ '':'' @ Itoa port)"
  from "1.prems" have le: "\<not> end < port" by (auto simp: port_loop.simps [of attempt host port])
  show ?case
  proof (cases out)
    case (Inr r')
    with "1.prems" a le have "attempt port = (ps1, Inr r)" "ps = [?p] @ ps1"
      by (auto simp: port_loop.simps [of attempt host port] Let_def)
    then show ?thesis by blast
  next
    case (Inl e)
    with "1.prems" a le have busy: "isBusyErr e" by (auto simp: port_loop.simps [of attempt host port] Let_def split: if_splits)
    obtain ps2 out2 where l: "port_loop attempt host (port + 1) end e = (ps2, out2)" by (meson surj_pair)
    with "1.prems" a le Inl busy have o: "out2 = Inr r" "ps = ?p # ps1 @ ps2"
      by (auto simp: port_loop.simps [of attempt host port] Let_def)
    from "1.IH" [OF le refl a [symmetric] Inl _ l [unfolded o(1)]] busy
    obtain p qs ps' where "attempt p = (ps', Inr r)" "ps2 = qs @ ps'" by auto
    with o have "attempt p = (ps', Inr r)" "ps = (?p # ps1 @ qs) @ ps'" by simp_all
    then show ?thesis by blast
  qed
qed

lemma port_loop_progress:
  assumes "\<And>p. list_all Q (fst (attempt p))" "\<And>n. Q (progress_of PhaseConnecting 0 0 0 0 0 n)"
  shows "list_all Q (fst (port_loop attempt host port end lastErr))"
  using assms
proof (induction attempt host port "end" lastErr rule: port_loop.induct)
  case (1 attempt host port "end" lastErr)
  obtain ps1 out where a: "attempt port = (ps1, out)" by (meson surj_pair)
  with "1.prems"(1) [of port] have q: "list_all Q ps1" by simp
  show ?case
  proof (cases "end < port")
    case False
    show ?thesis
    proof (cases out)
      case (Inl e)
      obtain ps2 out2 where l: "port_loop attempt host (port + 1) end e = (ps2, out2)" by (meson surj_pair)
      show ?thesis
      proof (cases "isBusyErr e")
        case True
        from "1.IH" [OF False refl a [symmetric] Inl _ "1.prems"] True l have "list_all Q ps2" by simp
        with q "1.prems"(2) False a Inl True l show ?thesis by (simp add: port_loop.simps [of attempt host port] Let_def)
      qed (use q "1.prems"(2) False a Inl in \<open>simp add: port_loop.simps [of attempt host port] Let_def\<close>)
    qed (use q "1.prems"(2) False a in \<open>simp add: port_loop.simps [of attempt host port] Let_def\<close>)
  qed (simp add: port_loop.simps [of attempt host port])
qed

lemma progress_bounded: "progressFraction e d \<le> 1"
  by (simp add: progressFraction_def Let_def)

text \<open>A successful iperf3 run reports what its options asked for: the host is the configured one, some throughput was measured,
  a one-way test leaves the other direction at zero, only UDP reports jitter and loss; the last progress update is the final one
  with the values of the result, and no update exceeds the whole of its phase.\<close>

theorem result_follows_options:
  assumes "iperf3_Run err program version e opts = (e', ps, Inr r)" "parseOptions err opts = Inr x"
  shows "follows x r \<and> ps \<noteq> [] \<and> last ps = done_progress x r \<and> list_all (\<lambda>p. p_progress p \<le> 1) ps"
proof -
  obtain e1 stream connTO where p: "(if ie_force_summary e then (e, False, False) else probe version e) = (e1, stream, connTO)"
    by (metis prod_cases3)
  let ?a = "\<lambda>port. runOnce err program (ie_bin e) (x\<lparr>io_port := port\<rparr>) stream connTO"
  have run: "port_loop ?a (io_host x) (io_port x) (last_port x) '''' = (ps, Inr r)"
    using assms p by (simp add: iperf3_Run_def Let_def)
  obtain port qs ps' where a: "?a port = (ps', Inr r)" "ps = qs @ ps'" using port_loop_last [OF run] by blast
  have udp: "\<not> (io_bidir (x\<lparr>io_port := port\<rparr>) \<and> io_protocol (x\<lparr>io_port := port\<rparr>) = ''udp'')"
    using parseOptions_sound [OF assms(2)] by simp
  from runOnce_follows [OF a(1) udp] a(2)
  have "follows x r" "ps \<noteq> []" "last ps = done_progress x r" by (simp_all add: follows_def done_progress_def)
  moreover have "list_all (\<lambda>p. p_progress p \<le> 1) (fst (port_loop ?a (io_host x) (io_port x) (last_port x) ''''))"
    by (rule port_loop_progress, rule runOnce_progress)
      (auto simp: interval_progress_def done_progress_def progress_of_def progress_bounded Let_def)
  ultimately show ?thesis using run by simp
qed

lemma result_follows_options_witness:
  "follows range_options range_result \<and> last range_events = done_progress range_options range_result \<and>
   er_upload_bps range_result = 1000 \<and> er_server_host range_result = ''a:5202''"
proof -
  have v: "er_upload_bps range_result = 1000" "er_server_host range_result = ''a:5202''"
    by (simp_all add: range_result_def base_doc_def range_options_def Itoa_ports)
  from result_follows_options [OF busy_run range_options_parse] v show ?thesis by simp
qed

subsection \<open>Rotation\<close>

text \<open>A document whose keys differ by more than case, with the two keys rotation touches spelt as it expects.\<close>

definition plain_keys :: "(string \<times> json) list \<Rightarrow> bool" where
  "plain_keys kvs \<longleftrightarrow> inj_on ToLower (set (map fst kvs)) \<and> distinct (map fst kvs) \<and>
     (\<forall>k\<in>set (map fst kvs). ToLower k \<in> {''host'', ''hosts''} \<longrightarrow> ToLower k = k)"

lemma plain_exact:
  assumes "plain_keys kvs" "k \<in> set (map fst kvs)" "ToLower k \<in> {''host'', ''hosts''}"
  shows "ToLower k = k"
proof -
  have "\<forall>k\<in>set (map fst kvs). ToLower k \<in> {''host'', ''hosts''} \<longrightarrow> ToLower k = k"
    using assms(1) unfolding plain_keys_def by (elim conjE)
  from mp [OF bspec [OF this assms(2)] assms(3)] show ?thesis .
qed

lemma short_eq: "length xs \<le> 1 \<Longrightarrow> length ys \<le> 1 \<Longrightarrow> set xs = set ys \<Longrightarrow> xs = ys"
  by (cases xs; cases ys) auto

lemma field_vals_short:
  assumes "inj_on ToLower (set (map fst kvs))" "distinct (map fst kvs)"
  shows "length (filter (\<lambda>(k, v). EqualFold k name) kvs) \<le> 1"
proof (rule ccontr)
  let ?F = "filter (\<lambda>(k, v). EqualFold k name) kvs"
  assume "\<not> length ?F \<le> 1"
  then obtain a b rest where F: "?F = a # b # rest" by (cases ?F; cases "tl ?F") auto
  have "distinct (map fst ?F)" using assms(2) distinct_map_filter by blast
  then have ne: "fst a \<noteq> fst b" by (simp add: F)
  have "a \<in> set ?F" "b \<in> set ?F" by (simp_all add: F)
  then have "fst a \<in> set (map fst kvs)" "fst b \<in> set (map fst kvs)" "ToLower (fst a) = ToLower (fst b)"
    by (auto simp: EqualFold_def)
  with inj_onD [OF assms(1)] ne show False by blast
qed

lemma field_vals_same:
  assumes "inj_on ToLower (set (map fst kvs))" "distinct (map fst kvs)" "inj_on ToLower (set (map fst kws))" "distinct (map fst kws)"
    and "\<And>k v. EqualFold k name \<Longrightarrow> (k, v) \<in> set kvs \<longleftrightarrow> (k, v) \<in> set kws"
  shows "field_vals name kvs = field_vals name kws"
proof -
  have "set (filter (\<lambda>(k, v). EqualFold k name) kvs) = set (filter (\<lambda>(k, v). EqualFold k name) kws)" using assms(5) by auto
  from short_eq [OF field_vals_short [OF assms(1,2)] field_vals_short [OF assms(3,4)] this] show ?thesis
    by (simp add: field_vals_def)
qed

text \<open>The members of the rotated document.\<close>

definition rotated_members :: "(string \<times> json) list \<Rightarrow> json \<Rightarrow> (string \<times> json) list" where
  "rotated_members kvs j = (let m = ((obj_map kvs)(''hosts'' := None))(''host'' \<mapsto> j)
     in map (\<lambda>k. (k, the (m k))) (filter (\<lambda>k. m k \<noteq> None) (sort (remdups (''host'' # map fst kvs)))))"

lemma rotated_keys:
  "distinct (map fst (rotated_members kvs j)) \<and> set (map fst (rotated_members kvs j)) \<subseteq> insert ''host'' (set (map fst kvs))"
proof -
  have "map fst (map (\<lambda>k. (k, f k)) ks) = ks" for f :: "string \<Rightarrow> json" and ks by (induction ks) simp_all
  then have "map fst (rotated_members kvs j) = filter (\<lambda>k. (((obj_map kvs)(''hosts'' := None))(''host'' \<mapsto> j)) k \<noteq> None)
      (sort (remdups (''host'' # map fst kvs)))"
    unfolding rotated_members_def Let_def .
  then show ?thesis by auto
qed

lemma obj_map_mem: "distinct (map fst kvs) \<Longrightarrow> obj_map kvs k = Some v \<longleftrightarrow> (k, v) \<in> set kvs"
  using map_of_eq_Some_iff [of "rev kvs" k v] by (simp add: obj_map_def rev_map [symmetric])

lemma rotated_mem:
  assumes "distinct (map fst kvs)"
  shows "(k, v) \<in> set (rotated_members kvs j) \<longleftrightarrow>
    (if k = ''host'' then v = j else k \<noteq> ''hosts'' \<and> (k, v) \<in> set kvs)"
proof -
  let ?m = "((obj_map kvs)(''hosts'' := None))(''host'' \<mapsto> j)"
  have "(k, v) \<in> set (rotated_members kvs j) \<longleftrightarrow> ?m k = Some v \<and> k \<in> insert ''host'' (set (map fst kvs))"
    unfolding rotated_members_def Let_def by (auto simp del: fun_upd_apply)
  also have "\<dots> \<longleftrightarrow> (if k = ''host'' then v = j else k \<noteq> ''hosts'' \<and> (k, v) \<in> set kvs)"
    using obj_map_mem [OF assms, of k v] by (auto intro: rev_image_eqI)
  finally show ?thesis .
qed

lemma rotated_inj:
  assumes "plain_keys kvs"
  shows "inj_on ToLower (set (map fst (rotated_members kvs j)))"
proof -
  have "inj_on ToLower (insert ''host'' (set (map fst kvs)))"
    unfolding inj_on_insert
  proof
    show "inj_on ToLower (set (map fst kvs))" using assms by (simp add: plain_keys_def)
    show "ToLower ''host'' \<notin> ToLower ` (set (map fst kvs) - {''host''})"
    proof
      assume "ToLower ''host'' \<in> ToLower ` (set (map fst kvs) - {''host''})"
      then obtain k where k: "ToLower ''host'' = ToLower k" "k \<in> set (map fst kvs) - {''host''}" by (rule imageE)
      from k(1) have h: "ToLower k = ''host''" by (simp add: ToLower_hosts)
      from k(2) have "k \<in> set (map fst kvs)" by blast
      from plain_exact [OF assms this] h have "ToLower k = k" by simp
      with k(2) h show False by simp
    qed
  qed
  from inj_on_subset [OF this conjunct2 [OF rotated_keys]] show ?thesis .
qed

lemma rotated_field:
  assumes "plain_keys kvs" "ToLower name = name" "name \<noteq> ''host''" "name \<noteq> ''hosts''"
  shows "field_vals name (rotated_members kvs j) = field_vals name kvs"
proof (rule field_vals_same)
  show "inj_on ToLower (set (map fst (rotated_members kvs j)))" by (rule rotated_inj [OF assms(1)])
  show "distinct (map fst (rotated_members kvs j))" using rotated_keys by blast
  show "inj_on ToLower (set (map fst kvs))" "distinct (map fst kvs)" using assms(1) by (simp_all add: plain_keys_def)
  then show "(k, v) \<in> set (rotated_members kvs j) \<longleftrightarrow> (k, v) \<in> set kvs" if "EqualFold k name" for k v
    using that assms(2-4) by (auto simp: rotated_mem EqualFold_def ToLower_hosts)
qed

lemma rotated_host:
  assumes "plain_keys kvs"
  shows "field_vals ''host'' (rotated_members kvs j) = [j] \<and> field_vals ''hosts'' (rotated_members kvs j) = []"
proof -
  have d: "distinct (map fst kvs)" using assms by (simp add: plain_keys_def)
  have exact: "ToLower k = k" if "(k, v) \<in> set kvs" "ToLower k \<in> {''host'', ''hosts''}" for k v
  proof -
    have "k \<in> set (map fst kvs)" using that(1) by force
    from plain_exact [OF assms this that(2)] show ?thesis .
  qed
  have h: "field_vals ''host'' (rotated_members kvs j) = field_vals ''host'' [(''host'', j)]"
  proof (rule field_vals_same)
    show "inj_on ToLower (set (map fst (rotated_members kvs j)))" by (rule rotated_inj [OF assms(1)])
    show "distinct (map fst (rotated_members kvs j))" using rotated_keys by blast
    show "(k, v) \<in> set (rotated_members kvs j) \<longleftrightarrow> (k, v) \<in> set [(''host'', j)]" if "EqualFold k ''host''" for k v
      using that exact [of k v] by (auto simp: rotated_mem [OF d] EqualFold_def ToLower_hosts)
  qed simp_all
  have "\<not> EqualFold k ''hosts''" if "(k, v) \<in> set (rotated_members kvs j)" for k v
    using that exact [of k v] by (auto simp: rotated_mem [OF d] EqualFold_def ToLower_hosts split: if_splits)
  then have "field_vals ''hosts'' (rotated_members kvs j) = []" by (auto simp: field_vals_def filter_empty_conv)
  with h show ?thesis by (simp add: field_vals_def EqualFold_def)
qed

lemma elem_strs: "traverse elem_str xs = Some hs \<Longrightarrow> length hs = length xs \<and> (\<forall>i<length xs. elem_str (xs ! i) = Some (hs ! i))"
proof (induction xs arbitrary: hs)
  case (Cons x xs)
  then obtain h hs' where "elem_str x = Some h" "traverse elem_str xs = Some hs'" "hs = h # hs'" by (auto split: option.splits)
  with Cons.IH show ?case by (auto simp: nth_Cons split: nat.split)
qed simp

lemma elem_str_nonempty: "elem_str j = Some h \<Longrightarrow> h \<noteq> [] \<Longrightarrow> j = JStr h"
  by (cases j) auto

lemma decode_rotated:
  assumes "plain_keys kvs" "decode_iperf3 kvs = Some y"
  shows "decode_iperf3 (rotated_members kvs (JStr h)) = Some (y\<lparr>io_host := h, io_hosts := []\<rparr>)"
proof -
  note f = rotated_field [OF assms(1), of _ "JStr h"]
  have same: "dec_scalar g z name (rotated_members kvs (JStr h)) = dec_scalar g z name kvs"
    if "ToLower name = name" "name \<noteq> ''host''" "name \<noteq> ''hosts''" for g z name
    unfolding dec_scalar_def f [OF that] ..
  have "dec_scalar as_str '''' ''host'' (rotated_members kvs (JStr h)) = Some h"
    "dec_strs ''hosts'' (rotated_members kvs (JStr h)) = Some []"
    by (simp_all add: dec_scalar_def dec_strs_def rotated_host [OF assms(1)])
  with assms(2) show ?thesis
    by (auto simp: decode_iperf3_def same ToLower_hosts split: option.splits)
qed

text \<open>The list a document holds is the list the decoder sees.\<close>

lemma hosts_listed:
  assumes "plain_keys kvs" "decode_iperf3 kvs = Some y" "2 \<le> length (io_hosts y)" "[] \<notin> set (io_hosts y)"
  shows "obj_map kvs ''hosts'' = Some (JArr (map JStr (io_hosts y)))"
proof -
  have h: "dec_strs ''hosts'' kvs = Some (io_hosts y)" using assms(2) by (auto simp: decode_iperf3_def split: option.splits)
  have "length (field_vals ''hosts'' kvs) \<le> 1"
    using field_vals_short [of kvs "''hosts''"] assms(1) by (simp add: plain_keys_def field_vals_def)
  then consider "field_vals ''hosts'' kvs = []" | v where "field_vals ''hosts'' kvs = [v]"
    by (cases "field_vals ''hosts'' kvs"; cases "tl (field_vals ''hosts'' kvs)") auto
  then obtain v where v: "field_vals ''hosts'' kvs = [v]" using h assms(3) by cases (auto simp: dec_strs_def)
  with h assms(3) obtain xs where xs: "v = JArr xs" "traverse elem_str xs = Some (io_hosts y)"
    by (auto simp: dec_strs_def split: json.splits)
  have "xs = map JStr (io_hosts y)"
  proof (rule nth_equalityI)
    show "length xs = length (map JStr (io_hosts y))" using elem_strs [OF xs(2)] by simp
    show "xs ! i = map JStr (io_hosts y) ! i" if "i < length xs" for i
    proof -
      from elem_strs [OF xs(2)] that have e: "elem_str (xs ! i) = Some (io_hosts y ! i)" "i < length (io_hosts y)" by auto
      with assms(4) have "io_hosts y ! i \<noteq> []" using nth_mem by metis
      with elem_str_nonempty [OF e(1)] e(2) show ?thesis by simp
    qed
  qed
  moreover obtain k where k: "(k, v) \<in> set kvs" "EqualFold k ''hosts''"
  proof -
    have "set (map snd (filter (\<lambda>(k, v). EqualFold k ''hosts'') kvs)) = {v}" using v unfolding field_vals_def by simp
    then have "v \<in> set (map snd (filter (\<lambda>(k, v). EqualFold k ''hosts'') kvs))" by blast
    then show ?thesis using that by auto
  qed
  have "k = ''hosts''"
  proof -
    have "k \<in> set (map fst kvs)" using k(1) by force
    moreover have "ToLower k = ''hosts''" using k(2) by (simp add: EqualFold_def ToLower_hosts)
    ultimately show ?thesis using plain_exact [OF assms(1), of k] by simp
  qed
  with k(1) have "obj_map kvs ''hosts'' = Some v" using obj_map_mem [of kvs "''hosts''" v] assms(1) by (simp add: plain_keys_def)
  ultimately show ?thesis using xs(1) by simp
qed


text \<open>A target with the hosts \<open>a\<close> and \<open>b\<close> whose counter stands at 3: \<open>b\<close> is next.\<close>

definition pair_members :: "(string \<times> json) list" where
  "pair_members = [(''hosts'', JArr [JStr ''a'', JStr ''b'']), (''reverse'', JBool True)]"

definition pair_target :: target where
  "pair_target = \<lparr>t_id = 1, t_name = ''lan'', t_engine = ''iperf3'', t_enabled = True, t_queue_id = 1,
     t_options = RawDoc (JObj pair_members), t_thresholds = RawEmpty, t_rotation_index = 3, t_created_at = '''', t_updated_at = '''',
     t_queue_name = ''default''\<rparr>"

definition pair_db :: db where
  "pair_db = empty_db\<lparr>targets_t := \<lparr>rows = [target_row.truncate pair_target], seq = 1\<rparr>\<rparr>"

definition pair_options :: iperf3_options where
  "pair_options = \<lparr>io_host = ''a'', io_hosts = [''a'', ''b''], io_port = 5201, io_port_range_end = 0, io_protocol = ''tcp'',
     io_reverse = True, io_bidir = False, io_parallel = 1, io_duration_s = 10, io_udp_bitrate = '''', io_bind = '''',
     io_username = '''', io_password = '''', io_rsa_public_key_path = ''''\<rparr>"

lemma pair_parse: "parseOptions err (t_options pair_target) = Inr pair_options"
proof -
  have "decode_iperf3 pair_members = Some (pair_options\<lparr>io_host := '''', io_port := 0, io_protocol := '''', io_parallel := 0, io_duration_s := 0\<rparr>)"
    by (simp add: decode_iperf3_def field_eval pair_members_def pair_options_def)
  moreover have "with_defaults (pair_options\<lparr>io_host := '''', io_port := 0, io_protocol := '''', io_parallel := 0, io_duration_s := 0\<rparr>) = pair_options"
    by (simp add: with_defaults_def with_host_def pair_options_def)
  moreover have "check_iperf3 pair_options = None"
    unfolding check_iperf3_def firstErr_None by (simp add: pair_options_def)
  ultimately show ?thesis by (simp add: parseOptions_def unmarshal_iperf3_def pair_target_def)
qed


end
