(* ===== verification/Iperf3_List.thy ===== *)
theory Iperf3_List
  imports Resource_Api "HOL-Library.Sublist"
begin

text \<open>
  The cached list of public iperf3 servers: the table (\<open>internal/store/iperf3servers.go\<close>), the parser of the remote list
  (\<open>internal/iperf3list/fetch.go\<close>), the refresher with its start-up check, ticks and kicks (\<open>refresher.go\<close>) and the two handlers
  (\<open>internal/api/iperf3.go\<close>). The HTTP answer is a parameter; log lines are kept here because the refresher's only state of its own is
  whether it has logged that it is disabled.
\<close>

subsection \<open>The table\<close>

text \<open>\<open>INSERT OR IGNORE\<close>: a row whose host and port are taken is left out, but the id drawn for it is used up.\<close>

definition insert_server :: "iperf3_server \<Rightarrow> iperf3_server tbl \<Rightarrow> iperf3_server tbl" where
  "insert_server s t =
     (if \<exists>r\<in>set (rows t). ip_host r = ip_host s \<and> ip_port r = ip_port s then t\<lparr>seq := seq t + 1\<rparr>
      else insert_row (\<lambda>i. s\<lparr>ip_id := i\<rparr>) t)"

definition ReplaceIperf3Servers :: "fault \<Rightarrow> string \<Rightarrow> db \<Rightarrow> iperf3_server list \<Rightarrow> db \<times> unit res" where
  "ReplaceIperf3Servers flt now d servers =
     (case flt of
        Some e \<Rightarrow> (d, Inl (ErrDB e))
      | None \<Rightarrow>
          (d\<lparr>iperf3_servers_t := fold insert_server servers (map_rows (\<lambda>_. []) (iperf3_servers_t d)),
             iperf3_meta_t := (iperf3_meta_t d)(''fetched_at'' \<mapsto> now)\<rparr>, Inr ()))"

text \<open>\<open>LIKE\<close> with \<open>ESCAPE '\'\<close>, in SQLite's ASCII case folding. The underscore stands for one byte here; the patterns
  of the program have no underscore that is not escaped.\<close>

fun like :: "string \<Rightarrow> string \<Rightarrow> bool" where
  "like [] t = (t = [])"
| "like (p # ps) t =
     (if p = CHR ''%'' then (\<exists>s\<in>set (suffixes t). like ps s)
      else if p = CHR 0x5C
      then (case ps of [] \<Rightarrow> False | q # qs \<Rightarrow> (case t of [] \<Rightarrow> False | c # cs \<Rightarrow> lower_char c = lower_char q \<and> like qs cs))
      else (case t of [] \<Rightarrow> False | c # cs \<Rightarrow> (p = CHR ''_'' \<or> lower_char c = lower_char p) \<and> like ps cs))"

definition escapeLike :: "string \<Rightarrow> string" where
  "escapeLike q = concat (map (\<lambda>c. if c \<in> {CHR 0x5C, CHR ''%'', CHR ''_''} then [CHR 0x5C, c] else [c]) q)"

definition defaultIperf3SearchLimit :: int where
  "defaultIperf3SearchLimit = 50"

definition server_matches :: "string \<Rightarrow> iperf3_server \<Rightarrow> bool" where
  "server_matches q r =
     (let pat = ''%'' @ escapeLike q @ ''%''
      in like pat (ip_host r) \<or> like pat (ip_site r) \<or> like pat (ip_country r) \<or> like pat (ip_provider r))"

text \<open>\<open>ORDER BY host, port\<close>.\<close>

definition by_host_port :: "iperf3_server list \<Rightarrow> iperf3_server list" where
  "by_host_port rs = sort_key ip_host (sort_key ip_port rs)"

definition SearchIperf3Servers :: "fault \<Rightarrow> db \<Rightarrow> string \<Rightarrow> int \<Rightarrow> iperf3_server list res" where
  "SearchIperf3Servers flt d q limit =
     (let n = (if limit \<le> 0 then defaultIperf3SearchLimit else limit); rs = rows (iperf3_servers_t d)
      in case flt of
           Some e \<Rightarrow> Inl (ErrDB e)
         | None \<Rightarrow> Inr (take (nat n) (by_host_port (if q = [] then rs else filter (server_matches q) rs))))"

definition CountIperf3Servers :: "fault \<Rightarrow> db \<Rightarrow> nat res" where
  "CountIperf3Servers flt d =
     (case flt of Some e \<Rightarrow> Inl (ErrDB e) | None \<Rightarrow> Inr (length (rows (iperf3_servers_t d))))"

definition Iperf3ServersFetchedAt :: "fault \<Rightarrow> db \<Rightarrow> string res" where
  "Iperf3ServersFetchedAt flt d =
     (case flt of
        Some e \<Rightarrow> Inl (ErrDB e)
      | None \<Rightarrow> Inr (case iperf3_meta_t d ''fetched_at'' of None \<Rightarrow> [] | Some v \<Rightarrow> v))"

subsection \<open>Fetching the list\<close>

record raw_server =
  rw_host :: string
  rw_port :: string
  rw_options :: string
  rw_gbs :: string
  rw_continent :: string
  rw_country :: string
  rw_site :: string
  rw_provider :: string

definition decode_raw_server :: "(string \<times> json) list \<Rightarrow> raw_server option" where
  "decode_raw_server kvs =
     (case (dec_scalar as_str [] ''IP/HOST'' kvs, dec_scalar as_str [] ''PORT'' kvs, dec_scalar as_str [] ''OPTIONS'' kvs,
            dec_scalar as_str [] ''GB/S'' kvs, dec_scalar as_str [] ''CONTINENT'' kvs, dec_scalar as_str [] ''COUNTRY'' kvs,
            dec_scalar as_str [] ''SITE'' kvs, dec_scalar as_str [] ''PROVIDER'' kvs) of
        (Some a, Some b, Some c, Some d, Some e, Some f, Some g, Some h) \<Rightarrow>
          Some \<lparr>rw_host = a, rw_port = b, rw_options = c, rw_gbs = d, rw_continent = e, rw_country = f, rw_site = g, rw_provider = h\<rparr>
      | _ \<Rightarrow> None)"

definition decode_feed :: "raw \<Rightarrow> raw_server list option" where
  "decode_feed body =
     (case body of
        RawDoc JNull \<Rightarrow> Some []
      | RawDoc (JArr xs) \<Rightarrow> traverse (\<lambda>x. Option.bind (members (RawDoc x)) decode_raw_server) xs
      | _ \<Rightarrow> None)"

definition parsePortRange :: "string \<Rightarrow> (int \<times> int) option" where
  "parsePortRange s =
     (let r = TrimSpace s;
          (first, last) = (let a = takeWhile (\<lambda>c. c \<noteq> CHR ''-'') r; b = dropWhile (\<lambda>c. c \<noteq> CHR ''-'') r
                           in if a \<noteq> [] \<and> b \<noteq> [] then (a, tl b) else (r, []))
      in if r = [] then None
         else case ParseInt64 (TrimSpace first) of
                None \<Rightarrow> None
              | Some n \<Rightarrow>
                  if n \<le> 0 \<or> 65535 < n then None
                  else if last = [] then Some (n, 0)
                  else case ParseInt64 (TrimSpace last) of
                         None \<Rightarrow> Some (n, 0)
                       | Some e \<Rightarrow> if e \<le> 0 \<or> e < n \<or> 65535 < e then Some (n, 0) else Some (n, e))"

text \<open>Reverse, UDP and IPv6.\<close>

definition parseFlags :: "string \<Rightarrow> bool \<times> bool \<times> bool" where
  "parseFlags s =
     (let parts = map (\<lambda>p. ToLower (TrimSpace p)) (Split s '','')
      in (''-r'' \<in> set parts, ''-u'' \<in> set parts, ''-6'' \<in> set parts))"

text \<open>One turn of the loop over the rows: \<open>None\<close> is a row that is skipped.\<close>

definition server_of :: "raw_server \<Rightarrow> iperf3_server option" where
  "server_of r =
     (let host = TrimSpace (rw_host r)
      in if host = [] then None
         else case parsePortRange (rw_port r) of
                None \<Rightarrow> None
              | Some (port, portEnd) \<Rightarrow>
                  let (rv, udp, v6) = parseFlags (rw_options r)
                  in Some \<lparr>ip_id = 0, ip_host = host, ip_port = port, ip_port_end = portEnd, ip_options = rw_options r,
                           ip_supports_reverse = rv, ip_supports_udp = udp, ip_supports_ipv6 = v6, ip_gbs = rw_gbs r,
                           ip_continent = rw_continent r, ip_country = rw_country r, ip_site = rw_site r,
                           ip_provider = rw_provider r\<rparr>)"

text \<open>What the HTTP client came back with: an error, or a status with a body that was read or failed; \<open>length\<close> counts
  its bytes, \<open>err\<close> is the decoder's text.\<close>

datatype http_answer =
    NoAnswer string
  | Answer (status: int) (read_error: "string option") (body_length: nat) (body: raw) (decode_error: string)

definition maxResponseBytes :: nat where
  "maxResponseBytes = 32 * 2 ^ 20"

fun Fetch :: "http_answer \<Rightarrow> string + iperf3_server list" where
  "Fetch (NoAnswer e) = Inl (''fetch iperf3 server list: '' @ e)"
| "Fetch (Answer st rd len doc err) =
     (if st \<noteq> 200 then Inl (''fetch iperf3 server list: status '' @ Itoa st)
      else case rd of
             Some e \<Rightarrow> Inl (''read iperf3 server list: '' @ e)
           | None \<Rightarrow>
               if maxResponseBytes < len then Inl (''iperf3 server list response exceeds '' @ Itoa (int maxResponseBytes) @ '' bytes'')
               else case decode_feed doc of
                      None \<Rightarrow> Inl (''decode iperf3 server list: '' @ err)
                    | Some raws \<Rightarrow> Inr (List.map_filter server_of raws))"

text \<open>A redirect is followed only to the host of the first request.\<close>

definition rejectCrossHostRedirect :: "string \<Rightarrow> string list \<Rightarrow> string option" where
  "rejectCrossHostRedirect host via =
     (case via of
        [] \<Rightarrow> None
      | first # _ \<Rightarrow> if host \<noteq> first then Some (''refusing redirect from '' @ first @ '' to different host '' @ host) else None)"

subsection \<open>The refresher\<close>

record refresher =
  rf_logged_disabled :: bool
  rf_kick :: bool
  rf_log :: "string list"

datatype refresh_error = Disabled | RefreshFailed string

text \<open>What one refresh meets: the configured URL, the answer behind it, the driver and the clock of SQLite.\<close>

record refresh_env =
  re_url :: string
  re_answer :: "string \<Rightarrow> http_answer"
  re_replace :: fault
  re_now :: string
  re_fetched :: fault
  re_count :: fault

fun store_text :: "store_error \<Rightarrow> string" where
  "store_text (ErrDB m) = m"
| "store_text _ = ''not found''"

definition Kick :: "refresher \<Rightarrow> refresher" where
  "Kick r = r\<lparr>rf_kick := True\<rparr>"

definition log_line :: "string \<Rightarrow> refresher \<Rightarrow> refresher" where
  "log_line m r = r\<lparr>rf_log := rf_log r @ [m]\<rparr>"

definition disabled_line :: string where
  "disabled_line = ''iperf3list: refresh disabled (iperf3_list_url is empty)''"

text \<open>The answer after the table was updated or left alone.\<close>

definition refresh_outcome :: "refresh_env \<Rightarrow> db \<Rightarrow> refresh_error + time \<times> nat" where
  "refresh_outcome env d =
     (case Iperf3ServersFetchedAt (re_fetched env) d of
        Inl e \<Rightarrow> Inl (RefreshFailed (''iperf3list: read fetched_at: '' @ store_text e))
      | Inr s \<Rightarrow>
          (case CountIperf3Servers (re_count env) d of
             Inl e \<Rightarrow> Inl (RefreshFailed (''iperf3list: count: '' @ store_text e))
           | Inr n \<Rightarrow> Inr (if s = [] then 0 else (case Parse_frac 3 s of None \<Rightarrow> 0 | Some t \<Rightarrow> t), n)))"

definition RefreshNow :: "refresh_env \<Rightarrow> refresher \<times> db \<Rightarrow> (refresher \<times> db) \<times> (refresh_error + time \<times> nat)" where
  "RefreshNow env w =
     (let (r, d) = w
      in if re_url env = []
         then (((if rf_logged_disabled r then r else log_line disabled_line (r\<lparr>rf_logged_disabled := True\<rparr>)), d), Inl Disabled)
         else let r' = r\<lparr>rf_logged_disabled := False\<rparr>
              in case Fetch (re_answer env (re_url env)) of
                   Inl e \<Rightarrow> ((r', d), Inl (RefreshFailed (''iperf3list: fetch: '' @ e)))
                 | Inr servers \<Rightarrow>
                     (if servers \<noteq> []
                      then case ReplaceIperf3Servers (re_replace env) (re_now env) d servers of
                             (d', Inl e) \<Rightarrow> ((r', d'), Inl (RefreshFailed (''iperf3list: replace: '' @ store_text e)))
                           | (d', Inr _) \<Rightarrow> ((r', d'), refresh_outcome env d')
                      else ((r', d), refresh_outcome env d)))"

definition refreshAndLog :: "refresh_env \<Rightarrow> refresher \<times> db \<Rightarrow> refresher \<times> db" where
  "refreshAndLog env w =
     (case RefreshNow env w of
        ((r, d), Inl (RefreshFailed e)) \<Rightarrow> (log_line ''iperf3list: refresh failed'' r, d)
      | (w', _) \<Rightarrow> w')"

definition defaultInterval :: duration where
  "defaultInterval = 24 * Hour"

definition shouldRefreshOnStart :: "fault \<Rightarrow> time \<Rightarrow> duration \<Rightarrow> db \<Rightarrow> bool" where
  "shouldRefreshOnStart flt now interval d =
     (case Iperf3ServersFetchedAt flt d of
        Inl _ \<Rightarrow> True
      | Inr s \<Rightarrow>
          if s = [] then True
          else case Parse_frac 3 s of None \<Rightarrow> True | Some t \<Rightarrow> interval \<le> time_Sub now t)"

text \<open>Events around the loop of \<open>Run\<close>: a caller kicks, the start-up check, a tick, the loop takes the kick. The kick
  is taken only when one is buffered.\<close>

datatype refresh_event =
    EvKick
  | EvStart fault time refresh_env
  | EvTick refresh_env
  | EvTake refresh_env

fun refresher_step :: "duration \<Rightarrow> refresh_event \<Rightarrow> refresher \<times> db \<Rightarrow> (refresher \<times> db) option" where
  "refresher_step iv EvKick (r, d) = Some (Kick r, d)"
| "refresher_step iv (EvStart flt now env) (r, d) =
     Some (if shouldRefreshOnStart flt now iv d
           then refreshAndLog env (case Iperf3ServersFetchedAt flt d of
                                     Inl _ \<Rightarrow> log_line ''iperf3list: read fetched_at for startup check'' r | Inr _ \<Rightarrow> r, d)
           else (r, d))"
| "refresher_step iv (EvTick env) (r, d) = Some (refreshAndLog env (r, d))"
| "refresher_step iv (EvTake env) (r, d) = (if rf_kick r then Some (refreshAndLog env (r\<lparr>rf_kick := False\<rparr>, d)) else None)"

fun refresher_run :: "duration \<Rightarrow> refresh_event list \<Rightarrow> refresher \<times> db \<Rightarrow> (refresher \<times> db) option" where
  "refresher_run iv [] w = Some w"
| "refresher_run iv (e # es) w = (case refresher_step iv e w of None \<Rightarrow> None | Some w' \<Rightarrow> refresher_run iv es w')"

subsection \<open>The handlers\<close>

definition parseIperf3Limit :: "string \<Rightarrow> int" where
  "parseIperf3Limit s =
     (if s = [] then 50
      else case ParseInt64 s of
             None \<Rightarrow> 50
           | Some n \<Rightarrow> if n \<le> 0 then 50 else if 200 < n then 200 else n)"

record iperf3_page =
  pg_fetched_at :: string
  pg_servers :: "iperf3_server list"
  pg_total :: nat

definition listIperf3Servers :: "call_faults \<Rightarrow> string \<Rightarrow> string \<Rightarrow> db \<Rightarrow> api_error + iperf3_page" where
  "listIperf3Servers f q limit d =
     abind (internal_of ''search iperf3 servers'' (SearchIperf3Servers (f ''SearchIperf3Servers'') d (TrimSpace q) (parseIperf3Limit limit))) (\<lambda>servers.
     abind (internal_of ''read iperf3 servers fetched_at'' (Iperf3ServersFetchedAt (f ''Iperf3ServersFetchedAt'') d)) (\<lambda>at_text.
     abind (internal_of ''count iperf3 servers'' (CountIperf3Servers (f ''CountIperf3Servers'') d)) (\<lambda>total.
       Inr \<lparr>pg_fetched_at = at_text, pg_servers = servers, pg_total = total\<rparr>)))"

text \<open>A refused request, or the answer 502 of a failed refresh.\<close>

datatype gateway_error = Refused api_error | BadGateway string

definition refreshIperf3Servers ::
  "identity \<Rightarrow> bool \<Rightarrow> refresh_env \<Rightarrow> refresher \<times> db \<Rightarrow> (refresher \<times> db) \<times> (gateway_error + nat \<times> time)" where
  "refreshIperf3Servers ident configured env w =
     (if \<not> requestIsAdmin ident then (w, Inl (Refused (Forbidden ''admin access required'')))
      else if \<not> configured then (w, Inl (Refused (Unavailable ''iperf3 server list refresh not configured'')))
      else case RefreshNow env w of
             (w', Inr (t, n)) \<Rightarrow> (w', Inr (n, t))
           | (w', Inl Disabled) \<Rightarrow>
               (w', Inl (Refused (Conflict ''iperf3 server list refresh is disabled: set Engines > iperf3 server list in Settings to enable it'')))
           | (w', Inl (RefreshFailed _)) \<Rightarrow>
               (w', Inl (BadGateway ''refreshing the iperf3 server list failed; see server logs'')))"

end
