(* ===== verification/Iperf3_List_Props.thy ===== *)
theory Iperf3_List_Props
  imports Iperf3_List
begin

text \<open>
  The cached server list is always one whole, usable snapshot, whatever the remote side and the driver answer, and a search
  finds exactly the servers that contain the text asked for, also when the text has characters that are special to \<open>LIKE\<close>.
\<close>

subsection \<open>Search\<close>

lemma like_prefix: "like (escapeLike q @ ''%'') t \<longleftrightarrow> HasPrefix (ToLower t) (ToLower q)"
proof (induction q arbitrary: t)
  case Nil
  have "\<exists>s\<in>set (suffixes t). s = []" by simp
  then show ?case by (simp add: escapeLike_def ToLower_def HasPrefix_def)
next
  case (Cons c q)
  have e: "escapeLike (c # q) @ ''%'' = (if c \<in> {CHR 0x5C, CHR ''%'', CHR ''_''} then CHR 0x5C # c # escapeLike q @ ''%''
      else c # escapeLike q @ ''%'')"
    by (simp add: escapeLike_def)
  show ?case
    by (cases t) (auto simp: e Cons.IH HasPrefix_def ToLower_def)
qed

lemma Contains_suffix: "Contains s sub \<longleftrightarrow> (\<exists>t\<in>set (suffixes s). HasPrefix t sub)"
  by (induction s) (auto simp: HasPrefix_def)

lemma suffixes_map: "suffixes (map f s) = map (map f) (suffixes s)"
  by (induction s) auto

lemma like_contains: "like (''%'' @ escapeLike q @ ''%'') t \<longleftrightarrow> Contains (ToLower t) (ToLower q)"
proof -
  have "like (''%'' @ escapeLike q @ ''%'') t \<longleftrightarrow> (\<exists>s\<in>set (suffixes t). like (escapeLike q @ ''%'') s)" by simp
  also have "\<dots> \<longleftrightarrow> (\<exists>s\<in>set (suffixes t). HasPrefix (ToLower s) (ToLower q))" by (simp only: like_prefix)
  also have "\<dots> \<longleftrightarrow> Contains (ToLower t) (ToLower q)"
    by (simp add: Contains_suffix ToLower_def suffixes_map)
  finally show ?thesis .
qed

text \<open>The answer expected of a search: the servers in which the text occurs, by host and port.\<close>

definition contains_text :: "string \<Rightarrow> iperf3_server \<Rightarrow> bool" where
  "contains_text q r \<longleftrightarrow> (\<exists>f\<in>{ip_host r, ip_site r, ip_country r, ip_provider r}. Contains (ToLower f) (ToLower q))"

lemma server_matches_iff: "server_matches q r \<longleftrightarrow> contains_text q r"
  by (auto simp: server_matches_def contains_text_def like_contains Let_def simp del: like.simps append.simps)

lemma Contains_Nil: "Contains s []"
  by (cases s) (auto simp: HasPrefix_def)

definition host_port :: "iperf3_server \<Rightarrow> string \<times> int" where
  "host_port r = (ip_host r, ip_port r)"

definition before :: "iperf3_server \<Rightarrow> iperf3_server \<Rightarrow> bool" where
  "before a b \<longleftrightarrow> ip_host a < ip_host b \<or> (ip_host a = ip_host b \<and> ip_port a \<le> ip_port b)"

lemma by_host_port_props: "mset (by_host_port rs) = mset rs \<and> sorted_wrt before (by_host_port rs)"
proof -
  let ?p = "sort_key ip_port rs"
  have key: "filter (\<lambda>r. ip_host r = h) (by_host_port rs) = filter (\<lambda>r. ip_host r = h) ?p" for h
    unfolding by_host_port_def by (rule sort_key_stable)
  have hosts: "sorted (map ip_host (by_host_port rs))" by (simp add: by_host_port_def)
  have "before (by_host_port rs ! i) (by_host_port rs ! j)" if ij: "i < j" "j < length (by_host_port rs)" for i j
  proof -
    let ?b = "by_host_port rs"
    have le: "ip_host (?b ! i) \<le> ip_host (?b ! j)"
      using hosts ij by (auto simp: sorted_iff_nth_mono)
    moreover have "ip_port (?b ! i) \<le> ip_port (?b ! j)" if same: "ip_host (?b ! i) = ip_host (?b ! j)"
    proof -
      let ?h = "ip_host (?b ! i)"
      have b: "?b = take j ?b @ ?b ! j # drop (Suc j) ?b" using ij by (simp add: id_take_nth_drop)
      have i: "?b ! i \<in> set (filter (\<lambda>r. ip_host r = ?h) (take j ?b))"
        using ij by (auto simp: in_set_conv_nth intro!: exI [of _ i])
      have s: "sorted (map ip_port (filter (\<lambda>r. ip_host r = ?h) ?b))"
        unfolding key by (simp add: sorted_filter)
      have "filter (\<lambda>r. ip_host r = ?h) ?b =
          filter (\<lambda>r. ip_host r = ?h) (take j ?b) @ ?b ! j # filter (\<lambda>r. ip_host r = ?h) (drop (Suc j) ?b)"
        using same by (subst b) simp
      with s i show ?thesis by (auto simp: sorted_append)
    qed
    ultimately show ?thesis by (auto simp: before_def order_le_less)
  qed
  then have "sorted_wrt before (by_host_port rs)" by (simp add: sorted_wrt_iff_nth_less)
  then show ?thesis by (simp add: by_host_port_def)
qed

text \<open>A search returns, ordered by host and port and cut at the limit, exactly the servers whose host, site, country or provider
  contains the text, upper and lower case alike; percent signs, underscores and backslashes of the text stand for themselves.\<close>

theorem search_finds_substrings:
  assumes "SearchIperf3Servers None d q limit = Inr out"
  shows "\<exists>found. out = take (nat (if limit \<le> 0 then 50 else limit)) found \<and> sorted_wrt before found \<and>
    mset found = mset (filter (contains_text q) (rows (iperf3_servers_t d)))"
proof -
  let ?rs = "rows (iperf3_servers_t d)"
  have "(if q = [] then ?rs else filter (server_matches q) ?rs) = filter (contains_text q) ?rs"
  proof (cases "q = []")
    case True
    moreover have "contains_text [] = (\<lambda>_. True)"
      by (rule ext) (auto simp: contains_text_def ToLower_def Contains_Nil)
    ultimately show ?thesis by simp
  next
    case False
    have "server_matches q = contains_text q" by (rule ext) (rule server_matches_iff)
    with False show ?thesis by simp
  qed
  with assms have "out = take (nat (if limit \<le> 0 then 50 else limit)) (by_host_port (filter (contains_text q) ?rs))"
    unfolding SearchIperf3Servers_def Let_def defaultIperf3SearchLimit_def by simp
  with by_host_port_props [of "filter (contains_text q) ?rs"] show ?thesis by blast
qed

text \<open>An old entry, and a feed with a repeated host and port, a bad port and a range.\<close>

definition listed :: "string \<Rightarrow> int \<Rightarrow> int \<Rightarrow> string \<Rightarrow> iperf3_server" where
  "listed host port port_end provider = \<lparr>ip_id = 0, ip_host = host, ip_port = port, ip_port_end = port_end, ip_options = [],
     ip_supports_reverse = False, ip_supports_udp = False, ip_supports_ipv6 = False, ip_gbs = [], ip_continent = [],
     ip_country = [], ip_site = [], ip_provider = provider\<rparr>"

definition list_db :: db where
  "list_db = empty_db\<lparr>iperf3_servers_t := \<lparr>rows = [(listed ''a_b'' 5201 0 [])\<lparr>ip_id := 1\<rparr>, (listed ''axb'' 5201 0 [])\<lparr>ip_id := 2\<rparr>], seq = 2\<rparr>\<rparr>"

lemma search_finds_substrings_witness:
  "SearchIperf3Servers None list_db ''A_'' 0 = Inr [(listed ''a_b'' 5201 0 [])\<lparr>ip_id := 1\<rparr>]"
proof -
  let ?r = "(listed ''a_b'' 5201 0 [])\<lparr>ip_id := 1\<rparr>"
  obtain out where out: "SearchIperf3Servers None list_db ''A_'' 0 = Inr out" by (simp add: SearchIperf3Servers_def Let_def)
  have low: "ToLower [] = []" "ToLower ''A_'' = ''a_''" "ToLower ''a_b'' = ''a_b''" "ToLower ''axb'' = ''axb''" by code_simp+
  have "filter (contains_text ''A_'') (rows (iperf3_servers_t list_db)) = [?r]"
    by (simp add: list_db_def contains_text_def listed_def low HasPrefix_def)
  with search_finds_substrings [OF out] obtain found where "out = take 50 found" "mset found = mset [?r]" by auto
  with out show ?thesis by (auto simp: mset_single_iff)
qed

subsection \<open>Snapshots\<close>

text \<open>What a feed's servers become: the first one of each host and port, in the feed's order.\<close>

fun snapshot :: "iperf3_server list \<Rightarrow> iperf3_server list" where
  "snapshot [] = []"
| "snapshot (s # ss) = s # filter (\<lambda>r. host_port r \<noteq> host_port s) (snapshot ss)"

definition no_id :: "iperf3_server \<Rightarrow> iperf3_server" where
  "no_id r = r\<lparr>ip_id := 0\<rparr>"

lemma host_port_no_id [simp]: "host_port (no_id r) = host_port r" "host_port (r\<lparr>ip_id := i\<rparr>) = host_port r"
  by (simp_all add: no_id_def host_port_def)

lemma taken_iff: "(\<exists>r\<in>set rs. ip_host r = ip_host s \<and> ip_port r = ip_port s) \<longleftrightarrow> host_port s \<in> host_port ` set rs"
  unfolding host_port_def image_iff prod.inject by metis

lemma fold_insert_server:
  assumes "\<forall>s\<in>set ss. ip_id s = 0"
  shows "map no_id (rows (fold insert_server ss t)) =
    map no_id (rows t) @ filter (\<lambda>s. host_port s \<notin> host_port ` set (rows t)) (snapshot ss)"
  using assms
proof (induction ss arbitrary: t)
  case (Cons s ss)
  show ?case
  proof (cases "host_port s \<in> host_port ` set (rows t)")
    case True
    then have "insert_server s t = t\<lparr>seq := seq t + 1\<rparr>" by (simp add: insert_server_def taken_iff)
    moreover have "filter (\<lambda>r. host_port r \<notin> host_port ` set (rows t) \<and> host_port r \<noteq> host_port s) (snapshot ss) =
        filter (\<lambda>r. host_port r \<notin> host_port ` set (rows t)) (snapshot ss)"
      using True by (auto intro: filter_cong)
    ultimately show ?thesis using Cons True by (simp add: conj_commute)
  next
    case False
    then have r: "rows (insert_server s t) = rows t @ [s\<lparr>ip_id := seq t + 1\<rparr>]"
      by (simp add: insert_server_def taken_iff insert_row_def)
    have n: "no_id (s\<lparr>ip_id := seq t + 1\<rparr>) = s" using Cons.prems by (simp add: no_id_def)
    have "filter (\<lambda>x. host_port x \<notin> host_port ` set (rows (insert_server s t))) (snapshot ss) =
        filter (\<lambda>x. host_port x \<notin> host_port ` set (rows t)) (filter (\<lambda>x. host_port x \<noteq> host_port s) (snapshot ss))"
      by (auto simp: r intro: filter_cong)
    with Cons False n show ?thesis by (simp add: r)
  qed
qed simp

definition server_ok :: "iperf3_server \<Rightarrow> bool" where
  "server_ok r \<longleftrightarrow> ip_host r \<noteq> [] \<and> TrimSpace (ip_host r) = ip_host r \<and> 1 \<le> ip_port r \<and> ip_port r \<le> 65535 \<and>
     (ip_port_end r = 0 \<or> (ip_port r \<le> ip_port_end r \<and> ip_port_end r \<le> 65535))"

definition server_list_ok :: "db \<Rightarrow> bool" where
  "server_list_ok d \<longleftrightarrow> tbl_ok ip_id (iperf3_servers_t d) \<and> distinct (map host_port (rows (iperf3_servers_t d))) \<and>
     list_all server_ok (rows (iperf3_servers_t d))"

lemma parsePortRange_ok: "parsePortRange s = Some (p, e) \<Longrightarrow> 1 \<le> p \<and> p \<le> 65535 \<and> (e = 0 \<or> (p \<le> e \<and> e \<le> 65535))"
  by (auto simp: parsePortRange_def Let_def not_le not_less split: option.splits if_splits prod.splits)

lemma server_of_ok: "server_of r = Some s \<Longrightarrow> server_ok s \<and> ip_id s = 0"
  by (auto simp: server_of_def server_ok_def Let_def split: if_splits option.splits prod.splits dest!: parsePortRange_ok)

lemma Fetch_ok:
  assumes "Fetch a = Inr ss" "s \<in> set ss"
  shows "server_ok s \<and> ip_id s = 0"
proof -
  obtain raws where "ss = List.map_filter server_of raws"
    using assms(1) by (cases a) (auto split: if_splits option.splits)
  then obtain r where "server_of r = Some s" using assms(2) by (auto simp: map_filter_def)
  then show ?thesis by (rule server_of_ok)
qed

lemma tbl_ok_insert_server: "tbl_ok ip_id t \<Longrightarrow> tbl_ok ip_id (insert_server s t)"
  by (auto simp: insert_server_def tbl_ok_def ids_below_def insert_row_def sorted_wrt_append)

lemma server_ok_id [simp]: "server_ok (s\<lparr>ip_id := i\<rparr>) = server_ok s"
  by (simp add: server_ok_def)

lemma insert_server_ok:
  assumes "tbl_ok ip_id t" "distinct (map host_port (rows t))" "list_all server_ok (rows t)" "server_ok s"
  shows "tbl_ok ip_id (insert_server s t) \<and> distinct (map host_port (rows (insert_server s t))) \<and>
    list_all server_ok (rows (insert_server s t))"
  using assms tbl_ok_insert_server [OF assms(1), of s]
  by (auto simp: insert_server_def taken_iff insert_row_def)

lemma fold_insert_ok:
  assumes "tbl_ok ip_id t" "distinct (map host_port (rows t))" "list_all server_ok (rows t)" "\<forall>s\<in>set ss. server_ok s"
  shows "tbl_ok ip_id (fold insert_server ss t) \<and> distinct (map host_port (rows (fold insert_server ss t))) \<and>
    list_all server_ok (rows (fold insert_server ss t))"
  using assms
proof (induction ss arbitrary: t)
  case (Cons s ss)
  from insert_server_ok [OF Cons.prems(1-3), of s] Cons.prems(4) Cons.IH [of "insert_server s t"] show ?case by simp
qed simp

text \<open>One replacement: the new table is the snapshot of the servers it was given.\<close>

lemma replace_cases:
  assumes "ReplaceIperf3Servers flt now d ss = (d', out)" "Fetch a = Inr ss" "server_list_ok d"
  shows "(d' = d \<and> out \<noteq> Inr ()) \<or>
    (server_list_ok d' \<and> map no_id (rows (iperf3_servers_t d')) = snapshot ss \<and>
     (\<exists>t m. d' = d\<lparr>iperf3_servers_t := t, iperf3_meta_t := m\<rparr>))"
proof (cases flt)
  case None
  let ?t0 = "map_rows (\<lambda>_. []) (iperf3_servers_t d)"
  from assms(1) None have d': "d' = d\<lparr>iperf3_servers_t := fold insert_server ss ?t0,
      iperf3_meta_t := (iperf3_meta_t d)(''fetched_at'' \<mapsto> now)\<rparr>"
    by (simp add: ReplaceIperf3Servers_def)
  have t0: "tbl_ok ip_id ?t0" using assms(3) by (simp add: server_list_ok_def tbl_ok_def ids_below_def)
  have ok: "\<forall>s\<in>set ss. server_ok s \<and> ip_id s = 0" using Fetch_ok [OF assms(2)] by blast
  from fold_insert_ok [OF t0, of ss] ok have "server_list_ok d'" by (simp add: d' server_list_ok_def)
  moreover from fold_insert_server [of ss ?t0] ok have "map no_id (rows (iperf3_servers_t d')) = snapshot ss" by (simp add: d')
  ultimately show ?thesis using d' by blast
next
  case (Some e)
  with assms(1) show ?thesis by (auto simp: ReplaceIperf3Servers_def)
qed

text \<open>The servers a refresh may bring: those of a feed that was read and was not empty.\<close>

definition offered :: "refresh_env \<Rightarrow> iperf3_server list \<Rightarrow> bool" where
  "offered env ss \<longleftrightarrow> re_url env \<noteq> [] \<and> ss \<noteq> [] \<and> Fetch (re_answer env (re_url env)) = Inr ss"

lemma RefreshNow_cases:
  assumes "RefreshNow env (r, d) = ((r', d'), out)" "server_list_ok d"
  shows "d' = d \<or> (\<exists>ss. offered env ss \<and> server_list_ok d' \<and> map no_id (rows (iperf3_servers_t d')) = snapshot ss \<and>
     (\<exists>t m. d' = d\<lparr>iperf3_servers_t := t, iperf3_meta_t := m\<rparr>))"
proof (cases "re_url env = []")
  case True
  with assms(1) show ?thesis by (auto simp: RefreshNow_def Let_def)
next
  case False
  show ?thesis
  proof (cases "Fetch (re_answer env (re_url env))")
    case (Inl e)
    with assms(1) False show ?thesis by (auto simp: RefreshNow_def Let_def)
  next
    case (Inr ss)
    show ?thesis
    proof (cases "ss = []")
      case True
      with assms(1) False Inr show ?thesis by (auto simp: RefreshNow_def Let_def)
    next
      case ne: False
      obtain d1 o1 where rep: "ReplaceIperf3Servers (re_replace env) (re_now env) d ss = (d1, o1)" by (meson surj_pair)
      have "d' = d1" using assms(1) False Inr ne rep by (cases o1) (simp_all add: RefreshNow_def Let_def)
      with replace_cases [OF rep Inr assms(2)] False Inr ne show ?thesis by (auto simp: offered_def)
    qed
  qed
qed

fun event_env :: "refresh_event \<Rightarrow> refresh_env option" where
  "event_env EvKick = None"
| "event_env (EvStart flt now env) = Some env"
| "event_env (EvTick env) = Some env"
| "event_env (EvTake env) = Some env"

lemma refreshAndLog_db: "snd (refreshAndLog env w) = snd (fst (RefreshNow env w))"
  by (auto simp: refreshAndLog_def split: prod.splits sum.splits refresh_error.splits)

lemma step_cases:
  assumes "refresher_step iv e (r, d) = Some (r', d')" "server_list_ok d"
  shows "d' = d \<or> (\<exists>env ss. event_env e = Some env \<and> offered env ss \<and> server_list_ok d' \<and>
    map no_id (rows (iperf3_servers_t d')) = snapshot ss \<and> (\<exists>t m. d' = d\<lparr>iperf3_servers_t := t, iperf3_meta_t := m\<rparr>))"
proof -
  have k: "snd (refreshAndLog env (x, d)) = d \<or> (\<exists>ss. offered env ss \<and> server_list_ok (snd (refreshAndLog env (x, d))) \<and>
      map no_id (rows (iperf3_servers_t (snd (refreshAndLog env (x, d))))) = snapshot ss \<and>
      (\<exists>t m. snd (refreshAndLog env (x, d)) = d\<lparr>iperf3_servers_t := t, iperf3_meta_t := m\<rparr>))" for env x
    using RefreshNow_cases [OF _ assms(2), of env x] unfolding refreshAndLog_db by (metis prod.collapse)
  show ?thesis
  proof (cases e)
    case (EvStart flt now env)
    with assms(1) k [of env] show ?thesis by (auto split: if_splits) (metis snd_conv)+
  next
    case (EvTick env)
    with assms(1) k [of env] show ?thesis by auto (metis snd_conv)+
  next
    case (EvTake env)
    with assms(1) k [of env] show ?thesis by (auto split: if_splits) (metis snd_conv)+
  qed (use assms(1) in auto)
qed

lemma snapshot_nonempty: "ss \<noteq> [] \<Longrightarrow> snapshot ss \<noteq> []"
  by (cases ss) auto

text \<open>C40: through any sequence of start-up checks, ticks and kicks, with any answer of the remote side and of the driver, the cached
  list stays well formed (unique hosts and ports, trimmed hosts, ports in range) and is always either the list it was or the whole of
  one list that was offered, each host and port once; so it is never emptied and never a mixture, and no other table changes.\<close>

theorem server_list_is_a_snapshot:
  assumes "refresher_run iv es (r, d) = Some (r', d')" "server_list_ok d"
  shows "server_list_ok d' \<and> (rows (iperf3_servers_t d) \<noteq> [] \<longrightarrow> rows (iperf3_servers_t d') \<noteq> []) \<and>
    (rows (iperf3_servers_t d') = rows (iperf3_servers_t d) \<or>
     (\<exists>e env ss. e \<in> set es \<and> event_env e = Some env \<and> offered env ss \<and> map no_id (rows (iperf3_servers_t d')) = snapshot ss)) \<and>
    (\<exists>t m. d' = d\<lparr>iperf3_servers_t := t, iperf3_meta_t := m\<rparr>)"
  using assms
proof (induction es arbitrary: r d)
  case Nil
  have "d = d\<lparr>iperf3_servers_t := iperf3_servers_t d, iperf3_meta_t := iperf3_meta_t d\<rparr>" by simp
  with Nil show ?case by (metis option.inject prod.inject refresher_run.simps(1))
next
  case (Cons e es)
  then obtain r1 d1 where s: "refresher_step iv e (r, d) = Some (r1, d1)" and rest: "refresher_run iv es (r1, d1) = Some (r', d')"
    by (auto split: option.splits)
  consider "d1 = d" | env ss where "event_env e = Some env" "offered env ss" "server_list_ok d1"
      "map no_id (rows (iperf3_servers_t d1)) = snapshot ss" "\<exists>t m. d1 = d\<lparr>iperf3_servers_t := t, iperf3_meta_t := m\<rparr>"
    using step_cases [OF s Cons.prems(2)] by blast
  then show ?case
  proof cases
    case 1
    with Cons.IH [OF rest] Cons.prems(2) show ?thesis by (metis list.set_intros(2))
  next
    case 2
    from 2(2) have "ss \<noteq> []" by (simp add: offered_def)
    from snapshot_nonempty [OF this] 2(4) have "rows (iperf3_servers_t d1) \<noteq> []" by (metis list.map_disc_iff)
    moreover obtain t m where "d1 = d\<lparr>iperf3_servers_t := t, iperf3_meta_t := m\<rparr>" using 2(5) by blast
    moreover note ih = Cons.IH [OF rest 2(3)]
    moreover have "\<exists>e' env ss. e' \<in> set (e # es) \<and> event_env e' = Some env \<and> offered env ss \<and>
        map no_id (rows (iperf3_servers_t d')) = snapshot ss"
    proof (cases "rows (iperf3_servers_t d') = rows (iperf3_servers_t d1)")
      case True
      with 2(1,2,4) show ?thesis by (metis list.set_intros(1))
    next
      case False
      with ih show ?thesis by (metis list.set_intros(2))
    qed
    ultimately show ?thesis by (intro conjI impI disjI2) auto
  qed
qed

definition feed_entry :: "string \<Rightarrow> string \<Rightarrow> json" where
  "feed_entry host port = JObj [(''IP/HOST'', JStr host), (''PORT'', JStr port)]"

definition feed_env :: refresh_env where
  "feed_env = \<lparr>re_url = ''feed'', re_answer = (\<lambda>_. Answer 200 None 100
       (RawDoc (JArr [feed_entry '' c '' ''9205-9240'', feed_entry ''c'' ''9205'', feed_entry ''d'' ''none''])) []),
     re_replace = None, re_now = ''2025-01-01T00:00:00.000Z'', re_fetched = None, re_count = None\<rparr>"

lemma feed_offered: "offered feed_env [listed ''c'' 9205 9240 [], listed ''c'' 9205 0 []]"
proof -
  have low: "ToLower ''IP/HOST'' = ''ip/host''" "ToLower ''PORT'' = ''port''" "ToLower ''OPTIONS'' = ''options''" "ToLower ''GB/S'' = ''gb/s''"
    "ToLower ''CONTINENT'' = ''continent''" "ToLower ''COUNTRY'' = ''country''" "ToLower ''SITE'' = ''site''" "ToLower ''PROVIDER'' = ''provider''"
    by code_simp+
  have t: "TrimSpace '' c '' = ''c''" "TrimSpace ''c'' = ''c''" "TrimSpace ''d'' = ''d''" by code_simp+
  have p: "parsePortRange ''9205-9240'' = Some (9205, 9240)" "parsePortRange ''9205'' = Some (9205, 0)" "parsePortRange ''none'' = None"
    "parseFlags [] = (False, False, False)"
    by code_simp+
  show ?thesis
    by (simp add: offered_def feed_env_def feed_entry_def maxResponseBytes_def decode_feed_def decode_raw_server_def dec_scalar_def
        field_vals_def EqualFold_def low map_filter_simps server_of_def t p listed_def)
qed

lemma server_list_is_a_snapshot_witness:
  "case refresher_run defaultInterval [EvKick, EvTake feed_env] (\<lparr>rf_logged_disabled = False, rf_kick = False, rf_log = []\<rparr>, list_db) of
     None \<Rightarrow> False
   | Some (r, d) \<Rightarrow> server_list_ok d \<and> rows (iperf3_servers_t d) \<noteq> []"
proof -
  let ?w = "(\<lparr>rf_logged_disabled = False, rf_kick = False, rf_log = []\<rparr>, list_db)"
  have ok: "server_list_ok list_db"
    by (simp add: server_list_ok_def list_db_def tbl_ok_def ids_below_def host_port_def listed_def server_ok_def) code_simp
  obtain r d where run: "refresher_run defaultInterval [EvKick, EvTake feed_env] ?w = Some (r, d)"
    by (simp add: Kick_def) (metis surj_pair)
  from server_list_is_a_snapshot [OF run ok] have "server_list_ok d" "rows (iperf3_servers_t d) \<noteq> []" by (simp_all add: list_db_def)
  with run show ?thesis by simp
qed

end
