(* ===== verification/Spec2Isabelle.thy ===== *)
theory Spec2Isabelle
  imports Token_Props Target_Props Runner_Props Scheduler_Props Sse_Hub Notifier_Props Settings_Subs Settings_Props Prune_Props Oidc_Props Vm_Writer Vl_Push Schedule_Props Iperf3_Props Iperf3_List_Props
begin

text \<open>
  A verification development of the speedtest tracker's Go core (\<open>internal/\<close>): a server that runs internet speed tests on
  demand and on schedules, stores the results in SQLite, and serves them through a JSON API, server-sent events, notifications
  and pushes to VictoriaMetrics and VictoriaLogs.

  The parts and how they interact. The store (\<open>internal/store\<close>) owns every table. The runner (\<open>internal/runner\<close>) turns
  a request for targets into a run: it groups the targets by queue, one worker per queue runs them one after the other, stores a
  result for each, publishes events to the hub and hands results to its sinks. The scheduler (\<open>internal/scheduler\<close>) holds a cron with
  an entry per enabled schedule and asks the runner for a run on each fire. The hub (\<open>internal/sse\<close>) fans events out to browsers;
  the notifier (\<open>internal/notify\<close>) and the metrics writer (\<open>internal/vmpush\<close>) are sinks with their own bounded queues; the log
  handler (\<open>internal/vlpush\<close>) ships log lines. The settings store (\<open>internal/settings\<close>) holds typed values that all of them
  read and whose changes they subscribe to. The authentication middleware (\<open>internal/auth\<close>) and the OpenID Connect login
  (\<open>internal/oidcauth\<close>) decide who may call the handlers (\<open>internal/api\<close>), which drive store, runner, scheduler and settings.
  The retention job (\<open>internal/prune\<close>) deletes what is too old.

  How the model is written. Data are records and datatypes with the fields and constructors of the source; a table is the list of
  its rows with its \<open>AUTOINCREMENT\<close> sequence. An operation is a function from state to state and answer; a statement the SQL
  driver may refuse takes a fault (\<open>None\<close>: it ran, \<open>Some msg\<close>: it failed and changed nothing), so every error path is
  a branch. Errors are the left side of a sum. Code that runs under one lock, and every single store call, is one
  definition; operations compose them in the order of the source, and the step relations of \<open>Runner_Steps\<close>, \<open>Sse_Hub\<close>,
  \<open>Settings_Subs\<close>, \<open>Vm_Writer\<close> and \<open>Vl_Push\<close> interleave them. Times are \<open>int\<close> nanoseconds since year 1 with
  64-bit durations that wrap (\<open>wrap64\<close>); timestamps in tables are the texts the code writes, compared byte by byte as SQLite does.
  Floating-point numbers are exact rationals, so statements about averages and shares are about the exact quotients.
\<close>

text \<open>
  Theories and sources.

  Foundations. \<open>Prelude\<close>: errors, faults, byte strings, row lists. \<open>Json\<close>: documents and their decoding into structs and maps
  (\<open>encoding/json\<close>). \<open>Go_Time\<close>: the calendar, formatting and parsing of package \<open>time\<close>, with \<open>Parse\<close> after \<open>Format\<close>
  the identity and the order of texts that of instants. \<open>Encodings\<close>: base64, \<open>Split\<close> and \<open>Join\<close>, decimal numbers. \<open>Bounded_Buffer\<close>:
  channels that never block the sender, as locales for the two policies of the program, both instances of one contract for lossy
  buffers; they are interpreted on the token-touch queue, the hub's subscriber channels, the log queue, and the
  notifier's and writer's rings (\<open>Drop_Oldest\<close>). \<open>Paging\<close>: keyset pagination as a locale, interpreted on the listing of runs.

  Store. \<open>Database\<close> (tables of \<open>migrations/*.sql\<close>), \<open>Queue_Store\<close> (\<open>queues.go\<close>), \<open>Target_Store\<close> and \<open>Target_Props\<close> (\<open>targets.go\<close>,
  \<open>target_revisions.go\<close>), \<open>Run_Store\<close> (\<open>runs.go\<close>, \<open>reap.go\<close>), \<open>Result_Store\<close> (\<open>results.go\<close>, \<open>tags.go\<close>),
  \<open>Schedule_Store\<close> (\<open>schedules.go\<close>), \<open>Session_Store\<close> (\<open>sessions.go\<close>, \<open>tokens.go\<close>), and the reports: \<open>Outages\<close> (\<open>outages.go\<close>),
  \<open>History\<close> (\<open>history.go\<close>), \<open>Summary\<close> (\<open>summary.go\<close>). Their lemmas give the invariant of each table group and that every operation
  keeps it, paging without loss or repetition, the round trip of delete and restore, and for each report its equality with a
  reference reading of the tables.

  Runner and scheduler. \<open>Rotate\<close> (\<open>rotate.go\<close>) and \<open>Runner\<close> (\<open>runner.go\<close>): one definition per critical section. \<open>Claims\<close> is the
  abstract protocol behind the runner's bookkeeping (one owner per run id), stated as a step relation with its invariant; \<open>Runner_Steps\<close>
  interleaves any number of calls and workers, and \<open>Runner_Sim\<close> proves by simulation that it follows the protocol. The locale
  \<open>event_system\<close> with its extension \<open>simulation\<close> carries invariants across; it is interpreted on the runner; \<open>run_status_store\<close> states what the runner needs of the stored status and is interpreted on \<open>Run_Store\<close>. \<open>Runner_Events\<close>, \<open>Runner_Seq\<close>,
  \<open>Runner_Props\<close> (with the executions of \<open>Runner_Demo\<close>) state what follows: one active run per schedule, one writer of the final status, no run left
  behind, truthful events, no overlap in a queue, one row per target. \<open>Overlap\<close> (\<open>cronspec.go\<close>, \<open>overlap.go\<close>), \<open>Scheduler\<close> and
  \<open>Scheduler_Props\<close> (\<open>scheduler.go\<close>): overlap warnings, what a fire leaves, what a reload installs.

  Engines. \<open>Iperf3\<close> and \<open>Iperf3_Props\<close> (\<open>engine/iperf3\<close>, \<open>execx/tailbuffer.go\<close>): options, arguments, output parsers and the retries on
  busy ports, over the output of the program as a parameter; a host the runner rotates to is a host the engine accepts and tests.
  \<open>Iperf3_List\<close> and \<open>Iperf3_List_Props\<close> (\<open>store/iperf3servers.go\<close>, \<open>iperf3list\<close>, \<open>api/iperf3.go\<close>): the cached list of public servers is always one
  whole snapshot, and a search finds exactly the servers that contain the text.

  Sinks and streams. \<open>Sse_Hub\<close> (\<open>hub.go\<close>, \<open>handler.go\<close>), \<open>Notify_Eval\<close> (\<open>evaluate.go\<close>, \<open>message.go\<close>), \<open>Notifier\<close> and \<open>Notifier_Props\<close>
  (\<open>notifier.go\<close>, \<open>channels.go\<close>, the store's \<open>notifications.go\<close>), \<open>Vm_Format\<close> and \<open>Vm_Writer\<close> (\<open>vmpush\<close>), \<open>Vl_Push\<close> (\<open>vlpush.go\<close>):
  no channel panic, exact accounting of what is delivered, dropped or still held, ordering, cooldown and quiet hours, payloads that read back.

  Settings. \<open>Settings_Values\<close>, \<open>Settings\<close>, \<open>Settings_Env\<close> (\<open>settings.go\<close>, \<open>env.go\<close>, \<open>export_auth.go\<close>), \<open>Settings_Subs\<close> (the subscriber pump),
  \<open>Settings_Props\<close>; \<open>Settings_Body\<close>, \<open>Settings_Api\<close>, \<open>Settings_Api_Props\<close>, \<open>Settings_Echo\<close>, \<open>Token_Props\<close> (\<open>api/settings.go\<close>, \<open>tokens.go\<close>, \<open>me.go\<close>):
  the table keeps the type of every key, a refused document changes nothing, an echoed document changes nothing, secrets stay where they
  belong, nobody is locked out.

  Access. \<open>Auth_Middleware\<close> and \<open>Auth_Props\<close> (\<open>auth.go\<close>), \<open>Oidc\<close> and \<open>Oidc_Props\<close> (\<open>state.go\<close>, \<open>oidcauth.go\<close>, \<open>api/oidc.go\<close>): what a served request
  had to present, what a session requires and how it ends. The locale \<open>token_directory\<close> states what the middleware needs of a token table.

  Handlers. \<open>Report_Api\<close> (\<open>api/history.go\<close>, \<open>stats.go\<close>), \<open>Resource_Api\<close> and \<open>Resource_Props\<close> (\<open>api/targets.go\<close>, \<open>revisions.go\<close>, \<open>queues.go\<close>, \<open>tags.go\<close>,
  \<open>results.go\<close>, \<open>runs.go\<close>, the write guard of \<open>api.go\<close>, \<open>engine/registry.go\<close>), \<open>Schedule_Api\<close> and \<open>Schedule_Props\<close> (\<open>api/schedules.go\<close> over
  store, runner and scheduler): fresh summaries, valid targets through any sequence of requests, tags that read back, and
  when a saved schedule is really registered. \<open>Prune\<close> and \<open>Prune_Props\<close> (\<open>prune.go\<close>): a retention pass returns and equals three
  unlimited deletes; the locale \<open>batch_delete\<close> is interpreted on results and on runs.
\<close>

text \<open>
  Bounds and fuel. The batch loop of the retention job is a partial function whose value \<open>None\<close> is a loop that never returns, and it is proved to return. The walk over all pages
  takes one step per page and is proved to need no more than there are rows. Fire times are cut at the 2000 of the source, next runs at
  the 5 it asks for. Everything else recurses on its data or with a measure.

  Parameters. What is not under \<open>src/\<close> is an argument: the cron library and the time zone database (\<open>cron_lib\<close>, \<open>cron_api\<close>), SHA-256, random bytes and
  address prefixes (\<open>auth_lib\<close>), URL parsing and the Apprise library (\<open>api_lib\<close>), the OpenID provider, HTTP answers, the engines' programs, SQLite's
  \<open>strftime\<close>. Where a property needs documented behaviour of one of them, it is a named hypothesis with a concrete instance in the witness.

  Not modelled. The wiring in \<open>cmd/speedtest-tracker\<close> and \<open>config\<close>: flags, construction and goroutine start-up without logic of its own. The other engines (\<open>engine/cloudflare\<close>,
  \<open>ookla\<close>, \<open>fake\<close>, \<open>execx\<close>): they drive external programs and HTTP transfers; the runner sees an engine as a function from options to progress
  updates and an outcome. Server search (\<open>ooklaweb\<close>, \<open>api/ookla.go\<close>): the remote Ookla search. Router and
  document glue around chi and huma (\<open>api/huma.go\<close>, \<open>openapi.go\<close>, \<open>etag.go\<close>, \<open>csv.go\<close>), Prometheus collectors (\<open>metrics\<close>), the embedded web files, and the
  one-off migrations (\<open>store/migrate.go\<close>, \<open>notify/migrate.go\<close>). Log lines are left out everywhere, contexts appear only as the choices they allow.
\<close>

end
